(* ===== verification/Nib_Prelude.thy ===== *)
theory Nib_Prelude
  imports Main "HOL-Library.Word"
begin

text \<open>
  Shared vocabulary of the development: the collections of rules that the component theories
  feed, C characters and strings, the conversions between the C integer types the tool chain
  uses, and the sequential programs (a state, a result or an abnormal stop) in which the
  assembler is written.
\<close>

unbundle bit_operations_syntax

named_theorems prog_defs \<open>definitions of the program combinators\<close>
named_theorems valid_rules \<open>rules that derive a triple from the shape of a program\<close>
named_theorems sim_rules \<open>rules that derive a simulation from the shape of a program\<close>

section \<open>C characters and strings\<close>

text \<open>
  A C string is the list of its characters before the terminating NUL. The classification
  functions are those of the C locale.
\<close>

type_synonym byte = "8 word"

definition code :: "char \<Rightarrow> nat" where
  "code c = of_char c"

definition isdigit :: "char \<Rightarrow> bool" where
  "isdigit c \<longleftrightarrow> 48 \<le> code c \<and> code c \<le> 57"

definition isupper :: "char \<Rightarrow> bool" where
  "isupper c \<longleftrightarrow> 65 \<le> code c \<and> code c \<le> 90"

definition islower :: "char \<Rightarrow> bool" where
  "islower c \<longleftrightarrow> 97 \<le> code c \<and> code c \<le> 122"

definition isalpha :: "char \<Rightarrow> bool" where
  "isalpha c \<longleftrightarrow> isupper c \<or> islower c"

definition isalnum :: "char \<Rightarrow> bool" where
  "isalnum c \<longleftrightarrow> isalpha c \<or> isdigit c"

definition isxdigit :: "char \<Rightarrow> bool" where
  "isxdigit c \<longleftrightarrow> isdigit c \<or> (65 \<le> code c \<and> code c \<le> 70) \<or> (97 \<le> code c \<and> code c \<le> 102)"

definition isspace :: "char \<Rightarrow> bool" where
  "isspace c \<longleftrightarrow> code c = 32 \<or> (9 \<le> code c \<and> code c \<le> 13)"

definition tolower :: "char \<Rightarrow> char" where
  "tolower c = (if isupper c then char_of (code c + 32) else c)"

text \<open>\<^verbatim>\<open>*p\<close> and \<^verbatim>\<open>p[i]\<close> for an index that does not pass the terminating NUL.\<close>

definition char_at :: "string \<Rightarrow> nat \<Rightarrow> char" where
  "char_at s i = (if i < length s then s ! i else CHR 0x00)"

text \<open>\<^verbatim>\<open>strcasecmp(a, b) == 0\<close> and \<^verbatim>\<open>strncasecmp(a, b, n) == 0\<close>.\<close>

definition strcaseeq :: "string \<Rightarrow> string \<Rightarrow> bool" where
  "strcaseeq a b \<longleftrightarrow> map tolower a = map tolower b"

definition strncaseeq :: "string \<Rightarrow> string \<Rightarrow> nat \<Rightarrow> bool" where
  "strncaseeq a b n \<longleftrightarrow> map tolower (take n a) = map tolower (take n b)"

definition strneq :: "string \<Rightarrow> string \<Rightarrow> nat \<Rightarrow> bool" where
  "strneq a b n \<longleftrightarrow> take n a = take n b"

lemma strcaseeq_refl [simp]: "strcaseeq a a"
  by (simp add: strcaseeq_def)

lemma strcaseeq_sym: "strcaseeq a b \<Longrightarrow> strcaseeq b a"
  by (simp add: strcaseeq_def)

lemma strcaseeq_trans: "strcaseeq a b \<Longrightarrow> strcaseeq b c \<Longrightarrow> strcaseeq a c"
  by (simp add: strcaseeq_def)

lemma takeWhile_until: "c \<notin> set xs \<Longrightarrow> takeWhile (\<lambda>x. x \<noteq> c) (xs @ ys) = xs @ takeWhile (\<lambda>x. x \<noteq> c) ys"
  by (induction xs) auto

lemmas char_class_defs =
  isdigit_def isupper_def islower_def isalpha_def isalnum_def isxdigit_def isspace_def
  tolower_def code_def

text \<open>
  Equations on the bits of a character, for evaluation: a letter's case is bit 5.
\<close>

definition letter_bits :: "bool \<Rightarrow> bool \<Rightarrow> bool \<Rightarrow> bool \<Rightarrow> bool \<Rightarrow> bool" where
  "letter_bits b0 b1 b2 b3 b4 \<longleftrightarrow>
     (b0 \<or> b1 \<or> b2 \<or> b3 \<or> b4) \<and> \<not> (b4 \<and> b3 \<and> (b2 \<or> b1 \<and> b0))"

lemma isupper_bits [code]:
  "isupper (Char b0 b1 b2 b3 b4 b5 b6 b7) \<longleftrightarrow> b6 \<and> \<not> b5 \<and> \<not> b7 \<and> letter_bits b0 b1 b2 b3 b4"
  by (cases b0; cases b1; cases b2; cases b3; cases b4; cases b5; cases b6; cases b7)
    (simp_all add: isupper_def code_def letter_bits_def)

lemma islower_bits [code]:
  "islower (Char b0 b1 b2 b3 b4 b5 b6 b7) \<longleftrightarrow> b6 \<and> b5 \<and> \<not> b7 \<and> letter_bits b0 b1 b2 b3 b4"
  by (cases b0; cases b1; cases b2; cases b3; cases b4; cases b5; cases b6; cases b7)
    (simp_all add: islower_def code_def letter_bits_def)

lemma isdigit_bits [code]:
  "isdigit (Char b0 b1 b2 b3 b4 b5 b6 b7) \<longleftrightarrow>
     b4 \<and> b5 \<and> \<not> b6 \<and> \<not> b7 \<and> \<not> (b3 \<and> (b2 \<or> b1))"
  by (cases b0; cases b1; cases b2; cases b3; cases b4; cases b5; cases b6; cases b7)
    (simp_all add: isdigit_def code_def)

lemma isxdigit_bits [code]:
  "isxdigit (Char b0 b1 b2 b3 b4 b5 b6 b7) \<longleftrightarrow>
     (b4 \<and> b5 \<and> \<not> b6 \<and> \<not> b7 \<and> \<not> (b3 \<and> (b2 \<or> b1))) \<or>
     (b6 \<and> \<not> b7 \<and> \<not> b4 \<and> \<not> b3 \<and> (b0 \<or> b1 \<or> b2) \<and> \<not> (b0 \<and> b1 \<and> b2))"
  by (cases b0; cases b1; cases b2; cases b3; cases b4; cases b5; cases b6; cases b7)
    (simp_all add: isxdigit_def isdigit_def code_def)

lemma isspace_bits [code]:
  "isspace (Char b0 b1 b2 b3 b4 b5 b6 b7) \<longleftrightarrow>
     \<not> b4 \<and> \<not> b6 \<and> \<not> b7 \<and>
     (if b5 then \<not> b0 \<and> \<not> b1 \<and> \<not> b2 \<and> \<not> b3
      else b3 \<and> (b0 \<or> b1 \<or> b2) \<and> \<not> (b1 \<and> b2))"
  by (cases b0; cases b1; cases b2; cases b3; cases b4; cases b5; cases b6; cases b7)
    (simp_all add: isspace_def code_def)

lemma tolower_bits [code]:
  "tolower (Char b0 b1 b2 b3 b4 b5 b6 b7) =
     Char b0 b1 b2 b3 b4 (b5 \<or> (b6 \<and> \<not> b7 \<and> letter_bits b0 b1 b2 b3 b4)) b6 b7"
  by (cases b0; cases b1; cases b2; cases b3; cases b4; cases b5; cases b6; cases b7)
    (simp_all add: tolower_def isupper_bits letter_bits_def code_def char_of_def bit_0)

lemma strcaseeq_code [code]:
  "strcaseeq [] [] \<longleftrightarrow> True"
  "strcaseeq [] (b # bs) \<longleftrightarrow> False"
  "strcaseeq (a # as) [] \<longleftrightarrow> False"
  "strcaseeq (a # as) (b # bs) \<longleftrightarrow> (if tolower a = tolower b then strcaseeq as bs else False)"
  by (simp_all add: strcaseeq_def)

text \<open>
  \<^verbatim>\<open>snprintf(buf, sz, "%s", s)\<close>, and \<^verbatim>\<open>strncpy\<close> into a buffer of
  \<open>sz\<close> bytes whose last byte is set to NUL: the first \<open>sz - 1\<close> characters.
\<close>

definition snprintf_s :: "nat \<Rightarrow> string \<Rightarrow> string" where
  "snprintf_s sz s = take (sz - 1) s"

section \<open>C integers\<close>

text \<open>
  \<^verbatim>\<open>int\<close> is 32 bits wide. Signed overflow is undefined in C; the model gives it the
  two's complement result. A conversion to \<^verbatim>\<open>int\<close> keeps the low 32 bits.
\<close>

definition c_int :: "int \<Rightarrow> int" where
  "c_int x = signed_take_bit 31 x"

definition long_max :: int where
  "long_max = 2 ^ 63 - 1"

definition long_min :: int where
  "long_min = - (2 ^ 63)"

lemma c_int_range: "- (2 ^ 31) \<le> c_int x \<and> c_int x < 2 ^ 31"
  unfolding c_int_def
  using signed_take_bit_int_greater_eq_minus_exp [of 31 x] signed_take_bit_int_less_exp [of 31 x]
  by simp

lemma c_int_id: "- (2 ^ 31) \<le> x \<Longrightarrow> x < 2 ^ 31 \<Longrightarrow> c_int x = x"
  unfolding c_int_def by (rule signed_take_bit_int_eq_self) simp_all

lemma c_int_idem [simp]: "c_int (c_int x) = c_int x"
  by (simp add: c_int_def)

lemma unat_byte_lt [simp]: "unat (b :: byte) < 256"
proof -
  have "unat b < 2 ^ LENGTH(8)" by (rule unsigned_less)
  then show ?thesis by simp
qed

definition digit_val :: "char \<Rightarrow> nat option" where
  "digit_val c =
     (if isdigit c then Some (code c - 48)
      else if islower c then Some (code c - 87)
      else if isupper c then Some (code c - 55)
      else None)"

definition in_base :: "nat \<Rightarrow> char \<Rightarrow> bool" where
  "in_base b c = (case digit_val c of None \<Rightarrow> False | Some d \<Rightarrow> d < b)"

definition digits_val :: "nat \<Rightarrow> string \<Rightarrow> int" where
  "digits_val b ds = foldl (\<lambda>acc c. acc * int b + int (the (digit_val c))) 0 ds"

text \<open>
  \<^verbatim>\<open>strtol\<close>: white space, a sign, an optional \<^verbatim>\<open>0x\<close> in base 16, the
  digits; the value saturates at the bounds of \<^verbatim>\<open>long\<close>. With no digit the value is 0
  and the end pointer is the start.
\<close>

definition strtol :: "nat \<Rightarrow> string \<Rightarrow> int \<times> string" where
  "strtol b s =
     (let s1 = dropWhile isspace s;
          neg = (char_at s1 0 = CHR ''-'');
          s2 = (if neg \<or> char_at s1 0 = CHR ''+'' then tl s1 else s1);
          s3 = (if b = 16 \<and> char_at s2 0 = CHR ''0'' \<and>
                   (char_at s2 1 = CHR ''x'' \<or> char_at s2 1 = CHR ''X'') \<and> isxdigit (char_at s2 2)
                then drop 2 s2 else s2);
          ds = takeWhile (in_base b) s3;
          v = (if neg then - digits_val b ds else digits_val b ds)
      in if ds = [] then (0, s)
         else (max long_min (min long_max v), drop (length ds) s3))"

lemma strtol_rest_length: "length (snd (strtol b s)) \<le> length s"
proof -
  have *: "length (dropWhile isspace s) \<le> length s"
    by (rule length_dropWhile_le)
  then show ?thesis
    by (auto simp: strtol_def Let_def)
qed

text \<open>\<^verbatim>\<open>printf("%d", n)\<close>\<close>

fun dec_digits :: "nat \<Rightarrow> string" where
  "dec_digits n = (if n < 10 then [char_of (48 + n)] else dec_digits (n div 10) @ [char_of (48 + n mod 10)])"

declare dec_digits.simps [simp del]

definition dec_int :: "int \<Rightarrow> string" where
  "dec_int n = (if n < 0 then ''-'' @ dec_digits (nat (- n)) else dec_digits (nat n))"

section \<open>Predicates on optional values\<close>

lemma pred_option_if:
  "(b \<Longrightarrow> pred_option P x) \<Longrightarrow> (\<not> b \<Longrightarrow> pred_option P y) \<Longrightarrow> pred_option P (if b then x else y)"
  by simp

lemma pred_option_case:
  "pred_option P x \<Longrightarrow> (\<And>y. pred_option P (f y)) \<Longrightarrow>
   pred_option P (case v of None \<Rightarrow> x | Some y \<Rightarrow> f y)"
  by (cases v) auto

lemma pred_option_SomeI: "P x \<Longrightarrow> pred_option P (Some x)"
  by simp

lemma pred_option_NoneI: "pred_option P None"
  by simp

lemmas pred_option_rules =
  pred_option_if pred_option_case pred_option_SomeI pred_option_NoneI

section \<open>Hexadecimal text\<close>

definition hex_digit :: "nat \<Rightarrow> char" where
  "hex_digit d = (if d < 10 then char_of (48 + d) else char_of (55 + d))"

fun hex_digits :: "nat \<Rightarrow> string" where
  "hex_digits n = (if n < 16 then [hex_digit n] else hex_digits (n div 16) @ [hex_digit (n mod 16)])"

declare hex_digits.simps [simp del]

text \<open>\<^verbatim>\<open>printf("%0wX", n)\<close>\<close>

definition hex_fmt :: "nat \<Rightarrow> nat \<Rightarrow> string" where
  "hex_fmt w n = (let ds = hex_digits n in replicate (w - length ds) (CHR ''0'') @ ds)"

text \<open>\<^verbatim>\<open>%X\<close> of an \<^verbatim>\<open>int\<close> prints its 32 bits as an unsigned number.\<close>

definition hex_int :: "nat \<Rightarrow> int \<Rightarrow> string" where
  "hex_int w n = hex_fmt w (nat (take_bit 32 n))"

section \<open>Lines of a file\<close>

definition blank :: "char \<Rightarrow> bool" where
  "blank c \<longleftrightarrow> c = CHR '' '' \<or> c = CHR 0x09"

text \<open>Repeated \<^verbatim>\<open>fgets(line, sz, fp)\<close>: a line ends with its newline or after \<open>sz - 1\<close>
  characters.\<close>

definition fgets_one :: "nat \<Rightarrow> string \<Rightarrow> string" where
  "fgets_one n s =
     (let t = take n s; l = takeWhile (\<lambda>c. c \<noteq> CHR 0x0A) t
      in if length l < length t then l @ [CHR 0x0A] else t)"

lemma fgets_one_length: "s \<noteq> [] \<Longrightarrow> 0 < n \<Longrightarrow> fgets_one n s \<noteq> []"
  by (cases s; cases n) (auto simp: fgets_one_def Let_def)

function fgets_all :: "nat \<Rightarrow> string \<Rightarrow> string list" where
  "fgets_all sz s =
     (if s = [] \<or> sz < 2 then []
      else fgets_one (sz - 1) s # fgets_all sz (drop (length (fgets_one (sz - 1) s)) s))"
  by pat_completeness auto
termination
proof (relation "measure (\<lambda>(sz, s). length s)", goal_cases)
  case (2 sz s)
  then show ?case using fgets_one_length [of s "sz - 1"] by auto
qed simp

declare fgets_all.simps [simp del]

section \<open>Sequential programs\<close>

text \<open>
  A program over a state either stops (an \<^verbatim>\<open>exit\<close>, undefined behaviour, a loop
  without end: \<open>Inl\<close>) or yields a result and the new state (\<open>Inr\<close>).
\<close>

type_synonym ('s, 'e, 'a) prog = "'s \<Rightarrow> 'e + ('a \<times> 's)"

definition ret :: "'a \<Rightarrow> ('s, 'e, 'a) prog" where
  [prog_defs]: "ret a = (\<lambda>s. Inr (a, s))"

definition bnd :: "('s, 'e, 'a) prog \<Rightarrow> ('a \<Rightarrow> ('s, 'e, 'b) prog) \<Rightarrow> ('s, 'e, 'b) prog" where
  [prog_defs]: "bnd m k = (\<lambda>s. case m s of Inl e \<Rightarrow> Inl e | Inr (a, s') \<Rightarrow> k a s')"

definition andthen :: "('s, 'e, unit) prog \<Rightarrow> ('s, 'e, 'b) prog \<Rightarrow> ('s, 'e, 'b) prog" where
  [prog_defs]: "andthen m n = bnd m (\<lambda>_. n)"

definition gets :: "('s \<Rightarrow> 'a) \<Rightarrow> ('s, 'e, 'a) prog" where
  [prog_defs]: "gets f = (\<lambda>s. Inr (f s, s))"

definition modify :: "('s \<Rightarrow> 's) \<Rightarrow> ('s, 'e, unit) prog" where
  [prog_defs]: "modify f = (\<lambda>s. Inr ((), f s))"

definition stop :: "'e \<Rightarrow> ('s, 'e, 'a) prog" where
  [prog_defs]: "stop e = (\<lambda>s. Inl e)"

text \<open>A list of statements, executed in order.\<close>

fun block :: "('s, 'e, unit) prog list \<Rightarrow> ('s, 'e, unit) prog" where
  "block [] = ret ()"
| "block (m # ms) = andthen m (block ms)"

text \<open>A loop over the elements of a list.\<close>

fun for_each :: "'a list \<Rightarrow> ('a \<Rightarrow> ('s, 'e, unit) prog) \<Rightarrow> ('s, 'e, unit) prog" where
  "for_each [] f = ret ()"
| "for_each (x # xs) f = andthen (f x) (for_each xs f)"

lemma bnd_assoc: "bnd (bnd m k) h = bnd m (\<lambda>a. bnd (k a) h)"
  by (rule ext) (simp add: bnd_def split: sum.split)

lemma bnd_ret [simp]: "bnd (ret a) k = k a"
  by (simp add: bnd_def ret_def)

lemma ret_bnd [simp]: "bnd m ret = m"
  by (rule ext) (simp add: bnd_def ret_def split: sum.split)

lemma andthen_ret [simp]: "andthen m (ret ()) = m"
  by (rule ext) (simp add: andthen_def bnd_def ret_def split: sum.split)

lemma ret_andthen [simp]: "andthen (ret ()) m = m"
  by (simp add: andthen_def)

lemma andthen_assoc: "andthen (andthen m n) p = andthen m (andthen n p)"
  by (simp add: andthen_def bnd_assoc)

lemma block_append: "block (xs @ ys) = andthen (block xs) (block ys)"
  by (induction xs) (simp_all add: andthen_assoc)

lemma for_each_append: "for_each (xs @ ys) f = andthen (for_each xs f) (for_each ys f)"
  by (induction xs) (simp_all add: andthen_assoc)

subsection \<open>Triples\<close>

text \<open>
  \<open>valid P m Q E\<close>: started in a state with \<open>P\<close>, the program either stops with a reason in
  \<open>E\<close> or returns a result and a state in \<open>Q\<close>.
\<close>

definition valid ::
  "('s \<Rightarrow> bool) \<Rightarrow> ('s, 'e, 'a) prog \<Rightarrow> ('a \<Rightarrow> 's \<Rightarrow> bool) \<Rightarrow> ('e \<Rightarrow> bool) \<Rightarrow> bool" where
  "valid P m Q E \<longleftrightarrow>
     (\<forall>s. P s \<longrightarrow> (case m s of Inl e \<Rightarrow> E e | Inr (a, s') \<Rightarrow> Q a s'))"

lemma validI:
  "(\<And>s e. P s \<Longrightarrow> m s = Inl e \<Longrightarrow> E e) \<Longrightarrow>
   (\<And>s a s'. P s \<Longrightarrow> m s = Inr (a, s') \<Longrightarrow> Q a s') \<Longrightarrow> valid P m Q E"
  by (auto simp: valid_def split: sum.split)

lemma valid_Inr: "valid P m Q E \<Longrightarrow> P s \<Longrightarrow> m s = Inr (a, s') \<Longrightarrow> Q a s'"
  by (force simp: valid_def)

lemma valid_Inl: "valid P m Q E \<Longrightarrow> P s \<Longrightarrow> m s = Inl e \<Longrightarrow> E e"
  by (force simp: valid_def)

lemma valid_weaken:
  "valid P m Q E \<Longrightarrow> (\<And>s. P' s \<Longrightarrow> P s) \<Longrightarrow> (\<And>a s. Q a s \<Longrightarrow> Q' a s) \<Longrightarrow> valid P' m Q' E"
  unfolding valid_def by (fastforce split: sum.splits)

lemma valid_bnd:
  "valid P m R E \<Longrightarrow> (\<And>a. valid (R a) (k a) Q E) \<Longrightarrow> valid P (bnd m k) Q E"
  unfolding valid_def bnd_def by (fastforce split: sum.splits)

text \<open>
  The invariant form: \<open>keeps I E m\<close> says that \<open>m\<close> keeps \<open>I\<close> whatever it returns. Its rules
  follow the shape of a program, so that the rules for the primitive operations carry over to
  every program built from them.
\<close>

definition keeps :: "('s \<Rightarrow> bool) \<Rightarrow> ('e \<Rightarrow> bool) \<Rightarrow> ('s, 'e, 'a) prog \<Rightarrow> bool" where
  "keeps I E m \<longleftrightarrow> valid I m (\<lambda>_. I) E"

lemma keeps_Inr: "keeps I E m \<Longrightarrow> I s \<Longrightarrow> m s = Inr (a, s') \<Longrightarrow> I s'"
  unfolding keeps_def by (rule valid_Inr)

lemma keeps_Inl: "keeps I E m \<Longrightarrow> I s \<Longrightarrow> m s = Inl e \<Longrightarrow> E e"
  unfolding keeps_def by (rule valid_Inl)

lemma keepsI:
  "(\<And>s e. I s \<Longrightarrow> m s = Inl e \<Longrightarrow> E e) \<Longrightarrow>
   (\<And>s a s'. I s \<Longrightarrow> m s = Inr (a, s') \<Longrightarrow> I s') \<Longrightarrow> keeps I E m"
  unfolding keeps_def by (rule validI)

lemma keeps_ret [valid_rules]: "keeps I E (ret a)"
  by (rule keepsI) (auto simp: ret_def)

lemma keeps_gets [valid_rules]: "keeps I E (gets f)"
  by (rule keepsI) (auto simp: gets_def)

lemma keeps_bnd [valid_rules]:
  "keeps I E m \<Longrightarrow> (\<And>a. keeps I E (k a)) \<Longrightarrow> keeps I E (bnd m k)"
  unfolding keeps_def by (rule valid_bnd)

lemma keeps_andthen [valid_rules]: "keeps I E m \<Longrightarrow> keeps I E n \<Longrightarrow> keeps I E (andthen m n)"
  unfolding andthen_def by (rule keeps_bnd)

lemma keeps_modify: "(\<And>s. I s \<Longrightarrow> I (f s)) \<Longrightarrow> keeps I E (modify f)"
  by (rule keepsI) (auto simp: modify_def)

lemma keeps_if [valid_rules]:
  "(b \<Longrightarrow> keeps I E m) \<Longrightarrow> (\<not> b \<Longrightarrow> keeps I E n) \<Longrightarrow> keeps I E (if b then m else n)"
  by simp

lemma keeps_block_nil [valid_rules]: "keeps I E (block [])"
  by (simp add: keeps_ret)

lemma keeps_block_cons [valid_rules]:
  "keeps I E m \<Longrightarrow> keeps I E (block ms) \<Longrightarrow> keeps I E (block (m # ms))"
  by (simp add: keeps_andthen)

lemma keeps_for_each [valid_rules]:
  "(\<And>x. x \<in> set xs \<Longrightarrow> keeps I E (f x)) \<Longrightarrow> keeps I E (for_each xs f)"
  by (induction xs) (auto intro: valid_rules)

lemma keeps_option_case [valid_rules]:
  "keeps I E m \<Longrightarrow> (\<And>x. keeps I E (k x)) \<Longrightarrow> keeps I E (case v of None \<Rightarrow> m | Some x \<Rightarrow> k x)"
  by (cases v) auto

lemma keeps_prod_case [valid_rules]:
  "(\<And>x y. keeps I E (k x y)) \<Longrightarrow> keeps I E (case p of (x, y) \<Rightarrow> k x y)"
  by (cases p) auto

subsection \<open>Simulations\<close>

text \<open>
  \<open>sim R m\<close>: where the second of two related runs of \<open>m\<close> returns, so does the first, with the
  same result and in a related state.
\<close>

definition sim :: "('s \<Rightarrow> 's \<Rightarrow> bool) \<Rightarrow> ('s, 'e, 'a) prog \<Rightarrow> bool" where
  "sim R m \<longleftrightarrow>
     (\<forall>s t b t'. R s t \<longrightarrow> m t = Inr (b, t') \<longrightarrow> (\<exists>s'. m s = Inr (b, s') \<and> R s' t'))"

lemma simI:
  "(\<And>s t b t'. R s t \<Longrightarrow> m t = Inr (b, t') \<Longrightarrow> \<exists>s'. m s = Inr (b, s') \<and> R s' t') \<Longrightarrow> sim R m"
  by (simp add: sim_def)

lemma simD: "sim R m \<Longrightarrow> R s t \<Longrightarrow> m t = Inr (b, t') \<Longrightarrow> \<exists>s'. m s = Inr (b, s') \<and> R s' t'"
  by (simp add: sim_def)

lemma sim_ret [sim_rules]: "sim R (ret a)"
  by (rule simI) (auto simp: ret_def)

lemma sim_stop [sim_rules]: "sim R (stop e)"
  by (rule simI) (auto simp: stop_def)

lemma sim_gets: "(\<And>s t. R s t \<Longrightarrow> f s = f t) \<Longrightarrow> sim R (gets f)"
  by (rule simI) (auto simp: gets_def)

lemma sim_modify: "(\<And>s t. R s t \<Longrightarrow> R (f s) (f t)) \<Longrightarrow> sim R (modify f)"
  by (rule simI) (auto simp: modify_def)

lemma sim_bnd [sim_rules]:
  assumes "sim R m" and "\<And>a. sim R (k a)"
  shows "sim R (bnd m k)"
proof (rule simI)
  fix s t b t'
  assume st: "R s t" and run: "bnd m k t = Inr (b, t')"
  from run obtain a t1 where m: "m t = Inr (a, t1)" and k: "k a t1 = Inr (b, t')"
    by (auto simp: bnd_def split: sum.splits)
  from simD [OF assms(1) st m] obtain s1 where "m s = Inr (a, s1)" and "R s1 t1"
    by blast
  moreover from simD [OF assms(2) \<open>R s1 t1\<close> k] obtain s' where "k a s1 = Inr (b, s')" and "R s' t'"
    by blast
  ultimately show "\<exists>s'. bnd m k s = Inr (b, s') \<and> R s' t'"
    by (simp add: bnd_def)
qed

lemma sim_andthen [sim_rules]: "sim R m \<Longrightarrow> sim R n \<Longrightarrow> sim R (andthen m n)"
  unfolding andthen_def by (rule sim_bnd)

lemma sim_if [sim_rules]:
  "(b \<Longrightarrow> sim R m) \<Longrightarrow> (\<not> b \<Longrightarrow> sim R n) \<Longrightarrow> sim R (if b then m else n)"
  by simp

lemma sim_block_nil [sim_rules]: "sim R (block [])"
  by (simp add: sim_ret)

lemma sim_block_cons [sim_rules]: "sim R m \<Longrightarrow> sim R (block ms) \<Longrightarrow> sim R (block (m # ms))"
  by (simp add: sim_andthen)

lemma sim_for_each [sim_rules]: "(\<And>x. x \<in> set xs \<Longrightarrow> sim R (f x)) \<Longrightarrow> sim R (for_each xs f)"
  by (induction xs) (auto intro: sim_rules)

lemma sim_option_case [sim_rules]:
  "sim R m \<Longrightarrow> (\<And>x. sim R (k x)) \<Longrightarrow> sim R (case v of None \<Rightarrow> m | Some x \<Rightarrow> k x)"
  by (cases v) auto

lemma sim_prod_case [sim_rules]:
  "(\<And>x y. sim R (k x y)) \<Longrightarrow> sim R (case p of (x, y) \<Rightarrow> k x y)"
  by (cases p) auto

end
