(* ===== verification/Nib_Table.thy ===== *)
theory Nib_Table
  imports Nib_Prelude
begin

text \<open>
  The growable tables of \<^verbatim>\<open>src/table.h\<close>: the capacity rule, the checked
  reallocation, and the \<^verbatim>\<open>NIB_VEC\<close> operations. \<^verbatim>\<open>size_t\<close> is 64 bits
  wide, the \<^verbatim>\<open>len\<close> and \<^verbatim>\<open>cap\<close> fields are \<^verbatim>\<open>int\<close>s. An
  allocation is decided by a parameter \<open>avail\<close>, which says whether the system grants a block
  of so many bytes.
\<close>

type_synonym size_t = "64 word"

definition size_max :: nat where
  "size_max = 2 ^ 64 - 1"

text \<open>\<^verbatim>\<open>nib_grow_capacity\<close>: doubling from 8 until the need is met, or the need itself
  when doubling would overflow.\<close>

function grow_loop :: "nat \<Rightarrow> nat \<Rightarrow> nat" where
  "grow_loop ncap need =
     (if ncap < need \<and> 0 < ncap
      then (if ncap > size_max div 2 then need else grow_loop (ncap * 2) need)
      else ncap)"
  by pat_completeness auto
termination
  by (relation "measure (\<lambda>(ncap, need). need - ncap)") auto

declare grow_loop.simps [simp del]

definition nib_grow_capacity :: "nat \<Rightarrow> nat \<Rightarrow> nat" where
  "nib_grow_capacity cap need = grow_loop (if cap \<noteq> 0 then cap else 8) need"

datatype alloc_error = Allocation_Overflow | Out_Of_Memory

text \<open>\<^verbatim>\<open>nib_xmalloc\<close>, \<^verbatim>\<open>nib_xcalloc\<close> and \<^verbatim>\<open>nib_xrealloc_array\<close>:
  the number of bytes granted, or the reason of the exit.\<close>

definition nib_xmalloc :: "(nat \<Rightarrow> bool) \<Rightarrow> nat \<Rightarrow> alloc_error + nat" where
  "nib_xmalloc avail sz =
     (let n = (if sz \<noteq> 0 then sz else 1)
      in if avail n then Inr n else Inl Out_Of_Memory)"

definition nib_xcalloc :: "(nat \<Rightarrow> bool) \<Rightarrow> nat \<Rightarrow> nat \<Rightarrow> alloc_error + nat" where
  "nib_xcalloc avail count sz =
     (let n = (if count \<noteq> 0 then count else 1) * (if sz \<noteq> 0 then sz else 1)
      in if n \<le> size_max \<and> avail n then Inr n else Inl Out_Of_Memory)"

definition nib_xrealloc_array :: "(nat \<Rightarrow> bool) \<Rightarrow> nat \<Rightarrow> nat \<Rightarrow> alloc_error + nat" where
  "nib_xrealloc_array avail count sz =
     (if sz \<noteq> 0 \<and> count > size_max div sz then Inl Allocation_Overflow
      else let bytes = (count * sz) mod 2 ^ 64
           in if \<not> avail bytes \<and> count \<noteq> 0 then Inl Out_Of_Memory else Inr bytes)"

text \<open>
  \<^verbatim>\<open>NIB_VEC(type)\<close>. The field \<open>items\<close> is the allocated array: its length is what the
  last reallocation granted, in elements; \<open>len\<close> of them are in use.
\<close>

record 'a vec =
  vitems :: "'a list"
  vlen :: int
  vcap :: int

definition NIB_VEC_INIT :: "'a vec" where
  "NIB_VEC_INIT = \<lparr>vitems = [], vlen = 0, vcap = 0\<rparr>"

text \<open>
  \<^verbatim>\<open>NIB_VEC_RESERVE(v, need, what)\<close>: \<open>fresh\<close> stands for the contents of new memory.
  The need converts to \<^verbatim>\<open>size_t\<close>, the granted capacity back to \<^verbatim>\<open>int\<close>.
\<close>

definition NIB_VEC_RESERVE ::
  "(nat \<Rightarrow> bool) \<Rightarrow> nat \<Rightarrow> 'a \<Rightarrow> 'a vec \<Rightarrow> int \<Rightarrow> alloc_error + 'a vec" where
  "NIB_VEC_RESERVE avail esize fresh v need =
     (if need > vcap v then
        let ncap = nib_grow_capacity (unat (word_of_int (vcap v) :: size_t))
                     (unat (word_of_int need :: size_t))
        in case nib_xrealloc_array avail ncap esize of
             Inl e \<Rightarrow> Inl e
           | Inr _ \<Rightarrow> Inr (v\<lparr>vitems := take ncap (vitems v @ replicate (ncap - length (vitems v)) fresh),
                            vcap := c_int (int ncap)\<rparr>)
      else Inr v)"

text \<open>\<^verbatim>\<open>*NIB_VEC_PUSH(v, what) = x\<close>: reserve, store at the old length, count one more.\<close>

definition NIB_VEC_PUSH ::
  "(nat \<Rightarrow> bool) \<Rightarrow> nat \<Rightarrow> 'a \<Rightarrow> 'a vec \<Rightarrow> 'a \<Rightarrow> alloc_error + 'a vec" where
  "NIB_VEC_PUSH avail esize fresh v x =
     (case NIB_VEC_RESERVE avail esize fresh v (c_int (vlen v + 1)) of
        Inl e \<Rightarrow> Inl e
      | Inr v' \<Rightarrow> Inr (v'\<lparr>vitems := (vitems v')[nat (vlen v') := x], vlen := c_int (vlen v' + 1)\<rparr>))"

text \<open>The list a vector stands for, and the well-formedness every operation relies on.\<close>

definition vec_list :: "'a vec \<Rightarrow> 'a list" where
  "vec_list v = take (nat (vlen v)) (vitems v)"

definition vec_ok :: "'a vec \<Rightarrow> bool" where
  "vec_ok v \<longleftrightarrow> 0 \<le> vlen v \<and> vlen v \<le> vcap v \<and> vcap v < 2 ^ 31 \<and> int (length (vitems v)) = vcap v"

section \<open>Capacity\<close>

lemma grow_loop_ge:
  "0 < ncap \<Longrightarrow> need \<le> grow_loop ncap need \<and> ncap \<le> max ncap (grow_loop ncap need)"
proof (induction ncap need rule: grow_loop.induct)
  case (1 ncap need)
  then show ?case
    by (subst (1 2) grow_loop.simps) auto
qed

lemma grow_loop_bound:
  "0 < ncap \<Longrightarrow> ncap < need \<Longrightarrow> grow_loop ncap need < 2 * need"
proof (induction ncap need rule: grow_loop.induct)
  case (1 ncap need)
  show ?case
  proof (cases "ncap > size_max div 2")
    case True
    with "1.prems" show ?thesis by (simp add: grow_loop.simps [of ncap need])
  next
    case False
    then show ?thesis
    proof (cases "ncap * 2 < need")
      case True
      with False "1.prems" "1.IH" show ?thesis by (simp add: grow_loop.simps [of ncap need])
    next
      case ge: False
      then have "grow_loop (ncap * 2) need = ncap * 2"
        by (simp add: grow_loop.simps [of "ncap * 2"])
      with False "1.prems" ge show ?thesis by (simp add: grow_loop.simps [of ncap need])
    qed
  qed
qed

lemma grow_capacity_ge: "need \<le> nib_grow_capacity cap need"
  unfolding nib_grow_capacity_def by (simp add: grow_loop_ge)

lemma grow_capacity_bound:
  "(if cap \<noteq> 0 then cap else 8) < need \<Longrightarrow> nib_grow_capacity cap need < 2 * need"
  unfolding nib_grow_capacity_def by (auto intro: grow_loop_bound)

lemma grow_capacity_small: "need \<le> 8 \<Longrightarrow> nib_grow_capacity 0 need = 8"
  by (simp add: nib_grow_capacity_def grow_loop.simps)

lemma grow_capacity_fits:
  assumes "0 \<le> c" "c < need" "need < 2 ^ 30"
  shows "nib_grow_capacity (nat c) (nat need) < 2 ^ 31"
proof (cases "(if nat c \<noteq> 0 then nat c else 8) < nat need")
  case True
  have "2 * nat need < 2 ^ 31" using assms by simp
  with grow_capacity_bound [OF True] show ?thesis by (rule less_trans)
next
  case False
  with assms have "nat c = 0" "nat need \<le> 8" by (auto split: if_splits)
  then show ?thesis by (simp add: grow_capacity_small)
qed

section \<open>Pushing\<close>

lemma unat_of_int_small:
  "0 \<le> x \<Longrightarrow> x < 2 ^ 31 \<Longrightarrow> unat (word_of_int x :: size_t) = nat x"
proof -
  assume x: "0 \<le> x" "x < 2 ^ 31"
  have "(2::int) ^ 31 < 2 ^ 64" by simp
  with x have "x < 2 ^ 64" by linarith
  with x show ?thesis by (simp add: unat_eq_nat_uint uint_word_of_int_eq take_bit_int_eq_self)
qed

lemma reserve_ok:
  assumes ok: "vec_ok v" and need: "0 \<le> need" "need < 2 ^ 30"
    and res: "NIB_VEC_RESERVE avail esize fresh v need = Inr v'"
  shows "vec_ok v' \<and> vec_list v' = vec_list v \<and> need \<le> vcap v' \<and> vlen v' = vlen v"
proof (cases "need > vcap v")
  case False
  with res ok show ?thesis by (simp add: NIB_VEC_RESERVE_def)
next
  case True
  define ncap where "ncap = nib_grow_capacity (nat (vcap v)) (nat need)"
  from ok have cap: "0 \<le> vcap v" "vcap v < 2 ^ 31" by (auto simp: vec_ok_def)
  have le: "nat need \<le> ncap" unfolding ncap_def by (rule grow_capacity_ge)
  have "ncap < 2 ^ 31"
    unfolding ncap_def using cap True need by (intro grow_capacity_fits) auto
  then have ci: "c_int (int ncap) = int ncap" by (intro c_int_id) auto
  have conv: "unat (word_of_int (vcap v) :: size_t) = nat (vcap v)"
      "unat (word_of_int need :: size_t) = nat need"
    using cap need by (auto intro!: unat_of_int_small)
  from res True have v': "v' = v\<lparr>vitems := take ncap (vitems v @ replicate (ncap - length (vitems v)) fresh),
      vcap := int ncap\<rparr>"
    by (simp add: NIB_VEC_RESERVE_def Let_def conv ncap_def [symmetric] ci split: sum.splits)
  have "length (vitems v) \<le> ncap" using ok True le unfolding vec_ok_def by linarith
  moreover have "vlen v \<le> int ncap" "vlen v \<le> int (length (vitems v))" "0 \<le> vlen v"
    using ok True le by (auto simp: vec_ok_def)
  ultimately show ?thesis
    using v' \<open>ncap < 2 ^ 31\<close> le by (auto simp: vec_ok_def vec_list_def min_def)
qed

lemma vec_init_ok: "vec_ok NIB_VEC_INIT \<and> vec_list NIB_VEC_INIT = []"
  by (simp add: NIB_VEC_INIT_def vec_ok_def vec_list_def)

lemma push_appends:
  assumes ok: "vec_ok v" and small: "vlen v < 2 ^ 30 - 1"
    and push: "NIB_VEC_PUSH avail esize fresh v x = Inr v'"
  shows "vec_ok v' \<and> vec_list v' = vec_list v @ [x]"
proof -
  have len0: "0 \<le> vlen v" using ok by (simp add: vec_ok_def)
  then have ci: "c_int (vlen v + 1) = vlen v + 1" using small by (intro c_int_id) auto
  from push obtain u where res: "NIB_VEC_RESERVE avail esize fresh v (vlen v + 1) = Inr u"
    and v': "v' = u\<lparr>vitems := (vitems u)[nat (vlen u) := x], vlen := c_int (vlen u + 1)\<rparr>"
    by (auto simp: NIB_VEC_PUSH_def ci split: sum.splits)
  from reserve_ok [OF ok _ _ res] small len0
  have u: "vec_ok u" "vec_list u = vec_list v" "vlen v + 1 \<le> vcap u" "vlen u = vlen v"
    by auto
  then have lt: "nat (vlen u) < length (vitems u)" using len0 by (auto simp: vec_ok_def)
  have "take (Suc (nat (vlen u))) ((vitems u)[nat (vlen u) := x]) = vec_list u @ [x]"
    using lt by (simp add: vec_list_def take_Suc_conv_app_nth)
  with v' u lt len0 ci show ?thesis
    by (auto simp: vec_ok_def vec_list_def nat_add_distrib)
qed

text \<open>With memory available and elements of a sane size, a push succeeds.\<close>

lemma push_succeeds:
  assumes ok: "vec_ok v" and small: "vlen v < 2 ^ 30 - 1"
    and esize: "0 < esize" "esize < 2 ^ 32" and avail: "\<And>n. avail n"
  shows "\<exists>v'. NIB_VEC_PUSH avail esize fresh v x = Inr v'"
proof -
  have len0: "0 \<le> vlen v" and capv: "0 \<le> vcap v" "vcap v < 2 ^ 31" using ok by (auto simp: vec_ok_def)
  have ci: "c_int (vlen v + 1) = vlen v + 1" using small len0 by (intro c_int_id) auto
  have "nib_grow_capacity (nat (vcap v)) (nat (vlen v + 1)) < 2 ^ 31" if "vlen v + 1 > vcap v"
    using capv that small by (intro grow_capacity_fits) auto
  moreover have "(2::nat) ^ 31 \<le> size_max div esize"
  proof -
    have "(2::nat) ^ 31 * esize \<le> 2 ^ 31 * 2 ^ 32" using esize by simp
    also have "\<dots> \<le> size_max" by (simp add: size_max_def)
    finally show ?thesis using esize by (simp add: less_eq_div_iff_mult_less_eq)
  qed
  ultimately have "vlen v + 1 > vcap v \<Longrightarrow>
      \<not> nib_grow_capacity (nat (vcap v)) (nat (vlen v + 1)) > size_max div esize"
    by linarith
  moreover have "unat (word_of_int (vcap v) :: size_t) = nat (vcap v)"
      "unat (word_of_int (vlen v + 1) :: size_t) = nat (vlen v + 1)"
    using unat_of_int_small [of "vcap v"] unat_of_int_small [of "vlen v + 1"] capv len0 small
    by simp_all
  ultimately show ?thesis
    by (auto simp del: of_int_add simp: NIB_VEC_PUSH_def NIB_VEC_RESERVE_def nib_xrealloc_array_def Let_def ci avail
        split: sum.splits)
qed

end
