(* ===== verification/Asm_State.thy ===== *)
theory Asm_State
  imports Nib_Prelude
begin

text \<open>
  The global state of the assembler (\<^verbatim>\<open>src/asm.c\<close>): the output image and the
  position in it, the label table, the lines whose branch has been relaxed, the tokenizer's
  position and its one token of look-ahead, and the operations that every handler is built from.
  A program of type \<open>asm\<close> returns, or stops: \<open>Fatal\<close> is \<^verbatim>\<open>exit(1)\<close>,
  \<open>Bad_Write\<close> a store outside the output buffer (undefined behaviour in C) and \<open>Diverges\<close>
  a loop that never ends.
\<close>

section \<open>Data\<close>

datatype toktype =
    T_EOF | T_EOL | T_IDENT | T_NUMBER | T_STRING
  | T_COMMA | T_COLON | T_LBRAK | T_RBRAK | T_PLUS | T_MINUS | T_STAR
  | T_LPAREN | T_RPAREN

record token =
  ttype :: toktype
  sval :: string
  ival :: int

definition tok :: "toktype \<Rightarrow> token" where
  "tok ty = \<lparr>ttype = ty, sval = [], ival = 0\<rparr>"

datatype label_type = LBL_CODE | LBL_DATA | LBL_EQU

record label_t =
  lname :: string
  lvalue :: int
  ldefined :: bool
  lltype :: label_type
  lsegment :: int

record org_state =
  os_org_base :: int
  os_out_pos :: int
  os_seg_base :: int

record dbg_entry =
  dbg_addr :: int
  dbg_file :: string
  dbg_line :: int

record asm_state =
  pending_dbg_file :: string
  pending_dbg_line :: int
  current_line :: int
  out_buf :: "int \<Rightarrow> byte"
  written :: "int \<Rightarrow> bool"
  out_pos :: int
  org_base :: int
  seg_base :: int
  org_stack :: "org_state list"
  pass :: nat
  errors :: nat
  relaxed_lines :: "int list"
  jcc_relaxed :: bool
  labels :: "label_t list"
  dbg_entries :: "dbg_entry list"
  line_ptr :: string
  peek :: token
  has_peek :: bool

datatype asm_stop = Fatal string | Bad_Write int | Diverges

type_synonym 'a asm = "(asm_state, asm_stop, 'a) prog"

definition MAX_OUTPUT :: int where
  "MAX_OUTPUT = 1048576"

text \<open>\<^verbatim>\<open>err(...); errors++;\<close> The message goes to stderr and is not modelled.\<close>

definition err :: "unit asm" where
  "err = modify (\<lambda>s. s\<lparr>errors := errors s + 1\<rparr>)"

section \<open>Relaxed lines\<close>

definition is_relaxed_line :: "asm_state \<Rightarrow> int \<Rightarrow> bool" where
  "is_relaxed_line s line = list_ex (\<lambda>l. l = line) (relaxed_lines s)"

definition mark_relaxed_line :: "int \<Rightarrow> unit asm" where
  "mark_relaxed_line line =
     modify (\<lambda>s. if is_relaxed_line s line then s
                 else s\<lparr>relaxed_lines := relaxed_lines s @ [line], jcc_relaxed := True\<rparr>)"

section \<open>Output\<close>

text \<open>The current address, \<^verbatim>\<open>org_base + out_pos\<close>.\<close>

definition here :: "asm_state \<Rightarrow> int" where
  "here s = c_int (org_base s + out_pos s)"

definition emit :: "int \<Rightarrow> unit asm" where
  "emit b = (\<lambda>s.
     let addr = here s; advance = (\<lambda>s. s\<lparr>out_pos := out_pos s + 1\<rparr>)
     in if pass s = 2 then
          (if addr \<ge> MAX_OUTPUT then Inl (Fatal ''output exceeds 1MB address space'')
           else if addr < 0 then Inl (Bad_Write addr)
           else Inr ((), advance (s\<lparr>out_buf := (out_buf s)(addr := word_of_int b),
                                    written := (written s)(addr := True)\<rparr>)))
        else Inr ((), advance s))"

definition emit16 :: "int \<Rightarrow> unit asm" where
  "emit16 w = (let w' = uint (word_of_int w :: 16 word)
               in andthen (emit (w' AND 0xFF)) (emit ((drop_bit 8 w') AND 0xFF)))"

section \<open>Labels\<close>

fun find_label_idx :: "label_t list \<Rightarrow> string \<Rightarrow> nat option" where
  "find_label_idx [] name = None"
| "find_label_idx (l # ls) name =
     (if strcaseeq (lname l) name then Some 0 else map_option Suc (find_label_idx ls name))"

definition find_label :: "asm_state \<Rightarrow> string \<Rightarrow> label_t option" where
  "find_label s name =
     (case find_label_idx (labels s) name of None \<Rightarrow> None | Some i \<Rightarrow> Some (labels s ! i))"

text \<open>\<^verbatim>\<open>l && l->defined\<close> for the label of that name.\<close>

definition defined_label :: "asm_state \<Rightarrow> string \<Rightarrow> label_t option" where
  "defined_label s name =
     (case find_label s name of None \<Rightarrow> None | Some l \<Rightarrow> if ldefined l then Some l else None)"

text \<open>Writing a label: the entry found is overwritten, a new one is pushed otherwise.\<close>

definition store_label ::
  "label_t list \<Rightarrow> string \<Rightarrow> int \<Rightarrow> label_type \<Rightarrow> int \<Rightarrow> label_t list" where
  "store_label ls name val lt seg =
     (case find_label_idx ls name of
        Some i \<Rightarrow> ls[i := (ls ! i)\<lparr>lvalue := val, ldefined := True, lltype := lt, lsegment := seg\<rparr>]
      | None \<Rightarrow> ls @ [\<lparr>lname = take 63 name, lvalue = val, ldefined = True, lltype = lt,
                         lsegment = seg\<rparr>])"

definition add_label_typed :: "string \<Rightarrow> int \<Rightarrow> label_type \<Rightarrow> unit asm" where
  "add_label_typed name val lt = bnd (gets (\<lambda>s. s)) (\<lambda>s.
     if defined_label s name \<noteq> None \<and> pass s = 1 \<and> relaxed_lines s = [] then err
     else modify (\<lambda>s. s\<lparr>labels := store_label (labels s) name val lt (seg_base s)\<rparr>))"

definition add_label :: "string \<Rightarrow> int \<Rightarrow> unit asm" where
  "add_label name val = add_label_typed name val LBL_CODE"

definition lookup_label :: "string \<Rightarrow> int asm" where
  "lookup_label name = bnd (gets (\<lambda>s. s)) (\<lambda>s.
     case defined_label s name of
       None \<Rightarrow> andthen (if pass s = 2 then err else ret ()) (ret 0)
     | Some l \<Rightarrow> ret (lvalue l))"

section \<open>Tokenizer\<close>

definition skip_ws :: "string \<Rightarrow> string" where
  "skip_ws = dropWhile (\<lambda>c. c = CHR '' '' \<or> c = CHR 0x09)"

text \<open>The escapes of a string or character literal.\<close>

definition unescape :: "char \<Rightarrow> char" where
  "unescape d =
     (if d = CHR ''n'' then CHR 0x0A else if d = CHR ''r'' then CHR 0x0D
      else if d = CHR ''t'' then CHR 0x09 else if d = CHR ''0'' then CHR 0x00
      else if d = CHR 0x5C then CHR 0x5C else d)"

text \<open>The loop that reads a literal: what it stores in \<^verbatim>\<open>sval\<close> (at most 126
  characters) and where it stops.\<close>

fun lex_string :: "char \<Rightarrow> nat \<Rightarrow> string \<Rightarrow> string \<times> string" where
  "lex_string delim i [] = ([], [])"
| "lex_string delim i [c] = (if c = delim \<or> 126 \<le> i then ([], [c]) else ([c], []))"
| "lex_string delim i (c # d # ds) =
     (if c = delim \<or> 126 \<le> i then ([], c # d # ds)
      else if c = CHR 0x5C
      then (let (v, r) = lex_string delim (Suc i) ds in (unescape d # v, r))
      else (let (v, r) = lex_string delim (Suc i) (d # ds) in (c # v, r)))"

definition ident_char :: "char \<Rightarrow> bool" where
  "ident_char c \<longleftrightarrow> isalnum c \<or> c = CHR ''_'' \<or> c = CHR ''.''"

definition punct :: "char \<Rightarrow> toktype option" where
  "punct c =
     (if c = CHR '','' then Some T_COMMA else if c = CHR '':'' then Some T_COLON
      else if c = CHR ''['' then Some T_LBRAK else if c = CHR '']'' then Some T_RBRAK
      else if c = CHR ''+'' then Some T_PLUS else if c = CHR ''-'' then Some T_MINUS
      else if c = CHR ''*'' then Some T_STAR else if c = CHR ''('' then Some T_LPAREN
      else if c = CHR '')'' then Some T_RPAREN else None)"

text \<open>The scanner proper: the token, the new \<^verbatim>\<open>line_ptr\<close>, and whether an unexpected
  character was reported.\<close>

definition lex_literal :: "char \<Rightarrow> string \<Rightarrow> token \<times> string" where
  "lex_literal delim p =
     (let (v, r) = lex_string delim 0 p;
          r' = (if char_at r 0 = delim then tl r else r)
      in if length v = 1 \<and> delim = CHR 0x27
         then (\<lparr>ttype = T_NUMBER, sval = v, ival = int (code (v ! 0))\<rparr>, r')
         else (\<lparr>ttype = T_STRING, sval = v, ival = 0\<rparr>, r'))"

definition lex_number :: "string \<Rightarrow> token \<times> string" where
  "lex_number p =
     (let num = (\<lambda>v. \<lparr>ttype = T_NUMBER, sval = [], ival = c_int v\<rparr>)
      in if char_at p 0 = CHR ''0'' \<and> (char_at p 1 = CHR ''x'' \<or> char_at p 1 = CHR ''X'')
         then (let (v, r) = strtol 16 (drop 2 p) in (num v, r))
         else let r = dropWhile isxdigit p
              in if char_at r 0 = CHR ''h'' \<or> char_at r 0 = CHR ''H''
                 then (num (fst (strtol 16 p)), tl r)
                 else (num (fst (strtol 10 p)), r))"

definition lex_ident :: "string \<Rightarrow> token \<times> string" where
  "lex_ident p =
     (let v = take 126 (takeWhile ident_char p)
      in (\<lparr>ttype = T_IDENT, sval = v, ival = 0\<rparr>, drop (length v) p))"

definition scan_token :: "string \<Rightarrow> token \<times> string \<times> bool" where
  "scan_token line =
     (let p = skip_ws line; c = char_at p 0
      in if p = [] \<or> c = CHR 0x0A \<or> c = CHR '';'' then (tok T_EOL, p, False)
         else case punct c of
           Some ty \<Rightarrow> (tok ty, tl p, False)
         | None \<Rightarrow>
             if c = CHR 0x27 \<or> c = CHR 0x22
             then (let (t, r) = lex_literal c (tl p) in (t, r, False))
             else if isdigit c then (let (t, r) = lex_number p in (t, r, False))
             else if isalpha c \<or> c = CHR ''_'' \<or> c = CHR ''.''
             then (let (t, r) = lex_ident p in (t, r, False))
             else (tok T_EOL, tl p, True))"

definition next_token :: "token asm" where
  "next_token = bnd (gets line_ptr) (\<lambda>p.
     let (t, r, bad) = scan_token p
     in andthen (if bad then err else ret ())
          (andthen (modify (\<lambda>s. s\<lparr>line_ptr := r\<rparr>)) (ret t)))"

definition peek_token :: "token asm" where
  "peek_token = bnd (gets has_peek) (\<lambda>h.
     if h then gets peek
     else bnd next_token (\<lambda>t. andthen (modify (\<lambda>s. s\<lparr>peek := t, has_peek := True\<rparr>)) (ret t)))"

definition consume :: "token asm" where
  "consume = bnd (gets has_peek) (\<lambda>h.
     if h then bnd (gets peek) (\<lambda>t. andthen (modify (\<lambda>s. s\<lparr>has_peek := False\<rparr>)) (ret t))
     else next_token)"

text \<open>\<^verbatim>\<open>consume();\<close> as a statement.\<close>

definition eat :: "unit asm" where
  "eat = bnd consume (\<lambda>_. ret ())"

definition expect :: "toktype \<Rightarrow> unit asm" where
  "expect ty = bnd consume (\<lambda>t. if ttype t \<noteq> ty then err else ret ())"

end
