(* ===== verification/Asm_Operand.thy ===== *)
theory Asm_Operand
  imports Asm_State
begin

text \<open>
  Registers, expressions and operands (\<^verbatim>\<open>src/asm.c\<close>, "Register encoding" and
  "Operand parsing"). The expression parser and the loop over the components of a memory operand
  take fuel; running out of it is \<open>Diverges\<close>. The fuel is computed from what is left of the line,
  and \<open>Asm_Parse_Props\<close> shows that it is enough.
\<close>

section \<open>Registers\<close>

text \<open>The ids of the three register files overlap, as in the enum.\<close>

definition R_NONE :: int where "R_NONE = -1"
abbreviation (input) "R_AL \<equiv> (0::int)"
abbreviation (input) "R_CL \<equiv> (1::int)"
abbreviation (input) "R_AX \<equiv> (0::int)"
abbreviation (input) "R_DX \<equiv> (2::int)"
abbreviation (input) "R_BX \<equiv> (3::int)"
abbreviation (input) "R_SP \<equiv> (4::int)"
abbreviation (input) "R_BP \<equiv> (5::int)"
abbreviation (input) "R_SI \<equiv> (6::int)"
abbreviation (input) "R_DI \<equiv> (7::int)"

record reginfo =
  rname :: string
  rid :: int
  rsize :: int

definition mkreg :: "string \<Rightarrow> int \<Rightarrow> int \<Rightarrow> reginfo" where
  "mkreg n i z = \<lparr>rname = n, rid = i, rsize = z\<rparr>"

definition regs :: "reginfo list" where
  "regs =
     [mkreg ''al'' 0 1, mkreg ''cl'' 1 1, mkreg ''dl'' 2 1, mkreg ''bl'' 3 1,
      mkreg ''ah'' 4 1, mkreg ''ch'' 5 1, mkreg ''dh'' 6 1, mkreg ''bh'' 7 1,
      mkreg ''ax'' 0 2, mkreg ''cx'' 1 2, mkreg ''dx'' 2 2, mkreg ''bx'' 3 2,
      mkreg ''sp'' 4 2, mkreg ''bp'' 5 2, mkreg ''si'' 6 2, mkreg ''di'' 7 2,
      mkreg ''es'' 0 4, mkreg ''cs'' 1 4, mkreg ''ss'' 2 4, mkreg ''ds'' 3 4]"

definition find_reg :: "string \<Rightarrow> reginfo option" where
  "find_reg name = List.find (\<lambda>r. strcaseeq (rname r) name) regs"

section \<open>Operands\<close>

datatype optype = OP_NONE | OP_REG | OP_SREG | OP_IMM | OP_MEM | OP_LABEL

record operand =
  op_type :: optype
  op_reg :: int
  op_size :: int
  op_disp :: int
  op_has_disp :: bool
  op_base :: int
  op_index :: int
  op_seg_ovr :: int
  op_imm :: int
  op_label :: string
  op_is_far :: bool

text \<open>\<^verbatim>\<open>operand_t op = {0};\<close> with the three register fields set to none.\<close>

definition init_operand :: operand where
  "init_operand =
     \<lparr>op_type = OP_NONE, op_reg = 0, op_size = 0, op_disp = 0, op_has_disp = False,
      op_base = R_NONE, op_index = R_NONE, op_seg_ovr = R_NONE, op_imm = 0, op_label = [],
      op_is_far = False\<rparr>"

section \<open>Expressions\<close>

text \<open>The \<^verbatim>\<open>SEG\<close> operator of an expression: the segment a label was defined in.\<close>

definition seg_of :: "string \<Rightarrow> int asm" where
  "seg_of name = bnd (gets (\<lambda>s. s)) (\<lambda>s.
     case defined_label s name of
       None \<Rightarrow> andthen (if pass s = 2 then err else ret ()) (ret 0)
     | Some l \<Rightarrow> ret (lsegment l))"

fun parse_primary_f :: "nat \<Rightarrow> int asm"
  and parse_expr_f :: "nat \<Rightarrow> int asm"
  and parse_terms_f :: "nat \<Rightarrow> int \<Rightarrow> int asm" where
  "parse_primary_f 0 = stop Diverges"
| "parse_primary_f (Suc n) = bnd peek_token (\<lambda>t.
     if ttype t = T_NUMBER then andthen eat (ret (ival t))
     else if ttype t = T_IDENT then andthen eat
       (if strcaseeq (sval t) ''SEG''
        then bnd peek_token (\<lambda>lt.
               if ttype lt = T_IDENT then andthen eat (seg_of (sval lt))
               else lookup_label (sval t))
        else lookup_label (sval t))
     else if ttype t = T_LPAREN then andthen eat
       (bnd (parse_expr_f n) (\<lambda>v. andthen (expect T_RPAREN) (ret v)))
     else andthen err (andthen eat (ret 0)))"
| "parse_expr_f 0 = stop Diverges"
| "parse_expr_f (Suc n) = bnd peek_token (\<lambda>t.
     bnd (if ttype t = T_MINUS then andthen eat (ret (-1))
          else if ttype t = T_PLUS then andthen eat (ret 1)
          else ret 1) (\<lambda>sign.
     bnd (parse_primary_f n) (\<lambda>v. parse_terms_f n (c_int (sign * v)))))"
| "parse_terms_f 0 val = stop Diverges"
| "parse_terms_f (Suc n) val = bnd peek_token (\<lambda>t.
     if ttype t = T_PLUS then andthen eat
       (bnd (parse_primary_f n) (\<lambda>v. parse_terms_f n (c_int (val + v))))
     else if ttype t = T_MINUS then andthen eat
       (bnd (parse_primary_f n) (\<lambda>v. parse_terms_f n (c_int (val - v))))
     else if ttype t = T_STAR then andthen eat
       (bnd (parse_primary_f n) (\<lambda>v. parse_terms_f n (c_int (val * v))))
     else ret val)"

definition parse_primary :: "int asm" where
  "parse_primary = bnd (gets line_ptr) (\<lambda>p. parse_primary_f (2 * length p + 4))"

definition parse_expr :: "int asm" where
  "parse_expr = bnd (gets line_ptr) (\<lambda>p. parse_expr_f (2 * length p + 4))"

section \<open>Parsing an operand\<close>

definition check_size_prefix :: "int asm" where
  "check_size_prefix = bnd peek_token (\<lambda>t.
     if ttype t = T_IDENT \<and> strcaseeq (sval t) ''byte'' then andthen eat (ret 1)
     else if ttype t = T_IDENT \<and> strcaseeq (sval t) ''word'' then andthen eat (ret 2)
     else ret 0)"

text \<open>A base or index register among the components of a memory operand.\<close>

definition add_mem_reg :: "reginfo \<Rightarrow> operand \<Rightarrow> operand asm" where
  "add_mem_reg r op =
     (if rid r = R_BX \<or> rid r = R_BP then
        (if op_base op = R_NONE then ret (op\<lparr>op_base := rid r\<rparr>)
         else if op_index op = R_NONE then ret (op\<lparr>op_index := rid r\<rparr>)
         else andthen err (ret op))
      else if rid r = R_SI \<or> rid r = R_DI then
        (if op_index op = R_NONE then ret (op\<lparr>op_index := rid r\<rparr>)
         else if op_base op = R_NONE then ret (op\<lparr>op_base := rid r\<rparr>)
         else andthen err (ret op))
      else andthen err (ret op))"

text \<open>The register a token names, if the token is an identifier that names a word register.\<close>

definition word_reg_of :: "token \<Rightarrow> reginfo option" where
  "word_reg_of t =
     (if ttype t = T_IDENT
      then (case find_reg (sval t) of None \<Rightarrow> None
            | Some r \<Rightarrow> if rsize r = 2 then Some r else None)
      else None)"

fun mem_loop_f :: "nat \<Rightarrow> bool \<Rightarrow> operand \<Rightarrow> operand asm" where
  "mem_loop_f 0 got op = stop Diverges"
| "mem_loop_f (Suc n) got op = bnd peek_token (\<lambda>t.
     if ttype t = T_RBRAK then andthen eat (ret op)
     else if ttype t = T_PLUS \<and> got then andthen eat (mem_loop_f n got op)
     else if ttype t = T_MINUS \<and> got then andthen eat
       (bnd parse_primary (\<lambda>v.
          mem_loop_f n True (op\<lparr>op_disp := c_int (op_disp op - v), op_has_disp := True\<rparr>)))
     else case word_reg_of t of
       Some r \<Rightarrow> andthen eat (bnd (add_mem_reg r op) (\<lambda>op'. mem_loop_f n True op'))
     | None \<Rightarrow>
         bnd parse_expr (\<lambda>v.
           mem_loop_f n True (op\<lparr>op_disp := c_int (op_disp op + v), op_has_disp := True\<rparr>)))"

text \<open>The segment override at the start of a memory operand. When the colon is missing, the code
  puts the segment register back as the next token and reports an error.\<close>

definition parse_seg_override :: "operand \<Rightarrow> operand asm" where
  "parse_seg_override op = bnd peek_token (\<lambda>t.
     case (if ttype t = T_IDENT then find_reg (sval t) else None) of
       None \<Rightarrow> ret op
     | Some r \<Rightarrow>
         if rsize r = 4 then
           bnd (gets line_ptr) (\<lambda>saved_ptr. andthen eat
             (bnd peek_token (\<lambda>t2.
                if ttype t2 = T_COLON then andthen eat (ret (op\<lparr>op_seg_ovr := rid r\<rparr>))
                else andthen
                  (modify (\<lambda>s. s\<lparr>has_peek := True, peek := t, line_ptr := saved_ptr\<rparr>))
                  (andthen err (ret op)))))
         else ret op)"

definition parse_mem_operand :: "int \<Rightarrow> operand \<Rightarrow> operand asm" where
  "parse_mem_operand size_pfx op =
     andthen eat
       (bnd (parse_seg_override (op\<lparr>op_type := OP_MEM, op_size := size_pfx\<rparr>)) (\<lambda>op1.
        bnd (gets line_ptr) (\<lambda>p.
        bnd (mem_loop_f (2 * length p + 4) False op1) (\<lambda>op2.
          ret (if op_base op2 = R_NONE \<and> op_index op2 = R_NONE
               then op2\<lparr>op_has_disp := True\<rparr> else op2)))))"

text \<open>The last case of an operand: a number, the \<^verbatim>\<open>SEG\<close> operator, a label. When
  \<^verbatim>\<open>SEG\<close> is not followed by a name the code consumes one more token and looks up a
  label called SEG.\<close>

definition parse_imm_operand :: "int \<Rightarrow> token \<Rightarrow> operand \<Rightarrow> operand asm" where
  "parse_imm_operand size_pfx t op =
     (let label_op = andthen eat (bnd (lookup_label (sval t)) (\<lambda>v.
            ret (op\<lparr>op_type := OP_IMM, op_imm := v, op_label := take 63 (sval t),
                    op_size := (if size_pfx \<noteq> 0 then size_pfx else 2)\<rparr>)))
      in if ttype t = T_NUMBER then
           andthen eat (ret (op\<lparr>op_type := OP_IMM, op_imm := ival t, op_size := size_pfx\<rparr>))
         else if ttype t = T_IDENT then
           (if strcaseeq (sval t) ''SEG''
            then andthen eat (bnd peek_token (\<lambda>lt.
                   if ttype lt = T_IDENT then andthen eat (bnd (gets (\<lambda>s. s)) (\<lambda>s.
                     ret (op\<lparr>op_type := OP_IMM,
                             op_imm := (case defined_label s (sval lt) of
                                          None \<Rightarrow> 0 | Some l \<Rightarrow> lsegment l),
                             op_size := (if size_pfx \<noteq> 0 then size_pfx else 2)\<rparr>)))
                   else label_op))
            else label_op)
         else andthen err (ret (op\<lparr>op_type := OP_NONE\<rparr>)))"

definition parse_operand :: "operand asm" where
  "parse_operand =
     bnd check_size_prefix (\<lambda>size_pfx.
     bnd peek_token (\<lambda>t1.
     andthen (if ttype t1 = T_IDENT \<and> strcaseeq (sval t1) ''ptr'' then eat else ret ())
     (bnd peek_token (\<lambda>t2.
      bnd (if ttype t2 = T_IDENT \<and> strcaseeq (sval t2) ''far''
           then andthen eat (ret (init_operand\<lparr>op_is_far := True\<rparr>))
           else ret init_operand) (\<lambda>op.
      bnd peek_token (\<lambda>t.
        if ttype t = T_LBRAK then parse_mem_operand size_pfx op
        else case (if ttype t = T_IDENT then find_reg (sval t) else None) of
          Some r \<Rightarrow> andthen eat
            (ret (if rsize r = 4
                  then op\<lparr>op_type := OP_SREG, op_reg := rid r, op_size := 2\<rparr>
                  else op\<lparr>op_type := OP_REG, op_reg := rid r, op_size := rsize r\<rparr>))
        | None \<Rightarrow> parse_imm_operand size_pfx t op))))))"

end
