(* ===== verification/Asm_Encode.thy ===== *)
theory Asm_Encode
  imports Asm_Operand
begin

text \<open>
  The instruction encoders (\<^verbatim>\<open>src/asm.c\<close>, "ModR/M encoding" to "Prefix
  instructions"). Every encoder is a program that emits bytes; the ones the dispatcher calls
  before the operands are read parse them too.
\<close>

section \<open>ModR/M\<close>

definition modrm_rm_table :: "(int \<times> int) list" where
  "modrm_rm_table =
     [(R_BX, R_SI), (R_BX, R_DI), (R_BP, R_SI), (R_BP, R_DI),
      (R_NONE, R_SI), (R_NONE, R_DI), (R_BP, R_NONE), (R_BX, R_NONE)]"

text \<open>The search for the r/m code: the first row that names the two registers in either order.\<close>

fun find_rm :: "(int \<times> int) list \<Rightarrow> int \<Rightarrow> int \<Rightarrow> int \<Rightarrow> int option" where
  "find_rm [] i base idx = None"
| "find_rm ((tb, ti) # rows) i base idx =
     (if (tb = base \<and> ti = idx) \<or> (tb = idx \<and> ti = base) then Some i
      else find_rm rows (i + 1) base idx)"

definition seg_ovr_bytes :: "int list" where
  "seg_ovr_bytes = [0x26, 0x2E, 0x36, 0x3E]"

definition emit_seg_override :: "operand \<Rightarrow> unit asm" where
  "emit_seg_override op =
     (if op_seg_ovr op \<noteq> R_NONE then emit (seg_ovr_bytes ! nat (op_seg_ovr op)) else ret ())"

definition emit_modrm_mem :: "operand \<Rightarrow> int \<Rightarrow> unit asm" where
  "emit_modrm_mem op reg_field =
     (let base = op_base op; idx = op_index op
      in if base = R_NONE \<and> idx = R_NONE then
           block [emit (0x00 OR push_bit 3 reg_field OR 0x06), emit16 (op_disp op)]
         else case find_rm modrm_rm_table 0 base idx of
           None \<Rightarrow> block [err, emit 0]
         | Some rm \<Rightarrow>
             let bp_only = (rm = 6 \<and> \<not> op_has_disp op \<and> base = R_BP \<and> idx = R_NONE);
                 has_d = (op_has_disp op \<or> bp_only);
                 disp = (if bp_only then 0 else op_disp op);
                 md = (if \<not> has_d \<or> (disp = 0 \<and> rm \<noteq> 6) then 0
                       else if disp \<ge> -128 \<and> disp \<le> 127 then 1 else (2::int))
             in block
                  [emit (push_bit 6 md OR push_bit 3 reg_field OR rm),
                   (if md = 1 then emit (disp AND 0xFF)
                    else if md = 2 then emit16 disp else ret ())])"

definition emit_modrm :: "operand \<Rightarrow> int \<Rightarrow> unit asm" where
  "emit_modrm rm_op reg_field =
     (if op_type rm_op = OP_REG then emit (0xC0 OR push_bit 3 reg_field OR op_reg rm_op)
      else if op_type rm_op = OP_MEM
      then block [emit_seg_override rm_op, emit_modrm_mem rm_op reg_field]
      else err)"

text \<open>\<^verbatim>\<open>(op.size == 2) ? 1 : 0\<close> and the register-direct form of ModR/M.\<close>

definition wbit :: "operand \<Rightarrow> int" where
  "wbit op = (if op_size op = 2 then 1 else 0)"

definition emit_rr :: "int \<Rightarrow> int \<Rightarrow> unit asm" where
  "emit_rr reg_field rm = emit (0xC0 OR push_bit 3 reg_field OR rm)"

definition is_rm :: "operand \<Rightarrow> bool" where
  "is_rm op \<longleftrightarrow> op_type op = OP_REG \<or> op_type op = OP_MEM"

definition emit_imm :: "int \<Rightarrow> int \<Rightarrow> unit asm" where
  "emit_imm w v = (if w = 1 then emit16 v else emit (v AND 0xFF))"

section \<open>ALU, shifts, increments\<close>

definition asm_alu :: "int \<Rightarrow> operand \<Rightarrow> operand \<Rightarrow> unit asm" where
  "asm_alu aluop dst src =
     (let w = wbit dst
      in if op_type src = OP_IMM then
           (if op_type dst = OP_REG \<and> op_reg dst = R_AX \<and> w = 1
            then block [emit (aluop * 8 + 5), emit16 (op_imm src)]
            else if op_type dst = OP_REG \<and> op_reg dst = R_AL \<and> w = 0
            then block [emit (aluop * 8 + 4), emit (op_imm src AND 0xFF)]
            else let short_imm = (w = 1 \<and> op_imm src \<ge> -128 \<and> op_imm src \<le> 127)
                 in block
                      [(if short_imm then emit 0x83 else emit (0x80 OR w)),
                       emit_modrm dst aluop,
                       (if short_imm then emit (op_imm src AND 0xFF) else emit_imm w (op_imm src))])
         else if op_type dst = OP_REG \<and> is_rm src then
           block
             [(if op_type src = OP_MEM then emit_seg_override src else ret ()),
              emit (aluop * 8 + 2 + wbit dst),
              (if op_type src = OP_REG then emit_rr (op_reg dst) (op_reg src)
               else emit_modrm_mem src (op_reg dst))]
         else if is_rm dst \<and> op_type src = OP_REG then
           block
             [(if op_type dst = OP_MEM then emit_seg_override dst else ret ()),
              emit (aluop * 8 + wbit src),
              (if op_type dst = OP_REG then emit_rr (op_reg src) (op_reg dst)
               else emit_modrm_mem dst (op_reg src))]
         else err)"

definition asm_shift :: "int \<Rightarrow> operand \<Rightarrow> operand \<Rightarrow> unit asm" where
  "asm_shift opn dst src =
     (let w = wbit dst
      in if op_type src = OP_IMM \<and> op_imm src = 1 then
           block [emit (0xD0 OR w), emit_modrm dst opn]
         else if op_type src = OP_REG \<and> op_reg src = R_CL \<and> op_size src = 1 then
           block [emit (0xD2 OR w), emit_modrm dst opn]
         else if op_type src = OP_IMM then
           block [emit (0xC0 OR w), emit_modrm dst opn, emit (op_imm src AND 0xFF)]
         else err)"

definition asm_inc_dec :: "int \<Rightarrow> operand \<Rightarrow> unit asm" where
  "asm_inc_dec opn dst =
     (let w = wbit dst
      in if op_type dst = OP_REG \<and> w = 1 then emit (0x40 + opn * 8 + op_reg dst)
         else block [emit (0xFE OR w), emit_modrm dst opn])"

definition asm_push_pop :: "bool \<Rightarrow> operand \<Rightarrow> unit asm" where
  "asm_push_pop is_pop op =
     (if op_type op = OP_REG \<and> op_size op = 2 then
        emit ((if is_pop then 0x58 else 0x50) + op_reg op)
      else if op_type op = OP_SREG then
        emit ((if is_pop then 0x07 else 0x06) + op_reg op * 8)
      else if op_type op = OP_MEM \<or> (op_type op = OP_REG \<and> op_size op = 2) then
        block [emit (0x8F OR (if \<not> is_pop then 0x70 else 0x00)), emit_modrm op (if is_pop then 0 else 6)]
      else if \<not> is_pop \<and> op_type op = OP_IMM then
        (if op_imm op \<ge> -128 \<and> op_imm op \<le> 127
         then block [emit 0x6A, emit (op_imm op AND 0xFF)]
         else block [emit 0x68, emit16 (op_imm op)])
      else err)"

section \<open>Moves and exchanges\<close>

definition asm_mov :: "operand \<Rightarrow> operand \<Rightarrow> unit asm" where
  "asm_mov dst src =
     (if op_type dst = OP_SREG \<and> is_rm src then
        (if (op_type src = OP_REG \<and> op_size src \<noteq> 2) \<or> (op_type src = OP_MEM \<and> op_size src = 1)
         then err
         else block
           [(if op_type src = OP_MEM then emit_seg_override src else ret ()),
            emit 0x8E,
            (if op_type src = OP_REG then emit_rr (op_reg dst) (op_reg src)
             else emit_modrm_mem src (op_reg dst))])
      else if op_type src = OP_SREG \<and> is_rm dst then
        (if (op_type dst = OP_REG \<and> op_size dst \<noteq> 2) \<or> (op_type dst = OP_MEM \<and> op_size dst = 1)
         then err
         else block
           [(if op_type dst = OP_MEM then emit_seg_override dst else ret ()),
            emit 0x8C,
            (if op_type dst = OP_REG then emit_rr (op_reg src) (op_reg dst)
             else emit_modrm_mem dst (op_reg src))])
      else if op_type dst = OP_REG \<and> op_type src = OP_IMM then
        block [emit (0xB0 + wbit dst * 8 + op_reg dst), emit_imm (wbit dst) (op_imm src)]
      else if is_rm dst \<and> op_type src = OP_IMM then
        block [emit (0xC6 OR wbit dst), emit_modrm dst 0, emit_imm (wbit dst) (op_imm src)]
      else if op_type dst = OP_REG \<and> is_rm src then
        (if (op_type src = OP_REG \<and> op_size src \<noteq> op_size dst) \<or>
            (op_type src = OP_MEM \<and> op_size src \<noteq> 0 \<and> op_size src \<noteq> op_size dst)
         then err
         else block
           [(if op_type src = OP_MEM then emit_seg_override src else ret ()),
            emit (0x8A OR wbit dst),
            (if op_type src = OP_REG then emit_rr (op_reg dst) (op_reg src)
             else emit_modrm_mem src (op_reg dst))])
      else if is_rm dst \<and> op_type src = OP_REG then
        (if (op_type dst = OP_REG \<and> op_size dst \<noteq> op_size src) \<or>
            (op_type dst = OP_MEM \<and> op_size dst \<noteq> 0 \<and> op_size dst \<noteq> op_size src)
         then err
         else block
           [(if op_type dst = OP_MEM then emit_seg_override dst else ret ()),
            emit (0x88 OR wbit src),
            (if op_type dst = OP_REG then emit_rr (op_reg src) (op_reg dst)
             else emit_modrm_mem dst (op_reg src))])
      else if op_type dst = OP_REG \<and> (op_reg dst = R_AX \<or> op_reg dst = R_AL) \<and>
              op_type src = OP_MEM \<and> op_base src = R_NONE \<and> op_index src = R_NONE then
        block [emit_seg_override src, emit (0xA0 OR wbit dst), emit16 (op_disp src)]
      else if op_type src = OP_REG \<and> (op_reg src = R_AX \<or> op_reg src = R_AL) \<and>
              op_type dst = OP_MEM \<and> op_base dst = R_NONE \<and> op_index dst = R_NONE then
        block [emit_seg_override dst, emit (0xA2 OR wbit src), emit16 (op_disp dst)]
      else err)"

definition asm_xchg :: "operand \<Rightarrow> operand \<Rightarrow> unit asm" where
  "asm_xchg dst src =
     (if op_type dst = OP_REG \<and> op_reg dst = R_AX \<and> op_size dst = 2 \<and>
         op_type src = OP_REG \<and> op_size src = 2 then emit (0x90 + op_reg src)
      else if op_type src = OP_REG \<and> op_reg src = R_AX \<and> op_size src = 2 \<and>
         op_type dst = OP_REG \<and> op_size dst = 2 then emit (0x90 + op_reg dst)
      else let w = (if op_size dst = 2 \<or> op_size src = 2 then 1 else 0)
           in block
                [emit (0x86 OR w),
                 (if op_type dst = OP_REG \<and> op_type src = OP_REG then emit_rr (op_reg dst) (op_reg src)
                  else if op_type dst = OP_REG then emit_modrm src (op_reg dst)
                  else emit_modrm dst (op_reg src))])"

definition asm_test :: "operand \<Rightarrow> operand \<Rightarrow> unit asm" where
  "asm_test dst src =
     (let w = wbit dst
      in if op_type src = OP_IMM then
           (if op_type dst = OP_REG \<and> op_reg dst = R_AX \<and> w = 1
            then block [emit 0xA9, emit16 (op_imm src)]
            else if op_type dst = OP_REG \<and> op_reg dst = R_AL \<and> w = 0
            then block [emit 0xA8, emit (op_imm src AND 0xFF)]
            else block [emit (0xF6 OR w), emit_modrm dst 0, emit_imm w (op_imm src)])
         else if op_type src = OP_REG then
           block [emit (0x84 OR w), emit_modrm dst (op_reg src)]
         else err)"

definition asm_lea :: "operand \<Rightarrow> operand \<Rightarrow> unit asm" where
  "asm_lea dst src =
     (if op_type dst \<noteq> OP_REG \<or> op_size dst \<noteq> 2 then err
      else if op_type src \<noteq> OP_MEM then err
      else block [emit 0x8D, emit_modrm src (op_reg dst)])"

section \<open>Branches\<close>

definition in_rel8 :: "int \<Rightarrow> bool" where
  "in_rel8 rel \<longleftrightarrow> rel \<ge> -128 \<and> rel \<le> 127"

definition asm_jmp_call :: "bool \<Rightarrow> operand \<Rightarrow> unit asm" where
  "asm_jmp_call is_call op =
     (if op_type op = OP_IMM \<or> op_label op \<noteq> [] then
        (if op_is_far op then
           bnd (gets (\<lambda>s. s)) (\<lambda>s.
             let seg_val = (case defined_label s (op_label op) of None \<Rightarrow> 0 | Some l \<Rightarrow> lsegment l)
             in block [emit (if is_call then 0x9A else 0xEA), emit16 (op_imm op AND 0xFFFF),
                       emit16 (seg_val AND 0xFFFF)])
         else
           let target = op_imm op;
               near = block
                 [emit (if is_call then 0xE8 else 0xE9),
                  bnd (gets here) (\<lambda>h. emit16 (c_int (target - (h + 2)) AND 0xFFFF))]
           in if is_call then near
              else bnd (gets (\<lambda>s. s)) (\<lambda>s.
                let rel = c_int (target - (here s + 2))
                in if is_relaxed_line s (current_line s) then near
                   else if in_rel8 rel then block [emit 0xEB, emit (rel AND 0xFF)]
                   else block [mark_relaxed_line (current_line s), near]))
      else if is_rm op then
        (let reg_field = (if is_call then (if op_is_far op then 3 else 2)
                          else (if op_is_far op then 5 else 4))
         in block
              [(if op_type op = OP_MEM then emit_seg_override op else ret ()),
               emit 0xFF,
               (if op_type op = OP_REG then emit_rr reg_field (op_reg op)
                else emit_modrm_mem op reg_field)])
      else err)"

text \<open>The text the conditional jump reads ahead as its label: up to 63 characters, to the first
  white space or semicolon.\<close>

definition jcc_label :: "string \<Rightarrow> string" where
  "jcc_label p = take 63 (takeWhile (\<lambda>c. \<not> isspace c \<and> c \<noteq> CHR '';'') (skip_ws p))"

text \<open>The five-byte form: the inverse condition over a near jump.\<close>

definition jcc_long :: "int \<Rightarrow> int \<Rightarrow> unit asm" where
  "jcc_long cc target = block
     [emit (0x70 + (cc XOR 1)), emit 3,
      bnd (gets here) (\<lambda>h.
        let rel16 = c_int (target - (h + 3))
        in block [emit 0xE9, emit (rel16 AND 0xFF), emit (drop_bit 8 rel16 AND 0xFF)])]"

definition asm_jcc :: "int \<Rightarrow> unit asm" where
  "asm_jcc cc =
     bnd (gets (\<lambda>s. jcc_label (line_ptr s))) (\<lambda>lbl.
     bnd parse_operand (\<lambda>op.
     bnd (gets (\<lambda>s. s)) (\<lambda>s.
       let target = op_imm op;
           rel = c_int (target - (here s + 2));
           label_known = (defined_label s lbl \<noteq> None)
       in if is_relaxed_line s (current_line s) then jcc_long cc target
          else if \<not> label_known \<or> in_rel8 rel then block [emit (0x70 + cc), emit (rel AND 0xFF)]
          else block [mark_relaxed_line (current_line s), jcc_long cc target])))"

definition asm_loop :: "int \<Rightarrow> unit asm" where
  "asm_loop opcode =
     bnd parse_operand (\<lambda>op.
     bnd (gets (\<lambda>s. c_int (op_imm op - (here s + 2)))) (\<lambda>rel.
       block [(if rel < -128 \<or> rel > 127 then err else ret ()), emit opcode, emit (rel AND 0xFF)]))"

section \<open>Returns, interrupts, ports\<close>

definition asm_ret :: "bool \<Rightarrow> unit asm" where
  "asm_ret is_far = bnd peek_token (\<lambda>t.
     if ttype t = T_NUMBER \<or> ttype t = T_IDENT then
       bnd parse_operand (\<lambda>op. block [emit (if is_far then 0xCA else 0xC2), emit16 (op_imm op)])
     else emit (if is_far then 0xCB else 0xC3))"

definition asm_int :: "unit asm" where
  "asm_int = bnd parse_operand (\<lambda>op.
     if op_imm op = 3 then emit 0xCC else block [emit 0xCD, emit (op_imm op AND 0xFF)])"

definition asm_in_out :: "bool \<Rightarrow> unit asm" where
  "asm_in_out is_out =
     bnd parse_operand (\<lambda>dst. andthen (expect T_COMMA) (bnd parse_operand (\<lambda>src.
       if is_out then
         (let w = wbit src
          in if op_type dst = OP_IMM then block [emit (0xE6 OR w), emit (op_imm dst AND 0xFF)]
             else if op_type dst = OP_REG \<and> op_reg dst = R_DX then emit (0xEE OR w)
             else err)
       else
         (let w = wbit dst
          in if op_type src = OP_IMM then block [emit (0xE4 OR w), emit (op_imm src AND 0xFF)]
             else if op_type src = OP_REG \<and> op_reg src = R_DX then emit (0xEC OR w)
             else err))))"

section \<open>V20 extensions\<close>

definition asm_v20_bitop :: "string \<Rightarrow> unit asm" where
  "asm_v20_bitop mnemonic =
     (case (if strcaseeq mnemonic ''test1'' then Some 0 else if strcaseeq mnemonic ''clr1'' then Some 1
            else if strcaseeq mnemonic ''set1'' then Some 2
            else if strcaseeq mnemonic ''not1'' then Some (3::int) else None) of
        None \<Rightarrow> err
      | Some opn \<Rightarrow>
          bnd parse_operand (\<lambda>dst. andthen (expect T_COMMA) (bnd parse_operand (\<lambda>src.
            let w = wbit dst
            in if op_type src = OP_REG \<and> op_reg src = R_CL \<and> op_size src = 1 then
                 block [emit 0x0F, emit (0x10 + opn * 2 + w), emit_modrm dst 0]
               else if op_type src = OP_IMM then
                 block [emit 0x0F, emit (0x18 + opn * 2 + w), emit_modrm dst 0,
                        emit (op_imm src AND 0xFF)]
               else err))))"

definition asm_v20_bcd_string :: "string \<Rightarrow> unit asm" where
  "asm_v20_bcd_string mnemonic = andthen (emit 0x0F)
     (if strcaseeq mnemonic ''add4s'' then emit 0x20
      else if strcaseeq mnemonic ''sub4s'' then emit 0x22
      else if strcaseeq mnemonic ''cmp4s'' then emit 0x26 else err)"

definition asm_v20_nibble :: "string \<Rightarrow> unit asm" where
  "asm_v20_nibble mnemonic = andthen (emit 0x0F)
     (if strcaseeq mnemonic ''rol4'' then emit 0x28
      else if strcaseeq mnemonic ''ror4'' then emit 0x2A else err)"

definition asm_v20_bext_bins :: "string \<Rightarrow> unit asm" where
  "asm_v20_bext_bins mnemonic =
     (let is_bext = strcaseeq mnemonic ''bext''
      in if \<not> is_bext \<and> \<not> strcaseeq mnemonic ''bins'' then err
         else bnd peek_token (\<lambda>t.
           if ttype t = T_EOL then block [emit 0x0F, emit (if is_bext then 0x33 else 0x31), emit 0xC0]
           else bnd parse_operand (\<lambda>first. bnd peek_token (\<lambda>t2.
             if ttype t2 \<noteq> T_COMMA then
               (if op_type first = OP_REG \<and> op_size first = 1
                then block [emit 0x0F, emit (if is_bext then 0x33 else 0x31), emit_modrm first 0]
                else err)
             else andthen eat (bnd parse_operand (\<lambda>second.
               if op_type second = OP_IMM then
                 (if op_type first \<noteq> OP_REG \<or> op_size first \<noteq> 1 then err
                  else if op_imm second < 0 \<or> op_imm second > 15 then err
                  else block [emit 0x0F, emit (if is_bext then 0x3B else 0x39), emit_modrm first 0,
                              emit (op_imm second AND 0xFF)])
               else if op_type first = OP_REG \<and> op_size first = 1 \<and>
                       op_type second = OP_REG \<and> op_size second = 1 then
                 block [emit 0x0F, emit (if is_bext then 0x33 else 0x31),
                        emit_rr (op_reg second) (op_reg first)]
               else err))))))"

definition asm_brkem :: "unit asm" where
  "asm_brkem = block [emit 0x0F, emit 0xFF, bnd parse_operand (\<lambda>op. emit (op_imm op AND 0xFF))]"

text \<open>\<^verbatim>\<open>check_prefix\<close>: the prefix byte of a mnemonic that is a prefix.\<close>

definition prefix_byte :: "string \<Rightarrow> int option" where
  "prefix_byte m =
     (if strcaseeq m ''rep'' \<or> strcaseeq m ''repe'' \<or> strcaseeq m ''repz'' then Some 0xF3
      else if strcaseeq m ''repne'' \<or> strcaseeq m ''repnz'' then Some 0xF2
      else if strcaseeq m ''lock'' then Some 0xF0
      else if strcaseeq m ''repc'' then Some 0x65
      else if strcaseeq m ''repnc'' then Some 0x64 else None)"

definition check_prefix :: "string \<Rightarrow> bool asm" where
  "check_prefix m = (case prefix_byte m of None \<Rightarrow> ret False | Some b \<Rightarrow> andthen (emit b) (ret True))"

end
