(* ===== verification/Asm_Dispatch.thy ===== *)
theory Asm_Dispatch
  imports Asm_Encode
begin

text \<open>
  Instruction dispatch, source lines and the passes of \<^verbatim>\<open>src/asm.c\<close>. The chain of
  comparisons in \<^verbatim>\<open>assemble_instruction\<close> is cut into groups in source order; a group
  answers with the action for a mnemonic it knows.
\<close>

section \<open>Instruction dispatch\<close>

fun assoc_nocase :: "(string \<times> 'a) list \<Rightarrow> string \<Rightarrow> 'a option" where
  "assoc_nocase [] m = None"
| "assoc_nocase ((n, v) # rest) m = (if strcaseeq m n then Some v else assoc_nocase rest m)"

definition simple_ops :: "(string \<times> int) list" where
  "simple_ops =
     [(''nop'', 0x90), (''cbw'', 0x98), (''cwd'', 0x99),
      (''pushf'', 0x9C), (''popf'', 0x9D), (''sahf'', 0x9E),
      (''lahf'', 0x9F), (''movsb'', 0xA4), (''movsw'', 0xA5),
      (''cmpsb'', 0xA6), (''cmpsw'', 0xA7), (''stosb'', 0xAA),
      (''stosw'', 0xAB), (''lodsb'', 0xAC), (''lodsw'', 0xAD),
      (''scasb'', 0xAE), (''scasw'', 0xAF), (''xlat'', 0xD7),
      (''aaa'', 0x37), (''aas'', 0x3F), (''daa'', 0x27),
      (''das'', 0x2F), (''hlt'', 0xF4), (''cmc'', 0xF5),
      (''clc'', 0xF8), (''stc'', 0xF9), (''cli'', 0xFA),
      (''sti'', 0xFB), (''cld'', 0xFC), (''std'', 0xFD),
      (''into'', 0xCE), (''iret'', 0xCF), (''pusha'', 0x60),
      (''popa'', 0x61), (''leave'', 0xC9), (''salc'', 0xD6),
      (''insb'', 0x6C), (''insw'', 0x6D), (''outsb'', 0x6E),
      (''outsw'', 0x6F)]"

definition alu_ops :: "(string \<times> int) list" where
  "alu_ops =
     [(''add'', 0), (''or'', 1), (''adc'', 2), (''sbb'', 3),
      (''and'', 4), (''sub'', 5), (''xor'', 6), (''cmp'', 7)]"

definition shift_ops :: "(string \<times> int) list" where
  "shift_ops =
     [(''rol'', 0), (''ror'', 1), (''rcl'', 2), (''rcr'', 3),
      (''shl'', 4), (''sal'', 4), (''shr'', 5), (''sar'', 7)]"

definition jccs :: "(string \<times> int) list" where
  "jccs =
     [(''jo'', 0x0), (''jno'', 0x1), (''jb'', 0x2), (''jnae'', 0x2),
      (''jc'', 0x2), (''jnb'', 0x3), (''jae'', 0x3), (''jnc'', 0x3),
      (''jz'', 0x4), (''je'', 0x4), (''jnz'', 0x5), (''jne'', 0x5),
      (''jbe'', 0x6), (''jna'', 0x6), (''jnbe'', 0x7), (''ja'', 0x7),
      (''js'', 0x8), (''jns'', 0x9), (''jp'', 0xA), (''jpe'', 0xA),
      (''jnp'', 0xB), (''jpo'', 0xB), (''jl'', 0xC), (''jnge'', 0xC),
      (''jnl'', 0xD), (''jge'', 0xD), (''jle'', 0xE), (''jng'', 0xE),
      (''jnle'', 0xF), (''jg'', 0xF), (''jcxz'', -1)]"

text \<open>Two operands with a comma between them.\<close>

definition two_operands :: "(operand \<Rightarrow> operand \<Rightarrow> unit asm) \<Rightarrow> unit asm" where
  "two_operands f =
     bnd parse_operand (\<lambda>dst. andthen (expect T_COMMA) (bnd parse_operand (\<lambda>src. f dst src)))"

text \<open>\<^verbatim>\<open>mov\<close> infers the width of an operand that has none from the other one.\<close>

definition infer_sizes :: "operand \<Rightarrow> operand \<Rightarrow> operand \<times> operand" where
  "infer_sizes dst src =
     (let src1 = (if op_size dst \<noteq> 0 \<and> op_size src = 0 then src\<lparr>op_size := op_size dst\<rparr> else src);
          dst1 = (if op_size src1 \<noteq> 0 \<and> op_size dst = 0 then dst\<lparr>op_size := op_size src1\<rparr> else dst)
      in if op_size dst1 = 0 \<and> op_size src1 = 0
         then (dst1\<lparr>op_size := 2\<rparr>, src1\<lparr>op_size := 2\<rparr>) else (dst1, src1))"

definition asm_aam_aad :: "int \<Rightarrow> unit asm" where
  "asm_aam_aad opcode = andthen (emit opcode) (bnd peek_token (\<lambda>t.
     if ttype t = T_NUMBER then block [eat, emit (ival t AND 0xFF)] else emit 0x0A))"

definition dispatch_data :: "string \<Rightarrow> unit asm option" where
  "dispatch_data m =
     (case assoc_nocase simple_ops m of Some b \<Rightarrow> Some (emit b) | None \<Rightarrow>
      if strcaseeq m ''aam'' then Some (asm_aam_aad 0xD4)
      else if strcaseeq m ''aad'' then Some (asm_aam_aad 0xD5)
      else case assoc_nocase alu_ops m of Some n \<Rightarrow> Some (two_operands (asm_alu n)) | None \<Rightarrow>
      case assoc_nocase shift_ops m of Some n \<Rightarrow> Some (two_operands (asm_shift n)) | None \<Rightarrow>
      if strcaseeq m ''mov''
      then Some (two_operands (\<lambda>d s. let (d', s') = infer_sizes d s in asm_mov d' s'))
      else if strcaseeq m ''xchg'' then Some (two_operands asm_xchg)
      else if strcaseeq m ''test'' then Some (two_operands asm_test)
      else if strcaseeq m ''lea'' then Some (two_operands asm_lea)
      else if strcaseeq m ''lds'' \<or> strcaseeq m ''les''
      then Some (two_operands (\<lambda>dst src. block
             [emit (if strcaseeq m ''les'' then 0xC4 else 0xC5), emit_modrm src (op_reg dst)]))
      else None)"

text \<open>The one-operand group on opcode 0xF6/0xF7.\<close>

definition asm_group3 :: "int \<Rightarrow> operand \<Rightarrow> unit asm" where
  "asm_group3 n dst = block [emit (0xF6 OR wbit dst), emit_modrm dst n]"

definition emit_imul_imm :: "int \<Rightarrow> int \<Rightarrow> int \<Rightarrow> unit asm" where
  "emit_imul_imm imm dreg sreg =
     (if imm \<ge> -128 \<and> imm \<le> 127
      then block [emit 0x6B, emit_rr dreg sreg, emit (imm AND 0xFF)]
      else block [emit 0x69, emit_rr dreg sreg, emit16 (imm AND 0xFFFF)])"

text \<open>\<^verbatim>\<open>imul\<close> reads the tokens after an operand directly and puts the position back
  when there is no comma.\<close>

definition asm_imul :: "unit asm" where
  "asm_imul =
     bnd parse_operand (\<lambda>dst. bnd (gets line_ptr) (\<lambda>save. bnd next_token (\<lambda>pk.
       if ttype pk = T_COMMA then
         bnd parse_operand (\<lambda>src. bnd (gets line_ptr) (\<lambda>save2. bnd next_token (\<lambda>pk2.
           if ttype pk2 = T_COMMA then
             bnd parse_operand (\<lambda>imm_op. emit_imul_imm (op_imm imm_op) (op_reg dst) (op_reg src))
           else andthen (modify (\<lambda>s. s\<lparr>line_ptr := save2\<rparr>))
                  (emit_imul_imm (op_imm src) (op_reg dst) (op_reg dst)))))
       else andthen (modify (\<lambda>s. s\<lparr>line_ptr := save\<rparr>)) (asm_group3 5 dst))))"

definition dispatch_unary :: "string \<Rightarrow> unit asm option" where
  "dispatch_unary m =
     (if strcaseeq m ''inc'' then Some (bnd parse_operand (asm_inc_dec 0))
      else if strcaseeq m ''dec'' then Some (bnd parse_operand (asm_inc_dec 1))
      else if strcaseeq m ''not'' then Some (bnd parse_operand (asm_group3 2))
      else if strcaseeq m ''neg'' then Some (bnd parse_operand (asm_group3 3))
      else if strcaseeq m ''mul'' then Some (bnd parse_operand (asm_group3 4))
      else if strcaseeq m ''imul'' then Some asm_imul
      else if strcaseeq m ''div'' then Some (bnd parse_operand (asm_group3 6))
      else if strcaseeq m ''idiv'' then Some (bnd parse_operand (asm_group3 7))
      else if strcaseeq m ''push'' then Some (bnd parse_operand (asm_push_pop False))
      else if strcaseeq m ''pop'' then Some (bnd parse_operand (asm_push_pop True))
      else None)"

definition dispatch_flow :: "string \<Rightarrow> unit asm option" where
  "dispatch_flow m =
     (if strcaseeq m ''jmp'' \<or> strcaseeq m ''call''
      then Some (bnd parse_operand (asm_jmp_call (strcaseeq m ''call'')))
      else case assoc_nocase jccs m of
        Some cc \<Rightarrow> Some (if cc = -1 then asm_loop 0xE3 else asm_jcc cc)
      | None \<Rightarrow>
      if strcaseeq m ''loop'' then Some (asm_loop 0xE2)
      else if strcaseeq m ''loope'' \<or> strcaseeq m ''loopz'' then Some (asm_loop 0xE1)
      else if strcaseeq m ''loopne'' \<or> strcaseeq m ''loopnz'' then Some (asm_loop 0xE0)
      else if strcaseeq m ''ret'' \<or> strcaseeq m ''retf'' then Some (asm_ret (strcaseeq m ''retf''))
      else if strcaseeq m ''int'' then Some asm_int
      else if strcaseeq m ''in'' \<or> strcaseeq m ''out'' then Some (asm_in_out (strcaseeq m ''out''))
      else if strcaseeq m ''enter''
      then Some (two_operands (\<lambda>sz level. block
             [emit 0xC8, emit16 (op_imm sz), emit (op_imm level AND 0xFF)]))
      else if strcaseeq m ''bound''
      then Some (two_operands (\<lambda>dst src. block [emit 0x62, emit_modrm src (op_reg dst)]))
      else None)"

definition dispatch_v20 :: "string \<Rightarrow> unit asm option" where
  "dispatch_v20 m =
     (if strcaseeq m ''test1'' \<or> strcaseeq m ''not1'' \<or> strcaseeq m ''clr1'' \<or> strcaseeq m ''set1''
      then Some (asm_v20_bitop m)
      else if strcaseeq m ''add4s'' \<or> strcaseeq m ''sub4s'' \<or> strcaseeq m ''cmp4s''
      then Some (asm_v20_bcd_string m)
      else if strcaseeq m ''rol4'' \<or> strcaseeq m ''ror4'' then Some (asm_v20_nibble m)
      else if strcaseeq m ''bext'' \<or> strcaseeq m ''bins'' then Some (asm_v20_bext_bins m)
      else if strcaseeq m ''brkem'' then Some asm_brkem
      else None)"

definition assemble_plain :: "string \<Rightarrow> unit asm" where
  "assemble_plain m =
     (case dispatch_data m of Some a \<Rightarrow> a | None \<Rightarrow>
      case dispatch_unary m of Some a \<Rightarrow> a | None \<Rightarrow>
      case dispatch_flow m of Some a \<Rightarrow> a | None \<Rightarrow>
      case dispatch_v20 m of Some a \<Rightarrow> a | None \<Rightarrow> err)"

text \<open>A prefix is followed by the instruction it applies to; the recursion reads one more
  identifier of the line each time.\<close>

fun assemble_instruction_f :: "nat \<Rightarrow> string \<Rightarrow> unit asm" where
  "assemble_instruction_f 0 m = stop Diverges"
| "assemble_instruction_f (Suc n) m = bnd (check_prefix m) (\<lambda>is_prefix.
     if is_prefix then bnd peek_token (\<lambda>t.
       if ttype t = T_IDENT then andthen eat (assemble_instruction_f n (sval t)) else ret ())
     else assemble_plain m)"

definition assemble_instruction :: "string \<Rightarrow> unit asm" where
  "assemble_instruction m =
     bnd (gets line_ptr) (\<lambda>p. assemble_instruction_f (length p + 2) m)"

section \<open>Lines\<close>

text \<open>\<^verbatim>\<open>strncasecmp(p, d, n) == 0 && !isalnum(p[n]) && p[n] != '_'\<close>\<close>

definition at_directive :: "string \<Rightarrow> string \<Rightarrow> bool" where
  "at_directive d p \<longleftrightarrow>
     strncaseeq p d (length d) \<and> \<not> isalnum (char_at p (length d)) \<and> char_at p (length d) \<noteq> CHR ''_''"

definition scan_label :: "string \<Rightarrow> (string \<times> string) option" where
  "scan_label line =
     (let p = skip_ws line
      in if \<not> isalpha (char_at p 0) \<and> char_at p 0 \<noteq> CHR ''_'' \<and> char_at p 0 \<noteq> CHR ''.'' then None
         else let name = takeWhile ident_char p;
                  q = skip_ws (dropWhile ident_char p)
              in if length name = 0 \<or> 64 \<le> length name then None
                 else if char_at q 0 = CHR '':'' then Some (name, tl q)
                 else if at_directive ''equ'' q \<or> at_directive ''db'' q \<or> at_directive ''dw'' q
                 then Some (name, q) else None)"

fun db_loop_f :: "nat \<Rightarrow> unit asm" where
  "db_loop_f 0 = stop Diverges"
| "db_loop_f (Suc n) = bnd peek_token (\<lambda>dt.
     let continue = bnd peek_token (\<lambda>t.
           if ttype t = T_COMMA then andthen eat (db_loop_f n) else ret ())
     in if ttype dt = T_STRING then
          andthen eat (andthen
            (for_each (takeWhile (\<lambda>c. c \<noteq> CHR 0x00) (sval dt)) (\<lambda>c. emit (int (code c)))) continue)
        else if ttype dt = T_NUMBER \<or> ttype dt = T_IDENT \<or> ttype dt = T_MINUS then
          bnd parse_expr (\<lambda>v. andthen (emit (v AND 0xFF)) continue)
        else ret ())"

fun dw_loop_f :: "nat \<Rightarrow> unit asm" where
  "dw_loop_f 0 = stop Diverges"
| "dw_loop_f (Suc n) = bnd peek_token (\<lambda>dt.
     if ttype dt = T_NUMBER \<or> ttype dt = T_IDENT \<or> ttype dt = T_MINUS then
       bnd parse_expr (\<lambda>v. andthen (emit16 (v AND 0xFFFF)) (bnd peek_token (\<lambda>t.
         if ttype t = T_COMMA then andthen eat (dw_loop_f n) else ret ())))
     else ret ())"

definition do_org :: "unit asm" where
  "do_org = bnd parse_operand (\<lambda>op. modify (\<lambda>s. s\<lparr>
     org_stack := org_stack s @
       [\<lparr>os_org_base = org_base s, os_out_pos = out_pos s, os_seg_base = seg_base s\<rparr>],
     org_base := op_imm op, out_pos := 0\<rparr>))"

definition do_endorg :: "unit asm" where
  "do_endorg = modify (\<lambda>s.
     if org_stack s \<noteq> [] then
       let st = last (org_stack s)
       in s\<lparr>org_stack := butlast (org_stack s), org_base := os_org_base st,
            out_pos := os_out_pos st, seg_base := os_seg_base st\<rparr>
     else s)"

definition do_seg :: "unit asm" where
  "do_seg = bnd parse_operand (\<lambda>op. modify (\<lambda>s. s\<lparr>seg_base := op_imm op\<rparr>))"

text \<open>A statement: a directive or an instruction.\<close>

definition do_statement :: "string \<Rightarrow> unit asm" where
  "do_statement w =
     (if strcaseeq w ''org'' then do_org
      else if strcaseeq w ''endorg'' then do_endorg
      else if strcaseeq w ''db'' then bnd (gets line_ptr) (\<lambda>p. db_loop_f (length p + 2))
      else if strcaseeq w ''dw'' then bnd (gets line_ptr) (\<lambda>p. dw_loop_f (length p + 2))
      else if strcaseeq w ''seg'' then do_seg
      else assemble_instruction w)"

definition do_line_body :: "string \<Rightarrow> unit asm" where
  "do_line_body line = andthen (modify (\<lambda>s. s\<lparr>line_ptr := line, has_peek := False\<rparr>))
     (bnd peek_token (\<lambda>t.
        if ttype t = T_EOL then ret ()
        else bnd consume (\<lambda>t.
          if ttype t = T_EOL then ret ()
          else if ttype t \<noteq> T_IDENT then err
          else do_statement (sval t))))"

text \<open>A \<^verbatim>\<open>; @file:line\<close> comment: \<open>d\<close> is what follows the \<^verbatim>\<open>@\<close>.\<close>

definition note_dbg_comment :: "string \<Rightarrow> unit asm" where
  "note_dbg_comment d =
     (if CHR '':'' \<in> set d then modify (\<lambda>s. s\<lparr>
        pending_dbg_file := take 63 (takeWhile (\<lambda>c. c \<noteq> CHR '':'') d),
        pending_dbg_line := c_int (fst (strtol 10 (tl (dropWhile (\<lambda>c. c \<noteq> CHR '':'') d))))\<rparr>)
      else ret ())"

definition record_dbg :: "string \<Rightarrow> unit asm" where
  "record_dbg lp = modify (\<lambda>s.
     if pass s = 2 \<and> pending_dbg_line s > 0 \<and> lp \<noteq> [] \<and> char_at lp 0 \<noteq> CHR '';'' then
       s\<lparr>dbg_entries := dbg_entries s @
           [\<lparr>dbg_addr = here s, dbg_file = take 63 (pending_dbg_file s),
             dbg_line = pending_dbg_line s\<rparr>]\<rparr>
     else s)"

definition process_line :: "string \<Rightarrow> unit asm" where
  "process_line line =
     (let lp = skip_ws line
      in if strneq lp ''; @'' 3 then note_dbg_comment (drop 3 lp)
         else andthen (record_dbg lp)
           (case scan_label line of
              None \<Rightarrow> do_line_body line
            | Some (name, rest) \<Rightarrow>
                let p = skip_ws rest
                in if at_directive ''equ'' p then
                     andthen (modify (\<lambda>s. s\<lparr>line_ptr := drop 3 p, has_peek := False\<rparr>))
                       (bnd parse_expr (\<lambda>v. add_label_typed name v LBL_EQU))
                   else andthen
                     (bnd (gets here) (\<lambda>h.
                        if at_directive ''db'' p \<or> at_directive ''dw'' p
                        then add_label_typed name h LBL_DATA else add_label name h))
                     (do_line_body rest)))"

section \<open>Passes\<close>

fun run_lines :: "int \<Rightarrow> string list \<Rightarrow> unit asm" where
  "run_lines i [] = ret ()"
| "run_lines i (l # ls) =
     andthen (modify (\<lambda>s. s\<lparr>current_line := i + 1\<rparr>)) (andthen (process_line l) (run_lines (i + 1) ls))"

definition init_state :: asm_state where
  "init_state =
     \<lparr>pending_dbg_file = [], pending_dbg_line = 0, current_line = 0,
      out_buf = (\<lambda>_. 0xFF), written = (\<lambda>_. False),
      out_pos = 0, org_base = 0, seg_base = 0, org_stack = [], pass = 1, errors = 0,
      relaxed_lines = [], jcc_relaxed = False, labels = [], dbg_entries = [],
      line_ptr = [], peek = tok T_EOF, has_peek = False\<rparr>"

definition rewind :: "asm_state \<Rightarrow> asm_state" where
  "rewind s = s\<lparr>out_pos := 0, org_base := 0, seg_base := 0, org_stack := []\<rparr>"

definition run_pass1 :: "string list \<Rightarrow> unit asm" where
  "run_pass1 ls = andthen
     (modify (\<lambda>s. (rewind s)\<lparr>pass := 1, errors := 0, jcc_relaxed := False\<rparr>)) (run_lines 0 ls)"

definition run_pass2 :: "string list \<Rightarrow> unit asm" where
  "run_pass2 ls = andthen
     (modify (\<lambda>s. (rewind s)\<lparr>pass := 2, pending_dbg_line := 0\<rparr>)) (run_lines 0 ls)"

text \<open>The relaxation loop: at most \<open>n\<close> further runs of pass 1, until one marks nothing.\<close>

fun relax_loop :: "nat \<Rightarrow> string list \<Rightarrow> unit asm" where
  "relax_loop 0 ls = ret ()"
| "relax_loop (Suc n) ls =
     andthen (run_pass1 ls) (bnd (gets jcc_relaxed) (\<lambda>r. if r then relax_loop n ls else ret ()))"

definition assemble_passes :: "string list \<Rightarrow> unit asm" where
  "assemble_passes ls =
     andthen (modify (\<lambda>s. s\<lparr>relaxed_lines := []\<rparr>))
       (andthen (run_pass1 ls)
         (andthen (bnd (gets jcc_relaxed) (\<lambda>r. if r then relax_loop 4 ls else ret ()))
           (run_pass2 ls)))"

end
