(* ===== verification/Asm_Passes.thy ===== *)
theory Asm_Passes
  imports Asm_Dispatch
begin

text \<open>
  The two passes agree on the layout. Pass 1 and pass 2 run the same code over the lines; they
  differ in what they store, in the errors they count, and in how they treat a label that is
  defined already. \<open>passes_agree\<close> relates two states that agree on everything the addresses
  depend on; every operation of the assembler keeps it, so that a run of pass 2 assigns the
  addresses that a run of pass 1 from the same label table and the same set of relaxed lines
  assigns.
\<close>

section \<open>The relation\<close>

text \<open>
  The part of the state that addresses, label values and instruction sizes depend on. The level
  says where in the run the states are compared: 2 inside a line, where the tokenizer counts
  (its look-ahead only when there is one); 1 at the start of a line, where the tokenizer is about
  to be reset; 0 before the line number is set.
\<close>

definition passes_agree :: "nat \<Rightarrow> asm_state \<Rightarrow> asm_state \<Rightarrow> bool" where
  "passes_agree lv s t \<longleftrightarrow>
     out_pos s = out_pos t \<and> org_base s = org_base t \<and> seg_base s = seg_base t \<and>
     org_stack s = org_stack t \<and> relaxed_lines s = relaxed_lines t \<and> labels s = labels t \<and>
     (lv = 2 \<longrightarrow> line_ptr s = line_ptr t \<and> has_peek s = has_peek t \<and> (has_peek t \<longrightarrow> peek s = peek t)) \<and>
     (lv \<noteq> 0 \<longrightarrow> current_line s = current_line t) \<and>
     pass s = 1 \<and> pass t = 2 \<and> relaxed_lines t \<noteq> []"

lemma agree_fields:
  assumes "passes_agree lv s t"
  shows "out_pos s = out_pos t" "org_base s = org_base t" "seg_base s = seg_base t"
    "org_stack s = org_stack t" "relaxed_lines s = relaxed_lines t" "labels s = labels t"
  using assms by (auto simp: passes_agree_def)

lemma agree_line_fields:
  assumes "passes_agree 2 s t"
  shows "line_ptr s = line_ptr t" "has_peek s = has_peek t" "has_peek t \<Longrightarrow> peek s = peek t"
    "current_line s = current_line t"
  using assms by (auto simp: passes_agree_def)

lemma agree_views:
  assumes "passes_agree lv s t"
  shows "here s = here t" "defined_label s n = defined_label t n"
    "is_relaxed_line s l = is_relaxed_line t l" "find_label s n = find_label t n"
  unfolding here_def defined_label_def find_label_def is_relaxed_line_def agree_fields [OF assms]
  by (rule refl)+

lemma sim_read_state:
  assumes "\<And>s t. R s t \<Longrightarrow> k s = k t" and "\<And>s. sim R (k s)"
  shows "sim R (bnd (gets (\<lambda>s. s)) k)"
proof (rule simI)
  fix s t b t'
  assume st: "R s t" and run: "bnd (gets (\<lambda>s. s)) k t = Inr (b, t')"
  then have "k t t = Inr (b, t')" by (simp add: bnd_def gets_def)
  from simD [OF assms(2) st this] assms(1) [OF st]
  show "\<exists>s'. bnd (gets (\<lambda>s. s)) k s = Inr (b, s') \<and> R s' t'"
    by (simp add: bnd_def gets_def)
qed

lemma sim_gets_fields [sim_rules]:
  "sim (passes_agree 2) (gets line_ptr)" "sim (passes_agree 2) (gets has_peek)"
  "sim (passes_agree lv) (gets here)"
  "sim (passes_agree 2) (gets (\<lambda>s. jcc_label (line_ptr s)))"
  "sim (passes_agree 2) (gets (\<lambda>s. c_int (v - (here s + 2))))"
  by (rule sim_gets, simp add: agree_line_fields agree_views)+

section \<open>Primitive operations\<close>

lemma sim_err [sim_rules]: "sim (passes_agree lv) err"
  unfolding err_def
proof (rule sim_modify)
  fix s t assume "passes_agree lv s t"
  then show "passes_agree lv (s\<lparr>errors := errors s + 1\<rparr>) (t\<lparr>errors := errors t + 1\<rparr>)"
    by (simp add: passes_agree_def)
qed

lemma sim_emit [sim_rules]: "sim (passes_agree lv) (emit b)"
proof (rule simI)
  fix s t u t'
  assume st: "passes_agree lv s t" and run: "emit b t = Inr (u, t')"
  have p: "pass s = 1" "pass t = 2" using st by (auto simp: passes_agree_def)
  from run p have t': "t' = t\<lparr>out_buf := (out_buf t)(here t := word_of_int b),
      written := (written t)(here t := True), out_pos := out_pos t + 1\<rparr>"
    by (auto simp: emit_def Let_def split: if_splits)
  have "emit b s = Inr (u, s\<lparr>out_pos := out_pos s + 1\<rparr>)" using p by (simp add: emit_def)
  moreover have "passes_agree lv (s\<lparr>out_pos := out_pos s + 1\<rparr>) t'"
    using st unfolding t' by (simp add: passes_agree_def)
  ultimately show "\<exists>s'. emit b s = Inr (u, s') \<and> passes_agree lv s' t'" by blast
qed

lemma sim_mark [sim_rules]: "sim (passes_agree lv) (mark_relaxed_line l)"
  unfolding mark_relaxed_line_def
proof (rule sim_modify)
  fix s t assume st: "passes_agree lv s t"
  then show "passes_agree lv
      (if is_relaxed_line s l then s else s\<lparr>relaxed_lines := relaxed_lines s @ [l], jcc_relaxed := True\<rparr>)
      (if is_relaxed_line t l then t else t\<lparr>relaxed_lines := relaxed_lines t @ [l], jcc_relaxed := True\<rparr>)"
    using agree_views(3) [OF st] by (simp add: passes_agree_def)
qed

text \<open>With a relaxed line, both passes overwrite a label that exists.\<close>

lemma sim_add_label_typed [sim_rules]: "sim (passes_agree lv) (add_label_typed n v lt)"
proof (rule simI)
  fix s t u t'
  assume st: "passes_agree lv s t" and run: "add_label_typed n v lt t = Inr (u, t')"
  have "relaxed_lines s \<noteq> []" "relaxed_lines t \<noteq> []" "labels s = labels t" "seg_base s = seg_base t"
    using st agree_fields [OF st] by (auto simp: passes_agree_def)
  with run st show "\<exists>s'. add_label_typed n v lt s = Inr (u, s') \<and> passes_agree lv s' t'"
    by (auto simp: add_label_typed_def passes_agree_def bnd_def gets_def modify_def)
qed

text \<open>A look-up of an undefined label is an error in pass 2 only.\<close>

lemma sim_error_in_pass2:
  "sim (passes_agree lv) (bnd (gets (\<lambda>s. s)) (\<lambda>s. case defined_label s n of
       None \<Rightarrow> andthen (if pass s = 2 then err else ret ()) (ret v) | Some l \<Rightarrow> ret (f l)))"
proof (rule simI)
  fix s t b t'
  let ?m = "bnd (gets (\<lambda>s. s)) (\<lambda>s. case defined_label s n of
       None \<Rightarrow> andthen (if pass s = 2 then err else ret ()) (ret v) | Some l \<Rightarrow> ret (f l))"
  assume st: "passes_agree lv s t" and run: "?m t = Inr (b, t')"
  have p: "pass s = 1" "pass t = 2" using st by (auto simp: passes_agree_def)
  have e: "passes_agree lv s (t\<lparr>errors := errors t + 1\<rparr>)"
    using st by (simp add: passes_agree_def)
  show "\<exists>s'. ?m s = Inr (b, s') \<and> passes_agree lv s' t'"
    using run p st e
    by (cases "defined_label t n")
      (auto simp: bnd_def gets_def andthen_def ret_def err_def modify_def agree_views [OF st])
qed

lemma sim_lookup [sim_rules]:
  "sim (passes_agree lv) (lookup_label n)" "sim (passes_agree lv) (seg_of n)"
  unfolding lookup_label_def seg_of_def by (rule sim_error_in_pass2)+

lemma sim_lex_updates [sim_rules]:
  "sim (passes_agree 2) (modify (\<lambda>s. s\<lparr>line_ptr := p\<rparr>))"
  "sim (passes_agree 2) (modify (\<lambda>s. s\<lparr>peek := k, has_peek := h\<rparr>))"
  "sim (passes_agree 2) (modify (\<lambda>s. s\<lparr>has_peek := h, peek := k, line_ptr := p\<rparr>))"
  by (rule sim_modify, simp add: passes_agree_def)+

lemma sim_other_updates [sim_rules]:
  "sim (passes_agree lv) (modify (\<lambda>s. s\<lparr>seg_base := l\<rparr>))"
  "sim (passes_agree lv) (modify (\<lambda>s. s\<lparr>pending_dbg_file := f, pending_dbg_line := l\<rparr>))"
  by (rule sim_modify, simp add: passes_agree_def)+

text \<open>Setting the line number and resetting the tokenizer raise the level.\<close>

lemma sim_raise:
  assumes up: "\<And>s t. passes_agree lv s t \<Longrightarrow> passes_agree lv' (f s) (f t)"
    and down: "\<And>s t. passes_agree lv' s t \<Longrightarrow> passes_agree lv s t"
    and m: "sim (passes_agree lv') m"
  shows "sim (passes_agree lv) (andthen (modify f) m)"
proof (rule simI)
  fix s t b t'
  assume st: "passes_agree lv s t" and run: "andthen (modify f) m t = Inr (b, t')"
  then have "m (f t) = Inr (b, t')" by (simp add: andthen_def bnd_def modify_def)
  from simD [OF m up [OF st] this] down
  show "\<exists>s'. andthen (modify f) m s = Inr (b, s') \<and> passes_agree lv s' t'"
    by (auto simp: andthen_def bnd_def modify_def)
qed

lemma agree_levels:
  "passes_agree 2 s t \<Longrightarrow> passes_agree 1 s t" "passes_agree 1 s t \<Longrightarrow> passes_agree 0 s t"
  by (auto simp: passes_agree_def)

lemma sim_start_line:
  assumes "sim (passes_agree 2) m"
  shows "sim (passes_agree 1) (andthen (modify (\<lambda>s. s\<lparr>line_ptr := p, has_peek := False\<rparr>)) m)"
proof (rule sim_raise [OF _ agree_levels(1) assms])
  fix s t assume "passes_agree 1 s t"
  then show "passes_agree 2 (s\<lparr>line_ptr := p, has_peek := False\<rparr>) (t\<lparr>line_ptr := p, has_peek := False\<rparr>)"
    by (simp add: passes_agree_def)
qed

lemma sim_set_line:
  assumes "sim (passes_agree 1) m"
  shows "sim (passes_agree 0) (andthen (modify (\<lambda>s. s\<lparr>current_line := v\<rparr>)) m)"
proof (rule sim_raise [OF _ agree_levels(2) assms])
  fix s t assume "passes_agree 0 s t"
  then show "passes_agree 1 (s\<lparr>current_line := v\<rparr>) (t\<lparr>current_line := v\<rparr>)"
    by (simp add: passes_agree_def)
qed

section \<open>Parsers, encoders and lines\<close>

lemma sim_next_token [sim_rules]: "sim (passes_agree 2) next_token"
  unfolding next_token_def Let_def by (intro sim_rules)

lemma sim_with_peek:
  assumes "sim (passes_agree 2) m"
    and "\<And>t. sim (passes_agree 2) (k t)"
  shows "sim (passes_agree 2) (bnd (gets has_peek) (\<lambda>h. if h then bnd (gets peek) k else m))"
proof (rule simI)
  fix s t b t'
  let ?p = "bnd (gets has_peek) (\<lambda>h. if h then bnd (gets peek) k else m)"
  assume st: "passes_agree 2 s t" and run: "?p t = Inr (b, t')"
  show "\<exists>s'. ?p s = Inr (b, s') \<and> passes_agree 2 s' t'"
  proof (cases "has_peek t")
    case True
    with run have "k (peek t) t = Inr (b, t')" by (simp add: bnd_def gets_def)
    from simD [OF assms(2) st this] True agree_line_fields [OF st] show ?thesis
      by (simp add: bnd_def gets_def)
  next
    case False
    with run have "m t = Inr (b, t')" by (simp add: bnd_def gets_def)
    from simD [OF assms(1) st this] False agree_line_fields [OF st] show ?thesis
      by (simp add: bnd_def gets_def)
  qed
qed

lemma sim_peek_token [sim_rules]: "sim (passes_agree 2) peek_token"
proof -
  have "sim (passes_agree 2) (bnd next_token (\<lambda>t. andthen (modify (\<lambda>s. s\<lparr>peek := t, has_peek := True\<rparr>)) (ret t)))"
    by (intro sim_rules)
  from sim_with_peek [OF this, of ret] show ?thesis
    unfolding peek_token_def ret_bnd by (simp add: sim_ret)
qed

lemma sim_consume [sim_rules]: "sim (passes_agree 2) consume"
  unfolding consume_def
proof (rule sim_with_peek [OF sim_next_token])
  show "sim (passes_agree 2) (andthen (modify (\<lambda>s. s\<lparr>has_peek := False\<rparr>)) (ret t))" for t
    by (intro sim_rules sim_modify, simp add: passes_agree_def)
qed

lemma sim_eat [sim_rules]: "sim (passes_agree 2) eat"
  unfolding eat_def by (intro sim_rules)

lemma sim_expect [sim_rules]: "sim (passes_agree 2) (expect ty)"
  unfolding expect_def by (intro sim_rules)

lemma sim_expr_f:
  "sim (passes_agree 2) (parse_primary_f n) \<and> sim (passes_agree 2) (parse_expr_f n) \<and>
   sim (passes_agree 2) (parse_terms_f n v)"
proof (induction n arbitrary: v)
  case 0
  show ?case by (simp add: sim_stop)
next
  case (Suc n)
  then have [sim_rules]: "sim (passes_agree 2) (parse_primary_f n)" "sim (passes_agree 2) (parse_expr_f n)"
      "\<And>v. sim (passes_agree 2) (parse_terms_f n v)"
    by auto
  show ?case
    unfolding parse_primary_f.simps parse_expr_f.simps parse_terms_f.simps
    by (intro conjI sim_rules)
qed

lemma sim_parse_expr [sim_rules]: "sim (passes_agree 2) parse_primary" "sim (passes_agree 2) parse_expr"
  unfolding parse_primary_def parse_expr_def using sim_expr_f by (intro sim_rules, blast)+

lemma sim_small_parsers [sim_rules]:
  "sim (passes_agree 2) check_size_prefix" "sim (passes_agree 2) (add_mem_reg r op)"
  "sim (passes_agree 2) (parse_seg_override op)"
  unfolding check_size_prefix_def add_mem_reg_def parse_seg_override_def by (intro sim_rules)+

lemma sim_mem_loop [sim_rules]: "sim (passes_agree 2) (mem_loop_f n got op)"
proof (induction n arbitrary: got op)
  case (Suc n)
  note Suc [sim_rules]
  show ?case unfolding mem_loop_f.simps by (intro sim_rules)
qed (simp add: sim_stop)

lemma sim_parse_imm_operand [sim_rules]: "sim (passes_agree 2) (parse_imm_operand z t op)"
  unfolding parse_imm_operand_def Let_def
  by (intro sim_rules sim_read_state) (simp add: agree_views)

lemma sim_parse_operand [sim_rules]: "sim (passes_agree 2) parse_operand"
  unfolding parse_operand_def parse_mem_operand_def by (intro sim_rules)

lemma sim_encode [sim_rules]:
  "sim (passes_agree 2) (emit16 w)" "sim (passes_agree 2) (emit_rr a b)"
  unfolding emit16_def emit_rr_def Let_def by (intro sim_rules)+

lemma sim_encode_mem [sim_rules]:
  "sim (passes_agree 2) (emit_seg_override op)" "sim (passes_agree 2) (emit_modrm_mem op r)"
  "sim (passes_agree 2) (emit_imm w v)" "sim (passes_agree 2) (jcc_long cc target)"
  unfolding emit_seg_override_def emit_modrm_mem_def emit_imm_def jcc_long_def Let_def
  by (intro sim_rules)+

lemma sim_encode_modrm [sim_rules]:
  "sim (passes_agree 2) (emit_modrm op r)" "sim (passes_agree 2) (emit_imul_imm v a b)"
  unfolding emit_modrm_def emit_imul_imm_def by (intro sim_rules)+

lemma sim_group3 [sim_rules]: "sim (passes_agree 2) (asm_group3 n op)"
  unfolding asm_group3_def by (intro sim_rules)

lemma sim_jmp_call [sim_rules]: "sim (passes_agree 2) (asm_jmp_call c d)"
  unfolding asm_jmp_call_def Let_def
  by (intro sim_rules sim_read_state) (simp_all add: agree_views agree_line_fields)

lemma sim_jcc [sim_rules]: "sim (passes_agree 2) (asm_jcc cc)"
  unfolding asm_jcc_def Let_def
  by (intro sim_rules sim_read_state) (simp_all add: agree_views agree_line_fields)

lemma sim_encoders [sim_rules]:
  "sim (passes_agree 2) (asm_alu n d r)" "sim (passes_agree 2) (asm_shift n d r)"
  "sim (passes_agree 2) (asm_inc_dec n d)" "sim (passes_agree 2) (asm_push_pop p d)"
  "sim (passes_agree 2) (asm_mov d r)" "sim (passes_agree 2) (asm_xchg d r)"
  "sim (passes_agree 2) (asm_test d r)" "sim (passes_agree 2) (asm_lea d r)"
  unfolding asm_alu_def asm_shift_def asm_inc_dec_def asm_push_pop_def asm_mov_def asm_xchg_def
    asm_test_def asm_lea_def Let_def
  by (intro sim_rules)+

lemma sim_parsing_encoders [sim_rules]:
  "sim (passes_agree 2) (asm_loop opc)" "sim (passes_agree 2) (asm_ret f)" "sim (passes_agree 2) asm_int"
  "sim (passes_agree 2) (asm_in_out out)" "sim (passes_agree 2) (asm_v20_bitop m)"
  "sim (passes_agree 2) (asm_v20_bcd_string m)" "sim (passes_agree 2) (asm_v20_nibble m)"
  "sim (passes_agree 2) (asm_v20_bext_bins m)" "sim (passes_agree 2) asm_brkem"
  "sim (passes_agree 2) (check_prefix m)" "sim (passes_agree 2) (asm_aam_aad opc)" "sim (passes_agree 2) asm_imul"
  unfolding asm_loop_def asm_ret_def asm_int_def asm_in_out_def asm_v20_bitop_def
    asm_v20_bcd_string_def asm_v20_nibble_def asm_v20_bext_bins_def asm_brkem_def check_prefix_def
    asm_aam_aad_def asm_imul_def Let_def
  by (intro sim_rules)+

lemma sim_two_operands [sim_rules]:
  "(\<And>d r. sim (passes_agree 2) (f d r)) \<Longrightarrow> sim (passes_agree 2) (two_operands f)"
  unfolding two_operands_def by (intro sim_rules)

lemma sim_dispatch:
  "pred_option (sim (passes_agree 2)) (dispatch_data m)"
  "pred_option (sim (passes_agree 2)) (dispatch_unary m)"
  "pred_option (sim (passes_agree 2)) (dispatch_flow m)"
  "pred_option (sim (passes_agree 2)) (dispatch_v20 m)"
  unfolding dispatch_data_def dispatch_unary_def dispatch_flow_def dispatch_v20_def Let_def
  by (intro pred_option_rules sim_rules)+

lemma sim_pred_option:
  "pred_option (sim R) o' \<Longrightarrow> sim R n \<Longrightarrow> sim R (case o' of None \<Rightarrow> n | Some a \<Rightarrow> a)"
  by (cases o') auto

lemma sim_assemble_plain [sim_rules]: "sim (passes_agree 2) (assemble_plain m)"
  unfolding assemble_plain_def by (intro sim_pred_option sim_dispatch sim_err)

lemma sim_assemble_instruction_f [sim_rules]: "sim (passes_agree 2) (assemble_instruction_f n m)"
proof (induction n arbitrary: m)
  case (Suc n)
  note Suc [sim_rules]
  show ?case unfolding assemble_instruction_f.simps by (intro sim_rules)
qed (simp add: sim_stop)

lemma sim_data_loops [sim_rules]: "sim (passes_agree 2) (db_loop_f n)" "sim (passes_agree 2) (dw_loop_f n)"
proof (induction n)
  case (Suc n)
  note Suc [sim_rules]
  show "sim (passes_agree 2) (db_loop_f (Suc n))" "sim (passes_agree 2) (dw_loop_f (Suc n))"
    unfolding db_loop_f.simps dw_loop_f.simps Let_def by (intro sim_rules)+
qed (simp_all add: sim_stop)

lemma sim_directives [sim_rules]:
  "sim (passes_agree 2) do_org" "sim (passes_agree 2) do_endorg" "sim (passes_agree 2) do_seg"
proof -
  show "sim (passes_agree 2) do_org"
    unfolding do_org_def
    by (intro sim_rules sim_modify, simp add: passes_agree_def)
  show "sim (passes_agree 2) do_endorg"
    unfolding do_endorg_def Let_def
    by (intro sim_modify, simp add: passes_agree_def)
  show "sim (passes_agree 2) do_seg" unfolding do_seg_def by (intro sim_rules)
qed

lemma sim_dbg [sim_rules]:
  "sim (passes_agree lv) (note_dbg_comment d)" "sim (passes_agree lv) (record_dbg lp)"
proof -
  show "sim (passes_agree lv) (note_dbg_comment d)" unfolding note_dbg_comment_def by (intro sim_rules)
  show "sim (passes_agree lv) (record_dbg lp)"
    unfolding record_dbg_def
    by (rule sim_modify, simp add: passes_agree_def)
qed

lemma sim_do_statement [sim_rules]: "sim (passes_agree 2) (do_statement w)"
  unfolding do_statement_def assemble_instruction_def by (intro sim_rules)

lemma sim_line_body [sim_rules]: "sim (passes_agree 1) (do_line_body l)"
  unfolding do_line_body_def by (intro sim_start_line sim_rules)

lemma sim_process_line [sim_rules]: "sim (passes_agree 1) (process_line l)"
  unfolding process_line_def add_label_def Let_def
  by (intro sim_rules sim_start_line)

lemma sim_run_lines: "sim (passes_agree 0) (run_lines i ls)"
proof (induction ls arbitrary: i)
  case (Cons l ls)
  have "sim (passes_agree 0) (andthen (modify (\<lambda>s. s\<lparr>current_line := i + 1\<rparr>)) (process_line l))"
    by (rule sim_set_line [OF sim_process_line])
  from sim_andthen [OF this Cons] show ?case by (simp add: andthen_assoc)
qed (simp add: sim_ret)

section \<open>The two passes\<close>

text \<open>A run of pass 2 assigns the addresses of the run of pass 1 that starts from the same table.\<close>

lemma pass1_follows_pass2:
  assumes "labels s = labels t" "relaxed_lines s = relaxed_lines t" and "relaxed_lines t \<noteq> []"
    and "run_pass2 ls t = Inr (u, t')"
  shows "\<exists>s'. run_pass1 ls s = Inr (u, s') \<and> labels s' = labels t' \<and>
    relaxed_lines s' = relaxed_lines t' \<and> here s' = here t'"
proof -
  let ?s = "(rewind s)\<lparr>pass := 1, errors := 0, jcc_relaxed := False\<rparr>"
  let ?t = "(rewind t)\<lparr>pass := 2, pending_dbg_line := 0\<rparr>"
  have "passes_agree 0 ?s ?t"
    using assms(1-3) by (simp add: passes_agree_def rewind_def)
  moreover from assms(4) have "run_lines 0 ls ?t = Inr (u, t')"
    by (simp add: run_pass2_def andthen_def bnd_def modify_def)
  ultimately obtain s' where "run_lines 0 ls ?s = Inr (u, s')" "passes_agree 0 s' t'"
    using simD [OF sim_run_lines] by blast
  then show ?thesis
    using agree_fields [of 0 s' t'] agree_views [of 0 s' t']
    by (auto simp: run_pass1_def andthen_def bnd_def modify_def)
qed


definition relax_example :: "string list" where
  "relax_example = [''top: nop'', '' org 0x200'', '' jz top'', '' jmp fin'', ''fin: hlt'']"

definition after :: "unit asm \<Rightarrow> asm_state \<Rightarrow> asm_state" where
  "after m s = snd (projr (m s))"

lemma after_eq: "\<not> isl (m s) \<Longrightarrow> m s = Inr ((), after m s)"
  by (cases "m s") (auto simp: after_def)



end
