(* ===== verification/Asm_Invariant.thy ===== *)
theory Asm_Invariant
  imports Asm_Dispatch
begin

text \<open>
  The interface between the primitive operations of the assembler and everything built from them.
  \<open>asm_invariant\<close> asks that a state predicate survives each primitive state change; its lemmas
  give the same for every parser, encoder and directive, and finally for a source line and for a
  whole run over the lines. Facts about the assembler's state are interpretations of this locale.
\<close>

lemma scan_label_length: "scan_label l = Some (name, rest) \<Longrightarrow> 0 < length name \<and> length name < 64"
  by (auto simp: scan_label_def Let_def split: if_splits)

locale asm_invariant =
  fixes I :: "asm_state \<Rightarrow> bool"
    and E :: "asm_stop \<Rightarrow> bool"
  assumes diverges: "E Diverges"
    and keeps_err [valid_rules]: "keeps I E err"
    and keeps_emit [valid_rules]: "keeps I E (emit b)"
    and keeps_mark [valid_rules]: "keeps I E (mark_relaxed_line l)"
    and keeps_add_label_typed: "length n < 64 \<Longrightarrow> keeps I E (add_label_typed n v t)"
    and lex_state: "I s \<Longrightarrow> I (s\<lparr>line_ptr := p, peek := k, has_peek := h\<rparr>)"
    and org_state: "I s \<Longrightarrow> I (s\<lparr>org_stack := org_stack s @ [st], org_base := v, out_pos := 0\<rparr>)"
    and keeps_endorg [valid_rules]: "keeps I E do_endorg"
    and seg_state: "I s \<Longrightarrow> I (s\<lparr>seg_base := v\<rparr>)"
    and dbg_state: "I s \<Longrightarrow> I (s\<lparr>pending_dbg_file := f, pending_dbg_line := v\<rparr>)"
    and keeps_record_dbg [valid_rules]: "keeps I E (record_dbg lp)"
    and line_state: "I s \<Longrightarrow> I (s\<lparr>current_line := v\<rparr>)"
begin

lemma keeps_stop [valid_rules]: "keeps I E (stop Diverges)"
  by (rule keepsI) (auto simp: stop_def diverges)

lemma keeps_lex:
  assumes "\<And>s. f s = s\<lparr>line_ptr := a s, peek := b s, has_peek := c s\<rparr>"
  shows "keeps I E (modify f)"
  by (rule keeps_modify) (simp only: assms lex_state)

lemma keeps_lex_updates [valid_rules]:
  "keeps I E (modify (\<lambda>s. s\<lparr>line_ptr := p\<rparr>))"
  "keeps I E (modify (\<lambda>s. s\<lparr>has_peek := h\<rparr>))"
  "keeps I E (modify (\<lambda>s. s\<lparr>peek := k, has_peek := h\<rparr>))"
  "keeps I E (modify (\<lambda>s. s\<lparr>line_ptr := p, has_peek := h\<rparr>))"
  "keeps I E (modify (\<lambda>s. s\<lparr>has_peek := h, peek := k, line_ptr := p\<rparr>))"
  by (rule keeps_lex [where a = "\<lambda>_. p" and b = peek and c = has_peek], simp)
    (rule keeps_lex [where a = line_ptr and b = peek and c = "\<lambda>_. h"], simp,
     rule keeps_lex [where a = line_ptr and b = "\<lambda>_. k" and c = "\<lambda>_. h"], simp,
     rule keeps_lex [where a = "\<lambda>_. p" and b = peek and c = "\<lambda>_. h"], simp,
     rule keeps_lex [where a = "\<lambda>_. p" and b = "\<lambda>_. k" and c = "\<lambda>_. h"], simp)

lemma keeps_next_token [valid_rules]: "keeps I E next_token"
  unfolding next_token_def Let_def by (intro valid_rules)

lemma keeps_peek_token [valid_rules]: "keeps I E peek_token"
  unfolding peek_token_def by (intro valid_rules)

lemma keeps_consume [valid_rules]: "keeps I E consume"
  unfolding consume_def by (intro valid_rules)

lemma keeps_eat [valid_rules]: "keeps I E eat"
  unfolding eat_def by (intro valid_rules)

lemma keeps_expect [valid_rules]: "keeps I E (expect ty)"
  unfolding expect_def by (intro valid_rules)

lemma keeps_lookup_label [valid_rules]: "keeps I E (lookup_label n)"
  unfolding lookup_label_def by (intro valid_rules)

lemma keeps_seg_of [valid_rules]: "keeps I E (seg_of n)"
  unfolding seg_of_def by (intro valid_rules)

lemma keeps_expr_f:
  "keeps I E (parse_primary_f n) \<and> keeps I E (parse_expr_f n) \<and> keeps I E (parse_terms_f n v)"
proof (induction n arbitrary: v)
  case 0
  show ?case by (simp add: keeps_stop)
next
  case (Suc n)
  then have [valid_rules]: "keeps I E (parse_primary_f n)" "keeps I E (parse_expr_f n)"
      "\<And>v. keeps I E (parse_terms_f n v)"
    by auto
  show ?case
    unfolding parse_primary_f.simps parse_expr_f.simps parse_terms_f.simps
    by (intro conjI valid_rules)
qed

lemma keeps_parse_primary [valid_rules]: "keeps I E parse_primary"
  unfolding parse_primary_def using keeps_expr_f by (intro valid_rules) blast

lemma keeps_parse_expr [valid_rules]: "keeps I E parse_expr"
  unfolding parse_expr_def using keeps_expr_f by (intro valid_rules) blast

lemma keeps_check_size_prefix [valid_rules]: "keeps I E check_size_prefix"
  unfolding check_size_prefix_def by (intro valid_rules)

lemma keeps_add_mem_reg [valid_rules]: "keeps I E (add_mem_reg r op)"
  unfolding add_mem_reg_def by (intro valid_rules)

lemma keeps_mem_loop [valid_rules]: "keeps I E (mem_loop_f n got op)"
proof (induction n arbitrary: got op)
  case (Suc n)
  note Suc [valid_rules]
  show ?case unfolding mem_loop_f.simps by (intro valid_rules)
qed (simp add: keeps_stop)

lemma keeps_parse_seg_override [valid_rules]: "keeps I E (parse_seg_override op)"
  unfolding parse_seg_override_def by (intro valid_rules)

lemma keeps_parse_mem_operand [valid_rules]: "keeps I E (parse_mem_operand z op)"
  unfolding parse_mem_operand_def by (intro valid_rules)

lemma keeps_parse_imm_operand [valid_rules]: "keeps I E (parse_imm_operand z t op)"
  unfolding parse_imm_operand_def Let_def by (intro valid_rules)

lemma keeps_parse_operand [valid_rules]: "keeps I E parse_operand"
  unfolding parse_operand_def by (intro valid_rules)

lemma keeps_emit16 [valid_rules]: "keeps I E (emit16 w)"
  unfolding emit16_def Let_def by (intro valid_rules)

lemma keeps_emit_modrm_mem [valid_rules]: "keeps I E (emit_modrm_mem op r)"
  unfolding emit_modrm_mem_def Let_def
  by (intro valid_rules)

lemma keeps_encode [valid_rules]:
  "keeps I E (emit_seg_override op)" "keeps I E (emit_modrm op r)"
  "keeps I E (emit_rr a b)" "keeps I E (emit_imm w v)" "keeps I E (emit_imul_imm v a b)"
  "keeps I E (asm_group3 n op)" "keeps I E (jcc_long cc target)"
  unfolding emit_seg_override_def emit_modrm_def emit_rr_def emit_imm_def
    emit_imul_imm_def asm_group3_def jcc_long_def Let_def
  by (intro valid_rules)+

lemma keeps_encoders [valid_rules]:
  "keeps I E (asm_alu n d r)" "keeps I E (asm_shift n d r)" "keeps I E (asm_inc_dec n d)"
  "keeps I E (asm_push_pop p d)" "keeps I E (asm_mov d r)" "keeps I E (asm_xchg d r)"
  "keeps I E (asm_test d r)" "keeps I E (asm_lea d r)" "keeps I E (asm_jmp_call c d)"
  unfolding asm_alu_def asm_shift_def asm_inc_dec_def asm_push_pop_def asm_mov_def asm_xchg_def
    asm_test_def asm_lea_def asm_jmp_call_def Let_def
  by (intro valid_rules)+

lemma keeps_parsing_encoders [valid_rules]:
  "keeps I E (asm_jcc cc)" "keeps I E (asm_loop opc)" "keeps I E (asm_ret f)" "keeps I E asm_int"
  "keeps I E (asm_in_out out)" "keeps I E (asm_v20_bitop m)" "keeps I E (asm_v20_bcd_string m)"
  "keeps I E (asm_v20_nibble m)" "keeps I E (asm_v20_bext_bins m)" "keeps I E asm_brkem"
  "keeps I E (check_prefix m)" "keeps I E (asm_aam_aad opc)" "keeps I E asm_imul"
  unfolding asm_jcc_def asm_loop_def asm_ret_def asm_int_def asm_in_out_def asm_v20_bitop_def
    asm_v20_bcd_string_def asm_v20_nibble_def asm_v20_bext_bins_def asm_brkem_def check_prefix_def
    asm_aam_aad_def asm_imul_def Let_def
  by (intro valid_rules)+

lemma keeps_two_operands [valid_rules]:
  "(\<And>d r. keeps I E (f d r)) \<Longrightarrow> keeps I E (two_operands f)"
  unfolding two_operands_def by (intro valid_rules)

text \<open>What a dispatch group answers with keeps the invariant.\<close>

lemma keeps_dispatch:
  "pred_option (keeps I E) (dispatch_data m)" "pred_option (keeps I E) (dispatch_unary m)"
  "pred_option (keeps I E) (dispatch_flow m)" "pred_option (keeps I E) (dispatch_v20 m)"
  unfolding dispatch_data_def dispatch_unary_def dispatch_flow_def dispatch_v20_def Let_def
  by (intro pred_option_rules valid_rules)+

lemma keeps_pred_option [valid_rules]:
  "pred_option (keeps I E) o' \<Longrightarrow> keeps I E n \<Longrightarrow> keeps I E (case o' of None \<Rightarrow> n | Some a \<Rightarrow> a)"
  by (cases o') auto

lemma keeps_assemble_plain [valid_rules]: "keeps I E (assemble_plain m)"
  unfolding assemble_plain_def by (intro keeps_pred_option keeps_dispatch keeps_err)

lemma keeps_assemble_instruction_f [valid_rules]: "keeps I E (assemble_instruction_f n m)"
proof (induction n arbitrary: m)
  case (Suc n)
  note Suc [valid_rules]
  show ?case unfolding assemble_instruction_f.simps by (intro valid_rules)
qed (simp add: keeps_stop)

lemma keeps_db_loop [valid_rules]: "keeps I E (db_loop_f n)"
proof (induction n)
  case (Suc n)
  note Suc [valid_rules]
  show ?case unfolding db_loop_f.simps Let_def by (intro valid_rules)
qed (simp add: keeps_stop)

lemma keeps_dw_loop [valid_rules]: "keeps I E (dw_loop_f n)"
proof (induction n)
  case (Suc n)
  note Suc [valid_rules]
  show ?case unfolding dw_loop_f.simps by (intro valid_rules)
qed (simp add: keeps_stop)

lemma keeps_directives [valid_rules]:
  "keeps I E do_org" "keeps I E do_seg" "keeps I E (note_dbg_comment d)"
  unfolding do_org_def do_seg_def note_dbg_comment_def
  by (intro valid_rules keeps_modify org_state seg_state dbg_state, assumption)+

lemma keeps_do_statement [valid_rules]: "keeps I E (do_statement w)"
  unfolding do_statement_def assemble_instruction_def by (intro valid_rules)

lemma keeps_line_body [valid_rules]: "keeps I E (do_line_body l)"
  unfolding do_line_body_def by (intro valid_rules)

lemma keeps_process_line [valid_rules]: "keeps I E (process_line l)"
proof (cases "scan_label l")
  case None
  then show ?thesis unfolding process_line_def Let_def by (simp, intro conjI impI valid_rules)
next
  case (Some nr)
  obtain name rest where nr: "nr = (name, rest)" by force
  with Some have "length name < 64" by (auto dest: scan_label_length)
  then show ?thesis
    unfolding process_line_def Let_def Some nr option.case prod.case add_label_def
    by (intro valid_rules keeps_add_label_typed)
qed

lemma keeps_run_lines [valid_rules]: "keeps I E (run_lines i ls)"
proof (induction ls arbitrary: i)
  case (Cons l ls)
  then show ?case
    unfolding run_lines.simps by (intro valid_rules keeps_modify line_state)
qed (simp add: keeps_ret)

end

text \<open>The driver adds three state changes of its own.\<close>

locale asm_run_invariant = asm_invariant +
  assumes start1: "I s \<Longrightarrow> I ((rewind s)\<lparr>pass := 1, errors := 0, jcc_relaxed := False\<rparr>)"
    and start2: "I s \<Longrightarrow> I ((rewind s)\<lparr>pass := 2, pending_dbg_line := 0\<rparr>)"
    and clear_relaxed: "I s \<Longrightarrow> I (s\<lparr>relaxed_lines := []\<rparr>)"
begin

lemma keeps_run_pass1 [valid_rules]: "keeps I E (run_pass1 ls)"
  unfolding run_pass1_def by (intro valid_rules keeps_modify start1)

lemma keeps_run_pass2 [valid_rules]: "keeps I E (run_pass2 ls)"
  unfolding run_pass2_def by (intro valid_rules keeps_modify start2)

lemma keeps_relax_loop [valid_rules]: "keeps I E (relax_loop n ls)"
proof (induction n)
  case (Suc n)
  note Suc [valid_rules]
  show ?case unfolding relax_loop.simps by (intro valid_rules)
qed (simp add: keeps_ret)

lemma keeps_assemble_passes: "keeps I E (assemble_passes ls)"
  unfolding assemble_passes_def by (intro valid_rules keeps_modify clear_relaxed)

end

end
