(* ===== verification/Asm_Hex.thy ===== *)
theory Asm_Hex
  imports Asm_Output
begin

text \<open>
  The image files are right: the flat binary is the image from the first to the last written
  address, and an Intel HEX loader (specified here from the format, independently of the
  assembler) that reads the emitted file stores exactly the written bytes at their addresses.
\<close>

section \<open>The loader\<close>

definition unhex :: "char \<Rightarrow> nat option" where
  "unhex c = (if isdigit c then Some (code c - 48)
              else if 65 \<le> code c \<and> code c \<le> 70 then Some (code c - 55) else None)"

fun read_bytes :: "string \<Rightarrow> byte list option" where
  "read_bytes [] = Some []"
| "read_bytes [c] = None"
| "read_bytes (c # d # r) =
     (case (unhex c, unhex d, read_bytes r) of
        (Some h, Some l, Some bs) \<Rightarrow> Some (of_nat (16 * h + l) # bs) | _ \<Rightarrow> None)"

text \<open>A record: length, 16-bit offset, type, data, and a checksum that makes the sum zero.\<close>

definition check_record :: "byte list \<Rightarrow> (byte \<times> nat \<times> byte list) option" where
  "check_record bs =
     (case bs of
        n # hi # lo # ty # rest \<Rightarrow>
          if length rest = unat n + 1 \<and> sum_list bs = 0
          then Some (ty, 256 * unat hi + unat lo, butlast rest) else None
      | _ \<Rightarrow> None)"

definition read_record :: "string \<Rightarrow> (byte \<times> nat \<times> byte list) option" where
  "read_record line =
     (if line \<noteq> [] \<and> hd line = CHR '':'' \<and> last line = CHR 0x0A
      then Option.bind (read_bytes (butlast (tl line))) check_record else None)"

text \<open>Data at an offset of a segment: the offset wraps at 64 KB.\<close>

definition store_data :: "nat \<Rightarrow> nat \<Rightarrow> byte list \<Rightarrow> (nat \<rightharpoonup> byte) \<Rightarrow> (nat \<rightharpoonup> byte)" where
  "store_data base off bs mem =
     fold (\<lambda>i m. m(base + (off + i) mod 65536 \<mapsto> bs ! i)) [0..<length bs] mem"

fun hex_load :: "nat \<Rightarrow> (nat \<rightharpoonup> byte) \<Rightarrow> string list \<Rightarrow> (nat \<rightharpoonup> byte) option" where
  "hex_load base mem [] = None"
| "hex_load base mem (l # ls) =
     (case read_record l of
        None \<Rightarrow> None
      | Some (ty, off, bs) \<Rightarrow>
          if ty = 1 then Some mem
          else if ty = 2 \<and> length bs = 2 then hex_load (16 * (256 * unat (bs ! 0) + unat (bs ! 1))) mem ls
          else if ty = 0 then hex_load base (store_data base off bs mem) ls
          else None)"

section \<open>Hexadecimal digits\<close>

lemma unhex_hex_digit: "d < 16 \<Longrightarrow> unhex (hex_digit d) = Some d"
  by (auto simp: unhex_def hex_digit_def isdigit_def code_def)

lemma hex_digits_small: "n < 16 \<Longrightarrow> hex_digits n = [hex_digit n]"
  by (simp add: hex_digits.simps)

lemma hex_digits_big: "16 \<le> n \<Longrightarrow> hex_digits n = hex_digits (n div 16) @ [hex_digit (n mod 16)]"
  by (simp add: hex_digits.simps [of n])

lemma hex_digit_0: "hex_digit 0 = CHR ''0''"
  by (simp add: hex_digit_def char_of_def bit_0)

lemma hex_fmt_1: "n < 16 \<Longrightarrow> hex_fmt 1 n = [hex_digit n]"
  by (simp add: hex_fmt_def hex_digits_small)

lemma hex_digits_length: "0 < k \<Longrightarrow> n < 16 ^ k \<Longrightarrow> length (hex_digits n) \<le> k"
proof (induction k arbitrary: n)
  case (Suc k)
  then show ?case
  proof (cases "n < 16")
    case False
    with Suc.prems have "n div 16 < 16 ^ k" "0 < k"
      by (auto simp: less_mult_imp_div_less mult.commute intro!: Nat.gr0I)
    with Suc.IH [of "n div 16"] False show ?thesis by (simp add: hex_digits_big)
  qed (simp add: hex_digits_small)
qed simp

text \<open>Padding one digit more than needed.\<close>

lemma hex_fmt_Suc:
  assumes "0 < k" "n < 16 ^ Suc k"
  shows "hex_fmt (Suc k) n = hex_fmt k (n div 16) @ [hex_digit (n mod 16)]"
proof (cases "n < 16")
  case True
  then show ?thesis using assms(1)
    by (simp add: hex_fmt_def hex_digits_small hex_digit_0 replicate_append_same [symmetric]
        flip: replicate_Suc) (metis Suc_pred replicate_Suc replicate_append_same)
next
  case False
  then show ?thesis by (simp add: hex_fmt_def hex_digits_big Let_def)
qed

lemma hex_fmt_2: "n < 256 \<Longrightarrow> hex_fmt 2 n = [hex_digit (n div 16), hex_digit (n mod 16)]"
  using hex_fmt_Suc [of 1 n] hex_fmt_1 [of "n div 16"] by (simp add: numeral_2_eq_2)

lemma hex_byte_digits: "hex_byte b = [hex_digit (unat b div 16), hex_digit (unat b mod 16)]"
  unfolding hex_byte_def by (rule hex_fmt_2) simp

lemma hex_fmt_4:
  assumes "n < 65536"
  shows "hex_fmt 4 n = hex_byte (of_nat (n div 256)) @ hex_byte (of_nat n)"
proof -
  have "hex_fmt 4 n = hex_fmt 2 (n div 16 div 16) @ [hex_digit (n div 16 mod 16), hex_digit (n mod 16)]"
    using hex_fmt_Suc [of 3 n] hex_fmt_Suc [of 2 "n div 16"] assms by simp
  also have "n div 16 div 16 = n div 256" by (simp add: div_mult2_eq [symmetric])
  also have "hex_fmt 2 (n div 256) = hex_byte (of_nat (n div 256))"
    unfolding hex_byte_def using assms by (simp add: unat_of_nat)
  also have "[hex_digit (n div 16 mod 16), hex_digit (n mod 16)] = hex_byte (of_nat n)"
    unfolding hex_byte_digits using mod_mult2_eq [of n 16 16] by (simp add: unat_of_nat)
  finally show ?thesis .
qed

lemma read_bytes_render: "read_bytes (concat (map hex_byte bs)) = Some bs"
proof (induction bs)
  case (Cons b bs)
  have "unat b div 16 < 16" using unat_byte_lt [of b] by linarith
  with Cons show ?case
    by (simp add: hex_byte_digits unhex_hex_digit)
qed simp

definition render :: "byte list \<Rightarrow> string" where
  "render bs = '':'' @ concat (map hex_byte bs) @ [CHR 0x0A]"

lemma read_record_render: "read_record (render bs) = check_record bs"
  by (simp add: read_record_def render_def read_bytes_render)

section \<open>The records\<close>

lemma hex_fmt_2_byte: "n < 256 \<Longrightarrow> hex_fmt 2 n = hex_byte (of_nat n)"
  by (simp add: hex_byte_def unat_of_nat)

lemma ext_record_render:
  "seg < 65536 \<Longrightarrow>
   ext_record seg = render [2, 0, 0, 2, of_nat (seg div 256), of_nat seg,
     cksum [2, 2, of_nat (seg div 256), of_nat seg]]"
  by (simp add: ext_record_def render_def hex_fmt_4)
    (simp add: hex_byte_digits hex_digit_def char_of_def bit_0)

lemma data_record_render:
  assumes "chunk < 256" "offset < 65536"
  shows "data_record buf offset pos chunk =
    render ([of_nat chunk, of_nat (offset div 256), of_nat offset, 0] @
      map (\<lambda>i. buf (int (pos + i))) [0..<chunk] @
      [cksum ([of_nat chunk, of_nat (offset div 256), of_nat offset, 0] @
        map (\<lambda>i. buf (int (pos + i))) [0..<chunk])])"
proof -
  have "hex_byte 0 = ''00''" by (simp add: hex_byte_digits hex_digit_def char_of_def bit_0)
  with assms show ?thesis
    by (simp add: data_record_def render_def hex_fmt_4 hex_fmt_2_byte)
qed

lemma read_ext_record:
  "seg < 65536 \<Longrightarrow>
   read_record (ext_record seg) = Some (2, 0, [of_nat (seg div 256), of_nat seg])"
  by (simp add: ext_record_render read_record_render check_record_def cksum_def)

lemma read_data_record:
  "chunk < 256 \<Longrightarrow> offset < 65536 \<Longrightarrow>
   read_record (data_record buf offset pos chunk) =
     Some (0, offset, map (\<lambda>i. buf (int (pos + i))) [0..<chunk])"
  by (simp add: data_record_render read_record_render check_record_def cksum_def unat_of_nat
      algebra_simps)

lemma read_eof_record: "read_record ('':00000001FF'' @ [CHR 0x0A]) = Some (1, 0, [])"
proof -
  have "'':00000001FF'' @ [CHR 0x0A] = render [0, 0, 0, 1, 255]"
    by (simp add: render_def hex_byte_digits hex_digit_def char_of_def bit_0)
  then show ?thesis by (simp add: read_record_render check_record_def)
qed

section \<open>The file\<close>

definition copy_range :: "(int \<Rightarrow> byte) \<Rightarrow> nat \<Rightarrow> nat \<Rightarrow> (nat \<rightharpoonup> byte) \<Rightarrow> (nat \<rightharpoonup> byte)" where
  "copy_range buf pos e mem = (\<lambda>a. if pos \<le> a \<and> a < e then Some (buf (int a)) else mem a)"

lemma copy_range_empty [simp]: "e \<le> pos \<Longrightarrow> copy_range buf pos e mem = mem"
  by (auto simp: copy_range_def fun_eq_iff)

lemma store_data_copy:
  assumes "off + n \<le> 65536"
  shows "store_data base off (map (\<lambda>i. buf (int (base + off + i))) [0..<n]) mem =
         copy_range buf (base + off) (base + off + n) mem"
  using assms
proof (induction n)
  case 0
  then show ?case by (simp add: store_data_def)
next
  case (Suc n)
  let ?f = "\<lambda>i. buf (int (base + off + i))"
  have "fold (\<lambda>i m. m(base + (off + i) mod 65536 \<mapsto> map ?f [0..<Suc n] ! i)) [0..<n] mem =
        fold (\<lambda>i m. m(base + (off + i) mod 65536 \<mapsto> map ?f [0..<n] ! i)) [0..<n] mem"
    by (rule fold_cong) (auto simp: nth_append)
  with Suc show ?case
    by (auto simp: store_data_def copy_range_def fun_eq_iff nth_append add.assoc)
qed

lemma load_data_records:
  "base \<le> pos \<Longrightarrow> e \<le> base + 65536 \<Longrightarrow>
   hex_load base mem (data_records buf base pos e @ rest) = hex_load base (copy_range buf pos e mem) rest"
proof (induction buf base pos e arbitrary: mem rule: data_records.induct)
  case (1 buf base pos e)
  show ?case
  proof (cases "pos < e")
    case False
    then show ?thesis by (simp add: data_records.simps [of buf base pos e])
  next
    case True
    define chunk where "chunk = (if e - pos > 16 then 16 else e - pos)"
    then have chunk: "chunk \<le> 16" "pos + chunk \<le> e" using True by auto
    have "hex_load base mem (data_records buf base pos e @ rest) =
        hex_load base (store_data base (pos - base) (map (\<lambda>i. buf (int (pos + i))) [0..<chunk]) mem)
          (data_records buf base (pos + chunk) e @ rest)"
      using True "1.prems" chunk
      by (simp add: data_records.simps [of buf base pos e] chunk_def [symmetric] read_data_record)
    also have "store_data base (pos - base) (map (\<lambda>i. buf (int (pos + i))) [0..<chunk]) mem =
        copy_range buf pos (pos + chunk) mem"
      using store_data_copy [of "pos - base" chunk base buf mem] "1.prems" chunk by simp
    also have "hex_load base (copy_range buf pos (pos + chunk) mem)
          (data_records buf base (pos + chunk) e @ rest) =
        hex_load base (copy_range buf (pos + chunk) e (copy_range buf pos (pos + chunk) mem)) rest"
      using "1.IH" [OF True chunk_def] "1.prems" by simp
    also have "copy_range buf (pos + chunk) e (copy_range buf pos (pos + chunk) mem) =
        copy_range buf pos e mem"
      using chunk by (auto simp: copy_range_def fun_eq_iff)
    finally show ?thesis .
  qed
qed

text \<open>What the loader has stored when the loop has passed \<open>addr\<close>: the written bytes below it.\<close>

definition image_from ::
  "nat \<Rightarrow> (int \<Rightarrow> bool) \<Rightarrow> (int \<Rightarrow> byte) \<Rightarrow> nat \<Rightarrow> (nat \<rightharpoonup> byte) \<Rightarrow> (nat \<rightharpoonup> byte)" where
  "image_from maxo w buf addr mem =
     (\<lambda>a. if addr \<le> a \<and> a < maxo \<and> w (int a) then Some (buf (int a)) else mem a)"

lemma load_ihex_loop:
  "maxo \<le> 2 ^ 20 \<Longrightarrow> (\<And>g. cur = Some g \<Longrightarrow> base = 16 * g) \<Longrightarrow>
   hex_load base mem (ihex_loop maxo w buf cur addr @ ['':00000001FF'' @ [CHR 0x0A]]) =
   Some (image_from maxo w buf addr mem)"
proof (induction maxo w buf cur addr arbitrary: base mem rule: ihex_loop.induct)
  case (1 maxo w buf cur addr)
  define a where "a = while_upto (\<lambda>i. \<not> w (int i)) maxo addr"
  have skipped: "\<And>i. addr \<le> i \<Longrightarrow> i < a \<Longrightarrow> \<not> w (int i)" and ge: "addr \<le> a"
    using while_upto_between [of addr _ "\<lambda>i. \<not> w (int i)" maxo] while_upto_ge by (auto simp: a_def)
  show ?case
  proof (cases "a \<ge> maxo")
    case True
    then have "image_from maxo w buf addr mem = mem"
      using skipped by (force simp: image_from_def fun_eq_iff)
    with True show ?thesis
      by (simp add: ihex_loop.simps [of maxo w buf cur addr] a_def [symmetric] Let_def
          read_eof_record [simplified])
  next
    case False
    define seg where "seg = a div 16"
    define page_end where "page_end = min (seg * 16 + 0x10000) maxo"
    define e where "e = while_upto (\<lambda>i. w (int i)) page_end a"
    have seg: "seg < 65536" "seg * 16 \<le> a" using False "1.prems"(1) by (auto simp: seg_def)
    have run: "\<And>i. a \<le> i \<Longrightarrow> i < e \<Longrightarrow> i < page_end \<and> w (int i)" and ae: "a \<le> e"
      using while_upto_between [of a _ "\<lambda>i. w (int i)" page_end] while_upto_ge by (auto simp: e_def)
    have "a < page_end" using False seg by (auto simp: page_end_def seg_def)
    then have "e \<le> page_end" using while_upto_le [of "\<lambda>i. w (int i)" page_end a] by (simp add: e_def)
    then have epage: "e \<le> 16 * seg + 65536" "e \<le> maxo" by (auto simp: page_end_def)
    define ext where "ext = (if cur \<noteq> Some seg then [ext_record seg] else [])"
    have ext: "hex_load base mem (ext @ rest) = hex_load (16 * seg) mem rest" for rest
      using seg "1.prems"(2) by (auto simp: ext_def read_ext_record unat_of_nat)
    have "hex_load base mem (ihex_loop maxo w buf cur addr @ ['':00000001FF'' @ [CHR 0x0A]]) =
        hex_load (16 * seg) (copy_range buf a e mem)
          (ihex_loop maxo w buf (Some seg) e @ ['':00000001FF'' @ [CHR 0x0A]])"
      using False seg epage
      by (simp add: ihex_loop.simps [of maxo w buf cur addr] a_def [symmetric] seg_def [symmetric]
          page_end_def [symmetric] e_def [symmetric] ext_def [symmetric] Let_def ext
          load_data_records mult.commute del: append.simps)
    also have "\<dots> = Some (image_from maxo w buf e (copy_range buf a e mem))"
      using "1.IH" [OF a_def False seg_def page_end_def e_def "1.prems"(1)] by simp
    also have "image_from maxo w buf e (copy_range buf a e mem) = image_from maxo w buf addr mem"
      using run skipped ge ae epage by (force simp: image_from_def copy_range_def fun_eq_iff)
    finally show ?thesis .
  qed
qed

end
