(* ===== verification/Asm_Facts.thy ===== *)
theory Asm_Facts
  imports Asm_Invariant Asm_Hex
begin

text \<open>
  Facts about the assembler's state, as interpretations: the label table implements a table of
  names compared without case, and three invariants hold throughout a run (the image is written
  only inside the output buffer and keeps its fill byte elsewhere; the label table has one defined
  entry per name; no line is marked as relaxed twice).
\<close>

section \<open>The label table\<close>

text \<open>What a client of a table relies on: a look-up after a store.\<close>

locale name_table =
  fixes find :: "'t \<Rightarrow> 'k \<Rightarrow> 'v option"
    and store :: "'t \<Rightarrow> 'k \<Rightarrow> 'v \<Rightarrow> 't"
    and same :: "'k \<Rightarrow> 'k \<Rightarrow> bool"
    and key_ok :: "'k \<Rightarrow> bool"
    and invar :: "'t \<Rightarrow> bool"
  assumes find_store:
      "invar t \<Longrightarrow> key_ok k \<Longrightarrow> find (store t k v) k' = (if same k k' then Some v else find t k')"
    and invar_store: "invar t \<Longrightarrow> key_ok k \<Longrightarrow> invar (store t k v)"
    and same_sym: "same k k' \<Longrightarrow> same k' k"
    and same_trans: "same k k' \<Longrightarrow> same k' k'' \<Longrightarrow> same k k''"
begin

lemma stores_commute:
  assumes "invar t" "key_ok k" "key_ok k'" "\<not> same k k'"
  shows "find (store (store t k v) k' v') x = find (store (store t k' v') k v) x"
proof -
  have "\<not> (same k x \<and> same k' x)" using assms(4) same_sym same_trans by blast
  with assms show ?thesis by (simp add: find_store invar_store)
qed

lemma invar_stores:
  "invar t \<Longrightarrow> \<forall>(k, v) \<in> set kvs. key_ok k \<Longrightarrow> invar (foldl (\<lambda>t (k, v). store t k v) t kvs)"
  by (induction kvs arbitrary: t) (auto simp: invar_store)

lemma find_stores:
  "invar t \<Longrightarrow> \<forall>(k, v) \<in> set kvs. key_ok k \<Longrightarrow>
   find (foldl (\<lambda>t (k, v). store t k v) t kvs) x =
   (case List.find (\<lambda>(k, v). same k x) (rev kvs) of Some (k, v) \<Rightarrow> Some v | None \<Rightarrow> find t x)"
proof (induction kvs rule: rev_induct)
  case (snoc kv kvs)
  obtain k v where kv: "kv = (k, v)" by force
  have "invar (foldl (\<lambda>t (k, v). store t k v) t kvs)" using snoc.prems by (intro invar_stores) auto
  with snoc kv show ?case by (simp add: find_store)
qed simp

end

text \<open>The assembler's table.\<close>

definition label_info :: "label_t list \<Rightarrow> string \<Rightarrow> (int \<times> label_type \<times> int) option" where
  "label_info ls n =
     (case find_label_idx ls n of None \<Rightarrow> None
      | Some i \<Rightarrow> if ldefined (ls ! i) then Some (lvalue (ls ! i), lltype (ls ! i), lsegment (ls ! i)) else None)"

definition put_label :: "label_t list \<Rightarrow> string \<Rightarrow> int \<times> label_type \<times> int \<Rightarrow> label_t list" where
  "put_label ls n = (\<lambda>(v, lt, seg). store_label ls n v lt seg)"

definition labels_ok :: "label_t list \<Rightarrow> bool" where
  "labels_ok ls \<longleftrightarrow>
     distinct (map (\<lambda>l. map tolower (lname l)) ls) \<and> (\<forall>l \<in> set ls. ldefined l \<and> length (lname l) < 64)"

lemma find_label_idx_Some:
  "find_label_idx ls n = Some i \<Longrightarrow> i < length ls \<and> strcaseeq (lname (ls ! i)) n"
  by (induction ls arbitrary: i) (auto split: if_splits)

lemma find_label_idx_None:
  "find_label_idx ls n = None \<longleftrightarrow> (\<forall>l \<in> set ls. \<not> strcaseeq (lname l) n)"
  by (induction ls) auto

lemma find_label_idx_names: "map lname ls = map lname ls' \<Longrightarrow> find_label_idx ls n = find_label_idx ls' n"
proof (induction ls arbitrary: ls')
  case (Cons l ls)
  then show ?case by (cases ls') auto
qed simp

lemma find_label_idx_snoc:
  "find_label_idx (ls @ [l]) n =
   (case find_label_idx ls n of Some i \<Rightarrow> Some i
    | None \<Rightarrow> if strcaseeq (lname l) n then Some (length ls) else None)"
  by (induction ls) (auto split: option.split)

lemma find_label_idx_same: "strcaseeq n n' \<Longrightarrow> find_label_idx ls n = find_label_idx ls n'"
  by (induction ls) (auto simp: strcaseeq_def)

lemma names_store_found:
  "find_label_idx ls n = Some i \<Longrightarrow>
   map lname (ls[i := (ls ! i)\<lparr>lvalue := v, ldefined := True, lltype := lt, lsegment := seg\<rparr>]) = map lname ls"
  using find_label_idx_Some [of ls n i] by (simp add: map_update list_update_same_conv)

lemma labels_ok_store:
  assumes ok: "labels_ok ls" and n: "length n < 64"
  shows "labels_ok (store_label ls n v lt seg)"
proof (cases "find_label_idx ls n")
  case None
  then have "\<forall>l \<in> set ls. map tolower (lname l) \<noteq> map tolower n"
    by (simp add: find_label_idx_None strcaseeq_def)
  with None ok n show ?thesis by (auto simp: store_label_def labels_ok_def)
next
  case (Some i)
  let ?ls' = "ls[i := (ls ! i)\<lparr>lvalue := v, ldefined := True, lltype := lt, lsegment := seg\<rparr>]"
  have "map (\<lambda>l. map tolower (lname l)) ?ls' = map (map tolower) (map lname ?ls')" by simp
  also have "\<dots> = map (map tolower) (map lname ls)" by (simp only: names_store_found [OF Some])
  finally have "map (\<lambda>l. map tolower (lname l)) ?ls' = map (\<lambda>l. map tolower (lname l)) ls" by simp
  moreover have "\<forall>l \<in> set ?ls'. ldefined l \<and> length (lname l) < 64"
    using find_label_idx_Some [OF Some] ok
    by (auto simp: labels_ok_def dest!: set_update_subset_insert [THEN subsetD])
  ultimately show ?thesis using ok by (simp add: store_label_def Some labels_ok_def)
qed

lemma label_info_store:
  assumes ok: "labels_ok ls" and n: "length n < 64"
  shows "label_info (store_label ls n v lt seg) n' =
    (if strcaseeq n n' then Some (v, lt, seg) else label_info ls n')"
proof (cases "find_label_idx ls n")
  case None
  then have "strcaseeq n n' \<Longrightarrow> find_label_idx ls n' = None"
    using find_label_idx_same by metis
  with None n show ?thesis
    by (auto simp: label_info_def store_label_def find_label_idx_snoc nth_append
        dest: find_label_idx_Some split: option.split)
next
  case (Some i)
  note fi = find_label_idx_Some [OF Some]
  let ?ls' = "ls[i := (ls ! i)\<lparr>lvalue := v, ldefined := True, lltype := lt, lsegment := seg\<rparr>]"
  have idx: "find_label_idx ?ls' n' = find_label_idx ls n'"
    by (rule find_label_idx_names [OF names_store_found [OF Some]])
  have st: "store_label ls n v lt seg = ?ls'" by (simp add: store_label_def Some)
  show ?thesis
  proof (cases "strcaseeq n n'")
    case True
    then have "find_label_idx ls n' = Some i" using Some find_label_idx_same by metis
    with True fi show ?thesis by (simp add: st label_info_def idx)
  next
    case False
    have "j \<noteq> i" if "find_label_idx ls n' = Some j" for j
      using find_label_idx_Some [OF that] fi False strcaseeq_sym strcaseeq_trans by blast
    with False show ?thesis by (auto simp: st label_info_def idx split: option.split)
  qed
qed

interpretation lbl: name_table label_info put_label strcaseeq "\<lambda>n. length n < 64" labels_ok
proof unfold_locales
  show "labels_ok t \<Longrightarrow> length k < 64 \<Longrightarrow>
      label_info (put_label t k v) k' = (if strcaseeq k k' then Some v else label_info t k')" for t k v k'
    by (cases v) (simp add: put_label_def label_info_store)
  show "labels_ok t \<Longrightarrow> length k < 64 \<Longrightarrow> labels_ok (put_label t k v)" for t k v
    by (cases v) (simp add: put_label_def labels_ok_store)
  show "strcaseeq k k' \<Longrightarrow> strcaseeq k' k" for k k' by (rule strcaseeq_sym)
  show "strcaseeq k k' \<Longrightarrow> strcaseeq k' k'' \<Longrightarrow> strcaseeq k k''" for k k' k'' by (rule strcaseeq_trans)
qed

section \<open>Invariants of a run\<close>

subsection \<open>The image\<close>

definition image_ok :: "asm_state \<Rightarrow> bool" where
  "image_ok s \<longleftrightarrow>
     (\<forall>a. if written s a then 0 \<le> a \<and> a < MAX_OUTPUT else out_buf s a = 0xFF)"

lemma image_ok_cong:
  "image_ok s \<Longrightarrow> written t = written s \<Longrightarrow> out_buf t = out_buf s \<Longrightarrow> image_ok t"
  by (simp add: image_ok_def)

interpretation image: asm_run_invariant image_ok "\<lambda>_. True"
proof unfold_locales
  show "keeps image_ok (\<lambda>_. True) (emit b)" for b
    by (rule keepsI) (auto simp: emit_def image_ok_def Let_def split: if_splits)
  show "keeps image_ok (\<lambda>_. True) (add_label_typed n v t)" for n v t
    unfolding add_label_typed_def err_def
    by (intro valid_rules keeps_modify) (auto elim: image_ok_cong)
qed (auto simp: err_def mark_relaxed_line_def do_endorg_def record_dbg_def rewind_def Let_def
      intro!: keeps_modify elim: image_ok_cong)

subsection \<open>Labels and relaxed lines\<close>

definition tables_ok :: "asm_state \<Rightarrow> bool" where
  "tables_ok s \<longleftrightarrow> labels_ok (labels s) \<and> distinct (relaxed_lines s)"

lemma tables_ok_cong:
  "tables_ok s \<Longrightarrow> labels t = labels s \<Longrightarrow> relaxed_lines t = relaxed_lines s \<Longrightarrow> tables_ok t"
  by (simp add: tables_ok_def)

interpretation tables: asm_run_invariant tables_ok "\<lambda>_. True"
proof unfold_locales
  show "keeps tables_ok (\<lambda>_. True) (emit b)" for b
    by (rule keepsI) (auto simp: emit_def tables_ok_def Let_def split: if_splits)
  show "keeps tables_ok (\<lambda>_. True) (mark_relaxed_line l)" for l
    unfolding mark_relaxed_line_def
    by (rule keeps_modify) (auto simp: tables_ok_def is_relaxed_line_def list_ex_iff)
  show "length n < 64 \<Longrightarrow> keeps tables_ok (\<lambda>_. True) (add_label_typed n v t)" for n v t
    unfolding add_label_typed_def err_def
    by (intro valid_rules keeps_modify) (auto simp: tables_ok_def labels_ok_store)
  show "tables_ok s \<Longrightarrow> tables_ok (s\<lparr>relaxed_lines := []\<rparr>)" for s
    by (simp add: tables_ok_def)
qed (auto simp: err_def do_endorg_def record_dbg_def rewind_def Let_def
      intro!: keeps_modify elim: tables_ok_cong)

section \<open>Properties\<close>



text \<open>
  (C28) When the passes return, the label table holds at most one entry per name, compared
  without case, each of them defined and of fewer than 64 characters, and no line is marked as
  relaxed twice.
\<close>

theorem tables_consistent:
  assumes "assemble_passes ls init_state = Inr ((), s)"
  shows "labels_ok (labels s) \<and> distinct (relaxed_lines s)"
proof -
  have "tables_ok init_state" by (simp add: tables_ok_def labels_ok_def init_state_def)
  from keeps_Inr [OF tables.keeps_assemble_passes this assms] show ?thesis
    by (simp add: tables_ok_def)
qed

theorem tables_consistent_witness:
  "let s = snd (projr (assemble_passes [''a: nop'', ''B equ 3'', '' org 0x200'', '' jz A''] init_state))
   in map lname (labels s) = [''a'', ''B''] \<and> relaxed_lines s = [4] \<and> labels_ok (labels s)"
proof -
  let ?m = "assemble_passes [''a: nop'', ''B equ 3'', '' org 0x200'', '' jz A'']"
  let ?s = "snd (projr (?m init_state))"
  have "\<not> isl (?m init_state)" by code_simp
  then have run: "?m init_state = Inr ((), ?s)" by (cases "?m init_state") auto
  have "map lname (labels ?s) = [''a'', ''B'']" "relaxed_lines ?s = [4]" by code_simp+
  with tables_consistent [OF run] show ?thesis by (simp add: Let_def)
qed

text \<open>
  A label that was added without a duplicate error is found by every spelling of its name,
  with the value, and every other name finds what it found before.
\<close>

theorem lookup_after_add:
  assumes "labels_ok (labels s)" and "length n < 64"
    and "add_label_typed n v lt s = Inr ((), s')" and "errors s' = errors s"
  shows "label_info (labels s') n' =
    (if strcaseeq n n' then Some (v, lt, seg_base s) else label_info (labels s) n')"
proof -
  from assms(3,4) have "labels s' = put_label (labels s) n (v, lt, seg_base s)"
    by (auto simp: add_label_typed_def bnd_def gets_def modify_def err_def put_label_def split: if_splits)
  with lbl.find_store [OF assms(1,2)] show ?thesis by simp
qed

theorem lookup_after_add_witness:
  "label_info (store_label (labels init_state) ''Loop'' 16 LBL_CODE 0) ''lOOP'' = Some (16, LBL_CODE, 0) \<and>
   label_info (store_label (labels init_state) ''Loop'' 16 LBL_CODE 0) ''x'' = None"
proof -
  let ?s' = "init_state\<lparr>labels := store_label (labels init_state) ''Loop'' 16 LBL_CODE 0\<rparr>"
  have ok: "labels_ok (labels init_state)" by (simp add: labels_ok_def init_state_def)
  have "defined_label init_state ''Loop'' = None" by code_simp
  then have run: "add_label_typed ''Loop'' 16 LBL_CODE init_state = Inr ((), ?s')"
    by (simp add: add_label_typed_def bnd_def gets_def modify_def init_state_def)
  have e: "strcaseeq ''Loop'' ''lOOP''" "\<not> strcaseeq ''Loop'' ''x''" by code_simp+
  show ?thesis
    using lookup_after_add [OF ok _ run, of "''lOOP''"] lookup_after_add [OF ok _ run, of "''x''"] e
    by (simp add: init_state_def label_info_def)
qed



text \<open>
  (C30) The Intel HEX file of an image of at most 1 MB, loaded by the specified loader, yields
  exactly the written bytes at their addresses.
\<close>

theorem ihex_roundtrip:
  assumes "maxo \<le> nat MAX_OUTPUT"
  shows "hex_load 0 Map.empty (ihex_file maxo s) =
    Some (\<lambda>a. if a < maxo \<and> written s (int a) then Some (out_buf s (int a)) else None)"
proof -
  have "maxo \<le> 2 ^ 20" using assms by (simp add: MAX_OUTPUT_def)
  from load_ihex_loop [OF this, of None 0 Map.empty "written s" "out_buf s" 0]
  show ?thesis by (simp add: ihex_file_def image_from_def)
qed

theorem ihex_roundtrip_witness:
  "hex_load 0 Map.empty (ihex_file 40
      (init_state\<lparr>out_buf := (\<lambda>a. word_of_int a), written := (\<lambda>a. a \<in> {3, 4, 35})\<rparr>)) =
   Some [3 \<mapsto> 3, 4 \<mapsto> 4, 35 \<mapsto> 35]"
  using ihex_roundtrip [of 40 "init_state\<lparr>out_buf := (\<lambda>a. word_of_int a), written := (\<lambda>a. a \<in> {3, 4, 35})\<rparr>"]
  by (auto simp: MAX_OUTPUT_def fun_eq_iff)

end
