(* ===== verification/V20_Timing.thy ===== *)
theory V20_Timing
  imports Nib_Prelude
begin

text \<open>
  The V20 timing model, \<^verbatim>\<open>src/v20_timing.c\<close>: the text of one assembly line is split into a
  label, a prefix, a mnemonic and up to three operands, each operand is classified, and a chain of
  conditions selects the encoded size, the clocks and the bus transfers of the instruction. The
  chain is a list of guarded updates, one list for each stretch of the \<^verbatim>\<open>else if\<close> chain
  of \<^verbatim>\<open>v20_timing_estimate\<close>. The fixed buffers are modelled by the truncation they cause.
\<close>

section \<open>Data\<close>

datatype v20_mix =
    V20_MIX_OTHER | V20_MIX_MEMORY | V20_MIX_PUSH_POP | V20_MIX_CALL | V20_MIX_BRANCH
  | V20_MIX_SEGMENT | V20_MIX_IO | V20_MIX_SHIFT | V20_MIX_STRING

record v20_timing =
  known :: bool
  variable :: bool
  clocks_min :: int
  clocks_max :: int
  transfers_min :: int
  transfers_max :: int
  bytes_min :: int
  bytes_max :: int
  mix :: v20_mix
  mnemonic :: string
  form :: string
  clocks :: string
  transfers :: string
  timing_note :: string

datatype op_class =
  OP_NONE | OP_REG8 | OP_REG16 | OP_SREG | OP_IMM | OP_MEM8 | OP_MEM16 | OP_MEM | OP_FAR

record cost_operand =
  cls :: op_class
  op_mem :: bool
  seg_override :: bool
  imm8 :: bool
  text_of :: string

text \<open>\<^verbatim>\<open>memset(&t, 0, sizeof(t))\<close> for both structures.\<close>

definition timing0 :: v20_timing where
  "timing0 = \<lparr>known = False, variable = False, clocks_min = 0, clocks_max = 0,
     transfers_min = 0, transfers_max = 0, bytes_min = 0, bytes_max = 0, mix = V20_MIX_OTHER,
     mnemonic = '''', form = '''', clocks = '''', transfers = '''', timing_note = ''''\<rparr>"

definition operand0 :: cost_operand where
  "operand0 = \<lparr>cls = OP_NONE, op_mem = False, seg_override = False, imm8 = False, text_of = ''''\<rparr>"

section \<open>Text\<close>

text \<open>Copying into a buffer of \<open>sz\<close> bytes keeps the first \<open>sz - 1\<close> characters.\<close>

definition lower_copy :: "nat \<Rightarrow> string \<Rightarrow> string" where
  "lower_copy dstsz src = map tolower (take (dstsz - 1) src)"

definition trim :: "string \<Rightarrow> string" where
  "trim s = rev (dropWhile isspace (rev (dropWhile isspace s)))"

definition is_reg8 :: "string \<Rightarrow> bool" where
  "is_reg8 s \<longleftrightarrow> s \<in> set [''al'', ''cl'', ''dl'', ''bl'', ''ah'', ''ch'', ''dh'', ''bh'']"

definition is_reg16 :: "string \<Rightarrow> bool" where
  "is_reg16 s \<longleftrightarrow> s \<in> set [''ax'', ''cx'', ''dx'', ''bx'', ''sp'', ''bp'', ''si'', ''di'']"

definition is_sreg :: "string \<Rightarrow> bool" where
  "is_sreg s \<longleftrightarrow> s = ''es'' \<or> s = ''cs'' \<or> s = ''ss'' \<or> s = ''ds''"

definition parse_int_literal :: "string \<Rightarrow> int option" where
  "parse_int_literal s =
     (let len = length s
      in if len = 0 \<or> len \<ge> 64 then None
         else
           let hex = (len > 1 \<and> (last s = CHR ''h'' \<or> last s = CHR ''H''));
               (v, end_ptr) = strtol (if hex then 16 else 10) (if hex then butlast s else s)
           in if trim end_ptr \<noteq> [] then None else Some v)"

text \<open>
  The loop of \<^verbatim>\<open>split_operands\<close>: \<open>cur\<close> is the operand read so far (at most 95
  characters) and \<open>ops\<close> the operands already stored (at most three).
\<close>

definition store_op :: "string \<Rightarrow> string list \<Rightarrow> string list" where
  "store_op cur ops = (if length ops < 3 then ops @ [take 95 (trim cur)] else ops)"

fun split_loop :: "string \<Rightarrow> nat \<Rightarrow> string \<Rightarrow> string list \<Rightarrow> string list" where
  "split_loop [] depth cur ops = store_op cur ops"
| "split_loop (ch # p) depth cur ops =
     (let depth = (if ch = CHR ''['' then depth + 1
                   else if ch = CHR '']'' \<and> depth > 0 then depth - 1 else depth)
      in if ch = CHR '','' \<and> depth = 0 then split_loop p depth [] (store_op cur ops)
         else split_loop p depth (if length cur + 1 < 96 then cur @ [ch] else cur) ops)"

definition split_operands :: "string \<Rightarrow> string list" where
  "split_operands src = split_loop src 0 [] []"

text \<open>\<^verbatim>\<open>strstr(s, sub) != NULL\<close>\<close>

fun strstr :: "string \<Rightarrow> string \<Rightarrow> bool" where
  "strstr [] sub \<longleftrightarrow> sub = []"
| "strstr (c # s) sub \<longleftrightarrow> strneq (c # s) sub (length sub) \<or> strstr s sub"

definition strip_size :: "string \<Rightarrow> bool \<times> bool \<times> bool \<times> string" where
  "strip_size s =
     (if strneq s ''byte '' 5 then (True, False, False, trim (drop 5 s))
      else if strneq s ''word '' 5 then (False, True, False, trim (drop 5 s))
      else if strneq s ''far '' 4 then (False, False, True, trim (drop 4 s))
      else (False, False, False, s))"

definition classify_operand :: "string \<Rightarrow> cost_operand" where
  "classify_operand raw =
     (let (force_byte, force_word, force_far, s) = strip_size (trim (lower_copy 96 raw));
          op = operand0\<lparr>text_of := s\<rparr>
      in if is_reg8 s then op\<lparr>cls := OP_REG8\<rparr>
         else if is_reg16 s then op\<lparr>cls := OP_REG16\<rparr>
         else if is_sreg s then op\<lparr>cls := OP_SREG\<rparr>
         else if CHR ''['' \<in> set s then
           op\<lparr>op_mem := True,
              seg_override := strstr s ''[es:'' \<or> strstr s ''[cs:'' \<or> strstr s ''[ss:'' \<or> strstr s ''[ds:'',
              cls := (if force_far then OP_FAR else if force_byte then OP_MEM8
                      else if force_word then OP_MEM16 else OP_MEM)\<rparr>
         else if force_far \<or> CHR '':'' \<in> set s then op\<lparr>cls := OP_FAR\<rparr>
         else op\<lparr>cls := OP_IMM,
                 imm8 := (case parse_int_literal s of None \<Rightarrow> False | Some v \<Rightarrow> v \<ge> -128 \<and> v \<le> 255)\<rparr>)"

definition op_is_reg :: "op_class \<Rightarrow> bool" where
  "op_is_reg c \<longleftrightarrow> c = OP_REG8 \<or> c = OP_REG16"

definition op_is_mem :: "op_class \<Rightarrow> bool" where
  "op_is_mem c \<longleftrightarrow> c = OP_MEM \<or> c = OP_MEM8 \<or> c = OP_MEM16"

definition op_width :: "op_class \<Rightarrow> int" where
  "op_width c =
     (if c = OP_REG8 \<or> c = OP_MEM8 then 1
      else if c = OP_REG16 \<or> c = OP_MEM16 \<or> c = OP_SREG then 2 else 0)"

section \<open>Setting a timing\<close>

definition range_text :: "nat \<Rightarrow> int \<Rightarrow> int \<Rightarrow> string" where
  "range_text sz lo hi =
     snprintf_s sz (if lo = hi then dec_int lo else dec_int lo @ ''-'' @ dec_int hi)"

definition set_known ::
  "string \<Rightarrow> int \<Rightarrow> int \<Rightarrow> int \<Rightarrow> int \<Rightarrow> int \<Rightarrow> int \<Rightarrow> v20_mix \<Rightarrow> v20_timing \<Rightarrow> v20_timing" where
  "set_known frm bmin bmax cmin cmax xmin xmax mx t =
     t\<lparr>known := True, bytes_min := bmin, bytes_max := bmax, clocks_min := cmin, clocks_max := cmax,
       transfers_min := xmin, transfers_max := xmax, mix := mx, form := snprintf_s 96 frm,
       clocks := range_text 32 cmin cmax, transfers := range_text 32 xmin xmax\<rparr>"

definition set_variable ::
  "string \<Rightarrow> int \<Rightarrow> int \<Rightarrow> string \<Rightarrow> string \<Rightarrow> v20_mix \<Rightarrow> v20_timing \<Rightarrow> v20_timing" where
  "set_variable frm bmin bmax clk xfer mx t =
     t\<lparr>known := True, variable := True, bytes_min := bmin, bytes_max := bmax, mix := mx,
       form := snprintf_s 96 frm, clocks := snprintf_s 32 clk, transfers := snprintf_s 32 xfer\<rparr>"

text \<open>The loop stops at the first operand with an override.\<close>

definition add_seg_override_cost :: "cost_operand list \<Rightarrow> v20_timing \<Rightarrow> v20_timing" where
  "add_seg_override_cost a t =
     (if \<not> known t then t
      else if list_ex seg_override a then
        t\<lparr>bytes_min := bytes_min t + 1, bytes_max := bytes_max t + 1,
          clocks_min := clocks_min t + 2, clocks_max := clocks_max t + 2,
          timing_note := snprintf_s 64 ''includes segment override'',
          clocks := range_text 32 (clocks_min t + 2) (clocks_max t + 2)\<rparr>
      else t)"

section \<open>Mnemonic classes\<close>

definition is_jcc :: "string \<Rightarrow> bool" where
  "is_jcc m \<longleftrightarrow> m \<in> set
     [''jo'', ''jno'', ''jb'', ''jc'', ''jnae'', ''jnb'', ''jnc'', ''jae'', ''jz'', ''je'',
      ''jnz'', ''jne'', ''jbe'', ''jna'', ''ja'', ''jnbe'', ''js'', ''jns'', ''jp'', ''jpe'',
      ''jnp'', ''jpo'', ''jl'', ''jnge'', ''jge'', ''jnl'', ''jle'', ''jng'', ''jg'', ''jnle'',
      ''jcxz'']"

definition is_alu :: "string \<Rightarrow> bool" where
  "is_alu m \<longleftrightarrow> m \<in> set [''add'', ''adc'', ''sub'', ''sbb'', ''cmp'', ''and'', ''or'', ''xor'']"

definition is_shift :: "string \<Rightarrow> bool" where
  "is_shift m \<longleftrightarrow> m \<in> set [''shl'', ''sal'', ''shr'', ''sar'', ''rol'', ''ror'', ''rcl'', ''rcr'']"

definition is_flag_simple :: "string \<Rightarrow> bool" where
  "is_flag_simple m \<longleftrightarrow>
     m = ''clc'' \<or> m = ''cld'' \<or> m = ''cli'' \<or> m = ''cmc'' \<or> m = ''stc'' \<or> m = ''std'' \<or> m = ''sti''"

definition is_prefix :: "string \<Rightarrow> bool" where
  "is_prefix m \<longleftrightarrow>
     m = ''lock'' \<or> m = ''rep'' \<or> m = ''repe'' \<or> m = ''repz'' \<or> m = ''repne'' \<or> m = ''repnz'' \<or>
     m = ''repc'' \<or> m = ''repnc''"

definition is_asm_directive :: "string \<Rightarrow> bool" where
  "is_asm_directive s \<longleftrightarrow>
     strneq s ''org '' 4 \<or> strneq s ''seg '' 4 \<or> strneq s ''db '' 3 \<or> strneq s ''dw '' 3 \<or>
     strneq s ''equ '' 4 \<or> strneq s ''endorg'' 6"

section \<open>The instructions\<close>

text \<open>An \<^verbatim>\<open>else if\<close> chain: the first guard that holds selects the update.\<close>

type_synonym arm = "bool \<times> (v20_timing \<Rightarrow> v20_timing)"

fun select_arm :: "arm list \<Rightarrow> v20_timing \<Rightarrow> v20_timing" where
  "select_arm [] t = t"
| "select_arm ((c, f) # arms) t = (if c then f t else select_arm arms t)"

text \<open>\<^verbatim>\<open>ops[i]\<close> of the zeroed array of three operands.\<close>

definition op_at :: "cost_operand list \<Rightarrow> nat \<Rightarrow> cost_operand" where
  "op_at ops i = (if i < length ops then ops ! i else operand0)"

subsection \<open>Repeated string instructions\<close>

definition rep_arms :: "string \<Rightarrow> arm list" where
  "rep_arms m =
     [(m = ''movsb'', set_variable ''rep movsb'' 2 2 ''11+8*n'' ''2*n'' V20_MIX_STRING),
      (m = ''movsw'', set_variable ''rep movsw'' 2 2 ''11+16*n'' ''2*n'' V20_MIX_STRING),
      (m = ''stosb'', set_variable ''rep stosb'' 2 2 ''7+4*n'' ''n'' V20_MIX_STRING),
      (m = ''stosw'', set_variable ''rep stosw'' 2 2 ''7+8*n'' ''n'' V20_MIX_STRING),
      (m = ''lodsb'', set_variable ''rep lodsb'' 2 2 ''7+9*n'' ''n'' V20_MIX_STRING),
      (m = ''lodsw'', set_variable ''rep lodsw'' 2 2 ''7+13*n'' ''n'' V20_MIX_STRING),
      (m = ''cmpsb'', set_variable ''rep cmpsb'' 2 2 ''7+14*n'' ''n'' V20_MIX_STRING),
      (m = ''cmpsw'', set_variable ''rep cmpsw'' 2 2 ''7+22*n'' ''n'' V20_MIX_STRING),
      (m = ''scasb'', set_variable ''rep scasb'' 2 2 ''7+10*n'' ''n'' V20_MIX_STRING),
      (m = ''scasw'', set_variable ''rep scasw'' 2 2 ''7+14*n'' ''n'' V20_MIX_STRING),
      (m = ''insb'' \<or> m = ''outsb'', set_variable m 2 2 ''9+8*n'' ''2*n'' V20_MIX_STRING),
      (m = ''insw'' \<or> m = ''outsw'', set_variable m 2 2 ''9+16*n'' ''2*n'' V20_MIX_STRING),
      (True, set_variable ''repeat prefix'' 1 1 ''2+body'' ''body'' V20_MIX_STRING)]"

subsection \<open>Processor control and moves\<close>

definition control_arms :: "string \<Rightarrow> arm list" where
  "control_arms m =
     [(is_prefix m, set_known ''prefix'' 1 1 2 2 0 0 V20_MIX_OTHER),
      (is_flag_simple m, set_known m 1 1 2 2 0 0 V20_MIX_OTHER),
      (m = ''nop'', set_known ''nop'' 1 1 3 3 0 0 V20_MIX_OTHER),
      (m = ''hlt'', set_known ''hlt'' 1 1 2 2 0 0 V20_MIX_OTHER),
      (m = ''poll'', set_variable ''poll'' 1 1 ''2+5*n'' ''0'' V20_MIX_OTHER),
      (m = ''brkem'', set_known ''brkem imm8'' 3 3 50 50 5 5 V20_MIX_CALL),
      (m = ''calln'', set_known ''calln imm8'' 3 3 58 58 5 5 V20_MIX_CALL),
      (m = ''cbw'' \<or> m = ''cwd'', set_known m 1 1 2 2 0 0 V20_MIX_OTHER),
      (m = ''lahf'' \<or> m = ''sahf'', set_known m 1 1 2 2 0 0 V20_MIX_OTHER)]"

definition mov_timing :: "op_class \<Rightarrow> op_class \<Rightarrow> v20_timing \<Rightarrow> v20_timing" where
  "mov_timing d s =
     (if op_is_reg d \<and> op_is_reg s then
        set_known (if op_width d = 1 then ''mov reg8, reg8'' else ''mov reg16, reg16'')
          2 2 2 2 0 0 V20_MIX_OTHER
      else if op_is_mem d \<and> op_is_reg s then
        set_known (if op_width s = 1 then ''mov mem8, reg8'' else ''mov mem16, reg16'')
          2 4 (if op_width s = 1 then 9 else 13) (if op_width s = 1 then 9 else 13) 1 1 V20_MIX_MEMORY
      else if op_is_reg d \<and> op_is_mem s then
        set_known (if op_width d = 1 then ''mov reg8, mem8'' else ''mov reg16, mem16'')
          2 4 (if op_width d = 1 then 11 else 15) (if op_width d = 1 then 11 else 15) 1 1 V20_MIX_MEMORY
      else if op_is_reg d \<and> s = OP_IMM then
        set_known (if op_width d = 1 then ''mov reg8, imm8'' else ''mov reg16, imm16'')
          (if op_width d = 1 then 2 else 3) (if op_width d = 1 then 2 else 3) 4 4 0 0 V20_MIX_OTHER
      else if op_is_mem d \<and> s = OP_IMM then
        set_known (if d = OP_MEM8 then ''mov mem8, imm8'' else ''mov mem16, imm16'')
          (if d = OP_MEM8 then 3 else 4) (if d = OP_MEM8 then 5 else 6)
          (if d = OP_MEM8 then 11 else 15) (if d = OP_MEM8 then 11 else 15) 1 1 V20_MIX_MEMORY
      else if d = OP_SREG \<and> (s = OP_REG16 \<or> op_is_mem s) then
        set_known (if s = OP_REG16 then ''mov sreg, reg16'' else ''mov sreg, mem16'')
          2 (if s = OP_REG16 then 2 else 4)
          (if s = OP_REG16 then 2 else 15) (if s = OP_REG16 then 2 else 15)
          (if s = OP_REG16 then 0 else 1) (if s = OP_REG16 then 0 else 1) V20_MIX_SEGMENT
      else if (d = OP_REG16 \<or> op_is_mem d) \<and> s = OP_SREG then
        set_known (if d = OP_REG16 then ''mov reg16, sreg'' else ''mov mem16, sreg'')
          2 (if d = OP_REG16 then 2 else 4)
          (if d = OP_REG16 then 2 else 14) (if d = OP_REG16 then 2 else 14)
          (if d = OP_REG16 then 0 else 1) (if d = OP_REG16 then 0 else 1) V20_MIX_SEGMENT
      else id)"

definition alu_timing :: "op_class \<Rightarrow> op_class \<Rightarrow> v20_timing \<Rightarrow> v20_timing" where
  "alu_timing d s =
     (let mx = (if op_is_mem d \<or> op_is_mem s then V20_MIX_MEMORY else V20_MIX_OTHER)
      in if op_is_reg d \<and> op_is_reg s then set_known ''alu reg, reg'' 2 2 2 2 0 0 mx
      else if op_is_mem d \<and> op_is_reg s then
        set_known (if op_width s = 1 then ''alu mem8, reg8'' else ''alu mem16, reg16'')
          2 4 (if op_width s = 1 then 16 else 24) (if op_width s = 1 then 16 else 24) 2 2 mx
      else if op_is_reg d \<and> op_is_mem s then
        set_known (if op_width d = 1 then ''alu reg8, mem8'' else ''alu reg16, mem16'')
          2 4 (if op_width d = 1 then 11 else 15) (if op_width d = 1 then 11 else 15) 1 1 mx
      else if op_is_reg d \<and> s = OP_IMM then
        set_known (if op_width d = 1 then ''alu reg8, imm8'' else ''alu reg16, imm'')
          3 (if op_width d = 1 then 3 else 4) 4 4 0 0 mx
      else if op_is_mem d \<and> s = OP_IMM then
        set_known (if d = OP_MEM8 then ''alu mem8, imm8'' else ''alu mem16, imm'')
          3 6 (if d = OP_MEM8 then 18 else 26) (if d = OP_MEM8 then 18 else 26) 2 2 mx
      else id)"

definition inc_dec_timing :: "op_class \<Rightarrow> v20_timing \<Rightarrow> v20_timing" where
  "inc_dec_timing c =
     (if op_is_reg c then
        set_known (if c = OP_REG8 then ''inc/dec reg8'' else ''inc/dec reg16'')
          (if c = OP_REG8 then 2 else 1) (if c = OP_REG8 then 2 else 1) 2 2 0 0 V20_MIX_OTHER
      else if op_is_mem c then
        set_known (if c = OP_MEM8 then ''inc/dec mem8'' else ''inc/dec mem16'')
          2 4 (if c = OP_MEM8 then 16 else 24) (if c = OP_MEM8 then 16 else 24) 2 2 V20_MIX_MEMORY
      else id)"

definition unary_timing :: "op_class \<Rightarrow> v20_timing \<Rightarrow> v20_timing" where
  "unary_timing c =
     (if op_is_reg c then
        set_known (if c = OP_REG8 then ''unary reg8'' else ''unary reg16'') 2 2 2 2 0 0 V20_MIX_OTHER
      else if op_is_mem c then
        set_known (if c = OP_MEM8 then ''unary mem8'' else ''unary mem16'')
          2 4 (if c = OP_MEM8 then 16 else 24) (if c = OP_MEM8 then 16 else 24) 2 2 V20_MIX_MEMORY
      else id)"

definition shift_timing :: "op_class \<Rightarrow> cost_operand \<Rightarrow> v20_timing \<Rightarrow> v20_timing" where
  "shift_timing c cnt =
     (let one = (cls cnt = OP_IMM \<and> text_of cnt = ''1'')
      in if op_is_reg c then
        (if one then set_known ''shift/rotate reg, 1'' 2 2 2 2 0 0 V20_MIX_SHIFT
         else set_variable ''shift/rotate reg, n'' 2 (if cls cnt = OP_IMM then 3 else 2)
                ''7+n'' ''0'' V20_MIX_SHIFT)
      else if op_is_mem c then
        (if one then
           set_known (if c = OP_MEM8 then ''shift/rotate mem8, 1'' else ''shift/rotate mem16, 1'')
             2 4 (if c = OP_MEM8 then 16 else 24) (if c = OP_MEM8 then 16 else 24) 2 2 V20_MIX_SHIFT
         else
           set_variable (if c = OP_MEM8 then ''shift/rotate mem8, n'' else ''shift/rotate mem16, n'')
             2 (if cls cnt = OP_IMM then 5 else 4)
             (if c = OP_MEM8 then ''19+n'' else ''27+n'') ''2'' V20_MIX_SHIFT)
      else id)"

definition data_arms :: "string \<Rightarrow> nat \<Rightarrow> cost_operand list \<Rightarrow> arm list" where
  "data_arms m n ops =
     [(m = ''mov'' \<and> n = 2, mov_timing (cls (op_at ops 0)) (cls (op_at ops 1))),
      (is_alu m \<and> n = 2, alu_timing (cls (op_at ops 0)) (cls (op_at ops 1))),
      ((m = ''inc'' \<or> m = ''dec'') \<and> n = 1, inc_dec_timing (cls (op_at ops 0))),
      ((m = ''neg'' \<or> m = ''not'') \<and> n = 1, unary_timing (cls (op_at ops 0))),
      (is_shift m \<and> n = 2, shift_timing (cls (op_at ops 0)) (op_at ops 1))]"

subsection \<open>Stack and control transfer\<close>

definition push_timing :: "cost_operand \<Rightarrow> v20_timing \<Rightarrow> v20_timing" where
  "push_timing a =
     (if cls a = OP_REG16 \<or> cls a = OP_SREG then
        set_known ''push reg16/sreg'' 1 1 12 12 1 1 V20_MIX_PUSH_POP
      else if op_is_mem (cls a) then set_known ''push mem16'' 2 4 26 26 2 2 V20_MIX_PUSH_POP
      else if cls a = OP_IMM then
        set_known (if imm8 a then ''push imm8'' else ''push imm16'')
          (if imm8 a then 2 else 3) (if imm8 a then 2 else 3)
          (if imm8 a then 11 else 12) (if imm8 a then 11 else 12) 1 1 V20_MIX_PUSH_POP
      else id)"

definition pop_timing :: "op_class \<Rightarrow> v20_timing \<Rightarrow> v20_timing" where
  "pop_timing c =
     (if c = OP_REG16 \<or> c = OP_SREG then
        set_known ''pop reg16/sreg'' 1 1 12 12 1 1 V20_MIX_PUSH_POP
      else if op_is_mem c then set_known ''pop mem16'' 2 4 25 25 2 2 V20_MIX_PUSH_POP
      else id)"

definition call_timing :: "cost_operand \<Rightarrow> v20_timing \<Rightarrow> v20_timing" where
  "call_timing a =
     (if cls a = OP_REG16 then set_known ''call reg16'' 2 2 18 18 1 1 V20_MIX_CALL
      else if cls a = OP_FAR \<and> op_mem a then set_known ''call far mem32'' 2 4 47 47 4 4 V20_MIX_CALL
      else if cls a = OP_FAR then set_known ''call far seg:off'' 5 5 29 29 2 2 V20_MIX_CALL
      else if op_is_mem (cls a) then set_known ''call mem16'' 2 4 31 31 2 2 V20_MIX_CALL
      else set_known ''call rel16'' 3 3 20 20 1 1 V20_MIX_CALL)"

definition jmp_timing :: "cost_operand \<Rightarrow> v20_timing \<Rightarrow> v20_timing" where
  "jmp_timing a =
     (if cls a = OP_REG16 then set_known ''jmp reg16'' 2 2 11 11 0 0 V20_MIX_BRANCH
      else if cls a = OP_FAR \<and> op_mem a then set_known ''jmp far mem32'' 2 4 35 35 2 2 V20_MIX_BRANCH
      else if cls a = OP_FAR then set_known ''jmp far seg:off'' 5 5 15 15 0 0 V20_MIX_BRANCH
      else if op_is_mem (cls a) then set_known ''jmp mem16'' 2 4 24 24 1 1 V20_MIX_BRANCH
      else set_known ''jmp rel'' 2 3 12 12 0 0 V20_MIX_BRANCH)"

definition ret_timing :: "string \<Rightarrow> nat \<Rightarrow> v20_timing \<Rightarrow> v20_timing" where
  "ret_timing m n =
     (if m = ''ret'' then
        set_known (if n \<noteq> 0 then ''ret imm16'' else ''ret'') (if n \<noteq> 0 then 3 else 1)
          (if n \<noteq> 0 then 3 else 1) (if n \<noteq> 0 then 24 else 19) (if n \<noteq> 0 then 24 else 19)
          1 1 V20_MIX_BRANCH
      else if m = ''retf'' then
        set_known (if n \<noteq> 0 then ''retf imm16'' else ''retf'') (if n \<noteq> 0 then 3 else 1)
          (if n \<noteq> 0 then 3 else 1) (if n \<noteq> 0 then 32 else 29) (if n \<noteq> 0 then 32 else 29)
          2 2 V20_MIX_BRANCH
      else id)"

text \<open>The arm for an operand \<^verbatim>\<open>far\<close> has an empty body.\<close>

definition transfer_arms :: "string \<Rightarrow> nat \<Rightarrow> cost_operand list \<Rightarrow> string list \<Rightarrow> arm list" where
  "transfer_arms m n ops op_text =
     [(m = ''push'' \<and> n = 1, push_timing (op_at ops 0)),
      (m = ''pop'' \<and> n = 1, pop_timing (cls (op_at ops 0))),
      (m = ''pusha'', set_known ''pusha'' 1 1 67 67 8 8 V20_MIX_PUSH_POP),
      (m = ''popa'', set_known ''popa'' 1 1 75 75 7 7 V20_MIX_PUSH_POP),
      (m = ''pushf'' \<or> m = ''popf'', set_known m 1 1 12 12 1 1 V20_MIX_PUSH_POP),
      (m = ''call'' \<and> n = 1, call_timing (op_at ops 0)),
      (m = ''jmp'' \<and> n = 1, jmp_timing (op_at ops 0)),
      (m \<noteq> ''call'' \<and> m \<noteq> ''jmp'' \<and> n \<ge> 2 \<and> hd op_text = ''far'', id),
      (m = ''enter'',
        if n \<ge> 2 \<and> text_of (op_at ops 1) \<noteq> ''0'' then
          set_variable ''enter imm16, imm8'' 4 4 ''23+16*(n-1)'' ''1+2*(n-1)'' V20_MIX_PUSH_POP
        else set_known ''enter imm16, 0'' 4 4 16 16 0 0 V20_MIX_PUSH_POP),
      (m = ''leave'', set_known ''leave'' 1 1 10 10 1 1 V20_MIX_PUSH_POP),
      (is_jcc m \<and> n = 1,
        if m = ''jcxz'' then set_known ''jcxz rel8'' 2 2 5 13 0 0 V20_MIX_BRANCH
        else set_known ''jcc rel8'' 2 2 4 14 0 0 V20_MIX_BRANCH),
      (strneq m ''ret'' 3, ret_timing m n),
      (m = ''iret'', set_known ''iret'' 1 1 32 32 3 3 V20_MIX_BRANCH),
      (m = ''loop'' \<or> m = ''loope'' \<or> m = ''loopz'' \<or> m = ''loopne'' \<or> m = ''loopnz'',
        set_known ''loop rel8'' 2 2 5 (if m = ''loop'' then 13 else 14) 0 0 V20_MIX_BRANCH)]"

subsection \<open>Input, addresses and arithmetic\<close>

definition in_timing :: "op_class \<Rightarrow> op_class \<Rightarrow> v20_timing \<Rightarrow> v20_timing" where
  "in_timing d s =
     (let word = (d = OP_REG16);
          c = (if word then (if s = OP_IMM then 13 else 12) else (if s = OP_IMM then 9 else 8))
      in set_known (if word then ''in AX, port'' else ''in AL, port'') 1 2 c c 1 1 V20_MIX_IO)"

definition out_timing :: "op_class \<Rightarrow> v20_timing \<Rightarrow> v20_timing" where
  "out_timing s =
     (let word = (s = OP_REG16)
      in set_known (if word then ''out port, AX'' else ''out port, AL'') 1 2
           (if word then 12 else 8) (if word then 12 else 8) 1 1 V20_MIX_IO)"

definition xchg_timing :: "op_class \<Rightarrow> op_class \<Rightarrow> v20_timing \<Rightarrow> v20_timing" where
  "xchg_timing d s =
     (if op_is_reg d \<and> op_is_reg s then set_known ''xchg reg, reg'' 1 2 3 3 0 0 V20_MIX_OTHER
      else set_known ''xchg reg, mem'' 2 4 17 25 2 2 V20_MIX_MEMORY)"

definition test_timing :: "op_class \<Rightarrow> op_class \<Rightarrow> v20_timing \<Rightarrow> v20_timing" where
  "test_timing d s =
     (let x = (if op_is_mem d then 1 else 0);
          mx = (if op_is_mem d then V20_MIX_MEMORY else V20_MIX_OTHER)
      in if s = OP_IMM then
           set_known ''test r/m, imm'' 2 6 (if op_is_mem d then 11 else 4)
             (if op_is_mem d then 11 else 4) x x mx
         else
           set_known ''test r/m, reg'' 2 4 (if op_is_mem d then 11 else 2)
             (if op_is_mem d then 11 else 2) x x mx)"

definition mul_div_timing :: "string \<Rightarrow> op_class \<Rightarrow> v20_timing \<Rightarrow> v20_timing" where
  "mul_div_timing m c =
     (let x = (if op_is_mem c then 1 else 0)
      in if m = ''mul'' then set_known ''mul r/m'' 2 4 24 41 x x V20_MIX_OTHER
         else if m = ''imul'' then set_known ''imul r/m'' 2 4 30 47 x x V20_MIX_OTHER
         else set_known ''div/idiv r/m'' 2 4 80 180 x x V20_MIX_OTHER)"

definition arith_arms :: "string \<Rightarrow> nat \<Rightarrow> cost_operand list \<Rightarrow> arm list" where
  "arith_arms m n ops =
     (let d = cls (op_at ops 0); s = cls (op_at ops 1)
      in [(m = ''in'' \<and> n = 2, in_timing d s),
          (m = ''out'' \<and> n = 2, out_timing s),
          (m = ''lea'' \<and> n = 2, set_known ''lea reg16, mem'' 2 4 4 4 0 0 V20_MIX_MEMORY),
          ((m = ''lds'' \<or> m = ''les'') \<and> n = 2,
            set_known (if m = ''lds'' then ''lds reg16, mem32'' else ''les reg16, mem32'')
              2 4 26 26 2 2 V20_MIX_SEGMENT),
          (m = ''xchg'' \<and> n = 2, xchg_timing d s),
          (m = ''test'' \<and> n = 2, test_timing d s),
          (m = ''imul'' \<or> m = ''mul'' \<or> m = ''div'' \<or> m = ''idiv'', mul_div_timing m d)])"

subsection \<open>Strings, decimal arithmetic and the V20 extensions\<close>

definition string_arms :: "string \<Rightarrow> arm list" where
  "string_arms m =
     [(m = ''lodsb'', set_known ''lodsb'' 1 1 7 7 1 1 V20_MIX_STRING),
      (m = ''lodsw'', set_known ''lodsw'' 1 1 11 11 1 1 V20_MIX_STRING),
      (m = ''stosb'', set_known ''stosb'' 1 1 7 7 1 1 V20_MIX_STRING),
      (m = ''stosw'', set_known ''stosw'' 1 1 11 11 1 1 V20_MIX_STRING),
      (m = ''movsb'', set_known ''movsb'' 1 1 11 11 2 2 V20_MIX_STRING),
      (m = ''movsw'', set_known ''movsw'' 1 1 19 19 2 2 V20_MIX_STRING),
      (m = ''cmpsb'', set_known ''cmpsb'' 1 1 13 13 2 2 V20_MIX_STRING),
      (m = ''cmpsw'', set_known ''cmpsw'' 1 1 21 21 2 2 V20_MIX_STRING),
      (m = ''scasb'', set_known ''scasb'' 1 1 7 7 1 1 V20_MIX_STRING),
      (m = ''scasw'', set_known ''scasw'' 1 1 11 11 1 1 V20_MIX_STRING),
      (m = ''insb'' \<or> m = ''outsb'', set_known m 1 1 10 10 2 2 V20_MIX_STRING),
      (m = ''insw'' \<or> m = ''outsw'', set_known m 1 1 18 18 2 2 V20_MIX_STRING),
      (m = ''xlat'', set_known ''xlat'' 1 1 11 11 1 1 V20_MIX_MEMORY),
      (m = ''aaa'', set_known ''aaa'' 1 1 3 3 0 0 V20_MIX_OTHER),
      (m = ''aas'' \<or> m = ''aad'',
        set_known m (if m = ''aad'' then 2 else 1) (if m = ''aad'' then 2 else 1) 7 7 0 0 V20_MIX_OTHER),
      (m = ''aam'', set_known ''aam'' 2 2 15 15 0 0 V20_MIX_OTHER),
      (m = ''daa'' \<or> m = ''das'', set_known m 1 1 3 3 0 0 V20_MIX_OTHER)]"

definition bit_timing :: "string \<Rightarrow> nat \<Rightarrow> cost_operand list \<Rightarrow> v20_timing \<Rightarrow> v20_timing" where
  "bit_timing m n ops =
     (let c0 = cls (op_at ops 0);
          mem = (n > 0 \<and> op_is_mem c0);
          word = (n > 0 \<and> (c0 = OP_REG16 \<or> c0 = OP_MEM16));
          imm = (n > 1 \<and> cls (op_at ops 1) = OP_IMM);
          (clk, xfer) =
            (if m = ''test1'' then
               (if mem then (if word then 16 else 12) else (if imm then 4 else 3),
                if mem then 1 else (if imm then 0 else 1))
             else if m = ''clr1'' then
               (if mem then (if word then 23 else 15) else (if imm then 6 else 5), if mem then 2 else 0)
             else if m = ''set1'' then
               (if mem then (if word then 22 else 14) else (if imm then 5 else 4), if mem then 2 else 0)
             else
               (if mem then (if word then 27 else 19) else (if imm then 5 else 4), if mem then 2 else 0))
      in set_known m (if imm then 4 else 3)
           (if mem then (if imm then 6 else 5) else (if imm then 4 else 3))
           clk clk xfer xfer (if mem then V20_MIX_MEMORY else V20_MIX_OTHER))"

definition extension_arms :: "string \<Rightarrow> nat \<Rightarrow> cost_operand list \<Rightarrow> arm list" where
  "extension_arms m n ops =
     [(m = ''bext'' \<or> m = ''bins'', set_known m 2 4 34 59 1 2 V20_MIX_OTHER),
      (m = ''rol4'' \<or> m = ''ror4'', set_known m 2 4 29 29 2 2 V20_MIX_MEMORY),
      (m = ''add4s'' \<or> m = ''sub4s'', set_variable m 2 2 ''7+19*n'' ''3*n'' V20_MIX_STRING),
      (m = ''cmp4s'', set_variable ''cmp4s'' 2 2 ''7+19*n'' ''2'' V20_MIX_STRING),
      (m = ''retem'', set_known ''retem'' 2 2 39 39 3 3 V20_MIX_BRANCH),
      (m = ''fp01'' \<or> m = ''fp02'',
        if n \<ge> 2 \<and> op_is_mem (cls (op_at ops 1)) then set_known m 2 4 15 15 1 1 V20_MIX_MEMORY
        else set_known m 2 2 2 2 0 0 V20_MIX_OTHER),
      (m = ''test1'' \<or> m = ''clr1'' \<or> m = ''set1'' \<or> m = ''not1'', bit_timing m n ops),
      (m = ''bound'', set_known ''bound'' 2 4 27 35 2 2 V20_MIX_MEMORY),
      (m = ''int'', set_known ''int imm8'' 2 2 50 50 3 3 V20_MIX_CALL),
      (m = ''into'', set_known ''into'' 1 1 4 52 0 3 V20_MIX_CALL)]"

section \<open>One line\<close>

text \<open>A comment ends the line; a label is followed by a colon before the first white space. The
  result is the text of the instruction, \<open>None\<close> for a line that has none.\<close>

definition word_of_line :: "string \<Rightarrow> string" where
  "word_of_line s = takeWhile (\<lambda>c. \<not> isspace c) s"

definition instruction_text :: "string \<Rightarrow> string option" where
  "instruction_text asm_line =
     (let s = trim (takeWhile (\<lambda>c. c \<noteq> CHR '';'') (lower_copy 256 asm_line));
          after_label = (if CHR '':'' \<in> set (word_of_line s)
                         then Some (trim (tl (dropWhile (\<lambda>c. c \<noteq> CHR '':'') s))) else None)
      in case after_label of
           Some a \<Rightarrow>
             if a = [] \<or> is_asm_directive a then None
             else if hd a = CHR ''.'' then None else Some a
         | None \<Rightarrow> if s = [] \<or> hd s = CHR ''.'' \<or> is_asm_directive s then None else Some s)"

text \<open>The word at the start of \<open>s\<close>, in a buffer of 32 bytes, and the trimmed rest.\<close>

definition next_word :: "string \<Rightarrow> string \<times> string" where
  "next_word s = (let w = take 31 (word_of_line s) in (w, trim (drop (length w) s)))"

text \<open>The prefix, the mnemonic and the text of the operands.\<close>

definition split_instruction :: "string \<Rightarrow> bool \<times> string \<times> string" where
  "split_instruction s =
     (let (mnem, rest) = next_word s
      in if is_prefix mnem \<and> rest \<noteq> [] then (let (nxt, rest') = next_word rest in (True, nxt, rest'))
         else (False, mnem, rest))"

definition instruction_arms :: "string \<Rightarrow> string list \<Rightarrow> cost_operand list \<Rightarrow> arm list" where
  "instruction_arms mnem op_text ops =
     (let n = length op_text
      in control_arms mnem @ data_arms mnem n ops @ transfer_arms mnem n ops op_text @
         arith_arms mnem n ops @ string_arms mnem @ extension_arms mnem n ops)"

definition named :: "string \<Rightarrow> v20_timing" where
  "named mnem = timing0\<lparr>mnemonic := snprintf_s 16 mnem\<rparr>"

definition or_unknown :: "v20_timing \<Rightarrow> v20_timing" where
  "or_unknown t = (if known t then t else t\<lparr>form := snprintf_s 96 ''unknown''\<rparr>)"

definition estimate_operands :: "string \<Rightarrow> string list \<Rightarrow> cost_operand list \<Rightarrow> v20_timing" where
  "estimate_operands mnem op_text ops =
     or_unknown (add_seg_override_cost ops (select_arm (instruction_arms mnem op_text ops) (named mnem)))"

fun estimate_parts :: "bool \<times> string \<times> string \<Rightarrow> v20_timing" where
  "estimate_parts (True, mnem, rest) = select_arm (rep_arms mnem) (named mnem)"
| "estimate_parts (False, mnem, rest) =
     (let op_text = (if rest = [] then [] else split_operands rest)
      in estimate_operands mnem op_text (map classify_operand op_text))"

definition v20_timing_estimate :: "string \<Rightarrow> v20_timing" where
  "v20_timing_estimate asm_line =
     (case instruction_text asm_line of
        None \<Rightarrow> timing0
      | Some s \<Rightarrow> estimate_parts (split_instruction s))"

definition v20_mix_name :: "v20_mix \<Rightarrow> string" where
  "v20_mix_name m =
     (case m of V20_MIX_MEMORY \<Rightarrow> ''memory'' | V20_MIX_PUSH_POP \<Rightarrow> ''push-pop'' | V20_MIX_CALL \<Rightarrow> ''call''
      | V20_MIX_BRANCH \<Rightarrow> ''branch'' | V20_MIX_SEGMENT \<Rightarrow> ''segment'' | V20_MIX_IO \<Rightarrow> ''io''
      | V20_MIX_SHIFT \<Rightarrow> ''shift'' | V20_MIX_STRING \<Rightarrow> ''string'' | V20_MIX_OTHER \<Rightarrow> ''other'')"

end
