(* ===== verification/V20_Timing_Facts.thy ===== *)
theory V20_Timing_Facts
  imports V20_Timing
begin

text \<open>
  Properties of the timing model: every estimate is a proper range, its texts agree with its
  numbers, the estimate depends neither on case nor on a comment, and the operands of a line are
  separated at the commas outside brackets. Two defects of the model are shown on concrete lines.
\<close>

section \<open>Every estimate is a proper range\<close>

named_theorems timing_rules \<open>updates that make a fresh timing well formed\<close>

definition fresh :: "v20_timing \<Rightarrow> bool" where
  "fresh t \<longleftrightarrow> t = timing0\<lparr>mnemonic := mnemonic t\<rparr>"

definition timing_ok :: "int \<Rightarrow> v20_timing \<Rightarrow> bool" where
  "timing_ok lim t \<longleftrightarrow>
     0 \<le> clocks_min t \<and> clocks_min t \<le> clocks_max t \<and>
     0 \<le> transfers_min t \<and> transfers_min t \<le> transfers_max t \<and>
     (if known t then 1 \<le> bytes_min t \<and> bytes_min t \<le> bytes_max t \<and> bytes_max t \<le> lim
      else \<not> variable t \<and> bytes_max t = 0 \<and> bytes_min t = 0 \<and> clocks_max t = 0 \<and> transfers_max t = 0) \<and>
     (if known t \<and> \<not> variable t
      then 2 \<le> clocks_min t \<and> clocks t = range_text 32 (clocks_min t) (clocks_max t) \<and>
           transfers t = range_text 32 (transfers_min t) (transfers_max t)
      else transfers_max t = 0)"

definition makes_ok :: "(v20_timing \<Rightarrow> v20_timing) \<Rightarrow> bool" where
  "makes_ok f \<longleftrightarrow> (\<forall>t. fresh t \<longrightarrow> timing_ok 6 (f t))"

lemma fresh_fields:
  "fresh t \<Longrightarrow> \<not> known t \<and> \<not> variable t \<and> clocks_min t = 0 \<and> clocks_max t = 0 \<and>
     transfers_min t = 0 \<and> transfers_max t = 0 \<and> bytes_min t = 0 \<and> bytes_max t = 0"
  unfolding fresh_def by (drule arg_cong [where f = "\<lambda>r. r"]) (erule ssubst, simp add: timing0_def)

lemma makes_ok_id [timing_rules]: "makes_ok id"
  by (auto simp: makes_ok_def timing_ok_def dest: fresh_fields)

lemma makes_ok_set_known [timing_rules]:
  "1 \<le> b \<Longrightarrow> b \<le> b' \<Longrightarrow> b' \<le> 6 \<Longrightarrow> 2 \<le> c \<Longrightarrow> c \<le> c' \<Longrightarrow> 0 \<le> x \<Longrightarrow> x \<le> x' \<Longrightarrow>
   makes_ok (set_known f b b' c c' x x' mx)"
  by (auto simp: makes_ok_def timing_ok_def set_known_def dest: fresh_fields)

lemma makes_ok_set_variable [timing_rules]:
  "1 \<le> b \<Longrightarrow> b \<le> b' \<Longrightarrow> b' \<le> 6 \<Longrightarrow> makes_ok (set_variable f b b' c x mx)"
  by (auto simp: makes_ok_def timing_ok_def set_variable_def dest: fresh_fields)

lemma makes_ok_if [timing_rules]:
  "makes_ok f \<Longrightarrow> makes_ok g \<Longrightarrow> makes_ok (if c then f else g)"
  by simp

definition arms_ok :: "arm list \<Rightarrow> bool" where
  "arms_ok arms \<longleftrightarrow> (\<forall>(c, f) \<in> set arms. makes_ok f)"

lemma arms_ok_nil [timing_rules]: "arms_ok []"
  by (simp add: arms_ok_def)

lemma arms_ok_cons [timing_rules]: "makes_ok f \<Longrightarrow> arms_ok arms \<Longrightarrow> arms_ok ((c, f) # arms)"
  by (simp add: arms_ok_def)

lemma arms_ok_append [timing_rules]: "arms_ok as \<Longrightarrow> arms_ok bs \<Longrightarrow> arms_ok (as @ bs)"
  by (auto simp: arms_ok_def)

lemma select_arm_ok: "arms_ok arms \<Longrightarrow> fresh t \<Longrightarrow> timing_ok 6 (select_arm arms t)"
proof (induction arms t rule: select_arm.induct)
  case (1 t)
  then show ?case using makes_ok_id by (simp add: makes_ok_def)
qed (simp add: arms_ok_def makes_ok_def)

lemma rep_arms_ok: "arms_ok (rep_arms m)"
  unfolding rep_arms_def by (intro timing_rules) simp_all

lemma control_arms_ok [timing_rules]: "arms_ok (control_arms m)"
  unfolding control_arms_def by (intro timing_rules) simp_all

lemma mov_ok [timing_rules]: "makes_ok (mov_timing d s)"
  unfolding mov_timing_def by (intro timing_rules) simp_all

lemma alu_ok [timing_rules]: "makes_ok (alu_timing d s)"
  unfolding alu_timing_def Let_def by (intro timing_rules) simp_all

lemma shift_ok [timing_rules]: "makes_ok (shift_timing d s)"
  unfolding shift_timing_def Let_def by (intro timing_rules) simp_all

lemma unary_ok [timing_rules]: "makes_ok (inc_dec_timing c)" "makes_ok (unary_timing c)"
  unfolding inc_dec_timing_def unary_timing_def by (intro timing_rules; simp)+

lemma data_arms_ok [timing_rules]: "arms_ok (data_arms m n ops)"
  unfolding data_arms_def by (intro timing_rules)

lemma stack_ok [timing_rules]: "makes_ok (push_timing a)" "makes_ok (pop_timing c)"
  unfolding push_timing_def pop_timing_def by (intro timing_rules; simp)+

lemma jump_ok [timing_rules]: "makes_ok (call_timing a)" "makes_ok (jmp_timing a)" "makes_ok (ret_timing m n)"
  unfolding call_timing_def jmp_timing_def ret_timing_def by (intro timing_rules; simp)+

lemma transfer_arms_ok [timing_rules]: "arms_ok (transfer_arms m n ops txt)"
  unfolding transfer_arms_def by (intro timing_rules) simp_all

lemma io_ok [timing_rules]: "makes_ok (in_timing d s)" "makes_ok (out_timing s)"
  unfolding in_timing_def out_timing_def Let_def by (intro timing_rules; simp)+

lemma arith_ok [timing_rules]:
  "makes_ok (xchg_timing d s)" "makes_ok (test_timing d s)" "makes_ok (mul_div_timing m c)"
  unfolding xchg_timing_def test_timing_def mul_div_timing_def Let_def by (intro timing_rules; simp)+

lemma arith_arms_ok [timing_rules]: "arms_ok (arith_arms m n ops)"
  unfolding arith_arms_def Let_def by (intro timing_rules) simp_all

lemma string_arms_ok [timing_rules]: "arms_ok (string_arms m)"
  unfolding string_arms_def by (intro timing_rules) simp_all

lemma makes_ok_pair [timing_rules]:
  "1 \<le> b \<Longrightarrow> b \<le> b' \<Longrightarrow> b' \<le> 6 \<Longrightarrow> 2 \<le> fst p \<Longrightarrow> 0 \<le> snd p \<Longrightarrow>
   makes_ok (case p of (c, x) \<Rightarrow> set_known f b b' c c x x mx)"
  by (cases p) (simp add: makes_ok_set_known)

lemma pair_if [timing_rules]:
  "2 \<le> fst p \<Longrightarrow> 2 \<le> fst q \<Longrightarrow> 2 \<le> fst (if c then p else q)"
  "0 \<le> snd p \<Longrightarrow> 0 \<le> snd q \<Longrightarrow> 0 \<le> snd (if c then p else q)"
  for p q :: "int \<times> int"
  by simp_all

lemma bit_ok [timing_rules]: "makes_ok (bit_timing m n ops)"
  unfolding bit_timing_def Let_def by (intro timing_rules) simp_all

lemma extension_arms_ok [timing_rules]: "arms_ok (extension_arms m n ops)"
  unfolding extension_arms_def by (intro timing_rules) simp_all

lemma instruction_arms_ok: "arms_ok (instruction_arms m txt ops)"
  unfolding instruction_arms_def Let_def by (intro timing_rules)

lemma add_seg_override_ok: "timing_ok 6 t \<Longrightarrow> timing_ok 7 (add_seg_override_cost ops t)"
  by (auto simp: timing_ok_def add_seg_override_cost_def)

lemma timing_ok_form [simp]: "timing_ok lim (t\<lparr>form := f\<rparr>) = timing_ok lim t"
  by (simp add: timing_ok_def)

lemma timing_ok_mono: "timing_ok 6 t \<Longrightarrow> timing_ok 7 t"
  by (auto simp: timing_ok_def)

lemma fresh_named: "fresh (named m)"
  by (simp add: fresh_def named_def)

lemma estimate_parts_ok: "timing_ok 7 (estimate_parts p)"
proof (cases p rule: estimate_parts.cases)
  case (1 m r)
  then show ?thesis by (simp add: timing_ok_mono select_arm_ok rep_arms_ok fresh_named)
next
  case (2 m r)
  then show ?thesis
    by (simp add: estimate_operands_def or_unknown_def Let_def add_seg_override_ok select_arm_ok
        instruction_arms_ok fresh_named)
qed

lemma estimate_ok: "timing_ok 7 (v20_timing_estimate l)"
proof (cases "instruction_text l")
  case None
  then show ?thesis by (simp add: v20_timing_estimate_def timing_ok_def timing0_def)
next
  case (Some s)
  then show ?thesis by (simp add: v20_timing_estimate_def estimate_parts_ok)
qed

text \<open>
  (C35) Whatever the line, an estimate is a proper range: an instruction that the model knows has
  between one and seven bytes, its least size is at most its greatest, the clocks and the bus
  transfers are ranges too, and where the cost is not variable the texts shown to the user are
  those ranges. An instruction the model does not know contributes nothing.
\<close>

theorem timing_estimate_wellformed:
  assumes "t = v20_timing_estimate l"
  shows "0 \<le> clocks_min t \<and> clocks_min t \<le> clocks_max t \<and>
     0 \<le> transfers_min t \<and> transfers_min t \<le> transfers_max t \<and>
     (if known t then 1 \<le> bytes_min t \<and> bytes_min t \<le> bytes_max t \<and> bytes_max t \<le> 7
      else bytes_max t = 0 \<and> clocks_max t = 0 \<and> transfers_max t = 0) \<and>
     (known t \<and> \<not> variable t \<longrightarrow>
        clocks t = range_text 32 (clocks_min t) (clocks_max t) \<and>
        transfers t = range_text 32 (transfers_min t) (transfers_max t))"
  using estimate_ok [of l] by (auto simp: assms timing_ok_def)

theorem timing_estimate_wellformed_witness:
  "let t = v20_timing_estimate ''top: ADD [es:bx+4], ax ; sum''
   in known t \<and> (bytes_min t, bytes_max t, clocks_min t, clocks_max t) = (3, 5, 26, 26) \<and>
      clocks t = range_text 32 26 26"
proof -
  let ?t = "v20_timing_estimate ''top: ADD [es:bx+4], ax ; sum''"
  have "known ?t" "\<not> variable ?t"
    "(bytes_min ?t, bytes_max ?t, clocks_min ?t, clocks_max ?t) = (3, 5, 26, 26)" by code_simp+
  with timing_estimate_wellformed [OF refl, of "''top: ADD [es:bx+4], ax ; sum''"]
  show ?thesis by (simp add: Let_def)
qed

section \<open>Case, comments and labels\<close>

lemma tolower_idem [simp]: "tolower (tolower c) = tolower c"
  by (cases c) (simp add: tolower_bits)

lemma tolower_not_letter: "\<not> isalpha d \<Longrightarrow> tolower c = d \<longleftrightarrow> c = d"
  by (cases c; cases d) (auto simp: tolower_bits isalpha_def isupper_bits islower_bits)

text \<open>
  The estimate of a line depends neither on the case of its letters nor on what follows a
  semicolon.
\<close>

theorem timing_ignores_case_and_comment:
  "v20_timing_estimate (map tolower l @ '';'' @ c) = v20_timing_estimate l"
proof -
  let ?code = "takeWhile (\<lambda>c. c \<noteq> CHR '';'')"
  have semi: "tolower (CHR '';'') = CHR '';''" by code_simp
  have "?code (lower_copy 256 (map tolower l @ '';'' @ c)) = ?code (lower_copy 256 l)"
  proof (cases "length l < 255")
    case True
    then show ?thesis
      by (simp add: lower_copy_def semi o_def take_Cons' takeWhile_tail)
  next
    case False
    then show ?thesis by (simp add: lower_copy_def take_map o_def)
  qed
  then show ?thesis by (simp add: v20_timing_estimate_def instruction_text_def)
qed

section \<open>Operands\<close>

text \<open>
  An operand as it can stand between commas: brackets are matched and a comma occurs only inside
  them. \<open>depth_after\<close> is the nesting depth the scan of \<^verbatim>\<open>split_operands\<close> reaches.
\<close>

fun depth_after :: "nat \<Rightarrow> string \<Rightarrow> nat option" where
  "depth_after d [] = Some d"
| "depth_after d (ch # p) =
     (let d = (if ch = CHR ''['' then d + 1 else if ch = CHR '']'' \<and> d > 0 then d - 1 else d)
      in if ch = CHR '','' \<and> d = 0 then None else depth_after d p)"

definition operand_text :: "string \<Rightarrow> bool" where
  "operand_text a \<longleftrightarrow> depth_after 0 a = Some 0 \<and> length a < 95 \<and> trim a = a"

lemma split_loop_operand:
  "depth_after d a = Some d' \<Longrightarrow> length cur + length a < 96 \<Longrightarrow>
   split_loop (a @ rest) d cur ops = split_loop rest d' (cur @ a) ops"
  by (induction d a arbitrary: cur rule: depth_after.induct) (auto simp: Let_def split: if_splits)

lemma trim_space: "trim (CHR '' '' # a) = trim a"
  by (simp add: trim_def isspace_def code_def)

fun join_operands :: "string list \<Rightarrow> string" where
  "join_operands [] = []"
| "join_operands [a] = a"
| "join_operands (a # as) = a @ '', '' @ join_operands as"

lemma split_loop_join:
  assumes "as \<noteq> []" "\<forall>a \<in> set as. operand_text a" "length ops + length as \<le> 3" "cur = [] \<or> cur = '' ''"
  shows "split_loop (join_operands as) 0 cur ops = ops @ as"
  using assms
proof (induction as arbitrary: ops cur rule: join_operands.induct)
  case (2 a)
  have "split_loop (a @ []) 0 cur ops = split_loop [] 0 (cur @ a) ops"
    by (rule split_loop_operand) (use 2 in \<open>auto simp: operand_text_def\<close>)
  with 2 show ?case by (auto simp: store_op_def operand_text_def trim_space)
next
  case (3 a b as)
  have step: "split_loop (a @ '', '' @ join_operands (b # as)) 0 cur ops =
      split_loop ('', '' @ join_operands (b # as)) 0 (cur @ a) ops"
    by (rule split_loop_operand) (use 3 in \<open>auto simp: operand_text_def\<close>)
  have trim: "trim (cur @ a) = a" using 3 by (auto simp: operand_text_def trim_space)
  have "split_loop ('', '' @ join_operands (b # as)) 0 (cur @ a) ops =
      split_loop (join_operands (b # as)) 0 '' '' (ops @ [a])"
    using 3(3,4) by (simp add: store_op_def trim operand_text_def Let_def)
  also have "\<dots> = (ops @ [a]) @ (b # as)"
    by (rule 3(1)) (use 3 in auto)
  finally show ?case using step by simp
qed simp

text \<open>
  (C36) Up to three operands, written with commas between them, are taken apart again exactly;
  a comma inside brackets does not separate.
\<close>

theorem split_operands_join:
  assumes "as \<noteq> []" and "length as \<le> 3" and "\<forall>a \<in> set as. operand_text a"
  shows "split_operands (join_operands as) = as"
  unfolding split_operands_def using split_loop_join [of as "[]" "[]"] assms by simp

theorem split_operands_join_witness:
  "split_operands ''word [bx, si], 5'' = [''word [bx, si]'', ''5'']"
proof -
  have "operand_text ''word [bx, si]''" "operand_text ''5''" by code_simp+
  with split_operands_join [of "[''word [bx, si]'', ''5'']"] show ?thesis by simp
qed

section \<open>Where the estimate departs from the instruction\<close>

text \<open>
  The instruction \<^verbatim>\<open>retem\<close> has an arm of its own in the chain (39 clocks), but the
  arm for mnemonics that start with \<^verbatim>\<open>ret\<close> comes first and does not set it: the estimate
  of \<^verbatim>\<open>retem\<close>, with or without operands, is unknown.
\<close>

theorem retem_arm_unreachable:
  "\<not> known (select_arm (instruction_arms ''retem'' op_text ops) timing0) \<and>
   form (v20_timing_estimate ''  retem'') = ''unknown''"
proof
  have data: "\<not> is_alu ''retem''" "\<not> is_shift ''retem''" "\<not> is_jcc ''retem''" "\<not> is_prefix ''retem''"
      "\<not> is_flag_simple ''retem''" "strneq ''retem'' ''ret'' 3"
    by code_simp+
  have "\<not> known timing0" by (simp add: timing0_def)
  then show "\<not> known (select_arm (instruction_arms ''retem'' op_text ops) timing0)"
    by (simp add: instruction_arms_def control_arms_def data_arms_def transfer_arms_def Let_def data
        ret_timing_def)
qed code_simp

text \<open>
  The cost of a segment override is added to the numbers of every known instruction and the
  clock text is printed again from them. For an instruction of variable cost these numbers are
  zero: a shift by \<^verbatim>\<open>cl\<close> of a byte in memory costs \<^verbatim>\<open>19+n\<close> clocks, and with
  an override it is reported as 2.
\<close>

theorem variable_cost_lost_by_override:
  "clocks (v20_timing_estimate ''  shl byte [bx], cl'') = ''19+n'' \<and>
   clocks (v20_timing_estimate ''  shl byte [es:bx], cl'') = ''2'' \<and>
   variable (v20_timing_estimate ''  shl byte [es:bx], cl'')"
  by (intro conjI) code_simp+

end
