(* ===== verification/Nib_Topo.thy ===== *)
theory Nib_Topo
  imports Nib_Prelude
begin

text \<open>
  The order in which the driver compiles modules and the binder processes functions. Both
  programs (\<^verbatim>\<open>topo_sort\<close> of \<^verbatim>\<open>src/build.c\<close> and of \<^verbatim>\<open>src/bind.c\<close>) run
  rounds over all nodes, take every node whose successors have all been taken, stop after a round
  that took none, and append what is left. The rounds are defined here over the test of a node;
  the locale states what that test is, and its lemmas say when the result is a topological order.
\<close>

section \<open>The rounds\<close>

type_synonym topo_state = "bool list \<times> nat list \<times> bool"

definition topo_visit :: "(bool list \<Rightarrow> nat \<Rightarrow> bool) \<Rightarrow> nat \<Rightarrow> topo_state \<Rightarrow> topo_state" where
  "topo_visit ready i = (\<lambda>(visited, order, changed).
     if visited ! i then (visited, order, changed)
     else if ready visited i then (visited[i := True], order @ [i], True)
     else (visited, order, changed))"

lemma topo_visit_take:
  "\<not> v ! i \<Longrightarrow> ready v i \<Longrightarrow> topo_visit ready i (v, ord, ch) = (v[i := True], ord @ [i], True)"
  by (simp add: topo_visit_def)

lemma topo_visit_skip: "v ! i \<or> \<not> ready v i \<Longrightarrow> topo_visit ready i (v, ord, ch) = (v, ord, ch)"
  by (auto simp: topo_visit_def)

definition topo_round :: "(bool list \<Rightarrow> nat \<Rightarrow> bool) \<Rightarrow> bool list \<Rightarrow> nat list \<Rightarrow> topo_state" where
  "topo_round ready visited order =
     fold (topo_visit ready) [0..<length visited] (visited, order, False)"

definition unvisited :: "bool list \<Rightarrow> nat" where
  "unvisited v = length (filter Not v)"

lemma unvisited_update: "i < length v \<Longrightarrow> \<not> v ! i \<Longrightarrow> unvisited (v[i := True]) < unvisited v"
proof (induction v arbitrary: i)
  case (Cons b v)
  then show ?case by (cases i) (auto simp: unvisited_def)
qed simp

lemma topo_visits_measure:
  assumes "fold (topo_visit ready) is (v, ord, ch) = (v', ord', ch')" and "\<forall>i \<in> set is. i < length v"
  shows "length v' = length v \<and> unvisited v' \<le> unvisited v \<and> (ch' \<longrightarrow> ch \<or> unvisited v' < unvisited v)"
  using assms
proof (induction "is" arbitrary: v ord ch)
  case (Cons i "is")
  show ?case
  proof (cases "\<not> v ! i \<and> ready v i")
    case True
    with Cons.prems(1) have "fold (topo_visit ready) is (v[i := True], ord @ [i], True) = (v', ord', ch')"
      by (simp add: topo_visit_take)
    from Cons.IH [OF this] Cons.prems(2) True unvisited_update [of i v] show ?thesis by auto
  next
    case False
    with Cons.prems(1) have "fold (topo_visit ready) is (v, ord, ch) = (v', ord', ch')"
      by (simp add: topo_visit_skip)
    from Cons.IH [OF this] Cons.prems(2) show ?thesis by simp
  qed
qed simp

function topo_loop :: "(bool list \<Rightarrow> nat \<Rightarrow> bool) \<Rightarrow> bool list \<Rightarrow> nat list \<Rightarrow> bool list \<times> nat list" where
  "topo_loop ready visited order =
     (case topo_round ready visited order of
        (visited', order', changed) \<Rightarrow>
          if changed then topo_loop ready visited' order' else (visited', order'))"
  by pat_completeness auto
termination
proof (relation "measure (\<lambda>(ready, v, ord). unvisited v)", goal_cases)
  case (2 ready v ord v' p ord' ch)
  then have "fold (topo_visit ready) [0..<length v] (v, ord, False) = (v', ord', ch)"
    by (simp add: topo_round_def)
  from topo_visits_measure [OF this] 2 show ?case by auto
qed simp

declare topo_loop.simps [simp del]

definition append_rest :: "bool list \<times> nat list \<Rightarrow> nat list" where
  "append_rest = (\<lambda>(visited, order). order @ filter (\<lambda>i. \<not> visited ! i) [0..<length visited])"

section \<open>What the rounds give\<close>

definition is_topological :: "(nat \<Rightarrow> nat list) \<Rightarrow> nat list \<Rightarrow> bool" where
  "is_topological deps ord \<longleftrightarrow>
     (\<forall>k < length ord. \<forall>d \<in> set (deps (ord ! k)). d \<in> set (take k ord))"

lemma is_topological_nil [simp]: "is_topological deps []"
  by (simp add: is_topological_def)

lemma is_topological_snoc:
  "is_topological deps (ord @ [i]) \<longleftrightarrow> is_topological deps ord \<and> set (deps i) \<subseteq> set ord"
  by (auto simp: is_topological_def nth_append less_Suc_eq)

locale dep_graph =
  fixes size_of :: "'g \<Rightarrow> nat"
    and deps :: "'g \<Rightarrow> nat \<Rightarrow> nat list"
    and ready :: "'g \<Rightarrow> bool list \<Rightarrow> nat \<Rightarrow> bool"
    and wf_graph :: "'g \<Rightarrow> bool"
  assumes ready_iff:
      "wf_graph g \<Longrightarrow> length v = size_of g \<Longrightarrow> i < size_of g \<Longrightarrow>
       ready g v i \<longleftrightarrow> (\<forall>d \<in> set (deps g i). v ! d)"
    and deps_range: "wf_graph g \<Longrightarrow> i < size_of g \<Longrightarrow> d \<in> set (deps g i) \<Longrightarrow> d < size_of g"
begin

definition taken :: "'g \<Rightarrow> bool list \<Rightarrow> nat list \<Rightarrow> bool" where
  "taken g v ord \<longleftrightarrow>
     length v = size_of g \<and> distinct ord \<and> set ord = {i. i < size_of g \<and> v ! i} \<and>
     is_topological (deps g) ord"

lemma taken_visit:
  assumes "wf_graph g" and "taken g v ord" and "i < size_of g" and "\<not> v ! i" and "ready g v i"
  shows "taken g (v[i := True]) (ord @ [i])"
proof -
  have "set (deps g i) \<subseteq> set ord"
    using assms ready_iff deps_range by (auto simp: taken_def)
  with assms show ?thesis
    by (auto simp: taken_def is_topological_snoc nth_list_update)
qed

lemma taken_visits:
  assumes "wf_graph g" and "\<forall>i \<in> set is. i < size_of g" and "taken g v ord"
    and "fold (topo_visit (ready g)) is (v, ord, ch) = (v', ord', ch')"
  shows "taken g v' ord' \<and> (\<not> ch' \<longrightarrow> \<not> ch \<and> v' = v \<and> (\<forall>i \<in> set is. v ! i \<or> \<not> ready g v i))"
  using assms(2-)
proof (induction "is" arbitrary: v ord ch)
  case (Cons i "is")
  show ?case
  proof (cases "\<not> v ! i \<and> ready g v i")
    case True
    then have "taken g (v[i := True]) (ord @ [i])" using taken_visit assms(1) Cons.prems by auto
    moreover from True Cons.prems(3)
    have "fold (topo_visit (ready g)) is (v[i := True], ord @ [i], True) = (v', ord', ch')"
      by (simp add: topo_visit_take)
    ultimately show ?thesis using Cons.IH Cons.prems(1) by auto
  next
    case False
    with Cons.prems(3) have "fold (topo_visit (ready g)) is (v, ord, ch) = (v', ord', ch')"
      by (simp add: topo_visit_skip)
    from Cons.IH [OF _ Cons.prems(2) this] Cons.prems(1) False show ?thesis by auto
  qed
qed simp

lemma taken_loop:
  assumes "wf_graph g" and "taken g v ord" and "topo_loop (ready g) v ord = (v', ord')"
  shows "taken g v' ord' \<and> (\<forall>i < size_of g. v' ! i \<or> \<not> ready g v' i)"
  using assms(2,3)
proof (induction "ready g" v ord rule: topo_loop.induct)
  case (1 v ord)
  obtain v1 ord1 ch1 where rd: "topo_round (ready g) v ord = (v1, ord1, ch1)" by (metis prod_cases3)
  have len: "length v = size_of g" using 1 by (simp add: taken_def)
  from rd have "fold (topo_visit (ready g)) [0..<size_of g] (v, ord, False) = (v1, ord1, ch1)"
    by (simp add: topo_round_def len)
  from taken_visits [OF assms(1) _ 1(2) this]
  have step: "taken g v1 ord1" "\<not> ch1 \<Longrightarrow> v1 = v \<and> (\<forall>i < size_of g. v ! i \<or> \<not> ready g v i)" by auto
  show ?case
  proof (cases ch1)
    case True
    with 1(1) [OF rd [symmetric] refl _ step(1)] 1(3) rd show ?thesis
      by (simp add: topo_loop.simps [of _ v ord])
  next
    case False
    with 1(3) rd step show ?thesis by (auto simp: topo_loop.simps [of _ v ord])
  qed
qed

lemma initially_taken: "taken g (replicate (size_of g) False) []"
  by (auto simp: taken_def)

lemma order_permutes:
  assumes "taken g v ord"
  shows "distinct (append_rest (v, ord)) \<and> set (append_rest (v, ord)) = {..<size_of g}"
  using assms by (auto simp: taken_def append_rest_def)

lemma all_taken_if_ranked:
  assumes "wf_graph g" and "\<forall>i < size_of g. v ! i \<or> \<not> ready g v i" and "length v = size_of g"
    and rank: "\<And>i d. i < size_of g \<Longrightarrow> d \<in> set (deps g i) \<Longrightarrow> rank d < (rank i :: nat)"
    and "i < size_of g"
  shows "v ! i"
  using assms(5)
proof (induction "rank i" arbitrary: i rule: less_induct)
  case less
  have "\<forall>d \<in> set (deps g i). v ! d"
    using less.hyps [OF rank [OF less.prems]] deps_range [OF assms(1) less.prems] by blast
  with ready_iff [OF assms(1,3) less.prems] assms(2) less.prems show ?case by blast
qed

lemma rest_empty: "\<forall>i < length v. v ! i \<Longrightarrow> append_rest (v, ord) = ord"
  by (simp add: append_rest_def filter_empty_conv)

lemma topological_if_ranked:
  assumes "wf_graph g" and "taken g v ord" and "topo_loop (ready g) v ord = (v', ord')"
    and "\<And>i d. i < size_of g \<Longrightarrow> d \<in> set (deps g i) \<Longrightarrow> rank d < (rank i :: nat)"
  shows "is_topological (deps g) (append_rest (v', ord'))"
proof -
  from taken_loop [OF assms(1-3)] have fin: "taken g v' ord'" "\<forall>i < size_of g. v' ! i \<or> \<not> ready g v' i"
    by blast+
  then have len: "length v' = size_of g" by (simp add: taken_def)
  have "\<forall>i < length v'. v' ! i"
    using all_taken_if_ranked [where rank = rank, OF assms(1) fin(2) len assms(4)] len by simp
  then show ?thesis using fin(1) by (simp add: rest_empty taken_def)
qed

end

end
