(* ===== verification/Nib_Build.thy ===== *)
theory Nib_Build
  imports Nib_Topo
begin

text \<open>
  The build driver, \<^verbatim>\<open>src/build.c\<close>: the module graph found by following the
  \<^verbatim>\<open>use\<close> lines, the build order, the choice of the modules to compile, and the commands
  of the three phases. The file system is a value (what \<^verbatim>\<open>fopen\<close> and \<^verbatim>\<open>stat\<close>
  give for a path), and starting a process is a parameter that may change the outside world.
  The growable tables are lists.
\<close>

section \<open>Paths\<close>

text \<open>The part of \<open>s\<close> before its last \<open>c\<close>; \<^verbatim>\<open>strrchr\<close> finds that place.\<close>

definition before_last :: "char \<Rightarrow> string \<Rightarrow> string" where
  "before_last c s = rev (tl (dropWhile (\<lambda>x. x \<noteq> c) (rev s)))"

definition replace_ext :: "string \<Rightarrow> string \<Rightarrow> nat \<Rightarrow> string" where
  "replace_ext path ext outsz =
     snprintf_s outsz ((if CHR ''.'' \<in> set path then before_last (CHR ''.'') path else path) @ ext)"

text \<open>\<^verbatim>\<open>dirname\<close> of the C library.\<close>

definition strip_slashes :: "string \<Rightarrow> string" where
  "strip_slashes s = rev (dropWhile (\<lambda>x. x = CHR ''/'') (rev s))"

definition dirname :: "string \<Rightarrow> string" where
  "dirname s =
     (let t = strip_slashes s
      in if s = [] then ''.''
         else if t = [] then ''/''
         else if CHR ''/'' \<notin> set t then ''.''
         else let u = strip_slashes (before_last (CHR ''/'') t) in if u = [] then ''/'' else u)"

definition get_dir :: "string \<Rightarrow> nat \<Rightarrow> string" where
  "get_dir path outsz = take (outsz - 1) (dirname (take 255 path))"

definition resolve_path :: "string \<Rightarrow> string \<Rightarrow> nat \<Rightarrow> string" where
  "resolve_path base_dir rel_path outsz =
     (if rel_path \<noteq> [] \<and> hd rel_path = CHR ''/'' then take (outsz - 1) rel_path
      else snprintf_s outsz (base_dir @ ''/'' @ rel_path))"

record filesys =
  fopen_r :: "string \<Rightarrow> string option"
  stat_mtime :: "string \<Rightarrow> int option"

definition file_mtime :: "filesys \<Rightarrow> string \<Rightarrow> int" where
  "file_mtime fs path = (case stat_mtime fs path of None \<Rightarrow> 0 | Some t \<Rightarrow> t)"

definition resolve_tool_dir :: "string \<Rightarrow> string" where
  "resolve_tool_dir argv0 =
     (let d = take 255 argv0 in if CHR ''/'' \<in> set d then before_last (CHR ''/'') d else ''.'')"

definition tool_path :: "string \<Rightarrow> string \<Rightarrow> nat \<Rightarrow> string" where
  "tool_path tool_dir name outsz = snprintf_s outsz (tool_dir @ ''/'' @ name)"

section \<open>Processes\<close>

datatype spawn_result = Spawn_failed | Exited int | Killed

type_synonym 'w spawner = "string list \<Rightarrow> 'w \<Rightarrow> spawn_result \<times> 'w"

definition run_argv :: "'w spawner \<Rightarrow> string list \<Rightarrow> 'w \<Rightarrow> int \<times> 'w" where
  "run_argv spawn argv w =
     (case spawn argv w of
        (Spawn_failed, w') \<Rightarrow> (1, w')
      | (Exited n, w') \<Rightarrow> (n, w')
      | (Killed, w') \<Rightarrow> (1, w'))"

section \<open>Modules\<close>

record module_t =
  nib_path :: string
  nir_path :: string
  nif_path :: string
  mdir :: string
  needs_compile :: bool
  mdeps :: "nat list"

text \<open>The scan stops abnormally when a path does not fit its buffer. \<open>Out_of_fuel\<close> is the end
  of the fuel of the recursion, which is shown to be enough.\<close>

datatype build_stop = Buffer_overflow | Out_of_fuel

definition new_module :: "string \<Rightarrow> module_t" where
  "new_module path =
     \<lparr>nib_path = take 255 path, nir_path = replace_ext path ''.nir'' 256,
      nif_path = replace_ext path ''.nif'' 256, mdir = get_dir path 256,
      needs_compile = False, mdeps = []\<rparr>"

fun find_module :: "module_t list \<Rightarrow> string \<Rightarrow> nat option" where
  "find_module [] path = None"
| "find_module (m # ms) path =
     (if nib_path m = path then Some 0 else map_option Suc (find_module ms path))"

text \<open>The quoted path of a \<^verbatim>\<open>use\<close> line.\<close>

definition use_target :: "string \<Rightarrow> string option" where
  "use_target line =
     (let p = dropWhile blank line; q = dropWhile blank (drop 4 p)
      in if \<not> strneq p ''use '' 4 then None
         else if q = [] \<or> hd q \<noteq> CHR 0x22 then None
         else if CHR 0x22 \<notin> set (tl q) then None
         else Some (takeWhile (\<lambda>c. c \<noteq> CHR 0x22) (tl q)))"

definition locate_dep :: "filesys \<Rightarrow> string \<Rightarrow> string \<Rightarrow> string option" where
  "locate_dep fs dir nif =
     (let nib_dep = replace_ext nif ''.nib'' 256; resolved = resolve_path dir nib_dep 256
      in if stat_mtime fs resolved \<noteq> None then Some resolved
         else if stat_mtime fs nib_dep \<noteq> None then Some nib_dep
         else None)"

definition add_dep :: "nat \<Rightarrow> nat \<Rightarrow> module_t list \<Rightarrow> module_t list" where
  "add_dep idx dep ms = ms[idx := (ms ! idx)\<lparr>mdeps := mdeps (ms ! idx) @ [dep]\<rparr>]"

definition uses_of :: "filesys \<Rightarrow> string \<Rightarrow> string list" where
  "uses_of fs path =
     (case fopen_r fs path of None \<Rightarrow> [] | Some content \<Rightarrow> List.map_filter use_target (fgets_all 512 content))"

fun scan_uses_f :: "filesys \<Rightarrow> nat \<Rightarrow> string \<Rightarrow> nat \<Rightarrow> string list \<Rightarrow> module_t list \<Rightarrow> build_stop + module_t list"
and add_module_f :: "filesys \<Rightarrow> nat \<Rightarrow> string \<Rightarrow> module_t list \<Rightarrow> build_stop + nat \<times> module_t list" where
  "scan_uses_f fs n dir idx [] ms = Inr ms"
| "scan_uses_f fs n dir idx (nif # nifs) ms =
     (if length nif \<ge> 256 then Inl Buffer_overflow
      else case locate_dep fs dir nif of
             None \<Rightarrow> scan_uses_f fs n dir idx nifs ms
           | Some resolved \<Rightarrow>
               (case add_module_f fs n resolved ms of
                  Inl e \<Rightarrow> Inl e
                | Inr (dep, ms') \<Rightarrow> scan_uses_f fs n dir idx nifs (add_dep idx dep ms')))"
| "add_module_f fs n path ms =
     (case find_module ms path of
        Some i \<Rightarrow> Inr (i, ms)
      | None \<Rightarrow>
          (case n of
             0 \<Rightarrow> Inl Out_of_fuel
           | Suc n' \<Rightarrow>
               let m = new_module path; idx = length ms
               in case scan_uses_f fs n' (mdir m) idx (uses_of fs (nib_path m)) (ms @ [m]) of
                    Inl e \<Rightarrow> Inl e
                  | Inr ms' \<Rightarrow> Inr (idx, ms')))"

section \<open>The build order\<close>

definition mod_ready :: "module_t list \<Rightarrow> bool list \<Rightarrow> nat \<Rightarrow> bool" where
  "mod_ready ms visited i \<longleftrightarrow> list_all (\<lambda>d. visited ! d) (mdeps (ms ! i))"

definition topo_sort :: "module_t list \<Rightarrow> nat list" where
  "topo_sort ms = append_rest (topo_loop (mod_ready ms) (replicate (length ms) False) [])"

section \<open>Options\<close>

record build_opts =
  opt_root :: "string option"
  opt_outbin :: "string option"
  force_rebuild :: bool
  nib_extra :: "string list"
  bind_extra :: "string list"
  asm_extra :: "string list"

definition opts0 :: build_opts where
  "opts0 = \<lparr>opt_root = None, opt_outbin = None, force_rebuild = False, nib_extra = [],
     bind_extra = [], asm_extra = []\<rparr>"

function tokenize :: "string \<Rightarrow> string list" where
  "tokenize value =
     (let p = dropWhile blank value
      in if p = [] then []
         else if hd p = CHR 0x22 then
           let q = tl p; token = take 255 (takeWhile (\<lambda>c. c \<noteq> CHR 0x22) q);
               r = drop (length token) q; r' = (if r \<noteq> [] \<and> hd r = CHR 0x22 then tl r else r)
           in (if token \<noteq> [] then [token] else []) @ tokenize r'
         else
           let token = take 255 (takeWhile (\<lambda>c. \<not> blank c) p)
           in (if token \<noteq> [] then [token] else []) @ tokenize (drop (length token) p))"
  by pat_completeness auto
termination
proof (relation "measure length", goal_cases)
  case (2 val p q token r r')
  have "length p \<le> length val" using 2(1) by (simp add: length_dropWhile_le)
  moreover have "length r' < length p" using 2 by (cases p) auto
  ultimately show ?case by simp
next
  case (3 val p token)
  have "\<not> blank (hd p)" using 3(1,2) hd_dropWhile [of blank val] by simp
  then have "token \<noteq> []" using 3(2,4) by (cases p) auto
  moreover have "length p \<le> length val" using 3(1) by (simp add: length_dropWhile_le)
  ultimately show ?case using 3(2) by (cases token; cases p) auto
qed simp

declare tokenize.simps [simp del]

definition build_file_line :: "string \<Rightarrow> build_opts \<Rightarrow> build_opts" where
  "build_file_line line opts =
     (let p = dropWhile blank (takeWhile (\<lambda>c. c \<noteq> CHR 0x0A) line);
          key = take 63 (takeWhile (\<lambda>c. \<not> blank c) p);
          v = dropWhile blank (drop (length key) p)
      in if p = [] \<or> hd p = CHR 0x23 then opts
         else if key = ''root'' then opts\<lparr>opt_root := Some v\<rparr>
         else if key = ''output'' then opts\<lparr>opt_outbin := Some v\<rparr>
         else if key = ''nib'' then opts\<lparr>nib_extra := nib_extra opts @ tokenize v\<rparr>
         else if key = ''asm'' then opts\<lparr>asm_extra := asm_extra opts @ tokenize v\<rparr>
         else if key = ''bind'' then opts\<lparr>bind_extra := bind_extra opts @ tokenize v\<rparr>
         else opts)"

definition load_build_file :: "filesys \<Rightarrow> string \<Rightarrow> build_opts \<Rightarrow> build_opts" where
  "load_build_file fs path opts =
     (case fopen_r fs path of None \<Rightarrow> opts
      | Some content \<Rightarrow> fold build_file_line (fgets_all 512 content) opts)"

datatype build_section = Sec_build | Sec_nib | Sec_bind | Sec_asm

fun parse_args :: "build_section \<Rightarrow> string list \<Rightarrow> build_opts \<Rightarrow> build_opts" where
  "parse_args sec [] opts = opts"
| "parse_args sec (a # args) opts =
     (if a = ''--nib'' then parse_args Sec_nib args opts
      else if a = ''--bind'' then parse_args Sec_bind args opts
      else if a = ''--asm'' then parse_args Sec_asm args opts
      else case sec of
             Sec_build \<Rightarrow>
               if a = ''-o'' \<and> args \<noteq> [] then parse_args sec (tl args) (opts\<lparr>opt_outbin := Some (hd args)\<rparr>)
               else if a = ''-f'' then parse_args sec args (opts\<lparr>force_rebuild := True\<rparr>)
               else parse_args sec args (opts\<lparr>opt_root := Some a\<rparr>)
           | Sec_nib \<Rightarrow> parse_args sec args (opts\<lparr>nib_extra := nib_extra opts @ [a]\<rparr>)
           | Sec_bind \<Rightarrow> parse_args sec args (opts\<lparr>bind_extra := bind_extra opts @ [a]\<rparr>)
           | Sec_asm \<Rightarrow> parse_args sec args (opts\<lparr>asm_extra := asm_extra opts @ [a]\<rparr>))"

section \<open>What to compile\<close>

definition outdated :: "filesys \<Rightarrow> bool \<Rightarrow> module_t list \<Rightarrow> module_t \<Rightarrow> bool" where
  "outdated fs force ms m =
     (let src_time = file_mtime fs (nib_path m); nir_time = file_mtime fs (nir_path m);
          nif_time = file_mtime fs (nif_path m)
      in (force \<or> nir_time = 0 \<or> nif_time = 0 \<or> src_time > nir_time \<or> src_time > nif_time) \<or>
         list_ex (\<lambda>d. file_mtime fs (nif_path (ms ! d)) > nir_time) (mdeps m))"

text \<open>\<open>None\<close>: a source file has no modification time, and the driver gives up.\<close>

definition mark_outdated :: "filesys \<Rightarrow> bool \<Rightarrow> module_t list \<Rightarrow> module_t list option" where
  "mark_outdated fs force ms =
     (if list_ex (\<lambda>m. file_mtime fs (nib_path m) = 0) ms then None
      else Some (map (\<lambda>m. m\<lparr>needs_compile := outdated fs force ms m\<rparr>) ms))"

section \<open>The three phases\<close>

text \<open>What a run leaves: the outside world and the commands that were started, in order.\<close>

type_synonym 'w trace = "'w \<times> string list list"

definition run_logged :: "'w spawner \<Rightarrow> string list \<Rightarrow> 'w trace \<Rightarrow> int \<times> 'w trace" where
  "run_logged spawn argv = (\<lambda>(w, cmds). let (rc, w') = run_argv spawn argv w in (rc, w', cmds @ [argv]))"

definition compile_argv :: "string \<Rightarrow> build_opts \<Rightarrow> module_t \<Rightarrow> string list" where
  "compile_argv tool_dir opts m = [tool_path tool_dir ''nib'' 256, nib_path m] @ nib_extra opts"

fun compile_phase ::
  "'w spawner \<Rightarrow> string \<Rightarrow> build_opts \<Rightarrow> module_t list \<Rightarrow> nat list \<Rightarrow> nat \<Rightarrow> 'w trace \<Rightarrow> nat \<times> 'w trace" where
  "compile_phase spawn tool_dir opts ms [] errs tr = (errs, tr)"
| "compile_phase spawn tool_dir opts ms (i # order) errs tr =
     (if \<not> needs_compile (ms ! i) then compile_phase spawn tool_dir opts ms order errs tr
      else case run_logged spawn (compile_argv tool_dir opts (ms ! i)) tr of
             (rc, tr') \<Rightarrow>
               compile_phase spawn tool_dir opts ms order (if rc \<noteq> 0 then errs + 1 else errs) tr')"

definition bind_argv :: "string \<Rightarrow> build_opts \<Rightarrow> module_t list \<Rightarrow> nat list \<Rightarrow> string \<Rightarrow> string list" where
  "bind_argv tool_dir opts ms order asm_path =
     [tool_path tool_dir ''nibbind'' 256] @ map (\<lambda>i. nir_path (ms ! i)) order @ bind_extra opts @
     [''-o'', asm_path]"

definition asm_argv :: "string \<Rightarrow> build_opts \<Rightarrow> string \<Rightarrow> string \<Rightarrow> string list" where
  "asm_argv tool_dir opts asm_path outbin =
     [tool_path tool_dir ''nibasm'' 256, asm_path, ''-o'', outbin] @ asm_extra opts"

definition run_phases ::
  "'w spawner \<Rightarrow> string \<Rightarrow> build_opts \<Rightarrow> string \<Rightarrow> module_t list \<Rightarrow> nat list \<Rightarrow> 'w trace \<Rightarrow> int \<times> 'w trace" where
  "run_phases spawn tool_dir opts root ms order tr =
     (let outbin = (case opt_outbin opts of Some o' \<Rightarrow> o' | None \<Rightarrow> replace_ext root ''.bin'' 256);
          asm_path = replace_ext root ''.asm'' 256
      in case compile_phase spawn tool_dir opts ms order 0 tr of
           (errs, tr1) \<Rightarrow>
             if errs > 0 then (1, tr1)
             else case run_logged spawn (bind_argv tool_dir opts ms order asm_path) tr1 of
               (rc, tr2) \<Rightarrow>
                 if rc \<noteq> 0 then (1, tr2)
                 else case run_logged spawn (asm_argv tool_dir opts asm_path outbin) tr2 of
                   (rc', tr3) \<Rightarrow> if rc' \<noteq> 0 then (1, tr3) else (0, tr3))"

definition build_main ::
  "'w spawner \<Rightarrow> filesys \<Rightarrow> nat \<Rightarrow> string list \<Rightarrow> 'w \<Rightarrow> build_stop + int \<times> 'w trace" where
  "build_main spawn fs fuel argv w =
     (let tool_dir = resolve_tool_dir (hd argv);
          opts = parse_args Sec_build (tl argv) (load_build_file fs ''nib.build'' opts0)
      in case opt_root opts of
           None \<Rightarrow> Inr (1, w, [])
         | Some root \<Rightarrow>
             (case add_module_f fs fuel root [] of
                Inl e \<Rightarrow> Inl e
              | Inr (_, ms) \<Rightarrow>
                  (case mark_outdated fs (force_rebuild opts) ms of
                     None \<Rightarrow> Inr (1, w, [])
                   | Some ms' \<Rightarrow> Inr (run_phases spawn tool_dir opts root ms' (topo_sort ms) (w, [])))))"

end
