(* ===== verification/Nib_Build_Facts.thy ===== *)
theory Nib_Build_Facts
  imports Nib_Build
begin

text \<open>
  Properties of the build driver: the module graph is the closure of the \<^verbatim>\<open>use\<close> lines
  and its computation ends, the build order is a topological order of it where there is one, the
  commands of a successful build, what a failure prevents, and the arguments read from a build
  file. Interpretation of the locale of the topological sort on the module table.
\<close>

section \<open>The module graph\<close>

lemma find_module_Some: "find_module ms p = Some i \<Longrightarrow> i < length ms \<and> nib_path (ms ! i) = p"
  by (induction ms arbitrary: i) (auto split: if_splits)

lemma find_module_None: "find_module ms p = None \<longleftrightarrow> p \<notin> nib_path ` set ms"
  by (induction ms) auto

lemma locate_dep_short: "locate_dep fs dir nif = Some r \<Longrightarrow> length r \<le> 255"
  by (auto simp: locate_dep_def replace_ext_def resolve_path_def snprintf_s_def Let_def split: if_splits)

lemma new_module_path: "length p \<le> 255 \<Longrightarrow> nib_path (new_module p) = p"
  by (simp add: new_module_def)

text \<open>A module whose dependencies are all recorded: they are the modules its \<^verbatim>\<open>use\<close> lines
  name, in order.\<close>

definition dep_paths :: "filesys \<Rightarrow> module_t \<Rightarrow> string list" where
  "dep_paths fs m = List.map_filter (locate_dep fs (mdir m)) (uses_of fs (nib_path m))"

definition complete_module :: "filesys \<Rightarrow> module_t list \<Rightarrow> module_t \<Rightarrow> bool" where
  "complete_module fs ms m \<longleftrightarrow>
     list_all (\<lambda>d. d < length ms) (mdeps m) \<and> map (\<lambda>d. nib_path (ms ! d)) (mdeps m) = dep_paths fs m"

text \<open>What a call leaves of the table it was given: the entries before it, unchanged except for
  the dependencies of entry \<open>k\<close> that is being filled.\<close>

definition extends :: "filesys \<Rightarrow> nat \<Rightarrow> module_t list \<Rightarrow> module_t list \<Rightarrow> bool" where
  "extends fs k ms ms' \<longleftrightarrow>
     length ms \<le> length ms' \<and> distinct (map nib_path ms') \<and>
     (\<forall>j < length ms. nib_path (ms' ! j) = nib_path (ms ! j) \<and> mdir (ms' ! j) = mdir (ms ! j) \<and>
        (j \<noteq> k \<longrightarrow> ms' ! j = ms ! j)) \<and>
     (\<forall>j. length ms \<le> j \<and> j < length ms' \<longrightarrow> complete_module fs ms' (ms' ! j))"

lemma complete_mono:
  assumes "complete_module fs ms m" and "length ms \<le> length ms'"
    and "\<forall>j < length ms. nib_path (ms' ! j) = nib_path (ms ! j)"
  shows "complete_module fs ms' m"
proof -
  have "\<forall>d \<in> set (mdeps m). nib_path (ms' ! d) = nib_path (ms ! d) \<and> d < length ms'"
    using assms by (auto simp: complete_module_def list_all_iff)
  moreover have "map (\<lambda>d. nib_path (ms ! d)) (mdeps m) = dep_paths fs m"
    using assms(1) by (simp add: complete_module_def)
  ultimately show ?thesis
    by (simp add: complete_module_def list_all_iff cong: map_cong)
qed

lemma extends_refl: "distinct (map nib_path ms) \<Longrightarrow> extends fs k ms ms"
  by (auto simp: extends_def)

lemma extends_trans:
  assumes "extends fs k ms ms1" and "extends fs k ms1 ms2" and "k < length ms"
  shows "extends fs k ms ms2"
  unfolding extends_def
proof (intro conjI allI impI)
  show "length ms \<le> length ms2" "distinct (map nib_path ms2)" using assms by (auto simp: extends_def)
  fix j assume j: "length ms \<le> j \<and> j < length ms2"
  show "complete_module fs ms2 (ms2 ! j)"
  proof (cases "j < length ms1")
    case True
    with assms j have "complete_module fs ms1 (ms1 ! j)" "ms2 ! j = ms1 ! j"
      by (auto simp: extends_def)
    then show ?thesis using assms(2) complete_mono by (metis extends_def)
  next
    case False
    with assms(2) j show ?thesis by (auto simp: extends_def)
  qed
qed (use assms in \<open>auto simp: extends_def\<close>)

lemma extends_add_dep:
  assumes "extends fs k ms ms'" and "k < length ms"
  shows "extends fs k ms (add_dep k d ms')"
proof -
  have k: "k < length ms'" using assms by (simp add: extends_def)
  have names: "nib_path (add_dep k d ms' ! j) = nib_path (ms' ! j)"
      "mdir (add_dep k d ms' ! j) = mdir (ms' ! j)" if "j < length ms'" for j
    using k that by (auto simp: add_dep_def nth_list_update)
  have other: "j \<noteq> k \<Longrightarrow> add_dep k d ms' ! j = ms' ! j" for j by (simp add: add_dep_def)
  have len: "length (add_dep k d ms') = length ms'" by (simp add: add_dep_def)
  have "map nib_path (add_dep k d ms') = map nib_path ms'"
    by (rule nth_equalityI) (auto simp: len names)
  moreover have "complete_module fs (add_dep k d ms') (add_dep k d ms' ! j)"
    if "length ms \<le> j" "j < length ms'" for j
    using that assms complete_mono [of fs ms' "ms' ! j" "add_dep k d ms'"]
    by (auto simp: extends_def len names other)
  ultimately show ?thesis
    using assms by (auto simp: extends_def len names other)
qed

lemma extends_any: "extends fs (length ms) ms ms' \<Longrightarrow> extends fs k ms ms'"
  by (simp add: extends_def)

lemma add_dep_at: "k < length ms \<Longrightarrow> mdeps (add_dep k d ms ! k) = mdeps (ms ! k) @ [d]"
  by (simp add: add_dep_def)

lemma map_filter_Cons_Some: "f x = Some y \<Longrightarrow> List.map_filter f (x # xs) = y # List.map_filter f xs"
  and map_filter_Cons_None: "f x = None \<Longrightarrow> List.map_filter f (x # xs) = List.map_filter f xs"
  by (simp_all add: List.map_filter_simps)

text \<open>The step of the scan: the module of one \<^verbatim>\<open>use\<close> line is added, then the rest.\<close>

lemma scan_step:
  assumes k: "k < length ms" and add: "extends fs (length ms) ms ms1" "dep < length ms1"
      "nib_path (ms1 ! dep) = r"
    and rest: "extends fs k (add_dep k dep ms1) ms'" "mdeps (ms' ! k) = mdeps (add_dep k dep ms1 ! k) @ ds"
      "\<forall>d \<in> set ds. d < length ms'" "map (\<lambda>d. nib_path (ms' ! d)) ds = rs"
  shows "extends fs k ms ms' \<and> mdeps (ms' ! k) = mdeps (ms ! k) @ dep # ds \<and>
    (\<forall>d \<in> set (dep # ds). d < length ms') \<and> map (\<lambda>d. nib_path (ms' ! d)) (dep # ds) = r # rs"
proof -
  have k1: "k < length ms1" using k add(1) by (simp add: extends_def)
  have len: "length (add_dep k dep ms1) = length ms1" by (simp add: add_dep_def)
  have ext1: "extends fs k ms (add_dep k dep ms1)"
    by (rule extends_add_dep [OF extends_any [OF add(1)] k])
  have ext: "extends fs k ms ms'" by (rule extends_trans [OF ext1 rest(1) k])
  have "ms1 ! k = ms ! k" using k add(1) by (simp add: extends_def)
  then have "mdeps (ms' ! k) = mdeps (ms ! k) @ dep # ds" using rest(2) k1 by (simp add: add_dep_at)
  moreover have "dep < length ms'" using add(2) rest(1) len by (simp add: extends_def)
  moreover have "nib_path (ms' ! dep) = nib_path (add_dep k dep ms1 ! dep)"
    using rest(1) add(2) len by (simp add: extends_def)
  moreover have "nib_path (add_dep k dep ms1 ! dep) = r"
    using add(2,3) k1 by (cases "dep = k") (auto simp: add_dep_def)
  ultimately show ?thesis using ext rest(3,4) by simp
qed

lemma new_complete:
  assumes new: "distinct (map nib_path ms)" "take 255 path \<notin> nib_path ` set ms"
    and ext: "extends fs (length ms) (ms @ [new_module path]) ms'"
    and deps: "mdeps (ms' ! length ms) = mdeps (new_module path) @ ds" "\<forall>d \<in> set ds. d < length ms'"
      "map (\<lambda>d. nib_path (ms' ! d)) ds =
       List.map_filter (locate_dep fs (mdir (new_module path))) (uses_of fs (nib_path (new_module path)))"
  shows "extends fs (length ms) ms ms' \<and> length ms < length ms' \<and> nib_path (ms' ! length ms) = take 255 path"
proof -
  have at: "nib_path (ms' ! length ms) = nib_path (new_module path)" "mdir (ms' ! length ms) = mdir (new_module path)"
    using ext by (auto simp: extends_def)
  have "complete_module fs ms' (ms' ! length ms)"
    using deps at by (simp add: complete_module_def dep_paths_def list_all_iff new_module_def)
  moreover have "complete_module fs ms' (ms' ! j)" if "length ms < j" "j < length ms'" for j
    using ext that by (auto simp: extends_def)
  moreover have "ms' ! j = ms ! j" if "j < length ms" for j
  proof -
    have "ms' ! j = (ms @ [new_module path]) ! j" using ext that by (simp add: extends_def)
    then show ?thesis using that by (simp add: nth_append)
  qed
  moreover have "length ms < length ms'" "distinct (map nib_path ms')" using ext by (auto simp: extends_def)
  ultimately show ?thesis using at by (auto simp: extends_def new_module_def le_less)
qed

lemma discovery:
  "k < length ms \<Longrightarrow> distinct (map nib_path ms) \<Longrightarrow> scan_uses_f fs n dir k nifs ms = Inr ms' \<Longrightarrow>
   extends fs k ms ms' \<and> (\<exists>ds. mdeps (ms' ! k) = mdeps (ms ! k) @ ds \<and> (\<forall>d \<in> set ds. d < length ms') \<and>
     map (\<lambda>d. nib_path (ms' ! d)) ds = List.map_filter (locate_dep fs dir) nifs)"
  "distinct (map nib_path ms) \<Longrightarrow> length path \<le> 255 \<or> ms = [] \<Longrightarrow> add_module_f fs n path ms = Inr (i, ms') \<Longrightarrow>
   extends fs (length ms) ms ms' \<and> i < length ms' \<and> nib_path (ms' ! i) = take 255 path"
proof (induction fs n dir k nifs ms and fs n path ms arbitrary: ms' and i ms'
    rule: scan_uses_f_add_module_f.induct)
  case (1 fs n dir k ms)
  then show ?case by (auto simp: extends_refl map_filter_simps)
next
  case (2 fs n dir k nif nifs ms)
  have short: "\<not> 256 \<le> length nif" using 2(6) by (auto split: if_splits)
  show ?case
  proof (cases "locate_dep fs dir nif")
    case None
    with 2(1) [OF short None 2(4,5)] 2(6) short show ?thesis by (simp add: map_filter_Cons_None)
  next
    case (Some r)
    from 2(6) short Some obtain dep ms1 where add: "add_module_f fs n r ms = Inr (dep, ms1)"
      and rest: "scan_uses_f fs n dir k nifs (add_dep k dep ms1) = Inr ms'"
      by (auto split: sum.splits)
    from 2(2) [OF short Some 2(5) _ add] locate_dep_short [OF Some]
    have add': "extends fs (length ms) ms ms1" "dep < length ms1" "nib_path (ms1 ! dep) = r" by auto
    have ext1: "extends fs k ms (add_dep k dep ms1)"
      by (rule extends_add_dep [OF extends_any [OF add'(1)] 2(4)])
    then have "k < length (add_dep k dep ms1)" "distinct (map nib_path (add_dep k dep ms1))"
      using 2(4) by (auto simp: extends_def)
    from 2(3) [OF short Some add _ this rest] obtain ds where
      rest': "extends fs k (add_dep k dep ms1) ms'" "mdeps (ms' ! k) = mdeps (add_dep k dep ms1 ! k) @ ds"
        "\<forall>d \<in> set ds. d < length ms'"
        "map (\<lambda>d. nib_path (ms' ! d)) ds = List.map_filter (locate_dep fs dir) nifs"
      by blast
    have "extends fs k ms ms' \<and> mdeps (ms' ! k) = mdeps (ms ! k) @ dep # ds \<and>
        (\<forall>d \<in> set (dep # ds). d < length ms') \<and>
        map (\<lambda>d. nib_path (ms' ! d)) (dep # ds) = r # List.map_filter (locate_dep fs dir) nifs"
      by (rule scan_step [OF 2(4) add' rest'])
    then show ?thesis unfolding map_filter_Cons_Some [of "locate_dep fs dir", OF Some] by (intro conjI exI) auto
  qed
next
  case (3 fs n path ms)
  show ?case
  proof (cases "find_module ms path")
    case (Some j)
    with 3 find_module_Some [OF Some] show ?thesis by (auto simp: extends_refl)
  next
    case None
    let ?m = "new_module path"
    have new: "take 255 path \<notin> nib_path ` set ms"
      using None 3(3) by (auto simp: find_module_None)
    from 3(4) None obtain n' where n: "n = Suc n'" by (cases n) auto
    with 3(4) None have i: "i = length ms" and
      scan: "scan_uses_f fs n' (mdir ?m) (length ms) (uses_of fs (nib_path ?m)) (ms @ [?m]) = Inr ms'"
      by (auto simp: Let_def split: sum.splits)
    have "length ms < length (ms @ [?m])" "distinct (map nib_path (ms @ [?m]))"
      using 3(2) new by (auto simp: new_module_def)
    from 3(1) [OF None n refl refl this scan] obtain ds where
      "extends fs (length ms) (ms @ [?m]) ms'" "mdeps (ms' ! length ms) = mdeps ((ms @ [?m]) ! length ms) @ ds"
      "\<forall>d \<in> set ds. d < length ms'"
      "map (\<lambda>d. nib_path (ms' ! d)) ds = List.map_filter (locate_dep fs (mdir ?m)) (uses_of fs (nib_path ?m))"
      by blast
    with new_complete [OF 3(2) new, of fs ms' ds] i show ?thesis by simp
  qed
qed

subsection \<open>The discovery ends\<close>

text \<open>A path has at most 255 characters, so that only finitely many modules can be added; the fuel
  bounds the depth of the recursion by the number of paths not seen yet.\<close>

definition unseen :: "module_t list \<Rightarrow> nat" where
  "unseen ms = card ({p. length p \<le> 255} - nib_path ` set ms)"

lemma finite_paths: "finite {p :: string. length p \<le> 255}"
  using finite_lists_length_le [of "UNIV :: char set" 255] by simp

lemma unseen_new:
  assumes "take 255 path \<notin> nib_path ` set ms"
  shows "unseen (ms @ [new_module path]) < unseen ms"
proof -
  have "{p. length p \<le> 255} - nib_path ` set (ms @ [new_module path]) \<subset> {p. length p \<le> 255} - nib_path ` set ms"
    using assms by (auto simp: new_module_def)
  then show ?thesis unfolding unseen_def by (intro psubset_card_mono) (simp_all add: finite_paths)
qed

lemma unseen_extends: "extends fs k ms ms' \<Longrightarrow> unseen ms' \<le> unseen ms"
proof -
  assume ext: "extends fs k ms ms'"
  have "nib_path ` set ms \<subseteq> nib_path ` set ms'"
  proof
    fix p assume "p \<in> nib_path ` set ms"
    then obtain j where "j < length ms" "p = nib_path (ms ! j)" by (auto simp: in_set_conv_nth)
    with ext have "j < length ms'" "p = nib_path (ms' ! j)" by (auto simp: extends_def)
    then show "p \<in> nib_path ` set ms'" by auto
  qed
  then show ?thesis unfolding unseen_def by (intro card_mono) (auto simp: finite_paths)
qed

lemma paths_le: "unseen [] \<le> 2 ^ 2048"
proof -
  have sum: "(\<Sum>i\<le>n. 256 ^ i) \<le> (256 :: nat) ^ Suc n" for n
    by (induction n) auto
  have "card {p :: string. length p \<le> 255} = (\<Sum>i\<le>255. card (UNIV :: char set) ^ i)"
    using card_lists_length_le [of "UNIV :: char set" 255] by simp
  also have "\<dots> = (\<Sum>i\<le>255. 256 ^ i)" by (simp only: card_UNIV_char)
  also have "\<dots> \<le> 256 ^ Suc 255" by (rule sum)
  also have "\<dots> = ((2 :: nat) ^ 8) ^ 256" by simp
  also have "\<dots> = 2 ^ 2048" by (subst power_mult [symmetric]) simp
  finally show ?thesis by (simp add: unseen_def)
qed

lemma enough_fuel:
  "k < length ms \<Longrightarrow> distinct (map nib_path ms) \<Longrightarrow> unseen ms \<le> n \<Longrightarrow>
   scan_uses_f fs n dir k nifs ms \<noteq> Inl Out_of_fuel"
  "distinct (map nib_path ms) \<Longrightarrow> length path \<le> 255 \<or> ms = [] \<Longrightarrow> unseen ms \<le> n \<Longrightarrow>
   add_module_f fs n path ms \<noteq> Inl Out_of_fuel"
proof (induction fs n dir k nifs ms and fs n path ms rule: scan_uses_f_add_module_f.induct)
  case (2 fs n dir k nif nifs ms)
  show ?case
  proof (cases "length nif \<ge> 256 \<or> locate_dep fs dir nif = None")
    case True
    with 2 show ?thesis by (auto split: option.split)
  next
    case False
    then obtain r where short: "\<not> length nif \<ge> 256" and r: "locate_dep fs dir nif = Some r" by auto
    note path = locate_dep_short [OF r]
    show ?thesis
    proof (cases "add_module_f fs n r ms")
      case (Inl e)
      with 2(2) [OF short r 2(5) _ 2(6)] path short r show ?thesis by auto
    next
      case (Inr p)
      then obtain dep ms1 where add: "add_module_f fs n r ms = Inr (dep, ms1)" by (cases p) auto
      from discovery(2) [OF 2(5) _ add] path have "extends fs (length ms) ms ms1" by simp
      then have ext: "extends fs k ms (add_dep k dep ms1)"
        by (rule extends_add_dep [OF extends_any 2(4)])
      have "k < length (add_dep k dep ms1)" "distinct (map nib_path (add_dep k dep ms1))"
        using ext 2(4) by (auto simp: extends_def)
      moreover have "unseen (add_dep k dep ms1) \<le> n" using unseen_extends [OF ext] 2(6) by simp
      ultimately show ?thesis using 2(3) [OF short r add refl] short r add by simp
    qed
  qed
next
  case (3 fs n path ms)
  show ?case
  proof (cases "find_module ms path")
    case None
    have new: "take 255 path \<notin> nib_path ` set ms"
      using None 3(3) by (auto simp: find_module_None)
    note less = unseen_new [OF new]
    then obtain n' where n: "n = Suc n'" using 3(4) by (cases n) auto
    have "unseen (ms @ [new_module path]) \<le> n'" using less 3(4) n by simp
    moreover have "length ms < length (ms @ [new_module path])" "distinct (map nib_path (ms @ [new_module path]))"
      using 3(2) new by (auto simp: new_module_def)
    ultimately show ?thesis using 3(1) [OF None n refl refl] None n
      by (auto simp: Let_def split: sum.split)
  qed simp
qed simp

text \<open>More fuel does not change a result.\<close>

lemma more_fuel:
  "scan_uses_f fs n dir k nifs ms \<noteq> Inl Out_of_fuel \<Longrightarrow>
   scan_uses_f fs (n + x) dir k nifs ms = scan_uses_f fs n dir k nifs ms"
  "add_module_f fs n path ms \<noteq> Inl Out_of_fuel \<Longrightarrow>
   add_module_f fs (n + x) path ms = add_module_f fs n path ms"
proof (induction fs n dir k nifs ms and fs n path ms rule: scan_uses_f_add_module_f.induct)
  case (2 fs n dir k nif nifs ms)
  show ?case
  proof (cases "\<not> length nif \<ge> 256 \<and> locate_dep fs dir nif \<noteq> None")
    case True
    then obtain r where short: "\<not> length nif \<ge> 256" and r: "locate_dep fs dir nif = Some r" by auto
    with 2(4) have add: "add_module_f fs (n + x) r ms = add_module_f fs n r ms"
      by (intro 2(2)) (auto split: sum.splits)
    show ?thesis
    proof (cases "add_module_f fs n r ms")
      case (Inr p)
      then obtain dep ms1 where p: "add_module_f fs n r ms = Inr (dep, ms1)" by (cases p) auto
      with 2(4) short r have "scan_uses_f fs n dir k nifs (add_dep k dep ms1) \<noteq> Inl Out_of_fuel" by simp
      from 2(3) [OF short r p refl this] add p short r show ?thesis by simp
    qed (use add short r in simp)
  qed (use 2 in \<open>auto split: option.split\<close>)
next
  case (3 fs n path ms)
  show ?case
  proof (cases "find_module ms path")
    case None
    with 3(2) obtain n' where n: "n = Suc n'" by (cases n) auto
    let ?m = "new_module path"
    have "scan_uses_f fs n' (mdir ?m) (length ms) (uses_of fs (nib_path ?m)) (ms @ [?m]) \<noteq> Inl Out_of_fuel"
      using 3(2) None n by (auto simp: Let_def)
    from 3(1) [OF None n refl refl this] None n show ?thesis by (simp add: Let_def)
  qed simp
qed simp

section \<open>The order of the modules\<close>

definition deps_in_range :: "module_t list \<Rightarrow> bool" where
  "deps_in_range ms \<longleftrightarrow> (\<forall>m \<in> set ms. list_all (\<lambda>d. d < length ms) (mdeps m))"

interpretation mods: dep_graph length "\<lambda>ms i. mdeps (ms ! i)" mod_ready deps_in_range
proof unfold_locales
  show "mod_ready g v i \<longleftrightarrow> (\<forall>d \<in> set (mdeps (g ! i)). v ! d)" for g v i
    by (simp add: mod_ready_def list_all_iff)
  show "deps_in_range g \<Longrightarrow> i < length g \<Longrightarrow> d \<in> set (mdeps (g ! i)) \<Longrightarrow> d < length g" for g i d
    using nth_mem [of i g] by (fastforce simp: deps_in_range_def list_all_iff)
qed

lemma topo_sort_loop:
  assumes "deps_in_range ms"
  obtains v ord where "topo_loop (mod_ready ms) (replicate (length ms) False) [] = (v, ord)"
    "topo_sort ms = append_rest (v, ord)" "mods.taken ms v ord"
proof -
  obtain v ord where loop: "topo_loop (mod_ready ms) (replicate (length ms) False) [] = (v, ord)" by force
  with mods.taken_loop [OF assms mods.initially_taken loop] that show thesis
    by (simp add: topo_sort_def)
qed

lemma topo_sort_permutes:
  "deps_in_range ms \<Longrightarrow> distinct (topo_sort ms) \<and> set (topo_sort ms) = {..<length ms}"
  by (erule topo_sort_loop) (auto dest: mods.order_permutes)

lemma discovered_in_range:
  assumes "add_module_f fs n root [] = Inr (i, ms)"
  shows "deps_in_range ms"
  using discovery(2) [OF _ _ assms]
  by (auto simp: deps_in_range_def extends_def complete_module_def in_set_conv_nth)

section \<open>Properties\<close>

text \<open>
  (C32) The discovery of the modules always ends, and unless a path overflows its buffer it gives
  the graph of the \<^verbatim>\<open>use\<close> lines: every module occurs once, and the dependencies of each
  are the modules that its \<^verbatim>\<open>use\<close> lines name and that exist, in order.
\<close>

theorem module_graph_is_use_closure:
  assumes "2 ^ 2048 \<le> fuel"
  shows "add_module_f fs fuel root [] = Inl Buffer_overflow \<or>
    (\<exists>i ms. add_module_f fs fuel root [] = Inr (i, ms) \<and> distinct (map nib_path ms) \<and>
       (\<forall>m \<in> set ms. map (\<lambda>d. nib_path (ms ! d)) (mdeps m) =
          List.map_filter (locate_dep fs (mdir m)) (uses_of fs (nib_path m))))"
proof (cases "add_module_f fs fuel root []")
  case (Inl e)
  have "unseen [] \<le> fuel" using paths_le assms by (rule order_trans)
  with enough_fuel(2) [of "[]" root fuel fs] Inl show ?thesis by (cases e) auto
next
  case (Inr p)
  obtain i ms where p: "p = (i, ms)" by force
  from discovery(2) [OF _ _ Inr [unfolded p]]
  have ext: "extends fs 0 [] ms" by simp
  then have "\<forall>m \<in> set ms. complete_module fs ms m"
    by (auto simp: extends_def in_set_conv_nth)
  with ext Inr p show ?thesis by (auto simp: extends_def complete_module_def dep_paths_def)
qed

definition str_file :: "string \<Rightarrow> string" where
  "str_file p = ''use '' @ [CHR 0x22] @ p @ [CHR 0x22, CHR 0x0A]"

text \<open>Two modules used by the root, one of which uses the other by a path of its own.\<close>

definition diamond_fs :: filesys where
  "diamond_fs =
     (let files = [(''main.nib'', str_file ''a/x.nif'' @ str_file ''b/y.nif''),
                   (''./a/x.nib'', str_file ''../b/y.nif''), (''./b/y.nib'', []), (''./a/../b/y.nib'', [])]
      in \<lparr>fopen_r = map_of files, stat_mtime = (\<lambda>p. map_option (\<lambda>_. 1) (map_of files p))\<rparr>)"

lemma diamond_modules:
  "map_sum id (\<lambda>(i, ms). map (\<lambda>m. (nib_path m, mdeps m)) ms) (add_module_f diamond_fs 5 ''main.nib'' []) =
   Inr [(''main.nib'', [1, 3]), (''./a/x.nib'', [2]), (''./a/../b/y.nib'', []), (''./b/y.nib'', [])]"
  by code_simp

theorem module_graph_is_use_closure_witness:
  "\<exists>i ms. add_module_f diamond_fs (2 ^ 2048) ''main.nib'' [] = Inr (i, ms) \<and> distinct (map nib_path ms) \<and>
     map (\<lambda>d. nib_path (ms ! d)) (mdeps (ms ! 0)) = [''./a/x.nib'', ''./b/y.nib'']"
proof -
  have "(5 :: nat) \<le> 2 ^ 2048" using power_increasing [of 3 2048 "2 :: nat"] by simp
  then obtain x where x: "(2 :: nat) ^ 2048 = 5 + x" using le_iff_add by blast
  have "add_module_f diamond_fs 5 ''main.nib'' [] \<noteq> Inl Out_of_fuel"
    using diamond_modules by (cases "add_module_f diamond_fs 5 ''main.nib'' []") auto
  from more_fuel(2) [OF this, of x]
  have big: "add_module_f diamond_fs (2 ^ 2048) ''main.nib'' [] = add_module_f diamond_fs 5 ''main.nib'' []"
    by (simp only: x)
  from module_graph_is_use_closure [OF order_refl, of diamond_fs "''main.nib''"] diamond_modules big
  obtain i ms where r: "add_module_f diamond_fs 5 ''main.nib'' [] = Inr (i, ms)"
    and "distinct (map nib_path ms)"
    by (cases "add_module_f diamond_fs 5 ''main.nib'' []") auto
  moreover have "map (\<lambda>m. (nib_path m, mdeps m)) ms =
      [(''main.nib'', [1, 3]), (''./a/x.nib'', [2]), (''./a/../b/y.nib'', []), (''./b/y.nib'', [])]"
    using diamond_modules r by simp
  then have "map (\<lambda>d. nib_path (ms ! d)) (mdeps (ms ! 0)) = [''./a/x.nib'', ''./b/y.nib'']"
    by (auto simp: map_eq_Cons_conv)
  ultimately show ?thesis using big by auto
qed

text \<open>
  Modules are told apart by the spelling of their path. In this project one source file is
  reached by two paths, and the driver treats it as two modules: it is compiled twice and both
  results are given to the binder.
\<close>

theorem same_source_twice:
  "case build_main (\<lambda>argv w. (Exited 0, w)) diamond_fs 5 [''bin/nibbuild'', ''main.nib''] () of
     Inl e \<Rightarrow> False
   | Inr (rc, _, cmds) \<Rightarrow> rc = 0 \<and> length cmds = 6 \<and>
       cmds ! 4 = [''bin/nibbind'', ''./a/../b/y.nir'', ''./b/y.nir'', ''./a/x.nir'', ''main.nir'', ''-o'', ''main.asm'']"
  by code_simp

text \<open>
  (C31) The build order contains every module exactly once, also when there are cycles. When the
  dependencies have no cycle, every module comes after all the modules it depends on.
\<close>

theorem build_order_topological:
  assumes "add_module_f fs fuel root [] = Inr (i, ms)"
  shows "distinct (topo_sort ms) \<and> set (topo_sort ms) = {..<length ms} \<and>
    ((\<exists>rank :: nat \<Rightarrow> nat. \<forall>i < length ms. \<forall>d \<in> set (mdeps (ms ! i)). rank d < rank i) \<longrightarrow>
       is_topological (\<lambda>i. mdeps (ms ! i)) (topo_sort ms))"
proof -
  note range = discovered_in_range [OF assms]
  obtain v ord where loop: "topo_loop (mod_ready ms) (replicate (length ms) False) [] = (v, ord)"
    and sort: "topo_sort ms = append_rest (v, ord)"
    using topo_sort_loop [OF range] by blast
  show ?thesis
    using topo_sort_permutes [OF range] mods.topological_if_ranked [OF range mods.initially_taken loop] sort
    by auto
qed

theorem build_order_topological_witness:
  "\<exists>i ms. add_module_f diamond_fs 5 ''main.nib'' [] = Inr (i, ms) \<and> set (topo_sort ms) = {..<4} \<and>
     is_topological (\<lambda>i. mdeps (ms ! i)) (topo_sort ms)"
proof -
  obtain i ms where r: "add_module_f diamond_fs 5 ''main.nib'' [] = Inr (i, ms)"
    using diamond_modules by (cases "add_module_f diamond_fs 5 ''main.nib'' []") auto
  have ms: "map (\<lambda>m. (nib_path m, mdeps m)) ms =
      [(''main.nib'', [1, 3]), (''./a/x.nib'', [2]), (''./a/../b/y.nib'', []), (''./b/y.nib'', [])]"
    using diamond_modules r by simp
  then have len: "length ms = 4" by (auto dest: arg_cong [where f = length])
  have "\<forall>i < length ms. \<forall>d \<in> set (mdeps (ms ! i)). 4 - d < (4 - i :: nat)"
    using ms by (auto simp: map_eq_Cons_conv less_Suc_eq numeral_eq_Suc)
  then have "\<exists>rank :: nat \<Rightarrow> nat. \<forall>i < length ms. \<forall>d \<in> set (mdeps (ms ! i)). rank d < rank i"
    by (intro exI [of _ "\<lambda>i. 4 - i"])
  with build_order_topological [OF r] len r show ?thesis by auto
qed

section \<open>The commands\<close>

text \<open>The exit codes of a list of commands run in order.\<close>

fun replay :: "'w spawner \<Rightarrow> string list list \<Rightarrow> 'w \<Rightarrow> int list \<times> 'w" where
  "replay spawn [] w = ([], w)"
| "replay spawn (c # cs) w =
     (let (rc, w1) = run_argv spawn c w; (rcs, w2) = replay spawn cs w1 in (rc # rcs, w2))"

lemma replay_append:
  "replay spawn (cs @ ds) w =
   (let (rcs, w1) = replay spawn cs w; (rcs', w2) = replay spawn ds w1 in (rcs @ rcs', w2))"
  by (induction cs arbitrary: w) (simp_all add: Let_def split: prod.split)

lemma replay_length: "length (fst (replay spawn cs w)) = length cs"
  by (induction cs arbitrary: w) (simp_all add: Let_def case_prod_unfold)

lemma compile_phase_replay:
  assumes "compile_phase spawn td opts ms order errs (w1, cmds) = (errs', w2, cmds')"
  shows "cmds' = cmds @ map (\<lambda>i. compile_argv td opts (ms ! i)) (filter (\<lambda>i. needs_compile (ms ! i)) order) \<and>
    (\<exists>rcs. replay spawn (drop (length cmds) cmds') w1 = (rcs, w2) \<and> errs' = errs + length (filter (\<lambda>rc. rc \<noteq> 0) rcs))"
  using assms
proof (induction order arbitrary: errs w1 cmds)
  case (Cons i order)
  show ?case
  proof (cases "needs_compile (ms ! i)")
    case True
    obtain rc w where run: "run_argv spawn (compile_argv td opts (ms ! i)) w1 = (rc, w)" by force
    with Cons.prems True have
      "compile_phase spawn td opts ms order (if rc \<noteq> 0 then errs + 1 else errs)
         (w, cmds @ [compile_argv td opts (ms ! i)]) = (errs', w2, cmds')"
      by (simp add: run_logged_def)
    from Cons.IH [OF this] True run show ?thesis by auto
  qed (use Cons in simp)
qed auto

lemma run_phases_commands:
  assumes "run_phases spawn td opts root ms order (w, []) = (rc, w', cmds)"
  defines "compiles \<equiv> map (\<lambda>i. compile_argv td opts (ms ! i)) (filter (\<lambda>i. needs_compile (ms ! i)) order)"
    and "asm_path \<equiv> replace_ext root ''.asm'' 256"
  obtains rcs where "replay spawn cmds w = (rcs, w')"
    "rc = (if list_all (\<lambda>rc. rc = 0) rcs then 0 else 1)"
    "(\<not> list_all (\<lambda>rc. rc = 0) (take (length compiles) rcs) \<and> cmds = compiles) \<or>
     (list_all (\<lambda>rc. rc = 0) (take (length compiles) rcs) \<and>
      (cmds = compiles @ [bind_argv td opts ms order asm_path] \<and> rc = 1 \<or>
       cmds = compiles @ [bind_argv td opts ms order asm_path, asm_argv td opts asm_path
         (case opt_outbin opts of Some o' \<Rightarrow> o' | None \<Rightarrow> replace_ext root ''.bin'' 256)]))"
proof -
  obtain errs w1 cs where ph: "compile_phase spawn td opts ms order 0 (w, []) = (errs, w1, cs)"
    by (metis prod_cases3)
  from compile_phase_replay [OF ph] obtain rcs1 where
    cs: "cs = compiles" and rep: "replay spawn cs w = (rcs1, w1)" and errs: "errs = length (filter (\<lambda>rc. rc \<noteq> 0) rcs1)"
    by (auto simp: compiles_def)
  have l1: "length rcs1 = length compiles" using replay_length [of spawn cs w] rep cs by simp
  have all: "errs = 0 \<longleftrightarrow> list_all (\<lambda>rc. rc = 0) rcs1" by (auto simp: errs list_all_iff filter_empty_conv)
  obtain rc2 w2 where b: "run_argv spawn (bind_argv td opts ms order asm_path) w1 = (rc2, w2)" by force
  obtain rc3 w3 where a: "run_argv spawn (asm_argv td opts asm_path
      (case opt_outbin opts of Some o' \<Rightarrow> o' | None \<Rightarrow> replace_ext root ''.bin'' 256)) w2 = (rc3, w3)" by force
  note run = assms(1) [unfolded run_phases_def Let_def ph, folded asm_path_def]
  consider "errs > 0" | "errs = 0" "rc2 \<noteq> 0" | "errs = 0" "rc2 = 0" by auto
  then show thesis
  proof cases
    case 1
    with run have "rc = 1" "w' = w1" "cmds = cs" by auto
    with that [of rcs1] rep all 1 cs l1 show thesis by auto
  next
    case 2
    with run b have "rc = 1" "w' = w2" "cmds = cs @ [bind_argv td opts ms order asm_path]"
      by (auto simp: run_logged_def)
    with that [of "rcs1 @ [rc2]"] rep all 2 cs l1 b show thesis by (auto simp: replay_append)
  next
    case 3
    with run b a have "rc = (if rc3 \<noteq> 0 then 1 else 0)" "w' = w3"
      "cmds = cs @ [bind_argv td opts ms order asm_path, asm_argv td opts asm_path
        (case opt_outbin opts of Some o' \<Rightarrow> o' | None \<Rightarrow> replace_ext root ''.bin'' 256)]"
      by (auto simp: run_logged_def split: if_splits)
    with that [of "rcs1 @ [rc2, rc3]"] rep all 3 cs l1 b a show thesis by (auto simp: replay_append)
  qed
qed

lemma run_phases_zero:
  assumes "run_phases spawn td opts root ms order (w, []) = (0, w', cmds)"
  shows "cmds = map (\<lambda>i. compile_argv td opts (ms ! i)) (filter (\<lambda>i. needs_compile (ms ! i)) order) @
      [bind_argv td opts ms order (replace_ext root ''.asm'' 256), asm_argv td opts (replace_ext root ''.asm'' 256)
         (case opt_outbin opts of Some o' \<Rightarrow> o' | None \<Rightarrow> replace_ext root ''.bin'' 256)]"
    and "replay spawn cmds w = (replicate (length cmds) 0, w')"
proof -
  show "cmds = map (\<lambda>i. compile_argv td opts (ms ! i)) (filter (\<lambda>i. needs_compile (ms ! i)) order) @
      [bind_argv td opts ms order (replace_ext root ''.asm'' 256), asm_argv td opts (replace_ext root ''.asm'' 256)
         (case opt_outbin opts of Some o' \<Rightarrow> o' | None \<Rightarrow> replace_ext root ''.bin'' 256)]"
    by (rule run_phases_commands [OF assms]) (auto split: if_splits dest: in_set_takeD simp: list_all_iff)
  obtain rcs where rep: "replay spawn cmds w = (rcs, w')" and ok: "list_all (\<lambda>rc. rc = 0) rcs"
    by (rule run_phases_commands [OF assms]) (auto split: if_splits)
  have "length rcs = length cmds" using replay_length [of spawn cmds w] rep by simp
  with rep ok show "replay spawn cmds w = (replicate (length cmds) 0, w')"
    using replicate_eqI [of rcs "length cmds" 0] by (simp add: list_all_iff)
qed

lemma marked_argv:
  assumes "mark_outdated fs force ms = Some ms'" and "set order \<subseteq> {..<length ms}"
  shows "map (\<lambda>i. compile_argv td opts (ms' ! i)) (filter (\<lambda>i. needs_compile (ms' ! i)) order) =
      map (\<lambda>i. compile_argv td opts (ms ! i)) (filter (\<lambda>i. outdated fs force ms (ms ! i)) order)"
    and "bind_argv td opts ms' order asm_path = bind_argv td opts ms order asm_path"
proof -
  have at: "ms' ! i = (ms ! i)\<lparr>needs_compile := outdated fs force ms (ms ! i)\<rparr>" if "i \<in> set order" for i
    using assms that by (auto simp: mark_outdated_def split: if_splits)
  have f: "filter (\<lambda>i. needs_compile (ms' ! i)) order = filter (\<lambda>i. outdated fs force ms (ms ! i)) order"
    by (rule filter_cong) (simp_all add: at)
  show "map (\<lambda>i. compile_argv td opts (ms' ! i)) (filter (\<lambda>i. needs_compile (ms' ! i)) order) =
      map (\<lambda>i. compile_argv td opts (ms ! i)) (filter (\<lambda>i. outdated fs force ms (ms ! i)) order)"
    unfolding f by (rule map_cong) (auto simp: at compile_argv_def)
  have "map (\<lambda>i. nir_path (ms' ! i)) order = map (\<lambda>i. nir_path (ms ! i)) order"
    by (rule map_cong) (simp_all add: at)
  then show "bind_argv td opts ms' order asm_path = bind_argv td opts ms order asm_path"
    by (simp add: bind_argv_def)
qed

text \<open>
  (C33) A build that exits with 0 ran the compiler on exactly the modules that were out of date, in
  build order, then the binder on all of them, then the assembler, and each of these commands
  exited with 0.
\<close>

theorem successful_build_commands:
  assumes "build_main spawn fs fuel argv w = Inr (0, w', cmds)"
    and "opts = parse_args Sec_build (tl argv) (load_build_file fs ''nib.build'' opts0)"
    and "td = resolve_tool_dir (hd argv)"
  shows "\<exists>root i ms. opt_root opts = Some root \<and> add_module_f fs fuel root [] = Inr (i, ms) \<and>
    cmds = map (\<lambda>i. compile_argv td opts (ms ! i))
             (filter (\<lambda>i. outdated fs (force_rebuild opts) ms (ms ! i)) (topo_sort ms)) @
           [bind_argv td opts ms (topo_sort ms) (replace_ext root ''.asm'' 256),
            asm_argv td opts (replace_ext root ''.asm'' 256)
              (case opt_outbin opts of Some o' \<Rightarrow> o' | None \<Rightarrow> replace_ext root ''.bin'' 256)] \<and>
    replay spawn cmds w = (replicate (length cmds) 0, w')"
proof -
  from assms obtain root i ms ms' where root: "opt_root opts = Some root"
    and ms: "add_module_f fs fuel root [] = Inr (i, ms)"
    and ms': "mark_outdated fs (force_rebuild opts) ms = Some ms'"
    and run: "run_phases spawn td opts root ms' (topo_sort ms) (w, []) = (0, w', cmds)"
    by (auto simp: build_main_def Let_def split: option.splits sum.splits prod.splits)
  have "set (topo_sort ms) \<subseteq> {..<length ms}"
    using topo_sort_permutes [OF discovered_in_range [OF ms]] by simp
  note argvs = marked_argv [OF ms' this]
  from run_phases_zero [OF run] root ms show ?thesis by (auto simp: argvs)
qed

definition ok_spawn :: "unit spawner" where
  "ok_spawn argv w = (Exited 0, w)"

theorem successful_build_commands_witness:
  "\<exists>cmds. build_main ok_spawn diamond_fs 5 [''bin/nibbuild'', ''-f'', ''main.nib''] () = Inr (0, (), cmds) \<and>
     replay ok_spawn cmds () = (replicate (length cmds) 0, ())"
proof -
  let ?r = "build_main ok_spawn diamond_fs 5 [''bin/nibbuild'', ''-f'', ''main.nib''] ()"
  have "case ?r of Inl e \<Rightarrow> False | Inr (rc, _, cmds) \<Rightarrow> rc = 0" by code_simp
  then obtain cmds where r: "?r = Inr (0, (), cmds)" by (auto split: sum.splits)
  with successful_build_commands [OF r refl refl] show ?thesis by blast
qed

text \<open>
  (C34) When a compilation fails, the remaining modules are still compiled, but neither the binder
  nor the assembler is started, and the driver exits with 1.
\<close>

theorem failed_compile_stops_build:
  assumes "run_phases spawn td opts root ms order (w, []) = (rc, w', cmds)"
    and "compiles = map (\<lambda>i. compile_argv td opts (ms ! i)) (filter (\<lambda>i. needs_compile (ms ! i)) order)"
    and "\<not> list_all (\<lambda>rc. rc = 0) (fst (replay spawn compiles w))"
  shows "rc = 1 \<and> cmds = compiles"
proof -
  obtain rcs where rep: "replay spawn cmds w = (rcs, w')"
    and rc: "rc = (if list_all (\<lambda>rc. rc = 0) rcs then 0 else 1)"
    and cases: "cmds = compiles \<or>
     (list_all (\<lambda>rc. rc = 0) (take (length compiles) rcs) \<and> (\<exists>rest. cmds = compiles @ rest))"
    by (rule run_phases_commands [OF assms(1), folded assms(2)]) blast
  have "take (length compiles) rcs = fst (replay spawn compiles w)" if "cmds = compiles @ rest" for rest
    using rep that replay_length [of spawn compiles w] by (auto simp: replay_append Let_def split: prod.splits)
  with cases assms(3) have "cmds = compiles" by auto
  with rep rc assms(3) show ?thesis by auto
qed

theorem failed_compile_stops_build_witness:
  "run_phases (\<lambda>argv w. (if argv ! 1 = ''a.nib'' then Killed else Exited 0, w)) ''.'' opts0 ''b.nib''
     (map (\<lambda>m. m\<lparr>needs_compile := True\<rparr>) [new_module ''b.nib'', new_module ''a.nib'']) [1, 0] ((), []) =
   (1, (), [[''./nib'', ''a.nib''], [''./nib'', ''b.nib'']])"
proof -
  let ?sp = "\<lambda>argv w :: unit. (if argv ! 1 = ''a.nib'' then Killed else Exited 0, w)"
  let ?ms = "map (\<lambda>m. m\<lparr>needs_compile := True\<rparr>) [new_module ''b.nib'', new_module ''a.nib'']"
  let ?cs = "[[''./nib'', ''a.nib''], [''./nib'', ''b.nib'']]"
  obtain rc cmds where r: "run_phases ?sp ''.'' opts0 ''b.nib'' ?ms [1, 0] ((), []) = (rc, (), cmds)"
    by (cases "run_phases ?sp ''.'' opts0 ''b.nib'' ?ms [1, 0] ((), [])") auto
  have cs: "?cs = map (\<lambda>i. compile_argv ''.'' opts0 (?ms ! i)) (filter (\<lambda>i. needs_compile (?ms ! i)) [1, 0])"
    by code_simp
  have "\<not> list_all (\<lambda>rc. rc = 0) (fst (replay ?sp ?cs ()))" by code_simp
  from failed_compile_stops_build [OF r cs this] r show ?thesis by simp
qed

section \<open>Arguments of a build file\<close>

text \<open>An argument as it is written in a build file: in double quotes when it contains a blank.\<close>

definition arg_ok :: "string \<Rightarrow> bool" where
  "arg_ok t \<longleftrightarrow> t \<noteq> [] \<and> length t \<le> 255 \<and> CHR 0x22 \<notin> set t"

definition write_arg :: "string \<Rightarrow> string" where
  "write_arg t = (if list_ex blank t then [CHR 0x22] @ t @ [CHR 0x22] else t)"

definition write_args :: "string list \<Rightarrow> string" where
  "write_args ts = concat (map (\<lambda>t. '' '' @ write_arg t) ts)"

lemma not_blank_quote [simp]: "\<not> blank (CHR 0x22)"
  by (simp add: blank_def)

lemma blank_space [simp]: "blank (CHR '' '')"
  by (simp add: blank_def)

lemma tokenize_arg:
  assumes ok: "arg_ok t" and rest: "rest = [] \<or> hd rest = CHR '' ''"
  shows "tokenize ('' '' @ write_arg t @ rest) = t # tokenize rest"
proof (cases "list_ex blank t")
  case True
  have "takeWhile (\<lambda>c. c \<noteq> CHR 0x22) (t @ [CHR 0x22] @ rest) = t"
    using ok by (simp add: takeWhile_until arg_ok_def)
  then show ?thesis
    using ok True by (subst tokenize.simps) (simp add: write_arg_def arg_ok_def Let_def)
next
  case False
  obtain c t' where t: "t = c # t'" using ok by (cases t) (auto simp: arg_ok_def)
  have nb: "\<not> blank c" "c \<noteq> CHR 0x22" using False ok t by (auto simp: arg_ok_def)
  have "takeWhile (\<lambda>c. \<not> blank c) (t @ rest) = t @ takeWhile (\<lambda>c. \<not> blank c) rest"
    using False by (intro takeWhile_append2) (auto simp: list_ex_iff)
  moreover have "takeWhile (\<lambda>c. \<not> blank c) rest = []" using rest by (cases rest) auto
  ultimately have "takeWhile (\<lambda>c. \<not> blank c) (t @ rest) = t" by simp
  then show ?thesis
    using ok False nb t by (subst tokenize.simps) (simp add: write_arg_def arg_ok_def Let_def)
qed

text \<open>
  Arguments written to a line of a build file, quoted where they contain a blank, are read
  back exactly.
\<close>

theorem tokenize_written_args:
  assumes "\<forall>t \<in> set ts. arg_ok t"
  shows "tokenize (write_args ts) = ts"
  using assms
proof (induction ts)
  case Nil
  then show ?case by (simp add: write_args_def tokenize.simps)
next
  case (Cons t ts)
  have "write_args ts = [] \<or> hd (write_args ts) = CHR '' ''"
    by (cases ts) (auto simp: write_args_def)
  with tokenize_arg [of t "write_args ts"] Cons show ?case by (simp add: write_args_def)
qed

theorem tokenize_written_args_witness:
  "tokenize ('' -D '' @ [CHR 0x22] @ ''NAME=a b'' @ [CHR 0x22] @ '' -m x.map'') = [''-D'', ''NAME=a b'', ''-m'', ''x.map'']"
proof -
  have "\<forall>t \<in> set [''-D'', ''NAME=a b'', ''-m'', ''x.map'']. arg_ok t" by code_simp
  from tokenize_written_args [OF this] show ?thesis
    by (simp add: write_args_def write_arg_def blank_def)
qed

section \<open>Where the driver fails\<close>

text \<open>A world of modification times in which a successful compiler run renews the outputs.\<close>

type_synonym clocked = "(string \<times> int) list \<times> int"

definition touch_spawn :: "clocked spawner" where
  "touch_spawn argv = (\<lambda>(times, now).
     (Exited 0,
      if hd argv = ''./nib'' then
        ((replace_ext (argv ! 1) ''.nir'' 256, now) # (replace_ext (argv ! 1) ''.nif'' 256, now) # times, now + 1)
      else (times, now)))"

definition lib_files :: "(string \<times> string) list" where
  "lib_files = [(''main.nib'', str_file ''lib.nif''), (''./lib.nib'', [])]"

definition clocked_fs :: "clocked \<Rightarrow> filesys" where
  "clocked_fs w = \<lparr>fopen_r = map_of lib_files, stat_mtime = map_of (fst w)\<rparr>"

definition edited_lib :: clocked where
  "edited_lib = ([(''main.nib'', 1), (''main.nir'', 3), (''main.nif'', 3),
     (''./lib.nib'', 5), (''./lib.nir'', 2), (''./lib.nif'', 2)], 9)"

definition build_once :: "clocked \<Rightarrow> string list list \<times> clocked" where
  "build_once w =
     (case build_main touch_spawn (clocked_fs w) 5 [''nibbuild'', ''main.nib''] w of
        Inl e \<Rightarrow> ([], w) | Inr (rc, w', cmds) \<Rightarrow> (cmds, w'))"

text \<open>
  What is out of date is decided before anything is compiled. After a change of a library
  the first build compiles only the library and links it with code compiled against the old
  interface; only a second build, with no further change, compiles the module that uses it.
\<close>

theorem dependents_left_stale:
  "map hd (fst (build_once edited_lib)) = [''./nib'', ''./nibbind'', ''./nibasm''] \<and>
   hd (fst (build_once edited_lib)) = [''./nib'', ''./lib.nib''] \<and>
   hd (fst (build_once (snd (build_once edited_lib)))) = [''./nib'', ''main.nib'']"
  by (intro conjI) code_simp+

text \<open>
  The path of a \<^verbatim>\<open>use\<close> line is copied to a buffer of 256 bytes without a check of
  its length: a longer path on a line that fits the line buffer overflows it.
\<close>

theorem long_use_path_overflows:
  assumes "256 \<le> length p" and "length p \<le> 504" and "CHR 0x22 \<notin> set p" and "CHR 0x0A \<notin> set p"
    and "fopen_r fs (take 255 root) = Some (str_file p)"
  shows "add_module_f fs (Suc n) root [] = Inl Buffer_overflow"
proof -
  have line: "fgets_one 511 (str_file p) = str_file p"
    using assms(2,4) by (simp add: fgets_one_def str_file_def Let_def takeWhile_until)
  have "str_file p \<noteq> []" by (simp add: str_file_def)
  then have "fgets_all 512 (str_file p) = [str_file p]"
    by (subst fgets_all.simps) (simp add: line fgets_all.simps)
  moreover have "use_target (str_file p) = Some p"
    using assms(3) by (simp add: use_target_def str_file_def strneq_def blank_def Let_def takeWhile_until)
  ultimately have "uses_of fs (nib_path (new_module root)) = [p]"
    by (simp add: uses_of_def new_module_def assms(5) List.map_filter_simps)
  with assms(1) show ?thesis by (simp add: Let_def)
qed

theorem long_use_path_overflows_witness:
  "add_module_f \<lparr>fopen_r = (\<lambda>_. Some (str_file (replicate 300 (CHR ''a'')))), stat_mtime = (\<lambda>_. Some 1)\<rparr>
     (Suc 0) ''m.nib'' [] = Inl Buffer_overflow"
  using long_use_path_overflows [of "replicate 300 (CHR ''a'')"] by simp

end
