(* ===== verification/Bind_VSet.thy ===== *)
theory Bind_VSet
  imports Nib_Prelude
begin

text \<open>
  The sets of virtual registers of the binder (\<^verbatim>\<open>vset_*\<close> of \<^verbatim>\<open>src/bind.c\<close>): bit
  sets in arrays of 64-bit words, and the loop \<^verbatim>\<open>while (bits)\<close> that visits the members of a
  word from the lowest bit upwards. The locale states what the analyses rely on; the bit sets
  implement it.
\<close>

section \<open>Operations\<close>

type_synonym vset = "64 word list"

definition vset_set :: "vset \<Rightarrow> nat \<Rightarrow> vset" where
  "vset_set s v = s[v div 64 := (s ! (v div 64)) OR push_bit (v mod 64) 1]"

definition vset_clear :: "vset \<Rightarrow> nat \<Rightarrow> vset" where
  "vset_clear s v = s[v div 64 := (s ! (v div 64)) AND NOT (push_bit (v mod 64) 1)]"

definition vset_test :: "vset \<Rightarrow> nat \<Rightarrow> bool" where
  "vset_test s v \<longleftrightarrow> drop_bit (v mod 64) (s ! (v div 64)) AND 1 \<noteq> 0"

definition vset_zero :: "nat \<Rightarrow> vset" where
  "vset_zero nwords = replicate nwords 0"

definition vset_or :: "vset \<Rightarrow> vset \<Rightarrow> vset" where
  "vset_or dst src = map2 (OR) dst src"

definition vset_diff :: "vset \<Rightarrow> vset \<Rightarrow> vset" where
  "vset_diff a b = map2 (\<lambda>x y. x AND NOT y) a b"

definition vset_equal :: "vset \<Rightarrow> vset \<Rightarrow> bool" where
  "vset_equal a b \<longleftrightarrow> list_all2 (=) a b"

section \<open>Visiting the members\<close>

text \<open>\<^verbatim>\<open>__builtin_ctzll(bits)\<close> for \<^verbatim>\<open>bits != 0\<close>: the number of trailing zeros.\<close>

definition ctz :: "64 word \<Rightarrow> nat" where
  "ctz w = length (takeWhile (\<lambda>i. \<not> bit w i) [0..<64])"

lemma ctz_bit:
  assumes "w \<noteq> 0"
  shows "ctz w < 64" and "bit w (ctz w)" and "\<And>i. i < ctz w \<Longrightarrow> \<not> bit w i"
proof -
  let ?t = "takeWhile (\<lambda>i. \<not> bit w i) [0..<64]"
  from assms obtain n where n: "n < 64" "bit w n"
    using bit_eq_iff [of w 0] bit_imp_le_length [of w] by auto
  have "length ?t \<noteq> length [0..<64::nat]"
  proof
    assume "length ?t = length [0..<64::nat]"
    then have "?t = [0..<64]" by (metis takeWhile_eq_take take_all_iff order_refl)
    then have "\<forall>i \<in> set [0..<64]. \<not> bit w i" by (simp only: takeWhile_eq_all_conv)
    with n show False by auto
  qed
  moreover have "length ?t \<le> length [0..<64::nat]" by (rule length_takeWhile_le)
  ultimately show lt: "ctz w < 64" by (simp add: ctz_def)
  have "\<not> \<not> bit w ([0..<64] ! length ?t)"
    using nth_length_takeWhile [of "\<lambda>i. \<not> bit w i" "[0..<64]"] lt by (simp add: ctz_def)
  then show "bit w (ctz w)" using lt by (simp add: ctz_def)
  show "\<not> bit w i" if "i < ctz w" for i
  proof -
    have "?t ! i \<in> set ?t" using that by (intro nth_mem) (simp add: ctz_def)
    moreover have "?t ! i = [0..<64] ! i" using that by (intro takeWhile_nth) (simp add: ctz_def)
    moreover have "[0..<64] ! i = i" using that lt by simp
    ultimately show ?thesis using set_takeWhileD by fastforce
  qed
qed

text \<open>\<^verbatim>\<open>bits & (bits - 1)\<close> clears exactly the lowest bit that is set.\<close>

lemma bit_minus_one_above:
  assumes "bit w k" and "\<And>i. i < k \<Longrightarrow> \<not> bit w i"
  shows "bit (w - 1 :: 64 word) i \<longleftrightarrow> i < k \<or> (k < i \<and> bit w i)"
proof -
  have k: "k < 64" using assms(1) bit_imp_le_length by fastforce
  define m :: "64 word" where "m = mask k"
  define h where "h = w AND NOT (push_bit k 1)"
  have "w = h OR push_bit k 1"
    by (rule bit_word_eqI) (use assms(1) in \<open>auto simp: h_def bit_simps\<close>)
  also have "\<dots> = h + push_bit k 1"
    by (rule disjunctive_add [symmetric]) (auto simp: h_def bit_simps)
  finally have w: "w = h + push_bit k 1" .
  have "w - 1 = h + m" by (simp add: w m_def mask_eq_exp_minus_1 push_bit_eq_mult)
  also have "\<dots> = h OR m"
    by (rule disjunctive_add) (use assms(2) in \<open>auto simp: h_def m_def bit_simps\<close>)
  finally have "w - 1 = h OR m" .
  then show ?thesis
    using k assms(2) bit_imp_le_length [of w i]
    by (auto simp: h_def m_def bit_simps)
qed

lemma bit_clear_lowest:
  fixes w :: "64 word"
  assumes "w \<noteq> 0"
  shows "bit (w AND (w - 1)) i \<longleftrightarrow> bit w i \<and> i \<noteq> ctz w"
proof -
  note c = ctz_bit [OF assms]
  show ?thesis
    using bit_minus_one_above [OF c(2,3), of i] c(3) [of i] by (auto simp: bit_and_iff)
qed

lemma clear_lowest_less: "(w :: 64 word) \<noteq> 0 \<Longrightarrow> card {i. i < 64 \<and> bit (w AND (w - 1)) i} < card {i. i < 64 \<and> bit w i}"
  using ctz_bit [of w] by (intro psubset_card_mono) (auto simp: bit_clear_lowest)

function word_members :: "64 word \<Rightarrow> nat list" where
  "word_members bits = (if bits = 0 then [] else ctz bits # word_members (bits AND (bits - 1)))"
  by pat_completeness auto
termination
  by (relation "measure (\<lambda>w. card {i. i < 64 \<and> bit w i})") (auto simp: clear_lowest_less)

declare word_members.simps [simp del]

text \<open>The members of all the words, in increasing order.\<close>

definition vset_members :: "vset \<Rightarrow> nat list" where
  "vset_members s = concat (map (\<lambda>w. map (\<lambda>b. w * 64 + b) (word_members (s ! w))) [0..<length s])"

lemma set_word_members: "set (word_members w) = {i. bit w i}"
proof (induction w rule: word_members.induct)
  case (1 w)
  show ?case
  proof (cases "w = 0")
    case True
    then show ?thesis by (simp add: word_members.simps)
  next
    case False
    with 1 have "set (word_members w) = insert (ctz w) {i. bit (w AND (w - 1)) i}"
      by (subst word_members.simps) simp
    then show ?thesis using False ctz_bit [of w] by (auto simp: bit_clear_lowest)
  qed
qed

lemma distinct_word_members: "distinct (word_members w)"
proof (induction w rule: word_members.induct)
  case (1 w)
  then show ?case
    by (subst word_members.simps) (auto simp: set_word_members bit_clear_lowest)
qed

section \<open>The interface\<close>

text \<open>A set of numbers below a capacity of \<open>k\<close> words: what the analyses rely on.\<close>

locale vreg_set =
  fixes elems :: "'s \<Rightarrow> nat set"
    and fits :: "nat \<Rightarrow> 's \<Rightarrow> bool"
    and zero :: "nat \<Rightarrow> 's"
    and ins :: "'s \<Rightarrow> nat \<Rightarrow> 's"
    and del :: "'s \<Rightarrow> nat \<Rightarrow> 's"
    and mem :: "'s \<Rightarrow> nat \<Rightarrow> bool"
    and union :: "'s \<Rightarrow> 's \<Rightarrow> 's"
    and minus_set :: "'s \<Rightarrow> 's \<Rightarrow> 's"
    and same :: "'s \<Rightarrow> 's \<Rightarrow> bool"
    and members :: "'s \<Rightarrow> nat list"
  assumes zero: "fits k (zero k)" "elems (zero k) = {}"
    and fits_range: "fits k s \<Longrightarrow> elems s \<subseteq> {..<64 * k}"
    and ins: "fits k s \<Longrightarrow> v < 64 * k \<Longrightarrow> fits k (ins s v) \<and> elems (ins s v) = insert v (elems s)"
    and del: "fits k s \<Longrightarrow> v < 64 * k \<Longrightarrow> fits k (del s v) \<and> elems (del s v) = elems s - {v}"
    and mem: "fits k s \<Longrightarrow> v < 64 * k \<Longrightarrow> mem s v \<longleftrightarrow> v \<in> elems s"
    and union: "fits k s \<Longrightarrow> fits k t \<Longrightarrow> fits k (union s t) \<and> elems (union s t) = elems s \<union> elems t"
    and minus_set: "fits k s \<Longrightarrow> fits k t \<Longrightarrow> fits k (minus_set s t) \<and> elems (minus_set s t) = elems s - elems t"
    and same: "fits k s \<Longrightarrow> fits k t \<Longrightarrow> same s t \<longleftrightarrow> elems s = elems t"
    and members: "fits k s \<Longrightarrow> set (members s) = elems s \<and> distinct (members s)"
begin

lemma ins_all:
  "fits k s \<Longrightarrow> \<forall>v \<in> set vs. v < 64 * k \<Longrightarrow>
   fits k (fold (\<lambda>v s. ins s v) vs s) \<and> elems (fold (\<lambda>v s. ins s v) vs s) = elems s \<union> set vs"
proof (induction vs arbitrary: s)
  case (Cons v vs)
  then show ?case using ins [of k s v] by auto
qed simp

lemma del_all:
  "fits k s \<Longrightarrow> \<forall>v \<in> set vs. v < 64 * k \<Longrightarrow>
   fits k (fold (\<lambda>v s. del s v) vs s) \<and> elems (fold (\<lambda>v s. del s v) vs s) = elems s - set vs"
proof (induction vs arbitrary: s)
  case (Cons v vs)
  then show ?case using del [of k s v] by auto
qed simp

lemma union_all:
  "fits k s \<Longrightarrow> \<forall>t \<in> set ts. fits k t \<Longrightarrow>
   fits k (fold (\<lambda>t s. union s t) ts s) \<and> elems (fold (\<lambda>t s. union s t) ts s) = elems s \<union> \<Union> (elems ` set ts)"
proof (induction ts arbitrary: s)
  case (Cons t ts)
  then show ?case using union [of k s t] by auto
qed simp

end

section \<open>The bit sets implement the interface\<close>

definition vset_elems :: "vset \<Rightarrow> nat set" where
  "vset_elems s = {v. v < 64 * length s \<and> bit (s ! (v div 64)) (v mod 64)}"

definition vset_fits :: "nat \<Rightarrow> vset \<Rightarrow> bool" where
  "vset_fits k s \<longleftrightarrow> length s = k"

lemma div_less_words: "v < 64 * k \<Longrightarrow> v div 64 < (k :: nat)"
  by (simp add: less_mult_imp_div_less mult.commute)

lemma vset_test_bit: "vset_test s v \<longleftrightarrow> bit (s ! (v div 64)) (v mod 64)"
proof -
  have "w AND 1 \<noteq> 0 \<longleftrightarrow> odd w" for w :: "64 word"
    by (simp add: and_one_eq mod2_eq_if)
  then show ?thesis by (simp add: vset_test_def bit_iff_odd_drop_bit)
qed

lemma bit_one_at: "bit (2 ^ (v mod 64) :: 64 word) i \<longleftrightarrow> i = v mod 64"
  by (auto simp: bit_exp_iff)

lemma same_word_bit: "v div 64 = u div 64 \<Longrightarrow> u mod 64 = v mod 64 \<longleftrightarrow> u = (v :: nat)"
  by (metis div_mult_mod_eq)

lemma vset_elems_set: "v < 64 * length s \<Longrightarrow> vset_elems (vset_set s v) = insert v (vset_elems s)"
  by (auto simp: vset_elems_def vset_set_def nth_list_update bit_or_iff bit_one_at same_word_bit div_less_words
      split: if_splits)

lemma vset_elems_clear: "v < 64 * length s \<Longrightarrow> vset_elems (vset_clear s v) = vset_elems s - {v}"
  by (auto simp: vset_elems_def vset_clear_def nth_list_update bit_and_iff bit_not_iff bit_one_at same_word_bit
      div_less_words split: if_splits)

lemma vset_elems_or:
  "length s = length t \<Longrightarrow> vset_elems (vset_or s t) = vset_elems s \<union> vset_elems t"
  by (auto simp: vset_elems_def vset_or_def bit_or_iff div_less_words)

lemma vset_elems_diff:
  "length s = length t \<Longrightarrow> vset_elems (vset_diff s t) = vset_elems s - vset_elems t"
  by (auto simp: vset_elems_def vset_diff_def bit_and_iff bit_not_iff div_less_words)

lemma vset_elems_eq:
  assumes len: "length s = length t" and eq: "vset_elems s = vset_elems t"
  shows "s = t"
proof (rule nth_equalityI [OF len])
  fix w assume w: "w < length s"
  show "s ! w = t ! w"
  proof (rule bit_word_eqI)
    fix b :: nat assume "b < LENGTH(64)"
    then have b: "b < 64" by simp
    let ?v = "w * 64 + b"
    have "?v \<in> vset_elems s \<longleftrightarrow> ?v \<in> vset_elems t" using eq by simp
    moreover have "?v < 64 * length s" using w b by linarith
    ultimately show "bit (s ! w) b \<longleftrightarrow> bit (t ! w) b" using b len by (simp add: vset_elems_def)
  qed
qed

lemma set_vset_members: "set (vset_members s) = vset_elems s"
proof
  show "set (vset_members s) \<subseteq> vset_elems s"
  proof
    fix v assume "v \<in> set (vset_members s)"
    then obtain w b where wb: "v = w * 64 + b" "w < length s" "bit (s ! w) b"
      by (auto simp: vset_members_def set_word_members)
    then have "b < 64" using bit_imp_le_length by fastforce
    with wb show "v \<in> vset_elems s" by (simp add: vset_elems_def)
  qed
  show "vset_elems s \<subseteq> set (vset_members s)"
  proof
    fix v assume "v \<in> vset_elems s"
    then have "v div 64 < length s" "bit (s ! (v div 64)) (v mod 64)" "v = v div 64 * 64 + v mod 64"
      by (auto simp: vset_elems_def div_less_words)
    then have "v \<in> (\<lambda>b. v div 64 * 64 + b) ` set (word_members (s ! (v div 64)))"
      by (intro image_eqI [of _ _ "v mod 64"]) (simp_all add: set_word_members)
    with \<open>v div 64 < length s\<close> show "v \<in> set (vset_members s)"
      by (auto simp: vset_members_def intro!: bexI [of _ "v div 64"])
  qed
qed

lemma distinct_vset_members: "distinct (vset_members s)"
proof -
  have lt: "b < 64" if "b \<in> set (word_members w)" for b w
    using that bit_imp_le_length by (fastforce simp: set_word_members)
  have "distinct (concat (map (\<lambda>w. map (\<lambda>b. w * 64 + b) (word_members (s ! w))) ws))"
    if "distinct ws" for ws
    using that
  proof (induction ws)
    case (Cons w ws)
    have at: "v div 64 = w" if "v \<in> set (map (\<lambda>b. w * 64 + b) (word_members (s ! w)))" for v w
      using that lt by auto
    have "set (map (\<lambda>b. w * 64 + b) (word_members (s ! w))) \<inter>
        set (concat (map (\<lambda>w. map (\<lambda>b. w * 64 + b) (word_members (s ! w))) ws)) = {}"
    proof (intro equals0I, elim IntE)
      fix v
      assume v: "v \<in> set (map (\<lambda>b. w * 64 + b) (word_members (s ! w)))"
        and "v \<in> set (concat (map (\<lambda>w. map (\<lambda>b. w * 64 + b) (word_members (s ! w))) ws))"
      then obtain w' where "w' \<in> set ws" "v \<in> set (map (\<lambda>b. w' * 64 + b) (word_members (s ! w')))"
        by auto
      with at [OF v] at [of v w'] Cons.prems show False by auto
    qed
    moreover have "distinct (map (\<lambda>b. w * 64 + b) (word_members (s ! w)))"
      by (simp add: distinct_map distinct_word_members)
    ultimately show ?case using Cons by simp
  qed simp
  then show ?thesis by (simp add: vset_members_def)
qed

interpretation vs: vreg_set vset_elems vset_fits vset_zero vset_set vset_clear vset_test vset_or vset_diff
    vset_equal vset_members
proof unfold_locales
  show "vset_elems (vset_zero k) = {}" for k
    by (auto simp: vset_elems_def vset_zero_def div_less_words)
  show "vset_fits k s \<Longrightarrow> v < 64 * k \<Longrightarrow> vset_fits k (vset_set s v) \<and> vset_elems (vset_set s v) = insert v (vset_elems s)"
    for k s v by (auto simp: vset_fits_def vset_elems_set) (simp add: vset_set_def)
  show "vset_fits k s \<Longrightarrow> v < 64 * k \<Longrightarrow> vset_fits k (vset_clear s v) \<and> vset_elems (vset_clear s v) = vset_elems s - {v}"
    for k s v by (simp add: vset_fits_def vset_elems_clear) (simp add: vset_clear_def)
  show "vset_fits k s \<Longrightarrow> vset_fits k t \<Longrightarrow>
      vset_fits k (vset_or s t) \<and> vset_elems (vset_or s t) = vset_elems s \<union> vset_elems t" for k s t
    by (simp add: vset_fits_def vset_elems_or) (simp add: vset_or_def)
  show "vset_fits k s \<Longrightarrow> vset_fits k t \<Longrightarrow>
      vset_fits k (vset_diff s t) \<and> vset_elems (vset_diff s t) = vset_elems s - vset_elems t" for k s t
    by (simp add: vset_fits_def vset_elems_diff) (simp add: vset_diff_def)
  show "vset_fits k s \<Longrightarrow> vset_fits k t \<Longrightarrow> vset_equal s t \<longleftrightarrow> vset_elems s = vset_elems t" for k s t
    using vset_elems_eq [of s t] by (auto simp: vset_fits_def vset_equal_def list_all2_eq [symmetric])
  show "vset_fits k s \<Longrightarrow> set (vset_members s) = vset_elems s \<and> distinct (vset_members s)" for k s
    by (simp add: set_vset_members distinct_vset_members)
qed (auto simp: vset_fits_def vset_zero_def vset_elems_def vset_test_bit)

end
