(* ===== verification/Bind_IR.thy ===== *)
theory Bind_IR
  imports Bind_VSet
begin

text \<open>
  The data of the binder, \<^verbatim>\<open>src/bind.c\<close>: the physical registers and how they overlap, the
  intermediate representation, the virtual registers, and the control-flow graph that
  \<^verbatim>\<open>build_cfg\<close> makes of a function. Registers keep their numbers; the structures have the
  fields that the analyses of this development read or write.
\<close>

section \<open>Physical registers\<close>

definition preg_name :: "string list" where
  "preg_name =
     [''AX'', ''CX'', ''DX'', ''BX'', ''SP'', ''BP'', ''SI'', ''DI'',
      ''AL'', ''CL'', ''DL'', ''BL'', ''AH'', ''CH'', ''DH'', ''BH'',
      ''ES'', ''CS'', ''SS'', ''DS'', ''FLAGS'']"

abbreviation (input) PREG_NONE :: int where "PREG_NONE \<equiv> -1"
abbreviation (input) PREG_AX :: int where "PREG_AX \<equiv> 0"
abbreviation (input) PREG_CX :: int where "PREG_CX \<equiv> 1"
abbreviation (input) PREG_DX :: int where "PREG_DX \<equiv> 2"
abbreviation (input) PREG_BX :: int where "PREG_BX \<equiv> 3"
abbreviation (input) PREG_SP :: int where "PREG_SP \<equiv> 4"
abbreviation (input) PREG_BP :: int where "PREG_BP \<equiv> 5"
abbreviation (input) PREG_SI :: int where "PREG_SI \<equiv> 6"
abbreviation (input) PREG_DI :: int where "PREG_DI \<equiv> 7"
abbreviation (input) PREG_AL :: int where "PREG_AL \<equiv> 8"
abbreviation (input) PREG_CL :: int where "PREG_CL \<equiv> 9"
abbreviation (input) PREG_DL :: int where "PREG_DL \<equiv> 10"
abbreviation (input) PREG_BL :: int where "PREG_BL \<equiv> 11"
abbreviation (input) PREG_AH :: int where "PREG_AH \<equiv> 12"
abbreviation (input) PREG_CH :: int where "PREG_CH \<equiv> 13"
abbreviation (input) PREG_DH :: int where "PREG_DH \<equiv> 14"
abbreviation (input) PREG_BH :: int where "PREG_BH \<equiv> 15"
abbreviation (input) PREG_ES :: int where "PREG_ES \<equiv> 16"
abbreviation (input) PREG_DS :: int where "PREG_DS \<equiv> 19"
abbreviation (input) NUM_PREGS :: nat where "NUM_PREGS \<equiv> 21"

text \<open>The halves of \<open>a < 4\<close> and the word of a byte register.\<close>

definition preg_alias_lo :: "int \<Rightarrow> int" where
  "preg_alias_lo a = [PREG_AL, PREG_CL, PREG_DL, PREG_BL] ! nat a"

definition preg_alias_hi :: "int \<Rightarrow> int" where
  "preg_alias_hi a = [PREG_AH, PREG_CH, PREG_DH, PREG_BH] ! nat a"

definition preg_alias_parent :: "int \<Rightarrow> int" where
  "preg_alias_parent a =
     [PREG_AX, PREG_CX, PREG_DX, PREG_BX, PREG_AX, PREG_CX, PREG_DX, PREG_BX] ! nat (a - PREG_AL)"

definition pregs_alias :: "int \<Rightarrow> int \<Rightarrow> bool" where
  "pregs_alias a b =
     (if a < 0 \<or> b < 0 then False
      else if a = b then True
      else if a < 4 \<and> (b = preg_alias_lo a \<or> b = preg_alias_hi a) then True
      else if b < 4 \<and> (a = preg_alias_lo b \<or> a = preg_alias_hi b) then True
      else False)"

definition preg_write_clobbers :: "int \<Rightarrow> int \<Rightarrow> bool" where
  "preg_write_clobbers wr liv =
     (if wr < 0 \<or> liv < 0 then False
      else if wr = liv then True
      else if wr \<ge> PREG_AX \<and> wr \<le> PREG_BX then liv = preg_alias_lo wr \<or> liv = preg_alias_hi wr
      else if wr \<ge> PREG_AL \<and> wr \<le> PREG_BH then liv = preg_alias_parent wr
      else False)"

definition parse_preg :: "string \<Rightarrow> int" where
  "parse_preg s =
     (let hits = filter (\<lambda>i. strcaseeq s (preg_name ! i)) [0..<NUM_PREGS]
      in if hits = [] then PREG_NONE else int (hd hits))"

text \<open>The bits of the machine that a register covers: byte \<open>2r\<close> and \<open>2r + 1\<close> for the word
  register \<open>r\<close>. Overlap of these sets is what aliasing means.\<close>

definition preg_bytes :: "int \<Rightarrow> int set" where
  "preg_bytes r =
     (if r < 0 then {}
      else if PREG_AL \<le> r \<and> r \<le> PREG_BL then {2 * (r - 8)}
      else if PREG_AH \<le> r \<and> r \<le> PREG_BH then {2 * (r - 12) + 1}
      else {2 * r, 2 * r + 1})"

lemma pregs_alias_overlap:
  assumes "a < int NUM_PREGS" "b < int NUM_PREGS"
  shows "pregs_alias a b \<longleftrightarrow> preg_bytes a \<inter> preg_bytes b \<noteq> {}"
proof (cases "a < 0 \<or> b < 0")
  case True
  then show ?thesis by (auto simp: pregs_alias_def preg_bytes_def)
next
  case False
  have "\<forall>a \<in> set [0..20]. \<forall>b \<in> set [0..20]. pregs_alias a b \<longleftrightarrow> preg_bytes a \<inter> preg_bytes b \<noteq> {}"
    by code_simp
  with False assms show ?thesis by fastforce
qed

lemma write_clobbers_alias:
  assumes "a < int NUM_PREGS" "b < int NUM_PREGS"
  shows "preg_write_clobbers a b \<longleftrightarrow> pregs_alias a b"
proof (cases "a < 0 \<or> b < 0")
  case True
  then show ?thesis by (auto simp: pregs_alias_def preg_write_clobbers_def)
next
  case False
  have "\<forall>a \<in> set [0..20]. \<forall>b \<in> set [0..20]. preg_write_clobbers a b \<longleftrightarrow> pregs_alias a b"
    by code_simp
  with False assms show ?thesis by fastforce
qed

lemma pregs_alias_sym: "pregs_alias a b \<Longrightarrow> pregs_alias b a"
  by (auto simp: pregs_alias_def split: if_splits)

section \<open>Intermediate representation\<close>

datatype ir_op =
    IR_MOV | IR_ALU | IR_UNARY | IR_CMP | IR_JZ | IR_JMP | IR_CALL | IR_MCALL | IR_ICALL | IR_NCALL
  | IR_TAILCALL | IR_NTAILCALL | IR_GOTO_FN | IR_CJMP | IR_RET | IR_RETVAL | IR_LOAD | IR_STORE
  | IR_LOADMEM | IR_STOREMEM | IR_FIELD | IR_STOREFIELD | IR_BOUND | IR_SETFLAG | IR_GETFLAG
  | IR_TOGGLEFLAG | IR_ASSUME | IR_LOOP | IR_BREAK | IR_CONTINUE | IR_FAR_LIT | IR_LEA
  | IR_FRAME_ENTER | IR_FRAME_LEAVE | IR_ASM | IR_PREFER | IR_LABEL | IR_NOP

record ir_insn =
  op :: ir_op
  dst :: int
  src1 :: int
  src2 :: int
  extra_args :: "int list"
  nargs :: int
  ret_vregs :: "int list"
  nrets :: int
  imm :: int
  has_imm :: bool
  iname :: string
  asm_body :: string
  asm_ann :: string
  asm_is_block :: bool
  ins_line :: int
  ins_src_file :: string
  mem_seg :: int
  mem_disp :: int
  has_mem_disp :: bool

text \<open>A fresh instruction as \<^verbatim>\<open>fn_push_insn\<close> leaves it; opcode 0 is \<^verbatim>\<open>IR_MOV\<close>.\<close>

definition ir_insn0 :: ir_insn where
  "ir_insn0 = \<lparr>op = IR_MOV, dst = -1, src1 = -1, src2 = -1, extra_args = [], nargs = 0, ret_vregs = [], nrets = 0,
     imm = 0, has_imm = False, iname = [], asm_body = [], asm_ann = [], asm_is_block = False,
     ins_line = 0, ins_src_file = [], mem_seg = PREG_NONE, mem_disp = 0, has_mem_disp = False\<rparr>"

definition ins_extra_arg :: "ir_insn \<Rightarrow> int \<Rightarrow> int" where
  "ins_extra_arg ins idx =
     (if idx < 0 \<or> idx \<ge> int (length (extra_args ins)) then -1 else extra_args ins ! nat idx)"

definition ins_ret_vreg :: "ir_insn \<Rightarrow> int \<Rightarrow> int" where
  "ins_ret_vreg ins idx =
     (if idx < 0 \<or> idx \<ge> int (length (ret_vregs ins)) then -1 else ret_vregs ins ! nat idx)"

definition insn_defines_dst :: "ir_insn \<Rightarrow> bool" where
  "insn_defines_dst ins =
     (if dst ins < 0 then False
      else if op ins = IR_STORE \<or> op ins = IR_STOREMEM \<or> op ins = IR_STOREFIELD then False
      else if op ins = IR_ALU \<and>
              (iname ins = ''out'' \<or> iname ins = ''outb'' \<or> iname ins = ''bins'' \<or> iname ins = ''stos'')
      then False
      else True)"

definition insn_reads_dst :: "ir_insn \<Rightarrow> bool" where
  "insn_reads_dst ins \<longleftrightarrow> dst ins \<ge> 0 \<and> \<not> insn_defines_dst ins"

datatype remat_kind = REMAT_NONE | REMAT_IMM | REMAT_LABEL | REMAT_SEG_LABEL

datatype ds_policy = DS_POLICY_UNSPEC | DS_POLICY_CALLER | DS_POLICY_NONE | DS_POLICY_SYMBOL | DS_POLICY_LITERAL

datatype abi_place = ABI_PLACE_DEFAULT | ABI_PLACE_REGISTER | ABI_PLACE_STACK

record vreg_info =
  preferred :: int
  fixed :: bool
  is_byte :: bool
  is_seg :: bool
  needs_addressable :: bool
  needs_base :: bool
  needs_index :: bool
  needs_ds_addr :: bool
  needs_cl :: bool
  is_const :: bool
  remat :: remat_kind
  remat_imm :: int
  remat_label :: string
  use_count :: int
  in_loop :: bool
  is_cs_ref :: bool
  data_label :: string
  is_local_slot :: bool
  local_bytes :: int
  local_offset :: int
  is_stack_home :: bool
  stack_offset :: int
  affinity :: "int list"
  assigned :: int
  spill_slot :: int
  spill_byte_offset :: int
  sibling_byte_group :: int
  sibling_byte_high :: bool
  stack_spill_eligible :: bool
  stack_spill_def :: int
  stack_spill_use :: int
  def_pos :: int
  last_use :: int

definition init_vreg_info :: vreg_info where
  "init_vreg_info = \<lparr>preferred = PREG_NONE, fixed = False, is_byte = False, is_seg = False, needs_addressable = False,
     needs_base = False, needs_index = False, needs_ds_addr = False, needs_cl = False, is_const = False,
     remat = REMAT_NONE, remat_imm = 0, remat_label = [], use_count = 0, in_loop = False, is_cs_ref = False,
     data_label = [], is_local_slot = False, local_bytes = 0, local_offset = 0, is_stack_home = False, stack_offset = 0,
     affinity = replicate NUM_PREGS 0, assigned = PREG_NONE, spill_slot = -1, spill_byte_offset = 0,
     sibling_byte_group = -1, sibling_byte_high = False, stack_spill_eligible = False,
     stack_spill_def = -1, stack_spill_use = -1, def_pos = -1, last_use = -1\<rparr>"

record bblock =
  bstart :: nat
  bend :: nat
  succs :: "nat list"
  preds :: "nat list"
  live_in :: vset
  live_out :: vset
  defs :: vset
  uses :: vset

record func =
  fn_name :: string
  fn_module :: string
  is_pub :: bool
  is_far :: bool
  is_interrupt :: bool
  is_bare :: bool
  fn_has_at :: bool
  fn_at_seg :: int
  fn_at_off :: int
  ds_policy :: ds_policy
  ds_symbol :: string
  ds_literal :: int
  insns :: "ir_insn list"
  vregs :: "vreg_info list"
  param_vregs :: "int list"
  param_places :: "abi_place list"
  param_pins :: "int list"
  param_names :: "string list"
  has_return :: bool
  return_types :: "string list"
  ret_pins :: "int list"
  ret_places :: "abi_place list"
  blocks :: "bblock list"
  vset_words :: nat
  igraph :: "vset list"
  degree :: "int list"
  needs_frame :: bool
  needs_call_temp :: bool
  call_temp_off :: int
  nspill_slots :: int
  nsibling_byte_groups :: int
  ncl_fixups :: int
  local_size :: int
  frame_size :: int
  fn_preserves :: "int list"

definition new_func :: func where
  "new_func = \<lparr>fn_name = [], fn_module = [], is_pub = False, is_far = False, is_interrupt = False, is_bare = False,
     fn_has_at = False, fn_at_seg = 0, fn_at_off = 0, ds_policy = DS_POLICY_UNSPEC, ds_symbol = [], ds_literal = 0, insns = [],
     vregs = [], param_vregs = [], param_places = [], param_pins = [], param_names = [], has_return = False, return_types = [],
     ret_pins = [], ret_places = [], blocks = [], vset_words = 0, igraph = [],
     degree = [], needs_frame = False, needs_call_temp = False, call_temp_off = 0, nspill_slots = 0,
     nsibling_byte_groups = 0, ncl_fixups = 0, local_size = 0, frame_size = 0, fn_preserves = []\<rparr>"

definition nvregs :: "func \<Rightarrow> nat" where
  "nvregs fn = length (vregs fn)"

section \<open>The control-flow graph\<close>

definition fn_prepare_vsets :: "func \<Rightarrow> func" where
  "fn_prepare_vsets fn =
     (let w = (nvregs fn + 63) div 64; w = (if w \<le> 0 then 1 else w)
      in fn\<lparr>vset_words := w, igraph := replicate (nvregs fn) (vset_zero w), degree := replicate (nvregs fn) 0\<rparr>)"

text \<open>The instructions after which a new block starts.\<close>

definition ends_block :: "ir_op \<Rightarrow> bool" where
  "ends_block t \<longleftrightarrow>
     t = IR_JMP \<or> t = IR_JZ \<or> t = IR_CJMP \<or> t = IR_RET \<or> t = IR_TAILCALL \<or> t = IR_NTAILCALL \<or>
     t = IR_GOTO_FN \<or> t = IR_LOOP"

definition is_leader :: "ir_insn list \<Rightarrow> nat \<Rightarrow> bool" where
  "is_leader is i \<longleftrightarrow> i = 0 \<or> op (is ! i) = IR_LABEL \<or> ends_block (op (is ! (i - 1)))"

text \<open>\<^verbatim>\<open>while (end < fn->ninsns && !is_leader[end]) end++;\<close>\<close>

function block_end :: "ir_insn list \<Rightarrow> nat \<Rightarrow> nat" where
  "block_end is e = (if e < length is \<and> \<not> is_leader is e then block_end is (e + 1) else e)"
  by pat_completeness auto
termination
  by (relation "measure (\<lambda>(is, e). length is - e)") auto

declare block_end.simps [simp del]

definition new_block :: "nat \<Rightarrow> nat \<Rightarrow> nat \<Rightarrow> bblock" where
  "new_block w s e = \<lparr>bstart = s, bend = e, succs = [], preds = [], live_in = vset_zero w,
     live_out = vset_zero w, defs = vset_zero w, uses = vset_zero w\<rparr>"

definition cut_blocks :: "nat \<Rightarrow> ir_insn list \<Rightarrow> bblock list" where
  "cut_blocks w is =
     map (\<lambda>i. new_block w i (block_end is (i + 1))) (filter (is_leader is) [0..<length is])"

text \<open>The first block that starts with the label.\<close>

definition label_block :: "ir_insn list \<Rightarrow> bblock list \<Rightarrow> string \<Rightarrow> nat list" where
  "label_block is bs target =
     take 1 (filter (\<lambda>t. op (is ! bstart (bs ! t)) = IR_LABEL \<and> iname (is ! bstart (bs ! t)) = target)
               [0..<length bs])"

definition block_succs :: "ir_insn list \<Rightarrow> bblock list \<Rightarrow> nat \<Rightarrow> nat list" where
  "block_succs is bs b =
     (let term = is ! (bend (bs ! b) - 1);
          next = (if b + 1 < length bs then [b + 1] else []);
          is_term = (op term = IR_JMP \<or> op term = IR_RET \<or> op term = IR_TAILCALL \<or>
                     op term = IR_NTAILCALL \<or> op term = IR_GOTO_FN)
      in if op term = IR_JZ \<or> op term = IR_CJMP \<or> op term = IR_LOOP
         then next @ label_block is bs (iname term)
         else if op term = IR_JMP then label_block is bs (iname term)
         else if \<not> is_term then next
         else [])"

text \<open>At most 16 predecessors are recorded.\<close>

definition block_preds :: "bblock list \<Rightarrow> nat \<Rightarrow> nat list" where
  "block_preds bs t =
     take 16 (concat (map (\<lambda>b. map (\<lambda>_. b) (filter (\<lambda>s. s = t) (succs (bs ! b)))) [0..<length bs]))"

definition connect_blocks :: "ir_insn list \<Rightarrow> bblock list \<Rightarrow> bblock list" where
  "connect_blocks is bs =
     (let bs1 = map (\<lambda>b. (bs ! b)\<lparr>succs := block_succs is bs b\<rparr>) [0..<length bs]
      in map (\<lambda>t. (bs1 ! t)\<lparr>preds := block_preds bs1 t\<rparr>) [0..<length bs1])"

definition build_cfg :: "func \<Rightarrow> func" where
  "build_cfg fn =
     (let fn = fn_prepare_vsets fn
      in fn\<lparr>blocks := connect_blocks (insns fn) (cut_blocks (vset_words fn) (insns fn))\<rparr>)"

end
