(* ===== verification/Bind_CFG.thy ===== *)
theory Bind_CFG
  imports Bind_IR
begin

text \<open>
  The control-flow graph of \<^verbatim>\<open>build_cfg\<close>: the blocks cut the instructions into
  consecutive pieces, and every step from one instruction to the next either stays inside a block
  or goes from the end of a block to the start of one of its successors.
\<close>

section \<open>Blocks\<close>

lemma block_end_ge: "e \<le> block_end is e"
  by (induction "is" e rule: block_end.induct) (subst block_end.simps, auto)

lemma block_end_le: "e \<le> length is \<Longrightarrow> block_end is e \<le> length is"
  by (induction "is" e rule: block_end.induct) (subst block_end.simps, auto)

lemma block_end_between: "e \<le> i \<Longrightarrow> i < block_end is e \<Longrightarrow> \<not> is_leader is i"
proof (induction "is" e rule: block_end.induct)
  case (1 "is" e)
  then show ?case
    by (cases "i = e") (auto simp: block_end.simps [of "is" e] split: if_splits)
qed

lemma block_end_leader: "block_end is e < length is \<Longrightarrow> is_leader is (block_end is e)"
  by (induction "is" e rule: block_end.induct) (subst (asm) block_end.simps, subst block_end.simps, auto split: if_splits)

definition starts :: "ir_insn list \<Rightarrow> nat list" where
  "starts is = filter (is_leader is) [0..<length is]"

lemma starts_sorted: "sorted_wrt (<) (starts is)"
  unfolding starts_def by (rule sorted_wrt_filter) simp

lemma starts_mem: "i \<in> set (starts is) \<longleftrightarrow> i < length is \<and> is_leader is i"
  by (auto simp: starts_def)

lemma starts_less: "k < m \<Longrightarrow> m < length (starts is) \<Longrightarrow> starts is ! k < starts is ! m"
  using starts_sorted sorted_wrt_nth_less by blast

lemma starts_less_iff:
  "k < length (starts is) \<Longrightarrow> m < length (starts is) \<Longrightarrow> starts is ! k < starts is ! m \<longleftrightarrow> k < m"
  using starts_less by (metis linorder_neqE_nat not_less_iff_gr_or_eq)

lemma block_end_next:
  assumes "k < length (starts is)"
  shows "block_end is (starts is ! k + 1) = (if k + 1 < length (starts is) then starts is ! (k + 1) else length is)"
proof -
  let ?i = "starts is ! k" and ?e = "block_end is (starts is ! k + 1)"
  have i: "?i < length is" using starts_mem nth_mem [OF assms] by blast
  then have le: "?e \<le> length is" by (intro block_end_le) simp
  have after: "m > k" if "m < length (starts is)" "starts is ! m \<ge> ?e" for m
    using that block_end_ge [of "?i + 1" "is"] starts_less_iff [OF assms that(1)] by simp
  have no: "m \<le> k" if "m < length (starts is)" "starts is ! m < ?e" for m
  proof (rule ccontr)
    assume "\<not> m \<le> k"
    then have "?i < starts is ! m" using starts_less that by simp
    then have "\<not> is_leader is (starts is ! m)"
      using block_end_between [of "?i + 1" "starts is ! m" "is"] that(2) by simp
    moreover have "is_leader is (starts is ! m)" using nth_mem [OF that(1)] by (simp add: starts_mem)
    ultimately show False by simp
  qed
  show ?thesis
  proof (cases "?e < length is")
    case True
    then have "?e \<in> set (starts is)" using block_end_leader by (simp add: starts_mem)
    then obtain m where m: "m < length (starts is)" "starts is ! m = ?e" by (auto simp: in_set_conv_nth)
    then have "m > k" using after by simp
    moreover have "\<not> k + 1 < m"
    proof
      assume "k + 1 < m"
      then have "starts is ! (k + 1) < ?e" using starts_less m by force
      then have "k + 1 \<le> k" using no [of "k + 1"] \<open>k + 1 < m\<close> m(1) by linarith
      then show False by simp
    qed
    ultimately have "m = k + 1" by simp
    with m show ?thesis by simp
  next
    case False
    then have "?e = length is" using le by simp
    moreover have "\<not> k + 1 < length (starts is)"
    proof
      assume k1: "k + 1 < length (starts is)"
      then have "starts is ! (k + 1) < length is" using nth_mem starts_mem by blast
      with no [OF k1] \<open>?e = length is\<close> show False by simp
    qed
    ultimately show ?thesis by simp
  qed
qed

lemma length_cut [simp]: "length (cut_blocks w is) = length (starts is)"
  by (simp add: cut_blocks_def starts_def)

lemma cut_nth: "k < length (starts is) \<Longrightarrow>
    cut_blocks w is ! k = new_block w (starts is ! k) (block_end is (starts is ! k + 1))"
  by (simp add: cut_blocks_def starts_def)

text \<open>What the analyses use of the blocks.\<close>

definition cfg_ok :: "ir_insn list \<Rightarrow> bblock list \<Rightarrow> bool" where
  "cfg_ok is bs \<longleftrightarrow>
     (is \<noteq> [] \<longrightarrow> bs \<noteq> [] \<and> bstart (hd bs) = 0 \<and> bend (last bs) = length is) \<and>
     (\<forall>b < length bs. bstart (bs ! b) < bend (bs ! b) \<and> bend (bs ! b) \<le> length is) \<and>
     (\<forall>b. b + 1 < length bs \<longrightarrow> bend (bs ! b) = bstart (bs ! (b + 1))) \<and>
     (\<forall>b < length bs. \<forall>s \<in> set (succs (bs ! b)). s < length bs)"

definition same_cut :: "bblock list \<Rightarrow> bblock list \<Rightarrow> bool" where
  "same_cut bs bs' \<longleftrightarrow> map (\<lambda>b. (bstart b, bend b)) bs = map (\<lambda>b. (bstart b, bend b)) bs'"

lemma connect_same_cut: "same_cut (connect_blocks is bs) bs"
  unfolding same_cut_def by (rule nth_equalityI) (simp_all add: connect_blocks_def Let_def)

lemma length_connect [simp]: "length (connect_blocks is bs) = length bs"
  by (simp add: connect_blocks_def Let_def)

lemma connect_fields:
  "b < length bs \<Longrightarrow> bstart (connect_blocks is bs ! b) = bstart (bs ! b)"
  "b < length bs \<Longrightarrow> bend (connect_blocks is bs ! b) = bend (bs ! b)"
  "b < length bs \<Longrightarrow> succs (connect_blocks is bs ! b) = block_succs is bs b"
  by (simp_all add: connect_blocks_def Let_def)

lemma label_block_range: "t \<in> set (label_block is bs n) \<Longrightarrow> t < length bs"
  by (auto simp: label_block_def dest: in_set_takeD)

lemma block_succs_range: "b < length bs \<Longrightarrow> s \<in> set (block_succs is bs b) \<Longrightarrow> s < length bs"
  by (auto simp: block_succs_def Let_def dest: label_block_range split: if_splits)

lemma cut_bounds:
  assumes "b < length (starts is)"
  shows "bstart (cut_blocks w is ! b) = starts is ! b"
    and "bend (cut_blocks w is ! b) = (if b + 1 < length (starts is) then starts is ! (b + 1) else length is)"
  using assms block_end_next [OF assms] by (simp_all add: cut_nth new_block_def)

lemma zero_starts: "is \<noteq> [] \<Longrightarrow> starts is \<noteq> [] \<and> starts is ! 0 = 0"
  by (simp add: starts_def upt_conv_Cons is_leader_def)

lemma build_cfg_ok: "cfg_ok (insns fn) (blocks (build_cfg fn))"
proof -
  let ?is = "insns fn" and ?w = "vset_words (fn_prepare_vsets fn)"
  let ?c = "cut_blocks ?w ?is"
  have bs: "blocks (build_cfg fn) = connect_blocks ?is ?c"
    by (simp add: build_cfg_def fn_prepare_vsets_def Let_def)
  have lt: "starts ?is ! b < length ?is" if "b < length (starts ?is)" for b
    using nth_mem [OF that] by (simp add: starts_mem)
  show ?thesis unfolding cfg_ok_def bs
  proof (intro conjI allI impI ballI)
    assume ne: "?is \<noteq> []"
    note z = zero_starts [OF ne]
    have "length (connect_blocks ?is ?c) \<noteq> 0" using z by simp
    then show "connect_blocks ?is ?c \<noteq> []" by (metis list.size(3))
    then show "bstart (hd (connect_blocks ?is ?c)) = 0" "bend (last (connect_blocks ?is ?c)) = length ?is"
      using z by (simp_all add: hd_conv_nth last_conv_nth connect_fields cut_bounds)
  next
    fix b assume b: "b < length (connect_blocks ?is ?c)"
    show "bstart (connect_blocks ?is ?c ! b) < bend (connect_blocks ?is ?c ! b)"
      using b lt by (simp add: connect_fields cut_bounds starts_less)
    show "bend (connect_blocks ?is ?c ! b) \<le> length ?is"
      using b lt by (auto simp: connect_fields cut_bounds intro: less_imp_le)
    fix s assume "s \<in> set (succs (connect_blocks ?is ?c ! b))"
    then show "s < length (connect_blocks ?is ?c)"
      using b block_succs_range [of b ?c s ?is] by (simp add: connect_fields)
  qed (simp add: connect_fields cut_bounds)
qed

section \<open>Control flow\<close>

text \<open>The steps of a function: the index of the instruction that may be executed next.\<close>

definition label_pos :: "ir_insn list \<Rightarrow> string \<Rightarrow> nat list" where
  "label_pos is n = take 1 (filter (\<lambda>i. op (is ! i) = IR_LABEL \<and> iname (is ! i) = n) [0..<length is])"

definition next_pos :: "ir_insn list \<Rightarrow> nat \<Rightarrow> nat list" where
  "next_pos is i =
     (let fall = (if i + 1 < length is then [i + 1] else [])
      in case op (is ! i) of
           IR_JZ \<Rightarrow> fall @ label_pos is (iname (is ! i))
         | IR_CJMP \<Rightarrow> fall @ label_pos is (iname (is ! i))
         | IR_LOOP \<Rightarrow> fall @ label_pos is (iname (is ! i))
         | IR_JMP \<Rightarrow> label_pos is (iname (is ! i))
         | IR_RET \<Rightarrow> [] | IR_TAILCALL \<Rightarrow> [] | IR_NTAILCALL \<Rightarrow> [] | IR_GOTO_FN \<Rightarrow> []
         | _ \<Rightarrow> fall)"

lemma label_pos_block:
  "label_pos is n = map (\<lambda>t. starts is ! t) (label_block is (cut_blocks w is) n)"
proof -
  let ?lab = "\<lambda>i. op (is ! i) = IR_LABEL \<and> iname (is ! i) = n"
  have "filter ?lab [0..<length is] = filter ?lab (starts is)"
    unfolding starts_def filter_filter by (rule filter_cong) (auto simp: is_leader_def)
  also have "\<dots> = filter ?lab (map (\<lambda>t. starts is ! t) [0..<length (starts is)])" by (simp add: map_nth)
  also have "\<dots> = map (\<lambda>t. starts is ! t) (filter (\<lambda>t. ?lab (starts is ! t)) [0..<length (starts is)])"
    by (simp add: filter_map o_def)
  also have "filter (\<lambda>t. ?lab (starts is ! t)) [0..<length (starts is)] =
      filter (\<lambda>t. ?lab (bstart (cut_blocks w is ! t))) [0..<length (starts is)]"
    by (rule filter_cong) (simp_all add: cut_bounds)
  finally show ?thesis by (simp add: label_pos_def label_block_def take_map)
qed

lemma block_of_pos:
  assumes "i < length is"
  obtains b where "b < length (starts is)" "starts is ! b \<le> i"
    "i < (if b + 1 < length (starts is) then starts is ! (b + 1) else length is)"
proof -
  have ne: "starts is \<noteq> []" "starts is ! 0 = 0" using zero_starts [of "is"] assms by fastforce+
  define b where "b = Max {b. b < length (starts is) \<and> starts is ! b \<le> i}"
  have fin: "finite {b. b < length (starts is) \<and> starts is ! b \<le> i}" by simp
  have "0 \<in> {b. b < length (starts is) \<and> starts is ! b \<le> i}" using ne by simp
  then have "b \<in> {b. b < length (starts is) \<and> starts is ! b \<le> i}"
    unfolding b_def by (intro Max_in fin) blast
  then have b: "b < length (starts is)" "starts is ! b \<le> i" by auto
  moreover have "i < starts is ! (b + 1)" if "b + 1 < length (starts is)"
  proof (rule ccontr)
    assume "\<not> i < starts is ! (b + 1)"
    with that have "b + 1 \<le> b" unfolding b_def by (intro Max_ge fin) (simp add: b_def [symmetric])
    then show False by simp
  qed
  ultimately show thesis using that assms by simp
qed

text \<open>A step out of the last instruction of a block goes to the start of a successor.\<close>

lemma next_pos_cases:
  assumes "j \<in> set (next_pos is i)"
  obtains "j = i + 1" "i + 1 < length is"
      "op (is ! i) \<notin> {IR_JMP, IR_RET, IR_TAILCALL, IR_NTAILCALL, IR_GOTO_FN}"
    | "j \<in> set (label_pos is (iname (is ! i)))" "op (is ! i) \<in> {IR_JZ, IR_CJMP, IR_LOOP, IR_JMP}"
  using assms by (cases "op (is ! i)") (auto simp: next_pos_def Let_def split: if_splits)

lemma step_from_end:
  assumes b: "b < length (starts is)" and i: "i + 1 = bend (cut_blocks w is ! b)" and j: "j \<in> set (next_pos is i)"
  shows "\<exists>c \<in> set (block_succs is (cut_blocks w is) b). j = starts is ! c"
  using j
proof (cases rule: next_pos_cases)
  case 1
  then have "b + 1 < length (starts is)" "j = starts is ! (b + 1)"
    using i cut_bounds(2) [OF b, of w] by (auto split: if_splits)
  moreover have "bend (cut_blocks w is ! b) - 1 = i" using i by simp
  ultimately show ?thesis using 1(3) by (intro bexI [of _ "b + 1"]) (auto simp: block_succs_def Let_def)
next
  case 2
  have "bend (cut_blocks w is ! b) - 1 = i" using i by simp
  moreover obtain c where "c \<in> set (label_block is (cut_blocks w is) (iname (is ! i)))" "j = starts is ! c"
    using 2(1) by (auto simp: label_pos_block [of "is" _ w])
  ultimately show ?thesis using 2(2) by (intro bexI [of _ c]) (auto simp: block_succs_def Let_def)
qed

text \<open>Inside a block the next instruction is the only one that can follow.\<close>

lemma step_inside:
  assumes "i < length is" "\<not> is_leader is (i + 1)" and "j \<in> set (next_pos is i)"
  shows "j = i + 1"
proof -
  have "\<not> ends_block (op (is ! i))" using assms(2) by (simp add: is_leader_def)
  then show ?thesis
    using assms(3) by (cases "op (is ! i)") (auto simp: next_pos_def ends_block_def Let_def split: if_splits)
qed

text \<open>Both directions, for the blocks that \<^verbatim>\<open>build_cfg\<close> makes.\<close>

lemma build_cfg_blocks:
  "blocks (build_cfg fn) =
   connect_blocks (insns fn) (cut_blocks (vset_words (fn_prepare_vsets fn)) (insns fn))"
  by (simp add: build_cfg_def fn_prepare_vsets_def Let_def)

lemma step_to_succ:
  assumes b: "b < length (starts is)" and i: "i + 1 = bend (cut_blocks w is ! b)"
    and c: "c \<in> set (block_succs is (cut_blocks w is) b)"
  shows "starts is ! c \<in> set (next_pos is i)"
proof -
  have e: "bend (cut_blocks w is ! b) - 1 = i" using i by simp
  have fall: "b + 1 < length (starts is) \<Longrightarrow> starts is ! (b + 1) = i + 1 \<and> i + 1 < length is"
    using i cut_bounds(2) [OF b, of w] nth_mem [of "b + 1" "starts is"] starts_mem by fastforce
  have lab: "c \<in> set (label_block is (cut_blocks w is) n) \<Longrightarrow> starts is ! c \<in> set (label_pos is n)" for n
    by (simp add: label_pos_block [of "is" n w])
  consider "b + 1 < length (starts is)" "c = b + 1" "op (is ! i) \<notin> {IR_JMP, IR_RET, IR_TAILCALL, IR_NTAILCALL, IR_GOTO_FN}"
    | "c \<in> set (label_block is (cut_blocks w is) (iname (is ! i)))" "op (is ! i) \<in> {IR_JZ, IR_CJMP, IR_LOOP, IR_JMP}"
    using c unfolding block_succs_def Let_def e by (auto split: if_splits)
  then show ?thesis
  proof cases
    case 1
    then show ?thesis using fall [OF 1(1)] by (cases "op (is ! i)") (auto simp: next_pos_def Let_def)
  next
    case 2
    then show ?thesis using lab [OF 2(1)] by (auto simp: next_pos_def Let_def)
  qed
qed

lemma cfg_step:
  assumes bs: "bs = blocks (build_cfg fn)" and b: "b < length bs" "bstart (bs ! b) \<le> i" "i < bend (bs ! b)"
  shows "set (next_pos (insns fn) i) =
    (if i + 1 < bend (bs ! b) then {i + 1} else (\<lambda>c. bstart (bs ! c)) ` set (succs (bs ! b)))"
proof -
  let ?is = "insns fn" and ?c = "cut_blocks (vset_words (fn_prepare_vsets fn)) (insns fn)"
  have bs': "bs = connect_blocks ?is ?c" by (simp add: bs build_cfg_blocks)
  have b': "b < length (starts ?is)" using b(1) by (simp add: bs')
  have f: "bstart (bs ! b) = starts ?is ! b" "bend (bs ! b) = bend (?c ! b)" "succs (bs ! b) = block_succs ?is ?c b"
    using b' by (simp_all add: bs' connect_fields cut_bounds(1))
  have "bend (bs ! b) \<le> length ?is" using build_cfg_ok [of fn] b(1) by (simp add: cfg_ok_def bs)
  then have i: "i < length ?is" using b(3) by simp
  show ?thesis
  proof (cases "i + 1 < bend (bs ! b)")
    case True
    have lead: "\<not> is_leader ?is (i + 1)"
      using True b b' block_end_between [of "starts ?is ! b + 1" "i + 1" ?is]
      by (simp add: f cut_nth new_block_def)
    then have "\<not> ends_block (op (?is ! i))" by (simp add: is_leader_def)
    moreover have "i + 1 < length ?is" using True \<open>bend (bs ! b) \<le> length ?is\<close> by simp
    ultimately have "i + 1 \<in> set (next_pos ?is i)"
      by (cases "op (?is ! i)") (auto simp: next_pos_def ends_block_def Let_def)
    moreover have "set (next_pos ?is i) \<subseteq> {i + 1}" using step_inside [OF i lead] by blast
    ultimately have "set (next_pos ?is i) = {i + 1}" by blast
    with True show ?thesis by (simp only: if_True)
  next
    case False
    then have e: "i + 1 = bend (?c ! b)" using b(3) f by simp
    have at: "bstart (bs ! c) = starts ?is ! c" if "c \<in> set (block_succs ?is ?c b)" for c
      using block_succs_range [of b ?c c ?is] b' that by (simp add: bs' connect_fields cut_bounds(1))
    have "set (next_pos ?is i) = (\<lambda>c. bstart (bs ! c)) ` set (block_succs ?is ?c b)"
    proof
      show "set (next_pos ?is i) \<subseteq> (\<lambda>c. bstart (bs ! c)) ` set (block_succs ?is ?c b)"
        using step_from_end [OF b' e] at by fastforce
      show "(\<lambda>c. bstart (bs ! c)) ` set (block_succs ?is ?c b) \<subseteq> set (next_pos ?is i)"
        using step_to_succ [OF b' e] at by fastforce
    qed
    with False f show ?thesis by simp
  qed
qed

lemma pos_in_block:
  assumes "bs = blocks (build_cfg fn)" and "i < length (insns fn)"
  obtains b where "b < length bs" "bstart (bs ! b) \<le> i" "i < bend (bs ! b)"
  by (rule block_of_pos [OF assms(2)])
    (simp add: assms(1) build_cfg_blocks connect_fields cut_bounds split: if_splits)

text \<open>
  (C21) The control-flow graph has exactly the steps of the function: every instruction lies in a
  block; inside the block only the next instruction can follow it; and from the last instruction
  the control goes exactly to the first instructions of the successors of the block.
\<close>

theorem cfg_has_control_flow:
  assumes "bs = blocks (build_cfg fn)" and "i < length (insns fn)"
  shows "\<exists>b < length bs. bstart (bs ! b) \<le> i \<and> i < bend (bs ! b) \<and>
    set (next_pos (insns fn) i) =
      (if i + 1 < bend (bs ! b) then {i + 1} else (\<lambda>c. bstart (bs ! c)) ` set (succs (bs ! b)))"
proof -
  obtain b where b: "b < length bs" "bstart (bs ! b) \<le> i" "i < bend (bs ! b)"
    by (rule pos_in_block [OF assms])
  with cfg_step [OF assms(1) b] show ?thesis by blast
qed

definition loop_insns :: "ir_insn list" where
  "loop_insns =
     [ir_insn0\<lparr>op := IR_MOV, dst := 0, has_imm := True\<rparr>,
      ir_insn0\<lparr>op := IR_LABEL, iname := ''l''\<rparr>,
      ir_insn0\<lparr>op := IR_ALU, iname := ''add'', dst := 1, src1 := 0, src2 := 1\<rparr>,
      ir_insn0\<lparr>op := IR_JZ, src1 := 1, iname := ''l''\<rparr>,
      ir_insn0\<lparr>op := IR_RETVAL, src1 := 1\<rparr>,
      ir_insn0\<lparr>op := IR_RET\<rparr>]"

definition plain_vreg :: vreg_info where
  "plain_vreg = init_vreg_info\<lparr>use_count := 1, def_pos := 0, last_use := 5\<rparr>"

definition loop_fn :: func where
  "loop_fn = new_func\<lparr>insns := loop_insns, vregs := replicate 3 plain_vreg, param_vregs := [1],
     param_places := [ABI_PLACE_REGISTER]\<rparr>"

theorem cfg_has_control_flow_witness:
  "let bs = blocks (build_cfg loop_fn)
   in \<exists>b < length bs. bstart (bs ! b) \<le> 3 \<and> 3 < bend (bs ! b) \<and>
        {4, 1} = (if 3 + 1 < bend (bs ! b) then {3 + 1} else (\<lambda>c. bstart (bs ! c)) ` set (succs (bs ! b)))"
proof -
  have "3 < length (insns loop_fn)" "set (next_pos (insns loop_fn) 3) = {4, 1}" by code_simp+
  with cfg_has_control_flow [OF refl this(1)] show ?thesis by (simp add: Let_def)
qed

end
