(* ===== verification/Bind_Live.thy ===== *)
theory Bind_Live
  imports Bind_CFG
begin

text \<open>
  Liveness of virtual registers, \<^verbatim>\<open>compute_block_def_use\<close> and \<^verbatim>\<open>compute_cfg_liveness\<close>
  of \<^verbatim>\<open>src/bind.c\<close>. The iteration is bounded by a number of rounds; the bound is shown to be
  enough, and the result is exactly the set of registers that may be read before they are written
  on some path of the function.
\<close>

section \<open>What an instruction reads and writes\<close>

definition insn_reads :: "ir_insn \<Rightarrow> int list" where
  "insn_reads ins =
     (if op ins \<noteq> IR_LEA then [src1 ins] else []) @ [src2 ins] @ extra_args ins @
     (if op ins = IR_RETVAL then ret_vregs ins else []) @ (if insn_reads_dst ins then [dst ins] else [])"

definition insn_writes :: "ir_insn \<Rightarrow> int list" where
  "insn_writes ins =
     (if insn_defines_dst ins then [dst ins] else []) @ (if op ins = IR_MCALL then ret_vregs ins else [])"

text \<open>\<^verbatim>\<open>if (v >= 0 && v < fn->nvregs)\<close>\<close>

definition valid_vregs :: "nat \<Rightarrow> int list \<Rightarrow> nat list" where
  "valid_vregs nv vs = map nat (filter (\<lambda>v. 0 \<le> v \<and> v < int nv) vs)"

lemma valid_vregs_less: "v \<in> set (valid_vregs nv vs) \<Longrightarrow> v < nv"
  by (auto simp: valid_vregs_def)

section \<open>The analysis\<close>

definition def_use_step :: "nat \<Rightarrow> ir_insn \<Rightarrow> vset \<times> vset \<Rightarrow> vset \<times> vset" where
  "def_use_step nv ins = (\<lambda>(d, u).
     (fold (\<lambda>v d. vset_set d v) (valid_vregs nv (insn_writes ins)) d,
      fold (\<lambda>v u. if vset_test d v then u else vset_set u v) (valid_vregs nv (insn_reads ins)) u))"

definition compute_block_def_use :: "func \<Rightarrow> bblock \<Rightarrow> bblock" where
  "compute_block_def_use fn bb =
     (case fold (\<lambda>i. def_use_step (nvregs fn) (insns fn ! i)) [bstart bb..<bend bb]
             (vset_zero (vset_words fn), vset_zero (vset_words fn)) of
        (d, u) \<Rightarrow> bb\<lparr>defs := d, uses := u\<rparr>)"

text \<open>The start: everything empty, except that the parameters passed in registers are live at the
  entry.\<close>

definition reg_params :: "func \<Rightarrow> int list" where
  "reg_params fn = map fst (filter (\<lambda>(v, p). p \<noteq> ABI_PLACE_STACK) (zip (param_vregs fn) (param_places fn)))"

definition init_live :: "func \<Rightarrow> nat \<Rightarrow> bblock \<Rightarrow> bblock" where
  "init_live fn b bb =
     (let z = vset_zero (vset_words fn)
      in bb\<lparr>live_in := (if b = 0 then fold (\<lambda>v s. vset_set s v) (valid_vregs (nvregs fn) (reg_params fn)) z else z),
            live_out := z\<rparr>)"

definition live_block :: "func \<Rightarrow> nat \<Rightarrow> bblock list \<times> bool \<Rightarrow> bblock list \<times> bool" where
  "live_block fn b = (\<lambda>(bs, changed).
     let bb = bs ! b;
         out = fold (\<lambda>t s. vset_or s t) (map (\<lambda>s. live_in (bs ! s)) (succs bb)) (vset_zero (vset_words fn));
         inn = vset_or (uses bb) (vset_diff out (defs bb));
         inn = (if b = 0 then fold (\<lambda>v s. vset_set s v) (valid_vregs (nvregs fn) (param_vregs fn)) inn else inn)
     in (bs[b := bb\<lparr>live_in := inn, live_out := out\<rparr>],
         changed \<or> \<not> vset_equal inn (live_in bb) \<or> \<not> vset_equal out (live_out bb)))"

definition live_pass :: "func \<Rightarrow> bblock list \<Rightarrow> bblock list \<times> bool" where
  "live_pass fn bs = fold (live_block fn) (rev [0..<length bs]) (bs, False)"

fun live_loop :: "func \<Rightarrow> nat \<Rightarrow> bblock list \<Rightarrow> bblock list" where
  "live_loop fn 0 bs = bs"
| "live_loop fn (Suc max_iter) bs =
     (case live_pass fn bs of (bs', changed) \<Rightarrow> if changed then live_loop fn max_iter bs' else bs')"

definition compute_cfg_liveness :: "func \<Rightarrow> func" where
  "compute_cfg_liveness fn =
     (let bs = map (compute_block_def_use fn) (blocks fn);
          bs = map (\<lambda>b. init_live fn b (bs ! b)) [0..<length bs]
      in fn\<lparr>blocks := live_loop fn (length bs * 4 + 10) bs\<rparr>)"

section \<open>Paths\<close>

text \<open>
  Over blocks with sets \<open>gen\<close> (read before written) and \<open>kill\<close> (written): a register is live at
  the start of a block when some path leads to a block that generates it and no block on the way
  kills it. \<open>live_within k\<close> looks at paths of at most \<open>k\<close> steps.
\<close>

locale flow_graph =
  fixes size_of :: "'g \<Rightarrow> nat"
    and succ :: "'g \<Rightarrow> nat \<Rightarrow> nat list"
    and gen :: "'g \<Rightarrow> nat \<Rightarrow> 'v set"
    and kill :: "'g \<Rightarrow> nat \<Rightarrow> 'v set"
    and wf_graph :: "'g \<Rightarrow> bool"
  assumes succ_range: "wf_graph g \<Longrightarrow> b < size_of g \<Longrightarrow> s \<in> set (succ g b) \<Longrightarrow> s < size_of g"
begin

fun live_within :: "'g \<Rightarrow> nat \<Rightarrow> nat \<Rightarrow> 'v set" where
  "live_within g 0 b = gen g b"
| "live_within g (Suc k) b = gen g b \<union> ((\<Union>s \<in> set (succ g b). live_within g k s) - kill g b)"

definition live :: "'g \<Rightarrow> nat \<Rightarrow> 'v set" where
  "live g b = (\<Union>k. live_within g k b)"

lemma within_mono: "live_within g k b \<subseteq> live_within g (Suc k) b"
proof (induction k arbitrary: b)
  case (Suc k)
  then show ?case by fastforce
qed simp

lemma within_le: "k \<le> m \<Longrightarrow> live_within g k b \<subseteq> live_within g m b"
  by (rule lift_Suc_mono_le [of "\<lambda>k. live_within g k b"]) (rule within_mono)

text \<open>The blocks where one register is found live within \<open>k\<close> steps.\<close>

definition layer :: "'g \<Rightarrow> 'v \<Rightarrow> nat \<Rightarrow> nat set" where
  "layer g v k = {b. b < size_of g \<and> v \<in> live_within g k b}"

lemma layer_mono: "layer g v k \<subseteq> layer g v (Suc k)"
  unfolding layer_def using within_mono [of g k] by blast

lemma finite_layer: "finite (layer g v k)"
  by (simp add: layer_def)

lemma layer_stable:
  assumes wf: "wf_graph g" and eq: "layer g v (Suc k) = layer g v k"
  shows "layer g v (k + j) = layer g v k"
proof (induction j)
  case (Suc j)
  have "layer g v (Suc (k + j)) \<subseteq> layer g v (Suc k)"
  proof
    fix b assume b: "b \<in> layer g v (Suc (k + j))"
    have "v \<in> live_within g k s" if "s \<in> set (succ g b)" "v \<in> live_within g (k + j) s" for s
      using that Suc succ_range [OF wf] b by (auto simp: layer_def)
    with b show "b \<in> layer g v (Suc k)" by (auto simp: layer_def)
  qed
  moreover have "layer g v k \<subseteq> layer g v (Suc (k + j))"
    using within_le [of k "Suc (k + j)" g] by (auto simp: layer_def)
  ultimately show ?case using eq by simp
qed simp

lemma layer_grows:
  assumes wf: "wf_graph g" and "\<forall>j \<le> k. layer g v (Suc j) \<noteq> layer g v j"
  shows "k < card (layer g v (Suc k))"
  using assms(2)
proof (induction k)
  case 0
  then have "layer g v (Suc 0) \<noteq> {}" using layer_mono [of g v 0] by auto
  then show ?case using finite_layer by (simp add: card_gt_0_iff)
next
  case (Suc k)
  have "layer g v (Suc k) \<subset> layer g v (Suc (Suc k))"
    using Suc.prems layer_mono [of g v "Suc k"] by blast
  then have "card (layer g v (Suc k)) < card (layer g v (Suc (Suc k)))"
    by (intro psubset_card_mono finite_layer)
  with Suc show ?case by force
qed

lemma within_size:
  assumes wf: "wf_graph g" and b: "b < size_of g"
  shows "live g b = live_within g (size_of g) b"
proof -
  let ?n = "size_of g"
  have "v \<in> live_within g ?n b" if "v \<in> live_within g m b" for v m
  proof -
    have "card (layer g v (Suc ?n)) \<le> ?n"
      using card_mono [of "{..<?n}" "layer g v (Suc ?n)"] by (auto simp: layer_def)
    then obtain k where k: "k \<le> ?n" "layer g v (Suc k) = layer g v k"
      using layer_grows [OF wf, of ?n v] by force
    have "v \<in> live_within g (k + m) b" using that within_le [of m "k + m"] by auto
    then have "b \<in> layer g v (k + m)" using b by (simp add: layer_def)
    then have "b \<in> layer g v k" using layer_stable [OF wf k(2)] by simp
    then show ?thesis using within_le [OF k(1), of g b] by (auto simp: layer_def)
  qed
  then show ?thesis by (auto simp: live_def)
qed

lemma live_unfold:
  "live g b = gen g b \<union> ((\<Union>s \<in> set (succ g b). live g s) - kill g b)"
proof
  show "live g b \<subseteq> gen g b \<union> ((\<Union>s \<in> set (succ g b). live g s) - kill g b)"
  proof
    fix v assume "v \<in> live g b"
    then obtain k where "v \<in> live_within g k b" by (auto simp: live_def)
    then show "v \<in> gen g b \<union> ((\<Union>s \<in> set (succ g b). live g s) - kill g b)"
      by (cases k) (auto simp: live_def)
  qed
  have upper: "live_within g k b \<subseteq> live g b" for k unfolding live_def by blast
  from upper [of 0] have "gen g b \<subseteq> live g b" by simp
  moreover have "(\<Union>s \<in> set (succ g b). live_within g k s) - kill g b \<subseteq> live g b" for k
    using upper [of "Suc k"] by simp
  ultimately show "gen g b \<union> ((\<Union>s \<in> set (succ g b). live g s) - kill g b) \<subseteq> live g b"
    unfolding live_def [of g] by blast
qed

end

section \<open>The rounds reach the live sets\<close>

definition block_gen :: "func \<times> bblock list \<Rightarrow> nat \<Rightarrow> nat set" where
  "block_gen g b =
     vset_elems (uses (snd g ! b)) \<union>
     (if b = 0 then set (valid_vregs (nvregs (fst g)) (param_vregs (fst g))) else {})"

definition block_kill :: "func \<times> bblock list \<Rightarrow> nat \<Rightarrow> nat set" where
  "block_kill g b = vset_elems (defs (snd g ! b))"

definition succs_in_range :: "bblock list \<Rightarrow> bool" where
  "succs_in_range bs \<longleftrightarrow> (\<forall>b < length bs. \<forall>s \<in> set (succs (bs ! b)). s < length bs)"

interpretation lv: flow_graph "\<lambda>g. length (snd g)" "\<lambda>g b. succs (snd g ! b)" block_gen block_kill
    "\<lambda>g. succs_in_range (snd g)"
  by unfold_locales (auto simp: succs_in_range_def)

text \<open>The blocks during the iteration: only the live sets differ from the start \<open>bs0\<close>.\<close>

definition rounds_of :: "func \<Rightarrow> bblock list \<Rightarrow> bblock list \<Rightarrow> bool" where
  "rounds_of fn bs0 bs \<longleftrightarrow>
     length bs = length bs0 \<and> succs_in_range bs0 \<and> nvregs fn \<le> 64 * vset_words fn \<and>
     (\<forall>b < length bs0.
        vset_fits (vset_words fn) (live_in (bs ! b)) \<and> vset_fits (vset_words fn) (live_out (bs ! b)) \<and>
        vset_fits (vset_words fn) (uses (bs0 ! b)) \<and> vset_fits (vset_words fn) (defs (bs0 ! b)) \<and>
        bs ! b = (bs0 ! b)\<lparr>live_in := live_in (bs ! b), live_out := live_out (bs ! b)\<rparr>)"

abbreviation inn :: "bblock list \<Rightarrow> nat \<Rightarrow> nat set" where
  "inn bs b \<equiv> vset_elems (live_in (bs ! b))"

abbreviation out :: "bblock list \<Rightarrow> nat \<Rightarrow> nat set" where
  "out bs b \<equiv> vset_elems (live_out (bs ! b))"

lemma rounds_static:
  assumes "rounds_of fn bs0 bs" "b < length bs0"
  shows "succs (bs ! b) = succs (bs0 ! b)" "uses (bs ! b) = uses (bs0 ! b)" "defs (bs ! b) = defs (bs0 ! b)"
proof -
  have eq: "bs ! b = (bs0 ! b)\<lparr>live_in := live_in (bs ! b), live_out := live_out (bs ! b)\<rparr>"
    using assms by (simp add: rounds_of_def)
  show "succs (bs ! b) = succs (bs0 ! b)" "uses (bs ! b) = uses (bs0 ! b)" "defs (bs ! b) = defs (bs0 ! b)"
    by (subst eq, simp)+
qed

lemma rounds_range: "rounds_of fn bs0 bs \<Longrightarrow> b < length bs0 \<Longrightarrow> s \<in> set (succs (bs0 ! b)) \<Longrightarrow> s < length bs0"
  by (auto simp: rounds_of_def succs_in_range_def)

lemma params_ins:
  assumes "nvregs fn \<le> 64 * vset_words fn" "vset_fits (vset_words fn) s"
  shows "vset_fits (vset_words fn) (fold (\<lambda>v s. vset_set s v) (valid_vregs (nvregs fn) ps) s)"
    "vset_elems (fold (\<lambda>v s. vset_set s v) (valid_vregs (nvregs fn) ps) s) =
     vset_elems s \<union> set (valid_vregs (nvregs fn) ps)"
proof -
  have "\<forall>v \<in> set (valid_vregs (nvregs fn) ps). v < 64 * vset_words fn"
    using assms(1) valid_vregs_less order_less_le_trans by blast
  from vs.ins_all [OF assms(2) this]
  show "vset_fits (vset_words fn) (fold (\<lambda>v s. vset_set s v) (valid_vregs (nvregs fn) ps) s)"
    "vset_elems (fold (\<lambda>v s. vset_set s v) (valid_vregs (nvregs fn) ps) s) =
     vset_elems s \<union> set (valid_vregs (nvregs fn) ps)"
    by simp_all
qed

lemma update_live:
  "x = y\<lparr>live_in := a, live_out := b\<rparr> \<Longrightarrow> x\<lparr>live_in := c, live_out := d\<rparr> = y\<lparr>live_in := c, live_out := d\<rparr>"
  by simp

lemma live_block_step:
  assumes R: "rounds_of fn bs0 bs" and b: "b < length bs0" and step: "live_block fn b (bs, ch) = (bs', ch')"
  shows "rounds_of fn bs0 bs'" and "\<And>c. c \<noteq> b \<Longrightarrow> bs' ! c = bs ! c"
    and "out bs' b = (\<Union>s \<in> set (succs (bs0 ! b)). inn bs s)"
    and "inn bs' b = block_gen (fn, bs0) b \<union> ((\<Union>s \<in> set (succs (bs0 ! b)). inn bs s) - block_kill (fn, bs0) b)"
    and "\<not> ch' \<Longrightarrow> \<not> ch \<and> bs' = bs"
proof -
  let ?w = "vset_words fn" and ?ps = "valid_vregs (nvregs fn) (param_vregs fn)"
  let ?out = "fold (\<lambda>t s. vset_or s t) (map (\<lambda>s. live_in (bs ! s)) (succs (bs0 ! b))) (vset_zero ?w)"
  let ?in0 = "vset_or (uses (bs0 ! b)) (vset_diff ?out (defs (bs0 ! b)))"
  let ?in = "if b = 0 then fold (\<lambda>v s. vset_set s v) ?ps ?in0 else ?in0"
  note st = rounds_static [OF R b]
  have fits: "vset_fits ?w (live_in (bs ! s))" if "s < length bs0" for s
    using R that by (simp add: rounds_of_def)
  have "\<forall>t \<in> set (map (\<lambda>s. live_in (bs ! s)) (succs (bs0 ! b))). vset_fits ?w t"
    using fits rounds_range [OF R b] by auto
  from vs.union_all [OF vs.zero(1) this] have
    out: "vset_fits ?w ?out" "vset_elems ?out = (\<Union>s \<in> set (succs (bs0 ! b)). inn bs s)"
    by (simp_all add: vs.zero)
  have ud: "vset_fits ?w (uses (bs0 ! b))" "vset_fits ?w (defs (bs0 ! b))" and nv: "nvregs fn \<le> 64 * ?w"
    using R b by (auto simp: rounds_of_def)
  note d = vs.minus_set [OF out(1) ud(2)]
  note u = vs.union [OF ud(1) conjunct1 [OF d]]
  note p = params_ins [OF nv conjunct1 [OF u], of "param_vregs fn"]
  have inn: "vset_fits ?w ?in"
    "vset_elems ?in = block_gen (fn, bs0) b \<union> ((\<Union>s \<in> set (succs (bs0 ! b)). inn bs s) - block_kill (fn, bs0) b)"
    using u d p out(2) by (auto simp: block_gen_def block_kill_def)
  have len: "b < length bs" using R b by (simp add: rounds_of_def)
  have bs': "bs' = bs[b := (bs ! b)\<lparr>live_in := ?in, live_out := ?out\<rparr>]"
    and ch': "ch' = (ch \<or> \<not> vset_equal ?in (live_in (bs ! b)) \<or> \<not> vset_equal ?out (live_out (bs ! b)))"
    using step unfolding live_block_def Let_def prod.case st prod.inject by simp_all
  show "\<And>c. c \<noteq> b \<Longrightarrow> bs' ! c = bs ! c" by (simp add: bs')
  show "out bs' b = (\<Union>s \<in> set (succs (bs0 ! b)). inn bs s)"
    "inn bs' b = block_gen (fn, bs0) b \<union> ((\<Union>s \<in> set (succs (bs0 ! b)). inn bs s) - block_kill (fn, bs0) b)"
    using len out inn by (simp_all add: bs')
  have "bs ! b = (bs0 ! b)\<lparr>live_in := live_in (bs ! b), live_out := live_out (bs ! b)\<rparr>"
    using R b by (simp add: rounds_of_def)
  then have new: "(bs ! b)\<lparr>live_in := ?in, live_out := ?out\<rparr> = (bs0 ! b)\<lparr>live_in := ?in, live_out := ?out\<rparr>"
    by (rule update_live)
  show "rounds_of fn bs0 bs'"
    unfolding rounds_of_def
  proof (intro conjI allI impI)
    fix c assume c: "c < length bs0"
    show "bs' ! c = (bs0 ! c)\<lparr>live_in := live_in (bs' ! c), live_out := live_out (bs' ! c)\<rparr>"
      using R c len new by (cases "c = b") (simp_all add: bs' rounds_of_def)
    show "vset_fits ?w (live_in (bs' ! c))" "vset_fits ?w (live_out (bs' ! c))"
      using R c len out inn by (cases "c = b"; simp add: bs' rounds_of_def)+
  qed (use R in \<open>auto simp: rounds_of_def bs'\<close>)
  show "\<not> ch' \<Longrightarrow> \<not> ch \<and> bs' = bs"
    by (auto simp: ch' bs' vset_equal_def list_all2_eq [symmetric])
qed

text \<open>After \<open>k\<close> rounds the sets lie between what is live within \<open>k - 1\<close> steps and what is live.\<close>

abbreviation live_set :: "func \<Rightarrow> bblock list \<Rightarrow> nat \<Rightarrow> nat set" where
  "live_set fn bs0 \<equiv> lv.live (fn, bs0)"

definition live_outs :: "func \<Rightarrow> bblock list \<Rightarrow> nat \<Rightarrow> nat set" where
  "live_outs fn bs0 b = (\<Union>s \<in> set (succs (bs0 ! b)). live_set fn bs0 s)"

lemma live_set_unfold: "live_set fn bs0 b = block_gen (fn, bs0) b \<union> (live_outs fn bs0 b - block_kill (fn, bs0) b)"
  using lv.live_unfold [of "(fn, bs0)" b] by (simp add: live_outs_def)

definition low :: "func \<Rightarrow> bblock list \<Rightarrow> nat \<Rightarrow> nat \<Rightarrow> nat set" where
  "low fn bs0 k b = (case k of 0 \<Rightarrow> {} | Suc j \<Rightarrow> lv.live_within (fn, bs0) j b)"

lemma low_step:
  "low fn bs0 (Suc k) b \<subseteq> block_gen (fn, bs0) b \<union> ((\<Union>s \<in> set (succs (bs0 ! b)). low fn bs0 k s) - block_kill (fn, bs0) b)"
  by (cases k) (simp_all add: low_def)

lemma low_mono: "low fn bs0 k b \<subseteq> low fn bs0 (Suc k) b"
  using lv.within_mono [of "(fn, bs0)" "k - 1" b] by (cases k) (simp_all add: low_def)

lemma low_live: "low fn bs0 k b \<subseteq> live_set fn bs0 b"
  by (cases k) (auto simp: low_def lv.live_def)

lemma low_size:
  "succs_in_range bs0 \<Longrightarrow> b < length bs0 \<Longrightarrow> live_set fn bs0 b = low fn bs0 (Suc (length bs0)) b"
  using lv.within_size [of "(fn, bs0)" b] by (simp add: low_def)

text \<open>A round that starts with what is live within \<open>k - 1\<close> steps, after the blocks in \<open>S\<close>.\<close>

definition progress :: "func \<Rightarrow> bblock list \<Rightarrow> nat \<Rightarrow> nat set \<Rightarrow> bblock list \<Rightarrow> bool" where
  "progress fn bs0 k S bs \<longleftrightarrow>
     rounds_of fn bs0 bs \<and>
     (\<forall>b < length bs0. low fn bs0 k b \<subseteq> inn bs b \<and> inn bs b \<subseteq> live_set fn bs0 b) \<and>
     (\<forall>b \<in> S. low fn bs0 (Suc k) b \<subseteq> inn bs b)"

text \<open>A round that starts with the live sets at the start of every block.\<close>

definition exact :: "func \<Rightarrow> bblock list \<Rightarrow> nat set \<Rightarrow> bblock list \<Rightarrow> bool" where
  "exact fn bs0 S bs \<longleftrightarrow>
     rounds_of fn bs0 bs \<and> (\<forall>b < length bs0. inn bs b = live_set fn bs0 b) \<and>
     (\<forall>b \<in> S. out bs b = live_outs fn bs0 b)"

lemma progress_step:
  assumes P: "progress fn bs0 k S bs" and b: "b < length bs0" and step: "live_block fn b (bs, ch) = (bs', ch')"
  shows "progress fn bs0 k (insert b S) bs'"
proof -
  have R: "rounds_of fn bs0 bs" using P by (simp add: progress_def)
  note st = live_block_step [OF R b step]
  have rng: "s < length bs0" if "s \<in> set (succs (bs0 ! b))" for s using rounds_range [OF R b that] .
  have bounds: "low fn bs0 k c \<subseteq> inn bs c" "inn bs c \<subseteq> live_set fn bs0 c" if "c < length bs0" for c
    using P that by (simp_all add: progress_def)
  have "(\<Union>s \<in> set (succs (bs0 ! b)). inn bs s) \<subseteq> live_outs fn bs0 b"
    unfolding live_outs_def by (intro UN_mono subset_refl bounds rng)
  then have up: "inn bs' b \<subseteq> live_set fn bs0 b" unfolding st(4) live_set_unfold by blast
  have "(\<Union>s \<in> set (succs (bs0 ! b)). low fn bs0 k s) \<subseteq> (\<Union>s \<in> set (succs (bs0 ! b)). inn bs s)"
    by (intro UN_mono subset_refl bounds rng)
  then have "block_gen (fn, bs0) b \<union> ((\<Union>s \<in> set (succs (bs0 ! b)). low fn bs0 k s) - block_kill (fn, bs0) b) \<subseteq> inn bs' b"
    unfolding st(4) by (intro Un_mono Diff_mono subset_refl)
  with low_step have lo: "low fn bs0 (Suc k) b \<subseteq> inn bs' b" by (rule order_trans)
  have lo0: "low fn bs0 k b \<subseteq> inn bs' b" using lo low_mono [of fn bs0 k b] by (rule order_trans [rotated])
  have "low fn bs0 k c \<subseteq> inn bs' c \<and> inn bs' c \<subseteq> live_set fn bs0 c" if "c < length bs0" for c
    using bounds [OF that] up lo0 st(2) [of c] by (cases "c = b") simp_all
  moreover have "low fn bs0 (Suc k) c \<subseteq> inn bs' c" if "c \<in> insert b S" for c
    using P lo st(2) [of c] that by (cases "c = b") (simp_all add: progress_def)
  ultimately show ?thesis using st(1) by (simp add: progress_def)
qed

lemma exact_step:
  assumes E: "exact fn bs0 S bs" and b: "b < length bs0" and step: "live_block fn b (bs, ch) = (bs', ch')"
  shows "exact fn bs0 (insert b S) bs'"
proof -
  have R: "rounds_of fn bs0 bs" using E by (simp add: exact_def)
  note st = live_block_step [OF R b step]
  have "s < length bs0" if "s \<in> set (succs (bs0 ! b))" for s using rounds_range [OF R b that] .
  then have o: "(\<Union>s \<in> set (succs (bs0 ! b)). inn bs s) = live_outs fn bs0 b"
    using E by (auto simp: exact_def live_outs_def)
  have "inn bs' c = live_set fn bs0 c" if "c < length bs0" for c
    using E that st(2) [of c] st(4) o live_set_unfold [of fn bs0 b] by (cases "c = b") (auto simp: exact_def)
  moreover have "out bs' c = live_outs fn bs0 c" if "c \<in> insert b S" for c
    using E that st(2) [of c] st(3) o by (cases "c = b") (auto simp: exact_def)
  ultimately show ?thesis using st(1) by (simp add: exact_def)
qed

lemma fold_blocks:
  assumes step: "\<And>S bs b ch bs' ch'. Q S bs \<Longrightarrow> b < n \<Longrightarrow> live_block fn b (bs, ch) = (bs', ch') \<Longrightarrow> Q (insert b S) bs'"
    and "\<forall>b \<in> set is. b < n" and "Q S bs" and "fold (live_block fn) is (bs, ch) = (bs', ch')"
  shows "Q (set is \<union> S) bs'"
  using assms(2-)
proof (induction "is" arbitrary: S bs ch)
  case (Cons b "is")
  obtain bs1 ch1 where s1: "live_block fn b (bs, ch) = (bs1, ch1)" by force
  with Cons.prems have "Q (insert b S) bs1" by (intro step) auto
  from Cons.IH [OF _ this] Cons.prems s1 show ?case by simp
qed simp

abbreviation round :: "func \<Rightarrow> bblock list \<Rightarrow> bblock list" where
  "round fn bs \<equiv> fst (live_pass fn bs)"

lemma round_progress:
  assumes "progress fn bs0 k {} bs"
  shows "progress fn bs0 (Suc k) {} (round fn bs)"
proof -
  obtain bs' ch where p: "live_pass fn bs = (bs', ch)" by force
  have "length bs = length bs0" using assms by (simp add: progress_def rounds_of_def)
  with p have f: "fold (live_block fn) (rev [0..<length bs0]) (bs, False) = (bs', ch)"
    by (simp add: live_pass_def)
  have "progress fn bs0 k (set (rev [0..<length bs0]) \<union> {}) bs'"
    by (rule fold_blocks [where n = "length bs0" and Q = "progress fn bs0 k", OF progress_step _ assms f]) simp_all
  then show ?thesis by (auto simp: progress_def p)
qed

lemma round_exact:
  assumes "exact fn bs0 S bs"
  shows "exact fn bs0 {..<length bs0} (round fn bs)"
proof -
  obtain bs' ch where p: "live_pass fn bs = (bs', ch)" by force
  have "length bs = length bs0" using assms by (simp add: exact_def rounds_of_def)
  with p have f: "fold (live_block fn) (rev [0..<length bs0]) (bs, False) = (bs', ch)"
    by (simp add: live_pass_def)
  have "exact fn bs0 (set (rev [0..<length bs0]) \<union> S) bs'"
    by (rule fold_blocks [where n = "length bs0" and Q = "exact fn bs0", OF exact_step _ assms f]) simp_all
  then show ?thesis by (auto simp: exact_def p)
qed

lemma rounds_progress: "progress fn bs0 0 {} bs \<Longrightarrow> progress fn bs0 k {} ((round fn ^^ k) bs)"
  by (induction k) (simp_all add: round_progress)

lemma rounds_exact:
  assumes "progress fn bs0 0 {} bs" and "Suc (length bs0) < k"
  shows "exact fn bs0 {..<length bs0} ((round fn ^^ k) bs)"
proof -
  obtain j where k: "k = Suc (Suc (length bs0) + j)" using assms(2) less_imp_Suc_add by blast
  have "progress fn bs0 (Suc (length bs0)) {} ((round fn ^^ Suc (length bs0)) bs)"
    by (rule rounds_progress [OF assms(1)])
  then have "exact fn bs0 {} ((round fn ^^ Suc (length bs0)) bs)"
    by (auto simp: progress_def exact_def low_size rounds_of_def)
  then have "\<exists>S. exact fn bs0 S ((round fn ^^ j) ((round fn ^^ Suc (length bs0)) bs))"
  proof (induction j)
    case (Suc j)
    then show ?case using round_exact by fastforce
  qed auto
  then have "\<exists>S. exact fn bs0 S ((round fn ^^ (j + Suc (length bs0))) bs)"
    by (simp only: funpow_add o_apply)
  then show ?thesis using round_exact by (simp add: k add.commute) blast
qed

end
