(* ===== verification/Bind_Live_Facts.thy ===== *)
theory Bind_Live_Facts
  imports Bind_Live
begin

text \<open>
  The result of \<^verbatim>\<open>compute_cfg_liveness\<close>: the bound on the number of rounds is never
  reached before the sets are final, and the final sets are the registers that are live on the
  paths of the function.
\<close>

section \<open>The loop\<close>

lemma pass_unchanged:
  assumes "fold (live_block fn) is (bs, ch) = (bs', ch')" and "\<not> ch'"
    and "\<forall>b \<in> set is. b < length bs0" and "rounds_of fn bs0 bs"
  shows "\<not> ch \<and> bs' = bs"
  using assms
proof (induction "is" arbitrary: bs ch)
  case (Cons b "is")
  obtain bs1 ch1 where s1: "live_block fn b (bs, ch) = (bs1, ch1)" by force
  have b: "b < length bs0" using Cons.prems by simp
  note st = live_block_step [OF Cons.prems(4) b s1]
  from Cons.IH [of bs1 ch1] Cons.prems s1 st(1) have "\<not> ch1 \<and> bs' = bs1" by simp
  with st(5) show ?case by blast
qed simp

lemma round_unchanged:
  assumes "live_pass fn bs = (bs', False)" and "rounds_of fn bs0 bs"
  shows "bs' = bs"
proof -
  have "length bs = length bs0" using assms(2) by (simp add: rounds_of_def)
  with pass_unchanged [of fn "rev [0..<length bs]" bs False bs' False bs0] assms show ?thesis
    by (simp add: live_pass_def)
qed

lemma live_loop_rounds:
  assumes "progress fn bs0 0 {} bs"
  shows "\<exists>j \<le> m. live_loop fn m bs = (round fn ^^ j) bs \<and>
    (j = m \<or> round fn (live_loop fn m bs) = live_loop fn m bs)"
  using assms
proof (induction m arbitrary: bs)
  case (Suc m)
  obtain bs' ch where p: "live_pass fn bs = (bs', ch)" by force
  have P': "progress fn bs0 0 {} bs'"
    using round_progress [OF Suc.prems] p low_mono [of fn bs0 0] by (auto simp: progress_def low_def)
  show ?case
  proof (cases ch)
    case True
    from Suc.IH [OF P'] obtain j where "j \<le> m" "live_loop fn m bs' = (round fn ^^ j) bs'"
      "j = m \<or> round fn (live_loop fn m bs') = live_loop fn m bs'" by blast
    moreover have "(round fn ^^ Suc j) bs = (round fn ^^ j) bs'"
      using p by (simp only: funpow_Suc_right o_apply fst_conv)
    ultimately show ?thesis using p True by (intro exI [of _ "Suc j"]) simp
  next
    case False
    have "bs' = bs" using round_unchanged p False Suc.prems by (auto simp: progress_def)
    with p False show ?thesis by (intro exI [of _ 0]) simp
  qed
qed simp

lemma live_loop_exact:
  assumes P: "progress fn bs0 0 {} bs" and m: "Suc (length bs0) < m"
  shows "exact fn bs0 {..<length bs0} (live_loop fn m bs)"
proof -
  let ?r = "live_loop fn m bs"
  from live_loop_rounds [OF P, of m] obtain j where
    j: "?r = (round fn ^^ j) bs" "j = m \<or> round fn ?r = ?r" by blast
  show ?thesis
  proof (cases "j = m")
    case True
    with rounds_exact [OF P m] j(1) show ?thesis by simp
  next
    case False
    then have fix_r: "round fn ?r = ?r" using j(2) by blast
    have "progress fn bs0 j {} ?r" using rounds_progress [OF P, of j] j(1) by simp
    then have P': "progress fn bs0 0 {} ?r" by (simp add: progress_def low_def)
    have "(round fn ^^ i) ?r = ?r" for i by (induction i) (simp_all add: fix_r)
    with rounds_exact [OF P' m] show ?thesis by simp
  qed
qed

section \<open>Reads and writes of a block\<close>

definition reads :: "func \<Rightarrow> nat \<Rightarrow> nat set" where
  "reads fn i = set (valid_vregs (nvregs fn) (insn_reads (insns fn ! i)))"

definition writes :: "func \<Rightarrow> nat \<Rightarrow> nat set" where
  "writes fn i = set (valid_vregs (nvregs fn) (insn_writes (insns fn ! i)))"

text \<open>Read before written, and written, in a sequence of instructions.\<close>

fun read_first :: "func \<Rightarrow> nat list \<Rightarrow> nat set" where
  "read_first fn [] = {}"
| "read_first fn (i # is) = reads fn i \<union> (read_first fn is - writes fn i)"

fun written_in :: "func \<Rightarrow> nat list \<Rightarrow> nat set" where
  "written_in fn [] = {}"
| "written_in fn (i # is) = writes fn i \<union> written_in fn is"

lemma uses_fold:
  assumes "vset_fits k d" "vset_fits k u" "\<forall>v \<in> set vs. v < 64 * k"
  shows "vset_fits k (fold (\<lambda>v u. if vset_test d v then u else vset_set u v) vs u) \<and>
    vset_elems (fold (\<lambda>v u. if vset_test d v then u else vset_set u v) vs u) = vset_elems u \<union> (set vs - vset_elems d)"
  using assms(2,3)
proof (induction vs arbitrary: u)
  case (Cons v vs)
  have v: "v < 64 * k" using Cons.prems by simp
  show ?case
    using Cons vs.mem [OF assms(1) v] vs.ins [OF Cons.prems(1) v] by auto
qed simp

lemma def_use_fold:
  assumes nv: "nvregs fn \<le> 64 * k" and "vset_fits k d" "vset_fits k u"
    and "fold (\<lambda>i. def_use_step (nvregs fn) (insns fn ! i)) is (d, u) = (d', u')"
  shows "vset_fits k d' \<and> vset_fits k u' \<and> vset_elems d' = vset_elems d \<union> written_in fn is \<and>
    vset_elems u' = vset_elems u \<union> (read_first fn is - vset_elems d)"
  using assms(2-)
proof (induction "is" arbitrary: d u)
  case (Cons i "is")
  obtain d1 u1 where s1: "def_use_step (nvregs fn) (insns fn ! i) (d, u) = (d1, u1)" by force
  have small: "\<forall>v \<in> set (valid_vregs (nvregs fn) xs). v < 64 * k" for xs
    using nv valid_vregs_less order_less_le_trans by blast
  have d1: "vset_fits k d1 \<and> vset_elems d1 = vset_elems d \<union> writes fn i"
    using s1 vs.ins_all [OF Cons.prems(1) small] by (auto simp: def_use_step_def writes_def)
  have u1: "vset_fits k u1 \<and> vset_elems u1 = vset_elems u \<union> (reads fn i - vset_elems d)"
    using s1 uses_fold [OF Cons.prems(1,2) small] by (auto simp: def_use_step_def reads_def)
  have "fold (\<lambda>i. def_use_step (nvregs fn) (insns fn ! i)) is (d1, u1) = (d', u')"
    using Cons.prems(3) s1 by simp
  from Cons.IH [OF _ _ this] d1 u1 show ?case by auto
qed simp

lemma block_def_use:
  assumes "nvregs fn \<le> 64 * vset_words fn"
  shows "vset_fits (vset_words fn) (defs (compute_block_def_use fn bb))"
    "vset_fits (vset_words fn) (uses (compute_block_def_use fn bb))"
    "vset_elems (defs (compute_block_def_use fn bb)) = written_in fn [bstart bb..<bend bb]"
    "vset_elems (uses (compute_block_def_use fn bb)) = read_first fn [bstart bb..<bend bb]"
proof -
  let ?f = "fold (\<lambda>i. def_use_step (nvregs fn) (insns fn ! i)) [bstart bb..<bend bb]
    (vset_zero (vset_words fn), vset_zero (vset_words fn))"
  obtain d u where f: "?f = (d, u)" by force
  note z = vs.zero [of "vset_words fn"]
  from def_use_fold [OF assms z(1) z(1) f] z(2) f
  show "vset_fits (vset_words fn) (defs (compute_block_def_use fn bb))"
    "vset_fits (vset_words fn) (uses (compute_block_def_use fn bb))"
    "vset_elems (defs (compute_block_def_use fn bb)) = written_in fn [bstart bb..<bend bb]"
    "vset_elems (uses (compute_block_def_use fn bb)) = read_first fn [bstart bb..<bend bb]"
    by (simp_all add: compute_block_def_use_def)
qed

lemma def_use_other:
  "succs (compute_block_def_use fn bb) = succs bb" "bstart (compute_block_def_use fn bb) = bstart bb"
  "bend (compute_block_def_use fn bb) = bend bb"
  by (simp_all add: compute_block_def_use_def split: prod.split)

lemma init_live_other:
  "succs (init_live fn b bb) = succs bb" "bstart (init_live fn b bb) = bstart bb" "bend (init_live fn b bb) = bend bb"
  "defs (init_live fn b bb) = defs bb" "uses (init_live fn b bb) = uses bb"
  by (simp_all add: init_live_def Let_def)

text \<open>The blocks with which the loop starts.\<close>

definition start_blocks :: "func \<Rightarrow> bblock list" where
  "start_blocks fn = map (\<lambda>b. init_live fn b (compute_block_def_use fn (blocks fn ! b))) [0..<length (blocks fn)]"

lemma compute_cfg_liveness_loop:
  "blocks (compute_cfg_liveness fn) = live_loop fn (length (blocks fn) * 4 + 10) (start_blocks fn)"
proof -
  have "map (\<lambda>b. init_live fn b (map (compute_block_def_use fn) (blocks fn) ! b)) [0..<length (blocks fn)] = start_blocks fn"
    unfolding start_blocks_def by (rule map_cong) auto
  then show ?thesis by (simp add: compute_cfg_liveness_def Let_def)
qed

lemma start_block_fields:
  assumes "b < length (blocks fn)"
  shows "succs (start_blocks fn ! b) = succs (blocks fn ! b)" "bstart (start_blocks fn ! b) = bstart (blocks fn ! b)"
    "bend (start_blocks fn ! b) = bend (blocks fn ! b)"
    "defs (start_blocks fn ! b) = defs (compute_block_def_use fn (blocks fn ! b))"
    "uses (start_blocks fn ! b) = uses (compute_block_def_use fn (blocks fn ! b))"
  using assms by (simp_all add: start_blocks_def init_live_other def_use_other)

lemma length_start [simp]: "length (start_blocks fn) = length (blocks fn)"
  by (simp add: start_blocks_def)

lemma start_progress:
  assumes nv: "nvregs fn \<le> 64 * vset_words fn" and rng: "succs_in_range (blocks fn)"
  shows "progress fn (start_blocks fn) 0 {} (start_blocks fn)"
proof -
  let ?w = "vset_words fn" and ?s = "start_blocks fn"
  let ?ps = "fold (\<lambda>v s. vset_set s v) (valid_vregs (nvregs fn) (reg_params fn)) (vset_zero ?w)"
  note p = params_ins [OF nv vs.zero(1), of "reg_params fn"]
  have in0: "live_in (?s ! b) = (if b = 0 then ?ps else vset_zero ?w)" "live_out (?s ! b) = vset_zero ?w"
    if "b < length (blocks fn)" for b
    using that by (simp_all add: start_blocks_def init_live_def Let_def)
  have "set (valid_vregs (nvregs fn) (reg_params fn)) \<subseteq> set (valid_vregs (nvregs fn) (param_vregs fn))"
    by (auto simp: valid_vregs_def reg_params_def dest: set_zip_leftD)
  then have "inn ?s b \<subseteq> block_gen (fn, ?s) b" if "b < length (blocks fn)" for b
    using in0 [OF that] p(2) by (auto simp: block_gen_def vs.zero)
  then have below: "inn ?s b \<subseteq> live_set fn ?s b" if "b < length (blocks fn)" for b
    using that live_set_unfold [of fn ?s b] by blast
  have "rounds_of fn ?s ?s"
    using nv rng in0 p(1) vs.zero(1) block_def_use(1,2) [OF nv]
    by (auto simp: rounds_of_def succs_in_range_def start_block_fields)
  with below show ?thesis by (simp add: progress_def low_def)
qed

lemma liveness_exact:
  assumes "nvregs fn \<le> 64 * vset_words fn" and "succs_in_range (blocks fn)"
  shows "exact fn (start_blocks fn) {..<length (blocks fn)} (blocks (compute_cfg_liveness fn))"
  unfolding compute_cfg_liveness_loop
  using live_loop_exact [OF start_progress [OF assms], of "length (blocks fn) * 4 + 10"] by simp

section \<open>Liveness of instructions\<close>

text \<open>
  The specification, on the steps of the function: a register is live before an instruction when
  the instruction reads it, or when the instruction does not write it and it is live before one
  that may follow. The parameters count as live at the entry.
\<close>

inductive live_before :: "func \<Rightarrow> nat \<Rightarrow> nat \<Rightarrow> bool" for fn where
  live_read: "i < length (insns fn) \<Longrightarrow> v \<in> reads fn i \<Longrightarrow> live_before fn i v"
| live_param: "insns fn \<noteq> [] \<Longrightarrow> v \<in> set (valid_vregs (nvregs fn) (param_vregs fn)) \<Longrightarrow> live_before fn 0 v"
| live_step: "i < length (insns fn) \<Longrightarrow> j \<in> set (next_pos (insns fn) i) \<Longrightarrow> live_before fn j v \<Longrightarrow>
    v \<notin> writes fn i \<Longrightarrow> live_before fn i v"

definition live_after :: "func \<Rightarrow> nat \<Rightarrow> nat \<Rightarrow> bool" where
  "live_after fn i v \<longleftrightarrow> (\<exists>j \<in> set (next_pos (insns fn) i). live_before fn j v)"

text \<open>What is live at a place inside a block, computed backwards from its end.\<close>

definition live_at :: "func \<Rightarrow> bblock list \<Rightarrow> nat \<Rightarrow> nat \<Rightarrow> nat set" where
  "live_at fn bs b i =
     read_first fn [i..<bend (bs ! b)] \<union> (live_outs fn (start_blocks fn) b - written_in fn [i..<bend (bs ! b)]) \<union>
     (if i = 0 then set (valid_vregs (nvregs fn) (param_vregs fn)) else {})"

lemma live_at_step:
  "i < bend (bs ! b) \<Longrightarrow> v \<notin> writes fn i \<Longrightarrow> v \<in> live_at fn bs b (i + 1) \<Longrightarrow> v \<in> live_at fn bs b i"
  by (auto simp: live_at_def upt_conv_Cons)

lemma build_cfg_same: "insns (build_cfg f) = insns f" "nvregs (build_cfg f) = nvregs f" "param_vregs (build_cfg f) = param_vregs f"
  by (simp_all add: build_cfg_def fn_prepare_vsets_def nvregs_def Let_def)

lemma build_cfg_words: "nvregs (build_cfg f) \<le> 64 * vset_words (build_cfg f)"
proof -
  have "n \<le> 64 * ((n + 63) div 64)" for n :: nat by presburger
  then show ?thesis by (auto simp: build_cfg_def fn_prepare_vsets_def nvregs_def Let_def)
qed

lemma build_cfg_range: "succs_in_range (blocks (build_cfg f))"
  using build_cfg_ok [of f] by (simp add: cfg_ok_def succs_in_range_def)

lemma first_block:
  assumes "bs = blocks (build_cfg f)" and "b < length bs"
  shows "bstart (bs ! b) = 0 \<longleftrightarrow> b = 0"
proof -
  have ok: "cfg_ok (insns f) bs" using assms(1) build_cfg_ok by simp
  have ne: "insns f \<noteq> []" using ok assms(2) by (force simp: cfg_ok_def)
  have "bstart (bs ! b) > 0" if b0: "b \<noteq> 0"
  proof -
    obtain c where b: "b = c + 1" using b0 by (cases b) auto
    then have "bend (bs ! c) = bstart (bs ! b)" using ok assms(2) by (simp add: cfg_ok_def)
    moreover have "bstart (bs ! c) < bend (bs ! c)"
      using ok assms(2) b unfolding cfg_ok_def by (metis add_lessD1)
    ultimately show ?thesis by simp
  qed
  moreover have "bstart (bs ! 0) = 0" using ok ne by (auto simp: cfg_ok_def hd_conv_nth)
  ultimately show ?thesis by (cases "b = 0") auto
qed

lemma live_set_at:
  assumes fn: "fn = build_cfg f" and b: "b < length (blocks fn)"
  shows "live_set fn (start_blocks fn) b = live_at fn (blocks fn) b (bstart (blocks fn ! b))"
proof -
  have nv: "nvregs fn \<le> 64 * vset_words fn" using build_cfg_words fn by simp
  have "bstart (blocks fn ! b) = 0 \<longleftrightarrow> b = 0" using first_block [OF _ b] fn by simp
  then show ?thesis
    using live_set_unfold [of fn "start_blocks fn" b]
    by (auto simp: live_at_def block_gen_def block_kill_def start_block_fields [OF b] block_def_use [OF nv])
qed

lemma live_before_at:
  assumes "live_before fn i v" and fn: "fn = build_cfg f"
  shows "b < length (blocks fn) \<Longrightarrow> bstart (blocks fn ! b) \<le> i \<Longrightarrow> i < bend (blocks fn ! b) \<Longrightarrow>
    v \<in> live_at fn (blocks fn) b i"
  using assms(1)
proof (induction arbitrary: b rule: live_before.induct)
  case (live_step i j v)
  note step = cfg_step [OF refl, of b f i, folded fn, OF live_step.prems]
  have is_f: "insns f = insns fn" using fn by (simp add: build_cfg_same)
  show ?case
  proof (cases "i + 1 < bend (blocks fn ! b)")
    case True
    then have "j = i + 1" using step live_step.hyps(2) is_f by simp
    then have "v \<in> live_at fn (blocks fn) b (i + 1)"
      using live_step.IH [of b] live_step.prems True by simp
    then show ?thesis by (rule live_at_step [OF live_step.prems(3) live_step.hyps(4)])
  next
    case False
    then obtain c where c: "c \<in> set (succs (blocks fn ! b))" "j = bstart (blocks fn ! c)"
      using step live_step.hyps(2) is_f by auto
    have cb: "c < length (blocks fn)"
      using build_cfg_range [of f] c(1) live_step.prems(1) fn by (auto simp: succs_in_range_def)
    have "bstart (blocks fn ! c) < bend (blocks fn ! c)" using build_cfg_ok [of f] cb fn by (simp add: cfg_ok_def)
    then have "v \<in> live_set fn (start_blocks fn) c"
      using live_step.IH [of c] cb c(2) live_set_at [OF fn cb] by simp
    then have "v \<in> live_outs fn (start_blocks fn) b"
      using c(1) live_step.prems(1) by (auto simp: live_outs_def start_block_fields)
    moreover have "bend (blocks fn ! b) = i + 1" using False live_step.prems by simp
    ultimately show ?thesis using live_step.hyps(4) by (simp add: live_at_def)
  qed
qed (auto simp: live_at_def upt_conv_Cons)

lemma live_at_before:
  assumes fn: "fn = build_cfg f" and b: "b < length (blocks fn)"
    and outs: "\<And>c v. c \<in> set (succs (blocks fn ! b)) \<Longrightarrow> v \<in> L c \<Longrightarrow> live_before fn (bstart (blocks fn ! c)) v"
    and i: "bstart (blocks fn ! b) \<le> i" "i < bend (blocks fn ! b)"
    and v: "v \<in> read_first fn [i..<bend (blocks fn ! b)] \<union>
      ((\<Union>c \<in> set (succs (blocks fn ! b)). L c) - written_in fn [i..<bend (blocks fn ! b)])"
  shows "live_before fn i v"
  using i v
proof (induction "bend (blocks fn ! b) - i" arbitrary: i)
  case (Suc k)
  have is_f: "insns f = insns fn" using fn by (simp add: build_cfg_same)
  note step = cfg_step [OF refl, of b f i, folded fn, OF b Suc.prems(1,2), unfolded is_f]
  have "bend (blocks fn ! b) \<le> length (insns fn)"
    using build_cfg_ok [of f] b fn by (simp add: cfg_ok_def build_cfg_same)
  then have il: "i < length (insns fn)" using Suc.prems by simp
  show ?case
  proof (cases "v \<in> reads fn i")
    case False
    have w: "v \<notin> writes fn i" using Suc.prems False by (auto simp: upt_conv_Cons)
    show ?thesis
    proof (cases "i + 1 < bend (blocks fn ! b)")
      case True
      have "live_before fn (i + 1) v"
        by (rule Suc.hyps(1)) (use Suc.prems Suc.hyps(2) True False in \<open>auto simp: upt_conv_Cons\<close>)
      then show ?thesis using live_step [OF il _ _ w] step True by simp
    next
      case last_pos: False
      then have "bend (blocks fn ! b) = i + 1" using Suc.prems by simp
      with Suc.prems(3) False obtain c where c: "c \<in> set (succs (blocks fn ! b))" "v \<in> L c" by auto
      show ?thesis by (rule live_step [OF il _ outs [OF c] w]) (use step last_pos c in auto)
    qed
  qed (use il live_read in blast)
qed simp

lemma gen_before:
  assumes fn: "fn = build_cfg f" and b: "b < length (blocks fn)"
    and outs: "\<And>c v. c \<in> set (succs (blocks fn ! b)) \<Longrightarrow> v \<in> L c \<Longrightarrow> live_before fn (bstart (blocks fn ! c)) v"
    and v: "v \<in> block_gen (fn, start_blocks fn) b \<union>
      ((\<Union>c \<in> set (succs (blocks fn ! b)). L c) - block_kill (fn, start_blocks fn) b)"
  shows "live_before fn (bstart (blocks fn ! b)) v"
proof (cases "b = 0 \<and> v \<in> set (valid_vregs (nvregs fn) (param_vregs fn))")
  case True
  have "bstart (blocks fn ! b) = 0" using first_block [OF _ b] True fn by simp
  moreover have "insns fn \<noteq> []" using build_cfg_ok [of f] b fn by (force simp: cfg_ok_def build_cfg_same)
  ultimately show ?thesis using True by (simp add: live_param)
next
  case False
  have nv: "nvregs fn \<le> 64 * vset_words fn" using build_cfg_words fn by simp
  have "bstart (blocks fn ! b) < bend (blocks fn ! b)" using build_cfg_ok [of f] b fn by (simp add: cfg_ok_def)
  then show ?thesis
    by (intro live_at_before [OF fn b outs order_refl])
      (use v False in \<open>auto simp: block_gen_def block_kill_def start_block_fields [OF b] block_def_use [OF nv] split: if_splits\<close>)
qed

lemma live_set_before:
  assumes fn: "fn = build_cfg f" and b: "b < length (blocks fn)" and v: "v \<in> live_set fn (start_blocks fn) b"
  shows "live_before fn (bstart (blocks fn ! b)) v"
proof -
  have "live_before fn (bstart (blocks fn ! b)) v"
    if "v \<in> lv.live_within (fn, start_blocks fn) k b" "b < length (blocks fn)" for k b v
    using that
  proof (induction k arbitrary: b v)
    case 0
    then show ?case by (intro gen_before [OF fn 0(2), where L = "\<lambda>_. {}"]) auto
  next
    case (Suc k)
    have "c < length (blocks fn)" if "c \<in> set (succs (blocks fn ! b))" for c
      using build_cfg_range [of f] that Suc.prems(2) fn by (auto simp: succs_in_range_def)
    then have "live_before fn (bstart (blocks fn ! c)) v"
      if "c \<in> set (succs (blocks fn ! b))" "v \<in> lv.live_within (fn, start_blocks fn) k c" for c v
      using that by (intro Suc.IH)
    then show ?case
      by (rule gen_before [OF fn Suc.prems(2)]) (use Suc.prems in \<open>simp_all add: start_block_fields\<close>)
  qed
  with v b show ?thesis by (auto simp: lv.live_def)
qed

lemma live_set_iff:
  assumes fn: "fn = build_cfg f" and b: "b < length (blocks fn)"
  shows "v \<in> live_set fn (start_blocks fn) b \<longleftrightarrow> live_before fn (bstart (blocks fn ! b)) v"
proof -
  have "bstart (blocks fn ! b) < bend (blocks fn ! b)" using build_cfg_ok [of f] b fn by (simp add: cfg_ok_def)
  then show ?thesis
    using live_set_before [OF fn b] live_before_at [OF _ fn b order_refl] live_set_at [OF fn b] by auto
qed

lemma live_outs_iff:
  assumes fn: "fn = build_cfg f" and b: "b < length (blocks fn)"
  shows "v \<in> live_outs fn (start_blocks fn) b \<longleftrightarrow> live_after fn (bend (blocks fn ! b) - 1) v"
proof -
  have "bstart (blocks fn ! b) < bend (blocks fn ! b)" using build_cfg_ok [of f] b fn by (simp add: cfg_ok_def)
  then have "set (next_pos (insns fn) (bend (blocks fn ! b) - 1)) = (\<lambda>c. bstart (blocks fn ! c)) ` set (succs (blocks fn ! b))"
    using cfg_step [OF refl, of b f "bend (blocks fn ! b) - 1", folded fn, OF b] fn by (simp add: build_cfg_same)
  moreover have "c < length (blocks fn)" if "c \<in> set (succs (blocks fn ! b))" for c
    using build_cfg_range [of f] that b fn by (auto simp: succs_in_range_def)
  ultimately show ?thesis
    using live_set_iff [OF fn] by (auto simp: live_after_def live_outs_def start_block_fields [OF b])
qed

text \<open>
  (C20) The liveness analysis is exact. The rounds stop at the bound of four times the number of
  blocks plus ten at the latest, and what they leave at the start of a block is the set of the
  registers that are live before its first instruction, at its end those live after its last.
\<close>

theorem liveness_is_exact:
  assumes "fn = build_cfg f" and "bs = blocks (compute_cfg_liveness fn)" and "b < length bs"
  shows "vset_elems (live_in (bs ! b)) = {v. live_before fn (bstart (blocks fn ! b)) v} \<and>
    vset_elems (live_out (bs ! b)) = {v. live_after fn (bend (blocks fn ! b) - 1) v}"
proof -
  have E: "exact fn (start_blocks fn) {..<length (blocks fn)} bs"
    using liveness_exact [of fn] build_cfg_words build_cfg_range assms(1,2) by simp
  then have len: "b < length (blocks fn)" using assms(3) by (simp add: exact_def rounds_of_def)
  with E show ?thesis
    using live_set_iff [OF assms(1) len] live_outs_iff [OF assms(1) len] by (auto simp: exact_def)
qed

theorem liveness_is_exact_witness:
  "let fn = build_cfg loop_fn; bs = blocks (compute_cfg_liveness fn)
   in vset_members (live_in (bs ! 1)) = [0, 1] \<and> {v. live_before fn 1 v} = {0, 1}"
proof -
  let ?fn = "build_cfg loop_fn"
  let ?bs = "blocks (compute_cfg_liveness ?fn)"
  have m: "vset_members (live_in (?bs ! 1)) = [0, 1]" by code_simp
  have "1 < length ?bs" "bstart (blocks ?fn ! 1) = 1" by code_simp+
  with liveness_is_exact [OF refl refl, of 1 loop_fn]
  have "{v. live_before ?fn 1 v} = set (vset_members (live_in (?bs ! 1)))" by (simp add: set_vset_members)
  then have "{v. live_before ?fn 1 v} = {0, 1}" by (simp only: m list.set)
  with m show ?thesis by (simp add: Let_def)
qed

end
