(* ===== verification/Bind_IGraph.thy ===== *)
theory Bind_IGraph
  imports Bind_Live_Facts
begin

text \<open>
  The interference graph, \<^verbatim>\<open>add_interference\<close> and \<^verbatim>\<open>build_igraph\<close> of
  \<^verbatim>\<open>src/bind.c\<close>. Every block is walked backwards from its live-out set; each register
  that an instruction defines gets an edge to everything in the running live set. The rows of the
  graph stay symmetric, loop free and in step with the degrees.
\<close>

section \<open>The operations\<close>

definition vregs_interfere :: "func \<Rightarrow> int \<Rightarrow> int \<Rightarrow> bool" where
  "vregs_interfere fn a b =
     (if a < 0 \<or> b < 0 \<or> a \<ge> int (nvregs fn) \<or> b \<ge> int (nvregs fn) then False
      else vset_test (igraph fn ! nat a) (nat b))"

definition add_interference :: "func \<Rightarrow> int \<Rightarrow> int \<Rightarrow> func" where
  "add_interference fn a b =
     (if a = b \<or> a < 0 \<or> b < 0 \<or> a \<ge> int (nvregs fn) \<or> b \<ge> int (nvregs fn) then fn
      else if vset_test (igraph fn ! nat a) (nat b) then fn
      else let g = (igraph fn)[nat a := vset_set (igraph fn ! nat a) (nat b)];
               g = g[nat b := vset_set (g ! nat b) (nat a)];
               d = (degree fn)[nat a := degree fn ! nat a + 1];
               d = d[nat b := d ! nat b + 1]
           in fn\<lparr>igraph := g, degree := d\<rparr>)"

text \<open>\<^verbatim>\<open>add_interference(fn, def, v)\<close> for every \<^verbatim>\<open>v\<close> of the live set.\<close>

definition interfere_all :: "func \<Rightarrow> nat \<Rightarrow> vset \<Rightarrow> func" where
  "interfere_all fn d live = fold (\<lambda>v fn. add_interference fn (int d) (int v)) (vset_members live) fn"

definition is_copy :: "ir_insn \<Rightarrow> bool" where
  "is_copy ins \<longleftrightarrow> op ins = IR_MOV \<and> \<not> has_imm ins"

text \<open>A definition: edges to everything live, then the register leaves the live set.\<close>

definition igraph_define :: "nat \<Rightarrow> func \<times> vset \<Rightarrow> func \<times> vset" where
  "igraph_define d = (\<lambda>(fn, live). (interfere_all fn d live, vset_clear live d))"

definition igraph_insn :: "nat \<Rightarrow> func \<times> vset \<Rightarrow> func \<times> vset" where
  "igraph_insn i = (\<lambda>(fn, live).
     let ins = insns fn ! i; nv = nvregs fn;
         live = (if is_copy ins then live else fold (\<lambda>v s. vset_set s v) (valid_vregs nv (insn_reads ins)) live);
         (fn, live) = fold igraph_define (valid_vregs nv (insn_writes ins)) (fn, live)
     in (fn, if is_copy ins then fold (\<lambda>v s. vset_set s v) (valid_vregs nv [src1 ins]) live else live))"

text \<open>The members above \<^verbatim>\<open>b1\<close>, with the masks of the source.\<close>

definition members_above :: "vset \<Rightarrow> nat \<Rightarrow> nat list" where
  "members_above live b1 =
     (let w1 = b1 div 64; m = push_bit (b1 mod 64) 1
      in concat (map (\<lambda>w2.
           let bits2 = (if w2 = w1 then live ! w2 AND NOT m else live ! w2);
               bits2 = (if w2 = w1 then bits2 AND NOT (m OR (m - 1)) else bits2)
           in map (\<lambda>b. w2 * 64 + b) (word_members bits2)) [w1..<length live]))"

definition igraph_top :: "func \<times> vset \<Rightarrow> func" where
  "igraph_top = (\<lambda>(fn, live).
     fold (\<lambda>b1 fn. fold (\<lambda>b2 fn. add_interference fn (int b1) (int b2)) (members_above live b1) fn)
       (vset_members live) fn)"

definition igraph_block :: "bblock \<Rightarrow> func \<Rightarrow> func" where
  "igraph_block bb fn = igraph_top (fold igraph_insn (rev [bstart bb..<bend bb]) (fn, live_out bb))"

definition clear_igraph :: "func \<Rightarrow> func" where
  "clear_igraph fn =
     fn\<lparr>igraph := replicate (nvregs fn) (vset_zero (vset_words fn)), degree := replicate (nvregs fn) 0\<rparr>"

definition build_igraph :: "func \<Rightarrow> func" where
  "build_igraph fn = fold igraph_block (blocks fn) (clear_igraph fn)"

section \<open>Edges\<close>

definition edges :: "func \<Rightarrow> (nat \<times> nat) set" where
  "edges fn = {(a, b). a < nvregs fn \<and> b \<in> vset_elems (igraph fn ! a)}"

text \<open>What is kept of the graph: symmetric, without loops, and the degree of a register is the
  number of its neighbours.\<close>

definition igraph_ok :: "func \<Rightarrow> bool" where
  "igraph_ok fn \<longleftrightarrow>
     nvregs fn \<le> 64 * vset_words fn \<and> length (igraph fn) = nvregs fn \<and> length (degree fn) = nvregs fn \<and>
     (\<forall>a < nvregs fn. vset_fits (vset_words fn) (igraph fn ! a) \<and>
        vset_elems (igraph fn ! a) \<subseteq> {..<nvregs fn} - {a} \<and>
        degree fn ! a = int (card (vset_elems (igraph fn ! a)))) \<and>
     sym (edges fn)"

definition same_code :: "func \<Rightarrow> func \<Rightarrow> bool" where
  "same_code fn fn' \<longleftrightarrow> fn' = fn\<lparr>igraph := igraph fn', degree := degree fn'\<rparr>"

lemma same_code_refl [simp]: "same_code fn fn"
  by (simp add: same_code_def)

lemma same_code_trans: "same_code fn fn1 \<Longrightarrow> same_code fn1 fn2 \<Longrightarrow> same_code fn fn2"
  by (cases fn; cases fn1; cases fn2) (simp add: same_code_def)

lemma same_code_fields:
  assumes "same_code fn fn'"
  shows "insns fn' = insns fn" "nvregs fn' = nvregs fn" "vregs fn' = vregs fn" "blocks fn' = blocks fn"
    "vset_words fn' = vset_words fn"
  using assms by (cases fn; cases fn'; simp add: same_code_def nvregs_def)+

definition new_edges :: "func \<Rightarrow> (nat \<times> nat) set \<Rightarrow> (nat \<times> nat) set" where
  "new_edges fn P = {(a, b). (a, b) \<in> P \<union> P\<inverse> \<and> a \<noteq> b \<and> a < nvregs fn \<and> b < nvregs fn}"

lemma new_edges_un: "new_edges fn (P \<union> Q) = new_edges fn P \<union> new_edges fn Q"
  by (auto simp: new_edges_def)

lemma new_edges_empty [simp]: "new_edges fn {} = {}"
  by (simp add: new_edges_def)

text \<open>\<open>fn'\<close> has the graph of \<open>fn\<close> and the edges of \<open>P\<close>.\<close>

definition grown :: "func \<Rightarrow> (nat \<times> nat) set \<Rightarrow> func \<Rightarrow> bool" where
  "grown fn P fn' \<longleftrightarrow> igraph_ok fn' \<and> same_code fn fn' \<and> edges fn' = edges fn \<union> new_edges fn P"

lemma grown_refl: "igraph_ok fn \<Longrightarrow> grown fn {} fn"
  by (simp add: grown_def)

lemma grown_trans: "grown fn P fn1 \<Longrightarrow> grown fn1 Q fn2 \<Longrightarrow> grown fn (P \<union> Q) fn2"
  by (auto simp: grown_def new_edges_un intro: same_code_trans)
    (auto simp: new_edges_def same_code_fields)

lemma grown_ok: "grown fn P fn' \<Longrightarrow> igraph_ok fn'"
  by (simp add: grown_def)

lemma grown_fields:
  assumes "grown fn P fn'"
  shows "insns fn' = insns fn" "nvregs fn' = nvregs fn" "vregs fn' = vregs fn" "blocks fn' = blocks fn"
    "vset_words fn' = vset_words fn"
  using assms by (simp_all add: grown_def same_code_fields)

lemma igraph_rowD:
  assumes "igraph_ok fn" "a < nvregs fn"
  shows "vset_fits (vset_words fn) (igraph fn ! a)" "vset_elems (igraph fn ! a) \<subseteq> {..<nvregs fn} - {a}"
    "degree fn ! a = int (card (vset_elems (igraph fn ! a)))" "finite (vset_elems (igraph fn ! a))"
    "nvregs fn \<le> 64 * vset_words fn"
  using assms by (auto simp: igraph_ok_def intro: finite_subset)

lemma vregs_interfere_edges:
  assumes "igraph_ok fn"
  shows "vregs_interfere fn (int a) (int b) \<longleftrightarrow> (a, b) \<in> edges fn"
proof (cases "a < nvregs fn \<and> b < nvregs fn")
  case True
  then have "vset_test (igraph fn ! a) b \<longleftrightarrow> b \<in> vset_elems (igraph fn ! a)"
    using igraph_rowD [OF assms, of a] by (intro vs.mem [of "vset_words fn"]) auto
  with True show ?thesis by (simp add: vregs_interfere_def edges_def)
next
  case False
  then show ?thesis using igraph_rowD(2) [OF assms, of a] by (auto simp: vregs_interfere_def edges_def)
qed


section \<open>What each operation adds\<close>

lemma row_after_insert:
  assumes ok: "igraph_ok fn" and ab: "a < nvregs fn" "b < nvregs fn" "a \<noteq> b"
    and no: "b \<notin> vset_elems (igraph fn ! a)"
    and fn': "fn' = fn\<lparr>igraph := (igraph fn)[a := vset_set (igraph fn ! a) b, b := vset_set (igraph fn ! b) a],
                degree := (degree fn)[a := degree fn ! a + 1, b := degree fn ! b + 1]\<rparr>"
  shows "grown fn {(a, b)} fn'"
proof -
  let ?w = "vset_words fn"
  note ra = igraph_rowD [OF ok ab(1)] and rb = igraph_rowD [OF ok ab(2)]
  have sym: "sym (edges fn)" using ok by (simp add: igraph_ok_def)
  have no': "a \<notin> vset_elems (igraph fn ! b)" using symD [OF sym, of b a] no ab by (auto simp: edges_def)
  have sa: "vset_fits ?w (vset_set (igraph fn ! a) b)" "vset_elems (vset_set (igraph fn ! a) b) = insert b (vset_elems (igraph fn ! a))"
    using vs.ins [OF ra(1), of b] ra(5) ab by simp_all
  have sb: "vset_fits ?w (vset_set (igraph fn ! b) a)" "vset_elems (vset_set (igraph fn ! b) a) = insert a (vset_elems (igraph fn ! b))"
    using vs.ins [OF rb(1), of a] rb(5) ab by simp_all
  have nv: "nvregs fn' = nvregs fn" "vset_words fn' = ?w" by (simp_all add: fn' nvregs_def)
  have len: "length (igraph fn) = nvregs fn" "length (degree fn) = nvregs fn" using ok by (simp_all add: igraph_ok_def)
  have row: "igraph fn' ! c = (if c = b then vset_set (igraph fn ! b) a else if c = a then vset_set (igraph fn ! a) b else igraph fn ! c)"
    "degree fn' ! c = (if c = b then degree fn ! b + 1 else if c = a then degree fn ! a + 1 else degree fn ! c)" for c
    using ab len by (simp_all add: fn' nth_list_update)
  have E: "edges fn' = edges fn \<union> new_edges fn {(a, b)}"
    using ab sa(2) sb(2) by (auto simp: edges_def new_edges_def nv row split: if_splits)
  have S: "sym (edges fn')" unfolding E by (rule sym_Un [OF sym]) (auto simp: sym_def new_edges_def)
  have "vset_fits ?w (igraph fn' ! c) \<and> vset_elems (igraph fn' ! c) \<subseteq> {..<nvregs fn} - {c} \<and>
      degree fn' ! c = int (card (vset_elems (igraph fn' ! c)))" if "c < nvregs fn" for c
    using igraph_rowD(1-3) [OF ok that] ab sa sb ra(2-4) rb(2-4) no no' by (auto simp: row)
  then have "igraph_ok fn'" using S ok by (simp add: igraph_ok_def nv) (simp add: fn' nvregs_def)
  moreover have "same_code fn fn'" by (simp add: same_code_def fn')
  ultimately show ?thesis using E by (simp add: grown_def)
qed

lemma add_interference_grown:
  assumes ok: "igraph_ok fn"
  shows "grown fn {(a, b)} (add_interference fn (int a) (int b))"
proof (cases "a = b \<or> a \<ge> nvregs fn \<or> b \<ge> nvregs fn \<or> (a, b) \<in> edges fn")
  case True
  have sub: "edges fn \<union> new_edges fn {(a, b)} = edges fn"
    using True ok by (auto simp: new_edges_def igraph_ok_def sym_def)
  have "vset_test (igraph fn ! a) b" if "(a, b) \<in> edges fn" "a < nvregs fn" "b < nvregs fn"
    using that vregs_interfere_edges [OF ok, of a b] by (simp add: vregs_interfere_def)
  then have "add_interference fn (int a) (int b) = fn"
    using True by (cases "a = b \<or> a \<ge> nvregs fn \<or> b \<ge> nvregs fn") (simp_all add: add_interference_def)
  with sub ok show ?thesis by (simp add: grown_def)
next
  case False
  then have no: "b \<notin> vset_elems (igraph fn ! a)" and ab: "a < nvregs fn" "b < nvregs fn" "a \<noteq> b"
    by (auto simp: edges_def)
  have "\<not> vset_test (igraph fn ! a) b"
    using vregs_interfere_edges [OF ok, of a b] False by (simp add: vregs_interfere_def)
  then have "add_interference fn (int a) (int b) =
      fn\<lparr>igraph := (igraph fn)[a := vset_set (igraph fn ! a) b, b := vset_set (igraph fn ! b) a],
         degree := (degree fn)[a := degree fn ! a + 1, b := degree fn ! b + 1]\<rparr>"
    using ab by (simp add: add_interference_def Let_def)
  with row_after_insert [OF ok ab no] show ?thesis by simp
qed

lemma fold_grown:
  assumes step: "\<And>x fn. x \<in> set xs \<Longrightarrow> igraph_ok fn \<Longrightarrow> grown fn (P x) (f x fn)" and "igraph_ok fn"
  shows "grown fn (\<Union>x \<in> set xs. P x) (fold f xs fn)"
  using assms
proof (induction xs arbitrary: fn)
  case (Cons x xs)
  have g: "grown fn (P x) (f x fn)" using Cons.prems by simp
  have "grown (f x fn) (\<Union>x \<in> set xs. P x) (fold f xs (f x fn))"
    using Cons.IH Cons.prems(1) grown_ok [OF g] by simp
  with grown_trans [OF g] show ?case by simp
qed (simp add: grown_refl)

lemma interfere_all_grown:
  assumes "igraph_ok fn"
  shows "grown fn ({d} \<times> vset_elems live) (interfere_all fn d live)"
proof -
  have "grown fn (\<Union>v \<in> set (vset_members live). {(d, v)}) (interfere_all fn d live)"
    unfolding interfere_all_def by (rule fold_grown [OF add_interference_grown assms])
  moreover have "(\<Union>v \<in> set (vset_members live). {(d, v)}) = {d} \<times> vset_elems live"
    by (auto simp: set_vset_members)
  ultimately show ?thesis by simp
qed

text \<open>The edges of a sequence of definitions.\<close>

fun def_pairs :: "nat list \<Rightarrow> nat set \<Rightarrow> (nat \<times> nat) set" where
  "def_pairs [] L = {}"
| "def_pairs (w # ws) L = ({w} \<times> L) \<union> def_pairs ws (L - {w})"

lemma igraph_define_app: "igraph_define d (fn, live) = (interfere_all fn d live, vset_clear live d)"
  by (simp add: igraph_define_def)

lemma igraph_defines:
  assumes "igraph_ok fn" and "vset_fits (vset_words fn) live" and "\<forall>w \<in> set ws. w < nvregs fn"
    and "fold igraph_define ws (fn, live) = (fn', live')"
  shows "grown fn (def_pairs ws (vset_elems live)) fn' \<and> vset_fits (vset_words fn) live' \<and>
    vset_elems live' = vset_elems live - set ws"
  using assms
proof (induction ws arbitrary: fn live)
  case Nil
  then show ?case by (simp add: grown_refl)
next
  case (Cons w ws)
  let ?fn1 = "interfere_all fn w live" and ?live1 = "vset_clear live w"
  have g: "grown fn ({w} \<times> vset_elems live) ?fn1" by (rule interfere_all_grown [OF Cons.prems(1)])
  have "w < 64 * vset_words fn" using Cons.prems(1,3) by (auto simp: igraph_ok_def)
  note cl = vs.del [OF Cons.prems(2) this]
  have rest: "fold igraph_define ws (?fn1, ?live1) = (fn', live')"
    using Cons.prems(4) by (simp add: igraph_define_app)
  have "grown ?fn1 (def_pairs ws (vset_elems ?live1)) fn' \<and> vset_fits (vset_words ?fn1) live' \<and>
      vset_elems live' = vset_elems ?live1 - set ws"
    by (rule Cons.IH [OF grown_ok [OF g] _ _ rest]) (use Cons.prems(3) cl grown_fields [OF g] in auto)
  with grown_trans [OF g] cl grown_fields [OF g] show ?case by auto
qed

section \<open>Walking a block\<close>

text \<open>The running live set before and at an instruction, from the one after it.\<close>

definition at_defs :: "func \<Rightarrow> nat \<Rightarrow> nat set \<Rightarrow> nat set" where
  "at_defs fn i L = L \<union> (if is_copy (insns fn ! i) then {} else reads fn i)"

definition walk_up :: "func \<Rightarrow> nat \<Rightarrow> nat set \<Rightarrow> nat set" where
  "walk_up fn i L =
     (at_defs fn i L - writes fn i) \<union>
     (if is_copy (insns fn ! i) then set (valid_vregs (nvregs fn) [src1 (insns fn ! i)]) else {})"

definition insn_pairs :: "func \<Rightarrow> nat \<Rightarrow> nat set \<Rightarrow> (nat \<times> nat) set" where
  "insn_pairs fn i L = def_pairs (valid_vregs (nvregs fn) (insn_writes (insns fn ! i))) (at_defs fn i L)"

lemma igraph_insn_step:
  assumes ok: "igraph_ok fn" and fit: "vset_fits (vset_words fn) live" and "igraph_insn i (fn, live) = (fn', live')"
  shows "grown fn (insn_pairs fn i (vset_elems live)) fn' \<and> vset_fits (vset_words fn) live' \<and>
    vset_elems live' = walk_up fn i (vset_elems live)"
proof -
  let ?ins = "insns fn ! i" and ?nv = "nvregs fn" and ?k = "vset_words fn"
  have small: "\<forall>v \<in> set (valid_vregs ?nv xs). v < 64 * ?k" for xs
    using ok valid_vregs_less by (force simp: igraph_ok_def)
  define l1 where "l1 = (if is_copy ?ins then live else fold (\<lambda>v s. vset_set s v) (valid_vregs ?nv (insn_reads ?ins)) live)"
  have l1: "vset_fits ?k l1 \<and> vset_elems l1 = at_defs fn i (vset_elems live)"
    using vs.ins_all [OF fit small] fit by (auto simp: l1_def at_defs_def reads_def)
  obtain fn2 l2 where d: "fold igraph_define (valid_vregs ?nv (insn_writes ?ins)) (fn, l1) = (fn2, l2)" by force
  note D = igraph_defines [OF ok conjunct1 [OF l1] _ d]
  have res: "fn' = fn2" "live' = (if is_copy ?ins then fold (\<lambda>v s. vset_set s v) (valid_vregs ?nv [src1 ?ins]) l2 else l2)"
    using assms(3) d by (auto simp: igraph_insn_def Let_def l1_def)
  have D': "grown fn (insn_pairs fn i (vset_elems live)) fn2" "vset_fits ?k l2"
    "vset_elems l2 = at_defs fn i (vset_elems live) - writes fn i"
    using D l1 valid_vregs_less by (auto simp: insn_pairs_def writes_def)
  then show ?thesis using vs.ins_all [OF D'(2) small] by (auto simp: res walk_up_def)
qed

lemma walk_cong:
  "insns fn' = insns fn \<Longrightarrow> nvregs fn' = nvregs fn \<Longrightarrow> walk_up fn' = walk_up fn \<and> insn_pairs fn' = insn_pairs fn"
  by (intro conjI ext) (simp_all add: walk_up_def insn_pairs_def at_defs_def reads_def writes_def)

text \<open>The pairs of a walk, from the last instruction upwards.\<close>

fun walk_pairs :: "func \<Rightarrow> nat list \<Rightarrow> nat set \<Rightarrow> (nat \<times> nat) set" where
  "walk_pairs fn [] L = {}"
| "walk_pairs fn (i # is) L = insn_pairs fn i L \<union> walk_pairs fn is (walk_up fn i L)"

lemma walk_pairs_cong:
  assumes "insns fn' = insns fn" "nvregs fn' = nvregs fn"
  shows "walk_pairs fn' is L = walk_pairs fn is L"
  by (induction "is" arbitrary: L) (simp_all add: walk_cong [OF assms])

lemma igraph_walk:
  assumes "igraph_ok fn" and "vset_fits (vset_words fn) live" and "fold igraph_insn is (fn, live) = (fn', live')"
  shows "grown fn (walk_pairs fn is (vset_elems live)) fn' \<and> vset_fits (vset_words fn) live' \<and>
    vset_elems live' = fold (walk_up fn) is (vset_elems live)"
  using assms
proof (induction "is" arbitrary: fn live)
  case Nil
  then show ?case by (simp add: grown_refl)
next
  case (Cons i "is")
  obtain fn1 l1 where s1: "igraph_insn i (fn, live) = (fn1, l1)" by force
  note st = igraph_insn_step [OF Cons.prems(1,2) s1]
  then have g: "grown fn (insn_pairs fn i (vset_elems live)) fn1" by blast
  have sc: "same_code fn fn1" using g by (simp add: grown_def)
  have rest: "fold igraph_insn is (fn1, l1) = (fn', live')" using Cons.prems(3) s1 by simp
  from Cons.IH [OF grown_ok [OF g] _ rest] st grown_fields [OF g]
  have "grown fn1 (walk_pairs fn is (walk_up fn i (vset_elems live))) fn' \<and> vset_fits (vset_words fn) live' \<and>
      vset_elems live' = fold (walk_up fn) is (walk_up fn i (vset_elems live))"
    by (simp add: walk_pairs_cong [OF same_code_fields(1,2) [OF sc]] walk_cong [OF same_code_fields(1,2) [OF sc]])
  with grown_trans [OF g] show ?case by simp
qed


section \<open>The top of a block\<close>

lemma bit_above:
  fixes w :: "64 word"
  assumes "k < 64"
  shows "bit ((w AND NOT (push_bit k 1)) AND NOT (push_bit k 1 OR (push_bit k 1 - 1))) i \<longleftrightarrow> bit w i \<and> k < i"
proof -
  have "push_bit k 1 - 1 = (mask k :: 64 word)" by (simp add: mask_eq_exp_minus_1 push_bit_eq_mult)
  then show ?thesis using assms bit_imp_le_length [of w i] by (auto simp: bit_simps)
qed

lemma set_members_above:
  assumes "b1 < 64 * length live"
  shows "set (members_above live b1) = {b2 \<in> vset_elems live. b1 < b2}"
proof -
  let ?w1 = "b1 div 64" and ?m = "push_bit (b1 mod 64) 1 :: 64 word"
  let ?bits = "\<lambda>w2. if w2 = ?w1 then (live ! w2 AND NOT ?m) AND NOT (?m OR (?m - 1)) else live ! w2"
  have bits: "bit (?bits w2) i \<longleftrightarrow> bit (live ! w2) i \<and> (w2 = ?w1 \<longrightarrow> b1 mod 64 < i)" for w2 i
    using bit_above [of "b1 mod 64" "live ! w2" i] by auto
  have lt: "i < 64" if "bit (live ! w2) i" for w2 i using that bit_imp_le_length by fastforce
  have ab: "members_above live b1 = concat (map (\<lambda>w2. map (\<lambda>b. w2 * 64 + b) (word_members (?bits w2))) [?w1..<length live])"
    unfolding members_above_def Let_def by (intro arg_cong [where f = concat] map_cong) auto
  have "v \<in> set (concat (map (\<lambda>w2. map (\<lambda>b. w2 * 64 + b) (word_members (f w2))) [?w1..<length live])) \<longleftrightarrow>
      (\<exists>w2 i. ?w1 \<le> w2 \<and> w2 < length live \<and> bit (f w2) i \<and> v = w2 * 64 + i)" for v and f :: "nat \<Rightarrow> 64 word"
    by (auto simp: set_word_members)
  from this [of _ ?bits] have "v \<in> set (members_above live b1) \<longleftrightarrow>
      (\<exists>w2 i. ?w1 \<le> w2 \<and> w2 < length live \<and> bit (?bits w2) i \<and> v = w2 * 64 + i)" for v
    unfolding ab .
  also have "\<dots> v \<longleftrightarrow> (v \<in> vset_elems live \<and> b1 < v)" for v
  proof
    assume "\<exists>w2 i. ?w1 \<le> w2 \<and> w2 < length live \<and> bit (?bits w2) i \<and> v = w2 * 64 + i"
    then obtain w2 i where *: "?w1 \<le> w2" "w2 < length live" "bit (live ! w2) i" "w2 = ?w1 \<longrightarrow> b1 mod 64 < i" "v = w2 * 64 + i"
      using bits by blast
    then have "v div 64 = w2" "v mod 64 = i" using lt [of w2 i] by simp_all
    moreover have "b1 < v"
    proof (cases "w2 = ?w1")
      case True
      then show ?thesis using *(4,5) div_mult_mod_eq [of b1 64] by linarith
    next
      case False
      then have "?w1 + 1 \<le> w2" using *(1) by simp
      then show ?thesis using *(5) div_mult_mod_eq [of b1 64] mod_less_divisor [of 64 b1] by linarith
    qed
    ultimately show "v \<in> vset_elems live \<and> b1 < v" using * lt [of w2 i] by (simp add: vset_elems_def)
  next
    assume v: "v \<in> vset_elems live \<and> b1 < v"
    then have "?w1 \<le> v div 64" "v div 64 < length live" by (auto simp: vset_elems_def div_less_words intro: div_le_mono)
    moreover have "v div 64 = ?w1 \<longrightarrow> b1 mod 64 < v mod 64"
      using v div_mult_mod_eq [of b1 64] div_mult_mod_eq [of v 64] by linarith
    ultimately show "\<exists>w2 i. ?w1 \<le> w2 \<and> w2 < length live \<and> bit (?bits w2) i \<and> v = w2 * 64 + i"
      using v bits by (intro exI [of _ "v div 64"] exI [of _ "v mod 64"]) (auto simp: vset_elems_def)
  qed
  finally show ?thesis by blast
qed

lemma igraph_top_grown:
  assumes ok: "igraph_ok fn" and fit: "vset_fits (vset_words fn) live"
  shows "grown fn (vset_elems live \<times> vset_elems live) (igraph_top (fn, live))"
proof -
  let ?L = "vset_elems live"
  let ?P = "\<Union>b1 \<in> set (vset_members live). \<Union>b2 \<in> set (members_above live b1). {(b1, b2)}"
  have inner: "grown fn (\<Union>b2 \<in> set (members_above live b1). {(b1, b2)})
      (fold (\<lambda>b2 fn. add_interference fn (int b1) (int b2)) (members_above live b1) fn)"
    if "igraph_ok fn" for b1 fn
    by (rule fold_grown [OF add_interference_grown that])
  have g: "grown fn ?P (igraph_top (fn, live))"
    unfolding igraph_top_def split by (rule fold_grown [OF inner ok])
  have "b1 < 64 * length live" if "b1 \<in> ?L" for b1 using that by (simp add: vset_elems_def)
  then have "?P = {(b1, b2). b1 \<in> ?L \<and> b2 \<in> ?L \<and> b1 < b2}" by (auto simp: set_vset_members set_members_above)
  then have "new_edges fn ?P = new_edges fn (?L \<times> ?L)" by (auto simp: new_edges_def)
  with g show ?thesis by (simp add: grown_def)
qed

definition block_walk :: "bblock \<Rightarrow> nat list" where
  "block_walk bb = rev [bstart bb..<bend bb]"

definition block_pairs :: "func \<Rightarrow> bblock \<Rightarrow> (nat \<times> nat) set" where
  "block_pairs fn bb =
     (let L = fold (walk_up fn) (block_walk bb) (vset_elems (live_out bb))
      in walk_pairs fn (block_walk bb) (vset_elems (live_out bb)) \<union> L \<times> L)"

lemma igraph_block_grown:
  assumes ok: "igraph_ok fn" and fit: "vset_fits (vset_words fn) (live_out bb)"
  shows "grown fn (block_pairs fn bb) (igraph_block bb fn)"
proof -
  obtain fn1 l1 where w: "fold igraph_insn (block_walk bb) (fn, live_out bb) = (fn1, l1)" by force
  note W = igraph_walk [OF ok fit w]
  then have g: "grown fn (walk_pairs fn (block_walk bb) (vset_elems (live_out bb))) fn1" by blast
  have "grown fn1 (vset_elems l1 \<times> vset_elems l1) (igraph_top (fn1, l1))"
    by (rule igraph_top_grown [OF grown_ok [OF g]]) (use W grown_fields [OF g] in simp)
  from grown_trans [OF g this] W w show ?thesis
    by (simp add: igraph_block_def block_pairs_def Let_def block_walk_def)
qed

lemma block_pairs_cong:
  assumes "insns fn' = insns fn" "nvregs fn' = nvregs fn"
  shows "block_pairs fn' bb = block_pairs fn bb"
  by (simp add: block_pairs_def walk_pairs_cong [OF assms] walk_cong [OF assms])

lemma blocks_grown:
  assumes "igraph_ok fn" and "\<forall>bb \<in> set bs. vset_fits (vset_words fn) (live_out bb)"
  shows "grown fn (\<Union>bb \<in> set bs. block_pairs fn bb) (fold igraph_block bs fn)"
  using assms
proof (induction bs arbitrary: fn)
  case (Cons bb bs)
  have g: "grown fn (block_pairs fn bb) (igraph_block bb fn)" using igraph_block_grown Cons.prems by simp
  from Cons.IH [OF grown_ok [OF g]] Cons.prems grown_fields [OF g]
  have "grown (igraph_block bb fn) (\<Union>bb \<in> set bs. block_pairs fn bb) (fold igraph_block bs (igraph_block bb fn))"
    by (simp add: block_pairs_cong [OF grown_fields(1,2) [OF g]])
  with grown_trans [OF g] show ?case by simp
qed (simp add: grown_refl)

lemma clear_igraph_ok:
  assumes "nvregs fn \<le> 64 * vset_words fn"
  shows "igraph_ok (clear_igraph fn)" "edges (clear_igraph fn) = {}" "same_code fn (clear_igraph fn)"
proof -
  have nv: "nvregs (clear_igraph fn) = nvregs fn" by (simp add: clear_igraph_def nvregs_def)
  have row: "igraph (clear_igraph fn) ! a = vset_zero (vset_words fn)" if "a < nvregs fn" for a
    using that by (simp add: clear_igraph_def)
  show E: "edges (clear_igraph fn) = {}" by (auto simp: edges_def nv row vs.zero)
  show "igraph_ok (clear_igraph fn)" unfolding igraph_ok_def E
    using assms by (auto simp: nv row vs.zero sym_def) (simp_all add: clear_igraph_def vs.zero)
  show "same_code fn (clear_igraph fn)" by (simp add: same_code_def clear_igraph_def)
qed

lemma build_igraph_edges:
  assumes nv: "nvregs fn \<le> 64 * vset_words fn" and fit: "\<forall>bb \<in> set (blocks fn). vset_fits (vset_words fn) (live_out bb)"
  shows "igraph_ok (build_igraph fn)" "same_code fn (build_igraph fn)"
    "edges (build_igraph fn) = new_edges fn (\<Union>bb \<in> set (blocks fn). block_pairs fn bb)"
proof -
  note c = clear_igraph_ok [OF nv]
  have f: "vset_words (clear_igraph fn) = vset_words fn" "nvregs (clear_igraph fn) = nvregs fn"
    using same_code_fields [OF c(3)] by simp_all
  have g: "grown (clear_igraph fn) (\<Union>bb \<in> set (blocks fn). block_pairs (clear_igraph fn) bb) (build_igraph fn)"
    unfolding build_igraph_def by (rule blocks_grown [OF c(1)]) (use fit f in simp)
  then show "igraph_ok (build_igraph fn)" "same_code fn (build_igraph fn)"
    using same_code_trans [OF c(3)] by (auto simp: grown_def)
  show "edges (build_igraph fn) = new_edges fn (\<Union>bb \<in> set (blocks fn). block_pairs fn bb)"
    using g c(2) by (simp add: grown_def block_pairs_cong [OF same_code_fields(1,2) [OF c(3)]] new_edges_def f)
qed

end
