(* ===== verification/Bind_IGraph_Facts.thy ===== *)
theory Bind_IGraph_Facts
  imports Bind_IGraph
begin

text \<open>
  What the interference graph has to do with liveness: a register that is live after an
  instruction, or that the instruction reads beside a copy, is a neighbour of every register that
  the instruction defines.
\<close>

section \<open>The running live set\<close>

text \<open>A copy reads its source only; the parser makes no other.\<close>

definition plain_copies :: "func \<Rightarrow> bool" where
  "plain_copies fn \<longleftrightarrow> (\<forall>ins \<in> set (insns fn). is_copy ins \<longrightarrow> src2 ins < 0 \<and> extra_args ins = [])"

text \<open>Some instruction that is not a copy both reads and writes the register.\<close>

definition self_updated :: "func \<Rightarrow> nat \<Rightarrow> bool" where
  "self_updated fn v \<longleftrightarrow>
     (\<exists>i \<in> {..<length (insns fn)}. \<not> is_copy (insns fn ! i) \<and> v \<in> reads fn i \<and> v \<in> writes fn i)"

definition live_below :: "func \<Rightarrow> bblock \<Rightarrow> nat \<Rightarrow> nat set" where
  "live_below fn bb i = fold (walk_up fn) (rev [i + 1..<bend bb]) (vset_elems (live_out bb))"

lemma live_below_end: "bend bb \<le> i + 1 \<Longrightarrow> live_below fn bb i = vset_elems (live_out bb)"
  by (simp add: live_below_def)

lemma live_below_step: "i + 1 < bend bb \<Longrightarrow> live_below fn bb i = walk_up fn (i + 1) (live_below fn bb (i + 1))"
  by (simp add: live_below_def upt_conv_Cons)

lemma copy_reads:
  assumes "plain_copies fn" "i < length (insns fn)" "is_copy (insns fn ! i)"
  shows "reads fn i = set (valid_vregs (nvregs fn) [src1 (insns fn ! i)])"
proof -
  let ?ins = "insns fn ! i"
  have "src2 ?ins < 0" "extra_args ?ins = []" "op ?ins = IR_MOV"
    using assms by (auto simp: plain_copies_def is_copy_def)
  then show ?thesis
    by (auto simp: reads_def valid_vregs_def insn_reads_def insn_reads_dst_def insn_defines_dst_def)
qed

lemma cfg_live_out:
  assumes fn: "fn = build_cfg f" and b: "b < length (blocks fn)"
  shows "vset_elems (live_out (blocks (compute_cfg_liveness fn) ! b)) = {v. live_after fn (bend (blocks fn ! b) - 1) v}"
    and "vset_elems (live_in (blocks (compute_cfg_liveness fn) ! b)) = {v. live_before fn (bstart (blocks fn ! b)) v}"
  using liveness_exact [of fn] build_cfg_words [of f] build_cfg_range [of f] fn
    live_outs_iff [OF fn b] live_set_iff [OF fn b] b
  by (auto simp: exact_def)

lemma cfg_live_blocks:
  assumes fn: "fn = build_cfg f" and b: "b < length (blocks fn)"
  shows "length (blocks (compute_cfg_liveness fn)) = length (blocks fn)"
    "bstart (blocks (compute_cfg_liveness fn) ! b) = bstart (blocks fn ! b)"
    "bend (blocks (compute_cfg_liveness fn) ! b) = bend (blocks fn ! b)"
    "vset_fits (vset_words fn) (live_out (blocks (compute_cfg_liveness fn) ! b))"
proof -
  let ?bs = "blocks (compute_cfg_liveness fn)"
  have R: "rounds_of fn (start_blocks fn) ?bs"
    using liveness_exact [of fn] build_cfg_words [of f] build_cfg_range [of f] fn by (simp add: exact_def)
  then have eq: "?bs ! b = (start_blocks fn ! b)\<lparr>live_in := live_in (?bs ! b), live_out := live_out (?bs ! b)\<rparr>"
    using b by (simp add: rounds_of_def)
  show "length ?bs = length (blocks fn)" "vset_fits (vset_words fn) (live_out (?bs ! b))"
    using R b by (simp_all add: rounds_of_def)
  show "bstart (?bs ! b) = bstart (blocks fn ! b)" "bend (?bs ! b) = bend (blocks fn ! b)"
    by (subst eq, simp add: start_block_fields [OF b])+
qed

lemma live_after_below:
  assumes fn: "fn = build_cfg f" and b: "b < length (blocks fn)" and bb: "bb = blocks (compute_cfg_liveness fn) ! b"
    and plain: "plain_copies fn" and nsu: "\<not> self_updated fn v"
    and i: "bstart bb \<le> i" "i < bend bb" and live: "live_after fn i v"
  shows "v \<in> live_below fn bb i"
  using i live
proof (induction "bend bb - i" arbitrary: i)
  case (Suc k)
  note bf = cfg_live_blocks [OF fn b, folded bb]
  have is_f: "insns f = insns fn" using fn by (simp add: build_cfg_same)
  show ?case
  proof (cases "i + 1 < bend bb")
    case False
    then have "bend (blocks fn ! b) - 1 = i" using Suc.prems bf(3) by simp
    with Suc.prems(3) cfg_live_out(1) [OF fn b] show ?thesis
      using False by (simp add: live_below_end bb)
  next
    case True
    have "set (next_pos (insns fn) i) = {i + 1}"
      using cfg_step [OF refl, of b f i, folded fn, OF b] Suc.prems True bf is_f by simp
    then have lb: "live_before fn (i + 1) v" using Suc.prems(3) by (simp add: live_after_def)
    have "bend bb \<le> length (insns fn)" using build_cfg_ok [of f] b fn bf(3) by (simp add: cfg_ok_def build_cfg_same)
    then have il: "i + 1 < length (insns fn)" using True by simp
    have "v \<in> walk_up fn (i + 1) (live_below fn bb (i + 1))"
    proof (cases "v \<in> reads fn (i + 1)")
      case rd: True
      then show ?thesis
        using nsu il copy_reads [OF plain il] by (auto simp: walk_up_def at_defs_def self_updated_def)
    next
      case False
      from lb have "v \<notin> writes fn (i + 1) \<and> live_after fn (i + 1) v"
        by (cases rule: live_before.cases) (use False in \<open>auto simp: live_after_def\<close>)
      moreover from this have "v \<in> live_below fn bb (i + 1)"
        using Suc.hyps(1) [of "i + 1"] Suc.hyps(2) Suc.prems True by simp
      ultimately show ?thesis by (auto simp: walk_up_def at_defs_def)
    qed
    with True show ?thesis by (simp add: live_below_step)
  qed
qed simp

section \<open>The pairs of an instruction\<close>

lemma walk_pairs_append: "walk_pairs fn (xs @ ys) L = walk_pairs fn xs L \<union> walk_pairs fn ys (fold (walk_up fn) xs L)"
  by (induction xs arbitrary: L) auto

lemma insn_pairs_in_block:
  assumes "bstart bb \<le> i" "i < bend bb"
  shows "insn_pairs fn i (live_below fn bb i) \<subseteq> block_pairs fn bb"
proof -
  have "[bstart bb..<bend bb] = [bstart bb..<i] @ i # [i + 1..<bend bb]"
    using assms upt_add_eq_append [of "bstart bb" i "bend bb - i"] by (simp add: upt_conv_Cons)
  then have "block_walk bb = rev [i + 1..<bend bb] @ i # rev [bstart bb..<i]"
    by (simp add: block_walk_def)
  then show ?thesis by (auto simp: block_pairs_def Let_def walk_pairs_append live_below_def)
qed

lemma def_pairs_other: "w \<in> set ws \<Longrightarrow> v \<in> L \<Longrightarrow> v \<notin> set ws \<Longrightarrow> (w, v) \<in> def_pairs ws L"
  by (induction ws arbitrary: L) auto

lemma def_pairs_both:
  assumes "w \<in> set ws" "v \<in> set ws" "w \<in> L" "v \<in> L" "w \<noteq> v"
  shows "(w, v) \<in> def_pairs ws L \<or> (v, w) \<in> def_pairs ws L"
  using assms
proof (induction ws arbitrary: L)
  case (Cons x ws)
  show ?case
  proof (cases "x = w \<or> x = v")
    case False
    then have "w \<in> set ws" "v \<in> set ws" using Cons.prems by auto
    with Cons.IH [of "L - {x}"] Cons.prems False show ?thesis by auto
  qed (use Cons.prems in auto)
qed simp

lemma graph_of_cfg:
  assumes fn: "fn = build_cfg f" and g: "g = build_igraph (compute_cfg_liveness fn)"
  shows "igraph_ok g" "nvregs g = nvregs fn" "insns g = insns fn" "vregs g = vregs fn"
    "edges g = new_edges fn (\<Union>bb \<in> set (blocks (compute_cfg_liveness fn)). block_pairs fn bb)"
proof -
  let ?l = "compute_cfg_liveness fn"
  have same: "insns ?l = insns fn" "nvregs ?l = nvregs fn" "vset_words ?l = vset_words fn" "vregs ?l = vregs fn"
    by (simp_all add: compute_cfg_liveness_def Let_def nvregs_def)
  have nv: "nvregs ?l \<le> 64 * vset_words ?l" using build_cfg_words [of f] fn same by simp
  have fit: "\<forall>bb \<in> set (blocks ?l). vset_fits (vset_words ?l) (live_out bb)"
    using liveness_exact [of fn] build_cfg_words [of f] build_cfg_range [of f] fn same
    by (auto simp: exact_def rounds_of_def in_set_conv_nth)
  note B = build_igraph_edges [OF nv fit, folded g]
  have "block_pairs ?l bb = block_pairs fn bb" for bb
    by (rule block_pairs_cong [OF same(1,2)])
  then show "edges g = new_edges fn (\<Union>bb \<in> set (blocks ?l). block_pairs fn bb)"
    using B(3) same by (simp add: new_edges_def)
  show "igraph_ok g" "nvregs g = nvregs fn" "insns g = insns fn" "vregs g = vregs fn"
    using B(1) same_code_fields [OF B(2)] same by simp_all
qed


lemma block_edges:
  assumes fn: "fn = build_cfg f" and g: "g = build_igraph (compute_cfg_liveness fn)"
    and b: "b < length (blocks fn)" and P: "(w, v) \<in> block_pairs fn (blocks (compute_cfg_liveness fn) ! b)"
    and wv: "w \<noteq> v" "w < nvregs fn" "v < nvregs fn"
  shows "(w, v) \<in> edges g \<and> (v, w) \<in> edges g"
proof -
  note G = graph_of_cfg [OF fn g]
  have "blocks (compute_cfg_liveness fn) ! b \<in> set (blocks (compute_cfg_liveness fn))"
    using b cfg_live_blocks(1) [OF fn b] by simp
  with P wv show ?thesis unfolding G(5) new_edges_def by blast
qed

lemma live_after_less: "live_after fn i v \<Longrightarrow> v < nvregs fn"
proof -
  have "v < nvregs fn" if "live_before fn j v" for j
    using that by (induction rule: live_before.induct) (auto simp: reads_def dest: valid_vregs_less)
  then show "live_after fn i v \<Longrightarrow> v < nvregs fn" by (auto simp: live_after_def)
qed

lemma read_write_less: "v \<in> reads fn i \<Longrightarrow> v < nvregs fn" "v \<in> writes fn i \<Longrightarrow> v < nvregs fn"
  by (auto simp: reads_def writes_def dest: valid_vregs_less)

text \<open>The place of an instruction in the blocks with their live sets.\<close>

lemma insn_block:
  assumes fn: "fn = build_cfg f" and i: "i < length (insns fn)"
  obtains b bb where "b < length (blocks fn)" "bb = blocks (compute_cfg_liveness fn) ! b" "bstart bb \<le> i" "i < bend bb"
proof -
  have "i < length (insns f)" using i fn by (simp add: build_cfg_same)
  then obtain b where "b < length (blocks fn)" "bstart (blocks fn ! b) \<le> i" "i < bend (blocks fn ! b)"
    using pos_in_block [of "blocks fn" f i] fn by blast
  with that [of b "blocks (compute_cfg_liveness fn) ! b"] cfg_live_blocks [OF fn] show thesis by simp
qed

definition kept_apart :: "func \<Rightarrow> nat \<Rightarrow> nat \<Rightarrow> bool" where
  "kept_apart fn i v \<longleftrightarrow> (live_after fn i v \<and> \<not> self_updated fn v) \<or> (\<not> is_copy (insns fn ! i) \<and> v \<in> reads fn i)"

lemma kept_apart_at_defs:
  assumes "fn = build_cfg f" "b < length (blocks fn)" "bb = blocks (compute_cfg_liveness fn) ! b" "plain_copies fn"
    "bstart bb \<le> i" "i < bend bb" "kept_apart fn i v"
  shows "v \<in> at_defs fn i (live_below fn bb i)"
  using assms(7) live_after_below [OF assms(1-4) _ assms(5,6), of v] by (auto simp: kept_apart_def at_defs_def)

lemma defs_interfere:
  assumes fn: "fn = build_cfg f" and g: "g = build_igraph (compute_cfg_liveness fn)" and plain: "plain_copies fn"
    and i: "i < length (insns fn)" and w: "w \<in> writes fn i" and ne: "v \<noteq> w"
    and v: "kept_apart fn i v" "v \<in> writes fn i \<longrightarrow> kept_apart fn i w"
  shows "(w, v) \<in> edges g \<and> (v, w) \<in> edges g"
proof -
  obtain b bb where b: "b < length (blocks fn)" and bb: "bb = blocks (compute_cfg_liveness fn) ! b"
    and ib: "bstart bb \<le> i" "i < bend bb" by (rule insn_block [OF fn i])
  let ?ws = "valid_vregs (nvregs fn) (insn_writes (insns fn ! i))" and ?L = "at_defs fn i (live_below fn bb i)"
  note at = kept_apart_at_defs [OF fn b bb plain ib]
  have less: "v < nvregs fn" "w < nvregs fn"
    using v(1) w live_after_less read_write_less by (auto simp: kept_apart_def)
  have P: "(w, v) \<in> def_pairs ?ws ?L \<or> (v, w) \<in> def_pairs ?ws ?L"
  proof (cases "v \<in> writes fn i")
    case True
    then show ?thesis using def_pairs_both [of w ?ws v ?L] w at v ne by (simp add: writes_def)
  next
    case False
    then show ?thesis using def_pairs_other [of w ?ws v ?L] w at v by (simp add: writes_def)
  qed
  moreover have "def_pairs ?ws ?L \<subseteq> block_pairs fn (blocks (compute_cfg_liveness fn) ! b)"
    using insn_pairs_in_block [OF ib, of fn] by (simp add: insn_pairs_def bb)
  ultimately show ?thesis using block_edges [OF fn g b] ne less by blast
qed



lemma loop_fn_live: "live_after (build_cfg loop_fn) 2 0"
proof -
  let ?fn = "build_cfg loop_fn"
  have n: "insns ?fn = loop_insns" "length loop_insns = 6" by code_simp+
  have nx: "2 \<in> set (next_pos loop_insns 1)" "1 \<in> set (next_pos loop_insns 3)" "3 \<in> set (next_pos loop_insns 2)"
    by code_simp+
  have w: "0 \<in> reads ?fn 2" "0 \<notin> writes ?fn 1" "0 \<notin> writes ?fn 3" by code_simp+
  have "live_before ?fn 2 0" by (rule live_read) (use n w in simp_all)
  then have "live_before ?fn 1 0" by (rule live_step [rotated 2]) (use n nx w in simp_all)
  then have "live_before ?fn 3 0" by (rule live_step [rotated 2]) (use n nx w in simp_all)
  with nx n show ?thesis by (auto simp: live_after_def)
qed


text \<open>
  (C23) The interference graph that is built for a function is symmetric, no register interferes
  with itself, and the degree of every register is the number of its neighbours.
\<close>

theorem interference_graph_consistent:
  assumes "g = build_igraph (compute_cfg_liveness (build_cfg f))" and "a < nvregs g"
  shows "\<not> vregs_interfere g (int a) (int a) \<and>
    (\<forall>b. vregs_interfere g (int a) (int b) = vregs_interfere g (int b) (int a)) \<and>
    degree g ! a = int (card {b. vregs_interfere g (int a) (int b)})"
proof -
  have ok: "igraph_ok g" using graph_of_cfg(1) [OF refl assms(1)] .
  note row = igraph_rowD [OF ok assms(2)]
  have "{b. vregs_interfere g (int a) (int b)} = vset_elems (igraph g ! a)"
    using assms(2) by (auto simp: vregs_interfere_edges [OF ok] edges_def)
  moreover have "sym (edges g)" using ok by (simp add: igraph_ok_def)
  moreover have "(a, a) \<notin> edges g" using row(2) by (auto simp: edges_def)
  ultimately show ?thesis using row(3) by (auto simp: vregs_interfere_edges [OF ok] dest: symD)
qed

theorem interference_graph_consistent_witness:
  "let g = build_igraph (compute_cfg_liveness (build_cfg loop_fn))
   in degree g ! 1 = 1 \<and> card {b. vregs_interfere g 1 (int b)} = 1"
proof -
  let ?g = "build_igraph (compute_cfg_liveness (build_cfg loop_fn))"
  have "1 < nvregs ?g" "degree ?g ! 1 = 1" by code_simp+
  with interference_graph_consistent [OF refl, of 1 loop_fn] show ?thesis by (simp add: Let_def)
qed

text \<open>A function in which \<open>%1\<close> is live while \<open>%2\<close> is defined, and is then updated in place.\<close>

definition update_fn :: func where
  "update_fn = new_func\<lparr>insns :=
     [ir_insn0\<lparr>dst := 1, has_imm := True, imm := 1\<rparr>,
      ir_insn0\<lparr>dst := 2, has_imm := True, imm := 7\<rparr>,
      ir_insn0\<lparr>op := IR_ASSUME, src1 := 2\<rparr>,
      ir_insn0\<lparr>op := IR_ALU, iname := ''add'', dst := 1, src1 := 1, has_imm := True, imm := 3\<rparr>,
      ir_insn0\<lparr>op := IR_RETVAL, src1 := 1\<rparr>,
      ir_insn0\<lparr>op := IR_RET\<rparr>], vregs := replicate 3 init_vreg_info\<rparr>"

lemma update_fn_live: "writes (build_cfg update_fn) 1 = {2} \<and> live_after (build_cfg update_fn) 1 1"
proof -
  let ?fn = "build_cfg update_fn"
  have n: "length (insns ?fn) = 6" "3 \<in> set (next_pos (insns ?fn) 2)" "2 \<in> set (next_pos (insns ?fn) 1)" by code_simp+
  have w: "1 \<in> reads ?fn 3" "1 \<notin> writes ?fn 2" "writes ?fn 1 = {2}" by code_simp+
  have "live_before ?fn 3 1" by (rule live_read) (use n w in simp_all)
  then have "live_before ?fn 2 1" by (rule live_step [rotated 2]) (use n w in simp_all)
  then show ?thesis using n w by (auto simp: live_after_def)
qed

end
