(* ===== verification/Bind_Alloc.thy ===== *)
theory Bind_Alloc
  imports Bind_IGraph_Facts
begin

text \<open>
  Register allocation, \<^verbatim>\<open>allocate_registers\<close> of \<^verbatim>\<open>src/bind.c\<close> with the pools, scores
  and spill costs that it uses: fixed and preferred registers first, then the simplify loop, then
  the selection of colours in the reverse order. Costs are mathematical integers; the C code is
  the same as long as they fit an \<^verbatim>\<open>int\<close>.
\<close>

section \<open>Pools and colours\<close>

abbreviation (input) INT_MAX :: int where "INT_MAX \<equiv> 2147483647"
abbreviation (input) INT_MIN :: int where "INT_MIN \<equiv> -2147483648"

definition get_vreg_pool :: "func \<Rightarrow> nat \<Rightarrow> bool \<Rightarrow> int list" where
  "get_vreg_pool fn v bp_available =
     (let vr = vregs fn ! v; bp = (if bp_available then [PREG_BP] else [])
      in if is_seg vr then [PREG_ES]
         else if needs_cl vr then [PREG_CL]
         else if is_byte vr then [PREG_AL, PREG_AH, PREG_BL, PREG_BH, PREG_CL, PREG_CH, PREG_DL, PREG_DH]
         else if needs_base vr then PREG_BX # bp
         else if needs_index vr then [PREG_SI, PREG_DI]
         else if needs_ds_addr vr then [PREG_BX, PREG_SI, PREG_DI]
         else if needs_addressable vr then PREG_BX # bp @ [PREG_SI, PREG_DI]
         else [PREG_AX, PREG_BX, PREG_CX, PREG_DX, PREG_SI, PREG_DI] @ bp)"

definition preg_in_pool :: "int \<Rightarrow> int list \<Rightarrow> bool" where
  "preg_in_pool preg pool \<longleftrightarrow> list_ex (\<lambda>r. r = preg) pool"

definition pools_may_alias :: "int list \<Rightarrow> int list \<Rightarrow> bool" where
  "pools_may_alias a b \<longleftrightarrow> list_ex (\<lambda>x. list_ex (\<lambda>y. pregs_alias x y) b) a"

definition color_conflicts :: "func \<Rightarrow> nat \<Rightarrow> int \<Rightarrow> bool" where
  "color_conflicts fn v preg \<longleftrightarrow>
     list_ex (\<lambda>nb. nb < nvregs fn \<and> assigned (vregs fn ! nb) \<noteq> PREG_NONE \<and>
                   (assigned (vregs fn ! nb) = preg \<or> pregs_alias (assigned (vregs fn ! nb)) preg))
       (vset_members (igraph fn ! v))"

definition byte_interference_count :: "func \<Rightarrow> nat \<Rightarrow> int" where
  "byte_interference_count fn v =
     int (length (filter (\<lambda>nb. nb < nvregs fn \<and> is_byte (vregs fn ! nb)) (vset_members (igraph fn ! v))))"

definition vreg_has_mem_disp_use :: "func \<Rightarrow> nat \<Rightarrow> bool" where
  "vreg_has_mem_disp_use fn v \<longleftrightarrow>
     list_ex (\<lambda>ins. has_mem_disp ins \<and>
                    (op ins = IR_LOADMEM \<and> src1 ins = int v \<or> op ins = IR_STOREMEM \<and> dst ins = int v))
       (insns fn)"

definition color_speed_score :: "func \<Rightarrow> nat \<Rightarrow> int \<Rightarrow> nat \<Rightarrow> int" where
  "color_speed_score fn v preg pool_index =
     (let vr = vregs fn ! v;
          score = - int pool_index;
          score = (if preferred vr = preg then score + 10000 else score);
          score = score + affinity vr ! nat preg * 100;
          byte_edges = byte_interference_count fn v
      in if \<not> is_byte vr \<and> \<not> is_seg vr \<and> (\<not> needs_addressable vr \<or> vreg_has_mem_disp_use fn v) \<and>
            \<not> needs_base vr \<and> \<not> needs_index vr \<and> \<not> needs_cl vr \<and> byte_edges > 0
         then if preg \<ge> PREG_AX \<and> preg \<le> PREG_BX then score - byte_edges * 250
              else if preg = PREG_SI \<or> preg = PREG_DI then score + byte_edges * 50
              else score
         else score)"

definition choose_color :: "func \<Rightarrow> nat \<Rightarrow> int list \<Rightarrow> int" where
  "choose_color fn v pool =
     fst (fold (\<lambda>(r, preg) (best, best_score).
            if color_conflicts fn v preg then (best, best_score)
            else let score = color_speed_score fn v preg r
                 in if score > best_score then (preg, score) else (best, best_score))
          (enumerate 0 pool) (PREG_NONE, INT_MIN))"

section \<open>Spill costs\<close>

record v20_cost_model =
  mov_reg_imm16 :: int
  mov_reg_reg :: int
  mov_reg_mem16 :: int
  mov_mem16_reg :: int
  push_reg16 :: int
  pop_reg16 :: int
  push_mem16 :: int
  pop_mem16 :: int

definition v20_cost :: v20_cost_model where
  "v20_cost = \<lparr>mov_reg_imm16 = 4, mov_reg_reg = 2, mov_reg_mem16 = 15, mov_mem16_reg = 13,
     push_reg16 = 12, pop_reg16 = 12, push_mem16 = 26, pop_mem16 = 25\<rparr>"

definition vreg_has_remat :: "func \<Rightarrow> nat \<Rightarrow> bool" where
  "vreg_has_remat fn v \<longleftrightarrow> v < nvregs fn \<and> remat (vregs fn ! v) \<noteq> REMAT_NONE"

definition vreg_can_rematerialize :: "func \<Rightarrow> nat \<Rightarrow> bool" where
  "vreg_can_rematerialize fn v \<longleftrightarrow>
     (let vr = vregs fn ! v
      in vreg_has_remat fn v \<and> \<not> is_seg vr \<and> \<not> fixed vr \<and> \<not> needs_addressable vr \<and> \<not> needs_base vr \<and>
         \<not> needs_index vr \<and> \<not> needs_ds_addr vr \<and> \<not> needs_cl vr)"

definition vreg_storage_is_remat :: "func \<Rightarrow> nat \<Rightarrow> bool" where
  "vreg_storage_is_remat fn v \<longleftrightarrow>
     vreg_has_remat fn v \<and> assigned (vregs fn ! v) = PREG_NONE \<and> spill_slot (vregs fn ! v) < 0 \<and>
     \<not> is_stack_home (vregs fn ! v) \<and> \<not> is_local_slot (vregs fn ! v)"

definition vreg_loop_weight :: "func \<Rightarrow> nat \<Rightarrow> int" where
  "vreg_loop_weight fn v = (if in_loop (vregs fn ! v) then 10 else 1)"

definition vreg_frame_spill_cost :: "func \<Rightarrow> nat \<Rightarrow> int" where
  "vreg_frame_spill_cost fn v =
     (let n = use_count (vregs fn ! v); n = (if n \<le> 0 then 1 else n)
      in (mov_mem16_reg v20_cost + n * mov_reg_mem16 v20_cost) * vreg_loop_weight fn v)"

definition vreg_remat_cost :: "func \<Rightarrow> nat \<Rightarrow> int" where
  "vreg_remat_cost fn v =
     (let n = use_count (vregs fn ! v); n = (if n \<le> 0 then 1 else n)
      in n * mov_reg_imm16 v20_cost * vreg_loop_weight fn v)"

definition vreg_stack_cache_cost :: "func \<Rightarrow> nat \<Rightarrow> int" where
  "vreg_stack_cache_cost fn v =
     (if \<not> stack_spill_eligible (vregs fn ! v) then INT_MAX div 4
      else if is_seg (vregs fn ! v) then INT_MAX div 4
      else push_reg16 v20_cost + pop_reg16 v20_cost)"

definition vreg_best_spill_cost :: "func \<Rightarrow> nat \<Rightarrow> int" where
  "vreg_best_spill_cost fn v =
     (let cost = vreg_frame_spill_cost fn v;
          stack_cost = vreg_stack_cache_cost fn v;
          cost = (if stack_cost < cost then stack_cost else cost)
      in if vreg_can_rematerialize fn v
         then let rc = vreg_remat_cost fn v in if rc < cost then rc else cost
         else cost)"

definition spill_cost :: "func \<Rightarrow> nat \<Rightarrow> int" where
  "spill_cost fn v =
     (let vr = vregs fn ! v;
          cost = vreg_best_spill_cost fn v * 100;
          cost = (if fixed vr then cost + 10000 else if preferred vr \<noteq> PREG_NONE then cost + 500 else cost);
          range = last_use vr - def_pos vr;
          cost = (if range > 0 then cost - range * pop_reg16 v20_cost else cost)
      in if cost < 1 then 1 else cost)"

section \<open>Allocation\<close>

definition set_assigned :: "nat \<Rightarrow> int \<Rightarrow> func \<Rightarrow> func" where
  "set_assigned v p fn = fn\<lparr>vregs := (vregs fn)[v := (vregs fn ! v)\<lparr>assigned := p\<rparr>]\<rparr>"

text \<open>Fixed registers denote the hardware register itself: no test for conflicts.\<close>

definition precolor_fixed :: "nat \<Rightarrow> func \<Rightarrow> func" where
  "precolor_fixed i fn =
     (let vr = vregs fn ! i
      in if is_stack_home vr then fn
         else if fixed vr \<and> preferred vr \<noteq> PREG_NONE then set_assigned i (preferred vr) fn
         else fn)"

definition prefer_allowed :: "bool \<Rightarrow> vreg_info \<Rightarrow> int \<Rightarrow> bool" where
  "prefer_allowed bp_available vr preg =
     (if \<not> bp_available \<and> preg = PREG_BP then False
      else if is_seg vr \<and> \<not> (preg \<ge> PREG_ES \<and> preg \<le> PREG_DS) then False
      else if \<not> is_seg vr \<and> preg \<ge> PREG_ES \<and> preg \<le> PREG_DS then False
      else if needs_base vr \<and> preg \<noteq> PREG_BX \<and> preg \<noteq> PREG_BP then False
      else if needs_index vr \<and> preg \<noteq> PREG_SI \<and> preg \<noteq> PREG_DI then False
      else if needs_addressable vr \<and> preg \<noteq> PREG_BX \<and> preg \<noteq> PREG_BP \<and> preg \<noteq> PREG_SI \<and> preg \<noteq> PREG_DI then False
      else if needs_cl vr \<and> preg \<noteq> PREG_CL then False
      else True)"

definition prefer_conflict :: "func \<Rightarrow> nat \<Rightarrow> int \<Rightarrow> bool" where
  "prefer_conflict fn i preg \<longleftrightarrow>
     list_ex (\<lambda>j. j \<noteq> i \<and> assigned (vregs fn ! j) \<noteq> PREG_NONE \<and> vregs_interfere fn (int i) (int j) \<and>
                  (assigned (vregs fn ! j) = preg \<or> pregs_alias (assigned (vregs fn ! j)) preg))
       [0..<nvregs fn]"

definition precolor_preferred :: "bool \<Rightarrow> nat \<Rightarrow> func \<Rightarrow> func" where
  "precolor_preferred bp_available i fn =
     (let vr = vregs fn ! i
      in if is_stack_home vr \<or> is_local_slot vr \<or> fixed vr \<or> preferred vr = PREG_NONE then fn
         else if \<not> prefer_allowed bp_available vr (preferred vr) then fn
         else if prefer_conflict fn i (preferred vr) then fn
         else set_assigned i (preferred vr) fn)"

definition precolor :: "bool \<Rightarrow> func \<Rightarrow> func" where
  "precolor bp_available fn =
     fold (precolor_preferred bp_available) [0..<nvregs fn] (fold precolor_fixed [0..<nvregs fn] fn)"

text \<open>What the simplify loop leaves alone from the start.\<close>

definition handled :: "vreg_info \<Rightarrow> bool" where
  "handled vr \<longleftrightarrow> is_stack_home vr \<or> is_local_slot vr \<or> assigned vr \<noteq> PREG_NONE \<or> (def_pos vr < 0 \<and> last_use vr < 0)"

definition active_degree :: "func \<Rightarrow> bool \<Rightarrow> bool list \<Rightarrow> nat \<Rightarrow> nat" where
  "active_degree fn bp_available removed i =
     (let pool = get_vreg_pool fn i bp_available
      in length (filter (\<lambda>nb. nb < nvregs fn \<and> \<not> removed ! nb \<and>
                              pools_may_alias pool (get_vreg_pool fn nb bp_available))
                   (vset_members (igraph fn ! i))))"

text \<open>The first register of least cost below \<^verbatim>\<open>INT_MAX\<close> among those that qualify.\<close>

definition cheapest :: "(nat \<Rightarrow> bool) \<Rightarrow> (nat \<Rightarrow> int) \<Rightarrow> nat \<Rightarrow> nat option" where
  "cheapest ok cost nv =
     fst (fold (\<lambda>i (best, best_cost). if ok i \<and> cost i < best_cost then (Some i, cost i) else (best, best_cost))
           [0..<nv] (None, INT_MAX))"

definition pick_vreg :: "func \<Rightarrow> bool \<Rightarrow> bool list \<Rightarrow> nat option" where
  "pick_vreg fn bp_available removed =
     (case cheapest (\<lambda>i. \<not> removed ! i \<and>
                         active_degree fn bp_available removed i < length (get_vreg_pool fn i bp_available))
             (spill_cost fn) (nvregs fn) of
        Some i \<Rightarrow> Some i
      | None \<Rightarrow> cheapest (\<lambda>i. \<not> removed ! i) (spill_cost fn) (nvregs fn))"

text \<open>The loop counts \<^verbatim>\<open>remaining\<close> down. When it finds no register to remove, nothing changes
  any more and it does not end: \<open>None\<close>. The result is the stack, its top first.\<close>

fun simplify_loop :: "func \<Rightarrow> bool \<Rightarrow> nat \<Rightarrow> bool list \<Rightarrow> nat list \<Rightarrow> nat list option" where
  "simplify_loop fn bp_available 0 removed stack = Some stack"
| "simplify_loop fn bp_available (Suc remaining) removed stack =
     (case pick_vreg fn bp_available removed of
        None \<Rightarrow> None
      | Some i \<Rightarrow> simplify_loop fn bp_available remaining (removed[i := True]) (i # stack))"

definition select_vreg :: "bool \<Rightarrow> nat \<Rightarrow> func \<Rightarrow> func" where
  "select_vreg bp_available v fn =
     (let vr = vregs fn ! v; pool = get_vreg_pool fn v bp_available; preg = preferred vr
      in if preg \<noteq> PREG_NONE \<and> \<not> (\<not> bp_available \<and> preg = PREG_BP) \<and> preg_in_pool preg pool \<and>
            \<not> color_conflicts fn v preg
         then set_assigned v preg fn
         else let preg = choose_color fn v pool
              in if preg \<noteq> PREG_NONE then set_assigned v preg fn
                 else if \<not> vreg_can_rematerialize fn v
                 then fn\<lparr>vregs := (vregs fn)[v := vr\<lparr>spill_slot := nspill_slots fn\<rparr>],
                         nspill_slots := nspill_slots fn + 1\<rparr>
                 else fn)"

definition allocate_registers :: "func \<Rightarrow> bool \<Rightarrow> func option" where
  "allocate_registers fn bp_available =
     (let fn = precolor bp_available fn;
          removed = map handled (vregs fn);
          remaining = length (filter (\<lambda>r. \<not> r) removed)
      in case simplify_loop fn bp_available remaining removed [] of
           None \<Rightarrow> None
         | Some stack \<Rightarrow> Some (fold (select_vreg bp_available) stack fn))"

end
