(* ===== verification/Bind_Alloc_Facts.thy ===== *)
theory Bind_Alloc_Facts
  imports Bind_Alloc
begin

text \<open>
  What \<^verbatim>\<open>allocate_registers\<close> guarantees: neighbours in the interference graph get registers
  that do not overlap, every register that is needed gets a place, and the loop ends.
\<close>

section \<open>What allocation changes\<close>

definition same_vreg :: "vreg_info \<Rightarrow> vreg_info \<Rightarrow> bool" where
  "same_vreg vr vr' \<longleftrightarrow> vr' = vr\<lparr>assigned := assigned vr', spill_slot := spill_slot vr'\<rparr>"

definition placed :: "func \<Rightarrow> func \<Rightarrow> bool" where
  "placed fn fn' \<longleftrightarrow>
     fn' = fn\<lparr>vregs := vregs fn', nspill_slots := nspill_slots fn'\<rparr> \<and> list_all2 same_vreg (vregs fn) (vregs fn')"

lemma same_vreg_refl [simp]: "same_vreg vr vr"
  by (simp add: same_vreg_def)

lemma same_vreg_trans: "same_vreg a b \<Longrightarrow> same_vreg b c \<Longrightarrow> same_vreg a c"
  by (cases a; cases b; cases c) (simp add: same_vreg_def)

lemma placed_refl: "placed fn fn"
  by (simp add: placed_def list_all2_refl)

lemma placed_trans:
  assumes "placed fn fn1" "placed fn1 fn2"
  shows "placed fn fn2"
proof -
  have "list_all2 same_vreg (vregs fn) (vregs fn2)"
    using list_all2_trans [OF same_vreg_trans] assms by (auto simp: placed_def)
  then show ?thesis using assms by (cases fn; cases fn1; cases fn2) (simp add: placed_def)
qed

lemma placed_fields:
  assumes "placed fn fn'"
  shows "insns fn' = insns fn" "nvregs fn' = nvregs fn" "igraph fn' = igraph fn" "vset_words fn' = vset_words fn"
    "degree fn' = degree fn" "blocks fn' = blocks fn" "param_vregs fn' = param_vregs fn"
proof -
  have "length (vregs fn') = length (vregs fn)" using assms by (auto simp: placed_def dest: list_all2_lengthD)
  then show "insns fn' = insns fn" "nvregs fn' = nvregs fn" "igraph fn' = igraph fn" "vset_words fn' = vset_words fn"
    "degree fn' = degree fn" "blocks fn' = blocks fn" "param_vregs fn' = param_vregs fn"
    using assms by (cases fn; cases fn'; simp add: placed_def nvregs_def)+
qed

lemma placed_vreg:
  assumes "placed fn fn'" "v < nvregs fn"
  shows "same_vreg (vregs fn ! v) (vregs fn' ! v)"
  using assms by (simp add: placed_def nvregs_def list_all2_conv_all_nth)

lemma same_vreg_fields:
  assumes "same_vreg a b"
  shows "preferred b = preferred a" "fixed b = fixed a" "is_byte b = is_byte a" "is_seg b = is_seg a"
    "needs_addressable b = needs_addressable a" "needs_base b = needs_base a" "needs_index b = needs_index a"
    "needs_ds_addr b = needs_ds_addr a" "needs_cl b = needs_cl a" "remat b = remat a"
    "is_local_slot b = is_local_slot a" "is_stack_home b = is_stack_home a"
    "def_pos b = def_pos a" "last_use b = last_use a"
  using assms by (cases a; cases b; simp add: same_vreg_def)+

lemma placed_pool: "placed fn fn' \<Longrightarrow> v < nvregs fn \<Longrightarrow> get_vreg_pool fn' v bp = get_vreg_pool fn v bp"
  using same_vreg_fields [OF placed_vreg [of fn fn' v]] by (simp add: get_vreg_pool_def Let_def)

lemma placed_remat: "placed fn fn' \<Longrightarrow> v < nvregs fn \<Longrightarrow> vreg_can_rematerialize fn' v = vreg_can_rematerialize fn v"
  using same_vreg_fields [OF placed_vreg [of fn fn' v]] placed_fields [of fn fn']
  by (simp add: vreg_can_rematerialize_def vreg_has_remat_def Let_def)

lemma placed_edges: "placed fn fn' \<Longrightarrow> edges fn' = edges fn"
  using placed_fields [of fn fn'] by (simp add: edges_def)

lemma placed_igraph_ok: "placed fn fn' \<Longrightarrow> igraph_ok fn \<Longrightarrow> igraph_ok fn'"
  using placed_fields [of fn fn'] placed_edges [of fn fn'] by (simp add: igraph_ok_def)

lemma placed_update:
  assumes "v < nvregs fn" "same_vreg (vregs fn ! v) vr"
  shows "placed fn (fn\<lparr>vregs := (vregs fn)[v := vr]\<rparr>)" "placed fn (fn\<lparr>vregs := (vregs fn)[v := vr], nspill_slots := n\<rparr>)"
  using assms by (auto simp: placed_def nvregs_def list_all2_conv_all_nth nth_list_update)

lemma set_assigned_placed: "v < nvregs fn \<Longrightarrow> placed fn (set_assigned v p fn)"
  unfolding set_assigned_def by (rule placed_update) (simp_all add: same_vreg_def)

lemma assigned_set_assigned:
  "v < nvregs fn \<Longrightarrow> assigned (vregs (set_assigned v p fn) ! u) = (if u = v then p else assigned (vregs fn ! u))"
  by (cases "u = v") (simp_all add: set_assigned_def nvregs_def nth_list_update)

lemma spill_set_assigned:
  "v < nvregs fn \<Longrightarrow> spill_slot (vregs (set_assigned v p fn) ! u) = spill_slot (vregs fn ! u)"
  "nspill_slots (set_assigned v p fn) = nspill_slots fn"
  by (cases "u = v") (simp_all add: set_assigned_def nvregs_def nth_list_update)

section \<open>Neighbours do not overlap\<close>

definition clash :: "int \<Rightarrow> int \<Rightarrow> bool" where
  "clash p q \<longleftrightarrow> p \<noteq> PREG_NONE \<and> q \<noteq> PREG_NONE \<and> (p = q \<or> pregs_alias p q)"

lemma clash_sym: "clash p q \<Longrightarrow> clash q p"
  by (auto simp: clash_def dest: pregs_alias_sym)

definition coloured :: "func \<Rightarrow> bool" where
  "coloured fn \<longleftrightarrow>
     (\<forall>(a, b) \<in> edges fn. clash (assigned (vregs fn ! a)) (assigned (vregs fn ! b)) \<longrightarrow>
        fixed (vregs fn ! a) \<and> fixed (vregs fn ! b))"

lemma edges_less: "igraph_ok fn \<Longrightarrow> (a, b) \<in> edges fn \<Longrightarrow> a < nvregs fn \<and> b < nvregs fn \<and> a \<noteq> b"
  using igraph_rowD(2) [of fn a] by (auto simp: edges_def)

lemma color_conflicts_iff:
  assumes "igraph_ok fn" "v < nvregs fn" "p \<noteq> PREG_NONE"
  shows "color_conflicts fn v p \<longleftrightarrow> (\<exists>nb. (v, nb) \<in> edges fn \<and> clash (assigned (vregs fn ! nb)) p)"
  using igraph_rowD(2) [OF assms(1,2)] assms
  by (auto simp: color_conflicts_def list_ex_iff set_vset_members edges_def clash_def)

lemma prefer_conflict_iff:
  assumes ok: "igraph_ok fn" and "v < nvregs fn" "p \<noteq> PREG_NONE"
  shows "prefer_conflict fn v p \<longleftrightarrow> (\<exists>nb. (v, nb) \<in> edges fn \<and> clash (assigned (vregs fn ! nb)) p)"
  unfolding prefer_conflict_def list_ex_iff vregs_interfere_edges [OF ok] clash_def
  using edges_less [OF ok, of v] assms(3) by (simp add: Bex_def) blast

lemma set_assigned_coloured:
  assumes ok: "igraph_ok fn" and col: "coloured fn" and v: "v < nvregs fn"
    and free: "\<forall>nb. (v, nb) \<in> edges fn \<longrightarrow> \<not> clash (assigned (vregs fn ! nb)) p"
  shows "coloured (set_assigned v p fn)"
proof -
  let ?fn = "set_assigned v p fn"
  note pl = set_assigned_placed [OF v, of p]
  have E: "edges ?fn = edges fn" by (rule placed_edges [OF pl])
  have sym: "sym (edges fn)" using ok by (simp add: igraph_ok_def)
  have "fixed (vregs ?fn ! a) \<and> fixed (vregs ?fn ! b)"
    if e: "(a, b) \<in> edges fn" and c: "clash (assigned (vregs ?fn ! a)) (assigned (vregs ?fn ! b))" for a b
  proof -
    note less = edges_less [OF ok e]
    have "a \<noteq> v" using c free e less clash_sym [of p "assigned (vregs fn ! b)"] by (auto simp: assigned_set_assigned [OF v])
    moreover have "b \<noteq> v" using c free symD [OF sym e] less by (auto simp: assigned_set_assigned [OF v])
    ultimately have "fixed (vregs fn ! a) \<and> fixed (vregs fn ! b)"
      using col e c by (auto simp: coloured_def assigned_set_assigned [OF v])
    then show ?thesis using same_vreg_fields(2) [OF placed_vreg [OF pl]] less by simp
  qed
  then show ?thesis by (auto simp: coloured_def E)
qed

lemma choose_color_free:
  assumes "choose_color fn v pool = p" and "p \<noteq> PREG_NONE"
  shows "p \<in> set pool \<and> \<not> color_conflicts fn v p"
proof -
  let ?Q = "\<lambda>s :: int \<times> int. fst s = PREG_NONE \<or> (fst s \<in> set pool \<and> \<not> color_conflicts fn v (fst s))"
  let ?f = "\<lambda>(r, preg) (best, best_score). if color_conflicts fn v preg then (best, best_score)
      else let score = color_speed_score fn v preg r
           in if score > best_score then (preg, score) else (best, best_score)"
  have "?Q (fold ?f xs s)" if "?Q s" "snd ` set xs \<subseteq> set pool" for xs s
    using that
  proof (induction xs arbitrary: s)
    case (Cons x xs)
    have "?Q (?f x s)" using Cons.prems by (auto simp: Let_def split: prod.splits)
    then show ?case using Cons.IH [of "?f x s"] Cons.prems(2) by simp
  qed simp
  moreover have "snd ` set (enumerate 0 pool) \<subseteq> set pool" by (metis list.set_map map_snd_enumerate order_refl)
  ultimately have "?Q (fold ?f (enumerate 0 pool) (PREG_NONE, INT_MIN))" by (metis (no_types, lifting) fst_conv)
  with assms show ?thesis by (simp add: choose_color_def)
qed


section \<open>Pre-coloured registers\<close>

text \<open>Where a register that is not fixed may be placed.\<close>

definition place_ok :: "bool \<Rightarrow> func \<Rightarrow> nat \<Rightarrow> int \<Rightarrow> bool" where
  "place_ok bp fn v p \<longleftrightarrow>
     p \<in> set (get_vreg_pool fn v bp) \<or> (p = preferred (vregs fn ! v) \<and> prefer_allowed bp (vregs fn ! v) p)"

lemma prefer_allowed_same: "same_vreg a b \<Longrightarrow> prefer_allowed bp b p = prefer_allowed bp a p"
  by (simp add: prefer_allowed_def same_vreg_fields [of a b])

lemma placed_place_ok:
  assumes "placed fn fn'" "v < nvregs fn"
  shows "place_ok bp fn' v p = place_ok bp fn v p"
  using placed_vreg [OF assms] placed_pool [OF assms]
  by (simp add: place_ok_def prefer_allowed_same same_vreg_fields(1))

definition alloc_inv :: "bool \<Rightarrow> func \<Rightarrow> func \<Rightarrow> bool" where
  "alloc_inv bp fn0 fn \<longleftrightarrow>
     placed fn0 fn \<and> igraph_ok fn \<and> coloured fn \<and>
     (\<forall>v < nvregs fn. assigned (vregs fn ! v) \<noteq> PREG_NONE \<longrightarrow>
        fixed (vregs fn ! v) \<or> place_ok bp fn v (assigned (vregs fn ! v)))"

lemma alloc_inv_assign:
  assumes inv: "alloc_inv bp fn0 fn" and v: "v < nvregs fn" and ok: "place_ok bp fn v p"
    and free: "\<forall>nb. (v, nb) \<in> edges fn \<longrightarrow> \<not> clash (assigned (vregs fn ! nb)) p"
  shows "alloc_inv bp fn0 (set_assigned v p fn)"
proof -
  let ?fn = "set_assigned v p fn"
  note pl = set_assigned_placed [OF v, of p]
  have "fixed (vregs ?fn ! u) \<or> place_ok bp ?fn u (assigned (vregs ?fn ! u))"
    if "u < nvregs fn" "assigned (vregs ?fn ! u) \<noteq> PREG_NONE" for u
    using that inv ok same_vreg_fields(2) [OF placed_vreg [OF pl that(1)]] placed_place_ok [OF pl that(1)]
    by (auto simp: alloc_inv_def assigned_set_assigned [OF v] split: if_splits)
  then show ?thesis
    using inv placed_trans [OF _ pl] placed_igraph_ok [OF pl] set_assigned_coloured [OF _ _ v free] placed_fields(2) [OF pl]
    by (auto simp: alloc_inv_def)
qed

text \<open>The state after each of the two loops: no slot is given out.\<close>

definition slots_kept :: "func \<Rightarrow> func \<Rightarrow> bool" where
  "slots_kept fn fn' \<longleftrightarrow>
     nspill_slots fn' = nspill_slots fn \<and> (\<forall>v < nvregs fn. spill_slot (vregs fn' ! v) = spill_slot (vregs fn ! v))"

definition fixed_only :: "func \<Rightarrow> func \<Rightarrow> bool" where
  "fixed_only fn0 fn \<longleftrightarrow>
     placed fn0 fn \<and> slots_kept fn0 fn \<and>
     (\<forall>v < nvregs fn. assigned (vregs fn ! v) \<noteq> PREG_NONE \<longrightarrow> fixed (vregs fn ! v))"

lemma precolor_fixed_step:
  assumes "fixed_only fn0 fn" "i < nvregs fn0"
  shows "fixed_only fn0 (precolor_fixed i fn)"
proof (cases "\<not> is_stack_home (vregs fn ! i) \<and> fixed (vregs fn ! i) \<and> preferred (vregs fn ! i) \<noteq> PREG_NONE")
  case True
  have i: "i < nvregs fn" using assms placed_fields(2) [of fn0 fn] by (simp add: fixed_only_def)
  note pl = set_assigned_placed [OF i, of "preferred (vregs fn ! i)"]
  have "fixed (vregs (set_assigned i p fn) ! v) = fixed (vregs fn ! v)" if "v < nvregs fn" for v p
    using same_vreg_fields(2) [OF placed_vreg [OF set_assigned_placed [OF i] that]] .
  then have "fixed_only fn0 (set_assigned i (preferred (vregs fn ! i)) fn)"
    using assms(1) True placed_trans [OF _ pl] placed_fields(2) [OF pl] i
    by (auto simp: fixed_only_def slots_kept_def assigned_set_assigned [OF i] spill_set_assigned placed_fields(2))
  with True show ?thesis by (simp add: precolor_fixed_def Let_def)
next
  case False
  then show ?thesis using assms by (auto simp: precolor_fixed_def Let_def)
qed

lemma precolor_preferred_step:
  assumes inv: "alloc_inv bp fn0 fn \<and> slots_kept fn0 fn" and i: "i < nvregs fn0"
  shows "alloc_inv bp fn0 (precolor_preferred bp i fn) \<and> slots_kept fn0 (precolor_preferred bp i fn)"
proof -
  let ?vr = "vregs fn ! i"
  have "precolor_preferred bp i fn =
      (if preferred ?vr \<noteq> PREG_NONE \<and> prefer_allowed bp ?vr (preferred ?vr) \<and> \<not> prefer_conflict fn i (preferred ?vr) \<and>
          \<not> (is_stack_home ?vr \<or> is_local_slot ?vr \<or> fixed ?vr)
       then set_assigned i (preferred ?vr) fn else fn)"
    by (auto simp: precolor_preferred_def Let_def)
  then consider "precolor_preferred bp i fn = fn"
    | "preferred ?vr \<noteq> PREG_NONE" "prefer_allowed bp ?vr (preferred ?vr)" "\<not> prefer_conflict fn i (preferred ?vr)"
      "precolor_preferred bp i fn = set_assigned i (preferred ?vr) fn"
    by argo
  then show ?thesis
  proof cases
    case 2
    have ok: "igraph_ok fn" and nv: "nvregs fn = nvregs fn0" and i': "i < nvregs fn"
      using inv i placed_fields(2) [of fn0 fn] by (simp_all add: alloc_inv_def)
    have "alloc_inv bp fn0 (set_assigned i (preferred ?vr) fn)"
      by (rule alloc_inv_assign [OF conjunct1 [OF inv] i'])
        (use 2 prefer_conflict_iff [OF ok i' 2(1)] in \<open>auto simp: place_ok_def\<close>)
    then show ?thesis using inv 2 i' nv by (simp add: slots_kept_def spill_set_assigned)
  qed (use inv in simp)
qed

definition unplaced :: "func \<Rightarrow> nat \<Rightarrow> bool" where
  "unplaced fn v \<longleftrightarrow> assigned (vregs fn ! v) = PREG_NONE \<and> spill_slot (vregs fn ! v) < 0"

lemma precolor_inv:
  assumes ok: "igraph_ok fn" and un: "\<forall>v < nvregs fn. unplaced fn v"
  shows "alloc_inv bp fn (precolor bp fn) \<and> slots_kept fn (precolor bp fn)"
proof -
  let ?f1 = "fold precolor_fixed [0..<nvregs fn] fn"
  have "fixed_only fn fn" using un placed_refl by (auto simp: fixed_only_def slots_kept_def unplaced_def)
  then have f1: "fixed_only fn ?f1"
    by (rule fold_invariant [where Q = "\<lambda>i. i < nvregs fn", rotated]) (auto intro: precolor_fixed_step)
  then have ok1: "igraph_ok ?f1" using placed_igraph_ok [OF _ ok] by (simp add: fixed_only_def)
  have "coloured ?f1"
    unfolding coloured_def clash_def using conjunct2 [OF conjunct2 [OF f1 [unfolded fixed_only_def]]] edges_less [OF ok1] by blast
  with f1 ok1 have "alloc_inv bp fn ?f1" by (simp add: fixed_only_def alloc_inv_def)
  with f1 have "alloc_inv bp fn ?f1 \<and> slots_kept fn ?f1" by (simp add: fixed_only_def)
  then show ?thesis unfolding precolor_def
    by (rule fold_invariant [where Q = "\<lambda>i. i < nvregs fn", rotated]) (simp_all add: precolor_preferred_step)
qed

section \<open>The simplify loop\<close>

lemma cheapest_fold:
  fixes cost :: "nat \<Rightarrow> int"
  assumes "fold (\<lambda>i (best, c). if ok i \<and> cost i < c then (Some i, cost i) else (best, c)) is (b0, c0) = (b, c)"
  shows "(b = b0 \<and> c = c0 \<or> (\<exists>i \<in> set is. b = Some i \<and> ok i \<and> c = cost i)) \<and> c \<le> c0 \<and> (\<forall>i \<in> set is. ok i \<longrightarrow> c \<le> cost i)"
  using assms
proof (induction "is" arbitrary: b0 c0)
  case (Cons i "is")
  show ?case
  proof (cases "ok i \<and> cost i < c0")
    case True
    then have "c \<le> cost i" using Cons.IH [of "Some i" "cost i"] Cons.prems by simp
    with True Cons.IH [of "Some i" "cost i"] Cons.prems show ?thesis by auto
  next
    case False
    with Cons.IH [of b0 c0] Cons.prems show ?thesis by auto
  qed
qed simp

lemma cheapest_Some: "cheapest ok cost nv = Some i \<Longrightarrow> i < nv \<and> ok i"
  using cheapest_fold [of ok cost "[0..<nv]" None INT_MAX] unfolding cheapest_def
  by (metis (no_types, lifting) atLeastLessThan_iff fst_conv option.distinct(1) option.inject set_upt surj_pair)

lemma cheapest_None: "cheapest ok cost nv = None \<Longrightarrow> i < nv \<Longrightarrow> ok i \<Longrightarrow> INT_MAX \<le> cost i"
proof -
  assume a: "cheapest ok cost nv = None" "i < nv" "ok i"
  let ?r = "fold (\<lambda>i (best, c). if ok i \<and> cost i < c then (Some i, cost i) else (best, c)) [0..<nv] (None, INT_MAX)"
  obtain b c where r: "?r = (b, c)" by force
  have "b = None" using a(1) r by (simp add: cheapest_def)
  with cheapest_fold [OF r] a(2,3) show ?thesis by force
qed

lemma pick_vreg_Some: "pick_vreg fn bp removed = Some i \<Longrightarrow> i < nvregs fn \<and> \<not> removed ! i"
  by (auto simp: pick_vreg_def dest: cheapest_Some split: option.splits)

lemma pick_vreg_None: "pick_vreg fn bp removed = None \<Longrightarrow> i < nvregs fn \<Longrightarrow> \<not> removed ! i \<Longrightarrow> INT_MAX \<le> spill_cost fn i"
  by (auto simp: pick_vreg_def dest: cheapest_None split: option.splits)

definition to_do :: "bool list \<Rightarrow> nat set" where
  "to_do removed = {i. i < length removed \<and> \<not> removed ! i}"

lemma to_do_count: "length (filter (\<lambda>r. \<not> r) removed) = card (to_do removed)"
  by (simp add: to_do_def length_filter_conv_card)

lemma to_do_remove: "i \<in> to_do removed \<Longrightarrow> to_do (removed[i := True]) = to_do removed - {i}"
  by (auto simp: to_do_def nth_list_update)

lemma simplify_loop_stack:
  assumes "simplify_loop fn bp n removed stack = Some st" and "n = card (to_do removed)"
    and "length removed = nvregs fn" and "distinct stack" "set stack \<inter> to_do removed = {}"
  shows "distinct st \<and> set st = set stack \<union> to_do removed"
  using assms
proof (induction n arbitrary: removed stack)
  case 0
  then have "to_do removed = {}" by (simp add: to_do_def)
  with 0 show ?case by simp
next
  case (Suc n)
  from Suc.prems(1) obtain i where pick: "pick_vreg fn bp removed = Some i"
    and rest: "simplify_loop fn bp n (removed[i := True]) (i # stack) = Some st" by (auto split: option.splits)
  have i: "i \<in> to_do removed" using pick_vreg_Some [OF pick] Suc.prems(3) by (simp add: to_do_def)
  have "n = card (to_do (removed[i := True]))" using Suc.prems(2) i by (simp add: to_do_remove)
  from Suc.IH [OF rest this] Suc.prems(3-) i to_do_remove [OF i]
  have "distinct st \<and> set st = set (i # stack) \<union> (to_do removed - {i})" by auto
  with i show ?case by auto
qed

lemma simplify_loop_ends:
  assumes "n = card (to_do removed)" and "length removed = nvregs fn"
    and "\<forall>i \<in> to_do removed. spill_cost fn i < INT_MAX"
  shows "\<exists>st. simplify_loop fn bp n removed stack = Some st"
  using assms
proof (induction n arbitrary: removed stack)
  case (Suc n)
  then have "to_do removed \<noteq> {}" by auto
  then obtain j where j: "j \<in> to_do removed" by blast
  then obtain i where pick: "pick_vreg fn bp removed = Some i"
    using pick_vreg_None [of fn bp removed j] Suc.prems(2,3) by (cases "pick_vreg fn bp removed") (force simp: to_do_def)+
  have i: "i \<in> to_do removed" using pick_vreg_Some [OF pick] Suc.prems(2) by (simp add: to_do_def)
  have "n = card (to_do (removed[i := True]))" using Suc.prems(1) i by (simp add: to_do_remove)
  from Suc.IH [OF this, of "i # stack"] Suc.prems(2,3) i pick show ?case by (simp add: to_do_remove)
qed simp


section \<open>Selection\<close>

definition give_slot :: "nat \<Rightarrow> func \<Rightarrow> func" where
  "give_slot v fn = fn\<lparr>vregs := (vregs fn)[v := (vregs fn ! v)\<lparr>spill_slot := nspill_slots fn\<rparr>],
     nspill_slots := nspill_slots fn + 1\<rparr>"

lemma give_slot_placed: "v < nvregs fn \<Longrightarrow> placed fn (give_slot v fn)"
  unfolding give_slot_def by (rule placed_update(2)) (simp_all add: same_vreg_def)

lemma give_slot_vreg:
  assumes "v < nvregs fn"
  shows "spill_slot (vregs (give_slot v fn) ! u) = (if u = v then nspill_slots fn else spill_slot (vregs fn ! u))"
    "assigned (vregs (give_slot v fn) ! u) = assigned (vregs fn ! u)" "nspill_slots (give_slot v fn) = nspill_slots fn + 1"
  using assms by (simp_all add: give_slot_def nvregs_def nth_list_update)

lemma select_cases:
  assumes ok: "igraph_ok fn" and v: "v < nvregs fn"
  obtains (reg) p where "p \<noteq> PREG_NONE" "select_vreg bp v fn = set_assigned v p fn" "p \<in> set (get_vreg_pool fn v bp)"
      "\<forall>nb. (v, nb) \<in> edges fn \<longrightarrow> \<not> clash (assigned (vregs fn ! nb)) p"
    | (slot) "select_vreg bp v fn = give_slot v fn" "\<not> vreg_can_rematerialize fn v"
    | (remat) "select_vreg bp v fn = fn" "vreg_can_rematerialize fn v"
proof -
  let ?pref = "preferred (vregs fn ! v)" and ?pool = "get_vreg_pool fn v bp"
  define tk where "tk \<longleftrightarrow> ?pref \<noteq> PREG_NONE \<and> \<not> (\<not> bp \<and> ?pref = PREG_BP) \<and> preg_in_pool ?pref ?pool \<and> \<not> color_conflicts fn v ?pref"
  have sel: "select_vreg bp v fn =
      (if tk then set_assigned v ?pref fn
       else if choose_color fn v ?pool \<noteq> PREG_NONE then set_assigned v (choose_color fn v ?pool) fn
       else if \<not> vreg_can_rematerialize fn v then give_slot v fn else fn)"
    by (simp only: tk_def select_vreg_def give_slot_def Let_def)
  show thesis
  proof (cases tk)
    case True
    then show ?thesis
      using color_conflicts_iff [OF ok v, of ?pref] sel
      by (intro reg [of ?pref]) (auto simp: tk_def preg_in_pool_def list_ex_iff)
  next
    case no: False
    show ?thesis
    proof (cases "choose_color fn v ?pool = PREG_NONE")
      case True
      then show ?thesis using no sel slot remat by (cases "vreg_can_rematerialize fn v") simp_all
    next
      case False
      then show ?thesis
        using no sel choose_color_free [OF refl False] color_conflicts_iff [OF ok v False]
        by (intro reg [of "choose_color fn v ?pool"]) auto
    qed
  qed
qed

definition has_place :: "func \<Rightarrow> nat \<Rightarrow> bool" where
  "has_place fn v \<longleftrightarrow> assigned (vregs fn ! v) \<noteq> PREG_NONE \<or> spill_slot (vregs fn ! v) \<ge> 0 \<or> vreg_can_rematerialize fn v"

text \<open>Slots are numbered from 0, belong to one register each, and a register with a slot has no
  other place.\<close>

definition slots_ok :: "func \<Rightarrow> bool" where
  "slots_ok fn \<longleftrightarrow>
     0 \<le> nspill_slots fn \<and>
     (\<forall>v < nvregs fn. spill_slot (vregs fn ! v) < nspill_slots fn \<and>
        (spill_slot (vregs fn ! v) \<ge> 0 \<longrightarrow> assigned (vregs fn ! v) = PREG_NONE)) \<and>
     (\<forall>u < nvregs fn. \<forall>v < nvregs fn. spill_slot (vregs fn ! u) = spill_slot (vregs fn ! v) \<and>
        spill_slot (vregs fn ! u) \<ge> 0 \<longrightarrow> u = v)"

definition others_kept :: "nat set \<Rightarrow> func \<Rightarrow> func \<Rightarrow> bool" where
  "others_kept V fn fn' \<longleftrightarrow>
     (\<forall>u < nvregs fn. u \<notin> V \<longrightarrow> assigned (vregs fn' ! u) = assigned (vregs fn ! u) \<and>
        spill_slot (vregs fn' ! u) = spill_slot (vregs fn ! u))"

lemma select_step:
  assumes inv: "alloc_inv bp fn0 fn" and v: "v < nvregs fn" and slots: "slots_ok fn" and un: "unplaced fn v"
  shows "alloc_inv bp fn0 (select_vreg bp v fn) \<and> slots_ok (select_vreg bp v fn) \<and> has_place (select_vreg bp v fn) v \<and>
    others_kept {v} fn (select_vreg bp v fn) \<and> placed fn (select_vreg bp v fn)"
proof -
  have ok: "igraph_ok fn" using inv by (simp add: alloc_inv_def)
  from ok v show ?thesis
  proof (cases rule: select_cases [where bp = bp])
    case (reg p)
    have "alloc_inv bp fn0 (set_assigned v p fn)"
      by (rule alloc_inv_assign [OF inv v]) (use reg in \<open>auto simp: place_ok_def\<close>)
    moreover have "slots_ok (set_assigned v p fn)"
      using slots un placed_fields(2) [OF set_assigned_placed [OF v, of p]] v
      by (auto simp: slots_ok_def assigned_set_assigned [OF v] spill_set_assigned unplaced_def)
    ultimately show ?thesis
      using reg(1,2) set_assigned_placed [OF v, of p] v
      by (auto simp: has_place_def others_kept_def assigned_set_assigned [OF v] spill_set_assigned)
  next
    case slot
    note pl = give_slot_placed [OF v]
    have "coloured (give_slot v fn)"
      using inv placed_edges [OF pl] edges_less [OF ok] same_vreg_fields(2) [OF placed_vreg [OF pl]]
      by (fastforce simp: alloc_inv_def coloured_def give_slot_vreg [OF v])
    then have "alloc_inv bp fn0 (give_slot v fn)"
      using inv placed_trans [OF _ pl] placed_igraph_ok [OF pl] placed_fields(2) [OF pl]
        same_vreg_fields(2) [OF placed_vreg [OF pl]] placed_place_ok [OF pl]
      by (simp add: alloc_inv_def give_slot_vreg [OF v])
    moreover have "slots_ok (give_slot v fn)"
      using slots un placed_fields(2) [OF pl] by (auto simp: slots_ok_def give_slot_vreg [OF v] unplaced_def)
    ultimately show ?thesis
      using slot pl slots by (auto simp: has_place_def others_kept_def give_slot_vreg [OF v] slots_ok_def)
  next
    case remat
    then show ?thesis using inv slots placed_refl by (simp add: has_place_def others_kept_def)
  qed
qed

lemma has_place_kept:
  assumes "placed fn fn'" "others_kept V fn fn'" "u < nvregs fn" "u \<notin> V"
  shows "has_place fn' u = has_place fn u" "unplaced fn' u = unplaced fn u"
  using assms placed_remat [OF assms(1,3)] by (simp_all add: has_place_def others_kept_def unplaced_def)

lemma select_all:
  assumes "alloc_inv bp fn0 fn" "slots_ok fn" "distinct st" "\<forall>v \<in> set st. v < nvregs fn \<and> unplaced fn v"
  shows "alloc_inv bp fn0 (fold (select_vreg bp) st fn) \<and> slots_ok (fold (select_vreg bp) st fn) \<and>
    (\<forall>v \<in> set st. has_place (fold (select_vreg bp) st fn) v) \<and> others_kept (set st) fn (fold (select_vreg bp) st fn) \<and>
    placed fn (fold (select_vreg bp) st fn)"
  using assms
proof (induction st arbitrary: fn)
  case Nil
  then show ?case by (simp add: others_kept_def placed_refl)
next
  case (Cons v st)
  let ?fn = "select_vreg bp v fn"
  have v: "v < nvregs fn" "unplaced fn v" using Cons.prems(4) by simp_all
  note st = select_step [OF Cons.prems(1) v(1) Cons.prems(2) v(2)]
  then have pl: "placed fn ?fn" and ok: "others_kept {v} fn ?fn" by blast+
  have nv: "nvregs ?fn = nvregs fn" by (rule placed_fields(2) [OF pl])
  have "\<forall>u \<in> set st. u < nvregs ?fn \<and> unplaced ?fn u"
    using Cons.prems(3,4) has_place_kept(2) [OF pl ok] nv by auto
  with Cons.IH [of ?fn] st Cons.prems(3)
  have IH: "alloc_inv bp fn0 (fold (select_vreg bp) st ?fn) \<and> slots_ok (fold (select_vreg bp) st ?fn) \<and>
      (\<forall>v \<in> set st. has_place (fold (select_vreg bp) st ?fn) v) \<and> others_kept (set st) ?fn (fold (select_vreg bp) st ?fn) \<and>
      placed ?fn (fold (select_vreg bp) st ?fn)" by simp
  then have "has_place (fold (select_vreg bp) st ?fn) v"
    using has_place_kept(1) [of ?fn _ "set st" v] st v nv Cons.prems(3) by simp
  with IH ok nv placed_trans [OF pl] show ?case by (auto simp: others_kept_def)
qed

section \<open>The result\<close>

definition needed :: "vreg_info \<Rightarrow> bool" where
  "needed vr \<longleftrightarrow> \<not> is_stack_home vr \<and> \<not> is_local_slot vr \<and> (def_pos vr \<ge> 0 \<or> last_use vr \<ge> 0)"

lemma allocation_result:
  assumes ok: "igraph_ok fn" and un: "\<forall>v < nvregs fn. unplaced fn v" and n0: "nspill_slots fn = 0"
    and al: "allocate_registers fn bp = Some fn'"
  shows "alloc_inv bp fn fn'" "slots_ok fn'" "\<forall>v < nvregs fn. needed (vregs fn ! v) \<longrightarrow> has_place fn' v"
proof -
  let ?p = "precolor bp fn"
  let ?rm = "map handled (vregs ?p)"
  have P: "alloc_inv bp fn ?p" "slots_kept fn ?p" using precolor_inv [OF ok un] by simp_all
  then have pl: "placed fn ?p" by (simp add: alloc_inv_def)
  have nv: "nvregs ?p = nvregs fn" by (rule placed_fields(2) [OF pl])
  obtain st where st: "simplify_loop ?p bp (card (to_do ?rm)) ?rm [] = Some st"
    and fn': "fn' = fold (select_vreg bp) st ?p"
    using al by (auto simp: allocate_registers_def Let_def to_do_count split: option.splits)
  have S: "distinct st" "set st = to_do ?rm"
    using simplify_loop_stack [OF st refl] by (simp_all add: nvregs_def)
  have todo: "v \<in> to_do ?rm \<longleftrightarrow> v < nvregs fn \<and> \<not> handled (vregs ?p ! v)" for v
    using nv by (auto simp: to_do_def nvregs_def)
  have un': "\<forall>v \<in> set st. v < nvregs ?p \<and> unplaced ?p v"
    using S(2) todo nv P(2) un by (auto simp: unplaced_def handled_def slots_kept_def)
  have "slots_ok ?p"
    using P(2) un n0 nv by (auto simp: slots_ok_def slots_kept_def unplaced_def)
  note sel = select_all [OF P(1) this S(1) un', folded fn']
  then show "alloc_inv bp fn fn'" "slots_ok fn'" by blast+
  show "\<forall>v < nvregs fn. needed (vregs fn ! v) \<longrightarrow> has_place fn' v"
  proof (intro allI impI)
    fix v assume v: "v < nvregs fn" and need: "needed (vregs fn ! v)"
    show "has_place fn' v"
    proof (cases "v \<in> set st")
      case False
      then have "handled (vregs ?p ! v)" using v todo S(2) by blast
      then have "assigned (vregs ?p ! v) \<noteq> PREG_NONE"
        using need same_vreg_fields(11-14) [OF placed_vreg [OF pl v]] by (simp add: handled_def needed_def) linarith
      then show ?thesis using sel False v nv by (simp add: others_kept_def has_place_def)
    qed (use sel in blast)
  qed
qed

end
