(* ===== verification/Bind_Ranges.thy ===== *)
theory Bind_Ranges
  imports Bind_Alloc_Facts
begin

text \<open>
  Live ranges and counts of the virtual registers, \<^verbatim>\<open>compute_liveness\<close> of
  \<^verbatim>\<open>src/bind.c\<close>: first definition, last use, number of references and whether the register is
  live in a block with a back edge.
\<close>

section \<open>The operations\<close>

definition upd_vreg :: "(vreg_info \<Rightarrow> vreg_info) \<Rightarrow> nat \<Rightarrow> func \<Rightarrow> func" where
  "upd_vreg f v fn = fn\<lparr>vregs := (vregs fn)[v := f (vregs fn ! v)]\<rparr>"

definition clear_range :: "vreg_info \<Rightarrow> vreg_info" where
  "clear_range vr = vr\<lparr>def_pos := -1, last_use := -1, use_count := 0, in_loop := False\<rparr>"

definition first_def :: "nat \<Rightarrow> vreg_info \<Rightarrow> vreg_info" where
  "first_def i vr = (if def_pos vr < 0 then vr\<lparr>def_pos := int i\<rparr> else vr)"

definition use_at :: "int \<Rightarrow> vreg_info \<Rightarrow> vreg_info" where
  "use_at i vr = (if i > last_use vr then vr\<lparr>last_use := i\<rparr> else vr)"

definition note_defs :: "nat \<Rightarrow> func \<Rightarrow> func" where
  "note_defs i fn = fold (upd_vreg (first_def i)) (valid_vregs (nvregs fn) (insn_writes (insns fn ! i))) fn"

text \<open>The use points of the source: of the instructions that read their first operand only the
  stores are listed.\<close>

definition range_uses :: "ir_insn \<Rightarrow> int list" where
  "range_uses ins =
     (if op ins \<noteq> IR_LEA then [src1 ins] else []) @ [src2 ins] @ extra_args ins @
     (if op ins = IR_RETVAL then ret_vregs ins else []) @
     (if op ins = IR_STORE \<or> op ins = IR_STOREMEM \<or> op ins = IR_STOREFIELD then [dst ins] else [])"

definition note_live :: "bblock \<Rightarrow> nat \<Rightarrow> func \<Rightarrow> func" where
  "note_live bb v fn =
     (let fn = (if vset_test (live_out bb) v then upd_vreg (use_at (int (bend bb) - 1)) v fn else fn)
      in if vset_test (live_in bb) v then upd_vreg (use_at (int (bstart bb))) v fn else fn)"

definition note_uses :: "nat \<Rightarrow> func \<Rightarrow> func" where
  "note_uses i fn = fold (upd_vreg (use_at (int i))) (valid_vregs (nvregs fn) (range_uses (insns fn ! i))) fn"

definition note_block :: "bblock \<Rightarrow> func \<Rightarrow> func" where
  "note_block bb fn = fold note_uses [bstart bb..<bend bb] (fold (note_live bb) [0..<nvregs fn] fn)"

definition dead_def :: "vreg_info \<Rightarrow> vreg_info" where
  "dead_def vr = (if def_pos vr \<ge> 0 \<and> last_use vr < 0 then vr\<lparr>last_use := def_pos vr\<rparr> else vr)"

definition count_use :: "vreg_info \<Rightarrow> vreg_info" where
  "count_use vr = vr\<lparr>use_count := use_count vr + 1\<rparr>"

definition count_redef :: "nat \<Rightarrow> vreg_info \<Rightarrow> vreg_info" where
  "count_redef i vr = (if def_pos vr \<ge> 0 \<and> def_pos vr < int i then count_use vr else vr)"

definition count_insn :: "nat \<Rightarrow> func \<Rightarrow> func" where
  "count_insn i fn =
     (let ins = insns fn ! i; nv = nvregs fn;
          reads = (if op ins \<noteq> IR_LEA then [src1 ins] else []) @ [src2 ins] @ extra_args ins @
                  (if op ins = IR_RETVAL then ret_vregs ins else []);
          redefs = (if op ins = IR_MCALL then ret_vregs ins else []) @ [dst ins]
      in fold (upd_vreg (count_redef i)) (valid_vregs nv redefs)
           (fold (upd_vreg count_use) (valid_vregs nv reads) fn))"

definition note_loop :: "nat \<Rightarrow> func \<Rightarrow> func" where
  "note_loop b fn =
     (let bb = blocks fn ! b
      in if list_ex (\<lambda>p. p \<ge> b) (preds bb)
         then fold (\<lambda>v fn. if vset_test (live_in bb) v \<or> vset_test (live_out bb) v
                           then upd_vreg (\<lambda>vr. vr\<lparr>in_loop := True\<rparr>) v fn else fn) [0..<nvregs fn] fn
         else fn)"

definition compute_liveness :: "func \<Rightarrow> func" where
  "compute_liveness fn =
     (let n = length (insns fn); nv = nvregs fn;
          fn = fold (upd_vreg clear_range) [0..<nv] fn;
          fn = fold note_defs [0..<n] fn;
          fn = fold (upd_vreg (\<lambda>vr. vr\<lparr>def_pos := -1\<rparr>)) (valid_vregs nv (param_vregs fn)) fn;
          fn = fold note_block (blocks fn) fn;
          fn = fold (upd_vreg dead_def) [0..<nv] fn;
          fn = fold count_insn [0..<n] fn
      in fold note_loop [0..<length (blocks fn)] fn)"

section \<open>What the passes leave alone\<close>

text \<open>A pass over the registers changes single registers by updates from a set \<open>F\<close>; \<open>R\<close> relates a
  register before and after.\<close>

definition vregs_only :: "(vreg_info \<Rightarrow> vreg_info \<Rightarrow> bool) \<Rightarrow> func \<Rightarrow> func \<Rightarrow> bool" where
  "vregs_only R fn fn' \<longleftrightarrow>
     fn' = fn\<lparr>vregs := vregs fn', nsibling_byte_groups := nsibling_byte_groups fn'\<rparr> \<and> list_all2 R (vregs fn) (vregs fn')"

lemma vregs_only_fields:
  assumes "vregs_only R fn fn'"
  shows "insns fn' = insns fn" "nvregs fn' = nvregs fn" "igraph fn' = igraph fn" "vset_words fn' = vset_words fn"
    "degree fn' = degree fn" "blocks fn' = blocks fn" "param_vregs fn' = param_vregs fn" "nspill_slots fn' = nspill_slots fn"
    "needs_frame fn' = needs_frame fn"
proof -
  have "length (vregs fn') = length (vregs fn)" using assms by (auto simp: vregs_only_def dest: list_all2_lengthD)
  then show "insns fn' = insns fn" "nvregs fn' = nvregs fn" "igraph fn' = igraph fn" "vset_words fn' = vset_words fn"
    "degree fn' = degree fn" "blocks fn' = blocks fn" "param_vregs fn' = param_vregs fn" "nspill_slots fn' = nspill_slots fn"
    "needs_frame fn' = needs_frame fn"
    using assms by (cases fn; cases fn'; simp add: vregs_only_def nvregs_def)+
qed

lemma vregs_only_nth: "vregs_only R fn fn' \<Longrightarrow> v < nvregs fn \<Longrightarrow> R (vregs fn ! v) (vregs fn' ! v)"
  by (simp add: vregs_only_def nvregs_def list_all2_conv_all_nth)

lemma vregs_only_refl: "reflp R \<Longrightarrow> vregs_only R fn fn"
  by (simp add: vregs_only_def list_all2_conv_all_nth reflpD)

lemma vregs_only_trans:
  assumes "transp R" "vregs_only R fn fn1" "vregs_only R fn1 fn2"
  shows "vregs_only R fn fn2"
proof -
  have "list_all2 R (vregs fn) (vregs fn2)"
    using list_all2_trans [of R R R "vregs fn" "vregs fn1" "vregs fn2"] assms by (auto simp: vregs_only_def dest: transpD)
  then show ?thesis using assms(2,3) by (cases fn; cases fn1; cases fn2) (simp add: vregs_only_def)
qed

lemma vregs_only_upd:
  assumes "reflp R" "R (vregs fn ! v) (f (vregs fn ! v))"
  shows "vregs_only R fn (upd_vreg f v fn)"
proof -
  have "R (vregs fn ! i) ((vregs fn)[v := f (vregs fn ! v)] ! i)" if "i < length (vregs fn)" for i
    using assms that by (cases "i = v") (auto dest: reflpD)
  then show ?thesis by (simp add: vregs_only_def upd_vreg_def list_all2_conv_all_nth)
qed

lemma vregs_only_fold:
  assumes "reflp R" "transp R" and "\<And>x fn. x \<in> set xs \<Longrightarrow> vregs_only R fn (g x fn)"
  shows "vregs_only R fn (fold g xs fn)"
  using assms(3)
proof (induction xs arbitrary: fn)
  case (Cons x xs)
  have "vregs_only R fn (g x fn)" "vregs_only R (g x fn) (fold g xs (g x fn))" using Cons by simp_all
  then show ?case using vregs_only_trans [OF assms(2)] by simp
qed (simp add: vregs_only_refl assms(1))

text \<open>Only the ranges and the counts change.\<close>

definition same_but_range :: "vreg_info \<Rightarrow> vreg_info \<Rightarrow> bool" where
  "same_but_range vr vr' \<longleftrightarrow>
     vr' = vr\<lparr>use_count := use_count vr', in_loop := in_loop vr', def_pos := def_pos vr', last_use := last_use vr'\<rparr>"

lemma same_but_range_rel: "reflp same_but_range" "transp same_but_range"
proof -
  show "reflp same_but_range" by (rule reflpI) (simp add: same_but_range_def)
  show "transp same_but_range"
  proof (rule transpI)
    fix a b c assume "same_but_range a b" "same_but_range b c"
    then show "same_but_range a c" by (cases a; cases b; cases c) (simp add: same_but_range_def)
  qed
qed

lemmas range_fold = vregs_only_fold [OF same_but_range_rel]
lemmas range_upd = vregs_only_upd [OF same_but_range_rel(1)]
lemmas range_trans = vregs_only_trans [OF same_but_range_rel(2)]

lemma note_steps:
  "vregs_only same_but_range fn (note_defs i fn)" "vregs_only same_but_range fn (note_uses i fn)"
  "vregs_only same_but_range fn (note_live bb v fn)" "vregs_only same_but_range fn (count_insn i fn)"
  "vregs_only same_but_range fn (note_loop b fn)"
proof -
  show "vregs_only same_but_range fn (note_defs i fn)" unfolding note_defs_def
    by (rule range_fold, rule range_upd) (simp add: same_but_range_def first_def_def)
  show "vregs_only same_but_range fn (note_uses i fn)" unfolding note_uses_def
    by (rule range_fold, rule range_upd) (simp add: same_but_range_def use_at_def)
  have u: "vregs_only same_but_range fn (upd_vreg (use_at j) v fn)" for j fn
    by (rule range_upd) (simp add: same_but_range_def use_at_def)
  show "vregs_only same_but_range fn (note_live bb v fn)"
    unfolding note_live_def Let_def using u range_trans [OF u u] vregs_only_refl [OF same_but_range_rel(1)] by auto
  show "vregs_only same_but_range fn (count_insn i fn)" unfolding count_insn_def Let_def
    by (rule range_trans; rule range_fold; rule range_upd) (simp_all add: same_but_range_def count_use_def count_redef_def)
  show "vregs_only same_but_range fn (note_loop b fn)" unfolding note_loop_def Let_def
    by (auto intro!: range_fold range_upd vregs_only_refl same_but_range_rel simp: same_but_range_def)
qed

lemma note_block_steps: "vregs_only same_but_range fn (note_block bb fn)"
  unfolding note_block_def by (rule range_trans; rule range_fold; rule note_steps)

lemma compute_liveness_frame: "vregs_only same_but_range fn (compute_liveness fn)"
proof -
  have c: "vregs_only same_but_range fn (fold (upd_vreg f) vs fn)" if "\<And>vr. same_but_range vr (f vr)" for f vs fn
    by (rule range_fold, rule range_upd) (rule that)
  have 1: "same_but_range vr (clear_range vr)" "same_but_range vr (vr\<lparr>def_pos := -1\<rparr>)" "same_but_range vr (dead_def vr)" for vr
    by (simp_all add: same_but_range_def clear_range_def dead_def_def)
  let ?n = "length (insns fn)" and ?nv = "nvregs fn"
  define f1 where "f1 = fold (upd_vreg clear_range) [0..<?nv] fn"
  define f2 where "f2 = fold note_defs [0..<?n] f1"
  define f3 where "f3 = fold (upd_vreg (\<lambda>vr. vr\<lparr>def_pos := -1\<rparr>)) (valid_vregs ?nv (param_vregs f2)) f2"
  define f4 where "f4 = fold note_block (blocks f3) f3"
  define f5 where "f5 = fold (upd_vreg dead_def) [0..<?nv] f4"
  define f6 where "f6 = fold count_insn [0..<?n] f5"
  have "vregs_only same_but_range fn f1" "vregs_only same_but_range f2 f3" "vregs_only same_but_range f4 f5"
    unfolding f1_def f3_def f5_def by (rule c, rule 1)+
  moreover have "vregs_only same_but_range f1 f2" unfolding f2_def by (rule range_fold) (rule note_steps)
  moreover have "vregs_only same_but_range f3 f4" unfolding f4_def by (rule range_fold) (rule note_block_steps)
  moreover have "vregs_only same_but_range f5 f6" unfolding f6_def by (rule range_fold) (rule note_steps)
  moreover have "vregs_only same_but_range f6 (compute_liveness fn)"
    unfolding compute_liveness_def Let_def f1_def [symmetric] f2_def [symmetric] f3_def [symmetric] f4_def [symmetric]
      f5_def [symmetric] f6_def [symmetric]
    by (rule range_fold) (rule note_steps)
  ultimately show ?thesis by (blast intro: range_trans)
qed


section \<open>Registers that occur have a range\<close>

text \<open>A bound that is known stays known.\<close>

definition keeps_range :: "vreg_info \<Rightarrow> vreg_info \<Rightarrow> bool" where
  "keeps_range a b \<longleftrightarrow> (def_pos a \<ge> 0 \<longrightarrow> def_pos b \<ge> 0) \<and> (last_use a \<ge> 0 \<longrightarrow> last_use b \<ge> 0)"

lemma keeps_range_rel: "reflp keeps_range" "transp keeps_range"
  by (auto simp: keeps_range_def intro: reflpI transpI)

lemmas keeps_fold = vregs_only_fold [OF keeps_range_rel]
lemmas keeps_upd = vregs_only_upd [OF keeps_range_rel(1)]
lemmas keeps_trans = vregs_only_trans [OF keeps_range_rel(2)]

lemma keeps_steps:
  "vregs_only keeps_range fn (upd_vreg (first_def i) v fn)" "vregs_only keeps_range fn (upd_vreg (use_at j) v fn)"
  "vregs_only keeps_range fn (upd_vreg dead_def v fn)" "vregs_only keeps_range fn (upd_vreg count_use v fn)"
  "vregs_only keeps_range fn (upd_vreg (count_redef i) v fn)" "vregs_only keeps_range fn (upd_vreg (\<lambda>vr. vr\<lparr>in_loop := b\<rparr>) v fn)"
  by (rule keeps_upd; simp add: keeps_range_def first_def_def use_at_def dead_def_def count_use_def count_redef_def)+

lemma keeps_note:
  "vregs_only keeps_range fn (note_defs i fn)" "vregs_only keeps_range fn (note_uses i fn)"
  "vregs_only keeps_range fn (note_live bb v fn)" "vregs_only keeps_range fn (count_insn i fn)"
  "vregs_only keeps_range fn (note_loop b fn)"
proof -
  show "vregs_only keeps_range fn (note_defs i fn)" "vregs_only keeps_range fn (note_uses i fn)"
    unfolding note_defs_def note_uses_def by (rule keeps_fold, rule keeps_steps)+
  show "vregs_only keeps_range fn (note_live bb v fn)"
    unfolding note_live_def Let_def
    using keeps_steps(2) keeps_trans [OF keeps_steps(2) keeps_steps(2)] vregs_only_refl [OF keeps_range_rel(1)] by auto
  show "vregs_only keeps_range fn (count_insn i fn)" unfolding count_insn_def Let_def
    by (rule keeps_trans; rule keeps_fold; rule keeps_steps)
  show "vregs_only keeps_range fn (note_loop b fn)" unfolding note_loop_def Let_def
    by (auto intro!: keeps_fold keeps_steps vregs_only_refl keeps_range_rel)
qed

lemma keeps_block: "vregs_only keeps_range fn (note_block bb fn)"
  unfolding note_block_def by (rule keeps_trans; rule keeps_fold; rule keeps_note)

text \<open>Something that one step of a loop establishes for a register holds after the loop.\<close>

lemma fold_establishes:
  assumes step: "\<And>x fn. x \<in> set xs \<Longrightarrow> vregs_only keeps_range fn (g x fn)"
    and x: "x \<in> set xs" and v: "v < nvregs fn"
    and est: "\<And>fn'. nvregs fn' = nvregs fn \<Longrightarrow> insns fn' = insns fn \<Longrightarrow> P (vregs (g x fn') ! v)"
    and mono: "\<And>a b. keeps_range a b \<Longrightarrow> P a \<Longrightarrow> P b"
  shows "P (vregs (fold g xs fn) ! v)"
proof -
  obtain ys zs where xs: "xs = ys @ x # zs" using split_list [OF x] by blast
  let ?a = "fold g ys fn"
  have a: "vregs_only keeps_range fn ?a" using step by (intro keeps_fold) (auto simp: xs)
  have b: "vregs_only keeps_range (g x ?a) (fold g zs (g x ?a))" using step by (intro keeps_fold) (auto simp: xs)
  have "vregs_only keeps_range ?a (g x ?a)" using step x by blast
  then have "nvregs (g x ?a) = nvregs fn" using vregs_only_fields(2) a by metis
  with vregs_only_nth [OF b] v have "keeps_range (vregs (g x ?a) ! v) (vregs (fold g xs fn) ! v)" by (simp add: xs)
  moreover have "P (vregs (g x ?a) ! v)" using est [of ?a] vregs_only_fields(1,2) [OF a] by simp
  ultimately show ?thesis by (rule mono)
qed

lemma upd_vreg_nth: "v < nvregs fn \<Longrightarrow> vregs (upd_vreg f u fn) ! v = (if u = v then f (vregs fn ! v) else vregs fn ! v)"
  by (simp add: upd_vreg_def nvregs_def nth_list_update)

lemma note_defs_established:
  assumes "i < length (insns fn)" "v \<in> writes fn i" "v < nvregs fn"
  shows "def_pos (vregs (fold note_defs [0..<length (insns fn)] fn) ! v) \<ge> 0"
proof (rule fold_establishes [where x = i and P = "\<lambda>vr. def_pos vr \<ge> 0"])
  fix fn' assume same: "nvregs fn' = nvregs fn" "insns fn' = insns fn"
  show "def_pos (vregs (note_defs i fn') ! v) \<ge> 0" unfolding note_defs_def
    by (rule fold_establishes [where x = v and P = "\<lambda>vr. def_pos vr \<ge> 0"])
      (use assms same in \<open>auto simp: keeps_steps writes_def upd_vreg_nth first_def_def keeps_range_def\<close>)
qed (use assms keeps_note in \<open>auto simp: keeps_range_def\<close>)

lemma note_block_live_in:
  assumes "v < nvregs fn" "vset_test (live_in bb) v"
  shows "last_use (vregs (note_block bb fn) ! v) \<ge> 0"
proof -
  let ?f = "fold (note_live bb) [0..<nvregs fn] fn"
  have "last_use (vregs ?f ! v) \<ge> 0"
    by (rule fold_establishes [where x = v and P = "\<lambda>vr. last_use vr \<ge> 0"])
      (use assms keeps_note in \<open>auto simp: keeps_range_def note_live_def Let_def upd_vreg_nth use_at_def
         vregs_only_fields(2) [OF keeps_steps(2)]\<close>)
  moreover have f: "vregs_only keeps_range fn ?f" by (rule keeps_fold) (rule keeps_note)
  moreover have "vregs_only keeps_range ?f (note_block bb fn)" unfolding note_block_def by (rule keeps_fold) (rule keeps_note)
  ultimately show ?thesis using vregs_only_nth [of keeps_range ?f _ v] vregs_only_fields(2) [OF f] assms(1)
    by (auto simp: keeps_range_def)
qed


lemma fold_upd_other: "v \<notin> set vs \<Longrightarrow> vregs (fold (upd_vreg f) vs fn) ! v = vregs fn ! v"
  by (induction vs arbitrary: fn) (simp_all add: upd_vreg_def)

lemma compute_liveness_ranges:
  assumes v: "v < nvregs fn"
  shows "i < length (insns fn) \<Longrightarrow> v \<in> writes fn i \<Longrightarrow> v \<notin> set (valid_vregs (nvregs fn) (param_vregs fn)) \<Longrightarrow>
      def_pos (vregs (compute_liveness fn) ! v) \<ge> 0"
    and "bb \<in> set (blocks fn) \<Longrightarrow> vset_test (live_in bb) v \<Longrightarrow> last_use (vregs (compute_liveness fn) ! v) \<ge> 0"
proof -
  let ?n = "length (insns fn)" and ?nv = "nvregs fn"
  define f1 where "f1 = fold (upd_vreg clear_range) [0..<?nv] fn"
  define f2 where "f2 = fold note_defs [0..<?n] f1"
  define f3 where "f3 = fold (upd_vreg (\<lambda>vr. vr\<lparr>def_pos := -1\<rparr>)) (valid_vregs ?nv (param_vregs f2)) f2"
  define f4 where "f4 = fold note_block (blocks f3) f3"
  define f5 where "f5 = fold (upd_vreg dead_def) [0..<?nv] f4"
  define f6 where "f6 = fold count_insn [0..<?n] f5"
  have s1: "vregs_only same_but_range fn f1" unfolding f1_def
    by (rule range_fold, rule range_upd) (simp add: same_but_range_def clear_range_def)
  have s2: "vregs_only same_but_range f1 f2" unfolding f2_def by (rule range_fold) (rule note_steps)
  have s3: "vregs_only same_but_range f2 f3" unfolding f3_def
    by (rule range_fold, rule range_upd) (simp add: same_but_range_def)
  note F1 = vregs_only_fields [OF s1] and F2 = vregs_only_fields [OF range_trans [OF s1 s2]]
    and F3 = vregs_only_fields [OF range_trans [OF range_trans [OF s1 s2] s3]]
  have k4: "vregs_only keeps_range f3 f4" unfolding f4_def by (rule keeps_fold) (rule keeps_block)
  have "vregs_only keeps_range f4 f5" unfolding f5_def by (rule keeps_fold) (rule keeps_steps)
  moreover have "vregs_only keeps_range f5 f6" unfolding f6_def by (rule keeps_fold) (rule keeps_note)
  moreover have "vregs_only keeps_range f6 (compute_liveness fn)"
    unfolding compute_liveness_def Let_def f1_def [symmetric] f2_def [symmetric] f3_def [symmetric] f4_def [symmetric]
      f5_def [symmetric] f6_def [symmetric]
    by (rule keeps_fold) (rule keeps_note)
  ultimately have k7: "vregs_only keeps_range f4 (compute_liveness fn)" by (blast intro: keeps_trans)
  have v3: "v < nvregs f3" and v4: "v < nvregs f4" using v F3(2) vregs_only_fields(2) [OF k4] by simp_all
  show "def_pos (vregs (compute_liveness fn) ! v) \<ge> 0"
    if "i < ?n" "v \<in> writes fn i" "v \<notin> set (valid_vregs ?nv (param_vregs fn))"
  proof -
    have "def_pos (vregs f2 ! v) \<ge> 0"
      using note_defs_established [of i f1 v] that v F1 by (simp add: f2_def writes_def)
    moreover have "vregs f3 ! v = vregs f2 ! v" using that(3) F2(7) by (simp add: f3_def fold_upd_other)
    ultimately show ?thesis
      using vregs_only_nth [OF keeps_trans [OF k4 k7] v3] by (simp add: keeps_range_def)
  qed
  show "last_use (vregs (compute_liveness fn) ! v) \<ge> 0" if "bb \<in> set (blocks fn)" "vset_test (live_in bb) v"
  proof -
    have "last_use (vregs f4 ! v) \<ge> 0" unfolding f4_def
      by (rule fold_establishes [where x = bb and P = "\<lambda>vr. last_use vr \<ge> 0"])
        (use that v3 F3(6) keeps_block note_block_live_in in \<open>auto simp: keeps_range_def\<close>)
    then show ?thesis using vregs_only_nth [OF k7 v4] by (simp add: keeps_range_def)
  qed
qed

lemma read_reaches_block_start:
  assumes fn: "fn = build_cfg f" and b: "b < length (blocks fn)"
    and i: "bstart (blocks fn ! b) \<le> i" "i < bend (blocks fn ! b)"
    and live: "live_before fn i v" and nw: "\<forall>j < length (insns fn). v \<notin> writes fn j"
  shows "live_before fn (bstart (blocks fn ! b)) v"
  using i live
proof (induction i)
  case (Suc i)
  show ?case
  proof (cases "bstart (blocks fn ! b) = Suc i")
    case False
    then have ib: "bstart (blocks fn ! b) \<le> i" "i < bend (blocks fn ! b)" using Suc.prems by simp_all
    have is_f: "insns f = insns fn" using fn by (simp add: build_cfg_same)
    have "bend (blocks fn ! b) \<le> length (insns fn)" using build_cfg_ok [of f] b fn by (simp add: cfg_ok_def build_cfg_same)
    then have il: "i < length (insns fn)" using ib by simp
    have "Suc i \<in> set (next_pos (insns fn) i)"
      using cfg_step [OF refl, of b f i, folded fn, OF b ib] Suc.prems is_f by simp
    then have "live_before fn i v" using live_step [OF il _ Suc.prems(3)] nw il by blast
    with Suc.IH ib show ?thesis by blast
  qed (use Suc.prems in simp)
qed simp

text \<open>Every register that an instruction reads or writes has a definition or a use on record.\<close>

lemma occurring_needed:
  assumes fn: "fn = build_cfg f" and l: "l = compute_liveness (compute_cfg_liveness fn)"
    and i: "i < length (insns fn)" and v: "v \<in> reads fn i \<union> writes fn i"
  shows "def_pos (vregs l ! v) \<ge> 0 \<or> last_use (vregs l ! v) \<ge> 0"
proof -
  let ?c = "compute_cfg_liveness fn"
  have same: "insns ?c = insns fn" "nvregs ?c = nvregs fn" "param_vregs ?c = param_vregs fn" "vset_words ?c = vset_words fn"
    by (simp_all add: compute_cfg_liveness_def Let_def nvregs_def)
  have vn: "v < nvregs ?c" using v same read_write_less by auto
  note R = compute_liveness_ranges [OF vn, folded l]
  have live: "last_use (vregs l ! v) \<ge> 0" if "live_before fn (bstart (blocks fn ! b)) v" "b < length (blocks fn)" for b
  proof (rule R(2) [of "blocks ?c ! b"])
    show "blocks ?c ! b \<in> set (blocks ?c)" using that(2) cfg_live_blocks(1) [OF fn that(2)] by simp
    have "vset_fits (vset_words fn) (live_in (blocks ?c ! b))"
      using liveness_exact [of fn] build_cfg_words [of f] build_cfg_range [of f] fn that(2) by (auto simp: exact_def rounds_of_def)
    moreover have "v < 64 * vset_words fn" using vn same build_cfg_words [of f] fn by simp
    ultimately show "vset_test (live_in (blocks ?c ! b)) v"
      using vs.mem cfg_live_out(2) [OF fn that(2)] that(1) by blast
  qed
  have blk: "\<exists>b < length (blocks fn). bstart (blocks fn ! b) \<le> j \<and> j < bend (blocks fn ! b)" if "j < length (insns fn)" for j
    using pos_in_block [of "blocks fn" f j] that fn by (metis build_cfg_same(1))
  consider (param) "v \<in> set (valid_vregs (nvregs fn) (param_vregs fn))"
    | (wr) j where "j < length (insns fn)" "v \<in> writes fn j" "v \<notin> set (valid_vregs (nvregs fn) (param_vregs fn))"
    | (rd) "v \<in> reads fn i" "\<forall>j < length (insns fn). v \<notin> writes fn j"
    using v i by blast
  then show ?thesis
  proof cases
    case param
    have ne: "insns fn \<noteq> []" using i by auto
    then have lb: "live_before fn 0 v" using live_param param by blast
    obtain b where b: "b < length (blocks fn)" "bstart (blocks fn ! b) \<le> 0" using blk [of 0] ne by auto
    then show ?thesis using live [of b] lb by simp
  next
    case wr
    then show ?thesis using R(1) [of j] same by (simp add: writes_def)
  next
    case rd
    obtain b where b: "b < length (blocks fn)" "bstart (blocks fn ! b) \<le> i" "i < bend (blocks fn ! b)" using blk [OF i] by blast
    have "live_before fn i v" using live_read i rd(1) by blast
    from read_reaches_block_start [OF fn b this rd(2)] live b show ?thesis by blast
  qed
qed

end
