(* ===== verification/Bind_Constraints.thy ===== *)
theory Bind_Constraints
  imports Bind_Ranges
begin

text \<open>
  What the machine demands of the registers of an instruction, \<^verbatim>\<open>src/bind.c\<close>: the registers
  an instruction clobbers, the exact registers and the address registers it needs
  (\<^verbatim>\<open>collect_machine_constraints\<close>), and the passes that record these demands in the virtual
  registers (\<^verbatim>\<open>scan_addressing_constraints\<close>, \<^verbatim>\<open>scan_rematerialization_candidates\<close>,
  \<^verbatim>\<open>scan_sibling_byte_affinities\<close>).
\<close>

section \<open>Clobbered registers\<close>

type_synonym clobbers = "bool list"

definition no_clobbers :: clobbers where
  "no_clobbers = replicate NUM_PREGS False"

definition mark_preg_clobber :: "int \<Rightarrow> clobbers \<Rightarrow> clobbers" where
  "mark_preg_clobber preg cl =
     (if preg < 0 \<or> preg \<ge> int NUM_PREGS then cl
      else let cl = cl[nat preg := True]
           in if preg \<ge> PREG_AL \<and> preg \<le> PREG_BH then cl[nat (preg_alias_parent preg) := True] else cl)"

definition asm_model_preg :: "int \<Rightarrow> bool" where
  "asm_model_preg preg \<longleftrightarrow>
     (preg \<ge> PREG_AX \<and> preg \<le> PREG_BX) \<or> preg = PREG_BP \<or> preg = PREG_SI \<or> preg = PREG_DI \<or>
     preg = PREG_ES \<or> preg = PREG_DS \<or> preg = 20"

definition mark_all_asm_model_clobbers :: "clobbers \<Rightarrow> clobbers" where
  "mark_all_asm_model_clobbers cl = fold mark_preg_clobber (filter asm_model_preg (map int [0..<NUM_PREGS])) cl"

definition ir_skip_ws :: "string \<Rightarrow> string" where
  "ir_skip_ws p = dropWhile (\<lambda>c. c = CHR '' '' \<or> c = CHR 0x09) p"

text \<open>The word and the rest of the line; at most \<^verbatim>\<open>bufsz - 1\<close> characters are taken.\<close>

definition word_char :: "char \<Rightarrow> bool" where
  "word_char c \<longleftrightarrow> \<not> isspace c \<and> c \<noteq> CHR '','' \<and> c \<noteq> CHR '')'' \<and> c \<noteq> CHR '']''"

definition read_word :: "string \<Rightarrow> nat \<Rightarrow> string \<times> string" where
  "read_word p bufsz =
     (let p = ir_skip_ws p; w = take (bufsz - 1) (takeWhile word_char p) in (w, drop (length w) p))"

lemma ir_skip_ws_le: "length (ir_skip_ws p) \<le> length p"
  by (simp add: ir_skip_ws_def length_dropWhile_le)

text \<open>
  The list of registers of an annotation. An iteration that does not move on (a newline or a
  \<^verbatim>\<open>]\<close> in the list) repeats for ever: \<open>None\<close>.
\<close>

function asm_reg_list :: "string \<Rightarrow> string list option" where
  "asm_reg_list p =
     (if p = [] \<or> hd p = CHR '')'' then Some []
      else let p1 = ir_skip_ws p
           in if p1 = [] \<or> hd p1 = CHR '')'' then Some []
              else let (reg, p2) = read_word p1 16; p3 = ir_skip_ws p2;
                       p4 = (if p3 \<noteq> [] \<and> hd p3 = CHR '','' then tl p3 else p3)
                   in if length p4 < length p then map_option (Cons reg) (asm_reg_list p4) else None)"
  by pat_completeness auto
termination
  by (relation "measure length") auto

declare asm_reg_list.simps [simp del]

definition listed_pregs :: "string list \<Rightarrow> int list" where
  "listed_pregs regs = filter (\<lambda>r. list_ex (\<lambda>w. parse_preg w = r) regs) (map int [0..<NUM_PREGS])"

definition collect_asm_clobbers :: "ir_insn \<Rightarrow> clobbers \<Rightarrow> clobbers option" where
  "collect_asm_clobbers ins cl =
     (if op ins \<noteq> IR_ASM then Some cl
      else let p = ir_skip_ws (asm_ann ins)
           in if p = [] then Some (if asm_is_block ins then mark_all_asm_model_clobbers cl else cl)
              else let is_clobbers = strneq p ''clobbers'' 8; is_preserves = strneq p ''preserves'' 9
                   in if \<not> is_clobbers \<and> \<not> is_preserves then Some cl
                      else let p = ir_skip_ws (drop (if is_clobbers then 8 else 9) p);
                               p = (if p \<noteq> [] \<and> hd p = CHR ''('' then tl p else p)
                           in map_option (\<lambda>regs.
                                let listed = listed_pregs regs
                                in if is_clobbers then fold mark_preg_clobber listed cl
                                   else fold mark_preg_clobber
                                          (filter (\<lambda>r. asm_model_preg r \<and> r \<notin> set listed) (map int [0..<NUM_PREGS])) cl)
                                (asm_reg_list p))"

definition insn_clobbers_flags :: "ir_insn \<Rightarrow> bool" where
  "insn_clobbers_flags ins =
     (case op ins of
        IR_SETFLAG \<Rightarrow> True
      | IR_CMP \<Rightarrow> True
      | IR_ALU \<Rightarrow> iname ins \<notin> set [''out'', ''outb'', ''in'', ''inb'', ''lea'', ''far.off'', ''far.seg'']
      | IR_UNARY \<Rightarrow> iname ins \<in> set [''neg'', ''cbw'', ''zext'']
      | _ \<Rightarrow> False)"

definition mark_vreg_clobber :: "func \<Rightarrow> int \<Rightarrow> clobbers \<Rightarrow> clobbers" where
  "mark_vreg_clobber fn v cl =
     (if v < 0 \<or> v \<ge> int (nvregs fn) then cl else mark_preg_clobber (assigned (vregs fn ! nat v)) cl)"

section \<open>Machine constraints\<close>

record addr_constraint =
  addr_vreg :: int
  addr_prefer :: int
  addr_base :: bool
  addr_index :: bool
  addr_ds :: bool

record machine_constraint =
  mc_clobbers :: clobbers
  hard :: "(int \<times> int) list"
  addr :: "addr_constraint list"

definition mc_add_hard :: "int \<Rightarrow> int \<Rightarrow> machine_constraint \<Rightarrow> machine_constraint" where
  "mc_add_hard v preg mc = (if v < 0 \<or> preg = PREG_NONE then mc else mc\<lparr>hard := hard mc @ [(v, preg)]\<rparr>)"

definition mc_add_addr :: "int \<Rightarrow> bool \<Rightarrow> bool \<Rightarrow> bool \<Rightarrow> int \<Rightarrow> machine_constraint \<Rightarrow> machine_constraint" where
  "mc_add_addr v base index ds pref mc =
     (if v < 0 then mc
      else mc\<lparr>addr := addr mc @ [\<lparr>addr_vreg = v, addr_prefer = pref, addr_base = base, addr_index = index, addr_ds = ds\<rparr>]\<rparr>)"

definition mc_mark :: "int \<Rightarrow> machine_constraint \<Rightarrow> machine_constraint" where
  "mc_mark preg mc = mc\<lparr>mc_clobbers := mark_preg_clobber preg (mc_clobbers mc)\<rparr>"

definition vreg_preg :: "func \<Rightarrow> int \<Rightarrow> int" where
  "vreg_preg fn v = (if v < 0 \<or> v \<ge> int (nvregs fn) then PREG_NONE else assigned (vregs fn ! nat v))"

definition shift_names :: "string list" where
  "shift_names = [''shl'', ''shr'', ''sar'', ''rol'', ''ror'', ''rcl'', ''rcr'']"

definition mc_in :: "func \<Rightarrow> ir_insn \<Rightarrow> machine_constraint \<Rightarrow> machine_constraint" where
  "mc_in fn ins mc =
     (if op ins = IR_ALU \<and> (iname ins = ''in'' \<or> iname ins = ''inb'')
      then let mc = mc_mark (if iname ins = ''inb'' then PREG_AL else PREG_AX) mc
           in if \<not> has_imm ins
              then let mc = mc_add_hard (src1 ins) PREG_DX mc
                   in if vreg_preg fn (src1 ins) \<noteq> PREG_DX then mc_mark PREG_DX mc else mc
              else mc
      else mc)"

definition mc_out :: "func \<Rightarrow> ir_insn \<Rightarrow> machine_constraint \<Rightarrow> machine_constraint" where
  "mc_out fn ins mc =
     (if op ins = IR_ALU \<and> (iname ins = ''out'' \<or> iname ins = ''outb'')
      then let acc = (if iname ins = ''outb'' then PREG_AL else PREG_AX);
               mc = mc_add_hard (src1 ins) acc mc;
               mc = (if vreg_preg fn (src1 ins) \<noteq> acc then mc_mark acc mc else mc)
           in if \<not> has_imm ins
              then let mc = mc_add_hard (dst ins) PREG_DX mc
                   in if vreg_preg fn (dst ins) \<noteq> PREG_DX then mc_mark PREG_DX mc else mc
              else mc
      else mc)"

definition mc_alu :: "ir_insn \<Rightarrow> machine_constraint \<Rightarrow> machine_constraint" where
  "mc_alu ins mc =
     (if op ins = IR_ALU \<and> \<not> has_imm ins
      then if iname ins \<in> set shift_names then mc_add_hard (src2 ins) PREG_CL mc
           else if iname ins = ''bext''
           then mc_add_hard (ins_extra_arg ins 0) PREG_DL (mc_add_hard (src2 ins) PREG_CL
                  (mc_add_addr (src1 ins) False True False PREG_SI (mc_add_hard (dst ins) PREG_AX mc)))
           else if iname ins = ''bins''
           then mc_add_hard (ins_extra_arg ins 0) PREG_AX (mc_add_hard (src2 ins) PREG_DL
                  (mc_add_hard (src1 ins) PREG_CL (mc_add_addr (dst ins) False True False PREG_DI mc)))
           else mc
      else mc)"

definition mc_mem :: "ir_insn \<Rightarrow> machine_constraint \<Rightarrow> machine_constraint" where
  "mc_mem ins mc =
     (let mc = (if op ins = IR_LOAD \<or> op ins = IR_STORE
                then let mc = mc_add_addr (src1 ins) True False False PREG_NONE mc
                     in if src2 ins \<ge> 0 then mc_add_addr (src2 ins) False True False PREG_NONE mc else mc
                else mc)
      in if (op ins = IR_LOADMEM \<or> op ins = IR_STOREMEM) \<and> iname ins = []
         then mc_add_addr (if op ins = IR_LOADMEM then src1 ins else dst ins) False False
                (\<not> (src2 ins \<ge> 0 \<or> mem_seg ins \<noteq> PREG_NONE)) PREG_NONE mc
         else mc)"

definition collect_machine_constraints :: "func \<Rightarrow> ir_insn \<Rightarrow> machine_constraint option" where
  "collect_machine_constraints fn ins =
     (let cl = no_clobbers;
          cl = (if insn_defines_dst ins then mark_vreg_clobber fn (dst ins) cl else cl);
          cl = (if insn_clobbers_flags ins then mark_preg_clobber 20 cl else cl)
      in map_option (\<lambda>cl.
           let cl = (if op ins = IR_MCALL then fold (mark_vreg_clobber fn) (ret_vregs ins) cl else cl)
           in mc_mem ins (mc_alu ins (mc_out fn ins (mc_in fn ins \<lparr>mc_clobbers = cl, hard = [], addr = []\<rparr>))))
           (collect_asm_clobbers ins cl))"

definition collect_insn_clobbers :: "func \<Rightarrow> ir_insn \<Rightarrow> clobbers \<Rightarrow> clobbers option" where
  "collect_insn_clobbers fn ins cl =
     map_option (\<lambda>mc. map2 (\<lambda>a b. a \<or> b) cl (mc_clobbers mc)) (collect_machine_constraints fn ins)"

section \<open>Demands recorded in the registers\<close>

definition add_vreg_affinity :: "int \<Rightarrow> int \<Rightarrow> int \<Rightarrow> func \<Rightarrow> func" where
  "add_vreg_affinity v preg weight fn =
     (if v < 0 \<or> v \<ge> int (nvregs fn) \<or> preg < 0 \<or> preg \<ge> int NUM_PREGS \<or> weight \<le> 0 then fn
      else upd_vreg (\<lambda>vr. vr\<lparr>affinity := (affinity vr)[nat preg := affinity vr ! nat preg + weight]\<rparr>) (nat v) fn)"

definition demand_hard :: "ir_insn \<Rightarrow> int \<times> int \<Rightarrow> func \<Rightarrow> func" where
  "demand_hard ins = (\<lambda>(v, preg) fn.
     if v < 0 \<or> v \<ge> int (nvregs fn) then fn
     else let fn = add_vreg_affinity v preg 10 fn
          in if op ins = IR_ALU \<and> \<not> has_imm ins \<and> iname ins \<in> set shift_names \<and> v = src2 ins \<and> preg = PREG_CL
             then upd_vreg (\<lambda>vr. vr\<lparr>needs_cl := True, is_byte := True\<rparr>) (nat v) fn
             else if iname ins = ''bext'' \<or> iname ins = ''bins''
             then upd_vreg (\<lambda>vr. vr\<lparr>is_byte := is_byte vr \<or> (preg \<ge> PREG_AL \<and> preg \<le> PREG_BH), preferred := preg\<rparr>) (nat v) fn
             else fn)"

definition demand_addr :: "addr_constraint \<Rightarrow> func \<Rightarrow> func" where
  "demand_addr a fn =
     (let v = addr_vreg a
      in if v < 0 \<or> v \<ge> int (nvregs fn) then fn
         else let fn = upd_vreg (\<lambda>vr. vr\<lparr>needs_addressable := True,
                           needs_base := needs_base vr \<or> addr_base a, needs_index := needs_index vr \<or> addr_index a,
                           needs_ds_addr := needs_ds_addr vr \<or> addr_ds a,
                           preferred := (if addr_prefer a \<noteq> PREG_NONE then addr_prefer a else preferred vr)\<rparr>) (nat v) fn
              in if addr_prefer a \<noteq> PREG_NONE then add_vreg_affinity v (addr_prefer a) 10 fn else fn)"

definition demand_insn :: "ir_insn \<Rightarrow> func \<Rightarrow> func option" where
  "demand_insn ins fn =
     map_option (\<lambda>mc. fold demand_addr (addr mc) (fold (demand_hard ins) (hard mc) fn)) (collect_machine_constraints fn ins)"

definition pass_cs_ref :: "ir_insn \<Rightarrow> func \<Rightarrow> func" where
  "pass_cs_ref ins fn =
     (if op ins = IR_MOV \<and> \<not> has_imm ins \<and> 0 \<le> src1 ins \<and> src1 ins < int (nvregs fn) \<and>
         0 \<le> dst ins \<and> dst ins < int (nvregs fn) \<and> is_cs_ref (vregs fn ! nat (src1 ins))
      then upd_vreg (\<lambda>vr. vr\<lparr>is_cs_ref := True\<rparr>) (nat (dst ins)) fn else fn)"

fun fold_opt :: "('a \<Rightarrow> 's \<Rightarrow> 's option) \<Rightarrow> 'a list \<Rightarrow> 's \<Rightarrow> 's option" where
  "fold_opt f [] s = Some s"
| "fold_opt f (x # xs) s = (case f x s of None \<Rightarrow> None | Some s' \<Rightarrow> fold_opt f xs s')"

definition scan_addressing_constraints :: "func \<Rightarrow> func option" where
  "scan_addressing_constraints fn = map_option (fold pass_cs_ref (insns fn)) (fold_opt demand_insn (insns fn) fn)"


section \<open>Rematerialization\<close>

text \<open>The instructions that define the register as their \<^verbatim>\<open>dst\<close>; further results of a
  \<^verbatim>\<open>mcall\<close> are not counted.\<close>

definition dst_defs :: "func \<Rightarrow> nat \<Rightarrow> nat list" where
  "dst_defs fn v = filter (\<lambda>i. insn_defines_dst (insns fn ! i) \<and> dst (insns fn ! i) = int v) [0..<length (insns fn)]"

definition remat_recipe :: "ir_insn \<Rightarrow> vreg_info \<Rightarrow> vreg_info" where
  "remat_recipe d vr =
     (if op d \<noteq> IR_MOV then vr
      else if has_imm d then vr\<lparr>remat := REMAT_IMM, remat_imm := imm d\<rparr>
      else if iname d \<noteq> []
      then if strneq (iname d) ''SEG '' 4
           then vr\<lparr>remat := REMAT_SEG_LABEL, remat_label := take 63 (drop 4 (iname d))\<rparr>
           else vr\<lparr>remat := REMAT_LABEL, remat_label := take 63 (iname d)\<rparr>
      else vr)"

definition scan_remat_vreg :: "nat \<Rightarrow> func \<Rightarrow> func" where
  "scan_remat_vreg v fn =
     (let fn = upd_vreg (\<lambda>vr. vr\<lparr>remat := REMAT_NONE, remat_label := []\<rparr>) v fn
      in case dst_defs fn v of
           [i] \<Rightarrow> if op (insns fn ! i) \<noteq> IR_MOV then fn
                  else let fn = upd_vreg (remat_recipe (insns fn ! i)) v fn
                       in if vreg_can_rematerialize fn v then fn
                          else upd_vreg (\<lambda>vr. vr\<lparr>remat := REMAT_NONE, remat_label := []\<rparr>) v fn
         | _ \<Rightarrow> fn)"

definition scan_rematerialization_candidates :: "func \<Rightarrow> func" where
  "scan_rematerialization_candidates fn = fold scan_remat_vreg [0..<nvregs fn] fn"

section \<open>Sibling bytes\<close>

definition vreg_is_byte_alloc_value :: "func \<Rightarrow> int \<Rightarrow> bool" where
  "vreg_is_byte_alloc_value fn v \<longleftrightarrow>
     v \<ge> 0 \<and> v < int (nvregs fn) \<and> is_byte (vregs fn ! nat v) \<and> \<not> is_seg (vregs fn ! nat v) \<and> \<not> needs_cl (vregs fn ! nat v)"

definition block_of :: "func \<Rightarrow> nat \<Rightarrow> nat" where
  "block_of fn pos =
     (case filter (\<lambda>b. bstart (blocks fn ! b) \<le> pos \<and> pos < bend (blocks fn ! b)) [0..<length (blocks fn)] of
        [] \<Rightarrow> 0 | b # _ \<Rightarrow> b)"

definition family_step :: "func \<Rightarrow> nat \<Rightarrow> ir_insn \<Rightarrow> int list \<times> bool \<Rightarrow> int list \<times> bool" where
  "family_step fn cap ins = (\<lambda>(fam, changed).
     if length fam \<ge> cap \<or> op ins \<noteq> IR_MOV \<or> has_imm ins \<or> iname ins \<noteq> [] \<or> src1 ins \<notin> set fam \<or>
        \<not> vreg_is_byte_alloc_value fn (dst ins) \<or> dst ins \<in> set fam
     then (fam, changed) else (fam @ [dst ins], True))"

lemma family_step_grows:
  "fold (family_step fn cap) is (fam, ch) = (fam', ch') \<Longrightarrow>
   length fam \<le> length fam' \<and> (ch' \<and> \<not> ch \<longrightarrow> length fam < length fam' \<and> length fam < cap)"
proof (induction "is" arbitrary: fam ch)
  case (Cons i "is")
  obtain o1 c1 where s: "family_step fn cap i (fam, ch) = (o1, c1)" by force
  then have st: "o1 = fam \<and> c1 = ch \<or> length fam < cap \<and> length o1 = length fam + 1"
    by (auto simp: family_step_def split: if_splits)
  from Cons.IH [of o1 c1] Cons.prems s have "length o1 \<le> length fam' \<and> (ch' \<and> \<not> c1 \<longrightarrow> length o1 < length fam' \<and> length o1 < cap)" by simp
  with st show ?case by auto
qed simp

function family_loop :: "func \<Rightarrow> nat \<Rightarrow> int list \<Rightarrow> int list" where
  "family_loop fn cap fam =
     (let (fam', changed) = fold (family_step fn cap) (insns fn) (fam, False)
      in if changed then family_loop fn cap fam' else fam')"
  by pat_completeness auto
termination
proof (relation "measure (\<lambda>(fn, cap, fam). cap - length fam)")
  fix fn cap fam x fam' changed
  assume "x = fold (family_step fn cap) (insns fn) (fam, False)" "(fam', changed) = x" "changed"
  then have "length fam < length fam' \<and> length fam < cap"
    using family_step_grows [of fn cap "insns fn" fam False fam' changed] by simp
  then show "((fn, cap, fam'), (fn, cap, fam)) \<in> measure (\<lambda>(fn, cap, fam). cap - length fam)" by (simp add: diff_less_mono2)
qed simp

declare family_loop.simps [simp del]

definition collect_byte_copy_family :: "func \<Rightarrow> int \<Rightarrow> nat \<Rightarrow> int list" where
  "collect_byte_copy_family fn root cap =
     (if \<not> vreg_is_byte_alloc_value fn root \<or> cap = 0 then [] else family_loop fn cap [root])"

definition byte_families_interfere :: "func \<Rightarrow> int list \<Rightarrow> int list \<Rightarrow> bool" where
  "byte_families_interfere fn a b \<longleftrightarrow> list_ex (\<lambda>x. list_ex (\<lambda>y. vregs_interfere fn x y) b) a"

definition join_group :: "int \<Rightarrow> bool \<Rightarrow> int \<Rightarrow> func \<Rightarrow> func" where
  "join_group g high v fn =
     (if sibling_byte_group (vregs fn ! nat v) < 0
      then upd_vreg (\<lambda>vr. vr\<lparr>sibling_byte_group := g, sibling_byte_high := high\<rparr>) (nat v) fn else fn)"

definition add_sibling_byte_affinity :: "int \<Rightarrow> int \<Rightarrow> func \<Rightarrow> func" where
  "add_sibling_byte_affinity low_root high_root fn =
     (let lows = collect_byte_copy_family fn low_root 16; highs = collect_byte_copy_family fn high_root 16
      in if lows = [] \<or> highs = [] then fn
         else if \<not> byte_families_interfere fn lows highs then fn
         else let fn = fold (\<lambda>(lo, hi, w) fn.
                         fold (\<lambda>v. add_vreg_affinity v hi w) highs (fold (\<lambda>v. add_vreg_affinity v lo w) lows fn))
                       [(PREG_DL, PREG_DH, 80), (PREG_BL, PREG_BH, 50), (PREG_CL, PREG_CH, 30), (PREG_AL, PREG_AH, 10)] fn;
                  g = nsibling_byte_groups fn;
                  fn = fn\<lparr>nsibling_byte_groups := g + 1\<rparr>
              in fold (join_group g True) highs (fold (join_group g False) lows fn))"

definition is_byte_shift_imm :: "func \<Rightarrow> ir_insn \<Rightarrow> string \<Rightarrow> bool" where
  "is_byte_shift_imm fn ins opn \<longleftrightarrow>
     op ins = IR_ALU \<and> iname ins = opn \<and> has_imm ins \<and> imm ins > 0 \<and> imm ins < 8 \<and>
     vreg_is_byte_alloc_value fn (dst ins) \<and> vreg_is_byte_alloc_value fn (src1 ins)"

definition sibling_pair :: "nat \<Rightarrow> nat \<Rightarrow> func \<Rightarrow> func" where
  "sibling_pair i j fn =
     (let a = insns fn ! i; b = insns fn ! j;
          a_shr = is_byte_shift_imm fn a ''shr''; a_shl = is_byte_shift_imm fn a ''shl'';
          b_shr = is_byte_shift_imm fn b ''shr''; b_shl = is_byte_shift_imm fn b ''shl''
      in if \<not> b_shr \<and> \<not> b_shl then fn
         else if src1 a \<noteq> src1 b \<or> imm a + imm b \<noteq> 8 then fn
         else if a_shr \<and> b_shl then add_sibling_byte_affinity (dst a) (dst b) fn
         else if a_shl \<and> b_shr then add_sibling_byte_affinity (dst b) (dst a) fn
         else fn)"

definition sibling_scan :: "nat \<Rightarrow> func \<Rightarrow> func" where
  "sibling_scan i fn =
     (let a = insns fn ! i
      in if \<not> is_byte_shift_imm fn a ''shr'' \<and> \<not> is_byte_shift_imm fn a ''shl'' then fn
         else fold (sibling_pair i) (takeWhile (\<lambda>j. block_of fn j = block_of fn i) [i + 1..<length (insns fn)]) fn)"

definition scan_sibling_byte_affinities :: "func \<Rightarrow> func" where
  "scan_sibling_byte_affinities fn = fold sibling_scan [0..<length (insns fn)] fn"


section \<open>What the scans leave alone\<close>

definition same_but_hints :: "vreg_info \<Rightarrow> vreg_info \<Rightarrow> bool" where
  "same_but_hints a b \<longleftrightarrow>
     assigned b = assigned a \<and> spill_slot b = spill_slot a \<and> fixed b = fixed a \<and> is_seg b = is_seg a \<and>
     is_stack_home b = is_stack_home a \<and> is_local_slot b = is_local_slot a \<and> def_pos b = def_pos a \<and> last_use b = last_use a"

lemma same_but_hints_rel: "reflp same_but_hints" "transp same_but_hints"
  by (auto simp: same_but_hints_def intro: reflpI transpI)

lemmas hint_fold = vregs_only_fold [OF same_but_hints_rel]
lemmas hint_upd = vregs_only_upd [OF same_but_hints_rel(1)]
lemmas hint_trans = vregs_only_trans [OF same_but_hints_rel(2)]
lemmas hint_refl = vregs_only_refl [OF same_but_hints_rel(1)]

lemma frame_if: "vregs_only R fn a \<Longrightarrow> vregs_only R fn b \<Longrightarrow> vregs_only R fn (if c then a else b)"
  by simp

lemma affinity_frame: "vregs_only same_but_hints fn (add_vreg_affinity v p w fn)"
  by (auto simp: add_vreg_affinity_def same_but_hints_def intro!: hint_refl hint_upd)

lemma demand_frame:
  "vregs_only same_but_hints fn (demand_hard ins vp fn)" "vregs_only same_but_hints fn (demand_addr a fn)"
  "vregs_only same_but_hints fn (pass_cs_ref ins fn)"
proof -
  have u: "vregs_only same_but_hints fn (upd_vreg (\<lambda>vr. vr\<lparr>needs_cl := True, is_byte := True\<rparr>) v fn)"
    "vregs_only same_but_hints fn (upd_vreg (\<lambda>vr. vr\<lparr>is_byte := is_byte vr \<or> c, preferred := p\<rparr>) v fn)"
    "vregs_only same_but_hints fn (upd_vreg (\<lambda>vr. vr\<lparr>is_cs_ref := True\<rparr>) v fn)" for v c p fn
    by (rule hint_upd; simp add: same_but_hints_def)+
  show "vregs_only same_but_hints fn (demand_hard ins vp fn)"
    unfolding demand_hard_def Let_def
    by (cases vp; simp only: split)
      (intro frame_if hint_refl affinity_frame hint_trans [OF affinity_frame u(1)] hint_trans [OF affinity_frame u(2)])
  have d: "vregs_only same_but_hints fn (upd_vreg (\<lambda>vr. vr\<lparr>needs_addressable := True,
                           needs_base := needs_base vr \<or> addr_base a, needs_index := needs_index vr \<or> addr_index a,
                           needs_ds_addr := needs_ds_addr vr \<or> addr_ds a,
                           preferred := (if addr_prefer a \<noteq> PREG_NONE then addr_prefer a else preferred vr)\<rparr>) v fn)" for v fn
    by (rule hint_upd) (simp add: same_but_hints_def)
  show "vregs_only same_but_hints fn (demand_addr a fn)"
    unfolding demand_addr_def Let_def using d hint_refl hint_trans [OF d affinity_frame] by (auto split: if_splits)
  show "vregs_only same_but_hints fn (pass_cs_ref ins fn)"
    by (auto simp: pass_cs_ref_def intro!: hint_refl u)
qed

lemma demand_insn_frame: "demand_insn ins fn = Some fn' \<Longrightarrow> vregs_only same_but_hints fn fn'"
proof -
  have "vregs_only same_but_hints fn (fold demand_addr as (fold (demand_hard ins) hs fn))" for as hs
    by (rule hint_trans; rule hint_fold; rule demand_frame)
  then show "demand_insn ins fn = Some fn' \<Longrightarrow> vregs_only same_but_hints fn fn'" by (auto simp: demand_insn_def)
qed

lemma fold_opt_frame: "fold_opt demand_insn is fn = Some fn' \<Longrightarrow> vregs_only same_but_hints fn fn'"
proof (induction "is" arbitrary: fn)
  case (Cons i "is")
  then obtain fn1 where "demand_insn i fn = Some fn1" "fold_opt demand_insn is fn1 = Some fn'" by (auto split: option.splits)
  with Cons.IH demand_insn_frame hint_trans show ?case by blast
qed (simp add: hint_refl)

lemma scan_addressing_frame:
  assumes "scan_addressing_constraints fn = Some fn'"
  shows "vregs_only same_but_hints fn fn'"
proof -
  obtain f1 where f1: "fold_opt demand_insn (insns fn) fn = Some f1" "fn' = fold pass_cs_ref (insns fn) f1"
    using assms by (auto simp: scan_addressing_constraints_def)
  have "vregs_only same_but_hints f1 fn'" unfolding f1(2) by (rule hint_fold) (rule demand_frame)
  with fold_opt_frame [OF f1(1)] show ?thesis by (rule hint_trans)
qed

lemma scan_remat_frame: "vregs_only same_but_hints fn (scan_rematerialization_candidates fn)"
proof -
  have c: "vregs_only same_but_hints fn (upd_vreg (\<lambda>vr. vr\<lparr>remat := REMAT_NONE, remat_label := []\<rparr>) v fn)"
    "vregs_only same_but_hints fn (upd_vreg (remat_recipe d) v fn)" for v d fn
    by (rule hint_upd; simp add: same_but_hints_def remat_recipe_def)+
  have "vregs_only same_but_hints fn (scan_remat_vreg v fn)" for v fn
    unfolding scan_remat_vreg_def Let_def
    by (auto split: list.split intro!: c hint_trans [OF c(1) c(2)] hint_trans [OF c(1) hint_trans [OF c(2) c(1)]])
  then show ?thesis unfolding scan_rematerialization_candidates_def by (rule hint_fold)
qed

lemma join_group_frame: "vregs_only same_but_hints fn (join_group g h v fn)"
  by (auto simp: join_group_def same_but_hints_def intro!: hint_refl hint_upd)

lemma sibling_affinity_frame: "vregs_only same_but_hints fn (add_sibling_byte_affinity l h fn)"
proof -
  have g: "vregs_only same_but_hints fn (fn\<lparr>nsibling_byte_groups := n\<rparr>)" for fn n
    by (simp add: vregs_only_def list_all2_conv_all_nth same_but_hints_def)
  have a: "vregs_only same_but_hints fn (fold (\<lambda>v. add_vreg_affinity v p w) vs fn)" for vs p w fn
    by (rule hint_fold) (rule affinity_frame)
  have w: "vregs_only same_but_hints fn (fold (\<lambda>(lo, hi, w) fn.
      fold (\<lambda>v. add_vreg_affinity v hi w) hs (fold (\<lambda>v. add_vreg_affinity v lo w) ls fn)) ts fn)" for ts hs ls fn
    by (rule hint_fold) (auto split: prod.split intro: hint_trans [OF a a])
  have j: "vregs_only same_but_hints fn (fold (join_group k True) hs (fold (join_group k False) ls fn))" for k hs ls fn
    by (rule hint_trans; rule hint_fold; rule join_group_frame)
  show ?thesis unfolding add_sibling_byte_affinity_def Let_def
    by (rule frame_if, rule hint_refl, rule frame_if, rule hint_refl, rule hint_trans [OF w hint_trans [OF g j]])
qed

lemma scan_sibling_frame: "vregs_only same_but_hints fn (scan_sibling_byte_affinities fn)"
proof -
  have "vregs_only same_but_hints fn (sibling_pair i j fn)" for i j fn
    by (auto simp: sibling_pair_def Let_def intro: hint_refl sibling_affinity_frame)
  then have "vregs_only same_but_hints fn (sibling_scan i fn)" for i fn
    by (auto simp: sibling_scan_def Let_def intro: hint_refl hint_fold)
  then show ?thesis unfolding scan_sibling_byte_affinities_def by (rule hint_fold)
qed

end
