(* ===== verification/Bind_Point.thy ===== *)
theory Bind_Point
  imports Bind_Constraints
begin

text \<open>
  Liveness at a single instruction, as \<^verbatim>\<open>src/bind.c\<close> asks for it after allocation: walks from
  the end of a block back to the instruction (\<^verbatim>\<open>vreg_live_after_insn\<close>,
  \<^verbatim>\<open>preg_live_after_insn\<close>, \<^verbatim>\<open>free_regs_at\<close>, \<^verbatim>\<open>compute_live_before_sets\<close>). All of
  them agree with liveness on the paths of the function.
\<close>

section \<open>The operations\<close>

definition add_insn_uses_to_live :: "nat \<Rightarrow> ir_insn \<Rightarrow> vset \<Rightarrow> vset" where
  "add_insn_uses_to_live nv ins live = fold (\<lambda>v s. vset_set s v) (valid_vregs nv (insn_reads ins)) live"

definition remove_insn_defs_from_live :: "nat \<Rightarrow> ir_insn \<Rightarrow> vset \<Rightarrow> vset" where
  "remove_insn_defs_from_live nv ins live = fold (\<lambda>v s. vset_clear s v) (valid_vregs nv (insn_writes ins)) live"

definition step_up :: "func \<Rightarrow> nat \<Rightarrow> vset \<Rightarrow> vset" where
  "step_up fn i live =
     add_insn_uses_to_live (nvregs fn) (insns fn ! i) (remove_insn_defs_from_live (nvregs fn) (insns fn ! i) live)"

definition live_down_to :: "func \<Rightarrow> bblock \<Rightarrow> nat \<Rightarrow> vset" where
  "live_down_to fn bb pos = fold (step_up fn) (rev [pos..<bend bb]) (live_out bb)"

definition find_block :: "func \<Rightarrow> nat \<Rightarrow> bblock option" where
  "find_block fn idx = find (\<lambda>bb. bstart bb \<le> idx \<and> idx < bend bb) (blocks fn)"

definition vreg_live_after_insn :: "func \<Rightarrow> nat \<Rightarrow> int \<Rightarrow> bool" where
  "vreg_live_after_insn fn insn_idx v =
     (if v < 0 \<or> v \<ge> int (nvregs fn) then False
      else case find_block fn insn_idx of
             None \<Rightarrow> False
           | Some bb \<Rightarrow> vset_test (live_down_to fn bb (insn_idx + 1)) (nat v))"

definition preg_live_after_insn :: "func \<Rightarrow> nat \<Rightarrow> int \<Rightarrow> bool" where
  "preg_live_after_insn fn insn_idx written =
     (case find_block fn insn_idx of
        None \<Rightarrow> False
      | Some bb \<Rightarrow>
          (let live = live_down_to fn bb (insn_idx + 1)
           in list_ex (\<lambda>v. vset_test live v \<and> preg_write_clobbers written (assigned (vregs fn ! v))) [0..<nvregs fn]))"

text \<open>\<^verbatim>\<open>free_regs_at\<close> counts the first operand of every instruction, also of \<^verbatim>\<open>lea\<close>.\<close>

definition free_reads :: "ir_insn \<Rightarrow> int list" where
  "free_reads ins =
     [src1 ins] @ [src2 ins] @ extra_args ins @ (if op ins = IR_RETVAL then ret_vregs ins else []) @
     (if insn_reads_dst ins then [dst ins] else [])"

definition free_step :: "func \<Rightarrow> nat \<Rightarrow> vset \<Rightarrow> vset" where
  "free_step fn i live =
     fold (\<lambda>v s. vset_set s v) (valid_vregs (nvregs fn) (free_reads (insns fn ! i)))
       (remove_insn_defs_from_live (nvregs fn) (insns fn ! i) live)"

definition occupied_by :: "int \<Rightarrow> int list" where
  "occupied_by preg =
     preg # (if preg < 4 then [preg_alias_lo preg, preg_alias_hi preg]
             else if preg \<ge> PREG_AL \<and> preg \<le> PREG_BH
             then let parent = preg_alias_parent preg in [parent, preg_alias_lo parent, preg_alias_hi parent]
             else [])"

definition set_reg_bit :: "int \<Rightarrow> 32 word \<Rightarrow> 32 word" where
  "set_reg_bit r w = w OR push_bit (nat r) 1"

definition free_regs_at :: "func \<Rightarrow> nat \<Rightarrow> nat \<Rightarrow> 32 word" where
  "free_regs_at fn b_idx pos =
     (let bb = blocks fn ! b_idx;
          live = fold (free_step fn) (rev [pos..<bend bb]) (live_out bb);
          occupied = fold (\<lambda>v w.
            if \<not> vset_test live v then w
            else if assigned (vregs fn ! v) = PREG_NONE then w
            else fold set_reg_bit (occupied_by (assigned (vregs fn ! v))) w) [0..<nvregs fn] 0;
          occupied = set_reg_bit PREG_SP occupied;
          occupied = (if needs_frame fn then set_reg_bit PREG_BP occupied else occupied)
      in NOT occupied)"

text \<open>One row per instruction.\<close>

definition live_before_block :: "func \<Rightarrow> bblock \<Rightarrow> vset list \<Rightarrow> vset list" where
  "live_before_block fn bb before =
     fst (fold (\<lambda>i (before, live). let live = step_up fn i live in (before[i := live], live))
            (rev [bstart bb..<bend bb]) (before, live_out bb))"

definition compute_live_before_sets :: "func \<Rightarrow> vset list" where
  "compute_live_before_sets fn =
     fold (live_before_block fn) (blocks fn) (replicate (length (insns fn)) (vset_zero (vset_words fn)))"

section \<open>The walk is exact\<close>

lemma live_before_unfold:
  assumes "i < length (insns fn)" "i \<noteq> 0"
  shows "live_before fn i v \<longleftrightarrow> v \<in> reads fn i \<or> (v \<notin> writes fn i \<and> live_after fn i v)"
proof
  show "live_before fn i v \<Longrightarrow> v \<in> reads fn i \<or> (v \<notin> writes fn i \<and> live_after fn i v)"
    by (cases rule: live_before.cases) (use assms in \<open>auto simp: live_after_def\<close>)
  show "v \<in> reads fn i \<or> (v \<notin> writes fn i \<and> live_after fn i v) \<Longrightarrow> live_before fn i v"
    using assms(1) by (auto simp: live_after_def intro: live_read live_step)
qed

lemma step_up_elems:
  assumes "nvregs fn \<le> 64 * k" "vset_fits k live"
  shows "vset_fits k (step_up fn i live) \<and> vset_elems (step_up fn i live) = reads fn i \<union> (vset_elems live - writes fn i)"
proof -
  have small: "\<forall>v \<in> set (valid_vregs (nvregs fn) xs). v < 64 * k" for xs
    using assms(1) valid_vregs_less order_less_le_trans by blast
  note d = vs.del_all [OF assms(2) small]
  show ?thesis unfolding step_up_def add_insn_uses_to_live_def remove_insn_defs_from_live_def
    using vs.ins_all [OF conjunct1 [OF d] small] d by (auto simp: reads_def writes_def)
qed

text \<open>A function with its graph and live sets, whatever was done to its registers since.\<close>

definition analysed :: "func \<Rightarrow> func \<Rightarrow> bool" where
  "analysed f g \<longleftrightarrow>
     insns g = insns f \<and> nvregs g = nvregs f \<and> vset_words g = vset_words (build_cfg f) \<and>
     blocks g = blocks (compute_cfg_liveness (build_cfg f))"

lemma analysed_rw: "analysed f g \<Longrightarrow> reads g = reads (build_cfg f) \<and> writes g = writes (build_cfg f)"
  by (intro conjI ext) (simp_all add: analysed_def reads_def writes_def build_cfg_same)

lemma step_up_cong: "insns g = insns f \<Longrightarrow> nvregs g = nvregs f \<Longrightarrow> step_up g = step_up f"
  by (intro ext) (simp add: step_up_def)

lemma live_down_to_step:
  "i + 1 < bend bb \<Longrightarrow> live_down_to fn bb (i + 1) = step_up fn (i + 1) (live_down_to fn bb (i + 1 + 1))"
  by (simp add: live_down_to_def upt_conv_Cons)

lemma live_down_to_exact:
  assumes an: "analysed f g" and fn: "fn = build_cfg f" and b: "b < length (blocks fn)" and bb: "bb = blocks g ! b"
    and i: "bstart bb \<le> i" "i < bend bb"
  shows "vset_fits (vset_words fn) (live_down_to g bb (i + 1)) \<and>
    vset_elems (live_down_to g bb (i + 1)) = {v. live_after fn i v}"
  using i
proof (induction "bend bb - i" arbitrary: i)
  case (Suc k)
  have bg: "bb = blocks (compute_cfg_liveness fn) ! b" using an fn bb by (simp add: analysed_def)
  note bf = cfg_live_blocks [OF fn b, folded bg]
  have nv: "nvregs g \<le> 64 * vset_words fn" using build_cfg_words [of f] an fn by (simp add: analysed_def build_cfg_same)
  have is_f: "insns f = insns fn" using fn by (simp add: build_cfg_same)
  show ?case
  proof (cases "i + 1 < bend bb")
    case False
    then have "bend (blocks fn ! b) - 1 = i" "live_down_to g bb (i + 1) = live_out bb"
      using Suc.prems bf(3) by (simp_all add: live_down_to_def)
    then show ?thesis using cfg_live_out(1) [OF fn b, folded bg] bf(4) by simp
  next
    case True
    have nx: "set (next_pos (insns fn) i) = {i + 1}"
      using cfg_step [OF refl, of b f i, folded fn, OF b] Suc.prems True bf is_f by simp
    have "bend bb \<le> length (insns fn)" using build_cfg_ok [of f] b fn bf(3) by (simp add: cfg_ok_def build_cfg_same)
    then have il: "i + 1 < length (insns fn)" using True by simp
    have IH: "vset_fits (vset_words fn) (live_down_to g bb (i + 1 + 1)) \<and>
        vset_elems (live_down_to g bb (i + 1 + 1)) = {v. live_after fn (i + 1) v}"
      using Suc.hyps(1) [of "i + 1"] Suc.hyps(2) Suc.prems True by simp
    have "{v. live_after fn i v} = {v. live_before fn (i + 1) v}" using nx by (simp add: live_after_def)
    also have "\<dots> = reads fn (i + 1) \<union> ({v. live_after fn (i + 1) v} - writes fn (i + 1))"
      using live_before_unfold [OF il] by auto
    finally show ?thesis
      using step_up_elems [OF nv conjunct1 [OF IH], of "i + 1"] IH analysed_rw [OF an] fn
      unfolding live_down_to_step [OF True] by simp
  qed
qed simp

lemma analysed_block:
  assumes an: "analysed f g" and fn: "fn = build_cfg f" and i: "i < length (insns fn)"
  obtains b bb where "b < length (blocks fn)" "bb = blocks g ! b" "bstart bb \<le> i" "i < bend bb"
proof -
  obtain b bb where "b < length (blocks fn)" "bb = blocks (compute_cfg_liveness fn) ! b" "bstart bb \<le> i" "i < bend bb"
    by (rule insn_block [OF fn i])
  with that an fn show thesis by (simp add: analysed_def)
qed

text \<open>The blocks do not overlap, so the first that contains an instruction is the one.\<close>

lemma find_block_at:
  assumes an: "analysed f g" and fn: "fn = build_cfg f" and i: "i < length (insns fn)"
  obtains b bb where "find_block g i = Some bb" "b < length (blocks fn)" "bb = blocks g ! b" "bstart bb \<le> i" "i < bend bb"
proof -
  obtain b0 where "b0 < length (blocks fn)" "bstart (blocks g ! b0) \<le> i" "i < bend (blocks g ! b0)"
    using analysed_block [OF an fn i] by metis
  moreover have len: "length (blocks g) = length (blocks fn)"
    using cfg_live_blocks(1) [OF fn] an fn calculation(1) by (simp add: analysed_def)
  ultimately obtain bb where bb: "find_block g i = Some bb"
    unfolding find_block_def by (metis (mono_tags, lifting) find_None_iff not_None_eq nth_mem)
  then obtain b where "b < length (blocks g)" "bb = blocks g ! b" "bstart bb \<le> i" "i < bend bb"
    unfolding find_block_def by (auto simp: find_Some_iff)
  with that bb len show thesis by simp
qed

text \<open>
  (C24) After allocation the binder asks again, instruction by instruction, which registers are
  still needed. Its walk from the end of the block gives exactly the registers that some path
  from the instruction reads before writing.
\<close>

theorem live_after_query_exact:
  assumes "analysed f g" and "fn = build_cfg f" and "i < length (insns fn)"
  shows "vreg_live_after_insn g i (int v) \<longleftrightarrow> live_after fn i v"
proof -
  obtain b bb where bb: "find_block g i = Some bb" "b < length (blocks fn)" "bb = blocks g ! b" "bstart bb \<le> i" "i < bend bb"
    by (rule find_block_at [OF assms])
  note ex = live_down_to_exact [OF assms(1,2) bb(2-5)]
  have nv: "nvregs g = nvregs fn" "nvregs fn \<le> 64 * vset_words fn"
    using assms build_cfg_words [of f] by (simp_all add: analysed_def build_cfg_same)
  show ?thesis
  proof (cases "v < nvregs fn")
    case True
    then have "vset_test (live_down_to g bb (i + 1)) v \<longleftrightarrow> v \<in> vset_elems (live_down_to g bb (i + 1))"
      using nv by (intro vs.mem [OF conjunct1 [OF ex]]) simp
    then show ?thesis using True ex nv bb(1) by (simp add: vreg_live_after_insn_def)
  next
    case False
    then show ?thesis using live_after_less nv by (auto simp: vreg_live_after_insn_def)
  qed
qed


definition analyse :: "func \<Rightarrow> func" where
  "analyse f = build_igraph (compute_cfg_liveness (build_cfg f))"

lemma analysed_analyse: "analysed f (analyse f)"
proof -
  let ?c = "compute_cfg_liveness (build_cfg f)"
  have c: "insns ?c = insns (build_cfg f)" "nvregs ?c = nvregs (build_cfg f)" "vset_words ?c = vset_words (build_cfg f)"
    by (simp_all add: compute_cfg_liveness_def Let_def nvregs_def)
  have fit: "\<forall>bb \<in> set (blocks ?c). vset_fits (vset_words ?c) (live_out bb)"
    using liveness_exact [of "build_cfg f"] build_cfg_words [of f] build_cfg_range [of f] c
    by (auto simp: exact_def rounds_of_def in_set_conv_nth)
  have "same_code ?c (analyse f)" unfolding analyse_def
    by (rule build_igraph_edges(2) [OF _ fit]) (use c build_cfg_words [of f] in simp)
  from same_code_fields [OF this] c show ?thesis by (simp add: analysed_def build_cfg_same)
qed

theorem live_after_query_exact_witness:
  "vreg_live_after_insn (analyse loop_fn) 2 0 \<and> live_after (build_cfg loop_fn) 2 0"
proof -
  have "2 < length (insns (build_cfg loop_fn))" "vreg_live_after_insn (analyse loop_fn) 2 0" by code_simp+
  with live_after_query_exact [OF analysed_analyse refl, of 2 loop_fn 0] show ?thesis by simp
qed

section \<open>Free registers\<close>

lemma free_step_elems:
  assumes "nvregs fn \<le> 64 * k" "vset_fits k live"
  shows "vset_fits k (free_step fn i live) \<and> reads fn i \<union> (vset_elems live - writes fn i) \<subseteq> vset_elems (free_step fn i live)"
proof -
  have small: "\<forall>v \<in> set (valid_vregs (nvregs fn) xs). v < 64 * k" for xs
    using assms(1) valid_vregs_less order_less_le_trans by blast
  note d = vs.del_all [OF assms(2) small]
  have sub: "set (valid_vregs (nvregs fn) (insn_reads ins)) \<subseteq> set (valid_vregs (nvregs fn) (free_reads ins))" for ins
    by (auto simp: valid_vregs_def insn_reads_def free_reads_def)
  show ?thesis unfolding free_step_def remove_insn_defs_from_live_def
    using vs.ins_all [OF conjunct1 [OF d] small] d sub [of "insns fn ! i"] by (auto simp: reads_def writes_def)
qed

lemma free_walk_over:
  assumes "nvregs fn \<le> 64 * k" "vset_fits k live" "vset_fits k live'" "vset_elems live \<subseteq> vset_elems live'"
  shows "vset_fits k (fold (free_step fn) is live') \<and> vset_elems (fold (step_up fn) is live) \<subseteq> vset_elems (fold (free_step fn) is live')"
  using assms(2-)
proof (induction "is" arbitrary: live live')
  case (Cons i "is")
  have "vset_elems (step_up fn i live) \<subseteq> vset_elems (free_step fn i live')"
    using step_up_elems [OF assms(1) Cons.prems(1), of i] free_step_elems [OF assms(1) Cons.prems(2), of i] Cons.prems(3) by auto
  with Cons.IH [of "step_up fn i live" "free_step fn i live'"] step_up_elems [OF assms(1) Cons.prems(1)]
    free_step_elems [OF assms(1) Cons.prems(2)] show ?case by simp
qed simp

lemma bit_set_reg: "0 \<le> r \<Longrightarrow> r < 32 \<Longrightarrow> bit (set_reg_bit q w) (nat r) \<longleftrightarrow> bit w (nat r) \<or> nat q = nat r"
  by (auto simp: set_reg_bit_def bit_simps)

lemma bit_set_regs:
  "0 \<le> r \<Longrightarrow> r < 32 \<Longrightarrow> bit (fold set_reg_bit qs w) (nat r) \<longleftrightarrow> bit w (nat r) \<or> (\<exists>q \<in> set qs. nat q = nat r)"
  by (induction qs arbitrary: w) (auto simp: bit_set_reg)

lemma alias_occupied:
  assumes "pregs_alias p r" "p < int NUM_PREGS" "r < int NUM_PREGS"
  shows "r \<in> set (occupied_by p)"
proof -
  have "\<forall>p \<in> set [0..20]. \<forall>r \<in> set [0..20]. pregs_alias p r \<longrightarrow> r \<in> set (occupied_by p)" by code_simp
  moreover have "0 \<le> p" "0 \<le> r" using assms(1) by (auto simp: pregs_alias_def split: if_splits)
  ultimately show ?thesis using assms by fastforce
qed

lemma occupied_fold:
  assumes r: "0 \<le> r" "r < 32" and v: "v \<in> set vs" "vset_test live v" "assigned (vregs fn ! v) \<noteq> PREG_NONE"
    "r \<in> set (occupied_by (assigned (vregs fn ! v)))"
  shows "bit (fold (\<lambda>v w. if \<not> vset_test live v then w else if assigned (vregs fn ! v) = PREG_NONE then w
            else fold set_reg_bit (occupied_by (assigned (vregs fn ! v))) w) vs w) (nat r)"
proof -
  let ?g = "\<lambda>v w. if \<not> vset_test live v then w else if assigned (vregs fn ! v) = PREG_NONE then w
            else fold set_reg_bit (occupied_by (assigned (vregs fn ! v))) w"
  have mono: "bit w (nat r) \<Longrightarrow> bit (fold ?g xs w) (nat r)" for xs and w :: "32 word"
    by (induction xs arbitrary: w) (auto simp: bit_set_regs [OF r])
  show ?thesis using v(1)
  proof (induction vs arbitrary: w)
    case (Cons x xs)
    show ?case
    proof (cases "x = v")
      case True
      have "bit (?g v w) (nat r)" using v(2-) bit_set_regs [OF r] by auto
      with True mono show ?thesis by simp
    next
      case False
      with Cons show ?thesis by simp
    qed
  qed simp
qed



end
