(* ===== verification/Bind_Driver.thy ===== *)
theory Bind_Driver
  imports Bind_Point
begin

text \<open>
  The allocation of one function as \<^verbatim>\<open>main\<close> of \<^verbatim>\<open>src/bind.c\<close> drives it: the
  analyses, the decision whether the frame pointer is free for allocation, the first allocation,
  and the second one when calls or spills turn out to need the frame.
\<close>

section \<open>The program\<close>

record extern_fn =
  ext_name :: string
  ext_is_far :: bool
  ext_ds_policy :: ds_policy
  ext_ds_symbol :: string
  ext_ds_literal :: int
  ext_has_address :: bool
  ext_addr_seg :: int
  ext_addr_off :: int
  ext_param_pins :: "int list"
  ext_param_places :: "abi_place list"
  ext_param_stack_offsets :: "int list"
  ext_return_types :: "string list"
  ext_ret_pins :: "int list"
  ext_ret_places :: "abi_place list"
  ext_return_stack_offsets :: "int list"
  ext_preserves :: "int list"

record fn_assignment =
  fa_param_regs :: "int list"
  fa_param_places :: "abi_place list"
  fa_param_stack_offsets :: "int list"
  fa_return_reg :: int
  fa_return_regs :: "int list"
  fa_return_places :: "abi_place list"
  fa_return_stack_offsets :: "int list"
  fa_resolved :: bool
  fa_clobbers :: clobbers

record nib_program =
  prog_functions :: "func list"
  externs :: "extern_fn list"
  fn_assigns :: "fn_assignment list"

datatype callee = Callee_fn nat | Callee_ext nat | Callee_none

definition first_index :: "('a \<Rightarrow> bool) \<Rightarrow> 'a list \<Rightarrow> nat option" where
  "first_index P xs = (case filter (\<lambda>i. P (xs ! i)) [0..<length xs] of [] \<Rightarrow> None | i # _ \<Rightarrow> Some i)"

definition find_callee :: "nib_program \<Rightarrow> bool \<Rightarrow> string \<Rightarrow> callee" where
  "find_callee B direct nm =
     (case (if direct then first_index (\<lambda>f. fn_name f = nm) (prog_functions B) else None) of
        Some fi \<Rightarrow> Callee_fn fi
      | None \<Rightarrow> (case first_index (\<lambda>e. ext_name e = nm) (externs B) of
                   Some e \<Rightarrow> Callee_ext e | None \<Rightarrow> Callee_none))"

definition abi_type_words :: "string \<Rightarrow> int" where
  "abi_type_words ty = (if ty = ''far'' \<or> ty = ''far32'' then 2 else 1)"

definition stack_param_words :: "abi_place list \<Rightarrow> int" where
  "stack_param_words places = int (length (filter (\<lambda>p. p = ABI_PLACE_STACK) places))"

definition stack_return_words :: "abi_place list \<Rightarrow> string list \<Rightarrow> int" where
  "stack_return_words places types =
     sum_list (map (\<lambda>(p, t). if p = ABI_PLACE_STACK then abi_type_words t else 0) (zip places types))"

definition direct_stack_arg_words :: "nib_program \<Rightarrow> callee \<Rightarrow> int" where
  "direct_stack_arg_words B c =
     (case c of
        Callee_fn fi \<Rightarrow> stack_param_words (take (length (param_vregs (prog_functions B ! fi))) (fa_param_places (fn_assigns B ! fi)))
      | Callee_ext e \<Rightarrow> stack_param_words (ext_param_places (externs B ! e))
      | Callee_none \<Rightarrow> 0)"

definition direct_stack_ret_words :: "nib_program \<Rightarrow> callee \<Rightarrow> int" where
  "direct_stack_ret_words B c =
     (case c of
        Callee_fn fi \<Rightarrow> stack_return_words (fa_return_places (fn_assigns B ! fi)) (return_types (prog_functions B ! fi))
      | Callee_ext e \<Rightarrow> stack_return_words (ext_ret_places (externs B ! e)) (ext_return_types (externs B ! e))
      | Callee_none \<Rightarrow> 0)"

definition call_expected_nreturns :: "nib_program \<Rightarrow> ir_insn \<Rightarrow> callee \<Rightarrow> int" where
  "call_expected_nreturns B ins c =
     (let declared = (case c of Callee_fn fi \<Rightarrow> int (length (return_types (prog_functions B ! fi)))
                      | Callee_ext e \<Rightarrow> int (length (ext_return_types (externs B ! e))) | Callee_none \<Rightarrow> -1);
          requested = (if op ins = IR_MCALL then nrets ins else if dst ins \<ge> 0 then 1 else 0)
      in if declared \<ge> 0 \<and> requested > declared then declared else requested)"

definition default_return_reg :: "string \<Rightarrow> int \<Rightarrow> int" where
  "default_return_reg ty idx =
     (if idx \<ge> 0 \<and> idx < 4
      then (if ty = ''u8'' then [PREG_AL, PREG_DL, PREG_CL, PREG_BL] else [PREG_AX, PREG_DX, PREG_CX, PREG_BX]) ! nat idx
      else PREG_NONE)"

definition extern_return_reg :: "extern_fn \<Rightarrow> int \<Rightarrow> int" where
  "extern_return_reg ext idx =
     (if idx < 0 \<or> idx \<ge> int (length (ext_return_types ext)) then PREG_NONE
      else if ext_ret_places ext ! nat idx = ABI_PLACE_STACK then PREG_NONE
      else if ext_ret_pins ext ! nat idx \<noteq> PREG_NONE then ext_ret_pins ext ! nat idx
      else default_return_reg (ext_return_types ext ! nat idx) idx)"

definition function_return_reg :: "func \<Rightarrow> int \<Rightarrow> int" where
  "function_return_reg fn idx =
     (if \<not> has_return fn then PREG_NONE
      else if idx < 0 \<or> idx \<ge> int (length (return_types fn)) then PREG_NONE
      else if ret_places fn ! nat idx = ABI_PLACE_STACK then PREG_NONE
      else if ret_pins fn ! nat idx \<noteq> PREG_NONE then ret_pins fn ! nat idx
      else default_return_reg (return_types fn ! nat idx) idx)"

section \<open>Calls that need a temporary\<close>

definition ret_capture_restore_reg :: "func \<Rightarrow> int \<Rightarrow> int" where
  "ret_capture_restore_reg fn v =
     (let preg = vreg_preg fn v
      in if preg \<ge> PREG_AL \<and> preg \<le> PREG_BH then preg_alias_parent preg else preg)"

definition return_needs_temp :: "nib_program \<Rightarrow> func \<Rightarrow> nat \<Rightarrow> callee \<Rightarrow> nat \<Rightarrow> bool" where
  "return_needs_temp B fn i c ri =
     (let ins = insns fn ! i;
          ret_v = (if ri = 0 then dst ins else ins_ret_vreg ins (int ri - 1));
          (ret_stack, expected) =
            (case c of
               Callee_fn fi \<Rightarrow> (fa_return_places (fn_assigns B ! fi) ! ri = ABI_PLACE_STACK, fa_return_regs (fn_assigns B ! fi) ! ri)
             | Callee_ext e \<Rightarrow> (ext_ret_places (externs B ! e) ! ri = ABI_PLACE_STACK, extern_return_reg (externs B ! e) (int ri))
             | Callee_none \<Rightarrow> (False, PREG_NONE));
          actual = vreg_preg fn ret_v
      in if ret_v < 0 \<or> ret_v \<ge> int (nvregs fn) then False
         else if ret_stack \<or> expected = PREG_NONE then False
         else if actual \<noteq> PREG_NONE \<and> \<not> pregs_alias actual expected then True
         else if actual \<noteq> PREG_NONE
         then let restore_reg = ret_capture_restore_reg fn ret_v
              in (needs_frame fn \<and> pregs_alias PREG_BP restore_reg) \<or>
                 list_ex (\<lambda>v. int v \<noteq> ret_v \<and> vreg_preg fn (int v) \<noteq> PREG_NONE \<and> vreg_preg fn (int v) \<noteq> PREG_SP \<and>
                              vreg_live_after_insn fn i (int v) \<and>
                              (let preg = vreg_preg fn (int v);
                                   push_reg = (if preg \<ge> PREG_AL \<and> preg \<le> PREG_BH then preg_alias_parent preg else preg)
                               in pregs_alias push_reg restore_reg)) [0..<nvregs fn]
         else False)"

definition call_returns_need_temp :: "nib_program \<Rightarrow> func \<Rightarrow> bool" where
  "call_returns_need_temp B fn =
     list_ex (\<lambda>i. let ins = insns fn ! i
                  in (op ins = IR_CALL \<or> op ins = IR_MCALL \<or> op ins = IR_ICALL \<or> op ins = IR_NCALL) \<and>
                     (let c = find_callee B (op ins \<noteq> IR_ICALL \<and> op ins \<noteq> IR_NCALL) (iname ins)
                      in list_ex (return_needs_temp B fn i c) [0..<nat (call_expected_nreturns B ins c)]))
       [0..<length (insns fn)]"

fun flags_live_in :: "ir_insn list \<Rightarrow> bool" where
  "flags_live_in [] = False"
| "flags_live_in (ins # is) =
     (if op ins = IR_GETFLAG then True
      else if op ins = IR_LABEL \<or> op ins = IR_JMP \<or> op ins = IR_RET \<or> op ins = IR_TAILCALL \<or> op ins = IR_NTAILCALL then False
      else if insn_clobbers_flags ins then False
      else flags_live_in is)"

definition flags_live_after_insn :: "func \<Rightarrow> nat \<Rightarrow> bool" where
  "flags_live_after_insn fn insn_idx = flags_live_in (drop (insn_idx + 1) (insns fn))"

definition flag_call_needs_temp :: "nib_program \<Rightarrow> func \<Rightarrow> nat \<Rightarrow> bool" where
  "flag_call_needs_temp B fn i =
     (let ins = insns fn ! i
      in flags_live_after_insn fn i \<and>
         ((op ins = IR_ICALL \<and> src2 ins \<ge> 0 \<and> src2 ins < int (nvregs fn) \<and> is_seg (vregs fn ! nat (src2 ins))) \<or>
          ((op ins = IR_CALL \<or> op ins = IR_MCALL \<or> op ins = IR_NCALL) \<and>
           (let c = find_callee B (op ins \<noteq> IR_NCALL) (iname ins)
            in direct_stack_arg_words B c > 0 \<or> direct_stack_ret_words B c > 0))))"

section \<open>The driver\<close>

text \<open>The first phase: graph, live sets, ranges, interference and demands.\<close>

definition prepare_function :: "func \<Rightarrow> func option" where
  "prepare_function fn =
     (let fn = build_cfg fn; fn = compute_cfg_liveness fn; fn = compute_liveness fn; fn = build_igraph fn
      in map_option (\<lambda>fn. scan_sibling_byte_affinities (scan_rematerialization_candidates fn)) (scan_addressing_constraints fn))"

text \<open>A register whose neighbours outnumber its pool.\<close>

definition pressure_high :: "func \<Rightarrow> bool" where
  "pressure_high fn =
     list_ex (\<lambda>v. let vr = vregs fn ! v
                  in \<not> is_stack_home vr \<and> \<not> is_local_slot vr \<and> \<not> vreg_can_rematerialize fn v \<and>
                     \<not> (def_pos vr < 0 \<and> last_use vr < 0) \<and> degree fn ! v \<ge> int (length (get_vreg_pool fn v True)))
       [0..<nvregs fn]"

definition reserve_frame :: "nib_program \<Rightarrow> func \<Rightarrow> func \<times> bool" where
  "reserve_frame B fn =
     (let bp = True;
          (fn, bp) = (if local_size fn > 0 then (fn\<lparr>needs_frame := True\<rparr>, False) else (fn, bp));
          fn = fn\<lparr>needs_call_temp := False, call_temp_off := 0\<rparr>;
          (fn, bp) = (if list_ex (flag_call_needs_temp B fn) [0..<length (insns fn)]
                      then (fn\<lparr>needs_call_temp := True, needs_frame := True\<rparr>, False) else (fn, bp))
      in if pressure_high fn then (fn\<lparr>needs_frame := True\<rparr>, False) else (fn, bp))"

definition forget_allocation :: "func \<Rightarrow> func" where
  "forget_allocation fn =
     fn\<lparr>vregs := map (\<lambda>vr. vr\<lparr>assigned := PREG_NONE, spill_slot := -1, spill_byte_offset := 0\<rparr>) (vregs fn),
        nspill_slots := 0\<rparr>"

definition retry_for_call :: "nib_program \<Rightarrow> func \<times> bool \<Rightarrow> (func \<times> bool) option" where
  "retry_for_call B = (\<lambda>(fn, bp).
     if call_returns_need_temp B fn
     then let fn1 = fn\<lparr>needs_call_temp := True\<rparr>
          in if \<not> needs_frame fn1
             then let fn2 = fn1\<lparr>needs_frame := True\<rparr>
                  in if bp then map_option (\<lambda>f. (f, False)) (allocate_registers (forget_allocation fn2) False)
                     else Some (fn2, bp)
             else Some (fn1, bp)
     else Some (fn, bp))"

definition retry_for_spills :: "func \<times> bool \<Rightarrow> func option" where
  "retry_for_spills = (\<lambda>(fn, bp).
     if nspill_slots fn > 0 \<and> bp then allocate_registers (forget_allocation (fn\<lparr>needs_frame := True\<rparr>)) False
     else Some fn)"

definition allocate_function :: "nib_program \<Rightarrow> func \<Rightarrow> func option" where
  "allocate_function B f =
     (case prepare_function f of
        None \<Rightarrow> None
      | Some fn \<Rightarrow>
          (case reserve_frame B fn of (fn, bp) \<Rightarrow>
             (case allocate_registers fn bp of
                None \<Rightarrow> None
              | Some fn \<Rightarrow> (case retry_for_call B (fn, bp) of
                              None \<Rightarrow> None
                            | Some s \<Rightarrow> retry_for_spills s))))"

end
