(* ===== verification/Bind_Driver_Facts.thy ===== *)
theory Bind_Driver_Facts
  imports Bind_Driver
begin

text \<open>
  The allocation of a function as a whole: whatever the driver tries, the result keeps apart what
  must be kept apart, gives every register that occurs a place, and is reached.
\<close>

section \<open>Functions ready for allocation\<close>

text \<open>What does not change between the attempts.\<close>

definition same_demands :: "vreg_info \<Rightarrow> vreg_info \<Rightarrow> bool" where
  "same_demands a b \<longleftrightarrow>
     fixed b = fixed a \<and> is_stack_home b = is_stack_home a \<and> is_local_slot b = is_local_slot a \<and> is_seg b = is_seg a"

definition ready :: "func \<Rightarrow> func \<Rightarrow> bool" where
  "ready f q \<longleftrightarrow>
     analysed f q \<and> igraph_ok q \<and> edges q = edges (analyse f) \<and> nspill_slots q = 0 \<and>
     (\<forall>v < nvregs f. unplaced q v \<and> same_demands (vregs f ! v) (vregs q ! v) \<and>
        (\<forall>i < length (insns f). v \<in> reads (build_cfg f) i \<union> writes (build_cfg f) i \<longrightarrow>
           def_pos (vregs q ! v) \<ge> 0 \<or> last_use (vregs q ! v) \<ge> 0))"

lemma prepared_graph:
  assumes "l = compute_liveness (compute_cfg_liveness (build_cfg f))"
  shows "igraph_ok (build_igraph l)" "edges (build_igraph l) = edges (analyse f)" "analysed f (build_igraph l)"
    "vregs (build_igraph l) = vregs l" "nspill_slots (build_igraph l) = nspill_slots l"
proof -
  let ?fn = "build_cfg f" and ?c = "compute_cfg_liveness (build_cfg f)"
  have c: "insns ?c = insns ?fn" "nvregs ?c = nvregs ?fn" "vset_words ?c = vset_words ?fn"
    by (simp_all add: compute_cfg_liveness_def Let_def nvregs_def)
  note fr = vregs_only_fields [OF compute_liveness_frame [of ?c], folded assms]
  have fit: "\<forall>bb \<in> set (blocks l). vset_fits (vset_words l) (live_out bb)"
    using liveness_exact [of ?fn] build_cfg_words [of f] build_cfg_range [of f] c fr
    by (auto simp: exact_def rounds_of_def in_set_conv_nth)
  have nv: "nvregs l \<le> 64 * vset_words l" using build_cfg_words [of f] c fr by simp
  note B = build_igraph_edges [OF nv fit]
  show "igraph_ok (build_igraph l)" by (rule B(1))
  have "block_pairs l bb = block_pairs ?fn bb" for bb by (rule block_pairs_cong) (use c fr in simp_all)
  then show "edges (build_igraph l) = edges (analyse f)"
    using B(3) graph_of_cfg(5) [OF refl refl, of f] c fr by (simp add: analyse_def new_edges_def)
  show "analysed f (build_igraph l)" using same_code_fields [OF B(2)] c fr by (simp add: analysed_def build_cfg_same)
  show "vregs (build_igraph l) = vregs l" by (rule same_code_fields(3) [OF B(2)])
  show "nspill_slots (build_igraph l) = nspill_slots l"
    using B(2) by (cases l; cases "build_igraph l") (simp add: same_code_def)
qed

lemma scans_frame:
  assumes "scan_addressing_constraints q = Some q1"
  shows "vregs_only same_but_hints q (scan_sibling_byte_affinities (scan_rematerialization_candidates q1))"
  by (rule hint_trans [OF scan_addressing_frame [OF assms] hint_trans [OF scan_remat_frame scan_sibling_frame]])

lemma analysed_same:
  "analysed f q \<Longrightarrow> insns q' = insns q \<Longrightarrow> nvregs q' = nvregs q \<Longrightarrow> vset_words q' = vset_words q \<Longrightarrow> blocks q' = blocks q \<Longrightarrow>
   analysed f q'"
  by (simp add: analysed_def)

lemma edges_same: "igraph q' = igraph q \<Longrightarrow> nvregs q' = nvregs q \<Longrightarrow> edges q' = edges q"
  by (simp add: edges_def)

lemma igraph_ok_same:
  "igraph_ok q \<Longrightarrow> igraph q' = igraph q \<Longrightarrow> nvregs q' = nvregs q \<Longrightarrow> degree q' = degree q \<Longrightarrow> vset_words q' = vset_words q \<Longrightarrow>
   igraph_ok q'"
  using edges_same [of q' q] by (simp add: igraph_ok_def)

lemma build_cfg_vregs: "vregs (build_cfg f) = vregs f" "nspill_slots (build_cfg f) = nspill_slots f"
  by (simp_all add: build_cfg_def fn_prepare_vsets_def Let_def)

lemma prepared_ready:
  assumes "prepare_function f = Some q" and un: "\<forall>v < nvregs f. unplaced f v" and n0: "nspill_slots f = 0"
  shows "ready f q"
proof -
  define l where "l = compute_liveness (compute_cfg_liveness (build_cfg f))"
  note G = prepared_graph [OF l_def]
  obtain q1 where "scan_addressing_constraints (build_igraph l) = Some q1"
    and q: "q = scan_sibling_byte_affinities (scan_rematerialization_candidates q1)"
    using assms(1) by (auto simp: prepare_function_def Let_def l_def)
  then have fr: "vregs_only same_but_hints (build_igraph l) q" using scans_frame by simp
  note F = vregs_only_fields [OF fr]
  have c: "vregs (compute_cfg_liveness (build_cfg f)) = vregs f" "nspill_slots (compute_cfg_liveness (build_cfg f)) = 0"
    "nvregs (compute_cfg_liveness (build_cfg f)) = nvregs f"
    using n0 by (simp_all add: compute_cfg_liveness_def Let_def build_cfg_vregs nvregs_def)
  have lf: "vregs_only same_but_range (compute_cfg_liveness (build_cfg f)) l" unfolding l_def by (rule compute_liveness_frame)
  have "unplaced q v \<and> same_demands (vregs f ! v) (vregs q ! v) \<and>
      (\<forall>i < length (insns f). v \<in> reads (build_cfg f) i \<union> writes (build_cfg f) i \<longrightarrow>
         def_pos (vregs q ! v) \<ge> 0 \<or> last_use (vregs q ! v) \<ge> 0)" if v: "v < nvregs f" for v
  proof -
    have "same_but_range (vregs f ! v) (vregs l ! v)" using vregs_only_nth [OF lf] v c by simp
    then have 1: "assigned (vregs l ! v) = assigned (vregs f ! v)" "spill_slot (vregs l ! v) = spill_slot (vregs f ! v)"
      "same_demands (vregs f ! v) (vregs l ! v)"
      by (cases "vregs f ! v"; cases "vregs l ! v"; simp add: same_but_range_def same_demands_def)+
    have "v < nvregs (build_igraph l)" using v G(3) by (simp add: analysed_def)
    then have 2: "same_but_hints (vregs l ! v) (vregs q ! v)" using vregs_only_nth [OF fr] G(4) by simp
    have "def_pos (vregs q ! v) \<ge> 0 \<or> last_use (vregs q ! v) \<ge> 0"
      if "i < length (insns f)" "v \<in> reads (build_cfg f) i \<union> writes (build_cfg f) i" for i
      using occurring_needed [OF refl l_def _ that(2)] that(1) 2 by (simp add: same_but_hints_def build_cfg_same)
    with 1 2 un v show ?thesis by (auto simp: unplaced_def same_but_hints_def same_demands_def)
  qed
  moreover have "nspill_slots q = 0" using F(8) G(5) vregs_only_fields(8) [OF lf] c by simp
  ultimately show ?thesis
    using analysed_same [OF G(3) F(1,2,4,6)] igraph_ok_same [OF G(1) F(3,2,5,4)] edges_same [OF F(3,2)] G(2)
    by (simp add: ready_def)
qed

text \<open>Flags of the frame do not matter.\<close>

definition same_data :: "func \<Rightarrow> func \<Rightarrow> bool" where
  "same_data q q' \<longleftrightarrow>
     q' = q\<lparr>needs_frame := needs_frame q', needs_call_temp := needs_call_temp q', call_temp_off := call_temp_off q'\<rparr>"

lemma same_data_fields:
  assumes "same_data q q'"
  shows "insns q' = insns q" "nvregs q' = nvregs q" "igraph q' = igraph q" "vset_words q' = vset_words q"
    "degree q' = degree q" "blocks q' = blocks q" "vregs q' = vregs q" "nspill_slots q' = nspill_slots q"
  using assms by (cases q; cases q'; simp add: same_data_def nvregs_def)+

lemma ready_same_data:
  assumes "ready f q" "same_data q q'"
  shows "ready f q'"
proof -
  note F = same_data_fields [OF assms(2)]
  from assms(1) F analysed_same [of f q q'] igraph_ok_same [of q q'] edges_same [of q' q] show ?thesis
    by (simp add: ready_def unplaced_def)
qed

lemma reserve_frame_data: "reserve_frame B q = (q', bp) \<Longrightarrow> same_data q q'"
  by (auto simp: reserve_frame_def same_data_def Let_def split: if_splits)

lemma ready_forget:
  assumes "ready f q" "placed q q'"
  shows "ready f (forget_allocation q')"
proof -
  let ?g = "forget_allocation q'"
  note P = placed_fields [OF assms(2)]
  have G: "insns ?g = insns q'" "nvregs ?g = nvregs q'" "igraph ?g = igraph q'" "vset_words ?g = vset_words q'"
    "degree ?g = degree q'" "blocks ?g = blocks q'" "nspill_slots ?g = 0"
    by (simp_all add: forget_allocation_def nvregs_def)
  have an: "analysed f q" and ok: "igraph_ok q" using assms(1) by (simp_all add: ready_def)
  have nv: "nvregs q = nvregs f" using an by (simp add: analysed_def)
  have "unplaced ?g v \<and> same_demands (vregs q ! v) (vregs ?g ! v) \<and> def_pos (vregs ?g ! v) = def_pos (vregs q ! v) \<and>
      last_use (vregs ?g ! v) = last_use (vregs q ! v)" if "v < nvregs f" for v
    using that nv P(2) same_vreg_fields [OF placed_vreg [OF assms(2), of v]]
    by (simp add: forget_allocation_def unplaced_def same_demands_def nvregs_def)
  then show ?thesis
    using assms(1) analysed_same [OF an, of ?g] igraph_ok_same [OF ok, of ?g] edges_same [of ?g q] G P
    by (auto simp: ready_def same_demands_def)
qed


section \<open>What the driver ends with\<close>

text \<open>Allocated with the frame pointer as an ordinary register (\<open>bp\<close>) or without it; in the first
  case there is no frame.\<close>

definition outcome :: "func \<Rightarrow> bool \<Rightarrow> func \<Rightarrow> bool" where
  "outcome f bp g \<longleftrightarrow>
     (\<exists>q g'. ready f q \<and> allocate_registers q bp = Some g' \<and> same_data g' g) \<and> (bp \<longrightarrow> \<not> needs_frame g)"

lemma same_data_refl [simp]: "same_data q q"
  by (simp add: same_data_def)

lemma same_data_trans: "same_data a b \<Longrightarrow> same_data b c \<Longrightarrow> same_data a c"
  by (cases a; cases b; cases c) (simp add: same_data_def)

lemma same_data_forget: "same_data a b \<Longrightarrow> same_data (forget_allocation a) (forget_allocation b)"
  by (cases a; cases b) (simp add: same_data_def forget_allocation_def)

lemma ready_result:
  assumes "ready f q" "allocate_registers q bp = Some g"
  shows "alloc_inv bp q g" "slots_ok g" "\<forall>v < nvregs f. needed (vregs q ! v) \<longrightarrow> has_place g v"
proof -
  have nv: "nvregs q = nvregs f" using assms(1) by (simp add: ready_def analysed_def)
  show "alloc_inv bp q g" "slots_ok g" "\<forall>v < nvregs f. needed (vregs q ! v) \<longrightarrow> has_place g v"
    using allocation_result [of q bp g] assms nv by (simp_all add: ready_def)
qed

lemma outcome_retry:
  assumes "outcome f bp g" "same_data g h" "allocate_registers (forget_allocation h) False = Some k"
  shows "outcome f False k"
proof -
  obtain q g' where q: "ready f q" "allocate_registers q bp = Some g'" "same_data g' g"
    using assms(1) by (auto simp: outcome_def)
  have "placed q g'" using ready_result(1) [OF q(1,2)] by (simp add: alloc_inv_def)
  then have "ready f (forget_allocation g')" by (rule ready_forget [OF q(1)])
  then have "ready f (forget_allocation h)"
    by (rule ready_same_data) (rule same_data_forget [OF same_data_trans [OF q(3) assms(2)]])
  with assms(3) show ?thesis unfolding outcome_def by (blast intro: same_data_refl)
qed

lemma outcome_same_data:
  "outcome f bp g \<Longrightarrow> same_data g h \<Longrightarrow> (bp \<longrightarrow> \<not> needs_frame h) \<Longrightarrow> outcome f bp h"
  unfolding outcome_def by (blast intro: same_data_trans)

lemma retry_for_call_cases:
  assumes "retry_for_call B (g, bp) = Some (h, bp')"
  obtains "h = g" "bp' = bp" | "h = g\<lparr>needs_call_temp := True\<rparr>" "bp' = bp" "needs_frame g"
    | "h = g\<lparr>needs_call_temp := True, needs_frame := True\<rparr>" "bp' = bp" "\<not> bp"
    | "bp' = False" "allocate_registers (forget_allocation (g\<lparr>needs_call_temp := True, needs_frame := True\<rparr>)) False = Some h"
proof -
  let ?g1 = "g\<lparr>needs_call_temp := True\<rparr>" and ?g2 = "g\<lparr>needs_call_temp := True, needs_frame := True\<rparr>"
  have eq: "retry_for_call B (g, bp) =
      (if \<not> call_returns_need_temp B g then Some (g, bp) else if needs_frame g then Some (?g1, bp)
       else if bp then map_option (\<lambda>f. (f, False)) (allocate_registers (forget_allocation ?g2) False) else Some (?g2, bp))"
    by (simp add: retry_for_call_def)
  show thesis
  proof (cases "call_returns_need_temp B g")
    case False
    then have "h = g" "bp' = bp" using assms(1) unfolding eq by simp_all
    then show thesis by (rule that(1))
  next
    case True
    note need = this
    show thesis
    proof (cases "needs_frame g")
      case True
      then have "h = ?g1" "bp' = bp" using assms(1) need unfolding eq by simp_all
      with True show thesis using that(2) by blast
    next
      case False
      note nf = this
      show thesis
      proof (cases bp)
        case True
        then have "map_option (\<lambda>f. (f, False)) (allocate_registers (forget_allocation ?g2) False) = Some (h, bp')"
          using assms(1) need nf unfolding eq by (simp only: if_False if_True not_True_eq_False not_False_eq_True simp_thms)
        from this [unfolded map_option_eq_Some]
        have "bp' = False \<and> allocate_registers (forget_allocation ?g2) False = Some h" by (elim exE conjE) (simp only: prod.inject)
        then show thesis by (elim conjE) (rule that(4))
      next
        case False
        then have "h = ?g2" "bp' = bp" using assms(1) need nf unfolding eq by simp_all
        with False show thesis using that(3) by blast
      qed
    qed
  qed
qed

lemma retry_for_call_outcome:
  assumes "retry_for_call B (g, bp) = Some (h, bp')" "outcome f bp g"
  shows "outcome f bp' h"
proof -
  let ?g1 = "g\<lparr>needs_call_temp := True\<rparr>" and ?g2 = "g\<lparr>needs_call_temp := True, needs_frame := True\<rparr>"
  have d: "same_data g ?g1" "same_data g ?g2" by (simp_all add: same_data_def)
  have fr: "bp \<longrightarrow> \<not> needs_frame g" using assms(2) by (simp add: outcome_def)
  show ?thesis
  proof (rule retry_for_call_cases [OF assms(1)])
    assume "h = g" "bp' = bp"
    then show ?thesis using assms(2) by simp
  next
    assume "h = ?g1" "bp' = bp" "needs_frame g"
    then show ?thesis using outcome_same_data [OF assms(2) d(1)] fr by simp
  next
    assume "h = ?g2" "bp' = bp" "\<not> bp"
    then show ?thesis using outcome_same_data [OF assms(2) d(2)] by simp
  next
    assume "bp' = False" "allocate_registers (forget_allocation ?g2) False = Some h"
    then show ?thesis using outcome_retry [OF assms(2) d(2)] by simp
  qed
qed

lemma prepared_frame:
  assumes "prepare_function f = Some q"
  shows "needs_frame q = needs_frame f"
proof -
  define l where "l = compute_liveness (compute_cfg_liveness (build_cfg f))"
  obtain q1 where "scan_addressing_constraints (build_igraph l) = Some q1"
    and q: "q = scan_sibling_byte_affinities (scan_rematerialization_candidates q1)"
    using assms by (auto simp: prepare_function_def Let_def l_def)
  then have "needs_frame q = needs_frame (build_igraph l)" using vregs_only_fields(9) [OF scans_frame] by simp
  also have "\<dots> = needs_frame l"
  proof -
    have "same_code l (build_igraph l)"
      using liveness_exact [of "build_cfg f"] build_cfg_words [of f] build_cfg_range [of f]
        vregs_only_fields [OF compute_liveness_frame [of "compute_cfg_liveness (build_cfg f)"], folded l_def]
      by (intro build_igraph_edges(2)) (auto simp: exact_def rounds_of_def in_set_conv_nth compute_cfg_liveness_def Let_def nvregs_def)
    then show ?thesis by (cases l; cases "build_igraph l") (simp add: same_code_def)
  qed
  also have "\<dots> = needs_frame f"
    using vregs_only_fields(9) [OF compute_liveness_frame [of "compute_cfg_liveness (build_cfg f)"], folded l_def]
    by (simp add: compute_cfg_liveness_def build_cfg_def fn_prepare_vsets_def Let_def)
  finally show ?thesis .
qed

lemma reserve_frame_flag: "reserve_frame B q = (q', bp) \<Longrightarrow> bp \<Longrightarrow> needs_frame q' = needs_frame q"
  by (auto simp: reserve_frame_def Let_def split: if_splits)

lemma driver_outcome:
  assumes "allocate_function B f = Some g" and "\<forall>v < nvregs f. unplaced f v" and "nspill_slots f = 0" and "\<not> needs_frame f"
  shows "\<exists>bp. outcome f bp g"
proof -
  from assms(1) obtain q q1 bp g1 g2 bp2 where q: "prepare_function f = Some q" "reserve_frame B q = (q1, bp)"
    "allocate_registers q1 bp = Some g1" "retry_for_call B (g1, bp) = Some (g2, bp2)" "retry_for_spills (g2, bp2) = Some g"
    by (auto simp: allocate_function_def split: option.splits prod.splits)
  have rd: "ready f q1" using ready_same_data [OF prepared_ready [OF q(1) assms(2,3)] reserve_frame_data [OF q(2)]] .
  have "placed q1 g1" using ready_result(1) [OF rd q(3)] by (simp add: alloc_inv_def)
  then have "needs_frame g1 = needs_frame q1" by (cases q1; cases g1) (simp add: placed_def)
  then have "bp \<longrightarrow> \<not> needs_frame g1"
    using reserve_frame_flag [OF q(2)] prepared_frame [OF q(1)] assms(4) by simp
  then have "outcome f bp g1" unfolding outcome_def using rd q(3) same_data_refl by blast
  then have o2: "outcome f bp2 g2" by (rule retry_for_call_outcome [OF q(4)])
  have d: "same_data g2 (g2\<lparr>needs_frame := True\<rparr>)" by (simp add: same_data_def)
  show ?thesis
    using q(5) o2 outcome_retry [OF o2 d] by (auto simp: retry_for_spills_def split: if_splits)
qed

lemma outcome_analysed:
  assumes "outcome f bp g"
  shows "analysed f g" "edges g = edges (analyse f)" "coloured g" "slots_ok g" "igraph_ok g"
    "\<forall>v < nvregs f. same_demands (vregs f ! v) (vregs g ! v)"
    "\<forall>v < nvregs f. assigned (vregs g ! v) \<noteq> PREG_NONE \<longrightarrow> fixed (vregs g ! v) \<or> place_ok bp g v (assigned (vregs g ! v))"
    "\<forall>v < nvregs f. \<forall>i < length (insns f). v \<in> reads (build_cfg f) i \<union> writes (build_cfg f) i \<longrightarrow>
       \<not> is_stack_home (vregs f ! v) \<longrightarrow> \<not> is_local_slot (vregs f ! v) \<longrightarrow> has_place g v"
proof -
  obtain q g' where q: "ready f q" "allocate_registers q bp = Some g'" "same_data g' g"
    using assms by (auto simp: outcome_def)
  note R = ready_result [OF q(1,2)]
  note D = same_data_fields [OF q(3)]
  have pl: "placed q g'" and ok: "igraph_ok g'" and col: "coloured g'" using R(1) by (simp_all add: alloc_inv_def)
  note P = placed_fields [OF pl]
  have an: "analysed f q" using q(1) by (simp add: ready_def)
  have nv: "nvregs q = nvregs f" using an by (simp add: analysed_def)
  show "analysed f g" using analysed_same [OF an] P D by simp
  have "edges g' = edges (analyse f)" using placed_edges [OF pl] q(1) by (simp add: ready_def)
  then show "edges g = edges (analyse f)" using edges_same [of g g'] D by simp
  show "coloured g" using col edges_same [of g g'] D by (simp add: coloured_def)
  show "slots_ok g" using R(2) D by (simp add: slots_ok_def)
  show "igraph_ok g" using igraph_ok_same [OF ok] D by simp
  show "\<forall>v < nvregs f. same_demands (vregs f ! v) (vregs g ! v)"
    using q(1) same_vreg_fields [OF placed_vreg [OF pl]] nv D by (simp add: ready_def same_demands_def)
  have "place_ok bp g v p = place_ok bp g' v p" for v p using D by (simp add: place_ok_def get_vreg_pool_def)
  then show "\<forall>v < nvregs f. assigned (vregs g ! v) \<noteq> PREG_NONE \<longrightarrow> fixed (vregs g ! v) \<or> place_ok bp g v (assigned (vregs g ! v))"
    using R(1) D P nv by (simp add: alloc_inv_def)
  have hp: "has_place g v = has_place g' v" for v
    using D by (simp add: has_place_def vreg_can_rematerialize_def vreg_has_remat_def Let_def)
  show "\<forall>v < nvregs f. \<forall>i < length (insns f). v \<in> reads (build_cfg f) i \<union> writes (build_cfg f) i \<longrightarrow>
       \<not> is_stack_home (vregs f ! v) \<longrightarrow> \<not> is_local_slot (vregs f ! v) \<longrightarrow> has_place g v"
    using R(3) q(1) by (auto simp: hp ready_def needed_def same_demands_def)
qed

lemma alias_nonneg: "pregs_alias a b \<Longrightarrow> 0 \<le> a \<and> 0 \<le> b"
  by (simp add: pregs_alias_def split: if_splits)

section \<open>The properties\<close>

text \<open>A function as the parser leaves it: no register has a place yet, and there is no frame.\<close>

definition fresh_function :: "func \<Rightarrow> bool" where
  "fresh_function f \<longleftrightarrow> (\<forall>v < nvregs f. unplaced f v) \<and> nspill_slots f = 0 \<and> \<not> needs_frame f"

lemma fresh_outcome:
  assumes "allocate_function B f = Some g" "fresh_function f"
  obtains bp where "outcome f bp g"
  using driver_outcome [OF assms(1)] assms(2) by (auto simp: fresh_function_def)

section \<open>A program without other functions\<close>

definition no_program :: nib_program where
  "no_program = \<lparr>prog_functions = [], externs = [], fn_assigns = []\<rparr>"

lemma loop_fn_fresh: "fresh_function loop_fn"
  unfolding fresh_function_def unplaced_def by code_simp

lemma loop_fn_allocated: "allocate_function no_program loop_fn = Some (the (allocate_function no_program loop_fn))"
proof -
  have "\<not> Option.is_none (allocate_function no_program loop_fn)" by code_simp
  then show ?thesis by (simp add: Option.is_none_def)
qed





text \<open>What a place means for the demands that the instructions make.\<close>

lemma place_ok_demands:
  assumes "place_ok bp fn v p" and "vr = vregs fn ! v"
  shows "p \<in> {PREG_ES .. PREG_DS} \<longleftrightarrow> is_seg vr" and "p = PREG_BP \<longrightarrow> bp"
    and "\<not> is_seg vr \<longrightarrow> needs_cl vr \<longrightarrow> p = PREG_CL"
    and "\<not> is_seg vr \<longrightarrow> \<not> needs_cl vr \<longrightarrow> \<not> is_byte vr \<longrightarrow>
      (needs_base vr \<longrightarrow> p \<in> {PREG_BX, PREG_BP}) \<and> (needs_index vr \<longrightarrow> \<not> needs_base vr \<longrightarrow> p \<in> {PREG_SI, PREG_DI}) \<and>
      (needs_addressable vr \<longrightarrow> p \<in> {PREG_BX, PREG_BP, PREG_SI, PREG_DI})"
  using assms by (auto simp: place_ok_def get_vreg_pool_def prefer_allowed_def Let_def split: if_splits)



section \<open>The allocator ends\<close>

lemma spill_cost_bound:
  assumes "use_count (vregs fn ! v) \<le> 100000"
  shows "spill_cost fn v < INT_MAX"
proof -
  let ?n = "if use_count (vregs fn ! v) \<le> 0 then 1 else use_count (vregs fn ! v)"
  have "vreg_frame_spill_cost fn v \<le> 15000130"
    using assms by (simp add: vreg_frame_spill_cost_def Let_def v20_cost_def vreg_loop_weight_def)
  then have "vreg_best_spill_cost fn v \<le> 15000130"
    by (simp add: vreg_best_spill_cost_def Let_def)
  then show ?thesis by (simp add: spill_cost_def Let_def v20_cost_def)
qed

lemma same_vreg_uses: "same_vreg a b \<Longrightarrow> use_count b = use_count a"
  by (cases a; cases b) (simp add: same_vreg_def)

definition few_uses :: "func \<Rightarrow> bool" where
  "few_uses fn \<longleftrightarrow> (\<forall>v < nvregs fn. use_count (vregs fn ! v) \<le> 100000)"

lemma few_uses_placed: "placed fn fn' \<Longrightarrow> few_uses fn' = few_uses fn"
  using placed_fields(2) [of fn fn'] same_vreg_uses [OF placed_vreg [of fn fn']] by (simp add: few_uses_def)

lemma few_uses_same_data: "same_data q q' \<Longrightarrow> few_uses q' = few_uses q"
  using same_data_fields [of q q'] by (simp add: few_uses_def)

lemma few_uses_forget: "few_uses (forget_allocation q) = few_uses q"
  by (auto simp: few_uses_def forget_allocation_def nvregs_def)

lemma precolor_placed: "placed fn (precolor bp fn)"
proof -
  have step: "placed fn (fold f is fn')" if "\<And>i q. i \<in> set is \<Longrightarrow> nvregs q = nvregs fn \<Longrightarrow> placed q (f i q)" "placed fn fn'" for f "is" fn'
    using that
  proof (induction "is" arbitrary: fn')
    case (Cons i "is")
    have "nvregs fn' = nvregs fn" by (rule placed_fields(2) [OF Cons.prems(2)])
    then have "placed fn (f i fn')" using placed_trans [OF Cons.prems(2)] Cons.prems(1) [of i fn'] by simp
    then show ?case using Cons.IH [of "f i fn'"] Cons.prems(1) by simp
  qed simp
  have "placed fn (fold precolor_fixed [0..<nvregs fn] fn)"
    by (rule step) (auto simp: precolor_fixed_def Let_def placed_refl set_assigned_placed)
  then show ?thesis unfolding precolor_def
    by (rule step [rotated]) (auto simp: precolor_preferred_def Let_def placed_refl set_assigned_placed)
qed

lemma allocate_registers_ends:
  assumes "few_uses fn"
  shows "\<exists>g. allocate_registers fn bp = Some g"
proof -
  let ?p = "precolor bp fn"
  let ?rm = "map handled (vregs ?p)"
  have "few_uses ?p" using assms few_uses_placed [OF precolor_placed] by simp
  then have "\<forall>i \<in> to_do ?rm. spill_cost ?p i < INT_MAX" by (auto simp: few_uses_def to_do_def nvregs_def intro: spill_cost_bound)
  then obtain st where "simplify_loop ?p bp (card (to_do ?rm)) ?rm [] = Some st"
    using simplify_loop_ends [of "card (to_do ?rm)" ?rm ?p bp "[]"] by (auto simp: nvregs_def)
  then show ?thesis by (simp add: allocate_registers_def Let_def to_do_count)
qed

lemma select_vreg_placed:
  assumes "v < nvregs fn"
  shows "placed fn (select_vreg bp v fn)"
  using set_assigned_placed [OF assms] give_slot_placed [OF assms] placed_refl
  by (auto simp: select_vreg_def Let_def give_slot_def)

lemma select_all_placed: "\<forall>v \<in> set st. v < nvregs fn \<Longrightarrow> placed fn (fold (select_vreg bp) st fn)"
proof (induction st arbitrary: fn)
  case (Cons v st)
  have pl: "placed fn (select_vreg bp v fn)" using Cons.prems by (simp add: select_vreg_placed)
  then show ?case using Cons.IH [of "select_vreg bp v fn"] Cons.prems placed_trans [OF pl] placed_fields(2) [OF pl] by simp
qed (simp add: placed_refl)

lemma allocate_registers_placed:
  assumes "allocate_registers fn bp = Some g"
  shows "placed fn g"
proof -
  let ?p = "precolor bp fn"
  let ?rm = "map handled (vregs ?p)"
  obtain st where st: "simplify_loop ?p bp (card (to_do ?rm)) ?rm [] = Some st" and g: "g = fold (select_vreg bp) st ?p"
    using assms by (auto simp: allocate_registers_def Let_def to_do_count split: option.splits)
  have "set st = to_do ?rm" using simplify_loop_stack [OF st refl] by (simp add: nvregs_def)
  then have "placed ?p g" unfolding g by (intro select_all_placed) (auto simp: to_do_def nvregs_def)
  then show ?thesis by (rule placed_trans [OF precolor_placed])
qed

lemma allocate_registers_uses: "allocate_registers q bp = Some g \<Longrightarrow> few_uses g = few_uses q"
  by (rule few_uses_placed [OF allocate_registers_placed])

lemma retry_for_call_uses:
  assumes "retry_for_call B (g, bp) = Some (h, bp')" "few_uses g"
  shows "few_uses h"
proof -
  let ?g1 = "g\<lparr>needs_call_temp := True\<rparr>" and ?g2 = "g\<lparr>needs_call_temp := True, needs_frame := True\<rparr>"
  have "same_data g ?g1" "same_data g ?g2" by (simp_all add: same_data_def)
  then have u: "few_uses ?g1" "few_uses ?g2" using few_uses_same_data assms(2) by blast+
  show ?thesis
    by (rule retry_for_call_cases [OF assms(1)])
      (use u assms(2) allocate_registers_uses [of "forget_allocation ?g2"] few_uses_forget in blast)+
qed

lemma retry_for_call_ends:
  assumes "few_uses g"
  shows "\<exists>h bp'. retry_for_call B (g, bp) = Some (h, bp')"
proof -
  let ?g2 = "g\<lparr>needs_call_temp := True, needs_frame := True\<rparr>"
  have "same_data g ?g2" by (simp add: same_data_def)
  then have "few_uses (forget_allocation ?g2)" using few_uses_same_data assms few_uses_forget by blast
  from allocate_registers_ends [OF this, of False] obtain k where "allocate_registers (forget_allocation ?g2) False = Some k" ..
  then have "retry_for_call B (g, bp) \<noteq> None" by (simp add: retry_for_call_def Let_def) blast
  then show ?thesis by fastforce
qed

lemma retry_for_spills_ends:
  assumes "few_uses g"
  shows "\<exists>h. retry_for_spills (g, bp) = Some h"
proof -
  have "same_data g (g\<lparr>needs_frame := True\<rparr>)" by (simp add: same_data_def)
  then have "few_uses (forget_allocation (g\<lparr>needs_frame := True\<rparr>))" using few_uses_same_data assms few_uses_forget by blast
  from allocate_registers_ends [OF this, of False] show ?thesis by (auto simp: retry_for_spills_def)
qed



section \<open>Three functions that do not fare well\<close>


text \<open>
  A further result of a call that is not used afterwards does not interfere with the first
  result: in \<open>mcall_fn\<close> both results of the call are in \<^verbatim>\<open>AX\<close>, although the first is returned.
\<close>

definition mcall_fn :: func where
  "mcall_fn = new_func\<lparr>insns :=
     [ir_insn0\<lparr>op := IR_MCALL, dst := 0, ret_vregs := [1], iname := ''two''\<rparr>,
      ir_insn0\<lparr>op := IR_RETVAL, src1 := 0\<rparr>,
      ir_insn0\<lparr>op := IR_RET\<rparr>], vregs := replicate 2 init_vreg_info\<rparr>"

theorem unused_result_shares_register:
  "let fn = build_cfg mcall_fn; g = the (allocate_function no_program mcall_fn)
   in writes fn 0 = {0, 1} \<and> reads fn 1 = {0} \<and> assigned (vregs g ! 0) = PREG_AX \<and> assigned (vregs g ! 1) = PREG_AX"
proof -
  have "writes (build_cfg mcall_fn) 0 = {0, 1}" "reads (build_cfg mcall_fn) 1 = {0}" by code_simp+
  moreover have "assigned (vregs (the (allocate_function no_program mcall_fn)) ! 0) = PREG_AX"
    "assigned (vregs (the (allocate_function no_program mcall_fn)) ! 1) = PREG_AX" by code_simp+
  ultimately show ?thesis by (simp add: Let_def)
qed

text \<open>
  A register that addresses the data segment has a pool without \<^verbatim>\<open>BP\<close>, which addresses the
  stack segment; but the preference of the program is tested against the other demands only. In
  \<open>ds_fn\<close> the address of a load, for which \<^verbatim>\<open>BP\<close> is preferred, is placed in \<^verbatim>\<open>BP\<close>.
\<close>

definition ds_fn :: func where
  "ds_fn = new_func\<lparr>insns :=
     [ir_insn0\<lparr>op := IR_LOADMEM, dst := 1, src1 := 0\<rparr>,
      ir_insn0\<lparr>op := IR_RETVAL, src1 := 1\<rparr>,
      ir_insn0\<lparr>op := IR_RET\<rparr>], vregs := [init_vreg_info\<lparr>preferred := PREG_BP\<rparr>, init_vreg_info],
     param_vregs := [0], param_places := [ABI_PLACE_REGISTER]\<rparr>"

theorem preference_overrides_data_segment:
  "let g = the (allocate_function no_program ds_fn)
   in needs_ds_addr (vregs g ! 0) \<and> PREG_BP \<notin> set (get_vreg_pool g 0 True) \<and> assigned (vregs g ! 0) = PREG_BP"
proof -
  have "needs_ds_addr (vregs (the (allocate_function no_program ds_fn)) ! 0)"
    "PREG_BP \<notin> set (get_vreg_pool (the (allocate_function no_program ds_fn)) 0 True)"
    "assigned (vregs (the (allocate_function no_program ds_fn)) ! 0) = PREG_BP" by code_simp+
  then show ?thesis by (simp add: Let_def)
qed

end
