(* ===== verification/Bind_Moves.thy ===== *)
theory Bind_Moves
  imports Bind_Driver
begin

text \<open>
  Moves between registers and stack slots, \<^verbatim>\<open>src/bind.c\<close>: the instructions that
  \<^verbatim>\<open>insert_fixup_moves\<close> writes into the resolved stream, and the planner that orders the
  moves of the arguments of a call. The code formats each instruction as a line of text; here a line
  is a value and \<open>asm_text\<close> is its text. A function that writes to the stream is the list of its
  calls, which \<open>rins_run\<close> performs on the stream and the counters.
\<close>

section \<open>Lines\<close>

datatype asm_arg =
    Reg int
  | BpSlot int
  | CallSlot int
  | Num int
  | Hex4 int
  | Name string
  | SegName string
  | NoPlace int
  | Unknown

datatype asm_ins =
    Mov asm_arg asm_arg
  | Push asm_arg
  | Pop asm_arg
  | Xchg asm_arg asm_arg
  | Alu string asm_arg asm_arg
  | Jmp asm_arg
  | Plain string

text \<open>\<^verbatim>\<open>%+d\<close>\<close>

definition signed_int :: "int \<Rightarrow> string" where
  "signed_int n = (if n \<ge> 0 then CHR ''+'' # dec_int n else dec_int n)"

text \<open>\<^verbatim>\<open>bp_operand\<close>, \<^verbatim>\<open>call_area_operand\<close>, and the other operands.\<close>

definition arg_text :: "asm_arg \<Rightarrow> string" where
  "arg_text a =
     (case a of
        Reg p \<Rightarrow> preg_name ! nat p
      | BpSlot off \<Rightarrow> ''[BP'' @ signed_int off @ '']''
      | CallSlot disp \<Rightarrow> if disp = 0 then ''[SS:BX]'' else ''[SS:BX+'' @ dec_int disp @ '']''
      | Num n \<Rightarrow> dec_int n
      | Hex4 n \<Rightarrow> ''0x'' @ hex_int 4 n
      | Name s \<Rightarrow> snprintf_s 128 s
      | SegName s \<Rightarrow> snprintf_s 128 (''SEG '' @ s)
      | NoPlace v \<Rightarrow> [CHR 0x25, CHR ''_''] @ dec_int v
      | Unknown \<Rightarrow> ''???'')"

definition asm_text :: "asm_ins \<Rightarrow> string" where
  "asm_text i = snprintf_s 128 (''    '' @
     (case i of
        Mov a b \<Rightarrow> ''mov '' @ arg_text a @ '', '' @ arg_text b
      | Push a \<Rightarrow> ''push '' @ arg_text a
      | Pop a \<Rightarrow> ''pop '' @ arg_text a
      | Xchg a b \<Rightarrow> ''xchg '' @ arg_text a @ '', '' @ arg_text b
      | Alu nm a b \<Rightarrow> nm @ '' '' @ arg_text a @ '', '' @ arg_text b
      | Jmp a \<Rightarrow> ''jmp '' @ arg_text a
      | Plain s \<Rightarrow> s))"

section \<open>The resolved stream\<close>

datatype fixup_reason =
    FIXUP_CALL_ARG | FIXUP_CALL_SAVE | FIXUP_CALL_RESTORE | FIXUP_CL_ROUTE | FIXUP_ADDR_ROUTE
  | FIXUP_RET_CAPTURE | FIXUP_RET_RELOAD

datatype spill_action =
    SPILL_LOAD | SPILL_STORE | SPILL_STACK_PUSH | SPILL_STACK_POP | SPILL_REMAT
  | SPILL_SCRATCH_SAVE | SPILL_SCRATCH_RESTORE | SPILL_MEM_ROUTE

definition spill_action_clock_cost :: "spill_action \<Rightarrow> int" where
  "spill_action_clock_cost a =
     (case a of
        SPILL_LOAD \<Rightarrow> mov_reg_mem16 v20_cost
      | SPILL_STORE \<Rightarrow> mov_mem16_reg v20_cost
      | SPILL_STACK_PUSH \<Rightarrow> push_reg16 v20_cost
      | SPILL_STACK_POP \<Rightarrow> pop_reg16 v20_cost
      | SPILL_REMAT \<Rightarrow> mov_reg_imm16 v20_cost
      | SPILL_SCRATCH_SAVE \<Rightarrow> push_reg16 v20_cost
      | SPILL_SCRATCH_RESTORE \<Rightarrow> pop_reg16 v20_cost
      | SPILL_MEM_ROUTE \<Rightarrow> mov_reg_mem16 v20_cost + mov_mem16_reg v20_cost)"

datatype resolved_insn = RINS_IR nat | RINS_ASM string

record fixup_state =
  resolved :: "resolved_insn list"
  fixup_counts :: "fixup_reason \<Rightarrow> int"
  spill_action_counts :: "spill_action \<Rightarrow> int"
  estimated_alloc_clocks :: int

definition no_fixups :: fixup_state where
  "no_fixups = \<lparr>resolved = [], fixup_counts = \<lambda>_. 0, spill_action_counts = \<lambda>_. 0, estimated_alloc_clocks = 0\<rparr>"

datatype rins_call =
    rins_ir nat
  | rins_asm asm_ins
  | rins_asm_fixup fixup_reason asm_ins
  | rins_asm_spill spill_action asm_ins
  | note_fixup fixup_reason

definition fn_push_resolved :: "resolved_insn \<Rightarrow> fixup_state \<Rightarrow> fixup_state" where
  "fn_push_resolved r s = s\<lparr>resolved := resolved s @ [r]\<rparr>"

definition count_fixup :: "fixup_reason \<Rightarrow> fixup_state \<Rightarrow> fixup_state" where
  "count_fixup r s = s\<lparr>fixup_counts := (fixup_counts s)(r := fixup_counts s r + 1)\<rparr>"

definition note_spill_action :: "spill_action \<Rightarrow> fixup_state \<Rightarrow> fixup_state" where
  "note_spill_action a s =
     s\<lparr>spill_action_counts := (spill_action_counts s)(a := spill_action_counts s a + 1),
       estimated_alloc_clocks := estimated_alloc_clocks s + spill_action_clock_cost a\<rparr>"

definition rins_perform :: "rins_call \<Rightarrow> fixup_state \<Rightarrow> fixup_state" where
  "rins_perform c s =
     (case c of
        rins_ir n \<Rightarrow> fn_push_resolved (RINS_IR n) s
      | rins_asm i \<Rightarrow> fn_push_resolved (RINS_ASM (asm_text i)) s
      | rins_asm_fixup r i \<Rightarrow> count_fixup r (fn_push_resolved (RINS_ASM (asm_text i)) s)
      | rins_asm_spill a i \<Rightarrow> note_spill_action a (fn_push_resolved (RINS_ASM (asm_text i)) s)
      | note_fixup r \<Rightarrow> count_fixup r s)"

definition rins_run :: "rins_call list \<Rightarrow> fixup_state \<Rightarrow> fixup_state" where
  "rins_run cs s = fold rins_perform cs s"

section \<open>Operands of virtual registers\<close>

definition valid_vreg :: "func \<Rightarrow> int \<Rightarrow> bool" where
  "valid_vreg fn v \<longleftrightarrow> 0 \<le> v \<and> v < int (nvregs fn)"

definition vr :: "func \<Rightarrow> int \<Rightarrow> vreg_info" where
  "vr fn v = vregs fn ! nat v"

definition is_spilled :: "func \<Rightarrow> int \<Rightarrow> bool" where
  "is_spilled fn v \<longleftrightarrow> valid_vreg fn v \<and> (spill_slot (vr fn v) \<ge> 0 \<or> is_stack_home (vr fn v))"

definition fn_asm_name :: "func \<Rightarrow> string" where
  "fn_asm_name fn =
     (if is_pub fn \<or> fn_module fn = [] then fn_name fn
      else snprintf_s 128 (fn_module fn @ ''_'' @ fn_name fn))"

definition resolve_const_label :: "func \<Rightarrow> string \<Rightarrow> string option" where
  "resolve_const_label fn nm =
     (if take 2 nm = ''_C'' then Some (snprintf_s 64 (fn_asm_name fn @ ''_'' @ nm)) else None)"

definition resolve_fn_name :: "nib_program \<Rightarrow> string \<Rightarrow> string" where
  "resolve_fn_name B nm =
     (case first_index (\<lambda>f. fn_name f = nm) (prog_functions B) of
        Some i \<Rightarrow> fn_asm_name (prog_functions B ! i)
      | None \<Rightarrow> nm)"

definition remat_asm_operand :: "nib_program \<Rightarrow> func \<Rightarrow> int \<Rightarrow> asm_arg" where
  "remat_asm_operand B fn v =
     (if \<not> (v \<ge> 0 \<and> vreg_has_remat fn (nat v)) then NoPlace v
      else case remat (vr fn v) of
             REMAT_IMM \<Rightarrow> Num (remat_imm (vr fn v))
           | REMAT_LABEL \<Rightarrow>
               (case resolve_const_label fn (remat_label (vr fn v)) of
                  Some l \<Rightarrow> Name l
                | None \<Rightarrow> Name (resolve_fn_name B (remat_label (vr fn v))))
           | REMAT_SEG_LABEL \<Rightarrow> SegName (resolve_fn_name B (remat_label (vr fn v)))
           | REMAT_NONE \<Rightarrow> NoPlace v)"

definition storage_is_remat :: "func \<Rightarrow> int \<Rightarrow> bool" where
  "storage_is_remat fn v \<longleftrightarrow> v \<ge> 0 \<and> vreg_storage_is_remat fn (nat v)"

definition spill_offset :: "vreg_info \<Rightarrow> int" where
  "spill_offset r = - (spill_slot r + 1) * 2 + spill_byte_offset r"

definition vreg_asm :: "nib_program \<Rightarrow> func \<Rightarrow> int \<Rightarrow> asm_arg" where
  "vreg_asm B fn v =
     (if v < 0 then Unknown
      else if assigned (vr fn v) \<noteq> PREG_NONE then Reg (assigned (vr fn v))
      else if storage_is_remat fn v then remat_asm_operand B fn v
      else if spill_slot (vr fn v) \<ge> 0 then BpSlot (spill_offset (vr fn v))
      else if is_stack_home (vr fn v) then BpSlot (stack_offset (vr fn v))
      else NoPlace v)"

section \<open>Single moves\<close>

definition rins_spill_load_to_reg :: "nib_program \<Rightarrow> func \<Rightarrow> int \<Rightarrow> int \<Rightarrow> rins_call list" where
  "rins_spill_load_to_reg B fn d src =
     (if storage_is_remat fn src then [rins_asm_spill SPILL_REMAT (Mov (Reg d) (remat_asm_operand B fn src))]
      else [rins_asm_spill SPILL_LOAD (Mov (Reg d) (vreg_asm B fn src))])"

definition rins_spill_store_from_reg :: "nib_program \<Rightarrow> func \<Rightarrow> int \<Rightarrow> int \<Rightarrow> rins_call list" where
  "rins_spill_store_from_reg B fn d src = [rins_asm_spill SPILL_STORE (Mov (vreg_asm B fn d) (Reg src))]"

abbreviation rins_spill_route_move :: "asm_arg \<Rightarrow> asm_arg \<Rightarrow> rins_call" where
  "rins_spill_route_move d s \<equiv> rins_asm_spill SPILL_MEM_ROUTE (Mov d s)"

abbreviation rins_push_scratch :: "int \<Rightarrow> rins_call" where
  "rins_push_scratch p \<equiv> rins_asm_spill SPILL_SCRATCH_SAVE (Push (Reg p))"

abbreviation rins_pop_scratch :: "int \<Rightarrow> rins_call" where
  "rins_pop_scratch p \<equiv> rins_asm_spill SPILL_SCRATCH_RESTORE (Pop (Reg p))"

definition rins_push_byte_vreg :: "nib_program \<Rightarrow> func \<Rightarrow> int \<Rightarrow> rins_call list" where
  "rins_push_byte_vreg B fn src =
     [rins_asm (Push (Reg PREG_AX))] @
     (if is_spilled fn src then rins_spill_load_to_reg B fn PREG_AL src
      else [rins_asm (Mov (Reg PREG_AL) (vreg_asm B fn src))]) @
     [rins_asm (Push (Reg PREG_BP)), rins_asm (Mov (Reg PREG_BP) (Reg PREG_SP)),
      rins_asm (Xchg (Reg PREG_AX) (BpSlot 2)), rins_asm (Pop (Reg PREG_BP))]"

definition rins_push_vreg_temp :: "nib_program \<Rightarrow> func \<Rightarrow> int \<Rightarrow> rins_call list" where
  "rins_push_vreg_temp B fn src =
     (if \<not> valid_vreg fn src then []
      else if is_byte (vr fn src) then rins_push_byte_vreg B fn src
      else if is_spilled fn src then [rins_asm_spill SPILL_MEM_ROUTE (Push (vreg_asm B fn src))]
      else [rins_asm (Push (vreg_asm B fn src))])"

text \<open>\<^verbatim>\<open>rins_push_ret_src\<close> has the same body.\<close>

definition rins_push_ret_src :: "nib_program \<Rightarrow> func \<Rightarrow> int \<Rightarrow> rins_call list" where
  "rins_push_ret_src B fn src =
     (if \<not> valid_vreg fn src then []
      else if is_byte (vr fn src) then rins_push_byte_vreg B fn src
      else if is_spilled fn src then [rins_asm_spill SPILL_MEM_ROUTE (Push (vreg_asm B fn src))]
      else [rins_asm (Push (vreg_asm B fn src))])"

definition rins_load_call_slot :: "nib_program \<Rightarrow> func \<Rightarrow> int \<Rightarrow> int \<Rightarrow> rins_call list" where
  "rins_load_call_slot B fn rv disp =
     (if \<not> valid_vreg fn rv then []
      else let byte = is_byte (vr fn rv); src = CallSlot disp
           in if is_seg (vr fn rv)
              then [rins_push_scratch PREG_AX, rins_spill_route_move (Reg PREG_AX) src,
                    rins_asm (Mov (vreg_asm B fn rv) (Reg PREG_AX)), rins_pop_scratch PREG_AX]
              else if is_spilled fn rv
              then let acc = (if byte then PREG_AL else PREG_AX)
                   in rins_spill_route_move (Reg acc) src # rins_spill_store_from_reg B fn rv acc
              else [rins_spill_route_move (vreg_asm B fn rv) src])"

definition preg_is_byte :: "int \<Rightarrow> bool" where
  "preg_is_byte p \<longleftrightarrow> p \<ge> PREG_AL \<and> p \<le> PREG_BH"

definition preg_is_word :: "int \<Rightarrow> bool" where
  "preg_is_word p \<longleftrightarrow> p \<ge> PREG_AX \<and> p \<le> PREG_DI"

definition rins_pop_ret_reg :: "int \<Rightarrow> rins_call list" where
  "rins_pop_ret_reg r =
     (if r = PREG_NONE then []
      else if preg_is_byte r
      then rins_asm (Pop (Reg PREG_AX)) # (if r \<noteq> PREG_AL then [rins_asm (Mov (Reg r) (Reg PREG_AL))] else [])
      else [rins_asm (Pop (Reg r))])"

definition rins_pop_bp_slot :: "int \<Rightarrow> bool \<Rightarrow> rins_call list" where
  "rins_pop_bp_slot off byte =
     (if byte then [rins_asm (Pop (Reg PREG_AX)), rins_asm (Mov (BpSlot off) (Reg PREG_AL))]
      else [rins_asm_spill SPILL_MEM_ROUTE (Pop (BpSlot off))])"

definition vreg_is_same_stack_slot :: "func \<Rightarrow> int \<Rightarrow> int \<Rightarrow> bool" where
  "vreg_is_same_stack_slot fn v off \<longleftrightarrow> valid_vreg fn v \<and> is_stack_home (vr fn v) \<and> stack_offset (vr fn v) = off"

text \<open>The move of a virtual register to a machine register: through the accumulator to a segment
  register, to the byte registers from a word, and to the words from a byte.\<close>

definition mov_to_segment :: "nib_program \<Rightarrow> func \<Rightarrow> int \<Rightarrow> int \<Rightarrow> rins_call list" where
  "mov_to_segment B fn expected src =
     (if assigned (vr fn src) = expected then []
      else [rins_push_scratch PREG_AX] @
           (if is_spilled fn src then rins_spill_load_to_reg B fn PREG_AX src
            else [rins_asm (Mov (Reg PREG_AX) (vreg_asm B fn src))]) @
           [rins_asm (Mov (Reg expected) (Reg PREG_AX)), rins_pop_scratch PREG_AX])"

definition mov_word_to_byte :: "func \<Rightarrow> int \<Rightarrow> int \<Rightarrow> rins_call list" where
  "mov_word_to_byte fn expected actual =
     (if actual \<ge> PREG_AX \<and> actual \<le> PREG_BX
      then if expected = preg_alias_lo actual then []
           else [rins_asm (Mov (Reg expected) (Reg (preg_alias_lo actual)))]
      else if expected = PREG_AL then [rins_asm (Mov (Reg PREG_AX) (Reg actual))]
      else [rins_push_scratch PREG_AX, rins_asm (Mov (Reg PREG_AX) (Reg actual)),
            rins_asm (Mov (Reg expected) (Reg PREG_AL)), rins_pop_scratch PREG_AX])"

definition mov_byte_to_word :: "nib_program \<Rightarrow> func \<Rightarrow> int \<Rightarrow> int \<Rightarrow> rins_call list" where
  "mov_byte_to_word B fn expected src =
     (let actual = assigned (vr fn src); arg = vreg_asm B fn src
      in if expected \<ge> PREG_AX \<and> expected \<le> PREG_BX
         then if is_spilled fn src then [rins_asm_spill SPILL_LOAD (Mov (Reg (preg_alias_lo expected)) arg)]
              else [rins_asm (Mov (Reg (preg_alias_lo expected)) arg)]
         else let parent = (if \<not> is_spilled fn src \<and> preg_is_byte actual then preg_alias_parent actual else PREG_NONE)
              in if parent \<ge> PREG_AX \<and> parent \<le> PREG_BX
                 then [rins_asm (Mov (Reg expected) (Reg parent)),
                       if actual = preg_alias_lo parent then rins_asm (Alu ''and'' (Reg expected) (Hex4 0x00FF))
                       else rins_asm (Alu ''shr'' (Reg expected) (Num 8))]
                 else [rins_push_scratch PREG_AX, rins_asm (Alu ''xor'' (Reg PREG_AX) (Reg PREG_AX))] @
                      (if is_spilled fn src then rins_spill_load_to_reg B fn PREG_AL src
                       else [rins_asm (Mov (Reg PREG_AL) arg)]) @
                      [rins_asm (Mov (Reg expected) (Reg PREG_AX)), rins_pop_scratch PREG_AX])"

definition rins_mov_preg_from_vreg :: "nib_program \<Rightarrow> func \<Rightarrow> int \<Rightarrow> int \<Rightarrow> rins_call list" where
  "rins_mov_preg_from_vreg B fn expected src =
     (if \<not> valid_vreg fn src \<or> expected = PREG_NONE then []
      else let actual = assigned (vr fn src)
           in if storage_is_remat fn src
              then [rins_asm_spill SPILL_REMAT (Mov (Reg expected) (remat_asm_operand B fn src))]
              else if expected \<ge> PREG_ES \<and> expected \<le> PREG_DS then mov_to_segment B fn expected src
              else if preg_is_byte expected \<and> \<not> is_spilled fn src \<and> preg_is_word actual
              then mov_word_to_byte fn expected actual
              else if \<not> preg_is_byte expected \<and> (is_byte (vr fn src) \<or> preg_is_byte actual) \<and> preg_is_word expected
              then mov_byte_to_word B fn expected src
              else if is_spilled fn src then rins_spill_load_to_reg B fn expected src
              else [rins_asm (Mov (Reg expected) (vreg_asm B fn src))])"

section \<open>The planner\<close>

record planned_move =
  pm_dst_reg :: int
  pm_src_vreg :: int
  pm_src_dep_reg :: int
  pm_clobber_reg :: int
  pm_reason :: fixup_reason
  pm_done :: bool
  pm_saved :: bool

definition planned_move_source_dep_reg :: "func \<Rightarrow> int \<Rightarrow> int" where
  "planned_move_source_dep_reg fn src =
     (if \<not> valid_vreg fn src then PREG_NONE
      else if assigned (vr fn src) \<noteq> PREG_NONE then assigned (vr fn src)
      else if spill_slot (vr fn src) \<ge> 0 \<or> is_stack_home (vr fn src) then PREG_BP
      else PREG_NONE)"

definition planned_move_clobber_reg :: "func \<Rightarrow> int \<Rightarrow> int \<Rightarrow> int" where
  "planned_move_clobber_reg fn expected src =
     (if \<not> valid_vreg fn src \<or> expected = PREG_NONE then PREG_NONE
      else let actual = assigned (vr fn src)
           in if expected \<ge> PREG_ES \<and> expected \<le> PREG_DS then expected
              else if preg_is_byte expected \<and> \<not> is_spilled fn src \<and> preg_is_word actual
              then if actual \<ge> PREG_AX \<and> actual \<le> PREG_BX then expected
                   else if expected = PREG_AL then PREG_AX else expected
              else if \<not> preg_is_byte expected \<and> (is_byte (vr fn src) \<or> preg_is_byte actual) \<and> preg_is_word expected
              then if expected \<ge> PREG_AX \<and> expected \<le> PREG_BX then preg_alias_lo expected else expected
              else expected)"

definition plan_move :: "func \<Rightarrow> fixup_reason \<Rightarrow> int \<Rightarrow> int \<Rightarrow> planned_move" where
  "plan_move fn reason d src =
     \<lparr>pm_dst_reg = d, pm_src_vreg = src, pm_src_dep_reg = planned_move_source_dep_reg fn src,
      pm_clobber_reg = planned_move_clobber_reg fn d src, pm_reason = reason, pm_done = False, pm_saved = False\<rparr>"

text \<open>A move is free when it clobbers no source of another move that is still to be done.\<close>

definition clobbers_pending_src :: "planned_move list \<Rightarrow> nat \<Rightarrow> bool" where
  "clobbers_pending_src ms i \<longleftrightarrow>
     list_ex (\<lambda>j. i \<noteq> j \<and> \<not> pm_done (ms ! j) \<and>
                  preg_write_clobbers (pm_clobber_reg (ms ! i)) (pm_src_dep_reg (ms ! j))) [0..<length ms]"

definition pick_free_move :: "planned_move list \<Rightarrow> nat option" where
  "pick_free_move ms =
     find (\<lambda>i. \<not> pm_done (ms ! i) \<and> \<not> clobbers_pending_src ms i) [0..<length ms]"

definition dst_in_ax :: "planned_move \<Rightarrow> bool" where
  "dst_in_ax m \<longleftrightarrow> preg_is_byte (pm_dst_reg m) \<and> preg_alias_parent (pm_dst_reg m) = PREG_AX"

definition pick_saved_move :: "planned_move list \<Rightarrow> nat option" where
  "pick_saved_move ms =
     (case find (\<lambda>i. \<not> pm_done (ms ! i) \<and> \<not> dst_in_ax (ms ! i)) [0..<length ms] of
        Some i \<Rightarrow> Some i
      | None \<Rightarrow> find (\<lambda>i. \<not> pm_done (ms ! i)) [0..<length ms])"

text \<open>The loop runs until every move is done or saved on the stack; the first argument is the number
  of moves that are left.\<close>

fun plan_loop :: "nib_program \<Rightarrow> func \<Rightarrow> nat \<Rightarrow> planned_move list \<Rightarrow> rins_call list \<times> planned_move list" where
  "plan_loop B fn 0 ms = ([], ms)"
| "plan_loop B fn (Suc left) ms =
     (case pick_free_move ms of
        Some i \<Rightarrow>
          (let (cs, ms') = plan_loop B fn left (ms[i := (ms ! i)\<lparr>pm_done := True\<rparr>])
           in (note_fixup (pm_reason (ms ! i)) #
               rins_mov_preg_from_vreg B fn (pm_dst_reg (ms ! i)) (pm_src_vreg (ms ! i)) @ cs, ms'))
      | None \<Rightarrow>
          (case pick_saved_move ms of
             None \<Rightarrow> ([], ms)
           | Some i \<Rightarrow>
               (let (cs, ms') = plan_loop B fn left (ms[i := (ms ! i)\<lparr>pm_done := True, pm_saved := True\<rparr>])
                in (note_fixup (pm_reason (ms ! i)) # rins_push_vreg_temp B fn (pm_src_vreg (ms ! i)) @ cs, ms'))))"

text \<open>The values that were saved are popped in reverse order.\<close>

definition pop_saved :: "planned_move \<Rightarrow> rins_call list" where
  "pop_saved m =
     (let fix = rins_asm_fixup (pm_reason m)
      in if \<not> pm_saved m then []
         else if preg_is_byte (pm_dst_reg m)
         then if preg_alias_parent (pm_dst_reg m) = PREG_AX then [fix (Pop (Reg PREG_AX))]
              else [fix (Push (Reg PREG_BP)), fix (Mov (Reg PREG_BP) (Reg PREG_SP)),
                    fix (Xchg (Reg PREG_AX) (BpSlot 2)), fix (Mov (Reg (pm_dst_reg m)) (Reg PREG_AL)),
                    fix (Pop (Reg PREG_BP)), fix (Pop (Reg PREG_AX))]
         else [fix (Pop (Reg (pm_dst_reg m)))])"

definition emit_planned_register_moves :: "nib_program \<Rightarrow> func \<Rightarrow> planned_move list \<Rightarrow> rins_call list" where
  "emit_planned_register_moves B fn ms =
     (let (cs, ms') = plan_loop B fn (length ms) ms
      in cs @ concat (map pop_saved (rev ms')))"

section \<open>Arguments of a call\<close>

definition call_arg_vreg :: "ir_insn \<Rightarrow> nat \<Rightarrow> int" where
  "call_arg_vreg ins a = (if a = 0 then src1 ins else if a = 1 then src2 ins else ins_extra_arg ins (int a - 2))"

definition callee_nparams :: "nib_program \<Rightarrow> callee \<Rightarrow> nat" where
  "callee_nparams B c =
     (case c of Callee_fn fi \<Rightarrow> length (param_vregs (prog_functions B ! fi))
      | Callee_ext e \<Rightarrow> length (ext_param_places (externs B ! e)) | Callee_none \<Rightarrow> 0)"

definition param_place :: "nib_program \<Rightarrow> callee \<Rightarrow> nat \<Rightarrow> abi_place" where
  "param_place B c a =
     (case c of Callee_fn fi \<Rightarrow> fa_param_places (fn_assigns B ! fi) ! a
      | Callee_ext e \<Rightarrow> ext_param_places (externs B ! e) ! a | Callee_none \<Rightarrow> ABI_PLACE_DEFAULT)"

definition param_reg :: "nib_program \<Rightarrow> callee \<Rightarrow> nat \<Rightarrow> int" where
  "param_reg B c a =
     (case c of Callee_fn fi \<Rightarrow> fa_param_regs (fn_assigns B ! fi) ! a
      | Callee_ext e \<Rightarrow> ext_param_pins (externs B ! e) ! a | Callee_none \<Rightarrow> PREG_NONE)"

text \<open>The arguments that are passed in registers: the register that the callee expects, and the
  virtual register of the argument.\<close>

definition register_args :: "nib_program \<Rightarrow> func \<Rightarrow> ir_insn \<Rightarrow> callee \<Rightarrow> bool \<Rightarrow> (int \<times> int) list" where
  "register_args B fn ins c indirect =
     filter (\<lambda>(expected, v). expected \<noteq> PREG_NONE \<and> valid_vreg fn v)
       (map (\<lambda>a. (param_reg B c a, if indirect then ins_extra_arg ins (int a) else call_arg_vreg ins a))
          (filter (\<lambda>a. param_place B c a \<noteq> ABI_PLACE_STACK) [0..<min (nat (nargs ins)) (callee_nparams B c)]))"

definition needs_move :: "func \<Rightarrow> int \<times> int \<Rightarrow> bool" where
  "needs_move fn = (\<lambda>(expected, v). \<not> (assigned (vr fn v) = expected \<or> pregs_alias (assigned (vr fn v)) expected))"

definition emit_call_arg_register_moves ::
    "nib_program \<Rightarrow> func \<Rightarrow> ir_insn \<Rightarrow> callee \<Rightarrow> bool \<Rightarrow> rins_call list" where
  "emit_call_arg_register_moves B fn ins c indirect =
     emit_planned_register_moves B fn
       (map (\<lambda>(expected, v). plan_move fn FIXUP_CALL_ARG expected v)
          (filter (needs_move fn) (register_args B fn ins c indirect)))"

end
