(* ===== verification/Bind_Machine.thy ===== *)
theory Bind_Machine
  imports Bind_Moves
begin

text \<open>
  The machine on which the moves of \<open>Bind_Moves\<close> run: the registers are byte cells, so that the halves
  of a word register overlap it as \<open>preg_bytes\<close> says, and the stack segment is an array of bytes with
  16-bit addresses that wrap around. The values of labels are a parameter.
\<close>

section \<open>Words and bytes\<close>

definition join :: "8 word \<Rightarrow> 8 word \<Rightarrow> 16 word" where
  "join l h = ucast l OR push_bit 8 (ucast h)"

definition lo8 :: "16 word \<Rightarrow> 8 word" where
  "lo8 w = ucast w"

definition hi8 :: "16 word \<Rightarrow> 8 word" where
  "hi8 w = ucast (drop_bit 8 w)"

lemmas byte_bits = join_def lo8_def hi8_def bit_simps

lemma lo8_join [simp]: "lo8 (join l h) = l"
  by (rule bit_word_eqI) (auto simp: byte_bits)

lemma hi8_join [simp]: "hi8 (join l h) = h"
  by (rule bit_word_eqI) (auto simp: byte_bits dest: bit_imp_le_length)

lemma join_lo8_hi8 [simp]: "join (lo8 w) (hi8 w) = w"
  by (rule bit_word_eqI) (auto simp: byte_bits)

lemma lo8_ucast [simp]: "lo8 (ucast b) = b"
  by (rule bit_word_eqI) (auto simp: byte_bits)

lemma lo8_mask [simp]: "lo8 (w AND 255) = lo8 w"
proof -
  have m: "(255 :: 8 word) = - 1" by simp
  have "lo8 (w AND 255) = lo8 w AND 255" by (simp add: lo8_def unsigned_and_eq)
  then show ?thesis unfolding m by simp
qed

lemma lo8_drop [simp]: "lo8 (drop_bit 8 w) = hi8 w"
  by (simp add: lo8_def hi8_def)

section \<open>State\<close>

record machine =
  cell :: "int \<Rightarrow> 8 word"
  ssmem :: "16 word \<Rightarrow> 8 word"

text \<open>The cells of \<open>preg_bytes\<close>: \<open>2r\<close> is the low half of the word register \<open>r\<close>.\<close>

definition get_reg :: "machine \<Rightarrow> int \<Rightarrow> 16 word" where
  "get_reg m p =
     (if p \<ge> PREG_AL \<and> p \<le> PREG_BL then ucast (cell m (2 * (p - 8)))
      else if p \<ge> PREG_AH \<and> p \<le> PREG_BH then ucast (cell m (2 * (p - 12) + 1))
      else join (cell m (2 * p)) (cell m (2 * p + 1)))"

definition set_reg :: "int \<Rightarrow> 16 word \<Rightarrow> machine \<Rightarrow> machine" where
  "set_reg p w m =
     (if p \<ge> PREG_AL \<and> p \<le> PREG_BL then m\<lparr>cell := (cell m)(2 * (p - 8) := lo8 w)\<rparr>
      else if p \<ge> PREG_AH \<and> p \<le> PREG_BH then m\<lparr>cell := (cell m)(2 * (p - 12) + 1 := lo8 w)\<rparr>
      else m\<lparr>cell := (cell m)(2 * p := lo8 w, 2 * p + 1 := hi8 w)\<rparr>)"

definition load_word :: "machine \<Rightarrow> 16 word \<Rightarrow> 16 word" where
  "load_word m a = join (ssmem m a) (ssmem m (a + 1))"

definition store_word :: "16 word \<Rightarrow> 16 word \<Rightarrow> machine \<Rightarrow> machine" where
  "store_word a w m = m\<lparr>ssmem := (ssmem m)(a := lo8 w, a + 1 := hi8 w)\<rparr>"

section \<open>Instructions\<close>

type_synonym label_env = "asm_arg \<Rightarrow> 16 word"

definition slot_addr :: "machine \<Rightarrow> asm_arg \<Rightarrow> 16 word" where
  "slot_addr m a =
     (case a of BpSlot off \<Rightarrow> get_reg m PREG_BP + word_of_int off | CallSlot d \<Rightarrow> get_reg m PREG_BX + word_of_int d | _ \<Rightarrow> 0)"

text \<open>The value of an operand; a byte is read from memory when the other operand is a byte register.\<close>

fun read_arg :: "label_env \<Rightarrow> bool \<Rightarrow> machine \<Rightarrow> asm_arg \<Rightarrow> 16 word" where
  "read_arg L byte m (Reg p) = get_reg m p"
| "read_arg L byte m (BpSlot off) =
     (let a = slot_addr m (BpSlot off) in if byte then ucast (ssmem m a) else load_word m a)"
| "read_arg L byte m (CallSlot d) =
     (let a = slot_addr m (CallSlot d) in if byte then ucast (ssmem m a) else load_word m a)"
| "read_arg L byte m (Num n) = word_of_int n"
| "read_arg L byte m (Hex4 n) = word_of_int n"
| "read_arg L byte m x = L x"

fun write_arg :: "bool \<Rightarrow> asm_arg \<Rightarrow> 16 word \<Rightarrow> machine \<Rightarrow> machine option" where
  "write_arg byte (Reg p) w m = Some (set_reg p w m)"
| "write_arg byte (BpSlot off) w m =
     (let a = slot_addr m (BpSlot off)
      in Some (if byte then m\<lparr>ssmem := (ssmem m)(a := lo8 w)\<rparr> else store_word a w m))"
| "write_arg byte (CallSlot d) w m =
     (let a = slot_addr m (CallSlot d)
      in Some (if byte then m\<lparr>ssmem := (ssmem m)(a := lo8 w)\<rparr> else store_word a w m))"
| "write_arg byte _ w m = None"

fun byte_arg :: "asm_arg \<Rightarrow> bool" where
  "byte_arg (Reg p) = preg_is_byte p"
| "byte_arg _ = False"

definition push_word :: "16 word \<Rightarrow> machine \<Rightarrow> machine" where
  "push_word w m = (let sp = get_reg m PREG_SP - 2 in set_reg PREG_SP sp (store_word sp w m))"

text \<open>One register of \<^verbatim>\<open>popa\<close>, which drops the word that was pushed for SP.\<close>

definition pop_into :: "int \<Rightarrow> machine \<Rightarrow> machine" where
  "pop_into p m =
     (let sp = get_reg m PREG_SP; m' = set_reg PREG_SP (sp + 2) m
      in if p = PREG_SP then m' else set_reg p (load_word m sp) m')"

definition pusha_order :: "int list" where
  "pusha_order = [PREG_AX, PREG_CX, PREG_DX, PREG_BX, PREG_SP, PREG_BP, PREG_SI, PREG_DI]"

fun exec_ins :: "label_env \<Rightarrow> asm_ins \<Rightarrow> machine \<Rightarrow> machine option" where
  "exec_ins L (Mov a b) m =
     (let byte = byte_arg a \<or> byte_arg b in write_arg byte a (read_arg L byte m b) m)"
| "exec_ins L (Push a) m = (if byte_arg a then None else Some (push_word (read_arg L False m a) m))"
| "exec_ins L (Pop a) m =
     (let sp = get_reg m PREG_SP; w = load_word m sp
      in if byte_arg a then None else write_arg False a w (set_reg PREG_SP (sp + 2) m))"
| "exec_ins L (Xchg a b) m =
     (let byte = byte_arg a \<or> byte_arg b; x = read_arg L byte m a; y = read_arg L byte m b
      in case write_arg byte b x m of None \<Rightarrow> None | Some m \<Rightarrow> write_arg byte a y m)"
| "exec_ins L (Alu nm a b) m =
     (let byte = byte_arg a \<or> byte_arg b; x = read_arg L byte m a; y = read_arg L byte m b
      in if nm = ''and'' then write_arg byte a (x AND y) m
         else if nm = ''xor'' then write_arg byte a (x XOR y) m
         else if nm = ''shr'' then write_arg byte a (drop_bit (unat y) x) m
         else None)"
| "exec_ins L (Jmp a) m = None"
| "exec_ins L (Plain s) m =
     (if s = ''pusha'' then Some (fold push_word (map (get_reg m) pusha_order) m)
      else if s = ''popa'' then Some (fold pop_into (rev pusha_order) m)
      else None)"

fun exec_list :: "label_env \<Rightarrow> asm_ins list \<Rightarrow> machine \<Rightarrow> machine option" where
  "exec_list L [] m = Some m"
| "exec_list L (i # is) m = (case exec_ins L i m of None \<Rightarrow> None | Some m' \<Rightarrow> exec_list L is m')"

lemma exec_append: "exec_list L (xs @ ys) m = (case exec_list L xs m of None \<Rightarrow> None | Some m' \<Rightarrow> exec_list L ys m')"
  by (induction xs arbitrary: m) (auto split: option.splits)

text \<open>The lines among the calls that write to the resolved stream.\<close>

fun lines_of :: "rins_call list \<Rightarrow> asm_ins list" where
  "lines_of [] = []"
| "lines_of (rins_ir n # cs) = lines_of cs"
| "lines_of (rins_asm i # cs) = i # lines_of cs"
| "lines_of (rins_asm_fixup r i # cs) = i # lines_of cs"
| "lines_of (rins_asm_spill a i # cs) = i # lines_of cs"
| "lines_of (note_fixup r # cs) = lines_of cs"

lemma lines_of_append [simp]: "lines_of (xs @ ys) = lines_of xs @ lines_of ys"
  by (induction xs rule: lines_of.induct) auto

text \<open>The stream of a function: what an instruction itself does is a parameter.\<close>

fun run_stream :: "label_env \<Rightarrow> (nat \<Rightarrow> machine \<Rightarrow> machine option) \<Rightarrow> rins_call list \<Rightarrow> machine \<Rightarrow> machine option" where
  "run_stream L step [] m = Some m"
| "run_stream L step (rins_ir n # cs) m = (case step n m of None \<Rightarrow> None | Some m' \<Rightarrow> run_stream L step cs m')"
| "run_stream L step (rins_asm i # cs) m = (case exec_ins L i m of None \<Rightarrow> None | Some m' \<Rightarrow> run_stream L step cs m')"
| "run_stream L step (rins_asm_fixup r i # cs) m = (case exec_ins L i m of None \<Rightarrow> None | Some m' \<Rightarrow> run_stream L step cs m')"
| "run_stream L step (rins_asm_spill a i # cs) m = (case exec_ins L i m of None \<Rightarrow> None | Some m' \<Rightarrow> run_stream L step cs m')"
| "run_stream L step (note_fixup r # cs) m = run_stream L step cs m"

lemma run_append: "run_stream L step (xs @ ys) m = (case run_stream L step xs m of None \<Rightarrow> None | Some m' \<Rightarrow> run_stream L step ys m')"
  by (induction L step xs m rule: run_stream.induct) (auto split: option.splits)

definition no_ir :: "rins_call list \<Rightarrow> bool" where
  "no_ir cs \<longleftrightarrow> (\<forall>n. rins_ir n \<notin> set cs)"

lemma run_lines: "no_ir cs \<Longrightarrow> run_stream L step cs m = exec_list L (lines_of cs) m"
  by (induction L step cs m rule: run_stream.induct) (auto simp: no_ir_def split: option.splits)

section \<open>Registers as cells\<close>

text \<open>Two machines agree on a set of cells.\<close>

definition same_cells :: "int set \<Rightarrow> machine \<Rightarrow> machine \<Rightarrow> bool" where
  "same_cells A m m' \<longleftrightarrow> (\<forall>c\<in>A. cell m' c = cell m c)"

lemma cell_set_reg: "c \<notin> preg_bytes p \<Longrightarrow> 0 \<le> p \<Longrightarrow> cell (set_reg p w m) c = cell m c"
  by (auto simp: set_reg_def preg_bytes_def)

lemma ssmem_set_reg [simp]: "ssmem (set_reg p w m) = ssmem m"
  by (simp add: set_reg_def)

lemma cell_store_word [simp]: "cell (store_word a w m) = cell m"
  by (simp add: store_word_def)

lemma get_reg_cong: "(\<And>c. c \<in> preg_bytes p \<Longrightarrow> cell m c = cell m' c) \<Longrightarrow> 0 \<le> p \<Longrightarrow> get_reg m p = get_reg m' p"
  by (auto simp: get_reg_def preg_bytes_def)

lemma get_reg_store_word [simp]: "get_reg (store_word a w m) p = get_reg m p"
  by (simp add: get_reg_def)

lemma get_set_other: "preg_bytes p \<inter> preg_bytes q = {} \<Longrightarrow> 0 \<le> p \<Longrightarrow> 0 \<le> q \<Longrightarrow> get_reg (set_reg q w m) p = get_reg m p"
  by (rule get_reg_cong) (auto intro: cell_set_reg)

lemma get_set_word: "\<not> preg_is_byte p \<Longrightarrow> get_reg (set_reg p w m) p = w"
  by (auto simp: get_reg_def set_reg_def preg_is_byte_def)

lemma get_set_byte: "preg_is_byte p \<Longrightarrow> get_reg (set_reg p w m) p = ucast (lo8 w)"
  by (auto simp: get_reg_def set_reg_def preg_is_byte_def)

end
