(* ===== verification/Bind_Moves_Facts.thy ===== *)
theory Bind_Moves_Facts
  imports Bind_Machine
begin

text \<open>
  The planner of register moves performs a parallel assignment: after its code every destination has
  the value that its source had before, and nothing but the destinations and the memory below the
  stack pointer has changed. \<open>move_code\<close> is about one move, \<open>push_code\<close> and \<open>pop_code\<close>
  about a value that waits on the stack; the invariant of the loop puts them together.
\<close>

section \<open>Addresses below the stack pointer\<close>

definition below :: "16 word \<Rightarrow> nat \<Rightarrow> 16 word set" where
  "below s d = (\<lambda>k. s - of_nat k) ` {1..d}"

lemma below_mono: "d \<le> e \<Longrightarrow> below s d \<subseteq> below s e"
  by (auto simp: below_def)

lemma below_shift: "below (s - of_nat k) d \<subseteq> below s (k + d)"
proof
  fix a
  assume "a \<in> below (s - of_nat k) d"
  then obtain j where "1 \<le> j" "j \<le> d" "a = s - of_nat k - of_nat j" by (auto simp: below_def)
  then have "a = s - of_nat (k + j)" "k + j \<in> {1..k + d}" by auto
  then show "a \<in> below s (k + d)" unfolding below_def by blast
qed

lemma above_not_below:
  assumes "i + d < 65536"
  shows "s + of_nat i \<notin> below s d"
proof
  assume "s + of_nat i \<in> below s d"
  then obtain k where k: "1 \<le> k" "k \<le> d" "s + of_nat i = s - of_nat k" by (auto simp: below_def)
  then have "(of_nat (i + k) :: 16 word) = 0" by (simp add: algebra_simps eq_neg_iff_add_eq_0)
  then have "uint (of_nat (i + k) :: 16 word) = 0" by simp
  then have "(i + k) mod 65536 = 0" by (simp add: unsigned_of_nat take_bit_eq_mod zmod_int [symmetric] del: of_nat_add)
  with k assms show False by simp
qed

lemma belowI: "1 \<le> k \<Longrightarrow> k \<le> d \<Longrightarrow> a = s - of_nat k \<Longrightarrow> a \<in> below s d"
  by (auto simp: below_def)

section \<open>Reading and writing registers\<close>

text \<open>The registers that moves deal with: the words but the stack pointer, their halves, and ES, DS.\<close>

definition plain_reg :: "int \<Rightarrow> bool" where
  "plain_reg p \<longleftrightarrow> 0 \<le> p \<and> p \<le> 19 \<and> p \<noteq> PREG_SP"

lemma plain_reg_bytes:
  assumes "plain_reg p"
  shows "8 \<notin> preg_bytes p" "9 \<notin> preg_bytes p"
  using assms by (auto simp: plain_reg_def preg_bytes_def)

lemma bytes_nums [simp]:
  "preg_bytes 0 = {0, 1}" "preg_bytes 3 = {6, 7}" "preg_bytes 4 = {8, 9}" "preg_bytes 5 = {10, 11}"
  "preg_bytes 8 = {0}" "preg_bytes 12 = {1}"
  by (auto simp: preg_bytes_def)

lemma cell_set_sp [simp]: "c \<noteq> 8 \<Longrightarrow> c \<noteq> 9 \<Longrightarrow> cell (set_reg 4 w m) c = cell m c"
  by (simp add: set_reg_def)

lemma get_set_sp [simp]: "plain_reg p \<Longrightarrow> get_reg (set_reg 4 w m) p = get_reg m p"
proof -
  assume p: "plain_reg p"
  show ?thesis
  proof (rule get_reg_cong)
    fix c
    assume "c \<in> preg_bytes p"
    with plain_reg_bytes [OF p] have "c \<noteq> 8" "c \<noteq> 9" by auto
    then show "cell (set_reg 4 w m) c = cell m c" by simp
  qed (use p in \<open>simp add: plain_reg_def\<close>)
qed

lemma get_sp [simp]: "get_reg (set_reg 4 w m) 4 = w"
  by (simp add: get_set_word preg_is_byte_def)

lemma sp_set_reg [simp]: "plain_reg p \<Longrightarrow> get_reg (set_reg p w m) 4 = get_reg m 4"
  by (rule get_reg_cong) (auto simp: plain_reg_bytes plain_reg_def intro!: cell_set_reg)

lemma plain_nums [simp]: "plain_reg 0" "plain_reg 3" "plain_reg 5" "plain_reg 8" "\<not> plain_reg 4"
  by (simp_all add: plain_reg_def)

section \<open>One move\<close>

text \<open>Where a virtual register is, and the destinations that fit it. A word does not fit a byte
  register.\<close>

definition has_place :: "func \<Rightarrow> int \<Rightarrow> bool" where
  "has_place fn v \<longleftrightarrow>
     valid_vreg fn v \<and>
     (if assigned (vr fn v) = PREG_NONE then storage_is_remat fn v \<or> is_spilled fn v
      else plain_reg (assigned (vr fn v)) \<and> preg_is_byte (assigned (vr fn v)) = is_byte (vr fn v) \<and> \<not> is_spilled fn v)"

definition dst_fits :: "func \<Rightarrow> int \<Rightarrow> int \<Rightarrow> bool" where
  "dst_fits fn d v \<longleftrightarrow>
     plain_reg d \<and> d \<noteq> 17 \<and> d \<noteq> 18 \<and> (preg_is_byte d \<longrightarrow> is_byte (vr fn v)) \<and>
     (storage_is_remat fn v \<longrightarrow> preg_is_byte d = is_byte (vr fn v)) \<and>
     (d = PREG_ES \<or> d = PREG_DS \<longrightarrow> \<not> is_byte (vr fn v) \<and> \<not> storage_is_remat fn v)"

definition value_of :: "label_env \<Rightarrow> nib_program \<Rightarrow> func \<Rightarrow> machine \<Rightarrow> int \<Rightarrow> 16 word" where
  "value_of L B fn m v = read_arg L (is_byte (vr fn v)) m (vreg_asm B fn v)"

text \<open>A byte is in the low half of what holds it.\<close>

definition same_value :: "bool \<Rightarrow> 16 word \<Rightarrow> 16 word \<Rightarrow> bool" where
  "same_value byte x y \<longleftrightarrow> (if byte then lo8 x = lo8 y else x = y)"

text \<open>The slot of a virtual register is not in the memory below the stack pointer.\<close>

definition slot_clear :: "nib_program \<Rightarrow> func \<Rightarrow> machine \<Rightarrow> nat \<Rightarrow> int \<Rightarrow> bool" where
  "slot_clear B fn m d v \<longleftrightarrow>
     (case vreg_asm B fn v of
        BpSlot off \<Rightarrow> (let a = slot_addr m (BpSlot off) in a \<notin> below (get_reg m PREG_SP) d \<and> a + 1 \<notin> below (get_reg m PREG_SP) d)
      | _ \<Rightarrow> True)"

text \<open>Reading depends on the cells of the source register only, and on the slot.\<close>

lemma source_cases:
  assumes "has_place fn v"
  obtains (reg) p where "vreg_asm B fn v = Reg p" "p = assigned (vr fn v)" "plain_reg p" "preg_is_byte p = is_byte (vr fn v)"
      "planned_move_source_dep_reg fn v = p" "\<not> is_spilled fn v" "\<not> storage_is_remat fn v"
    | (slot) off where "vreg_asm B fn v = BpSlot off" "assigned (vr fn v) = -1" "planned_move_source_dep_reg fn v = PREG_BP"
      "is_spilled fn v" "\<not> storage_is_remat fn v"
    | (remat) "vreg_asm B fn v = remat_asm_operand B fn v" "assigned (vr fn v) = -1" "storage_is_remat fn v" "\<not> is_spilled fn v"
      "\<And>byte m m'. read_arg L byte m (remat_asm_operand B fn v) = read_arg L False m' (remat_asm_operand B fn v)"
      "byte_arg (remat_asm_operand B fn v) = False"
proof (cases "assigned (vr fn v) = -1")
  case False
  with assms show ?thesis
    by (intro reg [of "assigned (vr fn v)"])
      (auto simp: has_place_def valid_vreg_def vreg_asm_def plain_reg_def planned_move_source_dep_reg_def
        storage_is_remat_def vreg_storage_is_remat_def vr_def)
next
  case True
  show ?thesis
  proof (cases "storage_is_remat fn v")
    case rm: True
    then have s: "\<not> is_spilled fn v"
      by (auto simp: is_spilled_def storage_is_remat_def vreg_storage_is_remat_def vr_def)
    have r: "read_arg L byte m (remat_asm_operand B fn v) = read_arg L False m' (remat_asm_operand B fn v)" for byte m m'
      by (auto simp: remat_asm_operand_def split: remat_kind.splits option.splits)
    have b: "byte_arg (remat_asm_operand B fn v) = False"
      by (auto simp: remat_asm_operand_def split: remat_kind.splits option.splits)
    have a: "vreg_asm B fn v = remat_asm_operand B fn v"
      using True rm by (auto simp: vreg_asm_def storage_is_remat_def)
    show ?thesis by (rule remat [OF a True rm s r b])
  next
    case nr: False
    with True assms have s: "is_spilled fn v" by (simp add: has_place_def)
    then have "\<exists>off. vreg_asm B fn v = BpSlot off"
      using True nr by (auto simp: vreg_asm_def is_spilled_def valid_vreg_def)
    then obtain off where off: "vreg_asm B fn v = BpSlot off" ..
    have "planned_move_source_dep_reg fn v = PREG_BP"
      using s True by (auto simp: planned_move_source_dep_reg_def is_spilled_def)
    from slot [OF off True this s nr] show ?thesis .
  qed
qed

text \<open>What a piece of code may change: some cells, and some bytes below the stack pointer.\<close>

definition touches :: "int set \<Rightarrow> nat \<Rightarrow> machine \<Rightarrow> machine \<Rightarrow> bool" where
  "touches C d m m' \<longleftrightarrow>
     (\<forall>c. c \<notin> C \<longrightarrow> cell m' c = cell m c) \<and> (\<forall>a. a \<notin> below (get_reg m PREG_SP) d \<longrightarrow> ssmem m' a = ssmem m a)"

lemma touches_set_reg: "0 \<le> p \<Longrightarrow> touches (preg_bytes p) d m (set_reg p w m)"
  by (auto simp: touches_def cell_set_reg)

lemma touches_mono: "touches C d m m' \<Longrightarrow> C \<subseteq> C' \<Longrightarrow> d \<le> d' \<Longrightarrow> touches C' d' m m'"
  unfolding touches_def using below_mono by blast

lemma touches_reg: "touches C d m m' \<Longrightarrow> 0 \<le> p \<Longrightarrow> preg_bytes p \<inter> C = {} \<Longrightarrow> get_reg m' p = get_reg m p"
  by (rule get_reg_cong) (auto simp: touches_def)

lemma push_cells [simp]: "c \<noteq> 8 \<Longrightarrow> c \<noteq> 9 \<Longrightarrow> cell (push_word w m) c = cell m c"
  by (simp add: push_word_def Let_def)

lemma push_sp [simp]: "get_reg (push_word w m) 4 = get_reg m 4 - 2"
  by (simp add: push_word_def Let_def)

lemma push_reg [simp]: "plain_reg p \<Longrightarrow> get_reg (push_word w m) p = get_reg m p"
  by (simp add: push_word_def Let_def)

lemma push_mem: "a \<notin> below (get_reg m 4) 2 \<Longrightarrow> ssmem (push_word w m) a = ssmem m a"
  using belowI [of 2 2 a "get_reg m 4"] belowI [of 1 2 a "get_reg m 4"]
  by (auto simp: push_word_def store_word_def Let_def)

lemma push_top [simp]: "load_word (push_word w m) (get_reg m 4 - 2) = w"
  by (simp add: push_word_def store_word_def load_word_def Let_def)

lemma ssmem_word: "load_word m a = join (ssmem m a) (ssmem m (a + 1))"
  by (simp add: load_word_def)

text \<open>A value is read as before when its registers and its slot are unchanged.\<close>

lemma value_cong:
  assumes v: "has_place fn v"
    and c: "\<forall>c\<in>preg_bytes (planned_move_source_dep_reg fn v). cell m' c = cell m c"
    and a: "\<forall>a. a \<notin> below (get_reg m PREG_SP) d \<longrightarrow> ssmem m' a = ssmem m a"
    and s: "slot_clear B fn m d v"
  shows "value_of L B fn m' v = value_of L B fn m v"
  using v
proof (cases rule: source_cases [where B = B and L = L])
  case (reg p)
  then have "get_reg m' p = get_reg m p" using c by (intro get_reg_cong) (auto simp: plain_reg_def)
  with reg show ?thesis by (simp add: value_of_def)
next
  case (slot off)
  then have bp: "get_reg m' 5 = get_reg m 5" using c by (intro get_reg_cong) auto
  have "ssmem m' (slot_addr m (BpSlot off)) = ssmem m (slot_addr m (BpSlot off))"
    "ssmem m' (slot_addr m (BpSlot off) + 1) = ssmem m (slot_addr m (BpSlot off) + 1)"
    using s a slot(1) by (auto simp: slot_clear_def Let_def)
  with bp slot(1) show ?thesis by (simp add: value_of_def slot_addr_def load_word_def Let_def)
next
  case remat
  then show ?thesis by (metis value_of_def)
qed

lemma dep_not_sp:
  assumes "has_place fn v"
  shows "8 \<notin> preg_bytes (planned_move_source_dep_reg fn v) \<and> 9 \<notin> preg_bytes (planned_move_source_dep_reg fn v)"
  using assms
proof (cases rule: source_cases [where B = undefined and L = undefined])
  case remat
  then show ?thesis by (auto simp: planned_move_source_dep_reg_def is_spilled_def valid_vreg_def preg_bytes_def)
qed (use plain_reg_bytes in auto)

lemma value_push:
  assumes v: "has_place fn v" and s: "slot_clear B fn m 2 v"
  shows "value_of L B fn (push_word w m) v = value_of L B fn m v"
  by (rule value_cong [OF v _ _ s]) (use dep_not_sp [OF v] in \<open>auto simp: push_mem intro!: push_cells\<close>)

text \<open>Code between a push and a pop of the accumulator may use it.\<close>

lemma scratch_code:
  assumes run: "exec_list L is (push_word (get_reg m PREG_AX) m) = Some m2"
    and t: "touches ({0, 1} \<union> C) 0 (push_word (get_reg m PREG_AX) m) m2" and C: "8 \<notin> C" "9 \<notin> C"
  shows "\<exists>m'. exec_list L (Push (Reg PREG_AX) # is @ [Pop (Reg PREG_AX)]) m = Some m' \<and> touches (C - {0, 1}) 2 m m' \<and>
           (\<forall>c. c \<notin> {0, 1, 8, 9} \<longrightarrow> cell m' c = cell m2 c)"
proof -
  let ?m1 = "push_word (get_reg m PREG_AX) m"
  let ?m' = "set_reg PREG_AX (get_reg m PREG_AX) (set_reg PREG_SP (get_reg m PREG_SP) m2)"
  have sp: "get_reg m2 4 = get_reg m 4 - 2" using touches_reg [OF t, of 4] C by simp
  have mem: "ssmem m2 = ssmem ?m1" using t by (auto simp: touches_def below_def)
  then have top: "load_word m2 (get_reg m 4 - 2) = get_reg m 0" using push_top [of "get_reg m 0" m] by (simp add: load_word_def)
  have "exec_list L (Push (Reg PREG_AX) # is @ [Pop (Reg PREG_AX)]) m = Some ?m'"
    using run by (simp add: exec_append preg_is_byte_def Let_def sp top)
  moreover have "touches (C - {0, 1}) 2 m ?m'"
    unfolding touches_def
  proof (intro conjI allI impI)
    fix c
    assume c: "c \<notin> C - {0, 1}"
    consider "c = 0" | "c = 1" | "c = 8" | "c = 9" | "c \<notin> {0, 1, 8, 9}" by auto
    then show "cell ?m' c = cell m c"
    proof cases
      case 5
      then have "cell m2 c = cell ?m1 c" using t c by (auto simp: touches_def)
      with 5 show ?thesis by (simp add: set_reg_def)
    qed (simp_all add: set_reg_def get_reg_def)
  next
    fix a
    assume "a \<notin> below (get_reg m PREG_SP) 2"
    then show "ssmem ?m' a = ssmem m a" by (simp add: mem push_mem)
  qed
  moreover have "\<forall>c. c \<notin> {0, 1, 8, 9} \<longrightarrow> cell ?m' c = cell m2 c" by (simp add: set_reg_def)
  ultimately show ?thesis by blast
qed

lemma mov_source:
  assumes "has_place fn v" "preg_is_byte p = is_byte (vr fn v)"
  shows "exec_ins L (Mov (Reg p) (vreg_asm B fn v)) m = Some (set_reg p (value_of L B fn m v) m)"
  using assms(1)
proof (cases rule: source_cases [where B = B and L = L])
  case remat
  then show ?thesis using remat(5) [of "preg_is_byte p" m m] by (simp add: value_of_def Let_def) (metis remat(5))
qed (use assms(2) in \<open>auto simp: value_of_def Let_def\<close>)

lemma load_lines:
  assumes "has_place fn v"
  shows "lines_of (if is_spilled fn v then rins_spill_load_to_reg B fn p v else [rins_asm (Mov (Reg p) (vreg_asm B fn v))]) =
           [Mov (Reg p) (vreg_asm B fn v)]"
  using assms by (cases rule: source_cases [where B = B]) (auto simp: rins_spill_load_to_reg_def)

text \<open>What the code of a move does.\<close>

definition moves_value :: "label_env \<Rightarrow> nib_program \<Rightarrow> func \<Rightarrow> int \<Rightarrow> int \<Rightarrow> machine \<Rightarrow> machine \<Rightarrow> bool" where
  "moves_value L B fn d v m m' \<longleftrightarrow>
     same_value (is_byte (vr fn v)) (get_reg m' d) (value_of L B fn m v) \<and>
     touches (preg_bytes (planned_move_clobber_reg fn d v)) 2 m m'"

lemma clobber_is_dst:
  assumes "valid_vreg fn v" "plain_reg d" "preg_is_byte d = is_byte (vr fn v) \<or> \<not> preg_is_word d"
    "assigned (vr fn v) = -1 \<or> preg_is_byte (assigned (vr fn v)) = is_byte (vr fn v)" "preg_is_byte d \<longrightarrow> is_byte (vr fn v)"
  shows "planned_move_clobber_reg fn d v = d"
  using assms by (auto simp: planned_move_clobber_reg_def plain_reg_def preg_is_byte_def preg_is_word_def Let_def)

lemma segment_code:
  assumes v: "has_place fn v" and d: "d = PREG_ES \<or> d = PREG_DS" "\<not> is_byte (vr fn v)" "\<not> storage_is_remat fn v"
    and s: "slot_clear B fn m 2 v"
  shows "\<exists>m'. exec_list L (lines_of (rins_mov_preg_from_vreg B fn d v)) m = Some m' \<and> moves_value L B fn d v m m'"
proof -
  let ?m1 = "push_word (get_reg m PREG_AX) m"
  have [simp]: "valid_vreg fn v" "assigned (vr fn v) = -1 \<or> \<not> preg_is_byte (assigned (vr fn v))"
    using v d(2) by (auto simp: has_place_def split: if_splits)
  have clob: "planned_move_clobber_reg fn d v = d" using d by (auto simp: planned_move_clobber_reg_def)
  have code: "rins_mov_preg_from_vreg B fn d v = mov_to_segment B fn d v"
    using d by (auto simp: rins_mov_preg_from_vreg_def)
  show ?thesis
  proof (cases "assigned (vr fn v) = d")
    case True
    then have "vreg_asm B fn v = Reg d" using d(1) by (auto simp: vreg_asm_def valid_vreg_def [of fn v, symmetric])
        (use \<open>valid_vreg fn v\<close> in \<open>auto simp: valid_vreg_def\<close>)
    then show ?thesis using True by (simp add: code mov_to_segment_def moves_value_def same_value_def value_of_def touches_def)
  next
    case False
    have val: "value_of L B fn ?m1 v = value_of L B fn m v" using v s by (rule value_push)
    let ?m2 = "set_reg d (value_of L B fn m v) (set_reg PREG_AX (value_of L B fn m v) ?m1)"
    have run: "exec_list L [Mov (Reg PREG_AX) (vreg_asm B fn v), Mov (Reg d) (Reg PREG_AX)] ?m1 = Some ?m2"
      using mov_source [OF v, of PREG_AX L B ?m1] d
      by (auto simp: val preg_is_byte_def Let_def get_set_word)
    have t: "touches ({0, 1} \<union> preg_bytes d) 0 ?m1 ?m2"
      using d(1) by (auto simp: touches_def set_reg_def preg_bytes_def)
    obtain m' where m': "exec_list L (Push (Reg PREG_AX) # [Mov (Reg PREG_AX) (vreg_asm B fn v), Mov (Reg d) (Reg PREG_AX)] @ [Pop (Reg PREG_AX)]) m = Some m'"
      "touches (preg_bytes d - {0, 1}) 2 m m'" "\<forall>c. c \<notin> {0, 1, 8, 9} \<longrightarrow> cell m' c = cell ?m2 c"
      using scratch_code [OF run t] d(1) by (auto simp: preg_bytes_def)
    have "get_reg m' d = get_reg ?m2 d" using d(1) m'(3) by (intro get_reg_cong) (auto simp: preg_bytes_def)
    then have "get_reg m' d = value_of L B fn m v" using d(1) by (auto simp: get_set_word preg_is_byte_def)
    with m'(1,2) False show ?thesis
      using load_lines [OF v, of B PREG_AX] touches_mono [OF m'(2), of "preg_bytes d" 2]
      by (auto simp: code mov_to_segment_def moves_value_def clob same_value_def d(2))
  qed
qed

lemma widen_slot_code:
  assumes v: "has_place fn v" and byte: "is_byte (vr fn v)" and d: "d \<in> {5, 6, 7}"
    and sp: "is_spilled fn v" and s: "slot_clear B fn m 2 v"
  shows "\<exists>m'. exec_list L (lines_of (mov_byte_to_word B fn d v)) m = Some m' \<and>
           lo8 (get_reg m' d) = lo8 (value_of L B fn m v) \<and> touches (preg_bytes d) 2 m m'"
proof -
  let ?m1 = "push_word (get_reg m PREG_AX) m" and ?w = "value_of L B fn m v"
  let ?m2 = "set_reg PREG_AX 0 ?m1"
  let ?m3 = "set_reg PREG_AL ?w ?m2"
  let ?m4 = "set_reg d (get_reg ?m3 PREG_AX) ?m3"
  have lines: "lines_of (mov_byte_to_word B fn d v) =
      Push (Reg PREG_AX) # [Alu ''xor'' (Reg PREG_AX) (Reg PREG_AX), Mov (Reg PREG_AL) (vreg_asm B fn v), Mov (Reg d) (Reg PREG_AX)] @
      [Pop (Reg PREG_AX)]"
    using d sp load_lines [OF v, of B PREG_AL] by (auto simp: mov_byte_to_word_def Let_def)
  have dep: "planned_move_source_dep_reg fn v = PREG_BP"
    using v by (cases rule: source_cases [where B = undefined and L = undefined]) (use sp in auto)
  have val: "value_of L B fn ?m2 v = ?w"
    by (rule value_cong [OF v _ _ s]) (auto simp: dep push_mem set_reg_def)
  have run: "exec_list L [Alu ''xor'' (Reg PREG_AX) (Reg PREG_AX), Mov (Reg PREG_AL) (vreg_asm B fn v), Mov (Reg d) (Reg PREG_AX)] ?m1 = Some ?m4"
    using mov_source [OF v, of PREG_AL L B ?m2] byte d by (auto simp: preg_is_byte_def Let_def val)
  have t: "touches ({0, 1} \<union> preg_bytes d) 0 ?m1 ?m4"
    using d by (auto simp: touches_def set_reg_def preg_bytes_def)
  obtain m' where m': "exec_list L (lines_of (mov_byte_to_word B fn d v)) m = Some m'"
    "touches (preg_bytes d - {0, 1}) 2 m m'" "\<forall>c. c \<notin> {0, 1, 8, 9} \<longrightarrow> cell m' c = cell ?m4 c"
    using scratch_code [OF run t] d by (auto simp: preg_bytes_def lines)
  have "get_reg m' d = get_reg ?m4 d" using d m'(3) by (intro get_reg_cong) (auto simp: preg_bytes_def)
  also have "\<dots> = get_reg ?m3 0" using d by (auto simp: get_set_word preg_is_byte_def)
  finally have "lo8 (get_reg m' d) = lo8 ?w" by (simp add: get_reg_def set_reg_def)
  with m'(1) show ?thesis using touches_mono [OF m'(2), of "preg_bytes d" 2] by auto
qed

lemma widen_code:
  assumes v: "has_place fn v" and byte: "is_byte (vr fn v)" and d: "plain_reg d" "\<not> preg_is_byte d" "preg_is_word d"
    and r: "\<not> storage_is_remat fn v" and s: "slot_clear B fn m 2 v"
  shows "\<exists>m'. exec_list L (lines_of (rins_mov_preg_from_vreg B fn d v)) m = Some m' \<and> moves_value L B fn d v m m'"
proof -
  have [simp]: "valid_vreg fn v" using v by (auto simp: has_place_def)
  have code: "rins_mov_preg_from_vreg B fn d v = mov_byte_to_word B fn d v"
    using d byte r by (auto simp: rins_mov_preg_from_vreg_def preg_is_byte_def preg_is_word_def Let_def)
  let ?w = "value_of L B fn m v"
  show ?thesis
  proof (cases "d \<le> PREG_BX")
    case True
    let ?lo = "preg_alias_lo d"
    have d4: "d = 0 \<or> d = 1 \<or> d = 2 \<or> d = 3" using True d by (auto simp: plain_reg_def)
    then have lo: "preg_is_byte ?lo" "0 \<le> ?lo"
      and val: "lo8 (get_reg (set_reg ?lo ?w m) d) = lo8 ?w"
      by (elim disjE; simp add: preg_alias_lo_def preg_is_byte_def set_reg_def get_reg_def)+
    have clob: "planned_move_clobber_reg fn d v = ?lo"
      using d byte True by (simp add: planned_move_clobber_reg_def Let_def plain_reg_def)
    have "lines_of (rins_mov_preg_from_vreg B fn d v) = [Mov (Reg ?lo) (vreg_asm B fn v)]"
      using True d by (simp add: code mov_byte_to_word_def Let_def plain_reg_def)
    then show ?thesis
      using mov_source [OF v, of ?lo L B m] lo byte val touches_set_reg [OF lo(2), of 2 m ?w]
      by (simp add: moves_value_def same_value_def clob)
  next
    case False
    then have d7: "d \<in> {5, 6, 7}" and clob: "planned_move_clobber_reg fn d v = d"
      using d by (auto simp: plain_reg_def preg_is_word_def planned_move_clobber_reg_def preg_is_byte_def Let_def)
    from v show ?thesis
    proof (cases rule: source_cases [where B = B and L = L])
      case (reg p)
      define q where "q = preg_alias_parent p"
      have p: "p \<in> {8, 9, 10, 11, 12, 13, 14, 15}" using reg byte by (auto simp: preg_is_byte_def)
      then have qb: "\<not> preg_is_byte q" by (auto simp: q_def preg_alias_parent_def preg_is_byte_def)
      let ?i = "if p = preg_alias_lo q then Alu ''and'' (Reg d) (Hex4 255) else Alu ''shr'' (Reg d) (Num 8)"
      have lines: "lines_of (rins_mov_preg_from_vreg B fn d v) = [Mov (Reg d) (Reg q), ?i]"
        using p False d reg by (auto simp: code mov_byte_to_word_def Let_def q_def preg_alias_parent_def preg_alias_lo_def preg_is_byte_def plain_reg_def)
      let ?x = "if p = preg_alias_lo q then get_reg m q AND 255 else drop_bit 8 (get_reg m q)"
      let ?m' = "set_reg d ?x (set_reg d (get_reg m q) m)"
      have run: "exec_list L [Mov (Reg d) (Reg q), ?i] m = Some ?m'"
      proof (cases "p = preg_alias_lo q")
        case True
        then show ?thesis by (simp add: qb d(2) Let_def get_set_word)
      next
        case False
        then show ?thesis by (simp add: qb d(2) Let_def get_set_word)
      qed
      have low: "lo8 ?x = lo8 (get_reg m p)"
        using p unfolding q_def
        by (elim insertE emptyE; simp add: preg_alias_parent_def preg_alias_lo_def get_reg_def)
      have t: "touches (preg_bytes d) 2 m ?m'"
        using d7 by (auto simp: touches_def cell_set_reg)
      have val: "value_of L B fn m v = get_reg m p" using reg(1) by (simp add: value_of_def)
      have "get_reg ?m' d = ?x" using d(2) by (rule get_set_word)
      with low t show ?thesis unfolding lines run moves_value_def clob val same_value_def by (simp add: byte)
    next
      case (slot off)
      then show ?thesis
        using widen_slot_code [OF v byte d7 _ s] byte by (auto simp: code moves_value_def same_value_def clob)
    qed (use r in simp)
  qed
qed

lemma move_code:
  assumes v: "has_place fn v" and d: "dst_fits fn d v" and s: "slot_clear B fn m 2 v"
  shows "\<exists>m'. exec_list L (lines_of (rins_mov_preg_from_vreg B fn d v)) m = Some m' \<and> moves_value L B fn d v m m'"
proof -
  have [simp]: "valid_vreg fn v" using v by (auto simp: has_place_def)
  have reg: "plain_reg d" "preg_is_byte d \<longrightarrow> is_byte (vr fn v)" using d by (auto simp: dst_fits_def)
  have "preg_is_byte d \<or> preg_is_word d \<or> d = PREG_ES \<or> d = PREG_DS"
    using d by (simp add: dst_fits_def plain_reg_def preg_is_word_def preg_is_byte_def) linarith
  then consider (seg) "d = PREG_ES \<or> d = PREG_DS" "\<not> is_byte (vr fn v)" "\<not> storage_is_remat fn v"
    | (wide) "is_byte (vr fn v)" "\<not> preg_is_byte d" "preg_is_word d" "\<not> storage_is_remat fn v"
    | (same) "\<not> (d = PREG_ES \<or> d = PREG_DS)" "preg_is_byte d = is_byte (vr fn v)"
    using d by (auto simp: dst_fits_def)
  then show ?thesis
  proof cases
    case seg
    then show ?thesis using segment_code [OF v _ _ _ s] by blast
  next
    case wide
    then show ?thesis using widen_code [OF v _ reg(1) _ _ _ s] by blast
  next
    case same
    let ?m' = "set_reg d (value_of L B fn m v) m"
    have a: "assigned (vr fn v) = -1 \<or> preg_is_byte (assigned (vr fn v)) = is_byte (vr fn v)"
      using v by (auto simp: has_place_def split: if_splits)
    have code: "lines_of (rins_mov_preg_from_vreg B fn d v) = [Mov (Reg d) (vreg_asm B fn v)]"
    proof (cases "storage_is_remat fn v")
      case True
      then have "vreg_asm B fn v = remat_asm_operand B fn v"
        by (auto simp: storage_is_remat_def vreg_storage_is_remat_def vreg_asm_def vr_def)
      with True reg(1) show ?thesis by (simp add: rins_mov_preg_from_vreg_def plain_reg_def)
    next
      case False
      have n: "\<not> (preg_is_byte d \<and> \<not> is_spilled fn v \<and> preg_is_word (assigned (vr fn v)))"
        "\<not> (\<not> preg_is_byte d \<and> (is_byte (vr fn v) \<or> preg_is_byte (assigned (vr fn v))) \<and> preg_is_word d)"
        using same(2) a by (auto simp: preg_is_word_def preg_is_byte_def)
      have "\<not> (d \<ge> PREG_ES \<and> d \<le> PREG_DS)" using same(1) d by (auto simp: dst_fits_def)
      then have "rins_mov_preg_from_vreg B fn d v =
          (if is_spilled fn v then rins_spill_load_to_reg B fn d v else [rins_asm (Mov (Reg d) (vreg_asm B fn v))])"
        unfolding rins_mov_preg_from_vreg_def Let_def using False reg(1) n
        by (simp only: if_False simp_thms \<open>valid_vreg fn v\<close>) (simp add: plain_reg_def)
      then show ?thesis by (simp only: load_lines [OF v])
    qed
    have clob: "planned_move_clobber_reg fn d v = d"
      by (rule clobber_is_dst) (use same reg a in auto)
    have "same_value (is_byte (vr fn v)) (get_reg ?m' d) (value_of L B fn m v)"
      using same(2) by (cases "preg_is_byte d") (auto simp: same_value_def get_set_byte get_set_word)
    then show ?thesis
      using mov_source [OF v same(2), of L B m] touches_set_reg [of d 2 m "value_of L B fn m v"] reg(1)
      by (simp add: code moves_value_def clob plain_reg_def)
  qed
qed

section \<open>A value on the stack\<close>

text \<open>The bytes of a word that is pushed are the two below the stack pointer.\<close>

lemma push_bytes [simp]:
  "ssmem (push_word w m) (get_reg m 4 - 2) = lo8 w" "ssmem (push_word w m) (get_reg m 4 - 1) = hi8 w"
  by (auto simp: push_word_def store_word_def Let_def)

definition pushed :: "label_env \<Rightarrow> nib_program \<Rightarrow> func \<Rightarrow> int \<Rightarrow> machine \<Rightarrow> machine \<Rightarrow> bool" where
  "pushed L B fn v m m' \<longleftrightarrow>
     get_reg m' PREG_SP = get_reg m PREG_SP - 2 \<and>
     same_value (is_byte (vr fn v)) (load_word m' (get_reg m PREG_SP - 2)) (value_of L B fn m v) \<and>
     touches {8, 9} 4 m m'"

lemma push_touches: "touches {8, 9} 2 m (push_word w m)"
  by (auto simp: touches_def push_mem)

lemma push_word_code:
  assumes v: "has_place fn v" and w: "\<not> is_byte (vr fn v)"
  shows "\<exists>m'. exec_list L (lines_of (rins_push_vreg_temp B fn v)) m = Some m' \<and> pushed L B fn v m m'"
proof -
  have [simp]: "valid_vreg fn v" using v by (auto simp: has_place_def)
  have lines: "lines_of (rins_push_vreg_temp B fn v) = [Push (vreg_asm B fn v)]"
    using w by (simp add: rins_push_vreg_temp_def)
  have arg: "\<not> byte_arg (vreg_asm B fn v)"
    using v by (cases rule: source_cases [where B = B and L = L]) (use w in auto)
  have "exec_list L [Push (vreg_asm B fn v)] m = Some (push_word (value_of L B fn m v) m)"
    using arg w by (simp add: value_of_def)
  then show ?thesis
    using touches_mono [OF push_touches, of "{8, 9}" 4] w by (simp add: lines pushed_def same_value_def)
qed

text \<open>\<open>xchg AX, [BP+2]\<close> with the stack pointer in BP, behind a push of BP, exchanges the accumulator
  with the word that is on top of the stack before.\<close>

definition swap_lines :: "asm_ins list" where
  "swap_lines = [Push (Reg PREG_BP), Mov (Reg PREG_BP) (Reg PREG_SP), Xchg (Reg PREG_AX) (BpSlot 2)]"

definition swapped :: "machine \<Rightarrow> machine" where
  "swapped m = (let s = get_reg m PREG_SP
     in set_reg PREG_AX (load_word m s)
          (store_word s (get_reg m PREG_AX) (set_reg PREG_BP (s - 2) (push_word (get_reg m PREG_BP) m))))"

lemma load_store_same [simp]: "load_word (store_word a w m) a = w"
  by (simp add: load_word_def store_word_def)

lemma load_set_reg [simp]: "load_word (set_reg p w m) a = load_word m a"
  by (simp add: load_word_def)

lemma load_push_above:
  "load_word (push_word w m) (get_reg m 4) = load_word m (get_reg m 4)"
  using above_not_below [of 0 2 "get_reg m 4"] above_not_below [of 1 2 "get_reg m 4"]
  by (simp add: load_word_def push_mem)

lemma set_ax_other [simp]: "plain_reg p \<Longrightarrow> p \<notin> {0, 8, 12} \<Longrightarrow> get_reg (set_reg 0 w m) p = get_reg m p"
  by (rule get_set_other) (auto simp: plain_reg_def preg_bytes_def)

lemma set_bp_other [simp]: "plain_reg p \<Longrightarrow> p \<noteq> 5 \<Longrightarrow> get_reg (set_reg 5 w m) p = get_reg m p"
  by (rule get_set_other) (auto simp: plain_reg_def preg_bytes_def)

lemma swap_exec: "exec_list L swap_lines m = Some (swapped m)"
  by (simp add: swap_lines_def swapped_def preg_is_byte_def slot_addr_def get_set_word load_push_above Let_def)

lemma cell_set_num [simp]:
  "cell (set_reg 0 w m) = (cell m)(0 := lo8 w, 1 := hi8 w)"
  "cell (set_reg 5 w m) = (cell m)(10 := lo8 w, 11 := hi8 w)"
  "cell (set_reg 4 w m) = (cell m)(8 := lo8 w, 9 := hi8 w)"
  "cell (set_reg 8 w m) = (cell m)(0 := lo8 w)"
  by (simp_all add: set_reg_def)

lemma cell_push: "cell (push_word w m) = (cell m)(8 := lo8 (get_reg m 4 - 2), 9 := hi8 (get_reg m 4 - 2))"
  by (simp add: push_word_def Let_def)

lemma ssmem_push: "ssmem (push_word w m) = (ssmem m)(get_reg m 4 - 2 := lo8 w, get_reg m 4 - 1 := hi8 w)"
  by (simp add: push_word_def store_word_def Let_def)

lemma lo_hi_get [simp]:
  "lo8 (get_reg m 0) = cell m 0" "hi8 (get_reg m 0) = cell m 1" "lo8 (get_reg m 4) = cell m 8" "hi8 (get_reg m 4) = cell m 9"
  "lo8 (get_reg m 5) = cell m 10" "hi8 (get_reg m 5) = cell m 11"
  by (simp_all add: get_reg_def)

lemma sp_cells: "get_reg m 4 = join (cell m 8) (cell m 9)"
  by (simp add: get_reg_def)

text \<open>Then BP is popped; the code between may change other registers.\<close>

lemma pop_bp_after_swap:
  assumes m': "ssmem m' = ssmem (swapped m)" "\<forall>c\<in>{0, 1, 8, 9}. cell m' c = cell (swapped m) c"
  shows "\<exists>m''. exec_ins L (Pop (Reg PREG_BP)) m' = Some m'' \<and>
           cell m'' = (cell m')(8 := cell m 8, 9 := cell m 9, 10 := cell m 10, 11 := cell m 11) \<and> ssmem m'' = ssmem m'"
proof -
  let ?s = "get_reg m 4"
  have ne: "?s - 2 \<noteq> ?s" "?s - 2 \<noteq> ?s + 1" "?s - 1 \<noteq> ?s" "?s - 1 \<noteq> ?s + 1"
    using above_not_below [of 0 2 ?s] above_not_below [of 1 2 ?s] belowI [of 2 2 "?s - 2" ?s] belowI [of 1 2 "?s - 1" ?s] by auto
  have sp: "get_reg m' 4 = ?s - 2"
    using m'(2) by (simp add: get_reg_def swapped_def Let_def cell_push)
  have "load_word m' (?s - 2) = get_reg m 5"
    using ne by (simp add: load_word_def m'(1) swapped_def Let_def store_word_def ssmem_push) (simp add: get_reg_def)
  then have "exec_ins L (Pop (Reg PREG_BP)) m' = Some (set_reg 5 (get_reg m 5) (set_reg 4 (get_reg m 4) m'))"
    by (simp add: sp preg_is_byte_def Let_def)
  then show ?thesis by (simp add: fun_eq_iff)
qed

lemma swapped_top: "load_word (swapped m) (get_reg m 4) = get_reg m 0"
  by (simp add: swapped_def Let_def)

lemma swapped_cells: "c \<notin> {0, 1, 8, 9, 10, 11} \<Longrightarrow> cell (swapped m) c = cell m c"
  by (simp add: swapped_def Let_def)

lemma push_byte_code:
  assumes v: "has_place fn v" and byte: "is_byte (vr fn v)" and s: "slot_clear B fn m 2 v"
  shows "\<exists>m'. exec_list L (lines_of (rins_push_vreg_temp B fn v)) m = Some m' \<and> pushed L B fn v m m'"
proof -
  let ?s = "get_reg m 4" and ?m1 = "push_word (get_reg m PREG_AX) m" and ?w = "value_of L B fn m v"
  let ?m2 = "set_reg PREG_AL ?w ?m1"
  have [simp]: "valid_vreg fn v" using v by (auto simp: has_place_def)
  have lines: "lines_of (rins_push_vreg_temp B fn v) =
      Push (Reg PREG_AX) # [Mov (Reg PREG_AL) (vreg_asm B fn v)] @ swap_lines @ [Pop (Reg PREG_BP)]"
    using byte load_lines [OF v, of B PREG_AL] by (auto simp: rins_push_vreg_temp_def rins_push_byte_vreg_def swap_lines_def)
  have run: "exec_list L [Mov (Reg PREG_AL) (vreg_asm B fn v)] ?m1 = Some ?m2"
    using mov_source [OF v, of PREG_AL L B ?m1] byte by (simp add: value_push [OF v s] preg_is_byte_def)
  obtain m' where m': "exec_ins L (Pop (Reg PREG_BP)) (swapped ?m2) = Some m'"
    "cell m' = (cell (swapped ?m2))(8 := cell ?m2 8, 9 := cell ?m2 9, 10 := cell ?m2 10, 11 := cell ?m2 11)"
    "ssmem m' = ssmem (swapped ?m2)"
    using pop_bp_after_swap [of "swapped ?m2" ?m2] by auto
  have sp: "get_reg ?m2 4 = ?s - 2" by simp
  have top: "load_word ?m2 (?s - 2) = get_reg m 0" by simp
  have cells: "cell m' c = cell m c" if "c \<notin> {8, 9}" for c
    using that unfolding m'(2) by (simp add: swapped_def Let_def top cell_push)
  have "get_reg m' 4 = join (lo8 (?s - 2)) (hi8 (?s - 2))" unfolding sp_cells [of m'] m'(2) by (simp add: cell_push)
  then have "get_reg m' 4 = ?s - 2" by (simp only: join_lo8_hi8)
  moreover have "lo8 (load_word m' (?s - 2)) = lo8 ?w"
  proof -
    have "load_word m' (?s - 2) = load_word (swapped ?m2) (get_reg ?m2 4)" by (simp only: load_word_def m'(3) sp)
    also have "\<dots> = get_reg ?m2 0" by (rule swapped_top)
    finally show ?thesis by simp
  qed
  moreover have "ssmem m' a = ssmem m a" if "a \<notin> below ?s 4" for a
    using that belowI [of 1 4 a ?s] belowI [of 2 4 a ?s] belowI [of 3 4 a ?s] belowI [of 4 4 a ?s]
    unfolding m'(3) by (auto simp: swapped_def Let_def store_word_def ssmem_push)
  ultimately have "pushed L B fn v m m'"
    using byte cells by (simp add: pushed_def same_value_def touches_def)
  then show ?thesis using run m'(1) by (simp add: lines exec_append swap_exec preg_is_byte_def)
qed

lemma push_code:
  assumes "has_place fn v" "slot_clear B fn m 2 v"
  shows "\<exists>m'. exec_list L (lines_of (rins_push_vreg_temp B fn v)) m = Some m' \<and> pushed L B fn v m m'"
  using push_word_code push_byte_code assms by blast

text \<open>The value is popped to its destination, which is not a half of the accumulator.\<close>

lemma pop_code:
  assumes d: "plain_reg (pm_dst_reg p)" "\<not> dst_in_ax p" "pm_saved p" and s: "s = get_reg m PREG_SP"
  shows "\<exists>m'. exec_list L (lines_of (pop_saved p)) m = Some m' \<and> get_reg m' PREG_SP = s + 2 \<and>
           same_value (preg_is_byte (pm_dst_reg p)) (get_reg m' (pm_dst_reg p)) (load_word m s) \<and>
           (\<forall>c. c \<notin> preg_bytes (pm_dst_reg p) \<union> {8, 9} \<longrightarrow> cell m' c = cell m c) \<and>
           (\<forall>a. a \<notin> below (s + 2) 4 \<longrightarrow> ssmem m' a = ssmem m a)"
proof (cases "preg_is_byte (pm_dst_reg p)")
  case False
  let ?d = "pm_dst_reg p"
  let ?m' = "set_reg ?d (load_word m s) (set_reg PREG_SP (s + 2) m)"
  have "exec_list L (lines_of (pop_saved p)) m = Some ?m'"
    using False d(3) by (simp add: pop_saved_def Let_def s)
  moreover have "cell ?m' c = cell m c" if "c \<notin> preg_bytes ?d \<union> {8, 9}" for c
    using that d(1) by (simp add: cell_set_reg plain_reg_def)
  ultimately show ?thesis using False d(1) by (simp add: same_value_def get_set_word)
next
  case True
  let ?d = "pm_dst_reg p" and ?m1 = "swapped m"
  have dl: "?d \<in> {9, 10, 11, 13, 14, 15}"
  proof -
    have "?d \<in> {8, 9, 10, 11, 12, 13, 14, 15}" using True by (auto simp: preg_is_byte_def)
    then show ?thesis using d(2) True by (auto simp: dst_in_ax_def preg_alias_parent_def)
  qed
  let ?m2 = "set_reg ?d (get_reg ?m1 PREG_AL) ?m1"
  have lines: "lines_of (pop_saved p) = swap_lines @ [Mov (Reg ?d) (Reg PREG_AL), Pop (Reg PREG_BP), Pop (Reg PREG_AX)]"
    using True d(2,3) by (simp add: pop_saved_def Let_def dst_in_ax_def swap_lines_def)
  have c2: "cell ?m2 c = cell ?m1 c" if "c \<notin> preg_bytes ?d" for c
    using that dl by (intro cell_set_reg) auto
  have kept: "\<forall>c\<in>{0, 1, 8, 9}. cell ?m2 c = cell ?m1 c"
  proof
    fix c :: int
    assume "c \<in> {0, 1, 8, 9}"
    then have "c \<notin> preg_bytes ?d" using dl by (elim insertE emptyE) (simp_all add: preg_bytes_def)
    then show "cell ?m2 c = cell ?m1 c" by (rule c2)
  qed
  obtain m3 where m3: "exec_ins L (Pop (Reg PREG_BP)) ?m2 = Some m3"
    "cell m3 = (cell ?m2)(8 := cell m 8, 9 := cell m 9, 10 := cell m 10, 11 := cell m 11)" "ssmem m3 = ssmem ?m2"
    using pop_bp_after_swap [of ?m2 m, OF ssmem_set_reg kept] by blast
  have sp: "get_reg m3 4 = s" unfolding sp_cells [of m3] m3(2) s sp_cells [of m] by simp
  have top: "load_word m3 s = get_reg m 0"
    unfolding load_word_def m3(3) by (simp add: swapped_def Let_def store_word_def s) (simp add: get_reg_def)
  let ?m4 = "set_reg PREG_AX (get_reg m 0) (set_reg PREG_SP (s + 2) m3)"
  have "exec_list L (lines_of (pop_saved p)) m = Some ?m4"
    using True m3(1) by (simp add: lines exec_append swap_exec preg_is_byte_def Let_def sp top)
  moreover have "same_value True (get_reg ?m4 ?d) (load_word m s)"
    using dl by (auto simp: same_value_def get_reg_def set_reg_def m3(2) swapped_def Let_def s)
  moreover have "cell ?m4 c = cell m c" if away: "c \<notin> preg_bytes ?d \<union> {8, 9}" for c
  proof -
    consider "c = 0 \<or> c = 1" | "c = 10 \<or> c = 11" | "c \<notin> {0, 1, 8, 9, 10, 11}" using away by auto
    then show ?thesis
    proof cases
      case 3
      then show ?thesis using away by (simp add: m3(2) c2 swapped_cells)
    qed (auto simp: m3(2))
  qed
  moreover have "ssmem ?m4 a = ssmem m a" if "a \<notin> below (s + 2) 4" for a
    using that belowI [of 1 4 a "s + 2"] belowI [of 2 4 a "s + 2"] belowI [of 3 4 a "s + 2"] belowI [of 4 4 a "s + 2"]
    by (auto simp: add.commute m3(3) swapped_def Let_def store_word_def ssmem_push s)
  ultimately show ?thesis using True by simp
qed

end
