(* ===== verification/Bind_Plan_Facts.thy ===== *)
theory Bind_Plan_Facts
  imports Bind_Moves_Facts
begin

text \<open>
  The planner as a whole. Moves that clobber no pending source are done at once; when none is left,
  the source of one is saved on the stack, which frees the others. The invariant says where every
  value is: in its destination, on the stack in the order in which it will be popped, or still in a
  source that nothing has touched.
\<close>

section \<open>The stack of saved values\<close>

fun stacked :: "label_env \<Rightarrow> nib_program \<Rightarrow> func \<Rightarrow> machine \<Rightarrow> machine \<Rightarrow> 16 word \<Rightarrow> int list \<Rightarrow> bool" where
  "stacked L B fn m0 m s [] \<longleftrightarrow> True"
| "stacked L B fn m0 m s (v # vs) \<longleftrightarrow>
     same_value (is_byte (vr fn v)) (load_word m s) (value_of L B fn m0 v) \<and> stacked L B fn m0 m (s + 2) vs"

lemma stacked_cong:
  assumes "\<And>k. k < 2 * length vs \<Longrightarrow> ssmem m' (s + of_nat k) = ssmem m (s + of_nat k)" "stacked L B fn m0 m s vs"
  shows "stacked L B fn m0 m' s vs"
  using assms
proof (induction vs arbitrary: s)
  case (Cons v vs)
  have "load_word m' s = load_word m s"
    using Cons.prems(1) [of 0] Cons.prems(1) [of 1] by (simp add: load_word_def)
  moreover have "stacked L B fn m0 m' (s + 2) vs"
  proof (rule Cons.IH)
    show "ssmem m' (s + 2 + of_nat k) = ssmem m (s + 2 + of_nat k)" if "k < 2 * length vs" for k
      using Cons.prems(1) [of "k + 2"] that by (simp add: algebra_simps)
  qed (use Cons.prems(2) in simp)
  ultimately show ?case using Cons.prems(2) by simp
qed simp

lemma stacked_touch:
  assumes "stacked L B fn m0 m (get_reg m 4) vs" "touches C d m m'" "2 * length vs + d < 65536"
  shows "stacked L B fn m0 m' (get_reg m 4) vs"
proof (rule stacked_cong [OF _ assms(1)])
  fix k
  assume "k < 2 * length vs"
  then have "get_reg m 4 + of_nat k \<notin> below (get_reg m 4) d" using assms(3) by (intro above_not_below) simp
  then show "ssmem m' (get_reg m 4 + of_nat k) = ssmem m (get_reg m 4 + of_nat k)"
    using assms(2) by (simp add: touches_def)
qed

section \<open>Popping\<close>

definition dst_bytes :: "planned_move list \<Rightarrow> int set" where
  "dst_bytes ms = (\<Union>p\<in>set ms. preg_bytes (pm_dst_reg p))"

definition dsts_apart :: "planned_move list \<Rightarrow> bool" where
  "dsts_apart ms \<longleftrightarrow> sorted_wrt (\<lambda>p q. preg_bytes (pm_dst_reg p) \<inter> preg_bytes (pm_dst_reg q) = {}) ms"

definition poppable :: "func \<Rightarrow> planned_move \<Rightarrow> bool" where
  "poppable fn p \<longleftrightarrow> plain_reg (pm_dst_reg p) \<and> \<not> dst_in_ax p \<and> (preg_is_byte (pm_dst_reg p) \<longrightarrow> is_byte (vr fn (pm_src_vreg p)))"

lemma pops_code:
  assumes "dsts_apart ps" "\<forall>p\<in>set ps. pm_saved p \<and> poppable fn p"
    and "stacked L B fn m0 m (get_reg m 4) (map pm_src_vreg ps)" "2 * length ps + 4 < 65536"
  shows "\<exists>m'. exec_list L (lines_of (concat (map pop_saved ps))) m = Some m' \<and>
           get_reg m' 4 = get_reg m 4 + of_nat (2 * length ps) \<and>
           (\<forall>p\<in>set ps. same_value (is_byte (vr fn (pm_src_vreg p))) (get_reg m' (pm_dst_reg p)) (value_of L B fn m0 (pm_src_vreg p))) \<and>
           (\<forall>c. c \<notin> dst_bytes ps \<union> {8, 9} \<longrightarrow> cell m' c = cell m c) \<and>
           (\<forall>a. a \<notin> below (get_reg m 4 + of_nat (2 * length ps)) (2 * length ps + 2) \<longrightarrow> ssmem m' a = ssmem m a)"
  using assms
proof (induction ps arbitrary: m)
  case Nil
  then show ?case by simp
next
  case (Cons p ps)
  let ?s = "get_reg m 4" and ?d = "pm_dst_reg p" and ?v = "pm_src_vreg p"
  have p: "plain_reg ?d" "\<not> dst_in_ax p" "pm_saved p" "preg_is_byte ?d \<longrightarrow> is_byte (vr fn ?v)"
    using Cons.prems(2) by (auto simp: poppable_def)
  obtain m1 where m1: "exec_list L (lines_of (pop_saved p)) m = Some m1" "get_reg m1 4 = ?s + 2"
    "same_value (preg_is_byte ?d) (get_reg m1 ?d) (load_word m ?s)"
    "\<forall>c. c \<notin> preg_bytes ?d \<union> {8, 9} \<longrightarrow> cell m1 c = cell m c" "\<forall>a. a \<notin> below (?s + 2) 4 \<longrightarrow> ssmem m1 a = ssmem m a"
    using pop_code [OF p(1-3) refl, of L m] by blast
  have st: "stacked L B fn m0 m1 (get_reg m1 4) (map pm_src_vreg ps)"
    unfolding m1(2)
  proof (rule stacked_cong)
    fix k
    assume "k < 2 * length (map pm_src_vreg ps)"
    then have "?s + 2 + of_nat k \<notin> below (?s + 2) 4" using Cons.prems(4) by (intro above_not_below) simp
    then show "ssmem m1 (?s + 2 + of_nat k) = ssmem m (?s + 2 + of_nat k)" using m1(5) by blast
  qed (use Cons.prems(3) in simp)
  have apart: "dsts_apart ps" "\<forall>q\<in>set ps. preg_bytes ?d \<inter> preg_bytes (pm_dst_reg q) = {}"
    using Cons.prems(1) by (auto simp: dsts_apart_def)
  obtain m' where m': "exec_list L (lines_of (concat (map pop_saved ps))) m1 = Some m'"
    "get_reg m' 4 = get_reg m1 4 + of_nat (2 * length ps)"
    "\<forall>q\<in>set ps. same_value (is_byte (vr fn (pm_src_vreg q))) (get_reg m' (pm_dst_reg q)) (value_of L B fn m0 (pm_src_vreg q))"
    "\<forall>c. c \<notin> dst_bytes ps \<union> {8, 9} \<longrightarrow> cell m' c = cell m1 c"
    "\<forall>a. a \<notin> below (get_reg m1 4 + of_nat (2 * length ps)) (2 * length ps + 2) \<longrightarrow> ssmem m' a = ssmem m1 a"
    using Cons.IH [OF apart(1) _ st] Cons.prems(2,4) by auto
  have "get_reg m' ?d = get_reg m1 ?d"
  proof (rule get_reg_cong)
    fix c
    assume "c \<in> preg_bytes ?d"
    then have "c \<notin> dst_bytes ps \<union> {8, 9}" using apart(2) plain_reg_bytes [OF p(1)] by (auto simp: dst_bytes_def)
    then show "cell m' c = cell m1 c" using m'(4) by blast
  qed (use p(1) in \<open>simp add: plain_reg_def\<close>)
  then have d: "same_value (is_byte (vr fn ?v)) (get_reg m' ?d) (value_of L B fn m0 ?v)"
    using m1(3) p(4) Cons.prems(3) by (auto simp: same_value_def split: if_splits)
  have sp: "get_reg m' 4 = ?s + of_nat (2 * length (p # ps))" by (simp add: m'(2) m1(2) algebra_simps)
  have mem: "ssmem m' a = ssmem m a" if "a \<notin> below (?s + of_nat (2 * length (p # ps))) (2 * length (p # ps) + 2)" for a
  proof -
    let ?e = "?s + of_nat (2 * length (p # ps))"
    have e: "get_reg m1 4 + of_nat (2 * length ps) = ?e" by (simp add: m1(2) algebra_simps)
    have n: "2 * length ps + 4 = 2 * length (p # ps) + 2" by simp
    have "?s + 2 = ?e - of_nat (2 * length ps)" by (simp add: algebra_simps)
    then have "below (?s + 2) 4 \<subseteq> below ?e (2 * length (p # ps) + 2)"
      using below_shift [of ?e "2 * length ps" 4] unfolding n [symmetric] by (simp only:)
    moreover have "below ?e (2 * length ps + 2) \<subseteq> below ?e (2 * length (p # ps) + 2)" by (rule below_mono) simp
    ultimately have "a \<notin> below (?s + 2) 4" "a \<notin> below ?e (2 * length ps + 2)" using that by blast+
    from this(2) have "ssmem m' a = ssmem m1 a" using m'(5) unfolding e by blast
    also have "\<dots> = ssmem m a" using \<open>a \<notin> below (?s + 2) 4\<close> m1(5) by blast
    finally show ?thesis .
  qed
  have "cell m' c = cell m c" if "c \<notin> dst_bytes (p # ps) \<union> {8, 9}" for c
    using that m'(4) m1(4) by (auto simp: dst_bytes_def)
  with d m'(3) sp mem show ?case by (intro exI [of _ m']) (auto simp: exec_append m1(1) m'(1))
qed

section \<open>Which move is picked\<close>

definition pending :: "planned_move list \<Rightarrow> nat \<Rightarrow> bool" where
  "pending ms i \<longleftrightarrow> i < length ms \<and> \<not> pm_done (ms ! i)"

definition npending :: "planned_move list \<Rightarrow> nat" where
  "npending ms = length (filter (\<lambda>p. \<not> pm_done p) ms)"

lemma split_at: "i < length ms \<Longrightarrow> ms = take i ms @ ms ! i # drop (Suc i) ms"
  by (rule id_take_nth_drop)

lemma npending_update:
  assumes "pending ms i" "pm_done x"
  shows "npending ms = Suc (npending (ms[i := x]))"
proof -
  have i: "i < length ms" "\<not> pm_done (ms ! i)" using assms(1) by (auto simp: pending_def)
  have "npending (take i ms @ ms ! i # drop (Suc i) ms) = Suc (npending (take i ms @ x # drop (Suc i) ms))"
    using i(2) assms(2) by (simp add: npending_def)
  then show ?thesis using i(1) by (simp only: split_at [OF i(1), symmetric] upd_conv_take_nth_drop)
qed

lemma npending_0: "npending ms = 0 \<longleftrightarrow> (\<forall>i. \<not> pending ms i)"
  by (auto simp: npending_def pending_def filter_empty_conv all_set_conv_all_nth)

lemma free_move:
  assumes "pick_free_move ms = Some i"
  shows "pending ms i" "\<And>j. pending ms j \<Longrightarrow> j \<noteq> i \<Longrightarrow> \<not> preg_write_clobbers (pm_clobber_reg (ms ! i)) (pm_src_dep_reg (ms ! j))"
proof -
  from assms have i: "i < length ms" "\<not> pm_done (ms ! i)" "\<not> clobbers_pending_src ms i"
    by (auto simp: pick_free_move_def find_Some_iff)
  then show "pending ms i" by (simp add: pending_def)
  show "\<not> preg_write_clobbers (pm_clobber_reg (ms ! i)) (pm_src_dep_reg (ms ! j))" if "pending ms j" "j \<noteq> i" for j
    using i(3) that by (auto simp: clobbers_pending_src_def list_ex_iff pending_def)
qed

lemma dst_in_ax_iff: "0 \<le> pm_dst_reg p \<Longrightarrow> dst_in_ax p \<longleftrightarrow> pm_dst_reg p = PREG_AL \<or> pm_dst_reg p = PREG_AH"
proof -
  assume "0 \<le> pm_dst_reg p"
  show ?thesis
  proof (cases "preg_is_byte (pm_dst_reg p)")
    case True
    then have "pm_dst_reg p \<in> {8, 9, 10, 11, 12, 13, 14, 15}" by (auto simp: preg_is_byte_def)
    then show ?thesis by (auto simp: dst_in_ax_def preg_is_byte_def preg_alias_parent_def)
  qed (auto simp: dst_in_ax_def preg_is_byte_def)
qed

text \<open>When nothing is free, the first pending move to something else than a half of the accumulator
  is saved: if only such halves were pending there would be one move, which is free.\<close>

lemma saved_move:
  assumes none: "pick_free_move ms = None" and i: "pending ms i"
    and one: "\<And>i j. pending ms i \<Longrightarrow> pending ms j \<Longrightarrow> dst_in_ax (ms ! i) \<Longrightarrow> dst_in_ax (ms ! j) \<Longrightarrow> i = j"
  obtains k where "pick_saved_move ms = Some k" "pending ms k" "\<not> dst_in_ax (ms ! k)"
    "\<And>j. pending ms j \<Longrightarrow> \<not> dst_in_ax (ms ! j) \<Longrightarrow> k \<le> j"
proof (cases "find (\<lambda>i. \<not> pm_done (ms ! i) \<and> \<not> dst_in_ax (ms ! i)) [0..<length ms]")
  case None
  then have all: "dst_in_ax (ms ! j)" if "pending ms j" for j
    using that by (auto simp: find_None_iff pending_def)
  have "\<not> clobbers_pending_src ms i"
    using one [OF i] all [OF i] all by (auto simp: clobbers_pending_src_def list_ex_iff pending_def)
  then have "pick_free_move ms \<noteq> None" using i by (auto simp: pick_free_move_def find_None_iff pending_def)
  with none show ?thesis by simp
next
  case (Some k)
  then have "pick_saved_move ms = Some k" by (simp add: pick_saved_move_def)
  moreover from Some have "k < length ms" "\<not> pm_done (ms ! k)" "\<not> dst_in_ax (ms ! k)"
      "\<forall>j<k. pm_done (ms ! j) \<or> dst_in_ax (ms ! j)"
    by (auto simp: find_Some_iff)
  ultimately show ?thesis by (intro that [of k]) (auto simp: pending_def not_less [symmetric])
qed

section \<open>The invariant\<close>

text \<open>A plan: the sources have a place that the destinations fit, the destinations are apart, and they
  are not both halves of the accumulator.\<close>

definition move_ok :: "func \<Rightarrow> planned_move \<Rightarrow> bool" where
  "move_ok fn p \<longleftrightarrow>
     has_place fn (pm_src_vreg p) \<and> dst_fits fn (pm_dst_reg p) (pm_src_vreg p) \<and>
     pm_src_dep_reg p = planned_move_source_dep_reg fn (pm_src_vreg p) \<and>
     pm_clobber_reg p = planned_move_clobber_reg fn (pm_dst_reg p) (pm_src_vreg p)"

definition plan_ok :: "func \<Rightarrow> planned_move list \<Rightarrow> bool" where
  "plan_ok fn ms \<longleftrightarrow>
     (\<forall>p\<in>set ms. move_ok fn p) \<and> dsts_apart ms \<and>
     \<not> (PREG_AL \<in> pm_dst_reg ` set ms \<and> PREG_AH \<in> pm_dst_reg ` set ms)"

definition settle :: "bool \<Rightarrow> planned_move \<Rightarrow> planned_move" where
  "settle sv p = p\<lparr>pm_done := True, pm_saved := sv \<or> pm_saved p\<rparr>"

lemma settle_simps [simp]:
  "pm_dst_reg (settle sv p) = pm_dst_reg p" "pm_src_vreg (settle sv p) = pm_src_vreg p"
  "pm_src_dep_reg (settle sv p) = pm_src_dep_reg p" "pm_clobber_reg (settle sv p) = pm_clobber_reg p"
  "pm_done (settle sv p)" "pm_saved (settle sv p) \<longleftrightarrow> sv \<or> pm_saved p" "dst_in_ax (settle sv p) = dst_in_ax p"
  "move_ok fn (settle sv p) = move_ok fn p"
  by (simp_all add: settle_def dst_in_ax_def move_ok_def)

lemma nth_settle: "j < length ms \<Longrightarrow> i < length ms \<Longrightarrow> ms[i := settle sv (ms ! i)] ! j = (if j = i then settle sv (ms ! i) else ms ! j)"
  by simp

lemma dsts_apart_map: "dsts_apart ms \<longleftrightarrow> sorted_wrt (\<lambda>d e. preg_bytes d \<inter> preg_bytes e = {}) (map pm_dst_reg ms)"
  by (simp add: dsts_apart_def sorted_wrt_map)

lemma in_settle:
  assumes "p \<in> set (ms[i := settle sv (ms ! i)])" "i < length ms"
  obtains j where "j < length ms" "j \<noteq> i" "p = ms ! j" | "p = settle sv (ms ! i)"
proof -
  from assms(1) obtain j where j: "j < length ms" "p = ms[i := settle sv (ms ! i)] ! j" by (auto simp: in_set_conv_nth)
  show ?thesis
  proof (cases "j = i")
    case True
    then show ?thesis using that(2) j by simp
  next
    case False
    then show ?thesis using that(1) j by simp
  qed
qed

lemma plan_ok_settle:
  assumes "plan_ok fn ms" "i < length ms"
  shows "plan_ok fn (ms[i := settle sv (ms ! i)])"
proof -
  let ?ms = "ms[i := settle sv (ms ! i)]"
  have d: "map pm_dst_reg ?ms = map pm_dst_reg ms"
    using assms(2) by (intro nth_equalityI) (auto simp: nth_list_update)
  then have "pm_dst_reg ` set ?ms = pm_dst_reg ` set ms" by (metis set_map)
  moreover have "dsts_apart ?ms"
    using assms(1) d by (simp add: plan_ok_def dsts_apart_map)
  moreover have "\<forall>p\<in>set ?ms. move_ok fn p"
    using assms by (auto simp: plan_ok_def elim!: in_settle)
  ultimately show ?thesis using assms(1) by (simp add: plan_ok_def)
qed

lemma plan_apart:
  assumes "plan_ok fn ms" "i < length ms" "j < length ms" "i \<noteq> j"
  shows "preg_bytes (pm_dst_reg (ms ! i)) \<inter> preg_bytes (pm_dst_reg (ms ! j)) = {}"
  using assms by (cases i j rule: linorder_cases) (auto simp: plan_ok_def dsts_apart_def sorted_wrt_iff_nth_less)

lemma plan_one_in_ax:
  assumes ok: "plan_ok fn ms" and p: "pending ms i" "pending ms j" "dst_in_ax (ms ! i)" "dst_in_ax (ms ! j)"
  shows "i = j"
proof (rule ccontr)
  assume ne: "i \<noteq> j"
  have l: "i < length ms" "j < length ms" using p by (auto simp: pending_def)
  have d: "0 \<le> pm_dst_reg (ms ! i)" "0 \<le> pm_dst_reg (ms ! j)"
    using ok l by (auto simp: plan_ok_def move_ok_def dst_fits_def plain_reg_def)
  have "pm_dst_reg (ms ! i) \<noteq> pm_dst_reg (ms ! j)"
    using plan_apart [OF ok l ne] d by (auto simp: preg_bytes_def split: if_splits)
  with p(3,4) d have "{pm_dst_reg (ms ! i), pm_dst_reg (ms ! j)} = {PREG_AL, PREG_AH}" by (auto simp: dst_in_ax_iff)
  moreover have "pm_dst_reg (ms ! i) \<in> pm_dst_reg ` set ms" "pm_dst_reg (ms ! j) \<in> pm_dst_reg ` set ms" using l by auto
  ultimately show False using ok by (auto simp: plan_ok_def doubleton_eq_iff)
qed

definition room :: "planned_move list \<Rightarrow> nat" where
  "room ms = 2 * length ms + 4"

definition nsaved :: "planned_move list \<Rightarrow> nat" where
  "nsaved ms = length (filter pm_saved ms)"

definition plan_inv :: "label_env \<Rightarrow> nib_program \<Rightarrow> func \<Rightarrow> machine \<Rightarrow> planned_move list \<Rightarrow> machine \<Rightarrow> bool" where
  "plan_inv L B fn m0 ms m \<longleftrightarrow>
     plan_ok fn ms \<and> room ms < 65536 \<and> (\<forall>p\<in>set ms. slot_clear B fn m0 (room ms) (pm_src_vreg p)) \<and>
     (\<forall>p\<in>set ms. pm_saved p \<longrightarrow> pm_done p \<and> \<not> dst_in_ax p) \<and>
     (\<forall>p\<in>set ms. pm_done p \<and> \<not> pm_saved p \<longrightarrow>
        same_value (is_byte (vr fn (pm_src_vreg p))) (get_reg m (pm_dst_reg p)) (value_of L B fn m0 (pm_src_vreg p))) \<and>
     (\<forall>p\<in>set ms. \<not> pm_done p \<longrightarrow> (\<forall>c\<in>preg_bytes (pm_src_dep_reg p). cell m c = cell m0 c)) \<and>
     (\<forall>c. c \<notin> dst_bytes ms \<union> {8, 9} \<longrightarrow> cell m c = cell m0 c) \<and>
     (\<forall>a. a \<notin> below (get_reg m0 PREG_SP) (room ms) \<longrightarrow> ssmem m a = ssmem m0 a) \<and>
     get_reg m PREG_SP = get_reg m0 PREG_SP - of_nat (2 * nsaved ms) \<and>
     stacked L B fn m0 m (get_reg m PREG_SP) (map pm_src_vreg (rev (filter pm_saved ms))) \<and>
     (\<forall>i j. i < length ms \<and> pm_saved (ms ! i) \<and> pending ms j \<and> \<not> dst_in_ax (ms ! j) \<longrightarrow> i < j)"

lemma plan_invD:
  assumes "plan_inv L B fn m0 ms m"
  shows "plan_ok fn ms" "2 * length ms + 4 < 65536" "get_reg m 4 = get_reg m0 4 - of_nat (2 * nsaved ms)"
    "stacked L B fn m0 m (get_reg m 4) (map pm_src_vreg (rev (filter pm_saved ms)))"
  using assms unfolding plan_inv_def room_def by blast+

lemma saved_room:
  assumes "plan_inv L B fn m0 ms m" "d \<le> 4"
  shows "2 * length (map pm_src_vreg (rev (filter pm_saved ms))) + d < 65536"
proof -
  have "length (filter pm_saved ms) \<le> length ms" by simp
  with plan_invD(2) [OF assms(1)] assms(2) show ?thesis unfolding length_map length_rev by linarith
qed

lemma nsaved_le: "nsaved ms \<le> length ms"
  by (simp add: nsaved_def)

lemma room_settle [simp]: "room (ms[i := x]) = room ms"
  by (simp add: room_def)

lemma dst_bytes_settle [simp]: "i < length ms \<Longrightarrow> dst_bytes (ms[i := settle sv (ms ! i)]) = dst_bytes ms"
proof -
  assume "i < length ms"
  then have "map pm_dst_reg (ms[i := settle sv (ms ! i)]) = map pm_dst_reg ms"
    by (intro nth_equalityI) (auto simp: nth_list_update)
  then have "pm_dst_reg ` set (ms[i := settle sv (ms ! i)]) = pm_dst_reg ` set ms" by (metis set_map)
  then show ?thesis unfolding dst_bytes_def by (metis image_image)
qed

text \<open>A pending source still has its value.\<close>

lemma pending_value:
  assumes inv: "plan_inv L B fn m0 ms m" and i: "pending ms i" and d: "d \<le> 4"
  shows "value_of L B fn m (pm_src_vreg (ms ! i)) = value_of L B fn m0 (pm_src_vreg (ms ! i))"
    "slot_clear B fn m d (pm_src_vreg (ms ! i))" "has_place fn (pm_src_vreg (ms ! i))"
    "dst_fits fn (pm_dst_reg (ms ! i)) (pm_src_vreg (ms ! i))"
    "below (get_reg m 4) d \<subseteq> below (get_reg m0 4) (room ms)"
proof -
  let ?v = "pm_src_vreg (ms ! i)"
  have l: "ms ! i \<in> set ms" "\<not> pm_done (ms ! i)" using i by (auto simp: pending_def)
  then have ok: "move_ok fn (ms ! i)" using inv by (auto simp: plan_inv_def plan_ok_def)
  then show v: "has_place fn ?v" and "dst_fits fn (pm_dst_reg (ms ! i)) ?v" by (auto simp: move_ok_def)
  have dep: "\<forall>c\<in>preg_bytes (planned_move_source_dep_reg fn ?v). cell m c = cell m0 c"
    using inv l ok by (auto simp: plan_inv_def move_ok_def)
  have s0: "slot_clear B fn m0 (room ms) ?v" using inv l by (auto simp: plan_inv_def)
  have mem: "\<forall>a. a \<notin> below (get_reg m0 4) (room ms) \<longrightarrow> ssmem m a = ssmem m0 a" using inv by (auto simp: plan_inv_def)
  show "value_of L B fn m ?v = value_of L B fn m0 ?v" by (rule value_cong [OF v dep mem s0])
  have sp: "get_reg m 4 = get_reg m0 4 - of_nat (2 * nsaved ms)" using inv by (auto simp: plan_inv_def)
  show sub: "below (get_reg m 4) d \<subseteq> below (get_reg m0 4) (room ms)"
    using below_shift [of "get_reg m0 4" "2 * nsaved ms" d] below_mono [of "2 * nsaved ms + d" "room ms" "get_reg m0 4"]
      nsaved_le [of ms] d unfolding sp by (auto simp: room_def)
  show "slot_clear B fn m d ?v"
    using v
  proof (cases rule: source_cases [where B = B and L = L])
    case (slot off)
    then have "get_reg m 5 = get_reg m0 5" using dep by (intro get_reg_cong) auto
    then show ?thesis using s0 sub slot(1) by (auto simp: slot_clear_def slot_addr_def Let_def)
  qed (auto simp: slot_clear_def remat_asm_operand_def split: remat_kind.splits option.splits)
qed

lemma clobber_in_dst:
  assumes v: "has_place fn v" and d: "dst_fits fn d v"
  shows "preg_bytes (planned_move_clobber_reg fn d v) \<subseteq> preg_bytes d" "planned_move_clobber_reg fn d v < 21"
proof -
  have n: "\<not> (preg_is_byte d \<and> \<not> is_spilled fn v \<and> preg_is_word (assigned (vr fn v)))"
    using v d by (auto simp: has_place_def dst_fits_def preg_is_word_def preg_is_byte_def split: if_splits)
  have r: "0 \<le> d" "d \<le> 19" "d \<noteq> -1" using d by (auto simp: dst_fits_def plain_reg_def)
  have "planned_move_clobber_reg fn d v = d \<or> d \<le> 3 \<and> planned_move_clobber_reg fn d v = preg_alias_lo d"
    unfolding planned_move_clobber_reg_def Let_def using v r n by (auto simp: has_place_def)
  moreover have "preg_bytes (preg_alias_lo d) \<subseteq> preg_bytes d \<and> preg_alias_lo d < 21" if "d \<le> 3"
  proof -
    have "d = 0 \<or> d = 1 \<or> d = 2 \<or> d = 3" using that r by auto
    then show ?thesis by (elim disjE) (simp_all add: preg_alias_lo_def preg_bytes_def)
  qed
  ultimately show "preg_bytes (planned_move_clobber_reg fn d v) \<subseteq> preg_bytes d" "planned_move_clobber_reg fn d v < 21"
    using r by auto
qed

lemma dep_small: "has_place fn v \<Longrightarrow> planned_move_source_dep_reg fn v < 21"
  by (auto simp: has_place_def planned_move_source_dep_reg_def plain_reg_def split: if_splits)

text \<open>What a step has to show: it changes only cells of its destination and of the stack pointer, and
  no cell of a pending source.\<close>

lemma inv_settle:
  assumes inv: "plan_inv L B fn m0 ms m" and i: "pending ms i" and t: "touches C d m m'" "d \<le> 4"
    and C: "C \<subseteq> preg_bytes (pm_dst_reg (ms ! i)) \<union> {8, 9}"
    and keep: "\<And>j. pending ms j \<Longrightarrow> j \<noteq> i \<Longrightarrow> C \<inter> preg_bytes (pm_src_dep_reg (ms ! j)) = {}"
    and new: "sv \<or> same_value (is_byte (vr fn (pm_src_vreg (ms ! i)))) (get_reg m' (pm_dst_reg (ms ! i))) (value_of L B fn m0 (pm_src_vreg (ms ! i)))"
    and first: "sv \<Longrightarrow> \<not> dst_in_ax (ms ! i) \<and> (\<forall>j. pending ms j \<and> \<not> dst_in_ax (ms ! j) \<longrightarrow> i \<le> j)"
  defines "ms' \<equiv> ms[i := settle sv (ms ! i)]"
  assumes sp: "get_reg m' PREG_SP = get_reg m0 PREG_SP - of_nat (2 * nsaved ms')"
    and st: "stacked L B fn m0 m' (get_reg m' PREG_SP) (map pm_src_vreg (rev (filter pm_saved ms')))"
  shows "plan_inv L B fn m0 ms' m'"
proof -
  have l: "i < length ms" "\<not> pm_done (ms ! i)" using i by (auto simp: pending_def)
  have ok: "plan_ok fn ms" using inv by (simp add: plan_inv_def)
  have I: "\<forall>p\<in>set ms. slot_clear B fn m0 (room ms) (pm_src_vreg p)" "\<forall>p\<in>set ms. pm_saved p \<longrightarrow> pm_done p \<and> \<not> dst_in_ax p"
    "\<forall>p\<in>set ms. pm_done p \<and> \<not> pm_saved p \<longrightarrow>
        same_value (is_byte (vr fn (pm_src_vreg p))) (get_reg m (pm_dst_reg p)) (value_of L B fn m0 (pm_src_vreg p))"
    "\<forall>p\<in>set ms. \<not> pm_done p \<longrightarrow> (\<forall>c\<in>preg_bytes (pm_src_dep_reg p). cell m c = cell m0 c)"
    "\<forall>c. c \<notin> dst_bytes ms \<union> {8, 9} \<longrightarrow> cell m c = cell m0 c"
    "\<forall>a. a \<notin> below (get_reg m0 PREG_SP) (room ms) \<longrightarrow> ssmem m a = ssmem m0 a"
    "\<forall>i j. i < length ms \<and> pm_saved (ms ! i) \<and> pending ms j \<and> \<not> dst_in_ax (ms ! j) \<longrightarrow> i < j"
    using inv by (auto simp: plan_inv_def)
  have same: "get_reg m' (pm_dst_reg (ms ! j)) = get_reg m (pm_dst_reg (ms ! j))" if j: "j < length ms" "j \<noteq> i" for j
  proof (rule touches_reg [OF t(1)])
    have "plain_reg (pm_dst_reg (ms ! j))" using ok j(1) by (auto simp: plan_ok_def move_ok_def dst_fits_def)
    then show "0 \<le> pm_dst_reg (ms ! j)" "preg_bytes (pm_dst_reg (ms ! j)) \<inter> C = {}"
      using C plan_apart [OF ok j(1) l(1) j(2)] plain_reg_bytes by (auto simp: plain_reg_def)
  qed
  have done_ok: "\<forall>p\<in>set ms'. pm_done p \<and> \<not> pm_saved p \<longrightarrow>
      same_value (is_byte (vr fn (pm_src_vreg p))) (get_reg m' (pm_dst_reg p)) (value_of L B fn m0 (pm_src_vreg p))"
    using I(3) new same unfolding ms'_def by (auto elim!: in_settle [OF _ l(1)])
  have pend_ok: "\<forall>p\<in>set ms'. \<not> pm_done p \<longrightarrow> (\<forall>c\<in>preg_bytes (pm_src_dep_reg p). cell m' c = cell m0 c)"
  proof (intro ballI impI)
    fix p c
    assume p: "p \<in> set ms'" "\<not> pm_done p" and c: "c \<in> preg_bytes (pm_src_dep_reg p)"
    then obtain j where j: "j < length ms" "j \<noteq> i" "p = ms ! j" unfolding ms'_def by (auto elim!: in_settle [OF _ l(1)])
    then have "c \<notin> C" using keep [of j] p(2) c by (auto simp: pending_def)
    then have "cell m' c = cell m c" using t(1) by (simp add: touches_def)
    then show "cell m' c = cell m0 c" using I(4) j p(2) c by auto
  qed
  have cells_ok: "\<forall>c. c \<notin> dst_bytes ms \<union> {8, 9} \<longrightarrow> cell m' c = cell m0 c"
    using I(5) t(1) C l(1) unfolding touches_def dst_bytes_def by (metis UN_I Un_iff nth_mem subsetD)
  have mem_ok: "\<forall>a. a \<notin> below (get_reg m0 PREG_SP) (room ms) \<longrightarrow> ssmem m' a = ssmem m0 a"
    using I(6) t(1) pending_value(5) [OF inv i t(2)] unfolding touches_def by (metis subsetD)
  have sv_ok: "\<forall>p\<in>set ms'. pm_saved p \<longrightarrow> pm_done p \<and> \<not> dst_in_ax p"
    using I(2) first l unfolding ms'_def by (auto elim!: in_settle [OF _ l(1)])
  have slots_ok: "\<forall>p\<in>set ms'. slot_clear B fn m0 (room ms) (pm_src_vreg p)"
    using I(1) l unfolding ms'_def by (auto elim!: in_settle [OF _ l(1)])
  have order_ok: "a < b" if a: "a < length ms'" "pm_saved (ms' ! a)" and b: "pending ms' b" "\<not> dst_in_ax (ms' ! b)" for a b
  proof -
    have b': "b \<noteq> i" "pending ms b" "\<not> dst_in_ax (ms ! b)"
      using b l(1) by (auto simp: ms'_def pending_def nth_list_update split: if_splits)
    show ?thesis
    proof (cases "a = i \<and> sv")
      case True
      then have "i \<le> b" using first b' by blast
      with True b'(1) show ?thesis by simp
    next
      case False
      then have "pm_saved (ms ! a)" "a < length ms"
        using a l(1) by (auto simp: ms'_def nth_list_update split: if_splits)
      then show ?thesis using I(7) b' by blast
    qed
  qed
  have r: "room ms' = room ms" "dst_bytes ms' = dst_bytes ms" using l(1) by (simp_all add: ms'_def)
  have "plan_ok fn ms'" "room ms < 65536" using plan_ok_settle [OF ok l(1)] inv by (auto simp: ms'_def plan_inv_def)
  with slots_ok sv_ok done_ok pend_ok cells_ok mem_ok sp st show ?thesis
    unfolding plan_inv_def r by (intro conjI) (assumption+, use order_ok in blast)
qed

text \<open>A free move is done.\<close>

lemma step_free:
  assumes inv: "plan_inv L B fn m0 ms m" and pick: "pick_free_move ms = Some i"
  shows "\<exists>m'. exec_list L (lines_of (rins_mov_preg_from_vreg B fn (pm_dst_reg (ms ! i)) (pm_src_vreg (ms ! i)))) m = Some m' \<and>
           plan_inv L B fn m0 (ms[i := settle False (ms ! i)]) m'"
proof -
  let ?p = "ms ! i" and ?ms = "ms[i := settle False (ms ! i)]"
  let ?d = "pm_dst_reg ?p" and ?v = "pm_src_vreg ?p" and ?C = "preg_bytes (pm_clobber_reg ?p)"
  have i: "pending ms i" "i < length ms" using free_move [OF pick] by (auto simp: pending_def)
  note val = pending_value [OF inv i(1), of 2, simplified]
  have ok: "plan_ok fn ms" "move_ok fn ?p" using inv i(2) by (auto simp: plan_inv_def plan_ok_def)
  have clob: "pm_clobber_reg ?p = planned_move_clobber_reg fn ?d ?v" using ok(2) by (simp add: move_ok_def)
  have C: "?C \<subseteq> preg_bytes ?d" "pm_clobber_reg ?p < 21" using clobber_in_dst [OF val(3,4)] by (simp_all add: clob)
  obtain m' where m': "exec_list L (lines_of (rins_mov_preg_from_vreg B fn ?d ?v)) m = Some m'" "moves_value L B fn ?d ?v m m'"
    using move_code [OF val(3,4,2)] by blast
  have t: "touches ?C 2 m m'" and new: "same_value (is_byte (vr fn ?v)) (get_reg m' ?d) (value_of L B fn m0 ?v)"
    using m'(2) by (auto simp: moves_value_def clob val(1))
  have reg: "plain_reg ?d" using val(4) by (simp add: dst_fits_def)
  have sp: "get_reg m' 4 = get_reg m 4"
    by (rule touches_reg [OF t]) (use C(1) plain_reg_bytes [OF reg] in auto)
  have sv: "filter pm_saved ?ms = filter pm_saved ms"
  proof -
    have "\<not> pm_saved ?p" using inv i by (auto simp: plan_inv_def pending_def)
    then have "filter pm_saved (take i ms @ settle False ?p # drop (Suc i) ms) = filter pm_saved (take i ms @ ?p # drop (Suc i) ms)"
      by simp
    then show ?thesis using i(2) by (simp only: split_at [OF i(2), symmetric] upd_conv_take_nth_drop)
  qed
  have st: "stacked L B fn m0 m' (get_reg m 4) (map pm_src_vreg (rev (filter pm_saved ms)))"
    by (rule stacked_touch [OF plan_invD(4) [OF inv] t saved_room [OF inv]]) simp
  have "plan_inv L B fn m0 ?ms m'"
  proof (rule inv_settle [OF inv i(1) t])
    fix j
    assume j: "pending ms j" "j \<noteq> i"
    then have "move_ok fn (ms ! j)" using ok(1) by (auto simp: plan_ok_def pending_def)
    then have "pm_src_dep_reg (ms ! j) < 21" by (simp add: move_ok_def dep_small)
    then show "?C \<inter> preg_bytes (pm_src_dep_reg (ms ! j)) = {}"
      using free_move(2) [OF pick j] C(2) by (simp add: write_clobbers_alias pregs_alias_overlap)
  next
    show "get_reg m' 4 = get_reg m0 4 - of_nat (2 * nsaved ?ms)" by (simp only: sp plan_invD(3) [OF inv] nsaved_def sv)
    show "stacked L B fn m0 m' (get_reg m' 4) (map pm_src_vreg (rev (filter pm_saved ?ms)))" by (simp only: sp sv st)
  qed (use C(1) new in auto)
  with m'(1) show ?thesis by blast
qed

text \<open>The source of a move is saved.\<close>

lemma step_saved:
  assumes inv: "plan_inv L B fn m0 ms m" and i: "pending ms i" "\<not> dst_in_ax (ms ! i)"
    and first: "\<And>j. pending ms j \<Longrightarrow> \<not> dst_in_ax (ms ! j) \<Longrightarrow> i \<le> j"
  shows "\<exists>m'. exec_list L (lines_of (rins_push_vreg_temp B fn (pm_src_vreg (ms ! i)))) m = Some m' \<and>
           plan_inv L B fn m0 (ms[i := settle True (ms ! i)]) m'"
proof -
  let ?p = "ms ! i" and ?ms = "ms[i := settle True (ms ! i)]"
  let ?v = "pm_src_vreg ?p"
  have l: "i < length ms" "\<not> pm_done ?p" using i by (auto simp: pending_def)
  note val = pending_value [OF inv i(1), of 2, simplified]
  obtain m' where m': "exec_list L (lines_of (rins_push_vreg_temp B fn ?v)) m = Some m'" "pushed L B fn ?v m m'"
    using push_code [OF val(3,2)] by blast
  have t: "touches {8, 9} 4 m m'" and sp: "get_reg m' 4 = get_reg m 4 - 2"
    and new: "same_value (is_byte (vr fn ?v)) (load_word m' (get_reg m 4 - 2)) (value_of L B fn m0 ?v)"
    using m'(2) by (auto simp: pushed_def val(1))
  have sv: "filter pm_saved ?ms = filter pm_saved ms @ [settle True ?p]"
  proof -
    have "\<not> pm_saved ?p" using inv l by (auto simp: plan_inv_def)
    moreover have "\<not> pm_saved q" if mem: "q \<in> set (drop (Suc i) ms)" for q
    proof
      assume q: "pm_saved q"
      obtain k where "k < length (drop (Suc i) ms)" "q = drop (Suc i) ms ! k" using mem unfolding in_set_conv_nth by blast
      then have "q = ms ! (Suc i + k)" "Suc i + k < length ms" by auto
      with q have "Suc i + k < i" using inv i unfolding plan_inv_def by blast
      then show False by simp
    qed
    then have "filter pm_saved (drop (Suc i) ms) = []" by (simp add: filter_empty_conv)
    ultimately have "filter pm_saved (take i ms @ settle True ?p # drop (Suc i) ms) =
        filter pm_saved (take i ms @ ?p # drop (Suc i) ms) @ [settle True ?p]"
      by simp
    then show ?thesis using l(1) by (simp only: split_at [OF l(1), symmetric] upd_conv_take_nth_drop)
  qed
  have st: "stacked L B fn m0 m' (get_reg m 4) (map pm_src_vreg (rev (filter pm_saved ms)))"
    by (rule stacked_touch [OF plan_invD(4) [OF inv] t saved_room [OF inv]]) simp
  have "plan_inv L B fn m0 ?ms m'"
  proof (rule inv_settle [OF inv i(1) t])
    fix j
    assume j: "pending ms j" "j \<noteq> i"
    then have "move_ok fn (ms ! j)" using plan_invD(1) [OF inv] by (auto simp: plan_ok_def pending_def)
    then show "{8, 9} \<inter> preg_bytes (pm_src_dep_reg (ms ! j)) = {}" using dep_not_sp by (auto simp: move_ok_def)
  next
    show "get_reg m' 4 = get_reg m0 4 - of_nat (2 * nsaved ?ms)"
      by (simp add: sp plan_invD(3) [OF inv] nsaved_def sv algebra_simps)
    show "stacked L B fn m0 m' (get_reg m' 4) (map pm_src_vreg (rev (filter pm_saved ?ms)))"
      using st new by (simp add: sp sv)
  qed (use i(2) first in auto)
  with m'(1) show ?thesis by blast
qed

lemma plan_loop_code:
  assumes "plan_inv L B fn m0 ms m" "npending ms = n" "plan_loop B fn n ms = (cs, ms')"
  shows "\<exists>m'. exec_list L (lines_of cs) m = Some m' \<and> plan_inv L B fn m0 ms' m' \<and> npending ms' = 0 \<and>
           map (\<lambda>p. (pm_dst_reg p, pm_src_vreg p)) ms' = map (\<lambda>p. (pm_dst_reg p, pm_src_vreg p)) ms"
  using assms
proof (induction n arbitrary: ms m cs)
  case 0
  then show ?case by simp
next
  case (Suc n)
  obtain k where k: "pending ms k" using Suc.prems(2) npending_0 [of ms] by auto
  have keys: "map (\<lambda>p. (pm_dst_reg p, pm_src_vreg p)) (ms[i := settle sv (ms ! i)]) = map (\<lambda>p. (pm_dst_reg p, pm_src_vreg p)) ms"
    if "i < length ms" for i sv
    using that by (intro nth_equalityI) (auto simp: nth_list_update)
  have go: ?case if i: "pending ms i" and cs: "cs = note_fixup (pm_reason (ms ! i)) # ds @ fst (plan_loop B fn n (ms[i := settle sv (ms ! i)]))"
    "ms' = snd (plan_loop B fn n (ms[i := settle sv (ms ! i)]))"
    and run: "exec_list L (lines_of ds) m = Some m1" and inv: "plan_inv L B fn m0 (ms[i := settle sv (ms ! i)]) m1" for i ds sv m1
  proof -
    have "npending (ms[i := settle sv (ms ! i)]) = n"
      using npending_update [OF i, of "settle sv (ms ! i)"] Suc.prems(2) by simp
    moreover obtain cs2 where loop: "plan_loop B fn n (ms[i := settle sv (ms ! i)]) = (cs2, ms')"
      using cs(2) by (cases "plan_loop B fn n (ms[i := settle sv (ms ! i)])") auto
    ultimately obtain m' where rest: "exec_list L (lines_of cs2) m1 = Some m'"
      "plan_inv L B fn m0 ms' m'" "npending ms' = 0"
      "map (\<lambda>p. (pm_dst_reg p, pm_src_vreg p)) ms' = map (\<lambda>p. (pm_dst_reg p, pm_src_vreg p)) (ms[i := settle sv (ms ! i)])"
      using Suc.IH [OF inv] by blast
    have "exec_list L (lines_of cs) m = Some m'" unfolding cs(1) loop by (simp add: exec_append run rest(1))
    moreover have "i < length ms" using i by (simp add: pending_def)
    ultimately show ?thesis using rest(2,3) trans [OF rest(4) keys] by blast
  qed
  show ?case
  proof (cases "pick_free_move ms")
    case (Some i)
    have st: "(ms ! i)\<lparr>pm_done := True\<rparr> = settle False (ms ! i)" by (simp add: settle_def)
    obtain m1 where "exec_list L (lines_of (rins_mov_preg_from_vreg B fn (pm_dst_reg (ms ! i)) (pm_src_vreg (ms ! i)))) m = Some m1"
      "plan_inv L B fn m0 (ms[i := settle False (ms ! i)]) m1"
      using step_free [OF Suc.prems(1) Some] by blast
    note run = this
    show ?thesis
      by (rule go [OF free_move(1) [OF Some] _ _ run]) (use Suc.prems(3) in \<open>auto simp: Some st split_beta Let_def\<close>)
  next
    case None
    obtain i where i: "pick_saved_move ms = Some i" "pending ms i" "\<not> dst_in_ax (ms ! i)"
      "\<And>j. pending ms j \<Longrightarrow> \<not> dst_in_ax (ms ! j) \<Longrightarrow> i \<le> j"
      using saved_move [OF None k plan_one_in_ax [OF plan_invD(1) [OF Suc.prems(1)]]] by blast
    have st: "(ms ! i)\<lparr>pm_done := True, pm_saved := True\<rparr> = settle True (ms ! i)" by (simp add: settle_def)
    obtain m1 where "exec_list L (lines_of (rins_push_vreg_temp B fn (pm_src_vreg (ms ! i)))) m = Some m1"
      "plan_inv L B fn m0 (ms[i := settle True (ms ! i)]) m1"
      using step_saved [OF Suc.prems(1) i(2-4)] by blast
    note run = this
    show ?thesis
      by (rule go [OF i(2) _ _ run]) (use Suc.prems(3) in \<open>auto simp: None i(1) st split_beta Let_def\<close>)
  qed
qed

section \<open>The plan is a parallel assignment\<close>

lemma fresh_plan_inv:
  assumes "plan_ok fn ms" "room ms < 65536" "\<forall>p\<in>set ms. slot_clear B fn m (room ms) (pm_src_vreg p)"
    "\<forall>p\<in>set ms. \<not> pm_done p \<and> \<not> pm_saved p"
  shows "plan_inv L B fn m ms m"
proof -
  have s: "filter pm_saved ms = []" using assms(4) by (simp add: filter_empty_conv)
  then show ?thesis using assms by (auto simp: plan_inv_def nsaved_def all_set_conv_all_nth)
qed

text \<open>What popping the saved values does, and what is then true of the whole plan.\<close>

definition pops_effect :: "label_env \<Rightarrow> nib_program \<Rightarrow> func \<Rightarrow> machine \<Rightarrow> planned_move list \<Rightarrow> machine \<Rightarrow> machine \<Rightarrow> bool" where
  "pops_effect L B fn m0 ms m1 m2 \<longleftrightarrow>
     get_reg m2 4 = get_reg m0 4 \<and>
     (\<forall>p\<in>set ms. pm_saved p \<longrightarrow>
        same_value (is_byte (vr fn (pm_src_vreg p))) (get_reg m2 (pm_dst_reg p)) (value_of L B fn m0 (pm_src_vreg p))) \<and>
     (\<forall>c. c \<notin> dst_bytes (filter pm_saved ms) \<union> {8, 9} \<longrightarrow> cell m2 c = cell m1 c) \<and>
     (\<forall>a. a \<notin> below (get_reg m0 4) (room ms) \<longrightarrow> ssmem m2 a = ssmem m1 a)"

lemma dst_bytes_rev [simp]: "dst_bytes (rev ms) = dst_bytes ms"
  by (simp add: dst_bytes_def)

lemma plan_pops:
  assumes inv: "plan_inv L B fn m0 ms m1"
  shows "\<exists>m2. exec_list L (lines_of (concat (map pop_saved (rev ms)))) m1 = Some m2 \<and> pops_effect L B fn m0 ms m1 m2"
proof -
  let ?saved = "rev (filter pm_saved ms)"
  note D = plan_invD [OF inv]
  have skip: "concat (map pop_saved (rev ms)) = concat (map pop_saved ?saved)"
    by (induction ms) (simp_all add: pop_saved_def)
  have apart: "dsts_apart ?saved"
    using D(1) by (auto simp: plan_ok_def dsts_apart_def sorted_wrt_rev Int_commute intro: sorted_wrt_filter)
  have pop: "\<forall>p\<in>set ?saved. pm_saved p \<and> poppable fn p"
    using inv D(1) by (auto simp: plan_inv_def plan_ok_def move_ok_def dst_fits_def poppable_def)
  obtain m2 where m2: "exec_list L (lines_of (concat (map pop_saved ?saved))) m1 = Some m2"
    "get_reg m2 4 = get_reg m1 4 + of_nat (2 * length ?saved)"
    "\<forall>p\<in>set ?saved. same_value (is_byte (vr fn (pm_src_vreg p))) (get_reg m2 (pm_dst_reg p)) (value_of L B fn m0 (pm_src_vreg p))"
    "\<forall>c. c \<notin> dst_bytes ?saved \<union> {8, 9} \<longrightarrow> cell m2 c = cell m1 c"
    "\<forall>a. a \<notin> below (get_reg m1 4 + of_nat (2 * length ?saved)) (2 * length ?saved + 2) \<longrightarrow> ssmem m2 a = ssmem m1 a"
    using pops_code [OF apart pop D(4)] saved_room [OF inv, of 4] by auto
  have sp: "get_reg m1 4 + of_nat (2 * length ?saved) = get_reg m0 4" by (simp add: D(3) nsaved_def)
  have "below (get_reg m0 4) (2 * length ?saved + 2) \<subseteq> below (get_reg m0 4) (room ms)"
    by (rule below_mono) (use nsaved_le [of ms] in \<open>unfold room_def nsaved_def length_rev, linarith\<close>)
  then have mem: "\<forall>a. a \<notin> below (get_reg m0 4) (room ms) \<longrightarrow> ssmem m2 a = ssmem m1 a"
    using m2(5) unfolding sp by blast
  have "pops_effect L B fn m0 ms m1 m2"
    unfolding pops_effect_def
  proof (intro conjI)
    show "get_reg m2 4 = get_reg m0 4" by (simp only: m2(2) sp)
  qed (use mem m2(3,4) in simp_all)
  with m2(1) skip show ?thesis by auto
qed

lemma plan_values:
  assumes inv: "plan_inv L B fn m0 ms m1" and np: "npending ms = 0" and pops: "pops_effect L B fn m0 ms m1 m2" and p: "p \<in> set ms"
  shows "same_value (is_byte (vr fn (pm_src_vreg p))) (get_reg m2 (pm_dst_reg p)) (value_of L B fn m0 (pm_src_vreg p))"
proof (cases "pm_saved p")
  case True
  then show ?thesis using pops p by (simp add: pops_effect_def)
next
  case False
  note D = plan_invD(1) [OF inv]
  have "pm_done p" using np p by (auto simp: npending_def filter_empty_conv)
  then have v: "same_value (is_byte (vr fn (pm_src_vreg p))) (get_reg m1 (pm_dst_reg p)) (value_of L B fn m0 (pm_src_vreg p))"
    using inv p False unfolding plan_inv_def by blast
  have reg: "plain_reg (pm_dst_reg p)" using D p by (auto simp: plan_ok_def move_ok_def dst_fits_def)
  have "get_reg m2 (pm_dst_reg p) = get_reg m1 (pm_dst_reg p)"
  proof (rule get_reg_cong)
    fix c
    assume c: "c \<in> preg_bytes (pm_dst_reg p)"
    have "c \<notin> preg_bytes (pm_dst_reg q)" if q: "q \<in> set (filter pm_saved ms)" for q
    proof -
      obtain i j where "i < length ms" "j < length ms" "p = ms ! i" "q = ms ! j"
        using p q by (auto simp: in_set_conv_nth)
      then show ?thesis using plan_apart [OF D, of i j] c False q by auto
    qed
    then have "c \<notin> dst_bytes (filter pm_saved ms)" unfolding dst_bytes_def by blast
    moreover have "c \<noteq> 8" "c \<noteq> 9" using c plain_reg_bytes [OF reg] by auto
    ultimately show "cell m2 c = cell m1 c" using pops unfolding pops_effect_def by blast
  qed (use reg in \<open>simp add: plain_reg_def\<close>)
  with v show ?thesis by simp
qed

lemma plan_frame:
  assumes inv: "plan_inv L B fn m0 ms m1" and pops: "pops_effect L B fn m0 ms m1 m2"
  shows "touches (dst_bytes ms) (room ms) m0 m2"
  unfolding touches_def
proof (intro conjI allI impI)
  fix c
  assume c: "c \<notin> dst_bytes ms"
  show "cell m2 c = cell m0 c"
  proof (cases "c = 8 \<or> c = 9")
    case True
    have "get_reg m2 4 = get_reg m0 4" using pops by (simp add: pops_effect_def)
    then show ?thesis using True lo_hi_get(3,4) by metis
  next
    case False
    have "dst_bytes (filter pm_saved ms) \<subseteq> dst_bytes ms" by (auto simp: dst_bytes_def)
    then have "cell m2 c = cell m1 c" using pops c False unfolding pops_effect_def by blast
    also have "\<dots> = cell m0 c" using inv c False unfolding plan_inv_def by blast
    finally show ?thesis .
  qed
next
  fix a
  assume a: "a \<notin> below (get_reg m0 4) (room ms)"
  then have "ssmem m2 a = ssmem m1 a" using pops unfolding pops_effect_def by blast
  also have "\<dots> = ssmem m0 a" using inv a unfolding plan_inv_def by blast
  finally show "ssmem m2 a = ssmem m0 a" .
qed

lemma planned_moves_code:
  assumes ok: "plan_ok fn ms" "room ms < 65536" "\<forall>p\<in>set ms. slot_clear B fn m (room ms) (pm_src_vreg p)"
    and fresh: "\<forall>p\<in>set ms. \<not> pm_done p \<and> \<not> pm_saved p"
  shows "\<exists>m'. exec_list L (lines_of (emit_planned_register_moves B fn ms)) m = Some m' \<and>
           (\<forall>p\<in>set ms. same_value (is_byte (vr fn (pm_src_vreg p))) (get_reg m' (pm_dst_reg p)) (value_of L B fn m (pm_src_vreg p))) \<and>
           touches (dst_bytes ms) (room ms) m m'"
proof -
  let ?key = "\<lambda>p. (pm_dst_reg p, pm_src_vreg p)"
  obtain cs ms' where loop: "plan_loop B fn (length ms) ms = (cs, ms')" by fastforce
  have "npending ms = length ms" using fresh by (simp add: npending_def)
  from plan_loop_code [OF fresh_plan_inv [OF ok fresh] this loop] obtain m1 where
    run1: "exec_list L (lines_of cs) m = Some m1" and inv: "plan_inv L B fn m ms' m1" and np: "npending ms' = 0"
    and keys: "map ?key ms' = map ?key ms"
    by blast
  obtain m2 where m2: "exec_list L (lines_of (concat (map pop_saved (rev ms')))) m1 = Some m2" "pops_effect L B fn m ms' m1 m2"
    using plan_pops [OF inv] by blast
  have "map fst (map ?key ms') = map fst (map ?key ms)" by (simp only: keys)
  then have "pm_dst_reg ` set ms' = pm_dst_reg ` set ms" by (simp add: comp_def) (metis set_map)
  then have bytes: "dst_bytes ms' = dst_bytes ms" unfolding dst_bytes_def by (metis image_image)
  have len: "room ms' = room ms" using arg_cong [OF keys, of length] by (simp add: room_def)
  have "same_value (is_byte (vr fn (pm_src_vreg p))) (get_reg m2 (pm_dst_reg p)) (value_of L B fn m (pm_src_vreg p))"
    if p: "p \<in> set ms" for p
  proof -
    have "?key p \<in> ?key ` set ms'" using p keys by (metis (no_types, lifting) image_eqI set_map)
    then show ?thesis using plan_values [OF inv np m2(2)] by auto
  qed
  moreover have "touches (dst_bytes ms) (room ms) m m2" using plan_frame [OF inv m2(2)] by (simp only: bytes len)
  ultimately show ?thesis
    using run1 m2(1) by (auto simp: emit_planned_register_moves_def loop exec_append)
qed

section \<open>Arguments of a call\<close>

text \<open>The arguments of a call that are passed in registers fit their registers, which are apart.\<close>

definition args_fit :: "func \<Rightarrow> (int \<times> int) list \<Rightarrow> bool" where
  "args_fit fn args \<longleftrightarrow>
     (\<forall>(d, v)\<in>set args. has_place fn v \<and> dst_fits fn d v \<and> (pregs_alias (assigned (vr fn v)) d \<longrightarrow> assigned (vr fn v) = d)) \<and>
     sorted_wrt (\<lambda>x y. \<not> pregs_alias (fst x) (fst y)) args \<and>
     \<not> (PREG_AL \<in> fst ` set (filter (needs_move fn) args) \<and> PREG_AH \<in> fst ` set (filter (needs_move fn) args))"

lemma args_fit_length:
  assumes "args_fit fn args"
  shows "length args \<le> 20"
proof -
  have r: "set (map fst args) \<subseteq> {0..19}" using assms by (auto simp: args_fit_def dst_fits_def plain_reg_def)
  have "sorted_wrt (\<noteq>) (map fst args)"
    unfolding sorted_wrt_map
  proof (rule sorted_wrt_mono_rel [of args "\<lambda>x y. \<not> pregs_alias (fst x) (fst y)"])
    show "sorted_wrt (\<lambda>x y. \<not> pregs_alias (fst x) (fst y)) args" using assms by (simp add: args_fit_def)
    show "fst x \<noteq> fst y" if "x \<in> set args" "y \<in> set args" "\<not> pregs_alias (fst x) (fst y)" for x y
      using that r by (auto simp: pregs_alias_def split: if_splits)
  qed
  then have "distinct (map fst args)" by (simp add: distinct_conv_nth sorted_wrt_iff_nth_less) (metis linorder_neqE_nat)
  then have "length args = card (set (map fst args))" by (metis distinct_card length_map)
  also have "\<dots> \<le> card {0 :: int..19}" by (rule card_mono [OF _ r]) simp
  finally show ?thesis by simp
qed

lemma slot_clear_mono: "slot_clear B fn m d v \<Longrightarrow> e \<le> d \<Longrightarrow> slot_clear B fn m e v"
  using below_mono [of e d "get_reg m 4"] by (auto simp: slot_clear_def Let_def split: asm_arg.splits)

lemma args_plan_ok:
  assumes "args_fit fn args"
  shows "plan_ok fn (map (\<lambda>(d, v). plan_move fn r d v) (filter (needs_move fn) args))"
proof -
  let ?ms = "map (\<lambda>(d, v). plan_move fn r d v) (filter (needs_move fn) args)"
  have d: "map pm_dst_reg ?ms = map fst (filter (needs_move fn) args)" by (auto simp: plan_move_def)
  have "sorted_wrt (\<lambda>x y. \<not> pregs_alias (fst x) (fst y)) (filter (needs_move fn) args)"
    using assms by (auto simp: args_fit_def intro: sorted_wrt_filter)
  then have "sorted_wrt (\<lambda>x y. preg_bytes (fst x) \<inter> preg_bytes (fst y) = {}) (filter (needs_move fn) args)"
  proof (rule sorted_wrt_mono_rel [rotated])
    fix x y
    assume "x \<in> set (filter (needs_move fn) args)" "y \<in> set (filter (needs_move fn) args)" "\<not> pregs_alias (fst x) (fst y)"
    then show "preg_bytes (fst x) \<inter> preg_bytes (fst y) = {}"
      using assms by (subst (asm) pregs_alias_overlap) (auto simp: args_fit_def dst_fits_def plain_reg_def)
  qed
  then have "dsts_apart ?ms" unfolding dsts_apart_map d by (simp add: sorted_wrt_map)
  moreover have "\<forall>p\<in>set ?ms. move_ok fn p" using assms by (auto simp: args_fit_def move_ok_def plan_move_def)
  moreover have "pm_dst_reg ` set ?ms = fst ` set (filter (needs_move fn) args)" using arg_cong [OF d, of set] by (simp only: set_map)
  ultimately show ?thesis using assms by (simp add: plan_ok_def args_fit_def)
qed

text \<open>An argument that needs no move is in its register, which the moves leave alone.\<close>

lemma unmoved_arg:
  assumes fit: "args_fit fn args" and a: "(d, v) \<in> set args" "\<not> needs_move fn (d, v)"
    and t: "touches C e m m'" "C = (\<Union>x\<in>set (filter (needs_move fn) args). preg_bytes (fst x))"
  shows "get_reg m' d = value_of L B fn m v"
proof -
  have v: "has_place fn v" "dst_fits fn d v" "assigned (vr fn v) = d" using fit a by (auto simp: args_fit_def needs_move_def)
  then have val: "value_of L B fn m v = get_reg m d"
    by (cases rule: source_cases [OF v(1), where B = B and L = L]) (auto simp: value_of_def dst_fits_def plain_reg_def)
  have d: "0 \<le> d" "d < 21" using v(2) by (auto simp: dst_fits_def plain_reg_def)
  have "preg_bytes d \<inter> preg_bytes (fst x) = {}" if x: "x \<in> set (filter (needs_move fn) args)" for x
  proof -
    have "x \<noteq> (d, v)" using x a(2) by auto
    then obtain i j where ij: "i < length args" "j < length args" "i \<noteq> j" "args ! i = x" "args ! j = (d, v)"
      using x a(1) by (metis filter_is_subset in_set_conv_nth subsetD)
    have w: "sorted_wrt (\<lambda>x y. \<not> pregs_alias (fst x) (fst y)) args" using fit by (simp add: args_fit_def)
    have "i < j \<or> j < i" using ij(3) by auto
    then have "\<not> pregs_alias (fst x) d \<or> \<not> pregs_alias d (fst x)"
      using sorted_wrt_nth_less [OF w, of i j] sorted_wrt_nth_less [OF w, of j i] ij by fastforce
    then have "\<not> pregs_alias d (fst x)" using pregs_alias_sym by blast
    moreover have "fst x < 21" using fit x by (auto simp: args_fit_def dst_fits_def plain_reg_def)
    ultimately show ?thesis using d by (simp add: pregs_alias_overlap)
  qed
  then have "preg_bytes d \<inter> C = {}" unfolding t(2) by blast
  then show ?thesis using touches_reg [OF t(1) d(1)] val by simp
qed


text \<open>A call of an external function with three register parameters: the first two arguments are in
  each other's register, the third is a byte in a stack slot.\<close>

definition sample_ext :: "int list \<Rightarrow> extern_fn" where
  "sample_ext pins = \<lparr>ext_name = ''f'', ext_is_far = False, ext_ds_policy = DS_POLICY_UNSPEC, ext_ds_symbol = [],
     ext_ds_literal = 0, ext_has_address = False, ext_addr_seg = 0, ext_addr_off = 0, ext_param_pins = pins,
     ext_param_places = map (\<lambda>_. ABI_PLACE_REGISTER) pins, ext_param_stack_offsets = map (\<lambda>_. 0) pins,
     ext_return_types = [], ext_ret_pins = [], ext_ret_places = [], ext_return_stack_offsets = [], ext_preserves = []\<rparr>"

definition sample_program :: "int list \<Rightarrow> nib_program" where
  "sample_program pins = \<lparr>prog_functions = [], externs = [sample_ext pins], fn_assigns = []\<rparr>"

definition swap_fn :: func where
  "swap_fn = new_func\<lparr>vregs := [init_vreg_info\<lparr>assigned := PREG_BX\<rparr>, init_vreg_info\<lparr>assigned := PREG_AX\<rparr>,
     init_vreg_info\<lparr>is_byte := True, spill_slot := 0\<rparr>]\<rparr>"

definition swap_call :: ir_insn where
  "swap_call = ir_insn0\<lparr>op := IR_CALL, iname := ''f'', src1 := 0, src2 := 1, extra_args := [2], nargs := 3\<rparr>"

definition sample_machine :: machine where
  "sample_machine = \<lparr>cell = (\<lambda>c. word_of_int (c + 1)), ssmem = (\<lambda>_. 7)\<rparr>"

lemma swap_call_args: "register_args (sample_program [0, 3, 9]) swap_fn swap_call (Callee_ext 0) False = [(0, 0), (3, 1), (9, 2)]"
  by code_simp


section \<open>Both halves of the accumulator\<close>

text \<open>Arguments that are in each other's half of the accumulator are the one cycle that the planner does
  not break.\<close>

definition halves_fn :: func where
  "halves_fn = new_func\<lparr>vregs := [init_vreg_info\<lparr>is_byte := True, assigned := PREG_AH\<rparr>,
     init_vreg_info\<lparr>is_byte := True, assigned := PREG_AL\<rparr>]\<rparr>"

definition halves_call :: ir_insn where
  "halves_call = ir_insn0\<lparr>op := IR_CALL, iname := ''f'', src1 := 0, src2 := 1, nargs := 2\<rparr>"

lemma halves_code:
  "lines_of (emit_call_arg_register_moves (sample_program [8, 12]) halves_fn halves_call (Callee_ext 0) False) =
     [Push (Reg PREG_AX), Mov (Reg PREG_AL) (Reg PREG_AH)] @ swap_lines @
     [Pop (Reg PREG_BP), Mov (Reg PREG_AH) (Reg PREG_AL), Pop (Reg PREG_AX)]"
  by code_simp

text \<open>When the two arguments of a call are to be exchanged between AL and AH, the code for it loses
  one: AH has its old value at the end, and not the one that was in AL.\<close>

theorem accumulator_halves_not_exchanged:
  "register_args (sample_program [8, 12]) halves_fn halves_call (Callee_ext 0) False = [(PREG_AL, 0), (PREG_AH, 1)] \<and>
   vreg_asm (sample_program [8, 12]) halves_fn 1 = Reg PREG_AL \<and>
   (\<exists>m'. exec_list L (lines_of (emit_call_arg_register_moves (sample_program [8, 12]) halves_fn halves_call (Callee_ext 0) False)) m =
           Some m' \<and> get_reg m' PREG_AH = get_reg m PREG_AH)"
proof (intro conjI)
  let ?m1 = "push_word (get_reg m PREG_AX) m"
  let ?m2 = "set_reg PREG_AL (get_reg ?m1 PREG_AH) ?m1" and ?s = "get_reg m PREG_SP"
  obtain m3 where m3: "exec_ins L (Pop (Reg PREG_BP)) (swapped ?m2) = Some m3"
    "cell m3 = (cell (swapped ?m2))(8 := cell ?m2 8, 9 := cell ?m2 9, 10 := cell ?m2 10, 11 := cell ?m2 11)"
    "ssmem m3 = ssmem (swapped ?m2)"
    using pop_bp_after_swap [of "swapped ?m2" ?m2] by auto
  let ?m4 = "set_reg PREG_AH (get_reg m3 PREG_AL) m3"
  have sp2: "get_reg ?m2 4 = ?s - 2" by simp
  have "get_reg m3 4 = get_reg ?m2 4" unfolding sp_cells m3(2) by simp
  then have sp: "get_reg ?m4 4 = ?s - 2" using sp2 by (simp add: plain_reg_def)
  have "load_word ?m4 (?s - 2) = load_word (swapped ?m2) (get_reg ?m2 4)"
    by (simp only: load_word_def m3(3) ssmem_set_reg sp2)
  also have "\<dots> = get_reg ?m2 0" by (rule swapped_top)
  finally have top: "load_word ?m4 (?s - 2) = get_reg ?m2 0" .
  let ?m5 = "set_reg PREG_AX (get_reg ?m2 0) (set_reg PREG_SP ?s ?m4)"
  have "exec_list L ([Push (Reg PREG_AX), Mov (Reg PREG_AL) (Reg PREG_AH)] @ swap_lines @
      [Pop (Reg PREG_BP), Mov (Reg PREG_AH) (Reg PREG_AL), Pop (Reg PREG_AX)]) m = Some ?m5"
    using m3(1) top sp by (simp add: exec_append swap_exec preg_is_byte_def Let_def)
  moreover have "get_reg ?m5 PREG_AH = get_reg m PREG_AH" by (simp add: get_reg_def [of _ 12])
  ultimately show "\<exists>m'. exec_list L (lines_of (emit_call_arg_register_moves (sample_program [8, 12]) halves_fn halves_call
      (Callee_ext 0) False)) m = Some m' \<and> get_reg m' PREG_AH = get_reg m PREG_AH"
    unfolding halves_code by blast
qed code_simp+

end
