(* ===== verification/Bind_Fixup.thy ===== *)
theory Bind_Fixup
  imports Bind_Moves
begin

text \<open>
  The resolved stream of a function, \<^verbatim>\<open>insert_fixup_moves\<close> of \<^verbatim>\<open>src/bind.c\<close>: for each
  instruction its moves, saves and restores around the instruction itself. The stream that the code
  builds by side effects is the list of the calls that write to it.
\<close>

section \<open>Values in the stack cache\<close>

definition stack_cache_storage_preg :: "func \<Rightarrow> nat \<Rightarrow> int" where
  "stack_cache_storage_preg fn v =
     (let preg = assigned (vregs fn ! v) in if preg \<ge> PREG_AL \<and> preg \<le> PREG_BH then preg_alias_parent preg else preg)"

text \<open>The registers that are cached at an instruction, each storage once.\<close>

definition cached_at :: "func \<Rightarrow> (vreg_info \<Rightarrow> int) \<Rightarrow> nat \<Rightarrow> int list" where
  "cached_at fn pos i =
     (let here = (\<lambda>v. stack_spill_eligible (vregs fn ! v) \<and> pos (vregs fn ! v) = int i)
      in map (stack_cache_storage_preg fn)
           (filter (\<lambda>v. here v \<and> \<not> list_ex (\<lambda>u. here u \<and> stack_cache_storage_preg fn u = stack_cache_storage_preg fn v) [0..<v])
              [0..<nvregs fn]))"

definition rins_stack_cache_pop_for_insn :: "func \<Rightarrow> nat \<Rightarrow> rins_call list" where
  "rins_stack_cache_pop_for_insn fn i =
     map (\<lambda>p. rins_asm_spill SPILL_STACK_POP (Pop (Reg p))) (cached_at fn stack_spill_use i)"

definition rins_stack_cache_push_for_insn :: "func \<Rightarrow> nat \<Rightarrow> rins_call list" where
  "rins_stack_cache_push_for_insn fn i =
     map (\<lambda>p. rins_asm_spill SPILL_STACK_PUSH (Push (Reg p))) (cached_at fn stack_spill_def i)"

definition rins_ir_stack_cached :: "func \<Rightarrow> nat \<Rightarrow> rins_call list" where
  "rins_ir_stack_cached fn i =
     rins_stack_cache_pop_for_insn fn i @ [rins_ir i] @ rins_stack_cache_push_for_insn fn i"

section \<open>Registers saved around a call\<close>

definition preg_covered_by_pusha :: "int \<Rightarrow> bool" where
  "preg_covered_by_pusha p \<longleftrightarrow>
     p = PREG_AX \<or> p = PREG_CX \<or> p = PREG_DX \<or> p = PREG_BX \<or> p = PREG_BP \<or> p = PREG_SI \<or> p = PREG_DI"

definition save_set_pusha_count :: "int list \<Rightarrow> nat" where
  "save_set_pusha_count regs = length (filter preg_covered_by_pusha regs)"

definition save_set_uses_pusha :: "int list \<Rightarrow> bool" where
  "save_set_uses_pusha regs \<longleftrightarrow> save_set_pusha_count regs \<ge> 6"

abbreviation (input) PREG_FLAGS :: int where "PREG_FLAGS \<equiv> 20"

definition emit_call_saved_push :: "int \<Rightarrow> rins_call" where
  "emit_call_saved_push p =
     rins_asm_fixup FIXUP_CALL_SAVE (if p = PREG_FLAGS then Plain ''pushf'' else Push (Reg p))"

definition emit_call_saved_pop :: "int \<Rightarrow> rins_call" where
  "emit_call_saved_pop p =
     rins_asm_fixup FIXUP_CALL_RESTORE (if p = PREG_FLAGS then Plain ''popf'' else Pop (Reg p))"

definition emit_call_saves :: "int list \<Rightarrow> rins_call list \<times> bool" where
  "emit_call_saves regs =
     (if save_set_uses_pusha regs
      then (map emit_call_saved_push (filter (\<lambda>p. \<not> preg_covered_by_pusha p) regs) @
              [rins_asm_fixup FIXUP_CALL_SAVE (Plain ''pusha'')], True)
      else (map emit_call_saved_push regs, False))"

definition emit_call_restores :: "int list \<Rightarrow> bool \<Rightarrow> rins_call list" where
  "emit_call_restores regs used_pusha =
     (if used_pusha
      then rins_asm_fixup FIXUP_CALL_RESTORE (Plain ''popa'') #
             map emit_call_saved_pop (filter (\<lambda>p. \<not> preg_covered_by_pusha p) (rev regs))
      else map emit_call_saved_pop (rev regs))"

definition add_call_saved_reg :: "int \<Rightarrow> int list \<Rightarrow> int list" where
  "add_call_saved_reg p regs = (if p \<in> set regs then regs else if length regs < 16 then regs @ [p] else regs)"

definition call_saved_restores_reg :: "int list \<Rightarrow> int \<Rightarrow> bool" where
  "call_saved_restores_reg regs p \<longleftrightarrow> p \<noteq> PREG_NONE \<and> list_ex (\<lambda>r. pregs_alias r p) regs"

text \<open>The registers that the code for the arguments overwrites, and whether BP is one of them.\<close>

definition collect_call_arg_setup_clobbers ::
    "nib_program \<Rightarrow> func \<Rightarrow> ir_insn \<Rightarrow> callee \<Rightarrow> bool \<Rightarrow> clobbers \<times> bool" where
  "collect_call_arg_setup_clobbers B fn ins c indirect =
     (let as = filter (\<lambda>a. param_place B c a \<noteq> ABI_PLACE_STACK) [0..<min (nat (nargs ins)) (callee_nparams B c)];
          arg = (\<lambda>a. if indirect then ins_extra_arg ins (int a) else call_arg_vreg ins a);
          moved = filter (\<lambda>(e, v). e \<noteq> PREG_NONE \<and> e \<noteq> PREG_SP \<and> valid_vreg fn v \<and> needs_move fn (e, v))
                    (map (\<lambda>a. (param_reg B c a, arg a)) as)
      in (fold (\<lambda>(e, v) cl. cl[nat (if e \<ge> PREG_AL \<and> e \<le> PREG_BH then preg_alias_parent e else e) := True]) moved no_clobbers,
          list_ex (\<lambda>a. param_reg B c a = PREG_BP) as))"

text \<open>The registers that the callee promises to keep.\<close>

definition mark_preserved :: "int list \<Rightarrow> clobbers \<Rightarrow> clobbers" where
  "mark_preserved ps cl = fold (\<lambda>p cl. cl[nat p := True]) ps cl"

definition callee_preserves :: "nib_program \<Rightarrow> callee \<Rightarrow> clobbers" where
  "callee_preserves B c =
     (case c of
        Callee_fn fi \<Rightarrow>
          (let f = prog_functions B ! fi; fa = fn_assigns B ! fi;
               cl = (if fn_preserves f \<noteq> [] then mark_preserved (fn_preserves f) no_clobbers
                     else if fa_resolved fa then map Not (fa_clobbers fa) else no_clobbers)
           in if ds_policy f \<noteq> DS_POLICY_UNSPEC then cl[nat PREG_DS := True] else cl)
      | Callee_ext e \<Rightarrow>
          (let x = externs B ! e; cl = mark_preserved (ext_preserves x) no_clobbers
           in if ext_ds_policy x \<noteq> DS_POLICY_UNSPEC then cl[nat PREG_DS := True] else cl)
      | Callee_none \<Rightarrow> no_clobbers)"

definition is_ret_dst :: "ir_insn \<Rightarrow> nat \<Rightarrow> bool" where
  "is_ret_dst ins v \<longleftrightarrow> int v = dst ins \<or> (op ins = IR_MCALL \<and> int v \<in> set (ret_vregs ins))"

definition save_reg :: "int \<Rightarrow> int" where
  "save_reg p = (if p \<ge> PREG_AL \<and> p \<le> PREG_BH then preg_alias_parent p else p)"

text \<open>The live registers that are saved: those that the callee or the argument moves may change.\<close>

definition save_live :: "func \<Rightarrow> nat \<Rightarrow> (nat \<Rightarrow> bool) \<Rightarrow> clobbers \<Rightarrow> clobbers \<Rightarrow> int list \<Rightarrow> int list" where
  "save_live fn i skip preserves outgoing saved =
     fold (\<lambda>v saved.
       let p = assigned (vregs fn ! v)
       in if skip v \<or> p = PREG_NONE \<or> p = PREG_SP \<or> \<not> vreg_live_after_insn fn i (int v) then saved
          else if preserves ! nat (save_reg p) \<and> \<not> outgoing ! nat (save_reg p) then saved
          else add_call_saved_reg (save_reg p) saved) [0..<nvregs fn] saved"

definition direct_call_saved :: "nib_program \<Rightarrow> func \<Rightarrow> nat \<Rightarrow> callee \<Rightarrow> int list" where
  "direct_call_saved B fn i c =
     (let ins = insns fn ! i;
          preserves = callee_preserves B c;
          (outgoing, bp_param) = collect_call_arg_setup_clobbers B fn ins c False;
          live = (\<lambda>v. \<not> is_ret_dst ins v \<and> vreg_live_after_insn fn i (int v));
          bp_live = (needs_frame fn \<or> list_ex (\<lambda>v. assigned (vregs fn ! v) = PREG_BP \<and> live v) [0..<nvregs fn]);
          saved = (if (needs_frame fn \<and> \<not> preserves ! nat PREG_BP) \<or> (bp_param \<and> bp_live) then [PREG_BP] else []);
          bx_live = list_ex (\<lambda>v. pregs_alias (assigned (vregs fn ! v)) PREG_BX \<and> live v) [0..<nvregs fn];
          saved = (if direct_stack_ret_words B c > 0 \<and> bx_live then add_call_saved_reg PREG_BX saved else saved)
      in save_live fn i (is_ret_dst ins) preserves outgoing saved)"

definition indirect_call_saved :: "nib_program \<Rightarrow> func \<Rightarrow> nat \<Rightarrow> callee \<Rightarrow> int list" where
  "indirect_call_saved B fn i c =
     (let ins = insns fn ! i;
          preserves = callee_preserves B c;
          outgoing = fst (collect_call_arg_setup_clobbers B fn ins c True);
          saved = (if needs_frame fn \<and> \<not> preserves ! nat PREG_BP then [PREG_BP] else [])
      in save_live fn i (\<lambda>v. int v = dst ins) preserves outgoing saved)"

section \<open>Results of a call\<close>

definition rins_store_call_temp_return :: "func \<Rightarrow> int \<Rightarrow> rins_call list" where
  "rins_store_call_temp_return fn expected = [rins_spill_route_move (BpSlot (call_temp_off fn)) (Reg expected)]"

definition rins_load_call_temp_return :: "nib_program \<Rightarrow> func \<Rightarrow> int \<Rightarrow> bool \<Rightarrow> rins_call list" where
  "rins_load_call_temp_return B fn rv byte =
     (let src = BpSlot (call_temp_off fn); acc = (if byte then PREG_AL else PREG_AX)
      in if \<not> valid_vreg fn rv then []
         else if is_spilled fn rv
         then [rins_push_scratch PREG_AX, rins_spill_route_move (Reg acc) src] @
              rins_spill_store_from_reg B fn rv acc @ [rins_pop_scratch PREG_AX]
         else let actual = vreg_preg fn rv
              in if actual = PREG_AX \<or> actual = PREG_AL \<or> actual = PREG_AH
                 then [rins_spill_route_move (vreg_asm B fn rv) src]
                 else [rins_push_scratch PREG_AX, rins_spill_route_move (Reg acc) src,
                       rins_asm (Mov (vreg_asm B fn rv) (Reg acc)), rins_pop_scratch PREG_AX])"

definition ret_vreg_of :: "ir_insn \<Rightarrow> nat \<Rightarrow> int" where
  "ret_vreg_of ins ri = (if ri = 0 then dst ins else ins_ret_vreg ins (int ri - 1))"

definition expected_return :: "nib_program \<Rightarrow> callee \<Rightarrow> nat \<Rightarrow> int" where
  "expected_return B c ri =
     (case c of Callee_fn fi \<Rightarrow> fa_return_regs (fn_assigns B ! fi) ! ri
      | Callee_ext e \<Rightarrow> extern_return_reg (externs B ! e) (int ri) | Callee_none \<Rightarrow> PREG_NONE)"

definition stack_return_disp :: "nib_program \<Rightarrow> callee \<Rightarrow> nat \<Rightarrow> int option" where
  "stack_return_disp B c ri =
     (case c of
        Callee_fn fi \<Rightarrow>
          (if fa_return_places (fn_assigns B ! fi) ! ri = ABI_PLACE_STACK
           then Some (fa_return_stack_offsets (fn_assigns B ! fi) ! ri - (if is_far (prog_functions B ! fi) then 6 else 4))
           else None)
      | Callee_ext e \<Rightarrow>
          (if ext_ret_places (externs B ! e) ! ri = ABI_PLACE_STACK
           then Some (ext_return_stack_offsets (externs B ! e) ! ri - (if ext_is_far (externs B ! e) then 6 else 4))
           else None)
      | Callee_none \<Rightarrow> None)"

text \<open>A result goes to its register, or to the call's temporary slot when a restore would overwrite it.\<close>

definition capture_return ::
    "nib_program \<Rightarrow> func \<Rightarrow> ir_insn \<Rightarrow> callee \<Rightarrow> bool \<Rightarrow> bool \<Rightarrow> int list \<Rightarrow> nat \<Rightarrow> rins_call list \<times> bool" where
  "capture_return B fn ins c stack_ok area saved ri =
     (let rv = ret_vreg_of ins ri; expected = expected_return B c ri; actual = assigned (vr fn rv)
      in if \<not> valid_vreg fn rv then ([], False)
         else case (if stack_ok then stack_return_disp B c ri else None) of
                Some disp \<Rightarrow>
                  ((if area then [rins_asm (Mov (Reg PREG_BX) (Reg PREG_SP))] else []) @ rins_load_call_slot B fn rv disp, False)
              | None \<Rightarrow>
                  if expected = PREG_NONE then ([], False)
                  else if actual \<noteq> PREG_NONE \<and> call_saved_restores_reg saved (ret_capture_restore_reg fn rv)
                  then (note_fixup FIXUP_RET_CAPTURE # rins_store_call_temp_return fn expected, True)
                  else if actual \<noteq> expected
                  then ([note_fixup FIXUP_RET_CAPTURE, rins_asm (Mov (vreg_asm B fn rv) (Reg expected))], False)
                  else ([], False))"

definition reload_returns :: "nib_program \<Rightarrow> func \<Rightarrow> ir_insn \<Rightarrow> (nat \<Rightarrow> bool) \<Rightarrow> nat \<Rightarrow> rins_call list" where
  "reload_returns B fn ins temp n =
     concat (map (\<lambda>ri. note_fixup FIXUP_RET_RELOAD #
                        rins_load_call_temp_return B fn (ret_vreg_of ins ri) (is_byte (vr fn (ret_vreg_of ins ri))))
               (filter temp [0..<n]))"

text \<open>The stack is released without changing the flags when they are needed.\<close>

definition release_area :: "func \<Rightarrow> nat \<Rightarrow> int \<Rightarrow> rins_call list" where
  "release_area fn i words =
     (let add = rins_asm (Alu ''add'' (Reg PREG_SP) (Num (words * 2))); t = BpSlot (call_temp_off fn); ax = Reg PREG_AX
      in if words \<le> 0 then []
         else if flags_live_after_insn fn i
         then [rins_asm (Push ax), rins_asm (Plain ''pushf''), rins_asm (Pop ax), rins_asm (Mov t ax), rins_asm (Pop ax), add,
               rins_asm (Push ax), rins_asm (Mov ax t), rins_asm (Push ax), rins_asm (Plain ''popf''), rins_asm (Pop ax)]
         else [add])"

section \<open>Calls\<close>

definition push_stack_args :: "nib_program \<Rightarrow> func \<Rightarrow> ir_insn \<Rightarrow> callee \<Rightarrow> rins_call list" where
  "push_stack_args B fn ins c =
     concat (map (\<lambda>a. if param_place B c a \<noteq> ABI_PLACE_STACK then [] else rins_push_vreg_temp B fn (call_arg_vreg ins a))
               (rev [0..<min (nat (nargs ins)) (callee_nparams B c)]))"

definition fixup_call :: "nib_program \<Rightarrow> func \<Rightarrow> nat \<Rightarrow> rins_call list" where
  "fixup_call B fn i =
     (let ins = insns fn ! i; c = find_callee B True (iname ins);
          arg_words = direct_stack_arg_words B c; ret_words = direct_stack_ret_words B c;
          area = max arg_words ret_words;
          saved = direct_call_saved B fn i c; (saves, pusha) = emit_call_saves saved;
          n = nat (call_expected_nreturns B ins c);
          captures = map (capture_return B fn ins c True (area > 0) saved) [0..<n]
      in saves @
         (if area > 0
          then (if area - arg_words > 0 then [rins_asm (Alu ''sub'' (Reg PREG_SP) (Num ((area - arg_words) * 2)))] else []) @
               push_stack_args B fn ins c
          else []) @
         emit_call_arg_register_moves B fn ins c False @
         rins_ir_stack_cached fn i @
         concat (map fst captures) @
         release_area fn i area @
         emit_call_restores saved pusha @
         reload_returns B fn ins (\<lambda>ri. snd (captures ! ri)) n)"

definition fixup_indirect_call :: "nib_program \<Rightarrow> func \<Rightarrow> nat \<Rightarrow> rins_call list" where
  "fixup_indirect_call B fn i =
     (let ins = insns fn ! i; c = find_callee B False (iname ins);
          saved = indirect_call_saved B fn i c; (saves, pusha) = emit_call_saves saved;
          n = (case c of Callee_ext e \<Rightarrow> length (ext_return_types (externs B ! e)) | _ \<Rightarrow> if dst ins \<ge> 0 then 1 else 0);
          captures = map (capture_return B fn ins c False False saved) [0..<n]
      in saves @
         emit_call_arg_register_moves B fn ins c True @
         rins_ir_stack_cached fn i @
         concat (map fst captures) @
         emit_call_restores saved pusha @
         reload_returns B fn ins (\<lambda>ri. snd (captures ! ri)) n)"

section \<open>Tail calls\<close>

definition callee_param_offset :: "nib_program \<Rightarrow> callee \<Rightarrow> nat \<Rightarrow> int" where
  "callee_param_offset B c a =
     (case c of Callee_fn fi \<Rightarrow> fa_param_stack_offsets (fn_assigns B ! fi) ! a
      | Callee_ext e \<Rightarrow> ext_param_stack_offsets (externs B ! e) ! a | Callee_none \<Rightarrow> 0)"

definition fixup_tailcall :: "nib_program \<Rightarrow> func \<Rightarrow> nat \<Rightarrow> rins_call list" where
  "fixup_tailcall B fn i =
     (let ins = insns fn ! i; c = find_callee B True (iname ins);
          args = filter (\<lambda>(src, off, byte). \<not> vreg_is_same_stack_slot fn src off)
            (map (\<lambda>a. (call_arg_vreg ins a, callee_param_offset B c a,
                       valid_vreg fn (call_arg_vreg ins a) \<and> is_byte (vr fn (call_arg_vreg ins a))))
               (filter (\<lambda>a. param_place B c a = ABI_PLACE_STACK) [0..<min (nat (nargs ins)) (callee_nparams B c)]))
      in concat (map (\<lambda>(src, off, byte). rins_push_vreg_temp B fn src) args) @
         concat (map (\<lambda>(src, off, byte). rins_pop_bp_slot off byte) (rev args)) @
         rins_ir_stack_cached fn i)"

definition collect_function_save_regs :: "nib_program \<Rightarrow> func \<Rightarrow> int \<Rightarrow> int list" where
  "collect_function_save_regs B fn fn_idx =
     filter (\<lambda>p. fn_idx \<ge> 0 \<and> fa_clobbers (fn_assigns B ! nat fn_idx) ! nat p) (fn_preserves fn)"

definition save_reg_list_contains :: "int list \<Rightarrow> int \<Rightarrow> bool" where
  "save_reg_list_contains regs p \<longleftrightarrow> p \<in> set regs"

definition save_reg_list_aliases :: "int list \<Rightarrow> int \<Rightarrow> bool" where
  "save_reg_list_aliases regs p \<longleftrightarrow> list_ex (\<lambda>r. pregs_alias r p) regs"

definition collect_register_arg_parents :: "nib_program \<Rightarrow> ir_insn \<Rightarrow> callee \<Rightarrow> clobbers" where
  "collect_register_arg_parents B ins c =
     (case c of
        Callee_ext e \<Rightarrow>
          mark_preserved
            (map save_reg (filter (\<lambda>p. p \<noteq> PREG_NONE \<and> p \<noteq> PREG_SP)
               (map (\<lambda>a. ext_param_pins (externs B ! e) ! a)
                  (filter (\<lambda>a. ext_param_places (externs B ! e) ! a \<noteq> ABI_PLACE_STACK)
                     [0..<min (nat (nargs ins)) (length (ext_param_places (externs B ! e)))]))))
            no_clobbers
      | _ \<Rightarrow> no_clobbers)"

definition ntailcall_target_reg_is_safe :: "func \<Rightarrow> ir_insn \<Rightarrow> int list \<Rightarrow> clobbers \<Rightarrow> bool" where
  "ntailcall_target_reg_is_safe fn ins save_regs arg_regs \<longleftrightarrow>
     valid_vreg fn (src1 ins) \<and>
     (let p = assigned (vr fn (src1 ins))
      in preg_is_word p \<and> \<not> (needs_frame fn \<and> p = PREG_BP) \<and> \<not> save_reg_list_aliases save_regs p \<and> \<not> arg_regs ! nat p)"

definition choose_ntailcall_target_reg :: "int list \<Rightarrow> clobbers \<Rightarrow> int" where
  "choose_ntailcall_target_reg save_regs arg_regs =
     (case find (\<lambda>p. \<not> arg_regs ! nat p \<and> \<not> save_reg_list_aliases save_regs p)
             [PREG_DI, PREG_SI, PREG_BX, PREG_DX, PREG_CX, PREG_AX] of
        Some p \<Rightarrow> p | None \<Rightarrow> PREG_NONE)"

definition emit_resolved_tail_cleanup :: "func \<Rightarrow> int list \<Rightarrow> bool \<Rightarrow> rins_call list" where
  "emit_resolved_tail_cleanup fn save_regs ds_explicit =
     (if ds_explicit then [rins_asm (Pop (Reg PREG_DS))] else []) @
     map (\<lambda>p. rins_asm (if p = PREG_FLAGS then Plain ''popf'' else Pop (Reg p))) (rev save_regs) @
     (if needs_frame fn then [rins_asm (Plain ''mov sp, bp''), rins_asm (Plain ''pop bp'')] else [])"

text \<open>When no register is stable the code reports it and goes on with AX.\<close>

definition fixup_ntailcall :: "nib_program \<Rightarrow> func \<Rightarrow> int \<Rightarrow> nat \<Rightarrow> rins_call list" where
  "fixup_ntailcall B fn fn_idx i =
     (let ins = insns fn ! i; c = find_callee B False (iname ins);
          save_regs = collect_function_save_regs B fn fn_idx;
          ds_explicit = ((ds_policy fn = DS_POLICY_SYMBOL \<or> ds_policy fn = DS_POLICY_LITERAL) \<and>
                         \<not> save_reg_list_contains save_regs PREG_DS);
          arg_regs = collect_register_arg_parents B ins c;
          moves = emit_call_arg_register_moves B fn ins c True
      in if \<not> ntailcall_target_reg_is_safe fn ins save_regs arg_regs
         then let t = choose_ntailcall_target_reg save_regs arg_regs; t = (if t = PREG_NONE then PREG_AX else t)
              in [note_fixup FIXUP_CALL_ARG] @ rins_push_vreg_temp B fn (src1 ins) @ moves @
                 [rins_asm_fixup FIXUP_CALL_ARG (Pop (Reg t))] @
                 emit_resolved_tail_cleanup fn save_regs ds_explicit @ [rins_asm (Jmp (Reg t))]
         else moves @ rins_ir_stack_cached fn i)"

section \<open>Returned values\<close>

definition ret_src_of :: "ir_insn \<Rightarrow> nat \<Rightarrow> int" where
  "ret_src_of ins ri = (if ri = 0 then src1 ins else ins_ret_vreg ins (int ri - 1))"

definition ret_on_stack :: "func \<Rightarrow> nat \<Rightarrow> bool" where
  "ret_on_stack fn ri \<longleftrightarrow> ri < length (return_types fn) \<and> ret_places fn ! ri = ABI_PLACE_STACK"

text \<open>With a result on the stack all of them are pushed and popped to their places.\<close>

definition fixup_stack_returns :: "nib_program \<Rightarrow> func \<Rightarrow> int \<Rightarrow> ir_insn \<Rightarrow> nat \<Rightarrow> rins_call list" where
  "fixup_stack_returns B fn fn_idx ins n =
     concat (map (\<lambda>ri. rins_push_ret_src B fn (ret_src_of ins ri)) [0..<n]) @
     concat (map (\<lambda>ri.
         if ret_on_stack fn ri
         then rins_pop_bp_slot (fa_return_stack_offsets (fn_assigns B ! nat fn_idx) ! ri)
                (valid_vreg fn (ret_src_of ins ri) \<and> is_byte (vr fn (ret_src_of ins ri)))
         else rins_pop_ret_reg (function_return_reg fn (int ri))) (rev [0..<n]))"

record return_move =
  rm_dst_reg :: int
  rm_src_vreg :: int
  rm_src_reg :: int
  rm_done :: bool

definition return_moves :: "func \<Rightarrow> ir_insn \<Rightarrow> nat \<Rightarrow> return_move list" where
  "return_moves fn ins n =
     filter (\<lambda>p. rm_src_reg p \<noteq> rm_dst_reg p)
       (map (\<lambda>ri. \<lparr>rm_dst_reg = function_return_reg fn (int ri), rm_src_vreg = ret_src_of ins ri,
                   rm_src_reg = assigned (vr fn (ret_src_of ins ri)), rm_done = False\<rparr>)
          (filter (\<lambda>ri. function_return_reg fn (int ri) \<noteq> PREG_NONE \<and> valid_vreg fn (ret_src_of ins ri)) [0..<n]))"

definition return_move_free :: "return_move list \<Rightarrow> nat \<Rightarrow> bool" where
  "return_move_free ms i \<longleftrightarrow>
     \<not> list_ex (\<lambda>j. i \<noteq> j \<and> \<not> rm_done (ms ! j) \<and> rm_src_reg (ms ! j) \<noteq> PREG_NONE \<and>
                   pregs_alias (rm_dst_reg (ms ! i)) (rm_src_reg (ms ! j))) [0..<length ms]"

text \<open>When every move clobbers the source of another, the first one that is left is made.\<close>

definition pick_return_move :: "return_move list \<Rightarrow> nat option" where
  "pick_return_move ms =
     (case find (\<lambda>i. \<not> rm_done (ms ! i) \<and> return_move_free ms i) [0..<length ms] of
        Some i \<Rightarrow> Some i
      | None \<Rightarrow> find (\<lambda>i. \<not> rm_done (ms ! i)) [0..<length ms])"

fun return_loop :: "nib_program \<Rightarrow> func \<Rightarrow> nat \<Rightarrow> return_move list \<Rightarrow> rins_call list" where
  "return_loop B fn 0 ms = []"
| "return_loop B fn (Suc left) ms =
     (case pick_return_move ms of
        None \<Rightarrow> []
      | Some i \<Rightarrow>
          rins_mov_preg_from_vreg B fn (rm_dst_reg (ms ! i)) (rm_src_vreg (ms ! i)) @
          return_loop B fn left (ms[i := (ms ! i)\<lparr>rm_done := True\<rparr>]))"

definition fixup_retval :: "nib_program \<Rightarrow> func \<Rightarrow> int \<Rightarrow> nat \<Rightarrow> rins_call list" where
  "fixup_retval B fn fn_idx i =
     (let ins = insns fn ! i; n = (if nrets ins > 0 then nat (nrets ins) else 1);
          ms = return_moves fn ins n
      in (if list_ex (ret_on_stack fn) [0..<n] then fixup_stack_returns B fn fn_idx ins n
          else return_loop B fn (length ms) ms) @
         rins_ir_stack_cached fn i)"

section \<open>Shifts and memory operands\<close>

definition is_shift_op :: "string \<Rightarrow> bool" where
  "is_shift_op nm \<longleftrightarrow> nm \<in> set shift_names"

definition with_assigned :: "int \<Rightarrow> int \<Rightarrow> func \<Rightarrow> func" where
  "with_assigned v p fn = fn\<lparr>vregs := (vregs fn)[nat v := (vr fn v)\<lparr>assigned := p\<rparr>]\<rparr>"

text \<open>The count of a shift goes to CL.\<close>

definition fixup_shift :: "nib_program \<Rightarrow> func \<Rightarrow> nat \<Rightarrow> rins_call list" where
  "fixup_shift B fn i =
     (let ins = insns fn ! i; d = assigned (vr fn (dst ins));
          dst_is_cx = (d = PREG_CX \<or> d = PREG_CL \<or> d = PREG_CH);
          free = free_regs_at fn (block_of fn i) i;
          route = emit_planned_register_moves B fn [plan_move fn FIXUP_CL_ROUTE PREG_CL (src2 ins)];
          shift = rins_ir_stack_cached (with_assigned (src2 ins) PREG_CL fn) i;
          fix = rins_asm_fixup FIXUP_CL_ROUTE
      in if bit free (nat PREG_CX) \<and> \<not> dst_is_cx then route @ shift
         else if \<not> dst_is_cx then [fix (Push (Reg PREG_CX))] @ route @ shift @ [fix (Pop (Reg PREG_CX))]
         else let acc = Reg (if is_byte (vr fn (dst ins)) then PREG_AL else PREG_AX);
                  da = vreg_asm B fn (dst ins);
                  ax_free = bit free (nat PREG_AX);
                  count = (if is_spilled fn (src2 ins) then vreg_asm B fn (src2 ins) else Reg (assigned (vr fn (src2 ins))))
              in (if ax_free then [] else [fix (Push (Reg PREG_AX))]) @
                 [fix (Mov acc da), fix (Push (Reg PREG_CX)), fix (Mov (Reg PREG_CL) count), fix (Alu (iname ins) acc (Reg PREG_CL)),
                  fix (Pop (Reg PREG_CX)), fix (Mov da acc)] @
                 (if ax_free then [] else [fix (Pop (Reg PREG_AX))]))"

text \<open>A register name stands in the text of an operand between characters that are not letters.\<close>

definition text_names_preg :: "string \<Rightarrow> int \<Rightarrow> bool" where
  "text_names_preg s p =
     (let rn = preg_name ! nat p; n = length rn
      in list_ex (\<lambda>k. take n (drop k s) = rn \<and> \<not> (k > 0 \<and> isalpha (s ! (k - 1))) \<and>
                      \<not> (k + n < length s \<and> isalpha (s ! (k + n)))) [0..<length s + 1 - n])"

text \<open>The virtual register that wants the register and was defined last.\<close>

definition newest_wanting :: "func \<Rightarrow> nat \<Rightarrow> int \<Rightarrow> int" where
  "newest_wanting fn i p =
     fst (fold (\<lambda>v (best, def).
       let r = vregs fn ! v
       in if preferred r \<noteq> p \<or> assigned r = p \<or> assigned r = PREG_NONE \<or> def_pos r > int i then (best, def)
          else if def_pos r > def then (int v, def_pos r) else (best, def)) [0..<nvregs fn] (-1, -1))"

definition fixup_mem :: "nib_program \<Rightarrow> func \<Rightarrow> nat \<Rightarrow> rins_call list" where
  "fixup_mem B fn i =
     (let wanted = filter (\<lambda>p. text_names_preg (iname (insns fn ! i)) p \<and> newest_wanting fn i p \<ge> 0)
            (map int [0..<NUM_PREGS])
      in emit_planned_register_moves B fn
           (map (\<lambda>p. plan_move fn FIXUP_ADDR_ROUTE p (newest_wanting fn i p)) wanted) @
         rins_ir_stack_cached fn i)"

section \<open>The stream of a function\<close>

definition needs_cl_route :: "func \<Rightarrow> ir_insn \<Rightarrow> bool" where
  "needs_cl_route fn ins \<longleftrightarrow>
     op ins = IR_ALU \<and> \<not> has_imm ins \<and> is_shift_op (iname ins) \<and> valid_vreg fn (src2 ins) \<and>
     assigned (vr fn (src2 ins)) \<noteq> PREG_CL"

definition fixup_insn :: "nib_program \<Rightarrow> func \<Rightarrow> int \<Rightarrow> nat \<Rightarrow> rins_call list" where
  "fixup_insn B fn fn_idx i =
     (let ins = insns fn ! i
      in if needs_cl_route fn ins then fixup_shift B fn i
         else if op ins = IR_LOADMEM \<or> op ins = IR_STOREMEM then fixup_mem B fn i
         else if op ins = IR_CALL \<or> op ins = IR_MCALL then fixup_call B fn i
         else if op ins = IR_ICALL \<or> op ins = IR_NCALL then fixup_indirect_call B fn i
         else if op ins = IR_TAILCALL then fixup_tailcall B fn i
         else if op ins = IR_NTAILCALL then fixup_ntailcall B fn fn_idx i
         else if op ins = IR_RETVAL then fixup_retval B fn fn_idx i
         else rins_ir_stack_cached fn i)"

definition insert_fixup_moves :: "nib_program \<Rightarrow> func \<Rightarrow> int \<Rightarrow> fixup_state" where
  "insert_fixup_moves B fn fn_idx =
     rins_run (concat (map (fixup_insn B fn fn_idx) [0..<length (insns fn)])) no_fixups"

end
