(* ===== verification/Bind_Saves.thy ===== *)
theory Bind_Saves
  imports Bind_Plan_Facts Bind_Fixup
begin

text \<open>
  The registers that are saved around a call. What \<^verbatim>\<open>emit_call_saves\<close> pushes,
  \<^verbatim>\<open>emit_call_restores\<close> gives back, with and without \<^verbatim>\<open>pusha\<close>, whatever the code
  between them does, as long as it keeps the stack.
\<close>

section \<open>Pushing and popping lists of words\<close>

fun words_at :: "machine \<Rightarrow> 16 word \<Rightarrow> 16 word list \<Rightarrow> bool" where
  "words_at m s [] \<longleftrightarrow> True"
| "words_at m s (w # ws) \<longleftrightarrow> load_word m s = w \<and> words_at m (s + 2) ws"

lemma words_at_cong:
  assumes "\<And>k. k < 2 * length ws \<Longrightarrow> ssmem m' (s + of_nat k) = ssmem m (s + of_nat k)" "words_at m s ws"
  shows "words_at m' s ws"
  using assms
proof (induction ws arbitrary: s)
  case (Cons w ws)
  have "load_word m' s = load_word m s"
    using Cons.prems(1) [of 0] Cons.prems(1) [of 1] by (simp add: load_word_def)
  moreover have "words_at m' (s + 2) ws"
  proof (rule Cons.IH)
    show "ssmem m' (s + 2 + of_nat k) = ssmem m (s + 2 + of_nat k)" if "k < 2 * length ws" for k
      using Cons.prems(1) [of "k + 2"] that by (simp add: algebra_simps)
  qed (use Cons.prems(2) in simp)
  ultimately show ?case using Cons.prems(2) by simp
qed simp

lemma pushes_effect:
  assumes "2 * length ws < 65536"
  shows "get_reg (fold push_word ws m) 4 = get_reg m 4 - of_nat (2 * length ws) \<and>
         touches {8, 9} (2 * length ws) m (fold push_word ws m) \<and>
         words_at (fold push_word ws m) (get_reg m 4 - of_nat (2 * length ws)) (rev ws)"
  using assms
proof (induction ws rule: rev_induct)
  case (snoc w ws)
  let ?m = "fold push_word ws m" and ?s = "get_reg m 4" and ?n = "2 * length ws"
  have IH: "get_reg ?m 4 = ?s - of_nat ?n" "touches {8, 9} ?n m ?m" "words_at ?m (?s - of_nat ?n) (rev ws)"
    using snoc by auto
  have n: "2 * length (ws @ [w]) = ?n + 2" by simp
  have sp: "?s - of_nat (?n + 2) = get_reg ?m 4 - 2" by (simp add: IH(1))
  have "touches {8, 9} (?n + 2) m (push_word w ?m)"
    unfolding touches_def
  proof (intro conjI allI impI)
    show "cell (push_word w ?m) c = cell m c" if "c \<notin> {8, 9}" for c using that IH(2) by (auto simp: touches_def)
    fix a
    assume a: "a \<notin> below (get_reg m 4) (?n + 2)"
    then have "a \<notin> below (get_reg ?m 4) 2" using below_shift [of ?s ?n 2] by (auto simp: IH(1))
    then have "ssmem (push_word w ?m) a = ssmem ?m a" by (rule push_mem)
    also have "\<dots> = ssmem m a" using a IH(2) below_mono [of ?n "?n + 2" ?s] by (auto simp: touches_def)
    finally show "ssmem (push_word w ?m) a = ssmem m a" .
  qed
  moreover have "words_at (push_word w ?m) (?s - of_nat (?n + 2)) (rev (ws @ [w]))"
  proof -
    have "words_at (push_word w ?m) (get_reg ?m 4) (rev ws)"
    proof (rule words_at_cong)
      fix k
      assume "k < 2 * length (rev ws)"
      then have "get_reg ?m 4 + of_nat k \<notin> below (get_reg ?m 4) 2" using snoc.prems by (intro above_not_below) simp
      then show "ssmem (push_word w ?m) (get_reg ?m 4 + of_nat k) = ssmem ?m (get_reg ?m 4 + of_nat k)" by (rule push_mem)
    qed (use IH(1,3) in simp)
    then show ?thesis unfolding sp by simp
  qed
  moreover have "get_reg (push_word w ?m) 4 = ?s - of_nat (?n + 2)" unfolding sp by simp
  ultimately show ?case unfolding n by simp
qed (simp add: touches_def)

section \<open>Word registers\<close>

definition word_reg :: "int \<Rightarrow> bool" where
  "word_reg p \<longleftrightarrow> p \<in> {PREG_AX, PREG_CX, PREG_DX, PREG_BX, PREG_BP, PREG_SI, PREG_DI, PREG_ES, PREG_DS}"

lemma word_reg_plain: "word_reg p \<Longrightarrow> plain_reg p \<and> \<not> preg_is_byte p"
  by (auto simp: word_reg_def plain_reg_def preg_is_byte_def)

lemma word_reg_bytes: "word_reg p \<Longrightarrow> preg_bytes p = {2 * p, 2 * p + 1}"
  by (auto simp: word_reg_def preg_bytes_def)

definition saved_bytes :: "int list \<Rightarrow> int set" where
  "saved_bytes ps = (\<Union>p\<in>set ps - {PREG_SP}. {2 * p, 2 * p + 1})"

lemma pops_effect:
  assumes "distinct ps" "\<forall>p\<in>set ps. word_reg p \<or> p = PREG_SP" "length ws = length ps" "words_at m (get_reg m 4) ws"
  shows "get_reg (fold pop_into ps m) 4 = get_reg m 4 + of_nat (2 * length ps) \<and>
         ssmem (fold pop_into ps m) = ssmem m \<and>
         (\<forall>c. c \<notin> saved_bytes ps \<union> {8, 9} \<longrightarrow> cell (fold pop_into ps m) c = cell m c) \<and>
         (\<forall>(p, w)\<in>set (zip ps ws). p \<noteq> PREG_SP \<longrightarrow> get_reg (fold pop_into ps m) p = w)"
  using assms
proof (induction ps arbitrary: m ws)
  case (Cons p ps)
  obtain w ws' where ws: "ws = w # ws'" "length ws' = length ps" using Cons.prems(3) by (cases ws) auto
  let ?m = "pop_into p m"
  have p: "word_reg p \<or> p = 4" using Cons.prems(2) by simp
  have sp: "get_reg ?m 4 = get_reg m 4 + 2" using p word_reg_plain by (auto simp: pop_into_def Let_def)
  have mem: "ssmem ?m = ssmem m" by (auto simp: pop_into_def Let_def)
  have cells: "cell ?m c = cell m c" if "c \<notin> saved_bytes [p] \<union> {8, 9}" for c
    using that p by (auto simp: pop_into_def Let_def saved_bytes_def set_reg_def word_reg_def)
  have val: "get_reg ?m p = w" if "p \<noteq> 4"
    using that p Cons.prems(4) ws word_reg_plain [of p] by (simp add: pop_into_def Let_def get_set_word)
  have "words_at ?m (get_reg ?m 4) ws'"
    unfolding sp using Cons.prems(4) ws by (intro words_at_cong [of ws' ?m _ m]) (simp_all add: mem)
  then have IH: "get_reg (fold pop_into ps ?m) 4 = get_reg ?m 4 + of_nat (2 * length ps)" "ssmem (fold pop_into ps ?m) = ssmem ?m"
    "\<forall>c. c \<notin> saved_bytes ps \<union> {8, 9} \<longrightarrow> cell (fold pop_into ps ?m) c = cell ?m c"
    "\<forall>(p, w)\<in>set (zip ps ws'). p \<noteq> 4 \<longrightarrow> get_reg (fold pop_into ps ?m) p = w"
    using Cons.IH [of ws' ?m] Cons.prems(1,2) ws(2) by auto
  have "get_reg (fold pop_into ps ?m) p = w" if "p \<noteq> 4"
  proof -
    have "get_reg (fold pop_into ps ?m) p = get_reg ?m p"
    proof (rule get_reg_cong)
      fix c
      assume "c \<in> preg_bytes p"
      then have "c \<in> {2 * p, 2 * p + 1}" using p that word_reg_bytes by auto
      then have "c \<notin> saved_bytes ps \<union> {8, 9}" using Cons.prems(1) that by (auto simp: saved_bytes_def) (presburger+)?
      then show "cell (fold pop_into ps ?m) c = cell ?m c" using IH(3) by blast
    qed (use p that word_reg_plain [of p] in \<open>auto simp: plain_reg_def\<close>)
    with val that show ?thesis by simp
  qed
  moreover have "cell (fold pop_into ps ?m) c = cell m c" if "c \<notin> saved_bytes (p # ps) \<union> {8, 9}" for c
    using that IH(3) cells by (auto simp: saved_bytes_def)
  ultimately show ?case using IH(1,2,4) sp mem by (auto simp: ws algebra_simps)
qed simp

section \<open>Saves and restores\<close>

text \<open>What is pushed, in order: with \<^verbatim>\<open>pusha\<close> the registers it covers come last, and the
  stack pointer with them.\<close>

definition pushed_regs :: "int list \<Rightarrow> int list" where
  "pushed_regs regs =
     (if save_set_uses_pusha regs then filter (\<lambda>p. \<not> preg_covered_by_pusha p) regs @ pusha_order else regs)"

definition pushed_words :: "int list \<Rightarrow> machine \<Rightarrow> 16 word list" where
  "pushed_words regs m =
     (if save_set_uses_pusha regs
      then let ws = map (get_reg m) (filter (\<lambda>p. \<not> preg_covered_by_pusha p) regs)
           in ws @ map (get_reg (fold push_word ws m)) pusha_order
      else map (get_reg m) regs)"

lemma pushed_words_length: "length (pushed_words regs m) = length (pushed_regs regs)"
  by (simp add: pushed_words_def pushed_regs_def Let_def)

lemma get_pushed [simp]: "plain_reg p \<Longrightarrow> get_reg (fold push_word ws m) p = get_reg m p"
  by (induction ws arbitrary: m) auto

definition save_list :: "int list \<Rightarrow> bool" where
  "save_list regs \<longleftrightarrow> distinct regs \<and> (\<forall>p\<in>set regs. word_reg p)"

lemma pusha_order_regs: "set pusha_order = {p. preg_covered_by_pusha p} \<union> {PREG_SP}" "distinct pusha_order"
  by (auto simp: pusha_order_def preg_covered_by_pusha_def)

lemma covered_word: "preg_covered_by_pusha p \<Longrightarrow> word_reg p"
  by (auto simp: preg_covered_by_pusha_def word_reg_def)

lemma save_list_length:
  assumes "save_list regs"
  shows "length regs \<le> 9"
proof -
  have "length regs = card (set regs)" using assms by (simp add: save_list_def distinct_card)
  also have "\<dots> \<le> card {PREG_AX, PREG_CX, PREG_DX, PREG_BX, PREG_BP, PREG_SI, PREG_DI, PREG_ES, PREG_DS}"
    using assms by (intro card_mono) (auto simp: save_list_def word_reg_def)
  finally show ?thesis by simp
qed

lemma pushed_regs:
  assumes "save_list regs"
  shows "distinct (pushed_regs regs)" "\<forall>p\<in>set (pushed_regs regs). word_reg p \<or> p = PREG_SP"
    "set regs \<subseteq> set (pushed_regs regs)" "length (pushed_regs regs) \<le> 17"
proof -
  have "length (filter (\<lambda>p. \<not> preg_covered_by_pusha p) regs) \<le> 9"
    using save_list_length [OF assms] le_trans [OF length_filter_le] by blast
  then show "length (pushed_regs regs) \<le> 17"
    using save_list_length [OF assms] by (simp add: pushed_regs_def pusha_order_def)
  show "distinct (pushed_regs regs)"
    using assms pusha_order_regs by (auto simp: pushed_regs_def save_list_def word_reg_def)
qed (use assms covered_word pusha_order_regs in \<open>auto simp: pushed_regs_def save_list_def\<close>)

lemma pushed_words_values: "(p, w) \<in> set (zip (pushed_regs regs) (pushed_words regs m)) \<Longrightarrow> plain_reg p \<Longrightarrow> w = get_reg m p"
  by (auto simp: pushed_words_def pushed_regs_def Let_def zip_map2 zip_same_conv_map split: if_splits)

text \<open>The registers that are pushed and popped one by one.\<close>

definition single_regs :: "int list \<Rightarrow> bool" where
  "single_regs ps \<longleftrightarrow> (\<forall>p\<in>set ps. plain_reg p \<and> \<not> preg_is_byte p)"

lemma push_lines:
  "single_regs ps \<Longrightarrow>
   exec_list L (lines_of (map emit_call_saved_push ps)) m = Some (fold push_word (map (get_reg m) ps) m)"
proof (induction ps arbitrary: m)
  case (Cons p ps)
  have "map (get_reg (push_word w m)) ps = map (get_reg m) ps" for w using Cons.prems by (simp add: single_regs_def)
  moreover have "emit_call_saved_push p = rins_asm_fixup FIXUP_CALL_SAVE (Push (Reg p))"
    using Cons.prems by (auto simp: emit_call_saved_push_def single_regs_def plain_reg_def)
  ultimately show ?case using Cons by (simp add: single_regs_def cong: map_cong)
qed simp

lemma pop_lines:
  "single_regs ps \<Longrightarrow>
   exec_list L (lines_of (map emit_call_saved_pop ps)) m = Some (fold pop_into ps m)"
proof (induction ps arbitrary: m)
  case (Cons p ps)
  then have "exec_ins L (Pop (Reg p)) m = Some (pop_into p m)" by (auto simp: pop_into_def Let_def single_regs_def)
  moreover have "emit_call_saved_pop p = rins_asm_fixup FIXUP_CALL_RESTORE (Pop (Reg p))"
    using Cons.prems by (auto simp: emit_call_saved_pop_def single_regs_def plain_reg_def)
  ultimately show ?case using Cons by (simp add: single_regs_def)
qed simp

lemma saves_code:
  assumes "save_list regs"
  shows "exec_list L (lines_of (fst (emit_call_saves regs))) m = Some (fold push_word (pushed_words regs m) m)"
    and "exec_list L (lines_of (emit_call_restores regs (snd (emit_call_saves regs)))) m = Some (fold pop_into (rev (pushed_regs regs)) m)"
proof -
  have r: "single_regs regs" using assms word_reg_plain by (auto simp: save_list_def single_regs_def)
  define ps where "ps = filter (\<lambda>p. \<not> preg_covered_by_pusha p) regs"
  have p: "single_regs ps" "single_regs (rev ps)" "single_regs (rev regs)" using r by (auto simp: ps_def single_regs_def)
  show "exec_list L (lines_of (fst (emit_call_saves regs))) m = Some (fold push_word (pushed_words regs m) m)"
  proof (cases "save_set_uses_pusha regs")
    case False
    then show ?thesis using push_lines [OF r] by (simp add: emit_call_saves_def pushed_words_def)
  next
    case True
    then show ?thesis
      using push_lines [OF p(1)] by (simp add: emit_call_saves_def pushed_words_def exec_append ps_def [symmetric] Let_def)
  qed
  show "exec_list L (lines_of (emit_call_restores regs (snd (emit_call_saves regs)))) m = Some (fold pop_into (rev (pushed_regs regs)) m)"
  proof (cases "save_set_uses_pusha regs")
    case False
    then show ?thesis using pop_lines [OF p(3)] by (simp add: emit_call_saves_def emit_call_restores_def pushed_regs_def)
  next
    case True
    have "filter (\<lambda>p. \<not> preg_covered_by_pusha p) (rev regs) = rev ps" by (simp add: ps_def rev_filter)
    with True show ?thesis
      using pop_lines [OF p(2)] by (simp add: emit_call_saves_def emit_call_restores_def pushed_regs_def ps_def [symmetric])
  qed
qed

text \<open>Whatever runs between the saves and the restores, as long as it keeps the stack pointer and the
  words that were pushed, the saved registers have their old values afterwards.\<close>

lemma saves_restored:
  assumes ok: "save_list regs"
    and run: "exec_list L (lines_of (fst (emit_call_saves regs))) m = Some m1"
    and sp: "get_reg m2 4 = get_reg m1 4" and mem: "\<forall>a\<in>below (get_reg m 4) (2 * length (pushed_regs regs)). ssmem m2 a = ssmem m1 a"
  obtains m' where "exec_list L (lines_of (emit_call_restores regs (snd (emit_call_saves regs)))) m2 = Some m'"
    "get_reg m' 4 = get_reg m 4" "ssmem m' = ssmem m2" "\<forall>p\<in>set (pushed_regs regs) - {4}. get_reg m' p = get_reg m p"
    "\<forall>c. c \<notin> saved_bytes (pushed_regs regs) \<union> {8, 9} \<longrightarrow> cell m' c = cell m2 c"
proof
  let ?ps = "pushed_regs regs" and ?ws = "pushed_words regs m" and ?s = "get_reg m 4"
  let ?n = "2 * length ?ws"
  let ?m' = "fold pop_into (rev ?ps) m2"
  note reg = pushed_regs [OF ok]
  have m1: "m1 = fold push_word ?ws m" using run saves_code(1) [OF ok] by simp
  have len: "length ?ws = length ?ps" "?n \<le> 34" using reg(4) by (simp_all add: pushed_words_length)
  have push: "get_reg m1 4 = ?s - of_nat ?n" "words_at m1 (?s - of_nat ?n) (rev ?ws)"
    using pushes_effect [of ?ws m] len(2) unfolding m1 by auto
  have at: "words_at m2 (get_reg m2 4) (rev ?ws)"
    unfolding sp push(1)
  proof (rule words_at_cong [OF _ push(2)])
    fix k
    assume k: "k < 2 * length (rev ?ws)"
    then have "?s - of_nat ?n + of_nat k = ?s - of_nat (?n - k)" by (simp add: of_nat_diff)
    then have "?s - of_nat ?n + of_nat k \<in> below ?s (2 * length ?ps)" using k len(1) by (intro belowI [of "?n - k"]) auto
    then show "ssmem m2 (?s - of_nat ?n + of_nat k) = ssmem m1 (?s - of_nat ?n + of_nat k)" using mem by blast
  qed
  note pops = pops_effect [of "rev ?ps" "rev ?ws" m2, OF _ _ _ at]
  have pp: "distinct (rev ?ps)" "\<forall>p\<in>set (rev ?ps). word_reg p \<or> p = 4" "length (rev ?ws) = length (rev ?ps)"
    using reg(1,2) len(1) by auto
  note pop = pops [OF pp]
  show "exec_list L (lines_of (emit_call_restores regs (snd (emit_call_saves regs)))) m2 = Some ?m'"
    by (rule saves_code(2) [OF ok])
  show "get_reg ?m' 4 = ?s" using pop by (simp add: sp push(1) len(1))
  show "ssmem ?m' = ssmem m2" using pop by blast
  have z: "zip (rev ?ps) (rev ?ws) = rev (zip ?ps ?ws)" by (rule zip_rev [OF len(1) [symmetric]])
  show "\<forall>p\<in>set ?ps - {4}. get_reg ?m' p = get_reg m p"
  proof
    fix p
    assume p: "p \<in> set ?ps - {4}"
    then obtain w where w: "(p, w) \<in> set (zip ?ps ?ws)" using len(1) by (metis DiffD1 in_set_impl_in_set_zip1)
    moreover have "plain_reg p" using p reg(2) word_reg_plain by auto
    ultimately have "w = get_reg m p" by (rule pushed_words_values)
    moreover have "get_reg ?m' p = w" using pop w p unfolding z by auto
    ultimately show "get_reg ?m' p = get_reg m p" by simp
  qed
  show "\<forall>c. c \<notin> saved_bytes ?ps \<union> {8, 9} \<longrightarrow> cell ?m' c = cell m2 c" using pop by (simp add: saved_bytes_def)
qed

end
