(* ===== verification/Bind_Call_Facts.thy ===== *)
theory Bind_Call_Facts
  imports Bind_Saves
begin

text \<open>
  A call with its surroundings: the registers that are saved, the arguments, the instruction itself, the
  results and the restores. \<open>call_keeps_live_values\<close> puts the saves together with the planner.
\<close>

section \<open>Streams without instructions\<close>

lemma no_ir_simps [simp]:
  "no_ir []" "no_ir (c # cs) \<longleftrightarrow> (\<forall>n. c \<noteq> rins_ir n) \<and> no_ir cs" "no_ir (xs @ ys) \<longleftrightarrow> no_ir xs \<and> no_ir ys"
  by (auto simp: no_ir_def)

lemma no_ir_concat: "(\<And>x. x \<in> set xs \<Longrightarrow> no_ir (f x)) \<Longrightarrow> no_ir (concat (map f xs))"
  by (induction xs) auto

lemma no_ir_map: "(\<And>x n. f x \<noteq> rins_ir n) \<Longrightarrow> no_ir (map f xs)"
  unfolding no_ir_def by auto metis

lemma no_ir_mov [simp]: "no_ir (rins_mov_preg_from_vreg B fn d v)"
  by (auto simp: rins_mov_preg_from_vreg_def mov_to_segment_def mov_word_to_byte_def mov_byte_to_word_def
      rins_spill_load_to_reg_def Let_def)

lemma no_ir_push [simp]: "no_ir (rins_push_vreg_temp B fn v)"
  by (auto simp: rins_push_vreg_temp_def rins_push_byte_vreg_def rins_spill_load_to_reg_def)

lemma no_ir_loop: "no_ir (fst (plan_loop B fn n ms))"
  by (induction n arbitrary: ms) (auto split: option.splits prod.splits simp: Let_def, (metis fst_conv)+)

lemma no_ir_moves [simp]: "no_ir (emit_call_arg_register_moves B fn ins c ind)"
  unfolding emit_call_arg_register_moves_def emit_planned_register_moves_def
  using no_ir_loop by (auto split: prod.splits simp: pop_saved_def Let_def intro!: no_ir_concat) (metis fst_conv)

lemma no_ir_saves [simp]: "no_ir (fst (emit_call_saves regs))" "no_ir (emit_call_restores regs b)"
  by (auto simp: emit_call_saves_def emit_call_restores_def emit_call_saved_push_def emit_call_saved_pop_def intro!: no_ir_map)

section \<open>The registers that are saved\<close>

definition regs_ok :: "func \<Rightarrow> bool" where
  "regs_ok fn \<longleftrightarrow>
     (\<forall>v < nvregs fn. assigned (vregs fn ! v) \<noteq> PREG_NONE \<longrightarrow>
        plain_reg (assigned (vregs fn ! v)) \<and> assigned (vregs fn ! v) \<noteq> 17 \<and> assigned (vregs fn ! v) \<noteq> 18)"

lemma plain_reg_cases:
  "plain_reg p \<Longrightarrow> p = 0 \<or> p = 1 \<or> p = 2 \<or> p = 3 \<or> p = 5 \<or> p = 6 \<or> p = 7 \<or> p = 8 \<or> p = 9 \<or> p = 10 \<or> p = 11 \<or>
     p = 12 \<or> p = 13 \<or> p = 14 \<or> p = 15 \<or> p = 16 \<or> p = 17 \<or> p = 18 \<or> p = 19"
  unfolding plain_reg_def by presburger

lemma save_reg_word: "plain_reg p \<Longrightarrow> p \<noteq> 17 \<Longrightarrow> p \<noteq> 18 \<Longrightarrow> word_reg (save_reg p)"
  by (drule plain_reg_cases, elim disjE) (simp_all add: save_reg_def word_reg_def preg_alias_parent_def)

lemma save_reg_bytes:
  assumes "plain_reg p"
  shows "preg_bytes p \<subseteq> {2 * save_reg p, 2 * save_reg p + 1}"
  using plain_reg_cases [OF assms] by (elim disjE) (simp_all add: save_reg_def preg_alias_parent_def preg_bytes_def)

lemma add_call_saved:
  assumes "save_list regs" "word_reg p"
  shows "save_list (add_call_saved_reg p regs)" "set (add_call_saved_reg p regs) = insert p (set regs)"
  using assms save_list_length [OF assms(1)] by (auto simp: add_call_saved_reg_def save_list_def)

lemma save_live_step:
  assumes "regs_ok fn" "save_list saved" "v < nvregs fn"
  shows "let p = assigned (vregs fn ! v);
             saved' = (if skip v \<or> p = PREG_NONE \<or> p = PREG_SP \<or> \<not> vreg_live_after_insn fn i (int v) then saved
                       else if preserves ! nat (save_reg p) \<and> \<not> outgoing ! nat (save_reg p) then saved
                       else add_call_saved_reg (save_reg p) saved)
         in save_list saved' \<and> set saved \<subseteq> set saved' \<and>
            (skip v \<or> p = PREG_NONE \<or> \<not> vreg_live_after_insn fn i (int v) \<or>
             preserves ! nat (save_reg p) \<and> \<not> outgoing ! nat (save_reg p) \<or> save_reg p \<in> set saved')"
proof (cases "assigned (vregs fn ! v) = PREG_NONE")
  case True
  then show ?thesis using assms(2) by simp
next
  case False
  then have p: "plain_reg (assigned (vregs fn ! v))" "word_reg (save_reg (assigned (vregs fn ! v)))"
    using assms(1,3) save_reg_word by (auto simp: regs_ok_def)
  have "assigned (vregs fn ! v) \<noteq> PREG_SP" using p(1) by (simp add: plain_reg_def)
  then show ?thesis using add_call_saved [OF assms(2) p(2)] assms(2) by (auto simp: Let_def)
qed

text \<open>Every value that is needed after the call is saved, or the callee and the argument moves keep its
  register.\<close>

lemma fold_collect:
  assumes "\<And>x s. x \<in> set xs \<Longrightarrow> I s \<Longrightarrow> I (f x s) \<and> (\<forall>y. C y s \<longrightarrow> C y (f x s)) \<and> C x (f x s)"
  shows "I s \<Longrightarrow> I (fold f xs s) \<and> (\<forall>y. C y s \<longrightarrow> C y (fold f xs s)) \<and> (\<forall>x\<in>set xs. C x (fold f xs s))"
  using assms
proof (induction xs arbitrary: s)
  case (Cons x xs)
  have "I (f x s) \<and> (\<forall>y. C y s \<longrightarrow> C y (f x s)) \<and> C x (f x s)" using Cons.prems by simp
  moreover have "I (fold f xs (f x s)) \<and> (\<forall>y. C y (f x s) \<longrightarrow> C y (fold f xs (f x s))) \<and> (\<forall>z\<in>set xs. C z (fold f xs (f x s)))"
    using Cons.IH [of "f x s"] Cons.prems(2) calculation by simp
  ultimately show ?case by simp
qed simp

definition kept_by_call :: "func \<Rightarrow> nat \<Rightarrow> (nat \<Rightarrow> bool) \<Rightarrow> clobbers \<Rightarrow> clobbers \<Rightarrow> nat \<Rightarrow> int list \<Rightarrow> bool" where
  "kept_by_call fn i skip preserves outgoing v saved \<longleftrightarrow>
     (let p = assigned (vregs fn ! v)
      in skip v \<or> p = PREG_NONE \<or> \<not> vreg_live_after_insn fn i (int v) \<or>
         preserves ! nat (save_reg p) \<and> \<not> outgoing ! nat (save_reg p) \<or> save_reg p \<in> set saved)"

lemma save_live_saves:
  assumes "regs_ok fn" "save_list saved"
  shows "save_list (save_live fn i skip preserves outgoing saved)"
    and "v < nvregs fn \<Longrightarrow> kept_by_call fn i skip preserves outgoing v (save_live fn i skip preserves outgoing saved)"
proof -
  have step: "save_list (f v s) \<and> (\<forall>y. kept_by_call fn i skip preserves outgoing y s \<longrightarrow> kept_by_call fn i skip preserves outgoing y (f v s)) \<and>
      kept_by_call fn i skip preserves outgoing v (f v s)"
    if f: "f = (\<lambda>v saved. let p = assigned (vregs fn ! v)
       in if skip v \<or> p = PREG_NONE \<or> p = PREG_SP \<or> \<not> vreg_live_after_insn fn i (int v) then saved
          else if preserves ! nat (save_reg p) \<and> \<not> outgoing ! nat (save_reg p) then saved
          else add_call_saved_reg (save_reg p) saved)" and v: "v \<in> set [0..<nvregs fn]" and s: "save_list s" for f v s
    using save_live_step [OF assms(1) s, of v skip i preserves outgoing] v unfolding f kept_by_call_def
    by (auto simp: Let_def)
  note fc = fold_collect [of "[0..<nvregs fn]" save_list _ "kept_by_call fn i skip preserves outgoing", OF step [OF refl] assms(2)]
  show "save_list (save_live fn i skip preserves outgoing saved)"
    using fc unfolding save_live_def by blast
  show "v < nvregs fn \<Longrightarrow> kept_by_call fn i skip preserves outgoing v (save_live fn i skip preserves outgoing saved)"
    using fc unfolding save_live_def by simp
qed

lemma direct_call_saved_facts:
  assumes "regs_ok fn"
  shows "save_list (direct_call_saved B fn i c)"
    and "v < nvregs fn \<Longrightarrow> kept_by_call fn i (is_ret_dst (insns fn ! i)) (callee_preserves B c)
           (fst (collect_call_arg_setup_clobbers B fn (insns fn ! i) c False)) v (direct_call_saved B fn i c)"
proof -
  have base: "save_list (if b then [PREG_BP] else [])" for b by (simp add: save_list_def word_reg_def)
  have bx: "word_reg PREG_BX" by (simp add: word_reg_def)
  have start: "save_list (if d then add_call_saved_reg PREG_BX (if b then [PREG_BP] else []) else (if b then [PREG_BP] else []))" for b d
    using base [of b] add_call_saved(1) [OF base [of b] bx] by simp
  note sl = save_live_saves [OF assms start]
  show "save_list (direct_call_saved B fn i c)"
    unfolding direct_call_saved_def Let_def by (simp only: case_prod_unfold) (rule sl(1))
  show "v < nvregs fn \<Longrightarrow> kept_by_call fn i (is_ret_dst (insns fn ! i)) (callee_preserves B c)
           (fst (collect_call_arg_setup_clobbers B fn (insns fn ! i) c False)) v (direct_call_saved B fn i c)"
    unfolding direct_call_saved_def Let_def by (simp only: case_prod_unfold) (rule sl(2))
qed

section \<open>The argument moves\<close>

lemma fold_mark: "fold (\<lambda>x cl. cl[g x := True]) xs cl ! k \<longleftrightarrow> k \<in> g ` set xs \<or> cl ! k" if "k < length cl"
  using that
proof (induction xs arbitrary: cl)
  case (Cons a xs)
  have "fold (\<lambda>x cl. cl[g x := True]) xs (cl[g a := True]) ! k \<longleftrightarrow> k \<in> g ` set xs \<or> cl[g a := True] ! k"
    using Cons.IH [of "cl[g a := True]"] Cons.prems by simp
  then show ?case using Cons.prems by (cases "k = g a") (auto simp: nth_list_update)
qed simp

text \<open>A register that is not marked is not the destination of a move.\<close>

lemma unmarked_not_moved:
  assumes "(e, v) \<in> set (filter (needs_move fn) (register_args B fn ins c False))" "args_fit fn (register_args B fn ins c False)"
    and "word_reg q" "\<not> fst (collect_call_arg_setup_clobbers B fn ins c False) ! nat q"
  shows "preg_bytes e \<inter> {2 * q, 2 * q + 1} = {}"
proof -
  have e: "(e, v) \<in> set (register_args B fn ins c False)" "needs_move fn (e, v)" using assms(1) by auto
  then have p: "plain_reg e" "e \<noteq> 17" "e \<noteq> 18" using assms(2) by (auto simp: args_fit_def dst_fits_def)
  have "nat q \<noteq> nat (save_reg e)"
  proof
    assume "nat q = nat (save_reg e)"
    moreover have "nat q < length no_clobbers" using assms(3) by (auto simp: word_reg_def no_clobbers_def)
    moreover have "(e, v) \<in> set (filter (\<lambda>(e, v). e \<noteq> PREG_NONE \<and> e \<noteq> PREG_SP \<and> valid_vreg fn v \<and> needs_move fn (e, v))
        (map (\<lambda>a. (param_reg B c a, call_arg_vreg ins a))
          (filter (\<lambda>a. param_place B c a \<noteq> ABI_PLACE_STACK) [0..<min (nat (nargs ins)) (callee_nparams B c)])))"
      using e p(1) unfolding register_args_def by (auto simp: plain_reg_def)
    ultimately have "fst (collect_call_arg_setup_clobbers B fn ins c False) ! nat q"
      unfolding collect_call_arg_setup_clobbers_def Let_def save_reg_def fst_conv case_prod_unfold
      by (simp only: fold_mark [where g = "\<lambda>x. nat (if fst x \<ge> PREG_AL \<and> fst x \<le> PREG_BH then preg_alias_parent (fst x) else fst x)"] if_False) force
    with assms(4) show False ..
  qed
  then have "q \<noteq> save_reg e" by auto
  then show ?thesis using save_reg_bytes [OF p(1)] by auto
qed

text \<open>The moves of the arguments change only destinations of moves, and the stack below.\<close>

lemma arg_moves_touch:
  assumes fit: "args_fit fn (register_args B fn ins c False)"
    and slots: "\<forall>(d, v)\<in>set (register_args B fn ins c False). slot_clear B fn m 44 v"
  obtains m' where "exec_list L (lines_of (emit_call_arg_register_moves B fn ins c False)) m = Some m'"
    "touches (\<Union>x\<in>set (filter (needs_move fn) (register_args B fn ins c False)). preg_bytes (fst x)) 44 m m'"
proof -
  let ?mv = "filter (needs_move fn) (register_args B fn ins c False)"
  let ?ms = "map (\<lambda>(d, v). plan_move fn FIXUP_CALL_ARG d v) ?mv"
  have room: "room ?ms \<le> 44"
    using args_fit_length [OF fit] length_filter_le [of "needs_move fn" "register_args B fn ins c False"]
    by (simp add: room_def del: length_filter_le)
  have sc: "\<forall>p\<in>set ?ms. slot_clear B fn m (room ?ms) (pm_src_vreg p)"
    using slots slot_clear_mono [OF _ room] by (force simp: plan_move_def)
  obtain m' where m': "exec_list L (lines_of (emit_planned_register_moves B fn ?ms)) m = Some m'" "touches (dst_bytes ?ms) (room ?ms) m m'"
    using planned_moves_code [OF args_plan_ok [OF fit] _ sc] room by (force simp: plan_move_def)
  moreover have "dst_bytes ?ms = (\<Union>x\<in>set ?mv. preg_bytes (fst x))" by (auto simp: dst_bytes_def plan_move_def)
  ultimately show ?thesis using that touches_mono [OF m'(2) _ room] by (simp add: emit_call_arg_register_moves_def)
qed

section \<open>Results\<close>

text \<open>Results that go to registers of their own: no stack result, and no register that is restored
  afterwards.\<close>

definition result_regs :: "nib_program \<Rightarrow> func \<Rightarrow> nat \<Rightarrow> int list" where
  "result_regs B fn i =
     (let ins = insns fn ! i; c = find_callee B True (iname ins)
      in map (\<lambda>ri. assigned (vr fn (ret_vreg_of ins ri)))
           (filter (\<lambda>ri. valid_vreg fn (ret_vreg_of ins ri)) [0..<nat (call_expected_nreturns B ins c)]))"

definition results_simple :: "nib_program \<Rightarrow> func \<Rightarrow> nat \<Rightarrow> bool" where
  "results_simple B fn i \<longleftrightarrow>
     (let ins = insns fn ! i; c = find_callee B True (iname ins)
      in list_all (\<lambda>ri. stack_return_disp B c ri = None) [0..<nat (call_expected_nreturns B ins c)] \<and>
         list_all (\<lambda>p. plain_reg p \<and> \<not> call_saved_restores_reg (direct_call_saved B fn i c) (save_reg p)) (result_regs B fn i))"

lemma capture_effect:
  assumes "stack_return_disp B c ri = None"
    and "valid_vreg fn (ret_vreg_of ins ri) \<longrightarrow>
           plain_reg (assigned (vr fn (ret_vreg_of ins ri))) \<and>
           \<not> call_saved_restores_reg saved (save_reg (assigned (vr fn (ret_vreg_of ins ri))))"
  shows "\<not> snd (capture_return B fn ins c True area saved ri)" "no_ir (fst (capture_return B fn ins c True area saved ri))"
    and "\<exists>m'. exec_list L (lines_of (fst (capture_return B fn ins c True area saved ri))) m = Some m' \<and> ssmem m' = ssmem m \<and>
           (\<forall>b. b \<notin> (if valid_vreg fn (ret_vreg_of ins ri) then preg_bytes (assigned (vr fn (ret_vreg_of ins ri))) else {}) \<longrightarrow>
              cell m' b = cell m b)"
proof -
  let ?r = "ret_vreg_of ins ri" and ?e = "expected_return B c ri"
  let ?p = "assigned (vr fn ?r)"
  have cs: "capture_return B fn ins c True area saved ri =
    (if valid_vreg fn ?r \<and> ?e \<noteq> PREG_NONE \<and> ?p \<noteq> ?e then ([note_fixup FIXUP_RET_CAPTURE, rins_asm (Mov (Reg ?p) (Reg ?e))], False)
     else ([], False))"
  proof (cases "valid_vreg fn ?r")
    case True
    then have p: "plain_reg ?p" "\<not> call_saved_restores_reg saved (save_reg ?p)" using assms(2) by auto
    have "ret_capture_restore_reg fn ?r = save_reg ?p"
      using True by (auto simp: ret_capture_restore_reg_def save_reg_def vreg_preg_def valid_vreg_def vr_def)
    moreover have "vreg_asm B fn ?r = Reg ?p" using True p(1) by (auto simp: vreg_asm_def valid_vreg_def plain_reg_def)
    ultimately show ?thesis using True p assms(1) by (auto simp: capture_return_def Let_def)
  qed (simp add: capture_return_def Let_def)
  show "\<not> snd (capture_return B fn ins c True area saved ri)" "no_ir (fst (capture_return B fn ins c True area saved ri))"
    by (simp_all add: cs)
  have "0 \<le> ?p" if "valid_vreg fn ?r" using assms(2) that by (auto simp: plain_reg_def)
  then show "\<exists>m'. exec_list L (lines_of (fst (capture_return B fn ins c True area saved ri))) m = Some m' \<and> ssmem m' = ssmem m \<and>
           (\<forall>b. b \<notin> (if valid_vreg fn ?r then preg_bytes ?p else {}) \<longrightarrow> cell m' b = cell m b)"
    by (simp add: cs Let_def cell_set_reg)
qed

definition captures :: "nib_program \<Rightarrow> func \<Rightarrow> nat \<Rightarrow> nat list \<Rightarrow> (rins_call list \<times> bool) list" where
  "captures B fn i rs =
     (let ins = insns fn ! i; c = find_callee B True (iname ins)
      in map (capture_return B fn ins c True (max (direct_stack_arg_words B c) (direct_stack_ret_words B c) > 0)
                (direct_call_saved B fn i c)) rs)"

definition result_bytes :: "nib_program \<Rightarrow> func \<Rightarrow> nat \<Rightarrow> int set" where
  "result_bytes B fn i = (\<Union>p\<in>set (result_regs B fn i). preg_bytes p)"

lemma captures_effect:
  assumes "results_simple B fn i" "set rs \<subseteq> {0..<nat (call_expected_nreturns B (insns fn ! i) (find_callee B True (iname (insns fn ! i))))}"
  shows "no_ir (concat (map fst (captures B fn i rs)))" "\<forall>x\<in>set (captures B fn i rs). \<not> snd x"
    and "\<exists>m'. exec_list L (lines_of (concat (map fst (captures B fn i rs)))) m = Some m' \<and> ssmem m' = ssmem m \<and>
           (\<forall>b. b \<notin> result_bytes B fn i \<longrightarrow> cell m' b = cell m b)"
  using assms(2)
proof (atomize (full), induction rs arbitrary: m)
  case (Cons r rs)
  let ?ins = "insns fn ! i" and ?c = "find_callee B True (iname (insns fn ! i))"
  let ?saved = "direct_call_saved B fn i ?c" and ?area = "max (direct_stack_arg_words B ?c) (direct_stack_ret_words B ?c) > 0"
  let ?x = "capture_return B fn ?ins ?c True ?area ?saved r"
  have r: "r < nat (call_expected_nreturns B ?ins ?c)" using Cons.prems by simp
  have reg: "valid_vreg fn (ret_vreg_of ?ins r) \<longrightarrow> assigned (vr fn (ret_vreg_of ?ins r)) \<in> set (result_regs B fn i)"
    using r by (auto simp: result_regs_def Let_def)
  have sd: "stack_return_disp B ?c r = None" using assms(1) r by (auto simp: results_simple_def Let_def list_all_iff)
  have ok: "valid_vreg fn (ret_vreg_of ?ins r) \<longrightarrow> plain_reg (assigned (vr fn (ret_vreg_of ?ins r))) \<and>
      \<not> call_saved_restores_reg ?saved (save_reg (assigned (vr fn (ret_vreg_of ?ins r))))"
    using assms(1) reg by (auto simp: results_simple_def Let_def list_all_iff)
  note ce = capture_effect [where area = ?area, OF sd ok]
  obtain m1 where m1: "exec_list L (lines_of (fst ?x)) m = Some m1" "ssmem m1 = ssmem m"
    "\<forall>b. b \<notin> (if valid_vreg fn (ret_vreg_of ?ins r) then preg_bytes (assigned (vr fn (ret_vreg_of ?ins r))) else {}) \<longrightarrow>
       cell m1 b = cell m b" using ce(3) by blast
  obtain m2 where m2: "exec_list L (lines_of (concat (map fst (captures B fn i rs)))) m1 = Some m2" "ssmem m2 = ssmem m1"
    "\<forall>b. b \<notin> result_bytes B fn i \<longrightarrow> cell m2 b = cell m1 b" "no_ir (concat (map fst (captures B fn i rs)))"
    "\<forall>x\<in>set (captures B fn i rs). \<not> snd x" using Cons.IH [of m1] Cons.prems by auto
  have split: "captures B fn i (r # rs) = ?x # captures B fn i rs" by (simp add: captures_def Let_def)
  have "cell m1 b = cell m b" if "b \<notin> result_bytes B fn i" for b
    using that m1(3) reg by (auto simp: result_bytes_def split: if_splits)
  then show ?case using m1 m2 ce(1,2) unfolding split by (auto simp: exec_append)
qed (simp add: captures_def Let_def)

section \<open>The call\<close>

text \<open>What a callee promises: it comes back with the stack as it found it, and keeps the registers that it
  is said to preserve.\<close>

definition callee_returns :: "clobbers \<Rightarrow> (machine \<Rightarrow> machine option) \<Rightarrow> machine \<Rightarrow> bool" where
  "callee_returns preserves step m \<longleftrightarrow>
     (\<exists>m'. step m = Some m' \<and> get_reg m' PREG_SP = get_reg m PREG_SP \<and>
           (\<forall>k < 34. ssmem m' (get_reg m PREG_SP + of_nat k) = ssmem m (get_reg m PREG_SP + of_nat k)) \<and>
           (\<forall>p. word_reg p \<and> preserves ! nat p \<longrightarrow> cell m' (2 * p) = cell m (2 * p) \<and> cell m' (2 * p + 1) = cell m (2 * p + 1)))"

lemma part_of_word:
  assumes "plain_reg p" "p \<noteq> 17" "p \<noteq> 18" "get_reg m' (save_reg p) = get_reg m (save_reg p)"
  shows "get_reg m' p = get_reg m p"
proof (rule get_reg_cong)
  have w: "get_reg m (save_reg p) = join (cell m (2 * save_reg p)) (cell m (2 * save_reg p + 1))" for m
    using save_reg_word [OF assms(1-3)] by (auto simp: word_reg_def get_reg_def)
  have "cell m' (2 * save_reg p) = cell m (2 * save_reg p)" "cell m' (2 * save_reg p + 1) = cell m (2 * save_reg p + 1)"
    using arg_cong [OF assms(4), of lo8] arg_cong [OF assms(4), of hi8] by (simp_all add: w)
  then show "b \<in> preg_bytes p \<Longrightarrow> cell m' b = cell m b" for b using save_reg_bytes [OF assms(1)] by auto
qed (use assms(1) in \<open>simp add: plain_reg_def\<close>)

lemma slots_after_saves:
  assumes "\<forall>(d, v)\<in>A. slot_clear B fn m 78 v" "get_reg m1 4 = get_reg m 4 - of_nat n" "touches {8, 9} n m m1" "n \<le> 34"
  shows "\<forall>(d, v)\<in>A. slot_clear B fn m1 44 v"
proof -
  have "below (get_reg m1 4) 44 \<subseteq> below (get_reg m 4) 78"
    unfolding assms(2) using below_shift [of "get_reg m 4" n 44] below_mono [of "n + 44" 78 "get_reg m 4"] assms(4) by auto
  moreover have "slot_addr m1 (BpSlot x) = slot_addr m (BpSlot x)" for x
    using touches_reg [OF assms(3), of 5] by (simp add: slot_addr_def)
  ultimately show ?thesis using assms(1) by (fastforce simp: slot_clear_def Let_def split: asm_arg.splits)
qed

lemma moved_not_sp:
  "args_fit fn as \<Longrightarrow> preg_bytes 4 \<inter> (\<Union>x\<in>set (filter (needs_move fn) as). preg_bytes (fst x)) = {}"
  using plain_reg_bytes by (fastforce simp: args_fit_def dst_fits_def)

lemma results_not_sp: "results_simple B fn i \<Longrightarrow> b \<in> {8, 9} \<Longrightarrow> b \<notin> result_bytes B fn i"
  using plain_reg_bytes by (auto simp: results_simple_def result_bytes_def list_all_iff Let_def)

text \<open>The words that were pushed are above the stack pointer that the callee sees.\<close>

lemma stack_kept:
  assumes "get_reg m1 4 = s - of_nat n" "touches C 44 m1 m2"
    "\<forall>k < 34. ssmem m3 (get_reg m2 4 + of_nat k) = ssmem m2 (get_reg m2 4 + of_nat k)" "n \<le> 34" "get_reg m2 4 = get_reg m1 4"
  shows "\<forall>a\<in>below s n. ssmem m3 a = ssmem m1 a"
proof
  fix a
  assume "a \<in> below s n"
  then obtain k where k: "1 \<le> k" "k \<le> n" "a = s - of_nat k" by (auto simp: below_def)
  then have a: "a = get_reg m1 4 + of_nat (n - k)" by (simp add: assms(1) of_nat_diff)
  have "a \<notin> below (get_reg m1 4) 44" unfolding a using assms(4) by (intro above_not_below) simp
  then have "ssmem m2 a = ssmem m1 a" using assms(2) by (simp add: touches_def)
  moreover have "ssmem m3 a = ssmem m2 a" using assms(3) [rule_format, of "n - k"] k(1,2) assms(4) unfolding a assms(5) by linarith
  ultimately show "ssmem m3 a = ssmem m1 a" by simp
qed

text \<open>The stream of a call that needs no space on the stack.\<close>

lemma fixup_call_stream:
  assumes "direct_stack_arg_words B (find_callee B True (iname (insns fn ! i))) \<le> 0"
    "direct_stack_ret_words B (find_callee B True (iname (insns fn ! i))) \<le> 0"
    "cached_at fn stack_spill_use i = []" "cached_at fn stack_spill_def i = []" "results_simple B fn i"
  shows "fixup_call B fn i =
    (let ins = insns fn ! i; c = find_callee B True (iname ins); saved = direct_call_saved B fn i c
     in fst (emit_call_saves saved) @ emit_call_arg_register_moves B fn ins c False @ [rins_ir i] @
        concat (map fst (captures B fn i [0..<nat (call_expected_nreturns B ins c)])) @
        emit_call_restores saved (snd (emit_call_saves saved)))"
proof -
  let ?ins = "insns fn ! i" and ?c = "find_callee B True (iname (insns fn ! i))"
  let ?n = "nat (call_expected_nreturns B ?ins ?c)"
  let ?cp = "captures B fn i [0..<?n]"
  have "\<not> snd (?cp ! ri)" if "ri < ?n" for ri
    using captures_effect(2) [OF assms(5), of "[0..<?n]"] that by (simp add: captures_def Let_def)
  then have "reload_returns B fn ?ins (\<lambda>ri. snd (?cp ! ri)) ?n = []"
    by (simp add: reload_returns_def filter_empty_conv)
  then show ?thesis
    using assms(1-4)
    by (simp add: fixup_call_def Let_def captures_def rins_ir_stack_cached_def rins_stack_cache_pop_for_insn_def
        rins_stack_cache_push_for_insn_def release_area_def case_prod_unfold less_max_iff_disj)
qed

text \<open>A run of the whole stream: the registers that were pushed have their old values, and the cells of the
  others change only by the argument moves, the callee and the results.\<close>

definition call_simple :: "nib_program \<Rightarrow> func \<Rightarrow> nat \<Rightarrow> machine \<Rightarrow> bool" where
  "call_simple B fn i m \<longleftrightarrow>
     (let c = find_callee B True (iname (insns fn ! i)); as = register_args B fn (insns fn ! i) c False
      in direct_stack_arg_words B c \<le> 0 \<and> direct_stack_ret_words B c \<le> 0 \<and>
         cached_at fn stack_spill_use i = [] \<and> cached_at fn stack_spill_def i = [] \<and> regs_ok fn \<and> results_simple B fn i \<and>
         args_fit fn as \<and> list_all (\<lambda>(d, v). slot_clear B fn m 78 v) as)"

lemma call_run:
  assumes c: "c = find_callee B True (iname (insns fn ! i))" and simple: "call_simple B fn i m"
    and callee: "\<And>m. callee_returns (callee_preserves B c) (step i) m"
  obtains m' where "run_stream L step (fixup_call B fn i) m = Some m'" "get_reg m' PREG_SP = get_reg m PREG_SP"
    "\<forall>p\<in>set (pushed_regs (direct_call_saved B fn i c)) - {4}. get_reg m' p = get_reg m p"
    "\<And>q b. \<lbrakk>word_reg q; q \<notin> set (pushed_regs (direct_call_saved B fn i c)); callee_preserves B c ! nat q;
       \<not> fst (collect_call_arg_setup_clobbers B fn (insns fn ! i) c False) ! nat q; b = 2 * q \<or> b = 2 * q + 1;
       b \<notin> result_bytes B fn i\<rbrakk> \<Longrightarrow> cell m' b = cell m b"
proof -
  let ?ins = "insns fn ! i" and ?saved = "direct_call_saved B fn i c" and ?s = "get_reg m 4"
  let ?ps = "pushed_regs ?saved" and ?mv = "filter (needs_move fn) (register_args B fn (insns fn ! i) c False)"
  let ?n = "nat (call_expected_nreturns B ?ins c)"
  have stack: "direct_stack_arg_words B c \<le> 0" "direct_stack_ret_words B c \<le> 0"
    and cache: "cached_at fn stack_spill_use i = []" "cached_at fn stack_spill_def i = []"
    and regs: "regs_ok fn" and res: "results_simple B fn i" and fit: "args_fit fn (register_args B fn ?ins c False)"
    and slots: "\<forall>(d, v)\<in>set (register_args B fn ?ins c False). slot_clear B fn m 78 v"
    using simple unfolding call_simple_def Let_def c list_all_iff by blast+
  have sl: "save_list ?saved" by (rule direct_call_saved_facts(1) [OF regs])
  obtain m1 where m1: "exec_list L (lines_of (fst (emit_call_saves ?saved))) m = Some m1"
    "get_reg m1 4 = ?s - of_nat (2 * length ?ps)" "touches {8, 9} (2 * length ?ps) m m1"
    using saves_code(1) [OF sl, of L m] pushes_effect [of "pushed_words ?saved m" m] pushed_regs(4) [OF sl]
    by (auto simp: pushed_words_length)
  obtain m2 where m2: "exec_list L (lines_of (emit_call_arg_register_moves B fn ?ins c False)) m1 = Some m2"
    "touches (\<Union>x\<in>set ?mv. preg_bytes (fst x)) 44 m1 m2"
    using arg_moves_touch [OF fit slots_after_saves [OF slots m1(2,3)]] pushed_regs(4) [OF sl] by auto
  obtain m3 where m3: "step i m2 = Some m3" "get_reg m3 4 = get_reg m2 4"
    "\<forall>k < 34. ssmem m3 (get_reg m2 4 + of_nat k) = ssmem m2 (get_reg m2 4 + of_nat k)"
    "\<forall>p. word_reg p \<and> callee_preserves B c ! nat p \<longrightarrow> cell m3 (2 * p) = cell m2 (2 * p) \<and> cell m3 (2 * p + 1) = cell m2 (2 * p + 1)"
    using callee [of m2] unfolding callee_returns_def by blast
  obtain m4 where m4: "exec_list L (lines_of (concat (map fst (captures B fn i [0..<?n])))) m3 = Some m4" "ssmem m4 = ssmem m3"
    "\<forall>b. b \<notin> result_bytes B fn i \<longrightarrow> cell m4 b = cell m3 b"
    using captures_effect(3) [OF res, of "[0..<?n]" L m3] unfolding c by auto
  have sp: "get_reg m2 4 = get_reg m1 4" "get_reg m4 4 = get_reg m2 4"
    using touches_reg [OF m2(2), of 4] moved_not_sp [OF fit] get_reg_cong [of 4 m4 m3] m4(3) results_not_sp [OF res] m3(2) by auto
  have mem: "\<forall>a\<in>below ?s (2 * length ?ps). ssmem m4 a = ssmem m1 a"
    using stack_kept [OF m1(2) m2(2) m3(3) _ sp(1)] pushed_regs(4) [OF sl] m4(2) by auto
  obtain m5 where m5: "exec_list L (lines_of (emit_call_restores ?saved (snd (emit_call_saves ?saved)))) m4 = Some m5"
    "get_reg m5 4 = ?s" "\<forall>p\<in>set ?ps - {4}. get_reg m5 p = get_reg m p"
    "\<forall>c. c \<notin> saved_bytes ?ps \<union> {8, 9} \<longrightarrow> cell m5 c = cell m4 c"
    using saves_restored [OF sl m1(1) _ mem] sp by metis
  have "no_ir (concat (map fst (captures B fn i [0..<?n])))"
    using captures_effect(1) [OF res, of "[0..<?n]"] unfolding c by simp
  then have "run_stream L step (fst (emit_call_saves ?saved) @ emit_call_arg_register_moves B fn ?ins c False @ [rins_ir i] @
      concat (map fst (captures B fn i [0..<?n])) @ emit_call_restores ?saved (snd (emit_call_saves ?saved))) m = Some m5"
    by (simp only: run_append run_lines no_ir_saves no_ir_moves m1(1) m2(1) m4(1) m5(1) option.case run_stream.simps m3(1))
  then have run: "run_stream L step (fixup_call B fn i) m = Some m5"
    by (simp only: fixup_call_stream [OF stack [unfolded c] cache res] Let_def c)
  show ?thesis
  proof (rule that [OF run m5(2,3)])
    fix q b
    assume q: "word_reg q" "q \<notin> set ?ps" "callee_preserves B c ! nat q"
      "\<not> fst (collect_call_arg_setup_clobbers B fn ?ins c False) ! nat q" and b: "b = 2 * q \<or> b = 2 * q + 1" "b \<notin> result_bytes B fn i"
    have "b \<notin> preg_bytes 4" using b(1) word_reg_plain [OF q(1)] by (auto simp: plain_reg_def)
    moreover have "b \<notin> saved_bytes ?ps" using b(1) q(2) by (auto simp: saved_bytes_def) presburger+
    ultimately have "cell m5 b = cell m4 b" using m5(4) by simp
    also have "\<dots> = cell m3 b" using m4(3) b(2) by blast
    also have "\<dots> = cell m2 b" using m3(4) q(1,3) b(1) by blast
    also have "\<dots> = cell m1 b" using m2(2) unmarked_not_moved [OF _ fit q(1,4)] b(1) by (fastforce simp: touches_def)
    also have "\<dots> = cell m b" using m1(3) \<open>b \<notin> preg_bytes 4\<close> by (simp add: touches_def)
    finally show "cell m5 b = cell m b" .
  qed
qed


text \<open>A call of an external function with one word as result.\<close>

definition word_ext :: "int list \<Rightarrow> extern_fn" where
  "word_ext pins = (sample_ext pins)\<lparr>ext_return_types := [''u16''], ext_ret_pins := [PREG_NONE],
     ext_ret_places := [ABI_PLACE_DEFAULT], ext_return_stack_offsets := [0]\<rparr>"

definition call_program :: "int list \<Rightarrow> nib_program" where
  "call_program pins = \<lparr>prog_functions = [], externs = [word_ext pins], fn_assigns = []\<rparr>"

definition in_reg :: "int \<Rightarrow> vreg_info" where
  "in_reg p = init_vreg_info\<lparr>assigned := p\<rparr>"

text \<open>The argument is in CX, a value in DX is needed later, the result goes to AX.\<close>

definition keep_fn :: func where
  "keep_fn = compute_cfg_liveness (build_cfg (new_func\<lparr>vregs := [in_reg PREG_DX, in_reg PREG_BX, in_reg PREG_AX],
     insns := [ir_insn0\<lparr>op := IR_CALL, iname := ''f'', dst := 2, src1 := 1, nargs := 1\<rparr>,
               ir_insn0\<lparr>op := IR_CALL, iname := ''g'', src1 := 0, src2 := 2, nargs := 2\<rparr>]\<rparr>))"

definition rude_callee :: "nat \<Rightarrow> machine \<Rightarrow> machine option" where
  "rude_callee n m = Some (set_reg PREG_AX 5 (set_reg PREG_CX 0 (set_reg PREG_DX 0 m)))"

lemma rude_callee_returns: "callee_returns (callee_preserves (call_program ps) (Callee_ext 0)) (rude_callee n) m"
proof -
  have none: "\<not> (word_reg p \<and> callee_preserves (call_program ps) (Callee_ext 0) ! nat p)" for p
    by (auto simp: word_reg_def callee_preserves_def call_program_def word_ext_def sample_ext_def
        mark_preserved_def no_clobbers_def)
  let ?m = "set_reg PREG_AX 5 (set_reg PREG_CX 0 (set_reg PREG_DX 0 m))"
  have "get_reg ?m 4 = get_reg m 4" "ssmem ?m = ssmem m" by (simp_all add: plain_reg_def)
  moreover have "cell ?m (2 * p) = cell m (2 * p) \<and> cell ?m (2 * p + 1) = cell m (2 * p + 1)"
    if "word_reg p \<and> callee_preserves (call_program ps) (Callee_ext 0) ! nat p" for p using that none by blast
  moreover have "rude_callee n m = Some ?m" by (simp add: rude_callee_def)
  ultimately show ?thesis unfolding callee_returns_def by metis
qed


section \<open>Results that are lost\<close>

text \<open>Six registers are needed after the call and the result goes to the seventh.\<close>

definition popa_fn :: func where
  "popa_fn = compute_cfg_liveness (build_cfg (new_func\<lparr>vregs := map in_reg [PREG_CX, PREG_DX, PREG_BX, PREG_SI, PREG_DI, PREG_BP, PREG_AX],
     insns := [ir_insn0\<lparr>op := IR_CALL, iname := ''f'', dst := 6\<rparr>,
               ir_insn0\<lparr>op := IR_CALL, iname := ''g'', src1 := 0, src2 := 1, extra_args := [2, 3, 4, 5, 6], nargs := 7\<rparr>]\<rparr>))"

text \<open>(C38) When six word registers are saved around a call they are saved with \<^verbatim>\<open>pusha\<close>, and
  \<^verbatim>\<open>popa\<close> restores the seventh as well: a result that stays in AX is replaced by what AX held
  before the call.\<close>

theorem call_result_lost_by_popa:
  assumes "\<And>m. callee_returns (callee_preserves (call_program []) (Callee_ext 0)) (step 0) m"
  shows "dst (insns popa_fn ! 0) = 6 \<and> assigned (vregs popa_fn ! 6) = PREG_AX \<and>
    expected_return (call_program []) (Callee_ext 0) 0 = PREG_AX \<and> vreg_live_after_insn popa_fn 0 6 \<and>
    (\<exists>m'. run_stream L step (fixup_call (call_program []) popa_fn 0) m = Some m' \<and> get_reg m' PREG_AX = get_reg m PREG_AX)"
proof (intro conjI)
  have c: "Callee_ext 0 = find_callee (call_program []) True (iname (insns popa_fn ! 0))" by code_simp
  have "register_args (call_program []) popa_fn (insns popa_fn ! 0) (Callee_ext 0) False = []" by code_simp
  moreover have "call_simple (call_program []) popa_fn 0 sample_machine" by code_simp
  ultimately have simple: "call_simple (call_program []) popa_fn 0 m" by (simp add: call_simple_def c [symmetric])
  have "0 \<in> set (pushed_regs (direct_call_saved (call_program []) popa_fn 0 (Callee_ext 0)))" by code_simp
  with call_run [where step = step and L = L, OF c simple assms]
  show "\<exists>m'. run_stream L step (fixup_call (call_program []) popa_fn 0) m = Some m' \<and> get_reg m' PREG_AX = get_reg m PREG_AX"
    by (metis Diff_iff singletonD zero_neq_numeral)
qed code_simp+

theorem call_result_lost_by_popa_witness:
  "\<exists>m'. run_stream (\<lambda>_. 0) rude_callee (fixup_call (call_program []) popa_fn 0) sample_machine = Some m' \<and>
        get_reg m' PREG_AX = get_reg sample_machine PREG_AX"
  using call_result_lost_by_popa [of rude_callee "\<lambda>_. 0" sample_machine, OF rude_callee_returns] by blast

text \<open>A function with a frame whose result goes to a spill slot.\<close>

definition frame_fn :: func where
  "frame_fn = compute_cfg_liveness (build_cfg (new_func\<lparr>needs_frame := True, vregs := [init_vreg_info\<lparr>spill_slot := 0\<rparr>],
     insns := [ir_insn0\<lparr>op := IR_CALL, iname := ''f'', dst := 0\<rparr>, ir_insn0\<lparr>op := IR_CALL, iname := ''g'', src1 := 0, nargs := 1\<rparr>]\<rparr>))"

definition framed_machine :: machine where
  "framed_machine = \<lparr>cell = (\<lambda>c. if c = 9 then 1 else if c = 11 then 2 else 0), ssmem = (\<lambda>_. 7)\<rparr>"

text \<open>The result of a call is stored through BP before BP is restored. A callee that does not keep BP makes
  the store miss the slot: here it leaves 0 in BP and 5 in AX, the run ends with BP as before, and the
  slot of the result at BP - 2 still holds its old bytes.\<close>

theorem spilled_result_misses_slot:
  "fixup_call (call_program []) frame_fn 0 =
     [rins_asm_fixup FIXUP_CALL_SAVE (Push (Reg PREG_BP)), rins_ir 0, note_fixup FIXUP_RET_CAPTURE,
      rins_asm (Mov (BpSlot (-2)) (Reg PREG_AX)), rins_asm_fixup FIXUP_CALL_RESTORE (Pop (Reg PREG_BP))] \<and>
   (case run_stream (\<lambda>_. 0) (\<lambda>n m. Some (set_reg PREG_BP 0 (set_reg PREG_AX 5 m))) (fixup_call (call_program []) frame_fn 0) framed_machine of
      Some m' \<Rightarrow> get_reg m' PREG_BP = get_reg framed_machine PREG_BP \<and>
                 load_word m' (get_reg m' PREG_BP - 2) = load_word framed_machine (get_reg m' PREG_BP - 2) \<and> load_word m' (-2) = 5
    | None \<Rightarrow> False)"
  by code_simp

end
