(* ===== verification/Bind_Calls.thy ===== *)
theory Bind_Calls
  imports Bind_Driver Nib_Topo
begin

text \<open>
  The registers that pass arguments and results between functions, \<^verbatim>\<open>src/bind.c\<close>:
  \<^verbatim>\<open>build_call_graph\<close>, \<^verbatim>\<open>topo_sort\<close>, \<^verbatim>\<open>propagate_preferences\<close>. Functions are
  taken callees first; each gets registers for its parameters, and the arguments of its callers get
  these registers as preferences. The messages are not modelled, the count of errors is.
\<close>

section \<open>The call graph\<close>

record call_edge =
  caller_fn :: nat
  callee_fn :: int
  insn_idx :: nat
  arg_vregs :: "int list"
  edge_ret_vreg :: int
  edge_ret_vregs :: "int list"
  callee_name :: string

definition find_fn :: "nib_program \<Rightarrow> string \<Rightarrow> int" where
  "find_fn B nm = (case first_index (\<lambda>f. fn_name f = nm) (prog_functions B) of Some i \<Rightarrow> int i | None \<Rightarrow> -1)"

definition is_indirect :: "ir_op \<Rightarrow> bool" where
  "is_indirect t \<longleftrightarrow> t = IR_ICALL \<or> t = IR_NCALL \<or> t = IR_NTAILCALL"

definition is_call_op :: "ir_op \<Rightarrow> bool" where
  "is_call_op t \<longleftrightarrow> t = IR_CALL \<or> t = IR_MCALL \<or> t = IR_TAILCALL \<or> is_indirect t"

definition edge_of :: "nib_program \<Rightarrow> nat \<Rightarrow> nat \<Rightarrow> ir_insn \<Rightarrow> call_edge" where
  "edge_of B fi i ins =
     (let n = (if op ins = IR_MCALL then nrets ins else if dst ins \<ge> 0 then 1 else 0)
      in \<lparr>caller_fn = fi, callee_fn = (if is_indirect (op ins) then -1 else find_fn B (iname ins)), insn_idx = i,
          arg_vregs = filter (\<lambda>v. v \<ge> 0) ((if is_indirect (op ins) then [] else [src1 ins, src2 ins]) @ extra_args ins),
          edge_ret_vreg = dst ins,
          edge_ret_vregs = (if n > 0 then [dst ins] else []) @
            (if op ins = IR_MCALL then map (\<lambda>ri. ins_ret_vreg ins (int ri - 1)) [1..<nat n] else []),
          callee_name = snprintf_s 64 (iname ins)\<rparr>)"

definition build_call_graph :: "nib_program \<Rightarrow> call_edge list" where
  "build_call_graph B =
     concat (map (\<lambda>fi. let is = insns (prog_functions B ! fi)
                       in map (\<lambda>i. edge_of B fi i (is ! i)) (filter (\<lambda>i. is_call_op (op (is ! i))) [0..<length is]))
               [0..<length (prog_functions B)])"

section \<open>Callees first\<close>

definition has_callee :: "call_edge list \<Rightarrow> nat \<Rightarrow> bool" where
  "has_callee es i \<longleftrightarrow> list_ex (\<lambda>e. callee_fn e \<ge> 0 \<and> caller_fn e = i) es"

definition all_callees_visited :: "call_edge list \<Rightarrow> bool list \<Rightarrow> nat \<Rightarrow> bool" where
  "all_callees_visited es visited i \<longleftrightarrow>
     list_all (\<lambda>e. caller_fn e \<noteq> i \<or> callee_fn e < 0 \<or> visited ! nat (callee_fn e)) es"

definition topo_sort_functions :: "nat \<Rightarrow> call_edge list \<Rightarrow> nat list" where
  "topo_sort_functions n es =
     append_rest (topo_loop (all_callees_visited es) (map (\<lambda>i. \<not> has_callee es i) [0..<n])
                    (filter (\<lambda>i. \<not> has_callee es i) [0..<n]))"

section \<open>Places on the stack\<close>

text \<open>The words on the stack are numbered from the return address on; what is not on the stack keeps
  its offset.\<close>

fun stack_offsets :: "int \<Rightarrow> (abi_place \<times> int \<times> int) list \<Rightarrow> int list" where
  "stack_offsets off [] = []"
| "stack_offsets off ((place, words, old) # xs) =
     (if place = ABI_PLACE_STACK then off # stack_offsets (off + words * 2) xs else old # stack_offsets off xs)"

definition call_base :: "bool \<Rightarrow> int" where
  "call_base far = (if far then 6 else 4)"

definition layout_extern :: "extern_fn \<Rightarrow> extern_fn" where
  "layout_extern x =
     x\<lparr>ext_param_stack_offsets := stack_offsets (call_base (ext_is_far x))
         (map (\<lambda>(p, old). (p, 1, old)) (zip (ext_param_places x) (ext_param_stack_offsets x))),
       ext_return_stack_offsets := stack_offsets (call_base (ext_is_far x))
         (map (\<lambda>(p, t, old). (p, abi_type_words t, old))
            (zip (ext_ret_places x) (zip (ext_return_types x) (ext_return_stack_offsets x))))\<rparr>"

definition init_assign :: "func \<Rightarrow> fn_assignment" where
  "init_assign f =
     \<lparr>fa_param_regs = replicate (length (param_vregs f)) PREG_NONE, fa_param_places = param_places f,
      fa_param_stack_offsets = replicate (length (param_vregs f)) 0, fa_return_reg = PREG_NONE,
      fa_return_regs = replicate (length (return_types f)) PREG_NONE, fa_return_places = ret_places f,
      fa_return_stack_offsets = replicate (length (return_types f)) 0, fa_resolved = False, fa_clobbers = no_clobbers\<rparr>"

text \<open>Parameters on the stack have their home there, and the function needs a frame.\<close>

definition set_home :: "int \<times> int \<Rightarrow> func \<Rightarrow> func" where
  "set_home vo fn =
     (let (v, off) = vo
      in if 0 \<le> v \<and> v < int (nvregs fn)
         then fn\<lparr>vregs := (vregs fn)[nat v := (vregs fn ! nat v)\<lparr>is_stack_home := True, stack_offset := off\<rparr>], needs_frame := True\<rparr>
         else fn\<lparr>needs_frame := True\<rparr>)"

definition layout_function :: "func \<times> fn_assignment \<Rightarrow> func \<times> fn_assignment" where
  "layout_function s =
     (let (fn, fa) = s;
          poffs = stack_offsets (call_base (is_far fn)) (map (\<lambda>(p, old). (p, 1, old)) (zip (param_places fn) (fa_param_stack_offsets fa)));
          roffs = stack_offsets (call_base (is_far fn)) (map (\<lambda>(p, t, old). (p, abi_type_words t, old))
                    (zip (ret_places fn) (zip (return_types fn) (fa_return_stack_offsets fa))));
          homes = map (\<lambda>p. (param_vregs fn ! p, poffs ! p))
                    (filter (\<lambda>p. param_places fn ! p = ABI_PLACE_STACK) [0..<length (param_vregs fn)]);
          fn = fold set_home homes fn;
          fn = (if list_ex (\<lambda>p. p = ABI_PLACE_STACK) (take (length (return_types fn)) (ret_places fn)) then fn\<lparr>needs_frame := True\<rparr> else fn)
      in (fn, fa\<lparr>fa_param_stack_offsets := poffs, fa_return_stack_offsets := roffs\<rparr>))"

section \<open>The registers of the parameters\<close>

type_synonym reg_choice = "int list \<times> bool list"

definition mark_reg_used :: "int \<Rightarrow> bool list \<Rightarrow> bool list" where
  "mark_reg_used p used =
     (let used = used[nat p := True]
      in if p < 4 then used[nat (preg_alias_lo p) := True, nat (preg_alias_hi p) := True] else used)"

definition give_reg :: "nat \<Rightarrow> int \<Rightarrow> reg_choice \<Rightarrow> reg_choice" where
  "give_reg p preg s = (let (regs, used) = s in (regs[p := preg], mark_reg_used preg used))"

definition register_params :: "func \<Rightarrow> nat list" where
  "register_params fn = filter (\<lambda>p. param_places fn ! p \<noteq> ABI_PLACE_STACK) [0..<length (param_vregs fn)]"

definition honor_preference :: "func \<Rightarrow> nat \<Rightarrow> reg_choice \<Rightarrow> reg_choice" where
  "honor_preference fn p s =
     (let v = param_vregs fn ! p; preg = preferred (vregs fn ! nat v)
      in if v \<ge> 0 \<and> preg \<noteq> PREG_NONE \<and> \<not> snd s ! nat preg then give_reg p preg s else s)"

text \<open>A parameter that is moved to a register with a preference may come in that register.\<close>

definition trace_move :: "func \<Rightarrow> ir_insn \<Rightarrow> reg_choice \<Rightarrow> reg_choice" where
  "trace_move fn ins s =
     (let pref = preferred (vregs fn ! nat (dst ins))
      in if op ins \<noteq> IR_MOV \<or> has_imm ins \<or> dst ins < 0 \<or> src1 ins < 0 \<or> pref = PREG_NONE then s
         else fold (\<lambda>p s. if param_vregs fn ! p = src1 ins \<and> fst s ! p = PREG_NONE \<and> \<not> snd s ! nat pref then give_reg p pref s else s)
                (register_params fn) s)"

definition word_order :: "int list" where
  "word_order = [PREG_AX, PREG_BX, PREG_CX, PREG_DX, PREG_SI, PREG_DI, PREG_BP]"

definition byte_order :: "int list" where
  "byte_order = [PREG_AL, PREG_BL, PREG_CL, PREG_DL, PREG_AH, PREG_BH, PREG_CH, PREG_DH]"

definition reg_is_free :: "bool list \<Rightarrow> int \<Rightarrow> bool" where
  "reg_is_free used preg \<longleftrightarrow>
     \<not> used ! nat preg \<and>
     (if preg < 4 then \<not> (used ! nat (preg_alias_lo preg) \<or> used ! nat (preg_alias_hi preg))
      else if preg \<ge> PREG_AL \<and> preg \<le> PREG_BH then \<not> used ! nat (preg_alias_parent preg)
      else True)"

definition give_free_reg :: "func \<Rightarrow> nat \<Rightarrow> reg_choice \<Rightarrow> reg_choice" where
  "give_free_reg fn p s =
     (let v = param_vregs fn ! p
      in if fst s ! p \<noteq> PREG_NONE \<or> v < 0 then s
         else case find (reg_is_free (snd s)) (if is_byte (vregs fn ! nat v) then byte_order else word_order) of
                Some preg \<Rightarrow> give_reg p preg s
              | None \<Rightarrow> s)"

definition assign_param_regs :: "func \<Rightarrow> int list" where
  "assign_param_regs fn =
     fst (fold (give_free_reg fn) (register_params fn)
           (fold (trace_move fn) (insns fn)
             (fold (honor_preference fn) (register_params fn)
               (replicate (length (param_vregs fn)) PREG_NONE, replicate NUM_PREGS False))))"

section \<open>Preferences of the callers\<close>

definition prefer_if_none :: "int \<Rightarrow> int \<Rightarrow> func \<Rightarrow> func" where
  "prefer_if_none v preg fn =
     (if v \<ge> 0 \<and> preg \<noteq> PREG_NONE \<and> preg \<noteq> PREG_SP \<and> preferred (vregs fn ! nat v) = PREG_NONE
      then fn\<lparr>vregs := (vregs fn)[nat v := (vregs fn ! nat v)\<lparr>preferred := preg\<rparr>]\<rparr> else fn)"

definition upd_fn :: "nat \<Rightarrow> (func \<Rightarrow> func) \<Rightarrow> nib_program \<Rightarrow> nib_program" where
  "upd_fn fi g B = B\<lparr>prog_functions := (prog_functions B)[fi := g (prog_functions B ! fi)]\<rparr>"

definition upd_fa :: "nat \<Rightarrow> (fn_assignment \<Rightarrow> fn_assignment) \<Rightarrow> nib_program \<Rightarrow> nib_program" where
  "upd_fa fi g B = B\<lparr>fn_assigns := (fn_assigns B)[fi := g (fn_assigns B ! fi)]\<rparr>"

definition prefer_extern :: "call_edge \<Rightarrow> nib_program \<Rightarrow> nib_program" where
  "prefer_extern e B =
     (case (if callee_fn e \<ge> 0 then None else first_index (\<lambda>x. ext_name x = callee_name e) (externs B)) of
        None \<Rightarrow> B
      | Some i \<Rightarrow>
          (let x = externs B ! i
           in upd_fn (caller_fn e)
                (fold (\<lambda>ri. prefer_if_none (edge_ret_vregs e ! ri) (extern_return_reg x (int ri)))
                   [0..<min (length (edge_ret_vregs e)) (length (ext_return_types x))] \<circ>
                 fold (\<lambda>a. prefer_if_none (arg_vregs e ! a) (ext_param_pins x ! a))
                   [0..<min (length (arg_vregs e)) (length (ext_param_places x))]) B))"

definition inherit_seg :: "func \<Rightarrow> int \<Rightarrow> int \<Rightarrow> func \<Rightarrow> func" where
  "inherit_seg callee pv v fn =
     (if 0 \<le> pv \<and> pv < int (nvregs callee) \<and> is_seg (vregs callee ! nat pv)
      then fn\<lparr>vregs := (vregs fn)[nat v := (vregs fn ! nat v)\<lparr>is_seg := True\<rparr>]\<rparr> else fn)"

text \<open>The callee is read again for each argument, because a function may call itself.\<close>

definition prefer_argument :: "nat \<Rightarrow> call_edge \<Rightarrow> nat \<Rightarrow> nib_program \<Rightarrow> nib_program" where
  "prefer_argument fi e a B =
     (let v = arg_vregs e ! a; preg = fa_param_regs (fn_assigns B ! fi) ! a; callee = prog_functions B ! fi
      in if v < 0 \<or> preg = PREG_NONE then B
         else upd_fn (caller_fn e) (inherit_seg callee (param_vregs callee ! a) v \<circ> prefer_if_none v preg) B)"

definition prefer_caller :: "nat \<Rightarrow> call_edge \<Rightarrow> nib_program \<Rightarrow> nib_program" where
  "prefer_caller fi e B =
     (if callee_fn e \<noteq> int fi then B
      else let fa = fn_assigns B ! fi;
               B = fold (prefer_argument fi e) [0..<min (length (arg_vregs e)) (length (param_vregs (prog_functions B ! fi)))] B
           in upd_fn (caller_fn e)
                (fold (\<lambda>ri. prefer_if_none (edge_ret_vregs e ! ri) (fa_return_regs fa ! ri))
                   [0..<min (length (edge_ret_vregs e)) (length (fa_return_regs fa))]) B)"

section \<open>One function after the other\<close>

definition return_registers :: "func \<Rightarrow> fn_assignment \<Rightarrow> fn_assignment" where
  "return_registers fn fa =
     (if has_return fn
      then let regs = map (\<lambda>ri. function_return_reg fn (int ri)) [0..<length (return_types fn)]
           in fa\<lparr>fa_return_regs := regs, fa_return_reg := regs ! 0\<rparr>
      else fa)"

definition missing_regs :: "func \<Rightarrow> int list \<Rightarrow> nat" where
  "missing_regs fn regs = length (filter (\<lambda>p. regs ! p = PREG_NONE) (register_params fn))"

definition resolve_function :: "call_edge list \<Rightarrow> nat \<Rightarrow> nib_program \<times> nat \<Rightarrow> nib_program \<times> nat" where
  "resolve_function es fi s =
     (let (B, errors) = s;
          (fn, fa) = layout_function (prog_functions B ! fi, fn_assigns B ! fi);
          regs = assign_param_regs fn;
          B = upd_fa fi (\<lambda>_. (return_registers fn fa)\<lparr>fa_param_regs := regs, fa_resolved := True\<rparr>) (upd_fn fi (\<lambda>_. fn) B)
      in (fold (prefer_caller fi) es B, errors + missing_regs fn regs))"

text \<open>At the end the parameters prefer the registers in which they come.\<close>

definition prefer_own_params :: "func \<Rightarrow> fn_assignment \<Rightarrow> func" where
  "prefer_own_params fn fa =
     fold (\<lambda>p fn. let v = param_vregs fn ! p; preg = fa_param_regs fa ! p
                  in if fa_param_places fa ! p = ABI_PLACE_STACK \<or> v < 0 \<or> preg = PREG_NONE \<or> preg = PREG_SP then fn
                     else fn\<lparr>vregs := (vregs fn)[nat v := (vregs fn ! nat v)\<lparr>preferred := preg\<rparr>]\<rparr>)
       [0..<length (param_vregs fn)] fn"

definition propagate_preferences :: "call_edge list \<Rightarrow> nat list \<Rightarrow> nib_program \<Rightarrow> nib_program \<times> nat" where
  "propagate_preferences es order B =
     (let B = B\<lparr>fn_assigns := map init_assign (prog_functions B), externs := map layout_extern (externs B)\<rparr>;
          B = fold prefer_extern es B;
          (B, errors) = fold (resolve_function es) order (B, 0)
      in (B\<lparr>prog_functions := map2 prefer_own_params (prog_functions B) (fn_assigns B)\<rparr>, errors))"

definition resolve_calls :: "nib_program \<Rightarrow> nib_program \<times> nat" where
  "resolve_calls B =
     (let es = build_call_graph B
      in propagate_preferences es (topo_sort_functions (length (prog_functions B)) es) B)"

end
