(* ===== verification/Bind_Calls_Facts.thy ===== *)
theory Bind_Calls_Facts
  imports Bind_Calls
begin

text \<open>
  Properties of the call graph pass: functions are taken after their callees, so that the registers of a
  callee are known when a caller is looked at, and the registers of the parameters of a function do not
  overlap, unless two preferences do.
\<close>

section \<open>The order\<close>

type_synonym call_graph = "nat \<times> call_edge list"

definition nib_callees :: "call_edge list \<Rightarrow> nat \<Rightarrow> nat list" where
  "nib_callees es i = map (\<lambda>e. nat (callee_fn e)) (filter (\<lambda>e. callee_fn e \<ge> 0 \<and> caller_fn e = i) es)"

definition edges_in_range :: "call_graph \<Rightarrow> bool" where
  "edges_in_range g \<longleftrightarrow> (\<forall>e\<in>set (snd g). callee_fn e < int (fst g))"

interpretation fns: dep_graph fst "\<lambda>g. nib_callees (snd g)" "\<lambda>g. all_callees_visited (snd g)" edges_in_range
proof unfold_locales
  show "all_callees_visited (snd g) v i \<longleftrightarrow> (\<forall>d\<in>set (nib_callees (snd g) i). v ! d)" for g v i
    by (auto simp: all_callees_visited_def nib_callees_def list_all_iff)
  show "edges_in_range g \<Longrightarrow> i < fst g \<Longrightarrow> d \<in> set (nib_callees (snd g) i) \<Longrightarrow> d < fst g" for g i d
    by (auto simp: edges_in_range_def nib_callees_def nat_less_iff)
qed

lemma no_callees: "\<not> has_callee es i \<Longrightarrow> nib_callees es i = []"
  by (auto simp: has_callee_def nib_callees_def list_ex_iff filter_empty_conv)

lemma leaves_taken: "fns.taken (n, es) (map (\<lambda>i. \<not> has_callee es i) [0..<n]) (filter (\<lambda>i. \<not> has_callee es i) [0..<n])"
proof -
  have "is_topological (nib_callees es) (filter (\<lambda>i. \<not> has_callee es i) [0..<n])"
    unfolding is_topological_def
  proof (intro allI impI ballI)
    fix k d
    assume k: "k < length (filter (\<lambda>i. \<not> has_callee es i) [0..<n])"
      and d: "d \<in> set (nib_callees es (filter (\<lambda>i. \<not> has_callee es i) [0..<n] ! k))"
    have "\<not> has_callee es (filter (\<lambda>i. \<not> has_callee es i) [0..<n] ! k)" using nth_mem [OF k] by simp
    with d show "d \<in> set (take k (filter (\<lambda>i. \<not> has_callee es i) [0..<n]))" by (simp add: no_callees)
  qed
  then show ?thesis by (auto simp: fns.taken_def)
qed

lemma first_index_bound: "first_index P xs = Some i \<Longrightarrow> i < length xs \<and> P (xs ! i)"
proof -
  assume "first_index P xs = Some i"
  then have "i \<in> set (filter (\<lambda>i. P (xs ! i)) [0..<length xs])"
    unfolding first_index_def by (cases "filter (\<lambda>i. P (xs ! i)) [0..<length xs]") (auto simp del: set_filter)
  then show ?thesis by simp
qed

lemma find_fn_range: "find_fn B nm < int (length (prog_functions B))"
  using first_index_bound by (fastforce simp: find_fn_def split: option.splits)

lemma edge_of_range: "callee_fn (edge_of B fi i ins) < int (length (prog_functions B))"
  by (simp add: edge_of_def Let_def find_fn_range)

lemma call_graph_range: "edges_in_range (length (prog_functions B), build_call_graph B)"
  by (auto simp: edges_in_range_def build_call_graph_def Let_def edge_of_range)

definition call_order :: "nib_program \<Rightarrow> nat list" where
  "call_order B = topo_sort_functions (length (prog_functions B)) (build_call_graph B)"

lemma call_order_complete:
  "distinct (call_order B) \<and> set (call_order B) = {..<length (prog_functions B)}"
proof -
  let ?n = "length (prog_functions B)" and ?es = "build_call_graph B"
  obtain v ord where l: "topo_loop (all_callees_visited ?es) (map (\<lambda>i. \<not> has_callee ?es i) [0..<?n])
      (filter (\<lambda>i. \<not> has_callee ?es i) [0..<?n]) = (v, ord)" by fastforce
  have "fns.taken (?n, ?es) v ord"
    using fns.taken_loop [OF call_graph_range leaves_taken] l by auto
  from fns.order_permutes [OF this] show ?thesis by (simp add: call_order_def topo_sort_functions_def l)
qed

lemma call_order_topological:
  assumes "\<And>e. e \<in> set (build_call_graph B) \<Longrightarrow> callee_fn e \<ge> 0 \<Longrightarrow> rank (nat (callee_fn e)) < (rank (caller_fn e) :: nat)"
  shows "is_topological (nib_callees (build_call_graph B)) (call_order B)"
proof -
  let ?n = "length (prog_functions B)" and ?es = "build_call_graph B"
  obtain v ord where l: "topo_loop (all_callees_visited ?es) (map (\<lambda>i. \<not> has_callee ?es i) [0..<?n])
      (filter (\<lambda>i. \<not> has_callee ?es i) [0..<?n]) = (v, ord)" by fastforce
  have "is_topological (nib_callees (snd (?n, ?es))) (append_rest (v, ord))"
  proof (rule fns.topological_if_ranked [OF call_graph_range leaves_taken, of _ _ _ rank])
    show "topo_loop (all_callees_visited (snd (?n, ?es))) (map (\<lambda>i. \<not> has_callee ?es i) [0..<?n])
      (filter (\<lambda>i. \<not> has_callee ?es i) [0..<?n]) = (v, ord)" using l by simp
    show "rank d < rank i" if "d \<in> set (nib_callees (snd (?n, ?es)) i)" for i d
      using that assms by (auto simp: nib_callees_def)
  qed
  then show ?thesis by (simp add: call_order_def topo_sort_functions_def l)
qed

section \<open>Resolved functions stay resolved\<close>

definition fn_resolved :: "nat \<Rightarrow> nib_program \<Rightarrow> bool" where
  "fn_resolved i B \<longleftrightarrow> i < length (fn_assigns B) \<and> fa_resolved (fn_assigns B ! i)"

lemma fn_assigns_upd_fn [simp]: "fn_assigns (upd_fn i g B) = fn_assigns B"
  by (simp add: upd_fn_def)

lemma fn_assigns_argument [simp]: "fn_assigns (prefer_argument fi e a B) = fn_assigns B"
  by (simp add: prefer_argument_def Let_def)

lemma fold_keeps: "(\<And>x s. F (f x s) = F s) \<Longrightarrow> F (fold f xs s) = F s"
  by (induction xs arbitrary: s) auto

lemma fn_assigns_caller [simp]: "fn_assigns (prefer_caller fi e B) = fn_assigns B"
  by (simp add: prefer_caller_def Let_def fold_keeps [of fn_assigns])

lemma fn_assigns_extern [simp]: "fn_assigns (prefer_extern e B) = fn_assigns B"
  by (auto simp: prefer_extern_def Let_def split: option.splits)

lemma length_assigns [simp]: "length (fn_assigns (upd_fa i g B)) = length (fn_assigns B)"
  by (simp add: upd_fa_def)

lemma resolve_marks:
  assumes "fi < length (fn_assigns B)"
  shows "length (fn_assigns (fst (resolve_function es fi (B, n)))) = length (fn_assigns B)"
    "fn_resolved fi (fst (resolve_function es fi (B, n)))"
    "fn_resolved i B \<Longrightarrow> fn_resolved i (fst (resolve_function es fi (B, n)))"
proof -
  obtain fn fa where l: "layout_function (prog_functions B ! fi, fn_assigns B ! fi) = (fn, fa)" by fastforce
  have a: "fn_assigns (fst (resolve_function es fi (B, n))) =
    (fn_assigns B)[fi := (return_registers fn fa)\<lparr>fa_param_regs := assign_param_regs fn, fa_resolved := True\<rparr>]"
    by (simp add: resolve_function_def l Let_def fold_keeps [of fn_assigns] upd_fa_def)
  show "length (fn_assigns (fst (resolve_function es fi (B, n)))) = length (fn_assigns B)"
    "fn_resolved fi (fst (resolve_function es fi (B, n)))"
    "fn_resolved i B \<Longrightarrow> fn_resolved i (fst (resolve_function es fi (B, n)))"
    using assms by (auto simp: fn_resolved_def a nth_list_update)
qed

lemma resolve_all:
  assumes "\<forall>i\<in>set is. i < length (fn_assigns B)"
  shows "\<forall>i\<in>set is. fn_resolved i (fst (fold (resolve_function es) is (B, n)))"
proof -
  have "length (fn_assigns (fst (fold (resolve_function es) is (B, n)))) = length (fn_assigns B) \<and>
    (\<forall>i. i \<in> set is \<or> fn_resolved i B \<longrightarrow> fn_resolved i (fst (fold (resolve_function es) is (B, n))))"
    using assms
  proof (induction "is" arbitrary: B n)
    case (Cons i "is")
    obtain B1 n1 where r: "resolve_function es i (B, n) = (B1, n1)" by fastforce
    have "length (fn_assigns B1) = length (fn_assigns B)" "fn_resolved i B1" "\<And>j. fn_resolved j B \<Longrightarrow> fn_resolved j B1"
      using resolve_marks [where fi = i and B = B and es = es and n = n] Cons.prems r by auto
    then show ?case using Cons.IH [of B1 n1] Cons.prems by (auto simp: r)
  qed simp
  then show ?thesis by blast
qed

text \<open>The program when the functions up to the \<open>k\<close>th of the order have been taken.\<close>

definition resolved_upto :: "nat \<Rightarrow> nib_program \<Rightarrow> nib_program" where
  "resolved_upto k B =
     fst (fold (resolve_function (build_call_graph B)) (take k (call_order B))
            (fold prefer_extern (build_call_graph B)
               (B\<lparr>fn_assigns := map init_assign (prog_functions B), externs := map layout_extern (externs B)\<rparr>), 0))"

text \<open>(C18) The functions of a program without recursion are taken callees first: when the registers of the
  parameters of a function are chosen, those of every function that it calls have been chosen and have
  become preferences of the arguments of the calls. Every function is taken once.\<close>

theorem callees_resolved_first:
  assumes acyclic: "\<forall>e\<in>set (build_call_graph B). callee_fn e \<ge> 0 \<longrightarrow> rank (nat (callee_fn e)) < (rank (caller_fn e) :: nat)"
  shows "distinct (call_order B) \<and> set (call_order B) = {..<length (prog_functions B)} \<and>
    (\<forall>k < length (call_order B). \<forall>d\<in>set (nib_callees (build_call_graph B) (call_order B ! k)). fn_resolved d (resolved_upto k B))"
proof -
  have order: "distinct (call_order B)" "set (call_order B) = {..<length (prog_functions B)}"
    using call_order_complete by auto
  have topo: "is_topological (nib_callees (build_call_graph B)) (call_order B)"
    using assms by (intro call_order_topological [where rank = rank]) auto
  have "fn_resolved d (resolved_upto k B)"
    if k: "k < length (call_order B)" and d: "d \<in> set (nib_callees (build_call_graph B) (call_order B ! k))" for k d
  proof -
    have "d \<in> set (take k (call_order B))" using topo k d by (simp add: is_topological_def)
    moreover have "set (take k (call_order B)) \<subseteq> {..<length (prog_functions B)}" using order(2) set_take_subset by metis
    ultimately show ?thesis
      unfolding resolved_upto_def by (intro resolve_all [rule_format]) (auto simp: fold_keeps [of fn_assigns])
  qed
  with order show ?thesis by blast
qed

theorem callees_resolved_first_witness:
  "(let B = \<lparr>prog_functions = [new_func\<lparr>fn_name := ''main'', insns := [ir_insn0\<lparr>op := IR_CALL, iname := ''f''\<rparr>]\<rparr>,
                              new_func\<lparr>fn_name := ''f''\<rparr>], externs = [], fn_assigns = []\<rparr>
    in call_order B = [1, 0] \<and> fn_resolved 1 (resolved_upto 1 B))"
proof -
  let ?B = "\<lparr>prog_functions = [new_func\<lparr>fn_name := ''main'', insns := [ir_insn0\<lparr>op := IR_CALL, iname := ''f''\<rparr>]\<rparr>,
                              new_func\<lparr>fn_name := ''f''\<rparr>], externs = [], fn_assigns = []\<rparr>"
  have acyclic: "\<forall>e\<in>set (build_call_graph ?B). callee_fn e \<ge> 0 \<longrightarrow> 1 - nat (callee_fn e) < (1 - caller_fn e :: nat)" by code_simp
  have o: "call_order ?B = [1, 0]" "nib_callees (build_call_graph ?B) (call_order ?B ! 1) = [1]" by code_simp+
  with callees_resolved_first [of ?B "\<lambda>i. 1 - i", OF acyclic] show ?thesis by (simp add: Let_def)
qed

section \<open>Registers of parameters\<close>

text \<open>The preferences that can decide about a parameter.\<close>

definition param_prefs :: "func \<Rightarrow> int list" where
  "param_prefs fn =
     map (\<lambda>v. preferred (vregs fn ! nat v))
       (filter (\<lambda>v. v \<ge> 0) (param_vregs fn @ map dst (filter (\<lambda>ins. op ins = IR_MOV) (insns fn))))"

definition prefs_apart :: "func \<Rightarrow> bool" where
  "prefs_apart fn \<longleftrightarrow>
     (\<forall>r\<in>set (param_prefs fn) - {PREG_NONE}. 0 \<le> r \<and> r < 21 \<and> (\<forall>s\<in>set (param_prefs fn) - {PREG_NONE}. pregs_alias r s \<longrightarrow> r = s))"

definition choice_ok :: "reg_choice \<Rightarrow> bool" where
  "choice_ok s \<longleftrightarrow>
     (let (regs, used) = s
      in length used = NUM_PREGS \<and>
         (\<forall>p<length regs. regs ! p \<noteq> PREG_NONE \<longrightarrow>
            0 \<le> regs ! p \<and> regs ! p < 21 \<and> used ! nat (regs ! p) \<and>
            (regs ! p < 4 \<longrightarrow> used ! nat (preg_alias_lo (regs ! p)) \<and> used ! nat (preg_alias_hi (regs ! p)))) \<and>
         (\<forall>p<length regs. \<forall>q<length regs. p \<noteq> q \<and> regs ! p \<noteq> PREG_NONE \<and> regs ! q \<noteq> PREG_NONE \<longrightarrow>
            \<not> pregs_alias (regs ! p) (regs ! q)))"

lemma mark_used:
  assumes "length used = NUM_PREGS" "0 \<le> r" "r < 21"
  shows "length (mark_reg_used r used) = NUM_PREGS" "mark_reg_used r used ! nat r"
    "r < 4 \<Longrightarrow> mark_reg_used r used ! nat (preg_alias_lo r) \<and> mark_reg_used r used ! nat (preg_alias_hi r)"
    "i < 21 \<Longrightarrow> used ! i \<Longrightarrow> mark_reg_used r used ! i"
proof -
  have "r < 4 \<Longrightarrow> nat (preg_alias_lo r) < 21 \<and> nat (preg_alias_hi r) < 21"
  proof -
    assume "r < 4"
    with assms(2) have "r = 0 \<or> r = 1 \<or> r = 2 \<or> r = 3" by auto
    then show ?thesis by (auto simp: preg_alias_lo_def preg_alias_hi_def)
  qed
  then show "length (mark_reg_used r used) = NUM_PREGS" "mark_reg_used r used ! nat r"
    "r < 4 \<Longrightarrow> mark_reg_used r used ! nat (preg_alias_lo r) \<and> mark_reg_used r used ! nat (preg_alias_hi r)"
    "i < 21 \<Longrightarrow> used ! i \<Longrightarrow> mark_reg_used r used ! i"
    using assms by (auto simp: mark_reg_used_def Let_def nth_list_update)
qed

lemma nth_update_cases: "xs[p := r] ! q = r \<or> xs[p := r] ! q = xs ! q"
  by (cases "p < length xs") (simp_all add: nth_list_update not_less list_update_beyond)

lemma give_reg_ok:
  assumes ok: "choice_ok (regs, used)" and r: "0 \<le> r" "r < 21"
    and free: "\<And>q. q < length regs \<Longrightarrow> regs ! q \<noteq> PREG_NONE \<Longrightarrow> \<not> pregs_alias r (regs ! q)"
  shows "choice_ok (give_reg p r (regs, used))"
proof -
  have len: "length used = NUM_PREGS" using ok by (simp add: choice_ok_def)
  note mk = mark_used [OF len r]
  have small: "regs ! q < 4 \<Longrightarrow> nat (preg_alias_lo (regs ! q)) < 21 \<and> nat (preg_alias_hi (regs ! q)) < 21"
    if "q < length regs" "regs ! q \<noteq> PREG_NONE" for q
  proof -
    assume "regs ! q < 4"
    moreover have "0 \<le> regs ! q" using ok that by (auto simp: choice_ok_def)
    ultimately have "regs ! q = 0 \<or> regs ! q = 1 \<or> regs ! q = 2 \<or> regs ! q = 3" by auto
    then show ?thesis by (auto simp: preg_alias_lo_def preg_alias_hi_def)
  qed
  show ?thesis
    unfolding choice_ok_def give_reg_def prod.case Let_def length_list_update
  proof (intro conjI allI impI)
    show "length (mark_reg_used r used) = NUM_PREGS" by (rule mk(1))
    fix q
    assume q: "q < length regs" "regs[p := r] ! q \<noteq> PREG_NONE"
    have "regs[p := r] ! q = r \<or> regs[p := r] ! q = regs ! q" by (rule nth_update_cases)
    then show "0 \<le> regs[p := r] ! q" "regs[p := r] ! q < 21" "mark_reg_used r used ! nat (regs[p := r] ! q)"
      "regs[p := r] ! q < 4 \<Longrightarrow> mark_reg_used r used ! nat (preg_alias_lo (regs[p := r] ! q))"
      "regs[p := r] ! q < 4 \<Longrightarrow> mark_reg_used r used ! nat (preg_alias_hi (regs[p := r] ! q))"
      using ok q mk r small [of q] by (auto simp: choice_ok_def)
  next
    fix q q'
    assume "q < length regs" "q' < length regs" "q \<noteq> q' \<and> regs[p := r] ! q \<noteq> PREG_NONE \<and> regs[p := r] ! q' \<noteq> PREG_NONE"
    moreover have "\<not> pregs_alias (regs ! q) (regs ! q')"
      if "q < length regs" "q' < length regs" "q \<noteq> q'" "regs ! q \<noteq> PREG_NONE" "regs ! q' \<noteq> PREG_NONE" for q q'
      using ok that by (simp add: choice_ok_def)
    moreover have "\<not> pregs_alias (regs ! q) r" if "q < length regs" "regs ! q \<noteq> PREG_NONE" for q
      using free [OF that] pregs_alias_sym by blast
    ultimately show "\<not> pregs_alias (regs[p := r] ! q) (regs[p := r] ! q')"
      using free by (cases "q = p"; cases "q' = p") auto
  qed
qed

text \<open>A register that is not marked overlaps no register that has been given.\<close>

lemma free_reg_apart:
  assumes ok: "choice_ok (regs, used)" and r: "r \<in> set (word_order @ byte_order)" "reg_is_free used r"
    and q: "q < length regs" "regs ! q \<noteq> PREG_NONE"
  shows "\<not> pregs_alias r (regs ! q)"
proof
  let ?s = "regs ! q"
  assume a: "pregs_alias r ?s"
  have s: "0 \<le> ?s" "?s < 21" "used ! nat ?s" "?s < 4 \<Longrightarrow> used ! nat (preg_alias_lo ?s) \<and> used ! nat (preg_alias_hi ?s)"
    using ok q by (auto simp: choice_ok_def)
  consider "r = ?s" | "r < 4" "?s = preg_alias_lo r \<or> ?s = preg_alias_hi r" | "?s < 4" "r = preg_alias_lo ?s \<or> r = preg_alias_hi ?s"
    using a by (auto simp: pregs_alias_def split: if_splits)
  then show False
    by cases (use r(2) s in \<open>auto simp: reg_is_free_def\<close>)
qed

definition from_prefs :: "func \<Rightarrow> reg_choice \<Rightarrow> bool" where
  "from_prefs fn s \<longleftrightarrow> choice_ok s \<and> length (fst s) = length (param_vregs fn) \<and> (\<forall>p<length (fst s). fst s ! p \<noteq> PREG_NONE \<longrightarrow> fst s ! p \<in> set (param_prefs fn))"

lemma give_pref_ok:
  assumes "prefs_apart fn" "from_prefs fn s" "r \<in> set (param_prefs fn)" "r \<noteq> PREG_NONE" "\<not> snd s ! nat r"
  shows "from_prefs fn (give_reg p r s)"
proof -
  obtain regs used where s: "s = (regs, used)" by fastforce
  have ok: "choice_ok (regs, used)" and pr: "\<And>q. q < length regs \<Longrightarrow> regs ! q \<noteq> PREG_NONE \<Longrightarrow> regs ! q \<in> set (param_prefs fn)"
    using assms(2) by (auto simp: from_prefs_def s)
  have "\<not> pregs_alias r (regs ! q)" if "q < length regs" "regs ! q \<noteq> PREG_NONE" for q
    using assms(1,3,4,5) pr [OF that] ok that by (auto simp: prefs_apart_def choice_ok_def s)
  then have "choice_ok (give_reg p r (regs, used))"
    using assms(1,3,4) by (intro give_reg_ok [OF ok]) (auto simp: prefs_apart_def)
  moreover have "regs[p := r] ! q = r \<or> regs[p := r] ! q = regs ! q" for q by (rule nth_update_cases)
  ultimately show ?thesis using assms(2,3) unfolding from_prefs_def s give_reg_def by (simp add: Let_def) metis
qed

lemma fold_inv: "I s \<Longrightarrow> (\<And>x s. x \<in> set xs \<Longrightarrow> I s \<Longrightarrow> I (f x s)) \<Longrightarrow> I (fold f xs s)"
  by (induction xs arbitrary: s) auto

lemma honor_ok:
  assumes "prefs_apart fn" "p \<in> set (register_params fn)" "from_prefs fn s"
  shows "from_prefs fn (honor_preference fn p s)"
proof (cases "param_vregs fn ! p \<ge> 0")
  case True
  have "p < length (param_vregs fn)" using assms(2) by (simp add: register_params_def)
  then have "preferred (vregs fn ! nat (param_vregs fn ! p)) \<in> set (param_prefs fn)" using True by (simp add: param_prefs_def)
  then show ?thesis using give_pref_ok [OF assms(1,3)] assms(3) by (simp add: honor_preference_def Let_def)
qed (use assms(3) in \<open>simp add: honor_preference_def Let_def\<close>)

lemma trace_ok:
  assumes "prefs_apart fn" "ins \<in> set (insns fn)" "from_prefs fn s"
  shows "from_prefs fn (trace_move fn ins s)"
proof (cases "op ins = IR_MOV \<and> dst ins \<ge> 0")
  case True
  then have r: "preferred (vregs fn ! nat (dst ins)) \<in> set (param_prefs fn)" using assms(2) by (auto simp: param_prefs_def)
  show ?thesis
    unfolding trace_move_def Let_def
    by (simp add: assms(3)) (intro impI fold_inv [where I = "from_prefs fn"], use assms(3) give_pref_ok [OF assms(1) _ r] in auto)
qed (use assms(3) in \<open>auto simp: trace_move_def Let_def\<close>)

lemma free_ok:
  assumes "choice_ok s"
  shows "choice_ok (give_free_reg fn p s)"
proof -
  obtain regs used where s: "s = (regs, used)" by fastforce
  show ?thesis
  proof (cases "find (reg_is_free used) (if is_byte (vregs fn ! nat (param_vregs fn ! p)) then byte_order else word_order)")
    case (Some r)
    then have r: "r \<in> set (word_order @ byte_order)" "reg_is_free used r" by (auto simp: find_Some_iff split: if_splits)
    then have "0 \<le> r" "r < 21" by (auto simp: word_order_def byte_order_def)
    then have "choice_ok (give_reg p r (regs, used))"
      using give_reg_ok free_reg_apart [OF _ r] assms unfolding s by blast
    then show ?thesis using assms Some by (simp add: give_free_reg_def s Let_def)
  qed (use assms in \<open>simp add: give_free_reg_def s Let_def\<close>)
qed

lemma length_free: "length (fst (give_free_reg fn p s)) = length (fst s)"
  by (auto simp: give_free_reg_def give_reg_def Let_def split: option.splits prod.splits)

text \<open>(C19) Two parameters of a function never come in registers that overlap, not even in a word register and
  one of its halves, if no two preferences of the function do.\<close>

theorem parameter_registers_apart:
  assumes "prefs_apart fn" "p < length (param_vregs fn)" "q < length (param_vregs fn)" "p \<noteq> q"
    "assign_param_regs fn ! p \<noteq> PREG_NONE" "assign_param_regs fn ! q \<noteq> PREG_NONE"
  shows "\<not> pregs_alias (assign_param_regs fn ! p) (assign_param_regs fn ! q)"
proof -
  let ?s0 = "(replicate (length (param_vregs fn)) PREG_NONE, replicate NUM_PREGS False)"
  have s0: "from_prefs fn ?s0" by (simp add: from_prefs_def choice_ok_def)
  define s1 where "s1 = fold (trace_move fn) (insns fn) (fold (honor_preference fn) (register_params fn) ?s0)"
  define s2 where "s2 = fold (give_free_reg fn) (register_params fn) s1"
  have "from_prefs fn s1"
    unfolding s1_def by (intro fold_inv [where I = "from_prefs fn"] s0 honor_ok trace_ok assms(1))
  then have s1: "choice_ok s1 \<and> length (fst s1) = length (param_vregs fn)" by (simp add: from_prefs_def)
  have "choice_ok s2 \<and> length (fst s2) = length (param_vregs fn)"
    unfolding s2_def
    by (rule fold_inv [where I = "\<lambda>s. choice_ok s \<and> length (fst s) = length (param_vregs fn)", OF s1])
      (simp add: free_ok length_free)
  moreover have "assign_param_regs fn = fst s2" by (simp add: assign_param_regs_def s2_def s1_def)
  ultimately show ?thesis using assms(2-) by (cases s2) (auto simp: choice_ok_def)
qed

text \<open>A byte and two words without preferences, and a word that is moved to SI.\<close>

definition params_fn :: func where
  "params_fn = new_func\<lparr>param_vregs := [0, 1, 2, 3], param_places := replicate 4 ABI_PLACE_DEFAULT,
     vregs := [init_vreg_info\<lparr>is_byte := True\<rparr>, init_vreg_info, init_vreg_info, init_vreg_info, init_vreg_info\<lparr>preferred := PREG_SI\<rparr>],
     insns := [ir_insn0\<lparr>op := IR_MOV, dst := 4, src1 := 2\<rparr>]\<rparr>"

theorem parameter_registers_apart_witness:
  "assign_param_regs params_fn = [PREG_AL, PREG_BX, PREG_SI, PREG_CX] \<and>
   \<not> pregs_alias (assign_param_regs params_fn ! 0) (assign_param_regs params_fn ! 1)"
proof -
  have r: "assign_param_regs params_fn = [8, 3, 6, 1]" and ok: "prefs_apart params_fn" by code_simp+
  have n: "length (param_vregs params_fn) = 4" by code_simp
  show ?thesis using parameter_registers_apart [OF ok, of 0 1] by (simp add: r n)
qed

section \<open>Overlapping preferences\<close>

text \<open>A function with a byte and a word parameter gives them to two functions with one parameter each.\<close>

definition share_program :: nib_program where
  "share_program = \<lparr>prog_functions =
     [new_func\<lparr>fn_name := ''g'', param_vregs := [0, 1], param_places := [ABI_PLACE_DEFAULT, ABI_PLACE_DEFAULT],
        vregs := [init_vreg_info\<lparr>is_byte := True\<rparr>, init_vreg_info],
        insns := [ir_insn0\<lparr>op := IR_CALL, iname := ''h1'', src1 := 0, nargs := 1\<rparr>,
                  ir_insn0\<lparr>op := IR_CALL, iname := ''h2'', src1 := 1, nargs := 1\<rparr>]\<rparr>,
      new_func\<lparr>fn_name := ''h1'', param_vregs := [0], param_places := [ABI_PLACE_DEFAULT], vregs := [init_vreg_info\<lparr>is_byte := True\<rparr>]\<rparr>,
      new_func\<lparr>fn_name := ''h2'', param_vregs := [0], param_places := [ABI_PLACE_DEFAULT], vregs := [init_vreg_info]\<rparr>],
     externs = [], fn_assigns = []\<rparr>"

text \<open>The preferences that a function inherits from its callees may overlap: a byte that goes on to one
  callee in AL and a word that goes on to another in AX come in AL and AX themselves. No error is
  reported.\<close>

theorem parameters_share_accumulator:
  "call_order share_program = [1, 2, 0] \<and>
   (case resolve_calls share_program of (B, errors) \<Rightarrow>
      errors = 0 \<and> map fa_param_regs (fn_assigns B) = [[PREG_AL, PREG_AX], [PREG_AL], [PREG_AX]]) \<and>
   pregs_alias PREG_AL PREG_AX"
  by code_simp

end
