(* ===== verification/Bind_Parse.thy ===== *)
theory Bind_Parse
  imports Bind_Calls
begin

text \<open>
  The reader of the intermediate code, \<^verbatim>\<open>src/bind.c\<close>: the lexical helpers, one definition
  per form of instruction of \<^verbatim>\<open>parse_function\<close> in the order of its tests, and the uses of
  registers named in a textual address. A pointer into a line is the rest of the line. A copy that the
  code makes without looking at the size of the destination is an error value here when it does not
  fit.
\<close>

section \<open>Words and numbers\<close>

datatype parse_stop = Buffer_overflow | Endless_loop

text \<open>\<^verbatim>\<open>strtol(p, &p, 0)\<close>: the prefix tells the base.\<close>

definition base_of :: "string \<Rightarrow> nat" where
  "base_of s =
     (let s1 = dropWhile isspace s;
          d = (if char_at s1 0 = CHR ''-'' \<or> char_at s1 0 = CHR ''+'' then tl s1 else s1)
      in if char_at d 0 = CHR ''0''
         then if (char_at d 1 = CHR ''x'' \<or> char_at d 1 = CHR ''X'') \<and> isxdigit (char_at d 2) then 16 else 8
         else 10)"

definition strtol0 :: "string \<Rightarrow> int \<times> string" where
  "strtol0 s = strtol (base_of s) s"

definition num_at :: "string \<Rightarrow> int" where
  "num_at s = c_int (fst (strtol0 s))"

text \<open>\<^verbatim>\<open>strchr(p, c)\<close> and \<^verbatim>\<open>strstr(p, w)\<close>: the rest of the text from the first
  place found.\<close>

definition strchr :: "string \<Rightarrow> char \<Rightarrow> string option" where
  "strchr p c = (let r = dropWhile (\<lambda>x. x \<noteq> c) p in if r = [] then None else Some r)"

fun find_str :: "string \<Rightarrow> string \<Rightarrow> string option" where
  "find_str w [] = (if w = [] then Some [] else None)"
| "find_str w (c # p) = (if strneq (c # p) w (length w) then Some (c # p) else find_str w p)"

definition at_pct :: "string \<Rightarrow> bool" where
  "at_pct p \<longleftrightarrow> char_at p 0 = CHR 0x25"

definition parse_vreg :: "string \<Rightarrow> int \<times> string" where
  "parse_vreg p =
     (let p = ir_skip_ws p
      in if \<not> at_pct p then (-1, p)
         else let ds = takeWhile isdigit (tl p) in (c_int (digits_val 10 ds), drop (length ds) (tl p)))"

definition skip_char :: "char \<Rightarrow> string \<Rightarrow> string" where
  "skip_char c p = (if p \<noteq> [] \<and> hd p = c then tl p else p)"

definition skip_comma_ir :: "string \<Rightarrow> string" where
  "skip_comma_ir p = skip_char (CHR '','') (ir_skip_ws p)"

definition parse_abi_place :: "string \<Rightarrow> abi_place" where
  "parse_abi_place p =
     (if find_str ''pin='' p \<noteq> None then ABI_PLACE_REGISTER
      else if find_str ''stack'' p \<noteq> None then ABI_PLACE_STACK
      else if find_str ''register'' p \<noteq> None then ABI_PLACE_REGISTER
      else ABI_PLACE_DEFAULT)"

text \<open>The policy, the symbol, the literal and the count of errors after the word.\<close>

definition parse_ds_policy_word :: "string \<Rightarrow> ds_policy \<times> string \<times> int \<times> nat \<Rightarrow> ds_policy \<times> string \<times> int \<times> nat" where
  "parse_ds_policy_word word d =
     (case d of (pol, symb, lit, errs) \<Rightarrow>
        let v = drop 3 word
        in if \<not> strneq word ''ds='' 3 then d
           else if v = ''caller'' then (DS_POLICY_CALLER, symb, lit, errs)
           else if v = ''none'' then (DS_POLICY_NONE, symb, lit, errs)
           else if isdigit (char_at v 0)
           then (let (seg, rest) = strtol0 v
                 in if rest \<noteq> [] \<or> seg < 0 \<or> seg > 65535 then (DS_POLICY_LITERAL, symb, 0, errs + 1)
                    else (DS_POLICY_LITERAL, symb, seg, errs))
           else (DS_POLICY_SYMBOL, snprintf_s 64 v, lit, errs))"

lemma dropWhile_hd: "dropWhile P p \<noteq> [] \<Longrightarrow> \<not> P (hd (dropWhile P p))"
  by (rule hd_dropWhile)

lemma ir_skip_ws_idem [simp]: "ir_skip_ws (ir_skip_ws p) = ir_skip_ws p"
  by (simp add: ir_skip_ws_def)

lemma at_pct_Cons: "at_pct p \<longleftrightarrow> (\<exists>q. p = CHR 0x25 # q)"
  by (cases p) (auto simp: at_pct_def char_at_def)

lemma parse_vreg_le: "length (snd (parse_vreg p)) \<le> length p"
  using ir_skip_ws_le [of p] by (auto simp: parse_vreg_def Let_def)

lemma parse_vreg_less: "at_pct (ir_skip_ws p) \<Longrightarrow> length (snd (parse_vreg p)) < length p"
  using ir_skip_ws_le [of p] by (auto simp: parse_vreg_def Let_def at_pct_Cons)

lemma skip_char_le: "length (skip_char c p) \<le> length p"
  by (simp add: skip_char_def)

lemma skip_comma_ir_le: "length (skip_comma_ir p) \<le> length p"
  using skip_char_le [of "CHR '',''" "ir_skip_ws p"] ir_skip_ws_le [of p] by (simp add: skip_comma_ir_def)

lemma read_word_le: "length (snd (read_word p n)) \<le> length p"
  using ir_skip_ws_le [of p] by (simp add: read_word_def Let_def)

section \<open>Virtual registers and arguments\<close>

definition fn_ensure_vreg :: "int \<Rightarrow> func \<Rightarrow> func" where
  "fn_ensure_vreg v fn =
     (if v < 0 then fn
      else fn\<lparr>vregs := vregs fn @ replicate (nat v + 1 - length (vregs fn)) init_vreg_info\<rparr>)"

text \<open>\<^verbatim>\<open>fn_ensure_vreg(fn, v)\<close> and an assignment to a field of the register, for a register
  that is there.\<close>

definition mark_vreg :: "(vreg_info \<Rightarrow> vreg_info) \<Rightarrow> int \<Rightarrow> func \<Rightarrow> func" where
  "mark_vreg f v fn = (if v < 0 then fn else upd_vreg f (nat v) (fn_ensure_vreg v fn))"

definition ins_set_extra_arg :: "ir_insn \<Rightarrow> int \<Rightarrow> int \<Rightarrow> ir_insn" where
  "ins_set_extra_arg ins idx v =
     (if idx < 0 then ins
      else let xs = extra_args ins @ replicate (nat idx + 1 - length (extra_args ins)) (-1)
           in ins\<lparr>extra_args := xs[nat idx := v]\<rparr>)"

lemma vreg_list_step:
  assumes "at_pct (ir_skip_ws (skip_comma_ir p))" "(v, r) = parse_vreg (ir_skip_ws (skip_comma_ir p))"
  shows "length r < length p"
proof -
  have "length (snd (parse_vreg (ir_skip_ws (skip_comma_ir p)))) < length (ir_skip_ws (skip_comma_ir p))"
    using assms(1) by (intro parse_vreg_less) simp
  with assms(2) [symmetric] ir_skip_ws_le [of "skip_comma_ir p"] skip_comma_ir_le [of p] show ?thesis
    by simp
qed

text \<open>The loop that reads a list of registers to the end of the line.\<close>

function vreg_list :: "string \<Rightarrow> int list \<times> string" where
  "vreg_list p =
     (if p = [] then ([], [])
      else let q = ir_skip_ws (skip_comma_ir p)
           in if \<not> at_pct q then ([], q)
              else let (v, r) = parse_vreg q; (vs, t) = vreg_list r in (v # vs, t))"
  by pat_completeness auto
termination
  by (relation "measure length") (auto simp: vreg_list_step)

declare vreg_list.simps [simp del]

text \<open>Where the arguments of a call go, and the results of a call or the values of a return.\<close>

definition set_args :: "int list \<Rightarrow> ir_insn \<Rightarrow> ir_insn" where
  "set_args vs ins =
     ins\<lparr>nargs := int (length vs), src1 := (if length vs > 0 then vs ! 0 else src1 ins),
         src2 := (if length vs > 1 then vs ! 1 else src2 ins), extra_args := drop 2 vs\<rparr>"

definition set_extra_args :: "int list \<Rightarrow> ir_insn \<Rightarrow> ir_insn" where
  "set_extra_args vs ins = ins\<lparr>nargs := int (length vs), extra_args := vs\<rparr>"

section \<open>Registers named in an address\<close>

text \<open>An occurrence of the name that is not part of a longer word.\<close>

definition text_mem_mentions_preg :: "string \<Rightarrow> nat \<Rightarrow> bool" where
  "text_mem_mentions_preg t preg \<longleftrightarrow>
     (let rn = preg_name ! preg; len = length rn
      in list_ex (\<lambda>i. strneq (drop i t) rn len \<and>
           (let bef = (if i > 0 then t ! (i - 1) else CHR ''[''); aft = char_at t (i + len)
            in \<not> isalnum bef \<and> bef \<noteq> CHR ''_'' \<and> \<not> isalnum aft \<and> aft \<noteq> CHR ''_'')) [0..<length t])"

definition pinned_vreg_for_preg :: "func \<Rightarrow> nat \<Rightarrow> int" where
  "pinned_vreg_for_preg fn preg =
     (case filter (\<lambda>p. param_vregs fn ! p \<ge> 0 \<and> param_vregs fn ! p < int (nvregs fn) \<and> param_pins fn ! p = int preg)
             [0..<length (param_vregs fn)] of
        p # _ \<Rightarrow> param_vregs fn ! p
      | [] \<Rightarrow> (case filter (\<lambda>v. fixed (vregs fn ! v) \<and> preferred (vregs fn ! v) = int preg) [0..<nvregs fn] of
                 v # _ \<Rightarrow> int v | [] \<Rightarrow> -1))"

definition add_text_mem_reg_use :: "func \<Rightarrow> nat \<Rightarrow> ir_insn \<Rightarrow> ir_insn" where
  "add_text_mem_reg_use fn preg ins =
     (if \<not> text_mem_mentions_preg (iname ins) preg then ins
      else let v = pinned_vreg_for_preg fn preg
           in if v < 0 \<or> v \<in> set (extra_args ins) then ins
              else ins_set_extra_arg ins (int (length (extra_args ins))) v)"

definition add_text_mem_reg_uses :: "func \<Rightarrow> ir_insn \<Rightarrow> ir_insn" where
  "add_text_mem_reg_uses fn ins =
     (if iname ins = [] \<or> (op ins \<noteq> IR_LOADMEM \<and> op ins \<noteq> IR_STOREMEM) then ins
      else fold (add_text_mem_reg_use fn) [0..<NUM_PREGS] ins)"

section \<open>Instructions\<close>

definition read_name :: "string \<Rightarrow> nat \<Rightarrow> string" where
  "read_name p n = fst (read_word p n)"

text \<open>Two and three registers: \<^verbatim>\<open>op %d, %a\<close> and \<^verbatim>\<open>op %d, %a, %b\<close>. The rest follows
  the registers.\<close>

definition two_vregs :: "string \<Rightarrow> int \<times> int \<times> string" where
  "two_vregs p = (let (d, p) = parse_vreg p; (a, p) = parse_vreg (skip_comma_ir p) in (d, a, p))"

definition three_vregs :: "string \<Rightarrow> int \<times> int \<times> int \<times> string" where
  "three_vregs p = (let (d, a, p) = two_vregs p; (b, p) = parse_vreg (skip_comma_ir p) in (d, a, b, p))"

definition parse_mov :: "string \<Rightarrow> func \<Rightarrow> ir_insn \<times> func" where
  "parse_mov p fn =
     (let (d, p) = parse_vreg p; p = ir_skip_ws (skip_comma_ir p); ins = ir_insn0\<lparr>op := IR_MOV, dst := d\<rparr>
      in if at_pct p then (ins\<lparr>src1 := fst (parse_vreg p)\<rparr>, fn)
         else if char_at p 0 = CHR ''_'' \<or> isalpha (char_at p 0)
         then if read_name p 64 = ''SEG''
              then (ins\<lparr>iname := ''SEG '' @ read_name (ir_skip_ws (drop 3 p)) 60\<rparr>, fn)
              else let nm = read_name p 64
                   in (ins\<lparr>has_imm := False, iname := nm\<rparr>,
                       if char_at nm 0 = CHR ''_'' \<and> char_at nm 1 = CHR ''C'' \<and> d \<ge> 0
                       then mark_vreg (\<lambda>ri. ri\<lparr>is_cs_ref := True\<rparr>) d fn else fn)
         else (ins\<lparr>has_imm := True, imm := num_at p\<rparr>, fn))"

definition parse_lea :: "string \<Rightarrow> ir_insn" where
  "parse_lea p = (let (d, a, _) = two_vregs p in ir_insn0\<lparr>op := IR_LEA, dst := d, src1 := a\<rparr>)"

definition parse_retval :: "string \<Rightarrow> ir_insn" where
  "parse_retval p =
     (let (vs, _) = vreg_list p
      in ir_insn0\<lparr>op := IR_RETVAL, nrets := int (length vs), src1 := (if vs \<noteq> [] then hd vs else -1), ret_vregs := tl vs\<rparr>)"

definition parse_jz :: "string \<Rightarrow> ir_insn" where
  "parse_jz p =
     (let p = ir_skip_ws p
      in if at_pct p
         then let (c, p) = parse_vreg p in ir_insn0\<lparr>op := IR_JZ, src1 := c, iname := read_name (skip_comma_ir p) 64\<rparr>
         else ir_insn0\<lparr>op := IR_CJMP, asm_ann := ''jz'', iname := read_name p 64\<rparr>)"

definition parse_call :: "string \<Rightarrow> ir_insn" where
  "parse_call p =
     (let (d, p) = parse_vreg p; (nm, p) = read_word (skip_comma_ir p) 64
      in set_args (fst (vreg_list p)) (ir_insn0\<lparr>op := IR_CALL, dst := d, iname := nm\<rparr>))"

definition parse_mcall :: "string \<Rightarrow> ir_insn" where
  "parse_mcall p =
     (let (rs, p) = vreg_list p; (nm, p) = read_word (skip_comma_ir p) 64
      in set_args (fst (vreg_list p))
           (ir_insn0\<lparr>op := IR_MCALL, nrets := int (length rs), dst := (if rs \<noteq> [] then hd rs else -1),
                     ret_vregs := tl rs, iname := nm\<rparr>))"

text \<open>The address of the pointer-based form must be in a register that can address memory.\<close>

definition parse_icall :: "string \<Rightarrow> func \<Rightarrow> ir_insn \<times> func" where
  "parse_icall p fn =
     (let (d, a, p) = two_vregs p; p = ir_skip_ws (skip_comma_ir p);
          (b, p) = (if at_pct p then (let (b, p) = parse_vreg p in (b, skip_comma_ir p)) else (-1, p));
          (nm, p) = read_word p 64
      in (set_extra_args (fst (vreg_list p)) (ir_insn0\<lparr>op := IR_ICALL, dst := d, src1 := a, src2 := b, iname := nm\<rparr>),
          if b < 0 \<and> a \<ge> 0 then mark_vreg (\<lambda>ri. ri\<lparr>needs_addressable := True\<rparr>) a fn else fn))"

definition parse_ncall :: "string \<Rightarrow> ir_insn" where
  "parse_ncall p =
     (let (d, a, p) = two_vregs p; (nm, p) = read_word (skip_comma_ir p) 64
      in set_extra_args (fst (vreg_list p)) (ir_insn0\<lparr>op := IR_NCALL, dst := d, src1 := a, iname := nm\<rparr>))"

definition parse_tailcall :: "string \<Rightarrow> ir_insn" where
  "parse_tailcall p =
     (let (nm, p) = read_word p 64 in set_args (fst (vreg_list p)) (ir_insn0\<lparr>op := IR_TAILCALL, iname := nm\<rparr>))"

definition parse_ntailcall :: "string \<Rightarrow> ir_insn" where
  "parse_ntailcall p =
     (let (a, p) = parse_vreg p; (nm, p) = read_word (skip_comma_ir p) 64
      in set_extra_args (fst (vreg_list p)) (ir_insn0\<lparr>op := IR_NTAILCALL, src1 := a, iname := nm\<rparr>))"

text \<open>The optional index in brackets.\<close>

definition parse_index :: "string \<Rightarrow> int \<times> string" where
  "parse_index p =
     (let p = ir_skip_ws p in if p \<noteq> [] \<and> hd p = CHR ''['' then parse_vreg (tl p) else (-1, p))"

definition byte_if :: "bool \<Rightarrow> int \<Rightarrow> func \<Rightarrow> func" where
  "byte_if b v fn = (if b \<and> v \<ge> 0 then mark_vreg (\<lambda>ri. ri\<lparr>is_byte := True\<rparr>) v fn else fn)"

definition parse_load :: "string \<Rightarrow> string \<Rightarrow> func \<Rightarrow> ir_insn \<times> func" where
  "parse_load opname p fn =
     (let (d, a, p) = two_vregs p; (b, _) = parse_index p
      in (ir_insn0\<lparr>op := IR_LOAD, dst := d, src1 := a, src2 := b\<rparr>, byte_if (opname = ''loadb'') d fn))"

definition parse_store :: "string \<Rightarrow> string \<Rightarrow> func \<Rightarrow> ir_insn \<times> func" where
  "parse_store opname p fn =
     (let (a, p) = parse_vreg p; (b, p) = parse_index p;
          p = skip_comma_ir (skip_char (CHR '']'') (ir_skip_ws (skip_comma_ir p))); (d, _) = parse_vreg p
      in (ir_insn0\<lparr>op := IR_STORE, dst := d, src1 := a, src2 := b\<rparr>, byte_if (opname = ''storeb'') d fn))"

definition seg_of_name :: "string \<Rightarrow> int" where
  "seg_of_name reg = (let r = parse_preg reg in if r \<ge> PREG_ES \<and> r \<le> PREG_DS then r else PREG_NONE)"

definition parse_loadmem :: "string \<Rightarrow> func \<Rightarrow> ir_insn" where
  "parse_loadmem p fn =
     (let (d, p) = parse_vreg p; p = ir_skip_ws (skip_comma_ir p); ins = ir_insn0\<lparr>op := IR_LOADMEM, dst := d\<rparr>
      in if at_pct p
         then let (a, p) = parse_vreg p; p = ir_skip_ws (skip_comma_ir p); ins = ins\<lparr>src1 := a\<rparr>
              in if at_pct p then ins\<lparr>src2 := fst (parse_vreg p)\<rparr>
                 else if isalpha (char_at p 0) then ins\<lparr>mem_seg := seg_of_name (read_name p 16)\<rparr>
                 else ins
         else add_text_mem_reg_uses fn (ins\<lparr>iname := snprintf_s 64 p\<rparr>))"

text \<open>\<^verbatim>\<open>storemem %off [, %seg | SEG], %val\<close>\<close>

definition parse_storemem_vregs :: "string \<Rightarrow> ir_insn" where
  "parse_storemem_vregs p =
     (let (a, p) = parse_vreg p; p = ir_skip_ws (skip_comma_ir p); ins = ir_insn0\<lparr>op := IR_STOREMEM, dst := a\<rparr>
      in if isalpha (char_at p 0)
         then let (reg, p) = read_word p 16
              in ins\<lparr>mem_seg := seg_of_name reg, src1 := fst (parse_vreg (skip_comma_ir p))\<rparr>
         else if at_pct p
         then let (b, p) = parse_vreg p; p = ir_skip_ws (skip_comma_ir p)
              in if at_pct p then ins\<lparr>src2 := b, src1 := fst (parse_vreg p)\<rparr> else ins\<lparr>src1 := b\<rparr>
         else ins)"

text \<open>The text up to the last \<^verbatim>\<open>]\<close> is copied to \<^verbatim>\<open>name\<close>, which has 64 bytes.\<close>

definition parse_storemem :: "string \<Rightarrow> func \<Rightarrow> parse_stop + ir_insn" where
  "parse_storemem p fn =
     (let p = ir_skip_ws p
      in if at_pct p then Inr (parse_storemem_vregs p)
         else if CHR '']'' \<notin> set p then Inr (ir_insn0\<lparr>op := IR_STOREMEM\<rparr>)
         else let r = rev (takeWhile (\<lambda>c. c \<noteq> CHR '']'') (rev p)); a = take (length p - length r) p
              in if length a \<ge> 64 then Inl Buffer_overflow
                 else Inr (add_text_mem_reg_uses fn
                        (ir_insn0\<lparr>op := IR_STOREMEM, iname := a, src1 := fst (parse_vreg (skip_comma_ir r))\<rparr>)))"

definition parse_field :: "string \<Rightarrow> ir_insn" where
  "parse_field p =
     (let (d, a, p) = two_vregs p
      in ir_insn0\<lparr>op := IR_FIELD, dst := d, src1 := a, iname := read_name (skip_comma_ir p) 64\<rparr>)"

definition parse_storefield :: "string \<Rightarrow> ir_insn" where
  "parse_storefield p =
     (let (a, p) = parse_vreg p; (nm, p) = read_word (skip_comma_ir p) 64
      in ir_insn0\<lparr>op := IR_STOREFIELD, src1 := a, iname := nm, src2 := fst (parse_vreg (skip_comma_ir p))\<rparr>)"

definition parse_bound :: "string \<Rightarrow> ir_insn" where
  "parse_bound p =
     (let (a, p) = parse_vreg p
      in ir_insn0\<lparr>op := IR_BOUND, src1 := a, has_imm := True, imm := num_at (ir_skip_ws (skip_comma_ir p))\<rparr>)"

definition parse_setflag :: "string \<Rightarrow> ir_insn" where
  "parse_setflag p =
     (let (nm, p) = read_word p 64; p = ir_skip_ws (skip_comma_ir p); ins = ir_insn0\<lparr>op := IR_SETFLAG, iname := nm\<rparr>
      in if at_pct p then ins\<lparr>src1 := fst (parse_vreg p)\<rparr> else ins\<lparr>has_imm := True, imm := num_at p\<rparr>)"

definition parse_getflag :: "string \<Rightarrow> ir_insn" where
  "parse_getflag p =
     (let (d, p) = parse_vreg p in ir_insn0\<lparr>op := IR_GETFLAG, dst := d, iname := read_name (skip_comma_ir p) 64\<rparr>)"

text \<open>The label is read but the pointer is not moved past it, so the register is looked for at
  the label.\<close>

definition parse_loop :: "string \<Rightarrow> ir_insn" where
  "parse_loop p =
     (let q = ir_skip_ws (skip_comma_ir p); ins = ir_insn0\<lparr>op := IR_LOOP, iname := read_name p 64\<rparr>
      in if at_pct q then ins\<lparr>src1 := fst (parse_vreg q)\<rparr> else ins)"

definition parse_far :: "string \<Rightarrow> string \<Rightarrow> func \<Rightarrow> ir_insn \<times> func" where
  "parse_far opname p fn =
     (let (d, p) = parse_vreg p; p = skip_comma_ir p; ins = ir_insn0\<lparr>iname := snprintf_s 64 opname, dst := d\<rparr>
      in if opname = ''far.lit''
         then let (seg, p) = strtol0 (ir_skip_ws p); off = num_at (skip_comma_ir p)
              in (ins_set_extra_arg (ins\<lparr>op := IR_FAR_LIT, imm := c_int seg, has_imm := True\<rparr>) 0 off, fn)
         else let (a, _) = parse_vreg p
              in (ins\<lparr>op := IR_ALU, src1 := a\<rparr>, mark_vreg (\<lambda>ri. ri\<lparr>needs_addressable := True\<rparr>) a fn))"

definition asm_ops :: "string list" where
  "asm_ops = [''hlt'', ''nop'', ''salc'', ''into'', ''rep'', ''repe'', ''repne'', ''push'', ''pop'', ''pushf'', ''popf'',
              ''cli'', ''sti'']"

definition parse_literal :: "string \<Rightarrow> string \<Rightarrow> ir_insn" where
  "parse_literal opname p = ir_insn0\<lparr>op := IR_ASM, asm_body := snprintf_s 512 (''    '' @ opname @ '' '' @ ir_skip_ws p)\<rparr>"

definition cjmp_ops :: "string list" where
  "cjmp_ops = [''jc'', ''jnc'', ''jo'', ''jno'', ''jz'', ''jnz'', ''js'', ''jns'', ''jp'', ''jnp'']"

definition parse_in :: "string \<Rightarrow> string \<Rightarrow> func \<Rightarrow> ir_insn \<times> func" where
  "parse_in opname p fn =
     (let (d, p) = parse_vreg p; p = ir_skip_ws (skip_comma_ir p); ins = ir_insn0\<lparr>op := IR_ALU, iname := opname, dst := d\<rparr>
      in (if at_pct p then ins\<lparr>src1 := fst (parse_vreg p)\<rparr> else ins\<lparr>has_imm := True, imm := num_at p\<rparr>,
          byte_if (opname = ''inb'') d fn))"

definition parse_out :: "string \<Rightarrow> string \<Rightarrow> func \<Rightarrow> ir_insn \<times> func" where
  "parse_out opname p fn =
     (let p = ir_skip_ws p; ins = ir_insn0\<lparr>op := IR_ALU, iname := opname\<rparr>;
          ins = (if at_pct p then (let (d, a, _) = two_vregs p in ins\<lparr>dst := d, src1 := a\<rparr>)
                 else let (n, p) = strtol0 p
                      in ins\<lparr>has_imm := True, imm := c_int n, src1 := fst (parse_vreg (skip_comma_ir p))\<rparr>)
      in (ins, byte_if (opname = ''outb'') (src1 ins) fn))"

text \<open>\<^verbatim>\<open>op %d, %a\<close>, and \<^verbatim>\<open>op %d, %a, %b, %c\<close> of the bit-field instructions.\<close>

definition parse_op2 :: "ir_op \<Rightarrow> string \<Rightarrow> string \<Rightarrow> ir_insn" where
  "parse_op2 k opname p = (let (d, a, _) = two_vregs p in ir_insn0\<lparr>op := k, iname := opname, dst := d, src1 := a\<rparr>)"

definition parse_xlat :: "string \<Rightarrow> ir_insn" where
  "parse_xlat p =
     (let (d, a, b, _) = three_vregs p in ir_insn0\<lparr>op := IR_ALU, iname := ''xlat'', dst := d, src1 := a, src2 := b\<rparr>)"

definition parse_bitfield :: "string \<Rightarrow> string \<Rightarrow> ir_insn" where
  "parse_bitfield opname p =
     (let (d, a, b, p) = three_vregs p
      in ins_set_extra_arg (ir_insn0\<lparr>op := IR_ALU, iname := opname, dst := d, src1 := a, src2 := b\<rparr>) 0
           (fst (parse_vreg (skip_comma_ir p))))"

text \<open>Every other name: an operation of two or three operands, or of an immediate.\<close>

definition alu_or_cmp :: "string \<Rightarrow> ir_op" where
  "alu_or_cmp opname = (if strneq opname ''cmp.'' 4 then IR_CMP else IR_ALU)"

definition parse_alu :: "string \<Rightarrow> string \<Rightarrow> ir_insn" where
  "parse_alu opname p =
     (let (d, p) = parse_vreg p; p = ir_skip_ws (skip_comma_ir p); ins = ir_insn0\<lparr>iname := snprintf_s 64 opname, dst := d\<rparr>
      in if at_pct p
         then let (a, p) = parse_vreg p; p = ir_skip_ws (skip_comma_ir p); ins = ins\<lparr>src1 := a\<rparr>
              in if at_pct p then ins\<lparr>src2 := fst (parse_vreg p), op := alu_or_cmp opname\<rparr>
                 else if char_at p 0 = CHR ''-'' \<or> isdigit (char_at p 0)
                 then ins\<lparr>has_imm := True, imm := num_at p, src2 := -1, op := alu_or_cmp opname\<rparr>
                 else ins\<lparr>op := IR_UNARY\<rparr>
         else ins\<lparr>op := IR_MOV, has_imm := True, imm := num_at p\<rparr>)"

end
