(* ===== verification/Bind_Parse_Fn.thy ===== *)
theory Bind_Parse_Fn
  imports Bind_Parse Bind_Moves
begin

text \<open>
  \<^verbatim>\<open>parse_function\<close> of \<^verbatim>\<open>src/bind.c\<close>: the header line, the directives, the labels and
  the instructions of one function, to its \<^verbatim>\<open>.endfn\<close>. The state has what the function record
  of the analyses does not: the constants, the labels, the position for debugging, and the register of
  a parameter that has been announced without a name. The file is the text not yet read; it has no
  NUL character.
\<close>

section \<open>The state\<close>

record fn_const =
  fc_label :: string
  fc_data :: string
  fc_is_far_ref :: bool
  fc_ref_name :: string

record parse_state =
  p_fn :: func
  p_consts :: "fn_const list"
  p_labels :: "(string \<times> nat) list"
  p_pend_pin :: int
  p_dbg_file :: string
  p_dbg_line :: int
  p_errors :: nat

definition new_parse :: "func \<Rightarrow> nat \<Rightarrow> parse_state" where
  "new_parse fn errs = \<lparr>p_fn = fn, p_consts = [], p_labels = [], p_pend_pin = PREG_NONE, p_dbg_file = [],
     p_dbg_line = 0, p_errors = errs\<rparr>"

definition upd_p_fn :: "(func \<Rightarrow> func) \<Rightarrow> parse_state \<Rightarrow> parse_state" where
  "upd_p_fn f st = st\<lparr>p_fn := f (p_fn st)\<rparr>"

lemma read_name_le: "length (read_name p n) \<le> length (ir_skip_ws p)"
  using length_takeWhile_le [of word_char "ir_skip_ws p"] by (simp add: read_name_def read_word_def Let_def)

lemma drop_word_less:
  assumes "read_name q n \<noteq> []"
  shows "length (drop (length (read_name q n)) q) < length q"
proof -
  have "0 < length (read_name q n)" "length (read_name q n) \<le> length q"
    using assms read_name_le [of q n] ir_skip_ws_le [of q] by auto
  then show ?thesis unfolding length_drop by linarith
qed

lemma read_word_less:
  assumes "read_word q n = (w, r)" "w \<noteq> []"
  shows "length r < length q"
proof -
  have "r = drop (length w) (ir_skip_ws q)" "w = read_name q n"
    using assms(1) by (auto simp: read_word_def read_name_def Let_def)
  moreover have "0 < length w" using assms(2) by simp
  moreover have "length (read_name q n) \<le> length (ir_skip_ws q)" "length (ir_skip_ws q) \<le> length q"
    using read_name_le [of q n] ir_skip_ws_le [of q] by auto
  ultimately show ?thesis unfolding length_drop by (metis diff_less length_drop less_le_trans order_less_le_trans)
qed

section \<open>The header\<close>

text \<open>\<^verbatim>\<open>at(0xSEG:0xOFF\<close>, the colon inside the word.\<close>

definition at_pair :: "string \<Rightarrow> (int \<times> int) option" where
  "at_pair w = map_option (\<lambda>r. (num_at w, num_at (tl r))) (strchr w (CHR '':''))"

definition ir_fn_modifier :: "string \<Rightarrow> parse_state \<Rightarrow> parse_state" where
  "ir_fn_modifier word st =
     (if word = ''pub'' then upd_p_fn (\<lambda>fn. fn\<lparr>is_pub := True\<rparr>) st
      else if word = ''far'' then upd_p_fn (\<lambda>fn. fn\<lparr>is_far := True\<rparr>) st
      else if word = ''interrupt'' then upd_p_fn (\<lambda>fn. fn\<lparr>is_interrupt := True\<rparr>) st
      else if word = ''bare'' then upd_p_fn (\<lambda>fn. fn\<lparr>is_bare := True\<rparr>) st
      else if strneq word ''at('' 3
      then upd_p_fn (\<lambda>fn. case at_pair (drop 3 word) of
                            Some (s, d) \<Rightarrow> fn\<lparr>fn_has_at := True, fn_at_seg := s, fn_at_off := d\<rparr>
                          | None \<Rightarrow> fn\<lparr>fn_has_at := True\<rparr>) st
      else if strneq word ''ds='' 3
      then (case parse_ds_policy_word word (ds_policy (p_fn st), ds_symbol (p_fn st), ds_literal (p_fn st), p_errors st) of
              (pol, symb, lit, errs) \<Rightarrow>
                (upd_p_fn (\<lambda>fn. fn\<lparr>ds_policy := pol, ds_symbol := symb, ds_literal := lit\<rparr>) st)\<lparr>p_errors := errs\<rparr>)
      else st)"

function ir_fn_modifiers :: "string \<Rightarrow> parse_state \<Rightarrow> parse_state" where
  "ir_fn_modifiers p st =
     (let q = ir_skip_ws (skip_char (CHR '','') (ir_skip_ws p)); word = read_name q 64; r = drop (length word) q
      in if p = [] \<or> word = [] then st
         else ir_fn_modifiers (if strneq word ''at('' 3 then skip_char (CHR '')'') (ir_skip_ws r) else r) (ir_fn_modifier word st))"
  by pat_completeness auto
termination
proof (relation "measure (\<lambda>(p, st). length p)", goal_cases)
  case (2 p st q word r)
  have "length q \<le> length p"
    using ir_skip_ws_le [of "skip_char (CHR '','') (ir_skip_ws p)"] skip_char_le [of "CHR '',''" "ir_skip_ws p"]
      ir_skip_ws_le [of p] 2(1) by simp
  moreover have "length r < length q"
    using 2 drop_word_less [of q 64] by simp
  moreover have "length (skip_char (CHR '')'') (ir_skip_ws r)) \<le> length r"
    using skip_char_le [of "CHR '')''" "ir_skip_ws r"] ir_skip_ws_le [of r] by simp
  ultimately show ?case by auto
qed simp

declare ir_fn_modifiers.simps [simp del]

definition ir_fn_header :: "string \<Rightarrow> parse_state \<Rightarrow> parse_state" where
  "ir_fn_header first_line st =
     (let (nm, p) = read_word (drop 3 first_line) 64 in ir_fn_modifiers p (upd_p_fn (\<lambda>fn. fn\<lparr>fn_name := nm\<rparr>) st))"

section \<open>Directives\<close>

text \<open>The register of \<^verbatim>\<open>pin=REG\<close>, or of the older form with \<^verbatim>\<open>in REG\<close>.\<close>

definition pin_of :: "string \<Rightarrow> string \<Rightarrow> int option" where
  "pin_of legacy p =
     (case find_str ''pin='' p of
        Some r \<Rightarrow> Some (parse_preg (read_name (drop 4 r) 16))
      | None \<Rightarrow> map_option (\<lambda>r. parse_preg (read_name (drop (length legacy) r) 16)) (find_str legacy p))"

definition add_param :: "int \<Rightarrow> string \<Rightarrow> abi_place \<Rightarrow> parse_state \<Rightarrow> parse_state" where
  "add_param v nm place st =
     (upd_p_fn (\<lambda>fn. fn\<lparr>param_names := param_names fn @ [nm], param_vregs := param_vregs fn @ [v],
        param_places := param_places fn @ [place], param_pins := param_pins fn @ [p_pend_pin st]\<rparr>) st)
      \<lparr>p_pend_pin := PREG_NONE\<rparr>"

definition pin_param :: "nat \<Rightarrow> int \<Rightarrow> parse_state \<Rightarrow> parse_state" where
  "pin_param pidx preg st =
     (if pidx < length (param_vregs (p_fn st))
      then upd_p_fn (\<lambda>fn. fn\<lparr>param_pins := (param_pins fn)[pidx := preg],
             param_places := (param_places fn)[pidx := ABI_PLACE_REGISTER]\<rparr>) st
      else st\<lparr>p_pend_pin := preg\<rparr>)"

text \<open>The effects on the tables: the entry of a parameter that has a name, its register if one is
  given, the type.\<close>

definition enter_param :: "string \<Rightarrow> int \<Rightarrow> string option \<Rightarrow> abi_place \<Rightarrow> int option \<Rightarrow> parse_state \<Rightarrow> parse_state" where
  "enter_param ty v nm place pin st =
     (let pidx = length (param_vregs (p_fn st));
          st1 = (case nm of Some nm \<Rightarrow> add_param v nm place st | None \<Rightarrow> st);
          st2 = (case pin of Some preg \<Rightarrow> pin_param pidx preg st1 | None \<Rightarrow> st1);
          st3 = (case pin of
                   Some preg \<Rightarrow> if preg \<noteq> PREG_NONE then upd_p_fn (mark_vreg (\<lambda>ri. ri\<lparr>preferred := preg\<rparr>) v) st2 else st2
                 | None \<Rightarrow> st2)
      in upd_p_fn (mark_vreg (\<lambda>ri. ri\<lparr>is_byte := (ty = ''u8''), is_seg := (ty = ''seg'')\<rparr>) v) st3)"

text \<open>A pinned parameter without a register is written in front of the table: \<open>Buffer_overflow\<close>.\<close>

definition parse_param :: "string \<Rightarrow> parse_state \<Rightarrow> parse_stop + parse_state" where
  "parse_param p st =
     (let (v, p) = parse_vreg (drop 6 p); (ty, p) = read_word (skip_comma_ir p) 32; p = ir_skip_ws (skip_comma_ir p);
          quoted = (p \<noteq> [] \<and> hd p = CHR 0x22); q = tl p; e = strchr q (CHR 0x22);
          nm = (if e \<noteq> None then takeWhile (\<lambda>c. c \<noteq> CHR 0x22) q else []);
          p = (if quoted then (case e of Some r \<Rightarrow> tl r | None \<Rightarrow> q) else p); pin = pin_of '' in '' p
      in if quoted \<and> length nm \<ge> 64 then Inl Buffer_overflow
         else if v < 0 \<and> pin \<noteq> None \<and> pin \<noteq> Some PREG_NONE then Inl Buffer_overflow
         else Inr (enter_param ty v (if quoted then Some nm else None) (parse_abi_place p) pin st))"

definition parse_returns :: "string \<Rightarrow> parse_state \<Rightarrow> parse_state" where
  "parse_returns p st =
     (let (ty, p) = read_word (drop 8 p) 32; pin = pin_of ''in '' p;
          preg = (case pin of Some r \<Rightarrow> r | None \<Rightarrow> PREG_NONE);
          place = (if pin \<noteq> None then ABI_PLACE_REGISTER else parse_abi_place p)
      in upd_p_fn (\<lambda>fn. fn\<lparr>has_return := True, return_types := return_types fn @ [ty], ret_pins := ret_pins fn @ [preg],
                           ret_places := ret_places fn @ [place]\<rparr>) st)"

text \<open>The bytes of a string constant; the buffer has 256 characters, and the loop stops with ten of
  them left.\<close>

fun const_bytes :: "bool \<Rightarrow> string \<Rightarrow> string \<Rightarrow> string" where
  "const_bytes first acc [] = acc"
| "const_bytes first acc (c # cs) =
     (let acc1 = (if first then acc else acc @ '', '')
      in if length acc \<ge> 246 then acc
         else case cs of
                x # a # b # rest \<Rightarrow>
                  if c = CHR 0x5C \<and> x = CHR ''x'' then const_bytes False (acc1 @ ''0x'' @ [a, b]) rest
                  else const_bytes False (acc1 @ [CHR 0x27, c, CHR 0x27]) cs
              | _ \<Rightarrow> const_bytes False (acc1 @ [CHR 0x27, c, CHR 0x27]) cs)"

definition const_label :: "func \<Rightarrow> string \<Rightarrow> string" where
  "const_label fn raw = snprintf_s 32 (fn_asm_name fn @ ''_'' @ raw)"

definition quoted_part :: "string \<Rightarrow> string" where
  "quoted_part p = (if CHR 0x22 \<in> set p then rev (tl (dropWhile (\<lambda>c. c \<noteq> CHR 0x22) (rev p))) else p)"

definition const_of :: "string \<Rightarrow> string \<Rightarrow> fn_const" where
  "const_of lbl p =
     (let c = \<lparr>fc_label = lbl, fc_data = [], fc_is_far_ref = False, fc_ref_name = []\<rparr>
      in if p \<noteq> [] \<and> hd p = CHR 0x22 then c\<lparr>fc_data := const_bytes True (lbl @ '' db '') (quoted_part (tl p))\<rparr>
         else if strneq p ''far.ref '' 8
         then let nm = read_name (drop 8 p) 64
              in c\<lparr>fc_is_far_ref := True, fc_ref_name := nm, fc_data := snprintf_s 256 (lbl @ '' dw '' @ nm @ '', SEG '' @ nm)\<rparr>
         else if strneq p ''far '' 4
         then let (seg, r) = strtol0 (drop 4 p); off = num_at (skip_char (CHR '':'') r)
              in c\<lparr>fc_data := snprintf_s 256 (lbl @ '' dw 0x'' @ hex_int 4 off @ '', 0x'' @ hex_int 4 (c_int seg))\<rparr>
         else c)"

definition parse_const :: "string \<Rightarrow> parse_state \<Rightarrow> parse_state" where
  "parse_const p st =
     (let (raw, p) = read_word (drop 7 p) 32; lbl = const_label (p_fn st) raw;
          p = ir_skip_ws (skip_char (CHR '','') (ir_skip_ws p))
      in st\<lparr>p_consts := p_consts st @ [const_of lbl p]\<rparr>)"

definition push_insn :: "ir_insn \<Rightarrow> func \<Rightarrow> func" where
  "push_insn ins fn = fn\<lparr>insns := insns fn @ [ins]\<rparr>"

definition seg_if :: "int \<Rightarrow> vreg_info \<Rightarrow> vreg_info" where
  "seg_if preg ri = (if preg \<ge> PREG_ES \<and> preg \<le> PREG_DS then ri\<lparr>is_seg := True\<rparr> else ri)"

definition parse_prefer :: "string \<Rightarrow> parse_state \<Rightarrow> parse_state" where
  "parse_prefer p st =
     (let (v, p) = parse_vreg (drop 7 p); preg = parse_preg (read_name (skip_comma_ir p) 16)
      in upd_p_fn (\<lambda>fn. push_insn (ir_insn0\<lparr>op := IR_PREFER, dst := v, imm := preg\<rparr>)
                          (mark_vreg (\<lambda>ri. seg_if preg (ri\<lparr>preferred := preg\<rparr>)) v fn)) st)"

definition vreg_flag :: "string \<Rightarrow> vreg_info \<Rightarrow> vreg_info" where
  "vreg_flag tok ri =
     (if tok = ''csref'' then ri\<lparr>is_cs_ref := True\<rparr>
      else if tok = ''const'' then ri\<lparr>is_const := True\<rparr>
      else if strneq tok ''pin='' 4
      then let preg = parse_preg (drop 4 tok) in seg_if preg (ri\<lparr>preferred := preg, fixed := (preg \<noteq> PREG_NONE)\<rparr>)
      else ri)"

text \<open>A character that ends a word but is neither a blank nor a comma is not passed: the loop does
  not end.\<close>

function vreg_flags :: "string \<Rightarrow> vreg_info \<Rightarrow> parse_stop + vreg_info" where
  "vreg_flags p ri =
     (let q = ir_skip_ws (skip_comma_ir p); tok = read_name q 16
      in if p = [] \<or> q = [] \<or> hd q = CHR 0x0A \<or> hd q = CHR '';'' then Inr ri
         else if tok = [] then Inl Endless_loop
         else vreg_flags (drop (length tok) q) (vreg_flag tok ri))"
  by pat_completeness auto
termination
proof (relation "measure (\<lambda>(p, ri). length p)", goal_cases)
  case (2 p ri q tok)
  have "length q \<le> length p"
    using ir_skip_ws_le [of "skip_comma_ir p"] skip_comma_ir_le [of p] 2(1) by simp
  moreover have "length (drop (length tok) q) < length q"
    using 2 drop_word_less [of q 16] by simp
  ultimately show ?case by simp
qed simp

declare vreg_flags.simps [simp del]

text \<open>The rest after the type is counted from before the blanks in front of it.\<close>

definition parse_vreg_decl :: "string \<Rightarrow> parse_state \<Rightarrow> parse_stop + parse_state" where
  "parse_vreg_decl p st =
     (let (v, p) = parse_vreg (drop 5 p); p = skip_comma_ir p; tok = read_name p 16;
          fn = fn_ensure_vreg v (p_fn st); ri = vregs fn ! nat v;
          ri = (if tok = ''u8'' then ri\<lparr>is_byte := True\<rparr> else if tok = ''seg'' then ri\<lparr>is_seg := True\<rparr> else ri)
      in if v < 0 then Inr st
         else case vreg_flags (drop (length tok) p) ri of
                Inl e \<Rightarrow> Inl e
              | Inr ri \<Rightarrow> Inr (st\<lparr>p_fn := upd_vreg (\<lambda>_. ri) (nat v) fn\<rparr>))"

definition parse_local :: "string \<Rightarrow> parse_state \<Rightarrow> parse_state" where
  "parse_local p st =
     (let (v, p) = parse_vreg (drop 6 p); sz = c_int (num_at (ir_skip_ws (skip_comma_ir p)) + 1) AND NOT 1;
          total = c_int (local_size (p_fn st) + sz)
      in if v < 0 then st
         else upd_p_fn (\<lambda>fn. (mark_vreg (\<lambda>ri. ri\<lparr>is_local_slot := True, local_bytes := sz, local_offset := total\<rparr>) v fn)
                               \<lparr>local_size := total\<rparr>) st)"

text \<open>The list of registers of \<^verbatim>\<open>.preserves\<close>; for an external function a blank before a comma
  ends the list.\<close>

function preserve_regs :: "bool \<Rightarrow> string \<Rightarrow> int list" where
  "preserve_regs blanks p =
     (let q = ir_skip_ws p; (reg, r) = read_word q 16
      in if p = [] \<or> q = [] \<or> hd q = CHR 0x0A \<or> reg = [] then []
         else parse_preg reg # preserve_regs blanks (skip_char (CHR '','') (if blanks then ir_skip_ws r else r)))"
  by pat_completeness auto
termination
proof (relation "measure (\<lambda>(b, p). length p)", goal_cases)
  case (2 blanks p q x reg r)
  have "length q \<le> length p" using ir_skip_ws_le [of p] 2(1) by simp
  moreover have "length r < length q"
    using 2 read_word_less [of q 16 reg r] by simp
  moreover have "length (skip_char (CHR '','') (if blanks then ir_skip_ws r else r)) \<le> length r"
    using skip_char_le [of "CHR '',''" "ir_skip_ws r"] skip_char_le [of "CHR '',''" r] ir_skip_ws_le [of r] by simp
  ultimately show ?case by simp
qed simp

declare preserve_regs.simps [simp del]

definition known_pregs :: "int list \<Rightarrow> int list" where
  "known_pregs rs = filter (\<lambda>r. r \<noteq> PREG_NONE) rs"

definition parse_preserves :: "string \<Rightarrow> parse_state \<Rightarrow> parse_state" where
  "parse_preserves p st =
     upd_p_fn (\<lambda>fn. fn\<lparr>fn_preserves := take NUM_PREGS (fn_preserves fn @ known_pregs (preserve_regs True (drop 10 p)))\<rparr>) st"

text \<open>A line that is a name and a colon, and nothing after it.\<close>

definition label_name :: "string \<Rightarrow> string option" where
  "label_name p =
     (case strchr p (CHR '':'') of
        Some r \<Rightarrow> if tl r = [] then Some (takeWhile (\<lambda>c. c \<noteq> CHR '':'') p) else None
      | None \<Rightarrow> None)"

definition is_label_line :: "string \<Rightarrow> bool" where
  "is_label_line p \<longleftrightarrow> label_name p \<noteq> None \<and> (char_at p 0 = CHR ''.'' \<or> isalpha (char_at p 0))"

definition parse_label :: "string \<Rightarrow> parse_state \<Rightarrow> parse_state" where
  "parse_label p st =
     (let nm = snprintf_s 64 (the (label_name p))
      in upd_p_fn (push_insn (ir_insn0\<lparr>op := IR_LABEL, iname := nm\<rparr>))
           (st\<lparr>p_labels := p_labels st @ [(nm, length (insns (p_fn st)))]\<rparr>))"

definition debug_line :: "string \<Rightarrow> parse_state \<Rightarrow> parse_state" where
  "debug_line p st =
     (case strchr (drop 3 p) (CHR '':'') of
        Some r \<Rightarrow> st\<lparr>p_dbg_file := snprintf_s 64 (takeWhile (\<lambda>c. c \<noteq> CHR '':'') (drop 3 p)),
                     p_dbg_line := c_int (fst (strtol 10 (tl r)))\<rparr>
      | None \<Rightarrow> st)"

section \<open>Instructions\<close>

definition parse_op :: "string \<Rightarrow> string \<Rightarrow> func \<Rightarrow> parse_stop + ir_insn \<times> func" where
  "parse_op opname p fn =
     (let only = (\<lambda>ins. Inr (ins, fn)); bare = (\<lambda>k. Inr (ir_insn0\<lparr>op := k\<rparr>, fn)) in
      if opname = ''mov'' then Inr (parse_mov p fn)
      else if opname = ''lea'' then only (parse_lea p)
      else if opname = ''ret'' then bare IR_RET
      else if opname = ''retval'' then only (parse_retval p)
      else if opname = ''jmp'' then only (ir_insn0\<lparr>op := IR_JMP, iname := read_name p 64\<rparr>)
      else if opname = ''jz'' then only (parse_jz p)
      else if opname = ''call'' then only (parse_call p)
      else if opname = ''mcall'' then only (parse_mcall p)
      else if opname = ''icall'' then Inr (parse_icall p fn)
      else if opname = ''ncall'' then only (parse_ncall p)
      else if opname = ''goto.fn'' then only (ir_insn0\<lparr>op := IR_GOTO_FN, iname := read_name p 64\<rparr>)
      else if opname = ''tailcall'' then only (parse_tailcall p)
      else if opname = ''ntailcall'' then only (parse_ntailcall p)
      else if opname = ''load'' \<or> opname = ''loadb'' then Inr (parse_load opname p fn)
      else if opname = ''store'' \<or> opname = ''storeb'' then Inr (parse_store opname p fn)
      else if opname = ''loadmem'' then only (parse_loadmem p fn)
      else if opname = ''storemem'' then map_sum id (\<lambda>ins. (ins, fn)) (parse_storemem p fn)
      else if opname = ''field'' then only (parse_field p)
      else if opname = ''storefield'' then only (parse_storefield p)
      else if opname = ''bound'' then only (parse_bound p)
      else if opname = ''setflag'' then only (parse_setflag p)
      else if opname = ''getflag'' then only (parse_getflag p)
      else if opname = ''toggleflag'' then only (ir_insn0\<lparr>op := IR_TOGGLEFLAG, iname := read_name p 64\<rparr>)
      else if opname = ''assume'' then only (ir_insn0\<lparr>op := IR_ASSUME, src1 := fst (parse_vreg p)\<rparr>)
      else if opname = ''loop'' then only (parse_loop p)
      else if opname = ''break'' then bare IR_BREAK
      else if opname = ''continue'' then bare IR_CONTINUE
      else if strneq opname ''far.'' 4 then Inr (parse_far opname p fn)
      else if opname \<in> set asm_ops then only (parse_literal opname p)
      else if opname = ''frame_enter'' then bare IR_FRAME_ENTER
      else if opname = ''frame_leave'' then bare IR_FRAME_LEAVE
      else if opname = ''int'' then only (parse_literal opname p)
      else if opname \<in> set cjmp_ops then only (ir_insn0\<lparr>op := IR_CJMP, asm_ann := opname, iname := read_name p 64\<rparr>)
      else if opname = ''in'' \<or> opname = ''inb'' then Inr (parse_in opname p fn)
      else if opname = ''out'' \<or> opname = ''outb'' then Inr (parse_out opname p fn)
      else if opname = ''cbw'' \<or> opname = ''zext'' then only (parse_op2 IR_UNARY opname p)
      else if opname = ''xlat'' then only (parse_xlat p)
      else if opname = ''lods'' then only (parse_op2 IR_UNARY opname p)
      else if opname = ''stos'' then only (parse_op2 IR_ALU opname p)
      else if opname = ''bext'' \<or> opname = ''bins'' then only (parse_bitfield opname p)
      else if opname = ''rol4'' \<or> opname = ''ror4'' \<or> opname = ''swap_flags'' then only (parse_op2 IR_UNARY opname p)
      else if opname = ''brkem'' then only (ir_insn0\<lparr>op := IR_ASM, asm_body := snprintf_s 512 (''    brkem '' @ p)\<rparr>)
      else only (parse_alu opname p))"

section \<open>Blocks of assembly\<close>

text \<open>The line without its end, and a read of at most \<open>sz - 1\<close> characters.\<close>

definition strip_eol :: "string \<Rightarrow> string" where
  "strip_eol s = rev (dropWhile (\<lambda>c. c = CHR 0x0A \<or> c = CHR 0x0D) (rev s))"

definition next_line :: "nat \<Rightarrow> string \<Rightarrow> string \<times> string" where
  "next_line sz s = (let l = fgets_one (sz - 1) s in (l, drop (length l) s))"

definition strcat_line :: "string \<Rightarrow> string \<Rightarrow> string" where
  "strcat_line body l = (if length body + length l < 510 then body @ [CHR 0x0A] @ l else body)"

lemma fgets_one_code [code]:
  "fgets_one n s =
     (case s of [] \<Rightarrow> [] | c # cs \<Rightarrow> if n = 0 then [] else if c = CHR 0x0A then [c] else c # fgets_one (n - 1) cs)"
  by (cases s; cases n) (auto simp: fgets_one_def Let_def)

lemma next_line_less: "s \<noteq> [] \<Longrightarrow> sz > 1 \<Longrightarrow> length (snd (next_line sz s)) < length s"
proof -
  assume "s \<noteq> []" "sz > 1"
  then have "fgets_one (sz - 1) s \<noteq> []" by (intro fgets_one_length) simp_all
  with \<open>s \<noteq> []\<close> show ?thesis by (cases "fgets_one (sz - 1) s") (auto simp: next_line_def Let_def)
qed

function asm_lines :: "string \<Rightarrow> string \<Rightarrow> string \<times> string" where
  "asm_lines body s =
     (let r = snd (next_line 512 s); a = strip_eol (fst (next_line 512 s))
      in if s = [] then (body, [])
         else if CHR 0x7D \<in> set a then (strcat_line body (takeWhile (\<lambda>c. c \<noteq> CHR 0x7D) a), r)
         else asm_lines (strcat_line body a) r)"
  by pat_completeness auto
termination
  by (relation "measure (\<lambda>(body, s). length s)") (simp_all add: next_line_less)

declare asm_lines.simps [simp del]

definition parse_asm :: "string \<Rightarrow> string \<Rightarrow> parse_stop + ir_insn \<times> string" where
  "parse_asm p s =
     (let p = ir_skip_ws p; ins = ir_insn0\<lparr>op := IR_ASM, asm_is_block := True\<rparr>
      in case strchr p (CHR 0x7B) of
           None \<Rightarrow> Inr (ins, s)
         | Some b \<Rightarrow>
             let ann = takeWhile (\<lambda>c. c \<noteq> CHR 0x7B) p;
                 closed = (CHR 0x7D \<in> set b);
                 body = (if closed then rev (tl (dropWhile (\<lambda>c. c \<noteq> CHR 0x7D) (rev (tl b)))) else tl b);
                 (all_lines, r) = (if closed then (body, s) else asm_lines body s)
             in if length ann \<ge> 128 \<or> length body \<ge> 512 then Inl Buffer_overflow
                else Inr (ins\<lparr>asm_ann := ann, asm_body := all_lines\<rparr>, r))"

section \<open>The body of a function\<close>

definition insn_vregs :: "ir_insn \<Rightarrow> int list" where
  "insn_vregs ins = [dst ins, src1 ins, src2 ins] @ extra_args ins @ ret_vregs ins"

definition track_vregs :: "ir_insn \<Rightarrow> func \<Rightarrow> func" where
  "track_vregs ins fn = fold fn_ensure_vreg (insn_vregs ins) fn"

definition attach_debug :: "parse_state \<Rightarrow> ir_insn \<Rightarrow> ir_insn" where
  "attach_debug st ins =
     (if p_dbg_line st > 0 then ins\<lparr>ins_line := p_dbg_line st, ins_src_file := p_dbg_file st\<rparr> else ins)"

definition add_insn :: "parse_state \<Rightarrow> ir_insn \<times> func \<Rightarrow> parse_state" where
  "add_insn st r = (case r of (ins, fn) \<Rightarrow> st\<lparr>p_fn := push_insn (attach_debug st ins) (track_vregs ins fn)\<rparr>)"

definition parse_insn :: "string \<Rightarrow> string \<Rightarrow> parse_state \<Rightarrow> parse_stop + parse_state \<times> string" where
  "parse_insn p s st =
     (let (opname, p) = read_word p 64
      in if opname = ''asm''
         then map_sum id (\<lambda>(ins, r). (add_insn st (ins, p_fn st), r)) (parse_asm p s)
         else map_sum id (\<lambda>r. (add_insn st r, s)) (parse_op opname p (p_fn st)))"

definition parse_mark :: "(vreg_info \<Rightarrow> vreg_info) \<Rightarrow> string \<Rightarrow> parse_state \<Rightarrow> parse_state" where
  "parse_mark f p st = upd_p_fn (mark_vreg f (fst (parse_vreg p))) st"

text \<open>One line that is neither empty nor a comment nor the end, and the text after it.\<close>

definition parse_line :: "string \<Rightarrow> string \<Rightarrow> parse_state \<Rightarrow> parse_stop + parse_state \<times> string" where
  "parse_line p s st =
     (let go = (\<lambda>st. Inr (st, s)) in
      if strneq p ''.param'' 6 then map_sum id (\<lambda>st. (st, s)) (parse_param p st)
      else if strneq p ''.returns'' 8 then go (parse_returns p st)
      else if strneq p ''.const '' 7 then go (parse_const p st)
      else if strneq p ''.prefer'' 7 then go (parse_prefer p st)
      else if strneq p ''.vreg'' 5 then map_sum id (\<lambda>st. (st, s)) (parse_vreg_decl p st)
      else if strneq p ''.local'' 6 then go (parse_local p st)
      else if strneq p ''.byte'' 5 then go (parse_mark (\<lambda>ri. ri\<lparr>is_byte := True\<rparr>) (drop 5 p) st)
      else if strneq p ''.immutable'' 10 then go (parse_mark (\<lambda>ri. ri\<lparr>is_const := True\<rparr>) (drop 10 p) st)
      else if strneq p ''.csref'' 6 then go (parse_mark (\<lambda>ri. ri\<lparr>is_cs_ref := True\<rparr>) (drop 6 p) st)
      else if strneq p ''.preserves'' 10 then go (parse_preserves p st)
      else if is_label_line p then go (parse_label p st)
      else parse_insn p s st)"

lemma asm_lines_le: "length (snd (asm_lines body s)) \<le> length s"
proof (induction body s rule: asm_lines.induct)
  case (1 body s)
  show ?case
  proof (cases "s = [] \<or> CHR 0x7D \<in> set (strip_eol (fst (next_line 512 s)))")
    case True
    then show ?thesis using next_line_less [of s 512] by (subst asm_lines.simps) (auto simp: Let_def)
  next
    case False
    then show ?thesis using next_line_less [of s 512] 1 [OF refl refl] by (subst asm_lines.simps) (simp add: Let_def)
  qed
qed

lemma map_sum_Inr: "map_sum id f x = Inr y \<longleftrightarrow> (\<exists>z. x = Inr z \<and> y = f z)"
  by (cases x) auto

lemma parse_line_rest: "parse_line p s st = Inr (st', r) \<Longrightarrow> length r \<le> length s"
  using asm_lines_le
  by (auto simp: parse_line_def parse_insn_def parse_asm_def Let_def map_sum_def
      split: if_splits option.splits prod.splits sum.splits) (metis snd_conv)

text \<open>The file may end before the function does.\<close>

function parse_body :: "string \<Rightarrow> parse_state \<Rightarrow> parse_stop + parse_state \<times> string" where
  "parse_body s st =
     (if s = [] then Inr (st, [])
      else let l = fst (next_line 1024 s); r = snd (next_line 1024 s); p = ir_skip_ws (strip_eol l)
           in if p = [] then parse_body r st
              else if strneq p ''; @'' 3 then parse_body r (debug_line p st)
              else if hd p = CHR '';'' then parse_body r st
              else if strneq p ''.endfn'' 6 then Inr (st, r)
              else (case parse_line p r st of Inl e \<Rightarrow> Inl e | Inr (st, r) \<Rightarrow> parse_body r st))"
  by pat_completeness auto
termination
proof (relation "measure (\<lambda>(s, st). length s)", goal_cases)
  case (5 s st l r p b st2 r2)
  then have "parse_line p r st = Inr (st2, r2)" by simp
  then show ?case using parse_line_rest next_line_less [of s 1024] 5 by fastforce
qed (simp_all add: next_line_less)

declare parse_body.simps [simp del]

definition parse_function :: "string \<Rightarrow> string \<Rightarrow> func \<Rightarrow> nat \<Rightarrow> parse_stop + parse_state \<times> string" where
  "parse_function first_line s fn errs = parse_body s (ir_fn_header first_line (new_parse fn errs))"

end
