(* ===== verification/Bind_Parse_Nir.thy ===== *)
theory Bind_Parse_Nir
  imports Bind_Parse_Fn
begin

text \<open>
  \<^verbatim>\<open>parse_nir\<close> of \<^verbatim>\<open>src/bind.c\<close>: the items of a file (functions, external functions,
  initialised data, globals, placements, uses) in the order of the source, and the folding of
  constant additions into memory accesses that follows.
\<close>

section \<open>The state\<close>

record data_block =
  db_label :: string
  db_has_at :: bool
  db_at_seg :: int
  db_at_off :: int
  db_entries :: "string list"
  db_module :: string

record global_var =
  g_name :: string
  g_type :: string
  g_size :: int
  g_module :: string
  g_has_at :: bool
  g_at_seg :: int
  g_at_off :: int

datatype emit_kind = EMIT_FN | EMIT_DATA | EMIT_GLOB | EMIT_AT | EMIT_USE | EMIT_ENDAT

record nir_state =
  n_functions :: "parse_state list"
  n_externs :: "extern_fn list"
  n_data :: "data_block list"
  n_globals :: "global_var list"
  n_uses :: "string list"
  n_ats :: "(int \<times> int) list"
  n_order :: "(emit_kind \<times> nat \<times> string) list"
  n_errors :: nat

definition no_nir :: nir_state where
  "no_nir = \<lparr>n_functions = [], n_externs = [], n_data = [], n_globals = [], n_uses = [], n_ats = [], n_order = [], n_errors = 0\<rparr>"

definition record_emit :: "string \<Rightarrow> emit_kind \<Rightarrow> nat \<Rightarrow> nir_state \<Rightarrow> nir_state" where
  "record_emit md k i N = N\<lparr>n_order := n_order N @ [(k, i, snprintf_s 64 md)]\<rparr>"

text \<open>The name of the file without its directories and its last suffix.\<close>

definition module_of_path :: "string \<Rightarrow> string" where
  "module_of_path path =
     (let b = snprintf_s 64 (rev (takeWhile (\<lambda>c. c \<noteq> CHR ''/'') (rev path)))
      in if CHR ''.'' \<in> set b then rev (tl (dropWhile (\<lambda>c. c \<noteq> CHR ''.'') (rev b))) else b)"

section \<open>Functions\<close>

definition nir_function :: "string \<Rightarrow> string \<Rightarrow> string \<Rightarrow> nir_state \<Rightarrow> parse_stop + nir_state \<times> string" where
  "nir_function md p s N =
     map_sum id (\<lambda>(st, r). (record_emit md EMIT_FN (length (n_functions N))
                             (N\<lparr>n_functions := n_functions N @ [st], n_errors := p_errors st\<rparr>), r))
       (parse_function p s (new_func\<lparr>fn_module := snprintf_s 64 md\<rparr>) (n_errors N))"

section \<open>External functions\<close>

definition new_extern :: "string \<Rightarrow> extern_fn" where
  "new_extern nm =
     \<lparr>ext_name = nm, ext_is_far = False, ext_ds_policy = DS_POLICY_UNSPEC, ext_ds_symbol = [], ext_ds_literal = 0,
      ext_has_address = False, ext_addr_seg = 0, ext_addr_off = 0, ext_param_pins = [], ext_param_places = [],
      ext_param_stack_offsets = [], ext_return_types = [], ext_ret_pins = [], ext_ret_places = [],
      ext_return_stack_offsets = [], ext_preserves = []\<rparr>"

definition ext_modifier :: "string \<Rightarrow> extern_fn \<times> nat \<Rightarrow> extern_fn \<times> nat" where
  "ext_modifier word x =
     (case x of (ext, errs) \<Rightarrow>
        if word = ''far'' then (ext\<lparr>ext_is_far := True\<rparr>, errs)
        else if strneq word ''addr_seg='' 9 then (ext\<lparr>ext_has_address := True, ext_addr_seg := num_at (drop 9 word)\<rparr>, errs)
        else if strneq word ''addr_off='' 9 then (ext\<lparr>ext_has_address := True, ext_addr_off := num_at (drop 9 word)\<rparr>, errs)
        else if strneq word ''addr('' 5
        then (case at_pair (drop 5 word) of
                Some (sg, off) \<Rightarrow> (ext\<lparr>ext_has_address := True, ext_addr_seg := sg, ext_addr_off := off\<rparr>, errs)
              | None \<Rightarrow> (ext\<lparr>ext_has_address := True\<rparr>, errs))
        else if strneq word ''ds='' 3
        then (case parse_ds_policy_word word (ext_ds_policy ext, ext_ds_symbol ext, ext_ds_literal ext, errs) of
                (pol, symb, lit, errs) \<Rightarrow>
                  (ext\<lparr>ext_ds_policy := pol, ext_ds_symbol := symb, ext_ds_literal := lit\<rparr>, errs))
        else (ext, errs))"

function ext_modifiers :: "string \<Rightarrow> extern_fn \<times> nat \<Rightarrow> extern_fn \<times> nat" where
  "ext_modifiers p x =
     (let q = ir_skip_ws (skip_char (CHR '','') (ir_skip_ws p)); word = read_name q 64; r = drop (length word) q
      in if p = [] \<or> word = [] then x
         else ext_modifiers (if strneq word ''addr('' 5 then skip_char (CHR '')'') (ir_skip_ws r) else r) (ext_modifier word x))"
  by pat_completeness auto
termination
proof (relation "measure (\<lambda>(p, x). length p)", goal_cases)
  case (2 p st q word r)
  have "length q \<le> length p"
    using ir_skip_ws_le [of "skip_char (CHR '','') (ir_skip_ws p)"] skip_char_le [of "CHR '',''" "ir_skip_ws p"]
      ir_skip_ws_le [of p] 2(1) by simp
  moreover have "length r < length q"
    using 2 drop_word_less [of q 64] by simp
  moreover have "length (skip_char (CHR '')'') (ir_skip_ws r)) \<le> length r"
    using skip_char_le [of "CHR '')''" "ir_skip_ws r"] ir_skip_ws_le [of r] by simp
  ultimately show ?case by auto
qed simp

declare ext_modifiers.simps [simp del]

definition ext_param :: "string \<Rightarrow> extern_fn \<Rightarrow> extern_fn" where
  "ext_param ep ext =
     (let pin = pin_of '' in '' ep
      in ext\<lparr>ext_param_pins := ext_param_pins ext @ [case pin of Some r \<Rightarrow> r | None \<Rightarrow> PREG_NONE],
             ext_param_places := ext_param_places ext @ [if pin \<noteq> None then ABI_PLACE_REGISTER else parse_abi_place ep],
             ext_param_stack_offsets := ext_param_stack_offsets ext @ [0]\<rparr>)"

definition ext_returns :: "string \<Rightarrow> extern_fn \<Rightarrow> extern_fn" where
  "ext_returns ep ext =
     (let (ty, p) = read_word (drop 8 ep) 32; pin = pin_of ''in '' p
      in ext\<lparr>ext_return_types := ext_return_types ext @ [ty],
             ext_ret_pins := ext_ret_pins ext @ [case pin of Some r \<Rightarrow> r | None \<Rightarrow> PREG_NONE],
             ext_ret_places := ext_ret_places ext @ [if pin \<noteq> None then ABI_PLACE_REGISTER else parse_abi_place p],
             ext_return_stack_offsets := ext_return_stack_offsets ext @ [0]\<rparr>)"

definition ext_preserve :: "string \<Rightarrow> extern_fn \<Rightarrow> extern_fn" where
  "ext_preserve ep ext =
     ext\<lparr>ext_preserves := take NUM_PREGS (ext_preserves ext @ known_pregs (preserve_regs False (drop 10 ep)))\<rparr>"

definition ext_line :: "string \<Rightarrow> extern_fn \<Rightarrow> extern_fn" where
  "ext_line ep ext =
     (if strneq ep ''.eparam'' 7 then ext_param ep ext
      else if strneq ep ''.returns'' 8 then ext_returns ep ext
      else if strneq ep ''.preserves'' 10 then ext_preserve ep ext
      else ext)"

function ext_lines :: "string \<Rightarrow> extern_fn \<Rightarrow> extern_fn \<times> string" where
  "ext_lines s ext =
     (let ep = ir_skip_ws (fst (next_line 512 s)); r = snd (next_line 512 s)
      in if s = [] then (ext, []) else if strneq ep ''.endextern'' 10 then (ext, r) else ext_lines r (ext_line ep ext))"
  by pat_completeness auto
termination
  by (relation "measure (\<lambda>(s, ext). length s)") (simp_all add: next_line_less)

declare ext_lines.simps [simp del]

definition nir_extern :: "string \<Rightarrow> string \<Rightarrow> nir_state \<Rightarrow> nir_state \<times> string" where
  "nir_extern p s N =
     (let (nm, p) = read_word (drop 8 p) 64; (ext, errs) = ext_modifiers p (new_extern nm, n_errors N);
          (ext, r) = ext_lines s ext
      in (N\<lparr>n_externs := n_externs N @ [ext], n_errors := errs\<rparr>, r))"

section \<open>Data\<close>

definition until :: "char \<Rightarrow> string \<Rightarrow> string" where
  "until c s = takeWhile (\<lambda>x. x \<noteq> c) s"

text \<open>References to functions are marked for a later pass with the characters 1 and 2.\<close>

definition data_entry :: "string \<Rightarrow> string list" where
  "data_entry dp =
     (if strneq dp ''far.ref '' 8 then [CHR 0x01 # read_name (drop 8 dp) 64]
      else if strneq dp ''near.ref '' 9 then [CHR 0x02 # read_name (drop 9 dp) 64]
      else if strneq dp ''far '' 4
      then let (seg, r) = strtol0 (drop 4 dp)
           in [''    dw 0x'' @ hex_int 4 (num_at (skip_char (CHR '':'') r)) @ '', 0x'' @ hex_int 4 (c_int seg)]
      else if strneq dp ''dw '' 3 \<or> strneq dp ''db '' 3 \<or> strneq dp ''dd '' 3 then [snprintf_s 512 (''    '' @ dp)]
      else [])"

function data_lines :: "string \<Rightarrow> string list \<Rightarrow> string list \<times> string" where
  "data_lines s es =
     (let l = ir_skip_ws (fst (next_line 256 s)); dp = until (CHR 0x0D) (until (CHR 0x0A) l); r = snd (next_line 256 s)
      in if s = [] then (es, [])
         else if strneq dp ''.enddata'' 8 then (es, r)
         else if dp = [] \<or> hd dp = CHR '';'' then data_lines r es
         else data_lines r (es @ data_entry dp))"
  by pat_completeness auto
termination
  by (relation "measure (\<lambda>(s, es). length s)") (simp_all add: next_line_less)

declare data_lines.simps [simp del]

definition at_clause :: "string \<Rightarrow> bool \<times> int \<times> int" where
  "at_clause p =
     (case find_str ''at('' p of
        None \<Rightarrow> (False, 0, 0)
      | Some r \<Rightarrow> (case at_pair (drop 3 r) of Some (sg, off) \<Rightarrow> (True, sg, off) | None \<Rightarrow> (True, 0, 0)))"

definition nir_data :: "string \<Rightarrow> string \<Rightarrow> string \<Rightarrow> nir_state \<Rightarrow> nir_state \<times> string" where
  "nir_data md p s N =
     (let (lbl, p) = read_word (drop 6 p) 64; (has, sg, off) = at_clause p; (es, r) = data_lines s [];
          db = \<lparr>db_label = lbl, db_has_at = has, db_at_seg = sg, db_at_off = off, db_entries = es, db_module = snprintf_s 64 md\<rparr>
      in (record_emit md EMIT_DATA (length (n_data N)) (N\<lparr>n_data := n_data N @ [db]\<rparr>), r))"

section \<open>Globals, uses and placements\<close>

definition type_bytes :: "string \<Rightarrow> int" where
  "type_bytes ty =
     (if ty = ''u8'' then 1
      else if ty = ''u16'' then 2
      else if ty = ''u32'' then 4
      else if ty = ''seg'' then 2
      else if ty = ''far'' then 4
      else case strchr ty (CHR ''['') of
             None \<Rightarrow> 2
           | Some r \<Rightarrow>
               let elem = (if strneq ty ''u16'' 3 then 2 else if strneq ty ''u32'' 3 then 4
                           else if strneq ty ''far'' 3 then 4 else 1)
               in c_int (elem * c_int (fst (strtol 10 (tl r)))))"

definition nir_global :: "string \<Rightarrow> string \<Rightarrow> nir_state \<Rightarrow> nir_state" where
  "nir_global md p N =
     (let (nm, p) = read_word (drop 8 p) 64; p = ir_skip_ws (skip_char (CHR '','') (ir_skip_ws p)); ty = read_name p 32;
          (has, sg, off) = at_clause p
      in record_emit md EMIT_GLOB (length (n_globals N))
           (N\<lparr>n_globals := n_globals N @ [\<lparr>g_name = nm, g_type = ty, g_size = type_bytes ty, g_module = snprintf_s 64 md,
              g_has_at = has, g_at_seg = sg, g_at_off = off\<rparr>]\<rparr>))"

definition nir_use :: "string \<Rightarrow> string \<Rightarrow> nir_state \<Rightarrow> nir_state" where
  "nir_use md p N =
     record_emit md EMIT_USE (length (n_uses N))
       (N\<lparr>n_uses := n_uses N @ [take 63 (takeWhile (\<lambda>c. c \<noteq> CHR 0x22 \<and> c \<noteq> CHR ''.'') (skip_char (CHR 0x22) (drop 5 p)))]\<rparr>)"

definition nir_at :: "string \<Rightarrow> string \<Rightarrow> nir_state \<Rightarrow> nir_state" where
  "nir_at md p N =
     (let (sg, r) = strtol0 (drop 4 p); off = num_at (skip_char (CHR '':'') r)
      in record_emit md EMIT_AT (length (n_ats N)) (N\<lparr>n_ats := n_ats N @ [(c_int sg, off)]\<rparr>))"

section \<open>The file\<close>

definition nir_item :: "string \<Rightarrow> string \<Rightarrow> string \<Rightarrow> nir_state \<Rightarrow> parse_stop + nir_state \<times> string" where
  "nir_item md p s N =
     (if strneq p ''.fn '' 4 then nir_function md p s N
      else if strneq p ''.extern '' 8 then Inr (nir_extern p s N)
      else if strneq p ''.data '' 6 then Inr (nir_data md p s N)
      else if strneq p ''.global '' 8 then Inr (nir_global md p N, s)
      else if strneq p ''.use '' 5 then Inr (nir_use md p N, s)
      else if strneq p ''.endat'' 6 then Inr (record_emit md EMIT_ENDAT 0 N, s)
      else if strneq p ''.at '' 4 then Inr (nir_at md p N, s)
      else Inr (N, s))"

lemma ext_lines_le: "length (snd (ext_lines s ext)) \<le> length s"
proof (induction s ext rule: ext_lines.induct)
  case (1 s ext)
  show ?case
  proof (cases "s = [] \<or> strneq (ir_skip_ws (fst (next_line 512 s))) ''.endextern'' 10")
    case True
    then show ?thesis using next_line_less [of s 512] by (subst ext_lines.simps) (auto simp: Let_def)
  next
    case False
    then show ?thesis using next_line_less [of s 512] 1 [OF refl refl] by (subst ext_lines.simps) (simp add: Let_def)
  qed
qed

lemma data_lines_le: "length (snd (data_lines s es)) \<le> length s"
proof (induction "length s" arbitrary: s es rule: less_induct)
  case less
  show ?case
  proof (cases "s = []")
    case True
    then show ?thesis by (subst data_lines.simps) (simp add: Let_def)
  next
    case False
    then have *: "length (snd (next_line 256 s)) < length s" by (simp add: next_line_less)
    have "length (snd (data_lines (snd (next_line 256 s)) e)) \<le> length s" for e
      using less [OF *, of e] * by simp
    then show ?thesis using False * by (subst data_lines.simps) (simp add: Let_def)
  qed
qed

lemma parse_body_le: "parse_body s st = Inr (st', r) \<Longrightarrow> length r \<le> length s"
proof (induction "length s" arbitrary: s st rule: less_induct)
  case less
  show ?case
  proof (cases "s = []")
    case True
    then show ?thesis using less.prems by (subst (asm) parse_body.simps) simp
  next
    case False
    then have *: "length (snd (next_line 1024 s)) < length s" by (simp add: next_line_less)
    have rec: "parse_body q t = Inr (st', r) \<Longrightarrow> length q \<le> length (snd (next_line 1024 s)) \<Longrightarrow> length r \<le> length s" for q t
      using less.hyps [of q t] * by simp
    show ?thesis
      using less.prems False * rec parse_line_rest
      by (subst (asm) parse_body.simps) (fastforce simp: Let_def split: if_splits sum.splits)
  qed
qed

lemma nir_item_rest: "nir_item md p s N = Inr (N', r) \<Longrightarrow> length r \<le> length s"
  using ext_lines_le data_lines_le parse_body_le
  by (auto simp: nir_item_def nir_function_def nir_extern_def nir_data_def parse_function_def map_sum_def
      split: if_splits prod.splits sum.splits) (metis snd_conv)+

function parse_items :: "string \<Rightarrow> string \<Rightarrow> nir_state \<Rightarrow> parse_stop + nir_state" where
  "parse_items md s N =
     (if s = [] then Inr N
      else let r = snd (next_line 1024 s); p = ir_skip_ws (strip_eol (fst (next_line 1024 s)))
           in if p = [] \<or> hd p = CHR '';'' then parse_items md r N
              else (case nir_item md p r N of Inl e \<Rightarrow> Inl e | Inr (N, r) \<Rightarrow> parse_items md r N))"
  by pat_completeness auto
termination
proof (relation "measure (\<lambda>(md, s, N). length s)", goal_cases)
  case (3 md s N r p b N2 r2)
  then have "nir_item md p r N = Inr (N2, r2)" by simp
  then show ?case using nir_item_rest next_line_less [of s 1024] 3 by fastforce
qed (simp_all add: next_line_less)

declare parse_items.simps [simp del]

definition parse_nir :: "string \<Rightarrow> string \<Rightarrow> nir_state \<Rightarrow> parse_stop + nir_state" where
  "parse_nir path contents N = parse_items (module_of_path path) contents N"

section \<open>Displacements\<close>

text \<open>The reads of a register in the function, counted with their multiplicity.\<close>

definition insn_uses :: "ir_insn \<Rightarrow> int list" where
  "insn_uses ins =
     [src1 ins, src2 ins] @ (if insn_reads_dst ins then [dst ins] else []) @ extra_args ins @
     (if op ins = IR_RETVAL then ret_vregs ins else [])"

definition count_vreg_uses :: "func \<Rightarrow> int \<Rightarrow> nat" where
  "count_vreg_uses fn v =
     (if v < 0 then 0 else length (filter (\<lambda>x. x = v) (concat (map insn_uses (insns fn)))))"

definition make_nop :: "ir_insn \<Rightarrow> ir_insn" where
  "make_nop ins =
     ins\<lparr>op := IR_NOP, dst := -1, src1 := -1, src2 := -1, extra_args := [], ret_vregs := [], nargs := 0, nrets := 0,
         imm := 0, has_imm := False, iname := [], asm_body := [], asm_ann := [], asm_is_block := False,
         mem_seg := PREG_NONE, mem_disp := 0, has_mem_disp := False\<rparr>"

definition addr_of_mem :: "ir_insn \<Rightarrow> int" where
  "addr_of_mem m = (if op m = IR_LOADMEM then src1 m else dst m)"

definition can_fold :: "func \<Rightarrow> ir_insn \<Rightarrow> ir_insn \<Rightarrow> bool" where
  "can_fold fn ad m \<longleftrightarrow>
     (op m = IR_LOADMEM \<or> op m = IR_STOREMEM) \<and> iname m = [] \<and> \<not> has_mem_disp m \<and> addr_of_mem m \<ge> 0 \<and>
     op ad = IR_ALU \<and> iname ad = ''add'' \<and> has_imm ad \<and> dst ad = addr_of_mem m \<and> src1 ad \<ge> 0 \<and>
     count_vreg_uses fn (addr_of_mem m) = 1"

definition with_disp :: "ir_insn \<Rightarrow> ir_insn \<Rightarrow> ir_insn" where
  "with_disp ad m =
     (if op m = IR_LOADMEM then m\<lparr>src1 := src1 ad\<rparr> else m\<lparr>dst := src1 ad\<rparr>)\<lparr>mem_disp := imm ad, has_mem_disp := True\<rparr>"

definition fold_at :: "nat \<Rightarrow> func \<Rightarrow> func" where
  "fold_at i fn =
     (let ad = insns fn ! (i - 1); m = insns fn ! i
      in if can_fold fn ad m then fn\<lparr>insns := (insns fn)[i := with_disp ad m, i - 1 := make_nop ad]\<rparr> else fn)"

definition fold_memory_displacements :: "func \<Rightarrow> func" where
  "fold_memory_displacements fn = fold fold_at [1..<length (insns fn)] fn"

end
