(* ===== verification/Nib_Ast.thy ===== *)
theory Nib_Ast
  imports Nib_Prelude
begin

text \<open>
  The syntax tree of the compiler, \<^verbatim>\<open>src/ast.h\<close>, and its constructor functions,
  \<^verbatim>\<open>src/ast.c\<close>. A tagged union is a datatype with one constructor per tag; a chain of
  \<^verbatim>\<open>next\<close> pointers is a list; a pointer that may be \<^verbatim>\<open>NULL\<close> is an option. Register and
  flag numbers are integers with \<^verbatim>\<open>REG_NONE\<close> as \<open>-1\<close>.
\<close>

section \<open>Registers\<close>

abbreviation (input) REG_NONE :: int where "REG_NONE \<equiv> -1"
abbreviation (input) WREG_BX :: int where "WREG_BX \<equiv> 3"
abbreviation (input) WREG_BP :: int where "WREG_BP \<equiv> 5"
abbreviation (input) WREG_SI :: int where "WREG_SI \<equiv> 6"
abbreviation (input) WREG_DI :: int where "WREG_DI \<equiv> 7"
abbreviation (input) SREG_CS :: int where "SREG_CS \<equiv> 1"
abbreviation (input) SREG_DS :: int where "SREG_DS \<equiv> 3"
abbreviation (input) FLG_OF :: int where "FLG_OF \<equiv> 7"

datatype reg_class = REGCLASS_WORD | REGCLASS_BYTE | REGCLASS_SEG | REGCLASS_FLAG

datatype ast_place = ABI_DEFAULT | ABI_REGISTER | ABI_STACK

section \<open>Types and expressions\<close>

datatype op_kind =
    NIB_ADD | NIB_SUB | NIB_MUL | NIB_DIV | NIB_MOD
  | NIB_SMUL | NIB_SDIV | NIB_SMOD
  | NIB_AND | NIB_OR | NIB_XOR
  | NIB_SHL | NIB_SHR | NIB_SRSHR
  | NIB_ROL | NIB_ROR | NIB_RCL | NIB_RCR
  | NIB_EQ | NIB_NEQ | NIB_LT | NIB_GT | NIB_LTE | NIB_GTE
  | NIB_SLT | NIB_SGT | NIB_SLTE | NIB_SGTE
  | NIB_XCHG
  | NIB_NEG | NIB_NOT | NIB_ADDR | NIB_FAR_ADDR | NIB_LNOT

text \<open>The address of a memory operand: segment, base, index, displacement with its unresolved
  expression, and the absolute segment of the form \<^verbatim>\<open>[0xB800:0x0000]\<close>.\<close>

datatype type_t =
    TYPE_U8 | TYPE_U16 | TYPE_U32 | TYPE_SEG | TYPE_BOOL
  | TYPE_ARRAY "type_t option" int "expr_t option"
  | TYPE_BCD int
  | TYPE_STRUCT "string option"
  | TYPE_FAR
  | TYPE_VOID
and expr_t =
    EXPR_LIT_INT (eline: int) int
  | EXPR_LIT_STR (eline: int) string
  | EXPR_IDENT (eline: int) string
  | EXPR_REG (eline: int) int reg_class
  | EXPR_SREG (eline: int) int
  | EXPR_FLAG (eline: int) int
  | EXPR_BINOP (eline: int) op_kind expr_t expr_t
  | EXPR_UNOP (eline: int) op_kind expr_t
  | EXPR_CALL (eline: int) expr_t "expr_t list"
  | EXPR_INDEX (eline: int) expr_t expr_t
  | EXPR_CHECKED_INDEX (eline: int) expr_t expr_t
  | EXPR_FIELD (eline: int) expr_t string
  | EXPR_RAW_FIELD (eline: int) expr_t string
  | EXPR_MEM (eline: int) mem_t
  | EXPR_FAR_LIT (eline: int) int int "expr_t option" "expr_t option"
  | EXPR_CAST (eline: int) expr_t type_t
  | EXPR_PAREN (eline: int) expr_t
  | EXPR_ARRAY_INIT (eline: int) "expr_t list"
  | EXPR_INDIRECT_CALL (eline: int) expr_t string "string option" "expr_t list"
  | EXPR_NEAR_INDIRECT_CALL (eline: int) expr_t string "expr_t list"
  | EXPR_DEREF (eline: int) expr_t int
and mem_t =
  MEM (mem_seg: int) (mem_base: int) (mem_index: int) (mem_disp: int) (mem_disp_expr: "expr_t option")
    (mem_has_disp: bool) (mem_abs_seg: bool) (mem_abs_seg_val: int) (mem_abs_seg_expr: "expr_t option")

section \<open>Statements\<close>

datatype flag_expr =
    FEXPR_FLAG int | FEXPR_NOT flag_expr | FEXPR_OR flag_expr flag_expr
  | FEXPR_AND flag_expr flag_expr | FEXPR_XOR flag_expr flag_expr

record reg_item =
  ri_id :: int
  ri_class :: reg_class
  is_flags_all :: bool

datatype stmt_t =
    STMT_VARDECL (sline: int) "type_t" "string option" int reg_class "expr_t option" bool
  | STMT_ASSIGN (sline: int) "expr_t list" expr_t "flag_case list"
  | STMT_TOGGLE_ASSIGN (sline: int) expr_t expr_t "flag_case list"
  | STMT_EXPR (sline: int) expr_t
  | STMT_IF (sline: int) expr_t "stmt_t list" "stmt_t list"
  | STMT_WHILE (sline: int) expr_t "stmt_t list"
  | STMT_FOR (sline: int) expr_t expr_t "stmt_t list"
  | STMT_RETURN (sline: int) "expr_t list"
  | STMT_BREAK (sline: int)
  | STMT_CONTINUE (sline: int)
  | STMT_GOTO (sline: int) string
  | STMT_TAILCALL (sline: int) expr_t
  | STMT_LABEL (sline: int) string
  | STMT_ASM (sline: int) string "reg_item list" bool bool
  | STMT_CONST (sline: int) string int "expr_t option"
and flag_case = FLAG_CASE (fc_condition: flag_expr) (fc_body: "stmt_t list") (fc_is_trap: bool)

section \<open>Parameters, results and fields\<close>

record param_t =
  pa_name :: string
  pa_type :: type_t
  is_value :: bool
  pa_pinned_reg :: int
  pa_pin_class :: reg_class
  pa_has_pin :: bool
  pa_place :: ast_place
  pinned_seg :: int
  has_seg_pin :: bool

record return_t =
  re_type :: type_t
  re_pinned_reg :: int
  re_pin_class :: reg_class
  re_has_pin :: bool
  re_place :: ast_place

text \<open>A padding field has no name; a bit field has no type.\<close>

record field_t =
  fi_name :: "string option"
  fi_type :: "type_t option"
  bits :: int
  bits_expr :: "expr_t option"
  is_bits :: bool
  as_type :: "type_t option"

section \<open>Constructors\<close>

definition mk_type_array :: "type_t \<Rightarrow> int \<Rightarrow> type_t" where
  "mk_type_array elem sz = TYPE_ARRAY (Some elem) sz None"

definition mk_type_array_expr :: "type_t \<Rightarrow> expr_t \<Rightarrow> type_t" where
  "mk_type_array_expr elem size_expr = TYPE_ARRAY (Some elem) 0 (Some size_expr)"

definition mk_expr_reg :: "int \<Rightarrow> reg_class \<Rightarrow> int \<Rightarrow> expr_t" where
  "mk_expr_reg i rc line = (if rc = REGCLASS_SEG then EXPR_SREG line i else EXPR_REG line i rc)"

definition mk_expr_index :: "expr_t \<Rightarrow> expr_t \<Rightarrow> bool \<Rightarrow> int \<Rightarrow> expr_t" where
  "mk_expr_index arr idx checked line = (if checked then EXPR_CHECKED_INDEX line arr idx else EXPR_INDEX line arr idx)"

definition mk_expr_mem :: "int \<Rightarrow> int \<Rightarrow> int \<Rightarrow> int \<Rightarrow> bool \<Rightarrow> int \<Rightarrow> expr_t" where
  "mk_expr_mem seg base idx disp has_disp line = EXPR_MEM line (MEM seg base idx disp None has_disp False 0 None)"

definition mk_expr_mem_expr :: "int \<Rightarrow> int \<Rightarrow> int \<Rightarrow> expr_t option \<Rightarrow> bool \<Rightarrow> int \<Rightarrow> expr_t" where
  "mk_expr_mem_expr seg base idx disp has_disp line = EXPR_MEM line (MEM seg base idx 0 disp has_disp False 0 None)"

definition mk_expr_mem_abs :: "int \<Rightarrow> int \<Rightarrow> int \<Rightarrow> expr_t" where
  "mk_expr_mem_abs seg off line = EXPR_MEM line (MEM REG_NONE REG_NONE REG_NONE off None True True seg None)"

definition mk_expr_mem_abs_expr :: "expr_t \<Rightarrow> expr_t \<Rightarrow> int \<Rightarrow> expr_t" where
  "mk_expr_mem_abs_expr seg off line =
     EXPR_MEM line (MEM REG_NONE REG_NONE REG_NONE 0 (Some off) True True 0 (Some seg))"

definition mk_expr_far_lit :: "int \<Rightarrow> int \<Rightarrow> int \<Rightarrow> expr_t" where
  "mk_expr_far_lit seg off line = EXPR_FAR_LIT line seg off None None"

definition mk_expr_far_lit_expr :: "expr_t \<Rightarrow> expr_t \<Rightarrow> int \<Rightarrow> expr_t" where
  "mk_expr_far_lit_expr seg off line = EXPR_FAR_LIT line 0 0 (Some seg) (Some off)"

definition mk_expr_deref :: "string \<Rightarrow> int \<Rightarrow> expr_t" where
  "mk_expr_deref nm line = EXPR_DEREF line (EXPR_IDENT line nm) REG_NONE"

definition mk_expr_deref_expr :: "expr_t \<Rightarrow> int \<Rightarrow> expr_t" where
  "mk_expr_deref_expr ptr line = EXPR_DEREF line ptr REG_NONE"

definition mk_param :: "string \<Rightarrow> type_t \<Rightarrow> bool \<Rightarrow> param_t" where
  "mk_param nm ty isv = \<lparr>pa_name = nm, pa_type = ty, is_value = isv, pa_pinned_reg = REG_NONE,
     pa_pin_class = REGCLASS_WORD, pa_has_pin = False, pa_place = ABI_DEFAULT, pinned_seg = 0, has_seg_pin = False\<rparr>"

definition mk_param_pinned :: "string \<Rightarrow> type_t \<Rightarrow> int \<Rightarrow> reg_class \<Rightarrow> param_t" where
  "mk_param_pinned nm ty reg rc =
     (mk_param nm ty False)\<lparr>pa_pinned_reg := reg, pa_pin_class := rc, pa_has_pin := True, pa_place := ABI_REGISTER\<rparr>"

definition mk_param_far_pinned :: "string \<Rightarrow> int \<Rightarrow> int \<Rightarrow> param_t" where
  "mk_param_far_pinned nm off_reg seg_reg =
     (mk_param nm TYPE_FAR False)\<lparr>pa_pinned_reg := off_reg, pa_pin_class := REGCLASS_WORD, pa_has_pin := True,
        pinned_seg := seg_reg, has_seg_pin := True, pa_place := ABI_REGISTER\<rparr>"

definition mk_param_placed :: "string \<Rightarrow> type_t \<Rightarrow> bool \<Rightarrow> ast_place \<Rightarrow> param_t" where
  "mk_param_placed nm ty isv pl = (mk_param nm ty isv)\<lparr>pa_place := pl\<rparr>"

definition mk_return :: "type_t \<Rightarrow> return_t" where
  "mk_return ty = \<lparr>re_type = ty, re_pinned_reg = REG_NONE, re_pin_class = REGCLASS_WORD, re_has_pin = False,
     re_place = ABI_DEFAULT\<rparr>"

definition mk_return_pinned :: "type_t \<Rightarrow> int \<Rightarrow> reg_class \<Rightarrow> return_t" where
  "mk_return_pinned ty reg rc =
     (mk_return ty)\<lparr>re_pinned_reg := reg, re_pin_class := rc, re_has_pin := True, re_place := ABI_REGISTER\<rparr>"

definition mk_return_placed :: "type_t \<Rightarrow> ast_place \<Rightarrow> return_t" where
  "mk_return_placed ty pl = (mk_return ty)\<lparr>re_place := pl\<rparr>"

definition mk_field :: "string \<Rightarrow> type_t \<Rightarrow> field_t" where
  "mk_field nm ty = \<lparr>fi_name = Some nm, fi_type = Some ty, bits = 0, bits_expr = None, is_bits = False, as_type = None\<rparr>"

definition mk_field_typed_ptr :: "string \<Rightarrow> type_t \<Rightarrow> type_t \<Rightarrow> field_t" where
  "mk_field_typed_ptr nm storage asty = (mk_field nm storage)\<lparr>as_type := Some asty\<rparr>"

definition mk_field_bits :: "string option \<Rightarrow> int \<Rightarrow> field_t" where
  "mk_field_bits nm nbits =
     \<lparr>fi_name = nm, fi_type = None, bits = nbits, bits_expr = None, is_bits = True, as_type = None\<rparr>"

section \<open>Placement of parameters and results\<close>

definition effective_param_place :: "param_t \<Rightarrow> ast_place" where
  "effective_param_place p =
     (if pa_has_pin p \<or> has_seg_pin p then ABI_REGISTER
      else if pa_place p \<noteq> ABI_DEFAULT then pa_place p
      else if pa_type p = TYPE_FAR then ABI_STACK else ABI_DEFAULT)"

definition effective_return_place :: "return_t \<Rightarrow> ast_place" where
  "effective_return_place r =
     (if re_has_pin r then ABI_REGISTER
      else if re_place r \<noteq> ABI_DEFAULT then re_place r
      else if re_type r = TYPE_FAR then ABI_STACK else ABI_DEFAULT)"

end
