(* ===== verification/Compile_State.thy ===== *)
theory Compile_State
  imports Nib_Ast "HOL-Library.Signed_Division"
begin

text \<open>
  The state of the compiler, \<^verbatim>\<open>compiler_t\<close> of \<^verbatim>\<open>src/compile.c\<close>: scopes, the tables of
  functions, structures and constants, the counters, and the lines written to the \<^verbatim>\<open>.nir\<close>
  file. Error messages are counted, as the code counts them; their text is not modelled.
\<close>

unbundle bit_operations_syntax

section \<open>Lines of the intermediate code\<close>

text \<open>
  Operands as they are printed: \<^verbatim>\<open>%n\<close>, a decimal or hexadecimal number, a name, a label
  \<^verbatim>\<open>.Ln\<close>, an indexed register \<^verbatim>\<open>%a[%b]\<close>.
\<close>

datatype nir_opnd = Vr int | Im int | Hx int | Nm string | Lb int | Ix int int

datatype nir =
    Ins string "nir_opnd list"
  | NLabel int
  | NName string
  | NVreg int "string list"
  | NPrefer int string
  | NLocal int int string
  | NConst int string
  | NPin int string
  | NNote string "nir_opnd list"
  | NLine string int
  | NAsm string string
  | NText string

definition opnd_text :: "nir_opnd \<Rightarrow> string" where
  "opnd_text x =
     (case x of
        Vr v \<Rightarrow> CHR 0x25 # dec_int v
      | Im n \<Rightarrow> dec_int n
      | Hx n \<Rightarrow> ''0x'' @ hex_int 4 n
      | Nm s \<Rightarrow> s
      | Lb l \<Rightarrow> ''.L'' @ dec_int l
      | Ix a b \<Rightarrow> CHR 0x25 # dec_int a @ ''['' @ [CHR 0x25] @ dec_int b @ '']'')"

fun join_comma :: "string list \<Rightarrow> string" where
  "join_comma [] = []"
| "join_comma [x] = x"
| "join_comma (x # xs) = x @ '', '' @ join_comma xs"

definition nir_text :: "nir \<Rightarrow> string" where
  "nir_text l =
     (case l of
        Ins n xs \<Rightarrow> ''    '' @ n @ (if xs = [] then [] else '' '' @ join_comma (map opnd_text xs))
      | NLabel n \<Rightarrow> ''.L'' @ dec_int n @ '':''
      | NName s \<Rightarrow> s @ '':''
      | NVreg v ts \<Rightarrow> ''.vreg '' @ join_comma ((CHR 0x25 # dec_int v) # ts)
      | NPrefer v r \<Rightarrow> ''.prefer '' @ [CHR 0x25] @ dec_int v @ '', '' @ r
      | NLocal v n s \<Rightarrow> ''.local '' @ [CHR 0x25] @ dec_int v @ '', '' @ dec_int n @ '', '' @ [CHR 0x22] @ s @ [CHR 0x22]
      | NConst n s \<Rightarrow> ''.const _C'' @ dec_int n @ '', '' @ [CHR 0x22] @ s @ [CHR 0x22]
      | NPin v r \<Rightarrow> ''    ; pin '' @ [CHR 0x25] @ dec_int v @ '' -> '' @ r
      | NNote n xs \<Rightarrow> ''    ; '' @ n @ '' '' @ join_comma (map opnd_text xs)
      | NLine f n \<Rightarrow> ''; @'' @ f @ '':'' @ dec_int n
      | NAsm ann body \<Rightarrow> ''    asm'' @ ann @ '' {'' @ body @ ''}''
      | NText s \<Rightarrow> s)"

section \<open>Tables\<close>

record symbol_t =
  sy_name :: string
  sy_type :: "type_t option"
  sy_vreg :: int
  sy_vreg_seg :: int
  is_pinned :: bool
  sy_pinned_reg :: int
  sy_pin_class :: reg_class
  is_global :: bool
  is_const :: bool
  sy_has_at :: bool
  sy_at_seg :: int
  sy_at_off :: int
  is_init_data :: bool
  is_stack_local :: bool
  stack_size :: int

record function_sig =
  fs_name :: string
  fs_nparams :: int
  fs_nparams_ir :: int
  fs_return_type :: "type_t option"
  fs_return_types :: "type_t list"
  fs_param_types :: "type_t list"
  fs_param_is_far :: "bool list"

record struct_sig =
  ss_name :: string
  ss_fields :: "field_t list"
  ss_aligned :: bool

record compiler =
  nir :: "nir list"
  nif :: "string list"
  scope :: "symbol_t list list"
  next_vreg :: int
  next_label :: int
  cerrors :: nat
  loop_depth :: int
  loop_break_label :: int
  loop_continue_label :: int
  src_file :: string
  last_emitted_line :: int
  next_const :: int
  cur_fn_returns :: "return_t list"
  cur_fn_is_bare :: bool
  fn_sigs :: "function_sig list"
  structs :: "struct_sig list"
  constants :: "(string \<times> int) list"
  isr_names :: "string list"
  addr_taken :: "string list"

text \<open>What ends the compiler: undefined behaviour of C while a constant is folded, a structure
  that contains itself (unbounded recursion), an array read out of range.\<close>

datatype comp_stop = Undefined_arithmetic | Unbounded_recursion | Bad_index

type_synonym 'a comp = "(compiler, comp_stop, 'a) prog"

definition emit_nir :: "nir \<Rightarrow> unit comp" where
  "emit_nir l = modify (\<lambda>C. C\<lparr>nir := nir C @ [l]\<rparr>)"

definition cerr :: "unit comp" where
  "cerr = modify (\<lambda>C. C\<lparr>cerrors := cerrors C + 1\<rparr>)"

definition cerr_if :: "bool \<Rightarrow> unit comp" where
  "cerr_if b = (if b then cerr else ret ())"

definition alloc_vreg :: "int comp" where
  "alloc_vreg = bnd (gets next_vreg) (\<lambda>v. andthen (modify (\<lambda>C. C\<lparr>next_vreg := v + 1\<rparr>)) (ret v))"

definition alloc_label :: "int comp" where
  "alloc_label = bnd (gets next_label) (\<lambda>l. andthen (modify (\<lambda>C. C\<lparr>next_label := l + 1\<rparr>)) (ret l))"

section \<open>Scopes\<close>

definition push_scope :: "unit comp" where
  "push_scope = modify (\<lambda>C. C\<lparr>scope := [] # scope C\<rparr>)"

definition pop_scope :: "unit comp" where
  "pop_scope = modify (\<lambda>C. C\<lparr>scope := tl (scope C)\<rparr>)"

definition lookup_in :: "symbol_t list list \<Rightarrow> string \<Rightarrow> symbol_t option" where
  "lookup_in sc nm = find (\<lambda>s. sy_name s = nm) (concat sc)"

definition sym_lookup :: "string \<Rightarrow> symbol_t option comp" where
  "sym_lookup nm = gets (\<lambda>C. lookup_in (scope C) nm)"

definition add_symbol :: "symbol_t \<Rightarrow> unit comp" where
  "add_symbol s = modify (\<lambda>C. C\<lparr>scope := (hd (scope C) @ [s]) # tl (scope C)\<rparr>)"

definition new_symbol :: "string \<Rightarrow> type_t option \<Rightarrow> int \<Rightarrow> symbol_t" where
  "new_symbol nm ty v =
     \<lparr>sy_name = take 63 nm, sy_type = ty, sy_vreg = v, sy_vreg_seg = -1, is_pinned = False, sy_pinned_reg = REG_NONE,
      sy_pin_class = REGCLASS_WORD, is_global = False, is_const = False, sy_has_at = False, sy_at_seg = 0, sy_at_off = 0,
      is_init_data = False, is_stack_local = False, stack_size = 0\<rparr>"

definition sym_add :: "string \<Rightarrow> type_t option \<Rightarrow> bool \<Rightarrow> symbol_t comp" where
  "sym_add nm ty glob =
     bnd alloc_vreg (\<lambda>v. let s = (new_symbol nm ty v)\<lparr>is_global := glob\<rparr> in andthen (add_symbol s) (ret s))"

definition wreg_name :: "int \<Rightarrow> string" where
  "wreg_name i = (if 0 \<le> i \<and> i < 8 then [''AX'', ''CX'', ''DX'', ''BX'', ''SP'', ''BP'', ''SI'', ''DI''] ! nat i else ''??'')"

definition breg_name :: "int \<Rightarrow> string" where
  "breg_name i = (if 0 \<le> i \<and> i < 8 then [''AL'', ''CL'', ''DL'', ''BL'', ''AH'', ''CH'', ''DH'', ''BH''] ! nat i else ''??'')"

definition sreg_name :: "int \<Rightarrow> string" where
  "sreg_name i = (if 0 \<le> i \<and> i < 4 then [''ES'', ''CS'', ''SS'', ''DS''] ! nat i else ''??'')"

definition flag_name :: "int \<Rightarrow> string" where
  "flag_name i = (if 0 \<le> i \<and> i < 9
     then [''CF'', ''PF'', ''AF'', ''ZF'', ''SF'', ''TF'', ''DF'', ''OF'', ''IF''] ! nat i else ''??'')"

definition reg_name_str :: "int \<Rightarrow> reg_class \<Rightarrow> string" where
  "reg_name_str i rc =
     (case rc of REGCLASS_WORD \<Rightarrow> wreg_name i | REGCLASS_BYTE \<Rightarrow> breg_name i
               | REGCLASS_SEG \<Rightarrow> sreg_name i | REGCLASS_FLAG \<Rightarrow> flag_name i)"

text \<open>The name tables of \<^verbatim>\<open>sym_add_pinned\<close> are read without a range test; any class beside
  word and byte is read as a segment register.\<close>

definition sym_add_pinned :: "type_t \<Rightarrow> int \<Rightarrow> reg_class \<Rightarrow> symbol_t comp" where
  "sym_add_pinned ty reg rc =
     (if reg < 0 \<or> reg \<ge> (if rc = REGCLASS_WORD \<or> rc = REGCLASS_BYTE then 8 else 4) then stop Bad_index
      else bnd alloc_vreg (\<lambda>v.
        let nm = (case rc of REGCLASS_WORD \<Rightarrow> wreg_name reg | REGCLASS_BYTE \<Rightarrow> breg_name reg | _ \<Rightarrow> sreg_name reg);
            s = (new_symbol nm (Some ty) v)\<lparr>is_pinned := True, sy_pinned_reg := reg, sy_pin_class := rc\<rparr>
        in andthen (add_symbol s) (ret s)))"

definition find_function_in :: "function_sig list \<Rightarrow> string \<Rightarrow> function_sig option" where
  "find_function_in fs nm = find (\<lambda>f. fs_name f = nm) fs"

definition find_function :: "string \<Rightarrow> function_sig option comp" where
  "find_function nm = gets (\<lambda>C. find_function_in (fn_sigs C) nm)"

text \<open>The signature and the name that is printed for an indirect call: the name itself, or the
  part behind the module name.\<close>

definition find_indirect_descriptor :: "string \<Rightarrow> string option \<Rightarrow> (function_sig option \<times> string) comp" where
  "find_indirect_descriptor nm modl =
     gets (\<lambda>C. case find_function_in (fn_sigs C) nm of
        Some f \<Rightarrow> (Some f, nm)
      | None \<Rightarrow>
          (case modl of
             None \<Rightarrow> (None, nm)
           | Some m \<Rightarrow>
               if m \<noteq> [] \<and> take (length m) nm = m \<and> length m < length nm \<and> nm ! length m = CHR ''_''
               then let local_name = drop (length m + 1) nm
                    in case find_function_in (fn_sigs C) local_name of
                         Some f \<Rightarrow> (Some f, local_name) | None \<Rightarrow> (None, nm)
               else (None, nm)))"

definition signature_of :: "string \<Rightarrow> type_t list \<Rightarrow> type_t list \<Rightarrow> function_sig" where
  "signature_of nm rets params =
     \<lparr>fs_name = take 63 nm, fs_nparams = int (length params),
      fs_nparams_ir = int (length params + length (filter (\<lambda>t. t = TYPE_FAR) params)),
      fs_return_type = (case rets of [] \<Rightarrow> None | r # _ \<Rightarrow> Some r), fs_return_types = rets, fs_param_types = params,
      fs_param_is_far = map (\<lambda>t. t = TYPE_FAR) params\<rparr>"

definition register_function_returns :: "string \<Rightarrow> type_t list \<Rightarrow> type_t list \<Rightarrow> unit comp" where
  "register_function_returns nm rets params = modify (\<lambda>C. C\<lparr>fn_sigs := fn_sigs C @ [signature_of nm rets params]\<rparr>)"

definition is_isr :: "string \<Rightarrow> bool comp" where
  "is_isr nm = gets (\<lambda>C. nm \<in> set (isr_names C))"

definition addr_taken_add :: "string \<Rightarrow> string list \<Rightarrow> string list" where
  "addr_taken_add nm names = (if nm \<in> set names then names else names @ [nm])"

section \<open>Constants\<close>

definition find_constant :: "(string \<times> int) list \<Rightarrow> string \<Rightarrow> int option" where
  "find_constant cs nm = map_of cs nm"

definition register_constant :: "string \<Rightarrow> int \<Rightarrow> unit comp" where
  "register_constant nm v = modify (\<lambda>C. C\<lparr>constants := constants C @ [(take 63 nm, v)]\<rparr>)"

text \<open>
  The folding of constants works on C \<^verbatim>\<open>int\<close>s: an overflow, a shift by a count outside 0 to
  31 and a left shift of a negative number are undefined behaviour.
\<close>

datatype const_val = NotConst | Const int | Undefined

definition const_int :: "int \<Rightarrow> const_val" where
  "const_int x = (if - (2 ^ 31) \<le> x \<and> x < 2 ^ 31 then Const x else Undefined)"

definition fold_binop :: "op_kind \<Rightarrow> int \<Rightarrow> int \<Rightarrow> const_val" where
  "fold_binop k l r =
     (case k of
        NIB_ADD \<Rightarrow> const_int (l + r)
      | NIB_SUB \<Rightarrow> const_int (l - r)
      | NIB_MUL \<Rightarrow> const_int (l * r)
      | NIB_DIV \<Rightarrow> if r = 0 then NotConst else const_int (l sdiv r)
      | NIB_MOD \<Rightarrow> if r = 0 then NotConst else if l = - (2 ^ 31) \<and> r = -1 then Undefined else const_int (l smod r)
      | NIB_AND \<Rightarrow> Const (l AND r)
      | NIB_OR \<Rightarrow> Const (l OR r)
      | NIB_XOR \<Rightarrow> Const (l XOR r)
      | NIB_SHL \<Rightarrow> if r < 0 \<or> r \<ge> 32 \<or> l < 0 then Undefined else const_int (l * 2 ^ nat r)
      | NIB_SHR \<Rightarrow> if r < 0 \<or> r \<ge> 32 then Undefined else Const (c_int (l mod 2 ^ 32 div 2 ^ nat r))
      | _ \<Rightarrow> NotConst)"

fun eval_const_expr :: "(string \<times> int) list \<Rightarrow> expr_t \<Rightarrow> const_val" where
  "eval_const_expr cs (EXPR_LIT_INT _ n) = Const n"
| "eval_const_expr cs (EXPR_IDENT _ nm) = (case find_constant cs nm of Some v \<Rightarrow> Const v | None \<Rightarrow> NotConst)"
| "eval_const_expr cs (EXPR_BINOP _ k l r) =
     (case eval_const_expr cs l of
        Const x \<Rightarrow> (case eval_const_expr cs r of Const y \<Rightarrow> fold_binop k x y | c \<Rightarrow> c)
      | c \<Rightarrow> c)"
| "eval_const_expr cs (EXPR_UNOP _ k e) =
     (case eval_const_expr cs e of
        Const x \<Rightarrow> (case k of NIB_NEG \<Rightarrow> const_int (- x) | NIB_NOT \<Rightarrow> Const (NOT x) | _ \<Rightarrow> NotConst)
      | c \<Rightarrow> c)"
| "eval_const_expr cs _ = NotConst"

definition eval_const :: "expr_t \<Rightarrow> int option comp" where
  "eval_const e = bnd (gets (\<lambda>C. eval_const_expr (constants C) e)) (\<lambda>c.
     case c of Const v \<Rightarrow> ret (Some v) | NotConst \<Rightarrow> ret None | Undefined \<Rightarrow> stop Undefined_arithmetic)"

definition require_const_expr :: "expr_t \<Rightarrow> int comp" where
  "require_const_expr e = bnd (eval_const e) (\<lambda>c. case c of Some v \<Rightarrow> ret v | None \<Rightarrow> andthen cerr (ret 0))"

fun resolve_type_constants :: "type_t \<Rightarrow> type_t comp" where
  "resolve_type_constants (TYPE_ARRAY el n sz) =
     bnd (case sz of Some e \<Rightarrow> require_const_expr e | None \<Rightarrow> ret n) (\<lambda>n'.
       case el of
         None \<Rightarrow> ret (TYPE_ARRAY None n' None)
       | Some t \<Rightarrow> bnd (resolve_type_constants t) (\<lambda>t'. ret (TYPE_ARRAY (Some t') n' None)))"
| "resolve_type_constants t = ret t"

end
