(* ===== verification/Bind_Read_Back.thy ===== *)
theory Bind_Read_Back
  imports Bind_Parse_Nir Compile_State
begin

text \<open>
  What the compiler prints, the binder reads: the lines that \<^verbatim>\<open>src/compile.c\<close> writes into a
  \<^verbatim>\<open>.nir\<close> file, read by \<^verbatim>\<open>parse_function\<close> of \<^verbatim>\<open>src/bind.c\<close>. The first part is
  about numbers and words, the second about the forms of instructions, the third about a whole body.
\<close>

section \<open>Numbers\<close>

lemma dec_digits_small: "n < 10 \<Longrightarrow> dec_digits n = [char_of (48 + n)]"
  by (subst dec_digits.simps) simp

lemma dec_digits_big: "10 \<le> n \<Longrightarrow> dec_digits n = dec_digits (n div 10) @ [char_of (48 + n mod 10)]"
  by (subst dec_digits.simps) simp

lemma digit_char: "(d :: nat) < 10 \<Longrightarrow> code (char_of (48 + d)) = 48 + d"
  by (simp add: code_def)

lemma digit_char_isdigit: "(d :: nat) < 10 \<Longrightarrow> isdigit (char_of (48 + d))"
  using digit_char [of d] by (simp add: isdigit_def)

lemma digit_char_val: "(d :: nat) < 10 \<Longrightarrow> digit_val (char_of (48 + d)) = Some d"
  using digit_char [of d] digit_char_isdigit [of d] by (simp add: digit_val_def)

lemma dec_digits_props:
  "dec_digits n \<noteq> [] \<and> (\<forall>c \<in> set (dec_digits n). isdigit c) \<and> digits_val 10 (dec_digits n) = int n"
proof (induction n rule: less_induct)
  case (less n)
  show ?case
  proof (cases "n < 10")
    case True
    then show ?thesis
      using digit_char_val [of n] digit_char_isdigit [of n] by (simp add: dec_digits_small digits_val_def)
  next
    case False
    have d: "n mod 10 < 10" by simp
    have IH: "dec_digits (n div 10) \<noteq> [] \<and> (\<forall>c \<in> set (dec_digits (n div 10)). isdigit c) \<and>
              digits_val 10 (dec_digits (n div 10)) = int (n div 10)"
      using False by (intro less.IH) simp
    have "n = n div 10 * 10 + n mod 10" by simp
    then have "int n = int (n div 10) * 10 + int (n mod 10)" by (metis of_nat_add of_nat_mult of_nat_numeral)
    with IH False digit_char_val [OF d] digit_char_isdigit [OF d] show ?thesis
      by (auto simp: dec_digits_big digits_val_def)
  qed
qed

lemma dec_digits_head: "0 < n \<Longrightarrow> hd (dec_digits n) \<noteq> CHR ''0''"
proof (induction n rule: less_induct)
  case (less n)
  show ?case
  proof (cases "n < 10")
    case True
    have "char_of (48 + n) = (CHR ''0'' :: char) \<Longrightarrow> code (char_of (48 + n)) = code (CHR ''0'')" by simp
    moreover have "code (CHR ''0'') = 48" by code_simp
    ultimately show ?thesis using True less.prems digit_char [of n] by (auto simp: dec_digits_small)
  next
    case False
    then have "hd (dec_digits (n div 10)) \<noteq> CHR ''0''" by (intro less.IH) simp_all
    with False dec_digits_props [of "n div 10"] show ?thesis by (simp add: dec_digits_big)
  qed
qed

definition no_digit :: "string \<Rightarrow> bool" where
  "no_digit r \<longleftrightarrow> r = [] \<or> \<not> isdigit (hd r)"

lemma take_digits:
  assumes "no_digit r"
  shows "takeWhile isdigit (dec_digits n @ r) = dec_digits n"
  using assms dec_digits_props [of n] by (subst takeWhile_append2) (auto simp: no_digit_def takeWhile_eq_Nil_iff)

definition is_vreg :: "int \<Rightarrow> bool" where
  "is_vreg v \<longleftrightarrow> 0 \<le> v \<and> v < 2 ^ 31"

lemma pct_not_ws: "ir_skip_ws (CHR 0x25 # p) = CHR 0x25 # p"
  by (simp add: ir_skip_ws_def)

lemma skip_blank: "ir_skip_ws (CHR '' '' # p) = ir_skip_ws p"
  by (simp add: ir_skip_ws_def)

lemma parse_vreg_blank [simp]: "parse_vreg (CHR '' '' # p) = parse_vreg p"
  by (simp add: parse_vreg_def skip_blank)

lemma parse_vreg_text [simp]:
  assumes "is_vreg v" "no_digit r"
  shows "parse_vreg (CHR 0x25 # dec_int v @ r) = (v, r)"
proof -
  have "dec_int v = dec_digits (nat v)" using assms(1) by (simp add: dec_int_def is_vreg_def)
  moreover have "digits_val 10 (dec_digits (nat v)) = v" using assms(1) dec_digits_props [of "nat v"] by (simp add: is_vreg_def)
  ultimately show ?thesis
    using assms take_digits [OF assms(2), of "nat v"] c_int_id [of v]
    by (simp add: parse_vreg_def pct_not_ws at_pct_def char_at_def is_vreg_def)
qed

lemma in_base_digits: "\<forall>c \<in> set (dec_digits n). in_base 10 c"
proof
  fix c assume "c \<in> set (dec_digits n)"
  then have "isdigit c" using dec_digits_props [of n] by blast
  then show "in_base 10 c" by (auto simp: in_base_def digit_val_def isdigit_def)
qed

definition fits_int :: "int \<Rightarrow> bool" where
  "fits_int n \<longleftrightarrow> - (2 ^ 31) \<le> n \<and> n < 2 ^ 31"

lemma digit_not_special: "isdigit c \<Longrightarrow> \<not> isspace c \<and> c \<noteq> CHR ''-'' \<and> c \<noteq> CHR ''+'' \<and> c \<noteq> CHR ''%''"
proof -
  assume d: "isdigit c"
  have "code (CHR ''-'') = 45 \<and> code (CHR ''+'') = 43 \<and> code (CHR ''%'') = 37" by code_simp
  then have "\<not> isdigit (CHR ''-'') \<and> \<not> isdigit (CHR ''+'') \<and> \<not> isdigit (CHR ''%'')" by (simp add: isdigit_def)
  with d show ?thesis by (auto simp: isdigit_def isspace_def)
qed

lemma strtol_digits:
  assumes "digits_val 10 ds = int m" "ds \<noteq> []" "\<forall>c \<in> set ds. isdigit c \<and> in_base 10 c" "int m < 2 ^ 62"
  shows "strtol 10 ds = (int m, [])" "strtol 10 (CHR ''-'' # ds) = (- int m, [])"
proof -
  obtain c cs where ds: "ds = c # cs" using assms(2) by (cases ds) auto
  have "\<not> isspace c \<and> c \<noteq> CHR ''-'' \<and> c \<noteq> CHR ''+''" using digit_not_special [of c] assms(3) ds by simp
  moreover have "takeWhile (in_base 10) ds = ds" using assms(3) by (simp add: takeWhile_eq_all_conv)
  moreover have "\<not> isspace (CHR ''-'')" by code_simp
  ultimately show "strtol 10 ds = (int m, [])" "strtol 10 (CHR ''-'' # ds) = (- int m, [])"
    using assms(1,4) by (auto simp: strtol_def Let_def ds char_at_def long_max_def long_min_def)
qed

lemma num_at_dec:
  assumes "fits_int n"
  shows "num_at (dec_int n) = n"
proof (cases "n = 0")
  case True
  have "num_at ''0'' = 0" by code_simp
  moreover have "dec_int 0 = ''0''" by code_simp
  ultimately show ?thesis using True by simp
next
  case False
  define m where "m = nat (abs n)"
  have m: "0 < m" "int m = abs n" using False by (auto simp: m_def)
  have ds: "dec_digits m \<noteq> []" "\<forall>c \<in> set (dec_digits m). isdigit c \<and> in_base 10 c" "digits_val 10 (dec_digits m) = int m"
    using dec_digits_props [of m] in_base_digits [of m] by auto
  have small: "int m < 2 ^ 62" using assms m(2) by (auto simp: fits_int_def)
  have tx: "dec_int n = (if n < 0 then CHR ''-'' # dec_digits m else dec_digits m)"
    by (simp add: dec_int_def m_def)
  obtain c cs where c: "dec_digits m = c # cs" using ds(1) by (cases "dec_digits m") auto
  have c0: "c \<noteq> CHR ''0''" "\<not> isspace c" "c \<noteq> CHR ''-''" "c \<noteq> CHR ''+''"
    using dec_digits_head [OF m(1)] c digit_not_special [of c] ds(2) by auto
  have "\<not> isspace (CHR ''-'')" by code_simp
  then have "base_of (dec_int n) = 10"
    using c0 by (simp add: base_of_def tx c char_at_def Let_def)
  then have "fst (strtol0 (dec_int n)) = n"
    using strtol_digits [OF ds(3,1,2) small] m(2) by (cases "n < 0") (simp_all add: strtol0_def tx)
  then show ?thesis using assms c_int_id [of n] by (simp add: num_at_def fits_int_def)
qed

section \<open>Words and separators\<close>

definition is_word :: "string \<Rightarrow> bool" where
  "is_word w \<longleftrightarrow> w \<noteq> [] \<and> length w < 64 \<and> (\<forall>c \<in> set w. word_char c \<and> c \<noteq> CHR '':'') \<and> hd w \<noteq> CHR 0x25"

definition no_word :: "string \<Rightarrow> bool" where
  "no_word r \<longleftrightarrow> r = [] \<or> \<not> word_char (hd r)"

lemma sep_chars [simp]:
  "\<not> isdigit (CHR '','')" "\<not> isdigit (CHR '' '')" "\<not> isdigit (CHR ''['')" "\<not> isdigit (CHR '']'')" "\<not> isdigit (CHR '':'')"
  "\<not> word_char (CHR '','')" "\<not> word_char (CHR '' '')" "\<not> word_char (CHR '']'')"
  "\<not> isalpha (CHR 0x00)" "\<not> isalpha (CHR ''%'')" "\<not> isdigit (CHR ''%'')" "\<not> isalpha (CHR '','')"
  by code_simp+

lemma no_digit_simps [simp]: "no_digit []" "no_digit (c # r) \<longleftrightarrow> \<not> isdigit c"
  by (simp_all add: no_digit_def)

lemma no_word_simps [simp]: "no_word []" "no_word (c # r) \<longleftrightarrow> \<not> word_char c"
  by (simp_all add: no_word_def)

lemma ws_simps [simp]:
  "ir_skip_ws [] = []" "ir_skip_ws (CHR '' '' # p) = ir_skip_ws p" "ir_skip_ws (CHR ''%'' # p) = CHR ''%'' # p"
  "ir_skip_ws (CHR '','' # p) = CHR '','' # p" "ir_skip_ws (CHR '']'' # p) = CHR '']'' # p" "ir_skip_ws (CHR ''['' # p) = CHR ''['' # p"
  by (simp_all add: ir_skip_ws_def)

lemma comma_simps [simp]:
  "skip_comma_ir [] = []" "skip_comma_ir (CHR '','' # p) = p" "skip_comma_ir (CHR '' '' # p) = skip_comma_ir p"
  "skip_comma_ir (CHR ''%'' # p) = CHR ''%'' # p" "skip_comma_ir (CHR '']'' # p) = CHR '']'' # p"
  by (simp_all add: skip_comma_ir_def skip_char_def)

lemma pct_simps [simp]: "\<not> at_pct []" "at_pct (c # p) \<longleftrightarrow> c = CHR ''%''"
  by (simp_all add: at_pct_def char_at_def)

lemma parse_vreg_bracket [simp]:
  "parse_vreg (CHR '']'' # p) = (-1, CHR '']'' # p)" "parse_vreg [] = (-1, [])"
  by (simp_all add: parse_vreg_def)

lemma word_no_ws:
  assumes "is_word w"
  shows "ir_skip_ws (w @ r) = w @ r"
proof -
  obtain c cs where w: "w = c # cs" using assms by (cases w) (auto simp: is_word_def)
  have "word_char c" using assms w by (simp add: is_word_def)
  then have "c \<noteq> CHR '' '' \<and> c \<noteq> CHR 0x09" by (auto simp: word_char_def isspace_def code_def)
  then show ?thesis by (simp add: w ir_skip_ws_def)
qed

lemma word_no_comma:
  assumes "is_word w"
  shows "skip_comma_ir (w @ r) = w @ r" "\<not> at_pct (w @ r)"
proof -
  obtain c cs where w: "w = c # cs" using assms by (cases w) (auto simp: is_word_def)
  have "word_char c" using assms w by (simp add: is_word_def)
  then have "c \<noteq> CHR '',''" by (auto simp: word_char_def)
  with word_no_ws [OF assms, of r] show "skip_comma_ir (w @ r) = w @ r"
    by (simp add: skip_comma_ir_def skip_char_def w)
  show "\<not> at_pct (w @ r)" using assms by (simp add: w is_word_def)
qed

lemma read_word_blank [simp]: "read_word (CHR '' '' # p) n = read_word p n"
  by (simp add: read_word_def)

lemma read_name_blank [simp]: "read_name (CHR '' '' # p) n = read_name p n"
  by (simp add: read_name_def)

lemma read_word_text:
  assumes "is_word w" "no_word r" "length w < n"
  shows "read_word (w @ r) n = (w, r)"
proof -
  have "takeWhile word_char (w @ r) = w"
    using assms(1,2) by (subst takeWhile_append2) (auto simp: is_word_def no_word_def takeWhile_eq_Nil_iff)
  then show ?thesis using assms(3) by (simp add: read_word_def word_no_ws [OF assms(1)])
qed

lemma read_name_text: "is_word w \<Longrightarrow> no_word r \<Longrightarrow> length w < n \<Longrightarrow> read_name (w @ r) n = w"
  by (simp add: read_name_def read_word_text)

lemmas word_texts = word_no_ws word_no_comma read_word_text read_name_text word_no_ws [where r = "[]", simplified]
  word_no_comma [where r = "[]", simplified] read_word_text [where r = "[]", simplified] read_name_text [where r = "[]", simplified]

section \<open>Operands\<close>

fun more :: "nir_opnd list \<Rightarrow> string" where
  "more [] = []"
| "more (x # xs) = CHR '','' # CHR '' '' # opnd_text x @ more xs"

lemma join_more: "join_comma (map opnd_text (x # xs)) = opnd_text x @ more xs"
proof (induction xs arbitrary: x)
  case (Cons y ys)
  then show ?case using Cons [of y] by simp
qed simp

lemma more_append [simp]: "more (xs @ ys) = more xs @ more ys"
  by (induction xs) simp_all

lemma more_ends [simp]: "no_digit (more xs)" "no_word (more xs)"
  by (cases xs; simp)+

lemma opnd_texts [simp]:
  "opnd_text (Vr v) = CHR ''%'' # dec_int v" "opnd_text (Im n) = dec_int n" "opnd_text (Nm s) = s"
  "opnd_text (Lb l) = ''.L'' @ dec_int l" "opnd_text (Ix a b) = CHR ''%'' # dec_int a @ CHR ''['' # CHR ''%'' # dec_int b @ '']''"
  by (simp_all add: opnd_text_def)

lemma vreg_list_more:
  assumes "\<forall>v \<in> set vs. is_vreg v" "no_digit r" "ir_skip_ws (skip_comma_ir r) = q" "\<not> at_pct q"
  shows "vreg_list (more (map Vr vs) @ r) = (vs, q)"
  using assms(1)
proof (induction vs)
  case Nil
  then show ?case using assms by (subst vreg_list.simps) (auto simp: Let_def)
next
  case (Cons v vs)
  have "no_digit (more (map Vr vs) @ r)" using assms(2) by (cases vs) simp_all
  with Cons show ?case by (subst vreg_list.simps) (simp add: Let_def)
qed

lemma vreg_list_args [simp]: "\<forall>v \<in> set vs. is_vreg v \<Longrightarrow> vreg_list (more (map Vr vs)) = (vs, [])"
  using vreg_list_more [of vs "[]" "[]"] by simp

lemma vreg_list_first:
  assumes "is_vreg v" "\<forall>v \<in> set vs. is_vreg v" "no_digit r" "ir_skip_ws (skip_comma_ir r) = q" "\<not> at_pct q"
  shows "vreg_list (CHR '' '' # CHR ''%'' # dec_int v @ more (map Vr vs) @ r) = (v # vs, q)"
proof -
  have "no_digit (more (map Vr vs) @ r)" using assms(3) by (cases vs) simp_all
  with assms vreg_list_more [OF assms(2-)] show ?thesis by (subst vreg_list.simps) (simp add: Let_def)
qed

section \<open>The line of an instruction\<close>

definition opnd_ok :: "nir_opnd \<Rightarrow> bool" where
  "opnd_ok x =
     (case x of Vr v \<Rightarrow> is_vreg v | Im n \<Rightarrow> fits_int n | Hx n \<Rightarrow> True | Nm s \<Rightarrow> is_word s | Lb l \<Rightarrow> True
      | Ix a b \<Rightarrow> is_vreg a \<and> is_vreg b)"

definition op_line :: "string \<Rightarrow> nir_opnd list \<Rightarrow> string" where
  "op_line n xs = (case xs of [] \<Rightarrow> n | y # ys \<Rightarrow> n @ CHR '' '' # opnd_text y @ more ys)"

definition op_rest :: "nir_opnd list \<Rightarrow> string" where
  "op_rest xs = (case xs of [] \<Rightarrow> [] | y # ys \<Rightarrow> CHR '' '' # opnd_text y @ more ys)"

lemma op_line_rest: "op_line n xs = n @ op_rest xs"
  by (simp add: op_line_def op_rest_def split: list.splits)

lemma nir_text_ins: "is_word n \<Longrightarrow> ir_skip_ws (nir_text (Ins n xs)) = op_line n xs"
  by (cases xs) (simp_all add: nir_text_def op_line_def join_more word_texts del: list.map)

lemma digit_no_colon: "isdigit c \<Longrightarrow> c \<noteq> CHR '':''"
  by auto

lemma dec_int_no_colon: "CHR '':'' \<notin> set (dec_int n)"
  using dec_digits_props [of "nat n"] dec_digits_props [of "nat (- n)"] by (auto simp: dec_int_def)

lemma opnd_no_colon: "opnd_ok x \<Longrightarrow> (\<forall>n. x \<noteq> Hx n) \<Longrightarrow> CHR '':'' \<notin> set (opnd_text x)"
  by (cases x) (auto simp: opnd_ok_def is_word_def dec_int_no_colon)

lemma more_no_colon: "\<forall>x \<in> set xs. opnd_ok x \<and> (\<forall>n. x \<noteq> Hx n) \<Longrightarrow> CHR '':'' \<notin> set (more xs)"
  by (induction xs) (auto dest: opnd_no_colon)

definition is_opname :: "string \<Rightarrow> bool" where
  "is_opname n \<longleftrightarrow> is_word n \<and> hd n \<noteq> CHR ''.'' \<and> hd n \<noteq> CHR '';'' \<and> n \<noteq> ''asm''"

lemma strneq_hd: "n \<noteq> [] \<Longrightarrow> hd n \<noteq> c \<Longrightarrow> 0 < k \<Longrightarrow> \<not> strneq (n @ r) (c # w) k"
  by (cases n; cases k) (auto simp: strneq_def)

lemma parse_line_op:
  assumes "is_opname n" "\<forall>x \<in> set xs. opnd_ok x \<and> (\<forall>k. x \<noteq> Hx k)"
  shows "parse_line (op_line n xs) s st =
         map_sum id (\<lambda>r. (add_insn st r, s)) (parse_op n (op_rest xs) (p_fn st))"
proof -
  have w: "is_word n" "n \<noteq> []" "hd n \<noteq> CHR ''.''" "n \<noteq> ''asm''" using assms(1) by (auto simp: is_opname_def is_word_def)
  have "CHR '':'' \<notin> set (op_line n xs)"
    using w(1) assms(2) opnd_no_colon more_no_colon by (cases xs) (auto simp: op_line_def is_word_def)
  then have "strchr (op_line n xs) (CHR '':'') = None"
    by (auto simp: strchr_def Let_def)
  then have nl: "\<not> is_label_line (op_line n xs)" by (simp add: is_label_line_def label_name_def)
  have nd: "\<not> strneq (op_line n xs) (CHR ''.'' # t) k" if "0 < k" for t k
    using strneq_hd [OF w(2,3) that, of "op_rest xs" t] by (simp add: op_line_rest)
  have "no_word (op_rest xs)" by (cases xs) (simp_all add: op_rest_def)
  then have "read_word (op_line n xs) 64 = (n, op_rest xs)"
    using read_word_text [OF w(1), of "op_rest xs" 64] w(1) by (simp add: op_line_rest is_word_def)
  then show ?thesis using nd nl w(4) by (simp add: parse_line_def parse_insn_def Let_def)
qed

section \<open>Forms of instructions\<close>

text \<open>What each printed form means: the operation and the fields of the binder's instruction that hold
  its operands. The relation says nothing of how a line is read.\<close>

definition arg_or :: "int list \<Rightarrow> nat \<Rightarrow> int" where
  "arg_or vs k = (if k < length vs then vs ! k else -1)"

definition with_args :: "int list \<Rightarrow> ir_insn \<Rightarrow> ir_insn" where
  "with_args vs i = i\<lparr>nargs := int (length vs), src1 := arg_or vs 0, src2 := arg_or vs 1, extra_args := drop 2 vs\<rparr>"

definition all_vregs :: "int list \<Rightarrow> bool" where
  "all_vregs vs \<longleftrightarrow> (\<forall>v \<in> set vs. is_vreg v)"

text \<open>The names that \<^verbatim>\<open>parse_function\<close> knows; any other is an operation.\<close>

definition reserved_ops :: "string list" where
  "reserved_ops =
     [''mov'', ''lea'', ''ret'', ''retval'', ''jmp'', ''jz'', ''call'', ''mcall'', ''icall'', ''ncall'', ''goto.fn'', ''tailcall'',
      ''ntailcall'', ''load'', ''loadb'', ''store'', ''storeb'', ''loadmem'', ''storemem'', ''field'', ''storefield'', ''bound'',
      ''setflag'', ''getflag'', ''toggleflag'', ''assume'', ''loop'', ''break'', ''continue'', ''frame_enter'', ''frame_leave'',
      ''int'', ''in'', ''inb'', ''out'', ''outb'', ''cbw'', ''zext'', ''xlat'', ''lods'', ''stos'', ''bext'', ''bins'', ''rol4'',
      ''ror4'', ''swap_flags'', ''brkem'', ''asm''] @ asm_ops @ cjmp_ops"

definition alu_name :: "string \<Rightarrow> bool" where
  "alu_name n \<longleftrightarrow> is_opname n \<and> n \<notin> set reserved_ops \<and> \<not> strneq n ''far.'' 4"

definition alu_op :: "string \<Rightarrow> ir_op" where
  "alu_op n = (if take 4 n = ''cmp.'' then IR_CMP else IR_ALU)"

inductive denotes :: "string \<Rightarrow> nir_opnd list \<Rightarrow> ir_insn \<Rightarrow> bool" where
  mov: "is_vreg d \<Longrightarrow> is_vreg a \<Longrightarrow> denotes ''mov'' [Vr d, Vr a] (ir_insn0\<lparr>op := IR_MOV, dst := d, src1 := a\<rparr>)"
| mov_imm: "is_vreg d \<Longrightarrow> fits_int n \<Longrightarrow> denotes ''mov'' [Vr d, Im n] (ir_insn0\<lparr>op := IR_MOV, dst := d, imm := n, has_imm := True\<rparr>)"
| mov_name: "is_vreg d \<Longrightarrow> is_word s \<Longrightarrow> s \<noteq> ''SEG'' \<Longrightarrow> hd s = CHR ''_'' \<or> isalpha (hd s) \<Longrightarrow>
    denotes ''mov'' [Vr d, Nm s] (ir_insn0\<lparr>op := IR_MOV, dst := d, iname := s\<rparr>)"
| lea: "is_vreg d \<Longrightarrow> is_vreg a \<Longrightarrow> denotes ''lea'' [Vr d, Vr a] (ir_insn0\<lparr>op := IR_LEA, dst := d, src1 := a\<rparr>)"
| return: "denotes ''ret'' [] (ir_insn0\<lparr>op := IR_RET\<rparr>)"
| return_values: "all_vregs (v # vs) \<Longrightarrow>
    denotes ''retval'' (map Vr (v # vs)) (ir_insn0\<lparr>op := IR_RETVAL, nrets := int (length (v # vs)), src1 := v, ret_vregs := vs\<rparr>)"
| jump: "is_word (opnd_text (Lb l)) \<Longrightarrow> denotes ''jmp'' [Lb l] (ir_insn0\<lparr>op := IR_JMP, iname := opnd_text (Lb l)\<rparr>)"
| jump_zero: "is_vreg c \<Longrightarrow> is_word (opnd_text (Lb l)) \<Longrightarrow>
    denotes ''jz'' [Vr c, Lb l] (ir_insn0\<lparr>op := IR_JZ, src1 := c, iname := opnd_text (Lb l)\<rparr>)"
| call: "is_vreg d \<Longrightarrow> is_word f \<Longrightarrow> all_vregs vs \<Longrightarrow>
    denotes ''call'' (Vr d # Nm f # map Vr vs) (with_args vs (ir_insn0\<lparr>op := IR_CALL, dst := d, iname := f\<rparr>))"
| call_many: "all_vregs (r # rs) \<Longrightarrow> is_word f \<Longrightarrow> all_vregs vs \<Longrightarrow>
    denotes ''mcall'' (map Vr (r # rs) @ Nm f # map Vr vs)
      (with_args vs (ir_insn0\<lparr>op := IR_MCALL, dst := r, ret_vregs := rs, nrets := int (length (r # rs)), iname := f\<rparr>))"
| call_pointer: "is_vreg d \<Longrightarrow> is_vreg a \<Longrightarrow> is_word f \<Longrightarrow> all_vregs vs \<Longrightarrow>
    denotes ''icall'' (Vr d # Vr a # Nm f # map Vr vs)
      (ir_insn0\<lparr>op := IR_ICALL, dst := d, src1 := a, iname := f, nargs := int (length vs), extra_args := vs\<rparr>)"
| call_far: "is_vreg d \<Longrightarrow> is_vreg a \<Longrightarrow> is_vreg b \<Longrightarrow> is_word f \<Longrightarrow> all_vregs vs \<Longrightarrow>
    denotes ''icall'' (Vr d # Vr a # Vr b # Nm f # map Vr vs)
      (ir_insn0\<lparr>op := IR_ICALL, dst := d, src1 := a, src2 := b, iname := f, nargs := int (length vs), extra_args := vs\<rparr>)"
| call_near: "is_vreg d \<Longrightarrow> is_vreg a \<Longrightarrow> is_word f \<Longrightarrow> all_vregs vs \<Longrightarrow>
    denotes ''ncall'' (Vr d # Vr a # Nm f # map Vr vs)
      (ir_insn0\<lparr>op := IR_NCALL, dst := d, src1 := a, iname := f, nargs := int (length vs), extra_args := vs\<rparr>)"
| tail_call: "is_word f \<Longrightarrow> all_vregs vs \<Longrightarrow>
    denotes ''tailcall'' (Nm f # map Vr vs) (with_args vs (ir_insn0\<lparr>op := IR_TAILCALL, iname := f\<rparr>))"
| tail_call_near: "is_vreg a \<Longrightarrow> is_word f \<Longrightarrow> all_vregs vs \<Longrightarrow>
    denotes ''ntailcall'' (Vr a # Nm f # map Vr vs)
      (ir_insn0\<lparr>op := IR_NTAILCALL, src1 := a, iname := f, nargs := int (length vs), extra_args := vs\<rparr>)"
| load: "is_vreg d \<Longrightarrow> is_vreg a \<Longrightarrow> denotes ''load'' [Vr d, Vr a] (ir_insn0\<lparr>op := IR_LOAD, dst := d, src1 := a\<rparr>)"
| load_index: "is_vreg d \<Longrightarrow> is_vreg a \<Longrightarrow> is_vreg b \<Longrightarrow>
    denotes ''load'' [Vr d, Ix a b] (ir_insn0\<lparr>op := IR_LOAD, dst := d, src1 := a, src2 := b\<rparr>)"
| store: "is_vreg a \<Longrightarrow> is_vreg v \<Longrightarrow> denotes ''store'' [Vr a, Vr v] (ir_insn0\<lparr>op := IR_STORE, dst := v, src1 := a\<rparr>)"
| store_index: "is_vreg a \<Longrightarrow> is_vreg b \<Longrightarrow> is_vreg v \<Longrightarrow>
    denotes ''store'' [Ix a b, Vr v] (ir_insn0\<lparr>op := IR_STORE, dst := v, src1 := a, src2 := b\<rparr>)"
| load_mem: "is_vreg d \<Longrightarrow> is_vreg a \<Longrightarrow> denotes ''loadmem'' [Vr d, Vr a] (ir_insn0\<lparr>op := IR_LOADMEM, dst := d, src1 := a\<rparr>)"
| load_mem_seg: "is_vreg d \<Longrightarrow> is_vreg a \<Longrightarrow> is_vreg b \<Longrightarrow>
    denotes ''loadmem'' [Vr d, Vr a, Vr b] (ir_insn0\<lparr>op := IR_LOADMEM, dst := d, src1 := a, src2 := b\<rparr>)"
| store_mem: "is_vreg a \<Longrightarrow> is_vreg v \<Longrightarrow> denotes ''storemem'' [Vr a, Vr v] (ir_insn0\<lparr>op := IR_STOREMEM, dst := a, src1 := v\<rparr>)"
| store_mem_seg: "is_vreg a \<Longrightarrow> is_vreg b \<Longrightarrow> is_vreg v \<Longrightarrow>
    denotes ''storemem'' [Vr a, Vr b, Vr v] (ir_insn0\<lparr>op := IR_STOREMEM, dst := a, src2 := b, src1 := v\<rparr>)"
| load_field: "is_vreg d \<Longrightarrow> is_vreg a \<Longrightarrow> is_word f \<Longrightarrow>
    denotes ''field'' [Vr d, Vr a, Nm f] (ir_insn0\<lparr>op := IR_FIELD, dst := d, src1 := a, iname := f\<rparr>)"
| store_field: "is_vreg a \<Longrightarrow> is_word f \<Longrightarrow> is_vreg v \<Longrightarrow>
    denotes ''storefield'' [Vr a, Nm f, Vr v] (ir_insn0\<lparr>op := IR_STOREFIELD, src1 := a, iname := f, src2 := v\<rparr>)"
| bound: "is_vreg a \<Longrightarrow> fits_int n \<Longrightarrow> denotes ''bound'' [Vr a, Im n] (ir_insn0\<lparr>op := IR_BOUND, src1 := a, imm := n, has_imm := True\<rparr>)"
| set_flag: "is_word f \<Longrightarrow> is_vreg v \<Longrightarrow> denotes ''setflag'' [Nm f, Vr v] (ir_insn0\<lparr>op := IR_SETFLAG, iname := f, src1 := v\<rparr>)"
| get_flag: "is_vreg d \<Longrightarrow> is_word f \<Longrightarrow> denotes ''getflag'' [Vr d, Nm f] (ir_insn0\<lparr>op := IR_GETFLAG, dst := d, iname := f\<rparr>)"
| toggle_flag: "is_word f \<Longrightarrow> denotes ''toggleflag'' [Nm f] (ir_insn0\<lparr>op := IR_TOGGLEFLAG, iname := f\<rparr>)"
| assume_cond: "is_vreg c \<Longrightarrow> denotes ''assume'' [Vr c] (ir_insn0\<lparr>op := IR_ASSUME, src1 := c\<rparr>)"
| widen: "n = ''cbw'' \<or> n = ''zext'' \<Longrightarrow> is_vreg d \<Longrightarrow> is_vreg a \<Longrightarrow>
    denotes n [Vr d, Vr a] (ir_insn0\<lparr>op := IR_UNARY, iname := n, dst := d, src1 := a\<rparr>)"
| alu: "alu_name n \<Longrightarrow> is_vreg d \<Longrightarrow> is_vreg a \<Longrightarrow> is_vreg b \<Longrightarrow>
    denotes n [Vr d, Vr a, Vr b] (ir_insn0\<lparr>op := alu_op n, iname := n, dst := d, src1 := a, src2 := b\<rparr>)"
| alu_imm: "alu_name n \<Longrightarrow> is_vreg d \<Longrightarrow> is_vreg a \<Longrightarrow> fits_int k \<Longrightarrow>
    denotes n [Vr d, Vr a, Im k] (ir_insn0\<lparr>op := alu_op n, iname := n, dst := d, src1 := a, imm := k, has_imm := True\<rparr>)"
| unary: "alu_name n \<Longrightarrow> is_vreg d \<Longrightarrow> is_vreg a \<Longrightarrow>
    denotes n [Vr d, Vr a] (ir_insn0\<lparr>op := IR_UNARY, iname := n, dst := d, src1 := a\<rparr>)"

definition op_reads :: "string \<Rightarrow> nir_opnd list \<Rightarrow> ir_insn \<Rightarrow> bool" where
  "op_reads n xs i \<longleftrightarrow> (\<forall>fn. \<exists>fn'. parse_op n (op_rest xs) fn = Inr (i, fn') \<and> insns fn' = insns fn)"

lemma insns_mark_vreg [simp]: "insns (mark_vreg f v fn) = insns fn"
  by (simp add: mark_vreg_def upd_vreg_def fn_ensure_vreg_def)

lemma insns_byte_if [simp]: "insns (byte_if b v fn) = insns fn"
  by (simp add: byte_if_def)

lemma dec_int_head:
  assumes "fits_int n"
  shows "\<exists>c r. dec_int n = c # r \<and> (c = CHR ''-'' \<or> isdigit c)"
proof -
  have "dec_digits m \<noteq> [] \<and> isdigit (hd (dec_digits m))" for m
    using dec_digits_props [of m] by (metis hd_in_set)
  then show ?thesis by (metis append_Cons append_Nil dec_int_def list.exhaust_sel)
qed

lemma dec_int_imm:
  assumes "fits_int n"
  shows "ir_skip_ws (dec_int n) = dec_int n" "\<not> at_pct (dec_int n)" "char_at (dec_int n) 0 = CHR ''-'' \<or> isdigit (char_at (dec_int n) 0)"
    "char_at (dec_int n) 0 \<noteq> CHR ''_''" "\<not> isalpha (char_at (dec_int n) 0)"
proof -
  obtain c r where c: "dec_int n = c # r" "c = CHR ''-'' \<or> isdigit c" using dec_int_head [OF assms] by blast
  have "c \<noteq> CHR '' '' \<and> c \<noteq> CHR 0x09 \<and> c \<noteq> CHR ''%'' \<and> c \<noteq> CHR ''_'' \<and> \<not> isalpha c"
  proof (cases "c = CHR ''-''")
    case True
    moreover have "\<not> isalpha (CHR ''-'')" by code_simp
    ultimately show ?thesis by simp
  next
    case False
    with c show ?thesis by (auto simp: isdigit_def isalpha_def isupper_def islower_def code_def)
  qed
  with c show "ir_skip_ws (dec_int n) = dec_int n" "\<not> at_pct (dec_int n)"
    "char_at (dec_int n) 0 = CHR ''-'' \<or> isdigit (char_at (dec_int n) 0)"
    "char_at (dec_int n) 0 \<noteq> CHR ''_''" "\<not> isalpha (char_at (dec_int n) 0)"
    by (auto simp: ir_skip_ws_def at_pct_def char_at_def)
qed

lemma is_vreg_ge: "is_vreg v \<Longrightarrow> 0 \<le> v"
  by (simp add: is_vreg_def)

lemma word_head:
  assumes "is_word w"
  shows "ir_skip_ws (w @ r) = w @ r" "char_at (w @ r) 0 = hd w"
  using assms by (simp_all add: word_no_ws) (cases w; simp add: is_word_def char_at_def)

lemmas form_defs = op_reads_def op_rest_def parse_op_def Let_def two_vregs_def three_vregs_def

lemma reads_moves:
  assumes "is_vreg d"
  shows "is_vreg a \<Longrightarrow> op_reads ''mov'' [Vr d, Vr a] (ir_insn0\<lparr>op := IR_MOV, dst := d, src1 := a\<rparr>)"
    and "fits_int n \<Longrightarrow> op_reads ''mov'' [Vr d, Im n] (ir_insn0\<lparr>op := IR_MOV, dst := d, imm := n, has_imm := True\<rparr>)"
    and "is_word s \<Longrightarrow> s \<noteq> ''SEG'' \<Longrightarrow> hd s = CHR ''_'' \<or> isalpha (hd s) \<Longrightarrow>
         op_reads ''mov'' [Vr d, Nm s] (ir_insn0\<lparr>op := IR_MOV, dst := d, iname := s\<rparr>)"
    and "is_vreg a \<Longrightarrow> op_reads ''lea'' [Vr d, Vr a] (ir_insn0\<lparr>op := IR_LEA, dst := d, src1 := a\<rparr>)"
proof -
  show "is_vreg a \<Longrightarrow> op_reads ''mov'' [Vr d, Vr a] (ir_insn0\<lparr>op := IR_MOV, dst := d, src1 := a\<rparr>)"
    using assms by (simp add: form_defs parse_mov_def parse_vreg_text [where r = "[]", simplified])
  show "fits_int n \<Longrightarrow> op_reads ''mov'' [Vr d, Im n] (ir_insn0\<lparr>op := IR_MOV, dst := d, imm := n, has_imm := True\<rparr>)"
    using assms dec_int_imm [of n] by (simp add: form_defs parse_mov_def num_at_dec ir_insn0_def)
  show "is_vreg a \<Longrightarrow> op_reads ''lea'' [Vr d, Vr a] (ir_insn0\<lparr>op := IR_LEA, dst := d, src1 := a\<rparr>)"
    using assms by (simp add: form_defs parse_lea_def parse_vreg_text [where r = "[]", simplified])
  assume w: "is_word s" "s \<noteq> ''SEG''" "hd s = CHR ''_'' \<or> isalpha (hd s)"
  have "read_name s 64 = s" using w(1) by (simp add: word_texts is_word_def)
  with assms w word_head [OF w(1), of "[]"] word_no_comma [OF w(1), of "[]"]
  show "op_reads ''mov'' [Vr d, Nm s] (ir_insn0\<lparr>op := IR_MOV, dst := d, iname := s\<rparr>)"
    by (simp add: form_defs parse_mov_def ir_insn0_def)
qed

lemma word64 [simp]:
  assumes "is_word w"
  shows "no_word r \<Longrightarrow> read_word (w @ r) 64 = (w, r)" "read_word w 64 = (w, [])"
    "no_word r \<Longrightarrow> read_name (w @ r) 64 = w" "read_name w 64 = w"
    "skip_comma_ir (w @ r) = w @ r" "skip_comma_ir w = w" "ir_skip_ws (w @ r) = w @ r" "ir_skip_ws w = w"
    "\<not> at_pct (w @ r)" "\<not> at_pct w"
  using assms word_no_comma [OF assms, of "[]"] word_no_ws [OF assms, of "[]"] read_word_text [OF assms, of "[]" 64]
  by (simp_all add: word_texts is_word_def)

lemma parse_vreg_end [simp]: "is_vreg v \<Longrightarrow> parse_vreg (CHR ''%'' # dec_int v) = (v, [])"
  using parse_vreg_text [of v "[]"] by simp

lemma set_args_with_args: "src1 i = -1 \<Longrightarrow> src2 i = -1 \<Longrightarrow> set_args vs i = with_args vs i"
  by (simp add: set_args_def with_args_def arg_or_def)

lemma reads_flow:
  shows "op_reads ''ret'' [] (ir_insn0\<lparr>op := IR_RET\<rparr>)"
    and "all_vregs (v # vs) \<Longrightarrow> op_reads ''retval'' (map Vr (v # vs))
           (ir_insn0\<lparr>op := IR_RETVAL, nrets := int (length (v # vs)), src1 := v, ret_vregs := vs\<rparr>)"
    and "is_word (opnd_text (Lb l)) \<Longrightarrow> op_reads ''jmp'' [Lb l] (ir_insn0\<lparr>op := IR_JMP, iname := opnd_text (Lb l)\<rparr>)"
    and "is_vreg c \<Longrightarrow> is_word (opnd_text (Lb l)) \<Longrightarrow>
           op_reads ''jz'' [Vr c, Lb l] (ir_insn0\<lparr>op := IR_JZ, src1 := c, iname := opnd_text (Lb l)\<rparr>)"
proof -
  show "op_reads ''ret'' [] (ir_insn0\<lparr>op := IR_RET\<rparr>)" by (simp add: form_defs)
  show "op_reads ''retval'' (map Vr (v # vs))
          (ir_insn0\<lparr>op := IR_RETVAL, nrets := int (length (v # vs)), src1 := v, ret_vregs := vs\<rparr>)" if v: "all_vregs (v # vs)"
    using v vreg_list_first [of v vs "[]" "[]"] by (simp add: form_defs parse_retval_def ir_insn0_def all_vregs_def)
  show "op_reads ''jmp'' [Lb l] (ir_insn0\<lparr>op := IR_JMP, iname := opnd_text (Lb l)\<rparr>)" if w: "is_word (opnd_text (Lb l))"
    using word64(4) [OF w] by (simp add: form_defs)
  show "op_reads ''jz'' [Vr c, Lb l] (ir_insn0\<lparr>op := IR_JZ, src1 := c, iname := opnd_text (Lb l)\<rparr>)"
    if "is_vreg c" and w: "is_word (opnd_text (Lb l))"
    using that(1) word64(4) [OF w] by (simp add: form_defs parse_jz_def)
qed

lemma reads_calls:
  assumes "is_word f" "all_vregs vs"
  shows "is_vreg d \<Longrightarrow> op_reads ''call'' (Vr d # Nm f # map Vr vs) (with_args vs (ir_insn0\<lparr>op := IR_CALL, dst := d, iname := f\<rparr>))"
    and "all_vregs (r # rs) \<Longrightarrow> op_reads ''mcall'' (map Vr (r # rs) @ Nm f # map Vr vs)
           (with_args vs (ir_insn0\<lparr>op := IR_MCALL, dst := r, ret_vregs := rs, nrets := int (length (r # rs)), iname := f\<rparr>))"
    and "op_reads ''tailcall'' (Nm f # map Vr vs) (with_args vs (ir_insn0\<lparr>op := IR_TAILCALL, iname := f\<rparr>))"
proof -
  have args: "\<forall>v \<in> set vs. is_vreg v" using assms(2) by (simp add: all_vregs_def)
  show "op_reads ''call'' (Vr d # Nm f # map Vr vs) (with_args vs (ir_insn0\<lparr>op := IR_CALL, dst := d, iname := f\<rparr>))" if "is_vreg d"
    using that assms(1) args by (simp add: form_defs parse_call_def set_args_with_args ir_insn0_def)
  show "op_reads ''tailcall'' (Nm f # map Vr vs) (with_args vs (ir_insn0\<lparr>op := IR_TAILCALL, iname := f\<rparr>))"
    using assms(1) args by (simp add: form_defs parse_tailcall_def set_args_with_args ir_insn0_def)
  assume rs: "all_vregs (r # rs)"
  define q where "q = f @ more (map Vr vs)"
  have q: "read_word q 64 = (f, more (map Vr vs))" "skip_comma_ir q = q" "ir_skip_ws q = q" "\<not> at_pct q"
    using assms(1) by (simp_all add: q_def)
  have l: "vreg_list (CHR '' '' # CHR ''%'' # dec_int r @ more (map Vr rs) @ CHR '','' # CHR '' '' # q) = (r # rs, q)"
    using rs q by (intro vreg_list_first) (simp_all add: all_vregs_def)
  have "op_rest (map Vr (r # rs) @ Nm f # map Vr vs) = CHR '' '' # CHR ''%'' # dec_int r @ more (map Vr rs) @ CHR '','' # CHR '' '' # q"
    by (simp add: op_rest_def q_def)
  then show "op_reads ''mcall'' (map Vr (r # rs) @ Nm f # map Vr vs)
          (with_args vs (ir_insn0\<lparr>op := IR_MCALL, dst := r, ret_vregs := rs, nrets := int (length (r # rs)), iname := f\<rparr>))"
    using args by (simp add: op_reads_def parse_op_def Let_def parse_mcall_def l q set_args_with_args ir_insn0_def)
qed

lemma reads_indirect_calls:
  assumes "is_vreg a" "is_word f" "all_vregs vs"
  shows "is_vreg d \<Longrightarrow> op_reads ''icall'' (Vr d # Vr a # Nm f # map Vr vs)
           (ir_insn0\<lparr>op := IR_ICALL, dst := d, src1 := a, iname := f, nargs := int (length vs), extra_args := vs\<rparr>)"
    and "is_vreg d \<Longrightarrow> is_vreg b \<Longrightarrow> op_reads ''icall'' (Vr d # Vr a # Vr b # Nm f # map Vr vs)
           (ir_insn0\<lparr>op := IR_ICALL, dst := d, src1 := a, src2 := b, iname := f, nargs := int (length vs), extra_args := vs\<rparr>)"
    and "is_vreg d \<Longrightarrow> op_reads ''ncall'' (Vr d # Vr a # Nm f # map Vr vs)
           (ir_insn0\<lparr>op := IR_NCALL, dst := d, src1 := a, iname := f, nargs := int (length vs), extra_args := vs\<rparr>)"
    and "op_reads ''ntailcall'' (Vr a # Nm f # map Vr vs)
           (ir_insn0\<lparr>op := IR_NTAILCALL, src1 := a, iname := f, nargs := int (length vs), extra_args := vs\<rparr>)"
  using assms
  by (simp_all add: form_defs parse_icall_def parse_ncall_def parse_ntailcall_def set_extra_args_def ir_insn0_def
      all_vregs_def)

lemma reads_memory:
  assumes "is_vreg a"
  shows "is_vreg d \<Longrightarrow> op_reads ''load'' [Vr d, Vr a] (ir_insn0\<lparr>op := IR_LOAD, dst := d, src1 := a\<rparr>)"
    and "is_vreg d \<Longrightarrow> is_vreg b \<Longrightarrow> op_reads ''load'' [Vr d, Ix a b] (ir_insn0\<lparr>op := IR_LOAD, dst := d, src1 := a, src2 := b\<rparr>)"
    and "is_vreg v \<Longrightarrow> op_reads ''store'' [Vr a, Vr v] (ir_insn0\<lparr>op := IR_STORE, dst := v, src1 := a\<rparr>)"
    and "is_vreg v \<Longrightarrow> is_vreg b \<Longrightarrow> op_reads ''store'' [Ix a b, Vr v] (ir_insn0\<lparr>op := IR_STORE, dst := v, src1 := a, src2 := b\<rparr>)"
    and "is_vreg d \<Longrightarrow> op_reads ''loadmem'' [Vr d, Vr a] (ir_insn0\<lparr>op := IR_LOADMEM, dst := d, src1 := a\<rparr>)"
    and "is_vreg d \<Longrightarrow> is_vreg b \<Longrightarrow> op_reads ''loadmem'' [Vr d, Vr a, Vr b] (ir_insn0\<lparr>op := IR_LOADMEM, dst := d, src1 := a, src2 := b\<rparr>)"
    and "is_vreg v \<Longrightarrow> op_reads ''storemem'' [Vr a, Vr v] (ir_insn0\<lparr>op := IR_STOREMEM, dst := a, src1 := v\<rparr>)"
    and "is_vreg v \<Longrightarrow> is_vreg b \<Longrightarrow> op_reads ''storemem'' [Vr a, Vr b, Vr v] (ir_insn0\<lparr>op := IR_STOREMEM, dst := a, src2 := b, src1 := v\<rparr>)"
  using assms
  by (simp_all add: form_defs parse_load_def parse_store_def parse_index_def skip_char_def parse_loadmem_def
      parse_storemem_def parse_storemem_vregs_def ir_insn0_def char_at_def)

lemma reads_fields:
  assumes "is_word f"
  shows "is_vreg d \<Longrightarrow> is_vreg a \<Longrightarrow> op_reads ''field'' [Vr d, Vr a, Nm f] (ir_insn0\<lparr>op := IR_FIELD, dst := d, src1 := a, iname := f\<rparr>)"
    and "is_vreg a \<Longrightarrow> is_vreg v \<Longrightarrow>
         op_reads ''storefield'' [Vr a, Nm f, Vr v] (ir_insn0\<lparr>op := IR_STOREFIELD, src1 := a, iname := f, src2 := v\<rparr>)"
    and "is_vreg v \<Longrightarrow> op_reads ''setflag'' [Nm f, Vr v] (ir_insn0\<lparr>op := IR_SETFLAG, iname := f, src1 := v\<rparr>)"
    and "is_vreg d \<Longrightarrow> op_reads ''getflag'' [Vr d, Nm f] (ir_insn0\<lparr>op := IR_GETFLAG, dst := d, iname := f\<rparr>)"
    and "op_reads ''toggleflag'' [Nm f] (ir_insn0\<lparr>op := IR_TOGGLEFLAG, iname := f\<rparr>)"
  using assms
  by (simp_all add: form_defs parse_field_def parse_storefield_def parse_setflag_def parse_getflag_def ir_insn0_def)

lemma reads_checks:
  assumes "is_vreg a"
  shows "fits_int n \<Longrightarrow> op_reads ''bound'' [Vr a, Im n] (ir_insn0\<lparr>op := IR_BOUND, src1 := a, imm := n, has_imm := True\<rparr>)"
    and "op_reads ''assume'' [Vr a] (ir_insn0\<lparr>op := IR_ASSUME, src1 := a\<rparr>)"
  using assms dec_int_imm [of n] num_at_dec [of n]
  by (simp_all add: form_defs parse_bound_def ir_insn0_def)

lemma reads_widen:
  assumes "is_vreg d" "is_vreg a"
  shows "op_reads ''cbw'' [Vr d, Vr a] (ir_insn0\<lparr>op := IR_UNARY, iname := ''cbw'', dst := d, src1 := a\<rparr>)"
    and "op_reads ''zext'' [Vr d, Vr a] (ir_insn0\<lparr>op := IR_UNARY, iname := ''zext'', dst := d, src1 := a\<rparr>)"
  using assms by (simp_all add: form_defs parse_op2_def ir_insn0_def asm_ops_def cjmp_ops_def strneq_def)

lemma parse_op_alu: "alu_name n \<Longrightarrow> parse_op n p fn = Inr (parse_alu n p, fn)"
  by (simp add: parse_op_def alu_name_def reserved_ops_def asm_ops_def cjmp_ops_def Let_def)

lemma alu_name_take: "alu_name n \<Longrightarrow> snprintf_s 64 n = n"
  by (simp add: alu_name_def is_opname_def is_word_def snprintf_s_def)

lemma alu_op_eq: "alu_or_cmp n = alu_op n"
  by (simp add: alu_or_cmp_def alu_op_def strneq_def)

lemma reads_alu:
  assumes "alu_name n" "is_vreg d" "is_vreg a"
  shows "is_vreg b \<Longrightarrow> op_reads n [Vr d, Vr a, Vr b] (ir_insn0\<lparr>op := alu_op n, iname := n, dst := d, src1 := a, src2 := b\<rparr>)"
    and "fits_int k \<Longrightarrow> op_reads n [Vr d, Vr a, Im k] (ir_insn0\<lparr>op := alu_op n, iname := n, dst := d, src1 := a, imm := k, has_imm := True\<rparr>)"
    and "op_reads n [Vr d, Vr a] (ir_insn0\<lparr>op := IR_UNARY, iname := n, dst := d, src1 := a\<rparr>)"
proof -
  have eq: "op_reads n xs i" if "parse_alu n (op_rest xs) = i" for xs i
    using that parse_op_alu [OF assms(1)] by (simp add: op_reads_def)
  note defs = parse_alu_def op_rest_def Let_def alu_name_take [OF assms(1)] alu_op_eq ir_insn0_def
  show "op_reads n [Vr d, Vr a, Vr b] (ir_insn0\<lparr>op := alu_op n, iname := n, dst := d, src1 := a, src2 := b\<rparr>)" if "is_vreg b"
    using assms that by (intro eq) (simp add: defs)
  show "op_reads n [Vr d, Vr a, Im k] (ir_insn0\<lparr>op := alu_op n, iname := n, dst := d, src1 := a, imm := k, has_imm := True\<rparr>)" if "fits_int k"
    using assms that dec_int_imm [OF that] num_at_dec [OF that] by (intro eq) (simp add: defs)
  have "char_at [] 0 \<noteq> CHR ''-'' \<and> \<not> isdigit (char_at [] 0)" by code_simp
  then show "op_reads n [Vr d, Vr a] (ir_insn0\<lparr>op := IR_UNARY, iname := n, dst := d, src1 := a\<rparr>)"
    using assms by (intro eq) (simp add: defs)
qed

lemma denotes_reads: "denotes n xs i \<Longrightarrow> op_reads n xs i"
proof (induction rule: denotes.induct)
  case (widen n d a)
  then show ?case using reads_widen by blast
next
  case (mov_name d s)
  then show ?case by (intro reads_moves(3))
qed (simp_all only: reads_moves reads_flow reads_calls reads_indirect_calls reads_memory reads_fields
    reads_checks reads_alu)

section \<open>A body\<close>

text \<open>The lines of a body of code; comments say nothing.\<close>

inductive line_denotes :: "nir \<Rightarrow> ir_insn list \<Rightarrow> bool" where
  instruction: "denotes n xs i \<Longrightarrow> line_denotes (Ins n xs) [i]"
| numbered_label: "is_word (opnd_text (Lb l)) \<Longrightarrow> line_denotes (NLabel l) [ir_insn0\<lparr>op := IR_LABEL, iname := opnd_text (Lb l)\<rparr>]"
| pin_comment: "line_denotes (NPin v r) []"
| note_comment: "hd n \<noteq> CHR ''@'' \<Longrightarrow> n \<noteq> [] \<Longrightarrow> line_denotes (NNote n xs) []"

definition plain_line :: "nir \<Rightarrow> bool" where
  "plain_line l \<longleftrightarrow> length (nir_text l) < 1023 \<and> CHR 0x0A \<notin> set (nir_text l) \<and> CHR 0x0D \<notin> set (nir_text l)"

definition as_read :: "parse_state \<Rightarrow> ir_insn \<Rightarrow> ir_insn" where
  "as_read st i = (if op i = IR_LABEL then i else attach_debug st i)"

definition printed :: "nir list \<Rightarrow> string" where
  "printed ls = concat (map (\<lambda>l. nir_text l @ [CHR 0x0A]) ls)"

lemma opnames: "\<forall>n \<in> set (take 48 reserved_ops). n = ''asm'' \<or> is_opname n"
  by code_simp

lemma opname_of: "n \<in> set (take 48 reserved_ops) \<Longrightarrow> n \<noteq> ''asm'' \<Longrightarrow> is_opname n"
  using opnames by blast

lemma denotes_opname: "denotes n xs i \<Longrightarrow> is_opname n"
  by (induction rule: denotes.induct) (auto simp: alu_name_def intro!: opname_of simp: reserved_ops_def)

lemma denotes_opnds: "denotes n xs i \<Longrightarrow> \<forall>x \<in> set xs. opnd_ok x \<and> (\<forall>k. x \<noteq> Hx k)"
  by (induction rule: denotes.induct) (auto simp: opnd_ok_def all_vregs_def)

lemma denotes_not_label: "denotes n xs i \<Longrightarrow> op i \<noteq> IR_LABEL"
  by (induction rule: denotes.induct) (auto simp: with_args_def alu_op_def)

lemma next_line_text:
  assumes "length l < 1023" "CHR 0x0A \<notin> set l"
  shows "next_line 1024 (l @ CHR 0x0A # r) = (l @ [CHR 0x0A], r)"
proof -
  define t where "t = take (1023 - length l) (CHR 0x0A # r)"
  have t: "take 1023 (l @ CHR 0x0A # r) = l @ t" "t = CHR 0x0A # take (1022 - length l) r"
    using assms(1) by (simp_all add: t_def take_Cons')
  have "takeWhile (\<lambda>c. c \<noteq> CHR 0x0A) (l @ t) = l"
    using assms(2) by (subst takeWhile_append2) (auto simp: t(2))
  then show ?thesis using t by (simp add: next_line_def fgets_one_def Let_def)
qed

lemma strip_eol_text: "CHR 0x0A \<notin> set l \<Longrightarrow> CHR 0x0D \<notin> set l \<Longrightarrow> strip_eol (l @ [CHR 0x0A]) = l"
  by (cases "rev l") (auto simp: strip_eol_def rev_swap dest: arg_cong [of _ _ set])

lemma insns_ensure [simp]: "insns (fn_ensure_vreg v fn) = insns fn"
  by (simp add: fn_ensure_vreg_def)

lemma insns_track [simp]: "insns (track_vregs i fn) = insns fn"
proof -
  have "insns (fold fn_ensure_vreg vs f) = insns f" for vs f
    by (induction vs arbitrary: f) simp_all
  then show ?thesis by (simp add: track_vregs_def)
qed

definition reads_line :: "nir \<Rightarrow> ir_insn list \<Rightarrow> bool" where
  "reads_line l is \<longleftrightarrow>
     (\<forall>r st. \<exists>st'. parse_body (nir_text l @ CHR 0x0A # r) st = parse_body r st' \<and>
        insns (p_fn st') = insns (p_fn st) @ map (as_read st) is \<and> as_read st' = as_read st)"

lemma parse_body_step:
  assumes "plain_line l"
  shows "parse_body (nir_text l @ CHR 0x0A # r) st =
     (let p = ir_skip_ws (nir_text l)
      in if p = [] then parse_body r st
         else if strneq p ''; @'' 3 then parse_body r (debug_line p st)
         else if hd p = CHR '';'' then parse_body r st
         else if strneq p ''.endfn'' 6 then Inr (st, r)
         else (case parse_line p r st of Inl e \<Rightarrow> Inl e | Inr (st, r) \<Rightarrow> parse_body r st))"
proof -
  have "length (nir_text l) < 1023" "CHR 0x0A \<notin> set (nir_text l)" "CHR 0x0D \<notin> set (nir_text l)"
    using assms by (auto simp: plain_line_def)
  then show ?thesis
    by (subst parse_body.simps) (simp add: next_line_text strip_eol_text Let_def)
qed

lemma reads_instruction:
  assumes "denotes n xs i" "plain_line (Ins n xs)"
  shows "reads_line (Ins n xs) [i]"
  unfolding reads_line_def
proof (intro allI)
  fix r :: string and st :: parse_state
  have n: "is_opname n" "is_word n" "n \<noteq> []" "hd n \<noteq> CHR ''.''" "hd n \<noteq> CHR '';''"
    using denotes_opname [OF assms(1)] by (auto simp: is_opname_def is_word_def)
  have p: "ir_skip_ws (nir_text (Ins n xs)) = op_line n xs" "op_line n xs = n @ op_rest xs"
    using nir_text_ins [OF n(2)] op_line_rest by auto
  obtain fn' where fn': "parse_op n (op_rest xs) (p_fn st) = Inr (i, fn')" "insns fn' = insns (p_fn st)"
    using denotes_reads [OF assms(1)] by (auto simp: op_reads_def)
  let ?st = "add_insn st (i, fn')"
  have "parse_line (op_line n xs) r st = Inr (?st, r)"
    using parse_line_op [OF n(1) denotes_opnds [OF assms(1)]] fn'(1) by simp
  then have "parse_body (nir_text (Ins n xs) @ CHR 0x0A # r) st = parse_body r ?st"
    using n p strneq_hd [OF n(3,5), of 3 "op_rest xs"] strneq_hd [OF n(3,4), of 6 "op_rest xs"]
    by (simp add: parse_body_step [OF assms(2)])
  moreover have "insns (p_fn ?st) = insns (p_fn st) @ [as_read st i] \<and> as_read ?st = as_read st"
    using fn'(2) denotes_not_label [OF assms(1)]
    by (auto simp: add_insn_def push_insn_def as_read_def attach_debug_def fun_eq_iff)
  ultimately show "\<exists>st'. parse_body (nir_text (Ins n xs) @ CHR 0x0A # r) st = parse_body r st' \<and>
      insns (p_fn st') = insns (p_fn st) @ map (as_read st) [i] \<and> as_read st' = as_read st" by auto
qed

lemma dot_l_line:
  shows "label_name (CHR ''.'' # CHR ''L'' # t) \<noteq> None \<Longrightarrow>
         parse_line (CHR ''.'' # CHR ''L'' # t) r st = Inr (parse_label (CHR ''.'' # CHR ''L'' # t) st, r)"
    and "\<not> strneq (CHR ''.'' # CHR ''L'' # t) ''; @'' 3" "\<not> strneq (CHR ''.'' # CHR ''L'' # t) ''.endfn'' 6"
  by (simp_all add: parse_line_def strneq_def is_label_line_def char_at_def Let_def)

lemma reads_label:
  assumes "is_word (opnd_text (Lb l))" "plain_line (NLabel l)"
  shows "reads_line (NLabel l) [ir_insn0\<lparr>op := IR_LABEL, iname := opnd_text (Lb l)\<rparr>]"
  unfolding reads_line_def
proof (intro allI)
  fix r :: string and st :: parse_state
  let ?i = "ir_insn0\<lparr>op := IR_LABEL, iname := opnd_text (Lb l)\<rparr>" and ?p = "nir_text (NLabel l)"
  have tx: "?p = CHR ''.'' # CHR ''L'' # dec_int l @ '':''" by (simp add: nir_text_def)
  have ln: "label_name ?p = Some (''.L'' @ dec_int l)"
  proof -
    have "dropWhile (\<lambda>c. c \<noteq> CHR '':'') (dec_int l @ '':'') = '':''" "takeWhile (\<lambda>c. c \<noteq> CHR '':'') (dec_int l @ '':'') = dec_int l"
      using dec_int_no_colon [of l] by (subst dropWhile_append2 takeWhile_append2; auto)+
    then show ?thesis by (simp add: label_name_def strchr_def tx Let_def)
  qed
  have ws: "ir_skip_ws ?p = ?p" by (simp add: tx ir_skip_ws_def)
  have nm: "snprintf_s 64 (''.L'' @ dec_int l) = opnd_text (Lb l)"
    using assms(1) by (simp add: is_word_def snprintf_s_def)
  let ?st = "parse_label ?p st"
  have "parse_line ?p r st = Inr (?st, r)"
    using ln unfolding tx by (intro dot_l_line(1)) simp
  then have "parse_body (?p @ CHR 0x0A # r) st = parse_body r ?st"
    using dot_l_line(2,3) [of "dec_int l @ '':''"] by (simp add: parse_body_step [OF assms(2)] ws Let_def) (simp add: tx)
  moreover have "insns (p_fn ?st) = insns (p_fn st) @ [as_read st ?i] \<and> as_read ?st = as_read st"
    using nm by (simp add: parse_label_def ln Let_def upd_p_fn_def push_insn_def as_read_def attach_debug_def fun_eq_iff)
  ultimately show "\<exists>st'. parse_body (?p @ CHR 0x0A # r) st = parse_body r st' \<and>
      insns (p_fn st') = insns (p_fn st) @ map (as_read st) [?i] \<and> as_read st' = as_read st"
    by (intro exI [of _ ?st]) simp
qed

lemma reads_comment:
  assumes "ir_skip_ws (nir_text l) = CHR '';'' # CHR '' '' # c # p" "c \<noteq> CHR ''@''" "plain_line l"
  shows "reads_line l []"
proof -
  have "parse_body (nir_text l @ CHR 0x0A # r) st = parse_body r st" for r st
    using assms(1,2) by (simp add: parse_body_step [OF assms(3)] strneq_def)
  then show ?thesis by (auto simp: reads_line_def)
qed

lemma line_denotes_reads:
  assumes "line_denotes l is" "plain_line l"
  shows "reads_line l is"
  using assms
proof (induction rule: line_denotes.induct)
  case (instruction n xs i)
  then show ?case by (rule reads_instruction)
next
  case (numbered_label l)
  then show ?case by (rule reads_label)
next
  case (pin_comment v r)
  then show ?case by (intro reads_comment) (auto simp: nir_text_def ir_skip_ws_def)
next
  case (note_comment n xs)
  then obtain c cs where "n = c # cs" by (cases n) auto
  with note_comment show ?case by (intro reads_comment) (auto simp: nir_text_def ir_skip_ws_def)
qed

lemma body_reads:
  assumes "list_all2 line_denotes ls iss" "\<forall>l \<in> set ls. plain_line l"
  shows "\<exists>st'. parse_body (printed ls @ r) st = parse_body r st' \<and>
           insns (p_fn st') = insns (p_fn st) @ map (as_read st) (concat iss)"
  using assms
proof (induction ls iss arbitrary: st rule: list_all2_induct)
  case Nil
  then show ?case by (auto simp: printed_def)
next
  case (Cons l ls js iss)
  have "reads_line l js" using Cons by (intro line_denotes_reads) simp_all
  then obtain st1 where s1: "parse_body (nir_text l @ CHR 0x0A # printed ls @ r) st = parse_body (printed ls @ r) st1"
      "insns (p_fn st1) = insns (p_fn st) @ map (as_read st) js" "as_read st1 = as_read st"
    by (auto simp: reads_line_def)
  obtain st2 where "parse_body (printed ls @ r) st1 = parse_body r st2"
      "insns (p_fn st2) = insns (p_fn st1) @ map (as_read st1) (concat iss)"
    using Cons.IH [of st1] Cons.prems by auto
  with s1 show ?case by (auto simp: printed_def)
qed

lemma endfn_ends: "parse_body ''.endfn'' st = Inr (st, [])"
proof -
  have "next_line 1024 ''.endfn'' = (''.endfn'', [])" "ir_skip_ws (strip_eol ''.endfn'') = ''.endfn''" by code_simp+
  then show ?thesis by (subst parse_body.simps) (simp add: Let_def strneq_def)
qed

text \<open>
  (C5) The binder reads back what the compiler prints: for every list of code lines whose instructions
  have one of the printed forms (moves, arithmetic, calls of all kinds, returns, jumps, loads and
  stores, flags), reading the text of the lines up to \<^verbatim>\<open>.endfn\<close> succeeds and appends exactly the
  instructions the lines denote, in order, each operand in its field; comments add nothing.
\<close>

theorem compiled_body_read_back:
  assumes "list_all2 line_denotes ls iss" "\<forall>l \<in> set ls. plain_line l"
  shows "\<exists>st'. parse_body (printed ls @ ''.endfn'') st = Inr (st', []) \<and>
           insns (p_fn st') = insns (p_fn st) @ map (as_read st) (concat iss)"
  using body_reads [OF assms, of "''.endfn''" st] endfn_ends by auto

definition sample_lines :: "nir list" where
  "sample_lines =
     [Ins ''mov'' [Vr 0, Im (-3)], NLabel 4, NPin 0 ''CX'', Ins ''add'' [Vr 1, Vr 0, Im 7], Ins ''cmp.lt'' [Vr 2, Vr 1, Vr 0],
      Ins ''jz'' [Vr 2, Lb 4], Ins ''call'' [Vr 3, Nm ''f'', Vr 0, Vr 1, Vr 2]]"

definition sample_insns :: "ir_insn list list" where
  "sample_insns =
     [[ir_insn0\<lparr>op := IR_MOV, dst := 0, imm := -3, has_imm := True\<rparr>], [ir_insn0\<lparr>op := IR_LABEL, iname := opnd_text (Lb 4)\<rparr>], [],
      [ir_insn0\<lparr>op := alu_op ''add'', iname := ''add'', dst := 1, src1 := 0, imm := 7, has_imm := True\<rparr>],
      [ir_insn0\<lparr>op := alu_op ''cmp.lt'', iname := ''cmp.lt'', dst := 2, src1 := 1, src2 := 0\<rparr>],
      [ir_insn0\<lparr>op := IR_JZ, src1 := 2, iname := opnd_text (Lb 4)\<rparr>],
      [with_args [0, 1, 2] (ir_insn0\<lparr>op := IR_CALL, dst := 3, iname := ''f''\<rparr>)]]"

lemma sample_denotes: "list_all2 line_denotes sample_lines sample_insns"
proof -
  have "denotes ''call'' (Vr 3 # Nm ''f'' # map Vr [0, 1, 2]) (with_args [0, 1, 2] (ir_insn0\<lparr>op := IR_CALL, dst := 3, iname := ''f''\<rparr>))"
    by (rule denotes.call; code_simp)
  moreover have "alu_name ''add'' \<and> alu_name ''cmp.lt'' \<and> is_word (opnd_text (Lb 4)) \<and> fits_int (-3) \<and> fits_int 7 \<and>
      is_vreg 0 \<and> is_vreg 1 \<and> is_vreg 2"
    by code_simp
  ultimately show ?thesis
    by (auto simp: sample_lines_def sample_insns_def simp del: opnd_texts intro!: line_denotes.intros denotes.intros)
qed

lemma compiled_body_read_back_witness:
  "\<exists>st'. parse_body (printed sample_lines @ ''.endfn'') (new_parse new_func 0) = Inr (st', []) \<and> length (insns (p_fn st')) = 6"
proof -
  have "\<forall>l \<in> set sample_lines. plain_line l" by code_simp
  with compiled_body_read_back [OF sample_denotes, of "new_parse new_func 0"] show ?thesis
    by (auto simp: sample_insns_def new_parse_def new_func_def)
qed

end
