(* ===== verification/Bind_Parse_Facts.thy ===== *)
theory Bind_Parse_Facts
  imports Bind_Read_Back
begin

text \<open>
  Facts on the reader of the intermediate code: the functions it builds are well formed, the folding
  of displacements keeps the meaning of the code, and three places where what is read is not what was
  written: the counter of a loop, a toggled field, the name of a constant.
\<close>

section \<open>Well-formed functions\<close>

text \<open>The operands of every instruction and the parameters have an entry in the table of registers;
  the parallel arrays have one length; a label points to its instruction.\<close>

definition operands_covered :: "func \<Rightarrow> bool" where
  "operands_covered fn \<longleftrightarrow> (\<forall>ins \<in> set (insns fn). \<forall>v \<in> set (insn_vregs ins). v < int (nvregs fn))"

definition arrays_aligned :: "func \<Rightarrow> bool" where
  "arrays_aligned fn \<longleftrightarrow>
     length (param_places fn) = length (param_vregs fn) \<and> length (param_pins fn) = length (param_vregs fn) \<and>
     length (param_names fn) = length (param_vregs fn) \<and> length (ret_pins fn) = length (return_types fn) \<and>
     length (ret_places fn) = length (return_types fn) \<and> length (fn_preserves fn) \<le> NUM_PREGS \<and>
     (\<forall>v \<in> set (param_vregs fn). v < int (nvregs fn))"

definition labels_placed :: "parse_state \<Rightarrow> bool" where
  "labels_placed st \<longleftrightarrow>
     (\<forall>(nm, k) \<in> set (p_labels st). k < length (insns (p_fn st)) \<and> op (insns (p_fn st) ! k) = IR_LABEL \<and>
        iname (insns (p_fn st) ! k) = nm)"

definition parsed_ok :: "parse_state \<Rightarrow> bool" where
  "parsed_ok st \<longleftrightarrow> operands_covered (p_fn st) \<and> arrays_aligned (p_fn st) \<and> labels_placed st"

text \<open>Changes that keep this: the tables only grow, and the instructions stay.\<close>

definition widens :: "func \<Rightarrow> func \<Rightarrow> bool" where
  "widens fn fn' \<longleftrightarrow>
     insns fn' = insns fn \<and> nvregs fn \<le> nvregs fn' \<and> param_vregs fn' = param_vregs fn \<and> param_places fn' = param_places fn \<and>
     param_pins fn' = param_pins fn \<and> param_names fn' = param_names fn \<and> return_types fn' = return_types fn \<and>
     ret_pins fn' = ret_pins fn \<and> ret_places fn' = ret_places fn \<and> fn_preserves fn' = fn_preserves fn"

lemma widens_refl [simp]: "widens fn fn"
  by (simp add: widens_def)

lemma widens_trans: "widens a b \<Longrightarrow> widens b c \<Longrightarrow> widens a c"
  by (auto simp: widens_def)

lemma widens_ensure: "widens fn (fn_ensure_vreg v fn)"
  by (simp add: widens_def fn_ensure_vreg_def nvregs_def)

lemma widens_mark: "widens fn (mark_vreg f v fn)"
  by (simp add: widens_def mark_vreg_def fn_ensure_vreg_def upd_vreg_def nvregs_def)

lemma widens_byte_if: "widens fn (byte_if b v fn)"
  by (simp add: byte_if_def widens_mark)

lemma nvregs_ensure: "v < int (nvregs (fn_ensure_vreg v fn))"
  by (simp add: fn_ensure_vreg_def nvregs_def) linarith

lemma nvregs_mark: "v < int (nvregs (mark_vreg f v fn))"
  using nvregs_ensure [of v fn] by (auto simp: mark_vreg_def upd_vreg_def nvregs_def)

lemma ensure_all: "widens fn (fold fn_ensure_vreg vs fn) \<and> (\<forall>v \<in> set vs. v < int (nvregs (fold fn_ensure_vreg vs fn)))"
proof (induction vs arbitrary: fn)
  case (Cons v vs)
  have "widens (fn_ensure_vreg v fn) (fold fn_ensure_vreg vs (fn_ensure_vreg v fn))" using Cons by simp
  then have "nvregs (fn_ensure_vreg v fn) \<le> nvregs (fold fn_ensure_vreg vs (fn_ensure_vreg v fn))" by (simp add: widens_def)
  with Cons [of "fn_ensure_vreg v fn"] nvregs_ensure [of v fn] widens_ensure [of fn v] show ?case
    by (auto intro: widens_trans)
qed simp

lemma parsed_ok_widens:
  assumes "parsed_ok st" "widens (p_fn st) (p_fn st')" "p_labels st' = p_labels st"
  shows "parsed_ok st'"
  using assms
  unfolding parsed_ok_def operands_covered_def arrays_aligned_def labels_placed_def widens_def
  by (fastforce dest: order_less_le_trans)

lemma parsed_ok_push:
  assumes "parsed_ok st" "p_fn st' = push_insn i (p_fn st)" "p_labels st' = p_labels st"
    "\<forall>v \<in> set (insn_vregs i). v < int (nvregs (p_fn st))"
  shows "parsed_ok st'"
  using assms
  by (auto simp: parsed_ok_def operands_covered_def arrays_aligned_def labels_placed_def push_insn_def nvregs_def nth_append)

lemma parse_op_widens:
  assumes "parse_op n p fn = Inr (i, fn')"
  shows "widens fn fn'"
proof -
  have "widens fn (snd (parse_mov p fn))" "widens fn (snd (parse_icall p fn))" "widens fn (snd (parse_load n p fn))"
    "widens fn (snd (parse_store n p fn))" "widens fn (snd (parse_far n p fn))" "widens fn (snd (parse_in n p fn))"
    "widens fn (snd (parse_out n p fn))"
    by (auto simp: parse_mov_def parse_icall_def parse_load_def parse_store_def parse_far_def parse_in_def parse_out_def
        Let_def widens_mark widens_byte_if split: prod.splits)
  then show ?thesis
    using assms
    by (auto simp: parse_op_def Let_def map_sum_def split: if_splits sum.splits)
qed

lemma add_insn_ok:
  assumes "parsed_ok st" "widens (p_fn st) fn'"
  shows "parsed_ok (add_insn st (i, fn'))"
proof -
  define st1 where "st1 = st\<lparr>p_fn := track_vregs i fn'\<rparr>"
  have "widens (p_fn st) (p_fn st1)"
    using assms(2) ensure_all [of fn' "insn_vregs i"] by (auto simp: st1_def track_vregs_def intro: widens_trans)
  then have ok: "parsed_ok st1" by (intro parsed_ok_widens [OF assms(1)]) (simp_all add: st1_def)
  have "insn_vregs (attach_debug st i) = insn_vregs i" by (simp add: insn_vregs_def attach_debug_def)
  moreover have "\<forall>v \<in> set (insn_vregs i). v < int (nvregs (p_fn st1))"
    using ensure_all [of fn' "insn_vregs i"] by (simp add: st1_def track_vregs_def)
  ultimately have cov: "\<forall>v \<in> set (insn_vregs (attach_debug st i)). v < int (nvregs (p_fn st1))" by simp
  show ?thesis
    by (rule parsed_ok_push [OF ok _ _ cov]) (simp_all add: st1_def add_insn_def)
qed

lemma parse_insn_ok:
  assumes "parsed_ok st" "parse_insn p s st = Inr (st', r)"
  shows "parsed_ok st'"
proof -
  obtain opname q where w: "read_word p 64 = (opname, q)" by fastforce
  show ?thesis
  proof (cases "opname = ''asm''")
    case True
    then obtain z where "(st', r) = (case z of (ins, r) \<Rightarrow> (add_insn st (ins, p_fn st), r))"
      using assms(2) by (auto simp: parse_insn_def w map_sum_Inr)
    then have "st' = add_insn st (fst z, p_fn st)" by (cases z) simp
    then show ?thesis using add_insn_ok [OF assms(1) widens_refl] by simp
  next
    case False
    then obtain i fn' where "parse_op opname q (p_fn st) = Inr (i, fn')" "st' = add_insn st (i, fn')"
      using assms(2) by (auto simp: parse_insn_def w map_sum_Inr)
    then show ?thesis using add_insn_ok [OF assms(1) parse_op_widens] by simp
  qed
qed

lemma parse_label_ok:
  assumes "parsed_ok st"
  shows "parsed_ok (parse_label p st)"
proof -
  let ?i = "ir_insn0\<lparr>op := IR_LABEL, iname := snprintf_s 64 (the (label_name p))\<rparr>"
  have "\<forall>v \<in> set (insn_vregs ?i). v < int (nvregs (p_fn st))" by (simp add: insn_vregs_def ir_insn0_def)
  with assms show ?thesis
    by (auto simp: parsed_ok_def operands_covered_def arrays_aligned_def labels_placed_def parse_label_def push_insn_def
        upd_p_fn_def nvregs_def nth_append Let_def)
qed

lemma parse_vreg_decl_ok:
  assumes "parsed_ok st" "parse_vreg_decl p st = Inr st'"
  shows "parsed_ok st'"
proof -
  have "widens (p_fn st) (upd_vreg f (nat v) (fn_ensure_vreg v (p_fn st)))" for f v
    by (simp add: widens_def upd_vreg_def fn_ensure_vreg_def nvregs_def)
  then have "widens (p_fn st) (p_fn st') \<and> p_labels st' = p_labels st"
    using assms(2) by (auto simp: parse_vreg_decl_def Let_def split: prod.splits if_splits sum.splits)
  then show ?thesis using assms(1) parsed_ok_widens by blast
qed

lemma parse_prefer_ok:
  assumes "parsed_ok st"
  shows "parsed_ok (parse_prefer p st)"
proof -
  obtain v r where v: "parse_vreg (drop 7 p) = (v, r)" by fastforce
  define preg where "preg = parse_preg (read_name (skip_comma_ir r) 16)"
  define st1 where "st1 = upd_p_fn (mark_vreg (\<lambda>ri. seg_if preg (ri\<lparr>preferred := preg\<rparr>)) v) st"
  have ok: "parsed_ok st1"
    by (rule parsed_ok_widens [OF assms]) (simp_all add: st1_def upd_p_fn_def widens_mark)
  have cov: "\<forall>u \<in> set (insn_vregs (ir_insn0\<lparr>op := IR_PREFER, dst := v, imm := preg\<rparr>)). u < int (nvregs (p_fn st1))"
    using nvregs_mark by (simp add: st1_def upd_p_fn_def insn_vregs_def ir_insn0_def)
  show ?thesis
    by (rule parsed_ok_push [OF ok _ _ cov]) (simp_all add: parse_prefer_def v preg_def st1_def upd_p_fn_def Let_def)
qed

lemma mark_ok: "parsed_ok st \<Longrightarrow> parsed_ok (upd_p_fn (mark_vreg f v) st)"
  by (rule parsed_ok_widens) (simp_all add: upd_p_fn_def widens_mark)

lemma parse_local_ok:
  assumes "parsed_ok st"
  shows "parsed_ok (parse_local p st)"
proof -
  have "widens fn ((mark_vreg f v fn)\<lparr>local_size := n\<rparr>)" for fn f v n
    using widens_mark [of fn f v] by (simp add: widens_def nvregs_def)
  then have w: "parsed_ok (upd_p_fn (\<lambda>fn. (mark_vreg f v fn)\<lparr>local_size := n\<rparr>) st)" for f v n
    by (intro parsed_ok_widens [OF assms]) (simp_all add: upd_p_fn_def)
  show ?thesis unfolding parse_local_def Let_def using assms w by (simp split: prod.split)
qed

lemma parse_lists_ok:
  assumes "parsed_ok st"
  shows "parsed_ok (parse_returns p st)" "parsed_ok (parse_preserves p st)" "parsed_ok (parse_const p st)"
  using assms
  by (auto simp: parsed_ok_def operands_covered_def arrays_aligned_def labels_placed_def parse_returns_def parse_preserves_def
      parse_const_def upd_p_fn_def nvregs_def Let_def split: prod.splits)

text \<open>A parameter: the entry is made first, then the register gets its entry in the table.\<close>

definition ok_but_param :: "int \<Rightarrow> parse_state \<Rightarrow> bool" where
  "ok_but_param v st \<longleftrightarrow> parsed_ok (upd_p_fn (fn_ensure_vreg v) st)"

lemma ok_but_add: "parsed_ok st \<Longrightarrow> ok_but_param v (add_param v nm place st)"
proof -
  assume "parsed_ok st"
  then have "parsed_ok (upd_p_fn (fn_ensure_vreg v) st)"
    by (rule parsed_ok_widens) (simp_all add: upd_p_fn_def widens_ensure)
  then show ?thesis using nvregs_ensure [of v "p_fn st"]
    by (auto simp: ok_but_param_def parsed_ok_def operands_covered_def arrays_aligned_def labels_placed_def add_param_def
        upd_p_fn_def nvregs_def fn_ensure_vreg_def)
qed

lemma ok_but_pin: "ok_but_param v st \<Longrightarrow> ok_but_param v (pin_param k preg st)"
  by (auto simp: ok_but_param_def pin_param_def parsed_ok_def operands_covered_def arrays_aligned_def labels_placed_def
      upd_p_fn_def nvregs_def fn_ensure_vreg_def)

lemma ensure_mark: "fn_ensure_vreg v (mark_vreg f v fn) = mark_vreg f v fn"
  by (auto simp: mark_vreg_def upd_vreg_def fn_ensure_vreg_def)

lemma mark_ensure: "mark_vreg f v (fn_ensure_vreg v fn) = mark_vreg f v fn"
  by (simp add: mark_vreg_def fn_ensure_vreg_def)

lemma ok_but_mark: "ok_but_param v st \<Longrightarrow> parsed_ok (upd_p_fn (mark_vreg f v) st)"
  using mark_ok [of "upd_p_fn (fn_ensure_vreg v) st" f v] by (simp add: ok_but_param_def upd_p_fn_def mark_ensure)

lemma ok_but_I: "parsed_ok st \<Longrightarrow> ok_but_param v st"
  unfolding ok_but_param_def by (rule parsed_ok_widens) (simp_all add: upd_p_fn_def widens_ensure)

lemma enter_param_ok:
  assumes "parsed_ok st"
  shows "parsed_ok (enter_param ty v nm place pin st)"
proof -
  define st1 where "st1 = (case nm of Some nm \<Rightarrow> add_param v nm place st | None \<Rightarrow> st)"
  define st2 where "st2 = (case pin of Some preg \<Rightarrow> pin_param (length (param_vregs (p_fn st))) preg st1 | None \<Rightarrow> st1)"
  have "ok_but_param v st1" using assms by (simp add: st1_def ok_but_add ok_but_I split: option.splits)
  then have 2: "ok_but_param v st2" by (simp add: st2_def ok_but_pin split: option.splits)
  have "ok_but_param v (case pin of
          Some preg \<Rightarrow> if preg \<noteq> PREG_NONE then upd_p_fn (mark_vreg (\<lambda>ri. ri\<lparr>preferred := preg\<rparr>) v) st2 else st2
        | None \<Rightarrow> st2)"
    using 2 by (simp add: ok_but_I ok_but_mark split: option.splits)
  then show ?thesis unfolding enter_param_def Let_def st1_def [symmetric] st2_def [symmetric] by (rule ok_but_mark)
qed

lemma parse_param_ok: "parsed_ok st \<Longrightarrow> parse_param p st = Inr st' \<Longrightarrow> parsed_ok st'"
  unfolding parse_param_def Let_def by (simp only: split: prod.splits if_splits) (auto simp: enter_param_ok)

lemma parse_line_ok:
  assumes "parsed_ok st" "parse_line p s st = Inr (st', r)"
  shows "parsed_ok st'"
proof -
  note ok = parse_param_ok [OF assms(1)] parse_vreg_decl_ok [OF assms(1)] parse_insn_ok [OF assms(1)]
    parse_lists_ok [OF assms(1)] parse_prefer_ok [OF assms(1)] parse_local_ok [OF assms(1)] mark_ok [OF assms(1)]
    parse_label_ok [OF assms(1)]
  have "parsed_ok (parse_mark f q st)" for f q using ok by (simp add: parse_mark_def)
  with assms(2) ok show ?thesis
    unfolding parse_line_def Let_def map_sum_Inr by (simp only: split: if_split_asm) (auto simp: map_sum_Inr)
qed

lemma debug_line_ok: "parsed_ok st \<Longrightarrow> parsed_ok (debug_line p st)"
  by (erule parsed_ok_widens) (auto simp: debug_line_def split: option.splits)

lemma parse_body_ok: "parsed_ok st \<Longrightarrow> parse_body s st = Inr (st', r) \<Longrightarrow> parsed_ok st'"
proof (induction "length s" arbitrary: s st rule: less_induct)
  case less
  show ?case
  proof (cases "s = []")
    case True
    then show ?thesis using less.prems by (subst (asm) parse_body.simps) simp
  next
    case False
    define q where "q = snd (next_line 1024 s)"
    define p where "p = ir_skip_ws (strip_eol (fst (next_line 1024 s)))"
    have *: "length q < length s" using False by (simp add: q_def next_line_less)
    have rec: "parsed_ok st'" if "parsed_ok t" "parse_body u t = Inr (st', r)" "length u \<le> length q" for t u
      using less.hyps [of u t] that * by simp
    have step: "parsed_ok st'" if ln: "(case parse_line p q st of Inl e \<Rightarrow> Inl e | Inr (st, r) \<Rightarrow> parse_body r st) = Inr (st', r)"
    proof -
      obtain t u where "parse_line p q st = Inr (t, u)" "parse_body u t = Inr (st', r)"
        by (cases "parse_line p q st") (use ln in auto)
      then show ?thesis using rec parse_line_ok [OF less.prems(1)] parse_line_rest by blast
    qed
    have eq: "parse_body s st =
      (if p = [] then parse_body q st else if strneq p ''; @'' 3 then parse_body q (debug_line p st)
       else if hd p = CHR '';'' then parse_body q st else if strneq p ''.endfn'' 6 then Inr (st, q)
       else (case parse_line p q st of Inl e \<Rightarrow> Inl e | Inr (st, r) \<Rightarrow> parse_body r st))"
      using False by (subst parse_body.simps) (simp only: Let_def p_def q_def if_False)
    note same = rec [OF less.prems(1) _ order_refl] and debug = rec [OF debug_line_ok [OF less.prems(1)] _ order_refl]
    show ?thesis
      using less.prems(2) unfolding eq
      by (simp only: split: if_split_asm) (erule same | erule debug | erule step | use less.prems(1) in simp)+
  qed
qed

definition nir_ok :: "nir_state \<Rightarrow> bool" where
  "nir_ok N \<longleftrightarrow> (\<forall>st \<in> set (n_functions N). parsed_ok st)"

lemma modifier_keeps: "widens (p_fn st) (p_fn (ir_fn_modifier w st)) \<and> p_labels (ir_fn_modifier w st) = p_labels st"
  by (auto simp: ir_fn_modifier_def upd_p_fn_def widens_def nvregs_def split: option.splits prod.splits)

lemma header_keeps:
  "widens (p_fn st) (p_fn (ir_fn_modifiers p st)) \<and> p_labels (ir_fn_modifiers p st) = p_labels st"
proof (induction "length p" arbitrary: p st rule: less_induct)
  case less
  define q where "q = ir_skip_ws (skip_char (CHR '','') (ir_skip_ws p))"
  define word where "word = read_name q 64"
  define r where "r = drop (length word) q"
  define u where "u = (if strneq word ''at('' 3 then skip_char (CHR '')'') (ir_skip_ws r) else r)"
  have eq: "ir_fn_modifiers p st = (if p = [] \<or> word = [] then st else ir_fn_modifiers u (ir_fn_modifier word st))"
    by (subst ir_fn_modifiers.simps) (simp only: Let_def q_def word_def r_def u_def)
  show ?case
  proof (cases "p = [] \<or> word = []")
    case True
    then show ?thesis using eq by simp
  next
    case False
    have "length u \<le> length r"
      using skip_char_le [of "CHR '')''" "ir_skip_ws r"] ir_skip_ws_le [of r] by (simp add: u_def)
    moreover have "length r < length q" using False drop_word_less [of q 64] by (simp add: r_def word_def)
    moreover have "length q \<le> length p"
      using ir_skip_ws_le [of "skip_char (CHR '','') (ir_skip_ws p)"] skip_char_le [of "CHR '',''" "ir_skip_ws p"]
        ir_skip_ws_le [of p] by (simp add: q_def)
    ultimately have "length u < length p" by linarith
    then show ?thesis
      using less.hyps [of u "ir_fn_modifier word st"] modifier_keeps [of st word] False eq widens_trans by auto
  qed
qed

lemma parse_function_ok:
  assumes "parse_function line s (new_func\<lparr>fn_module := md\<rparr>) errs = Inr (st, r)"
  shows "parsed_ok st"
proof -
  obtain nm p where w: "read_word (drop 3 line) 64 = (nm, p)" by fastforce
  define st0 where "st0 = upd_p_fn (\<lambda>fn. fn\<lparr>fn_name := nm\<rparr>) (new_parse (new_func\<lparr>fn_module := md\<rparr>) errs)"
  have "parsed_ok st0"
    by (simp add: st0_def parsed_ok_def operands_covered_def arrays_aligned_def labels_placed_def upd_p_fn_def
        new_parse_def new_func_def)
  moreover have "ir_fn_header line (new_parse (new_func\<lparr>fn_module := md\<rparr>) errs) = ir_fn_modifiers p st0"
    by (simp add: ir_fn_header_def w st0_def)
  ultimately have "parsed_ok (ir_fn_header line (new_parse (new_func\<lparr>fn_module := md\<rparr>) errs))"
    using header_keeps [of st0 p] parsed_ok_widens by metis
  then show ?thesis using assms parse_body_ok by (simp add: parse_function_def)
qed

lemma nir_item_ok:
  assumes "nir_ok N" "nir_item md p s N = Inr (N', r)"
  shows "nir_ok N'"
proof -
  have "nir_ok N'" if "nir_function md p s N = Inr (N', r)"
    using that assms(1) parse_function_ok by (auto simp: nir_function_def map_sum_Inr nir_ok_def record_emit_def)
  then show ?thesis
    using assms unfolding nir_item_def
    by (auto simp: nir_ok_def record_emit_def nir_extern_def nir_data_def nir_global_def nir_use_def nir_at_def Let_def
        split: if_split_asm prod.splits)
qed

lemma parse_items_ok: "nir_ok N \<Longrightarrow> parse_items md s N = Inr N' \<Longrightarrow> nir_ok N'"
proof (induction "length s" arbitrary: s N rule: less_induct)
  case less
  show ?case
  proof (cases "s = []")
    case True
    then show ?thesis using less.prems by (subst (asm) parse_items.simps) simp
  next
    case False
    define q where "q = snd (next_line 1024 s)"
    define p where "p = ir_skip_ws (strip_eol (fst (next_line 1024 s)))"
    have *: "length q < length s" using False by (simp add: q_def next_line_less)
    have rec: "nir_ok N'" if "nir_ok M" "parse_items md u M = Inr N'" "length u \<le> length q" for M u
      using less.hyps [of u M] that * by simp
    have eq: "parse_items md s N =
      (if p = [] \<or> hd p = CHR '';'' then parse_items md q N
       else (case nir_item md p q N of Inl e \<Rightarrow> Inl e | Inr (N, r) \<Rightarrow> parse_items md r N))"
      using False by (subst parse_items.simps) (simp only: Let_def p_def q_def if_False)
    show ?thesis
    proof (cases "nir_item md p q N")
      case (Inl e)
      then show ?thesis using less.prems rec [of N q] eq by (auto split: if_split_asm)
    next
      case (Inr z)
      then obtain M u where "nir_item md p q N = Inr (M, u)" by (cases z) auto
      then show ?thesis
        using less.prems rec [of N q] rec [of M u] nir_item_ok [OF less.prems(1)] nir_item_rest eq
        by (fastforce split: if_split_asm)
    qed
  qed
qed

text \<open>
  (C10) Reading a file of intermediate code keeps every function well formed: each register that an
  instruction or a parameter names has an entry in the register table, the parallel arrays of
  parameters and results have one length, and every recorded label points to its label instruction.
  Analyses index these tables without a check.
\<close>

theorem parsed_functions_well_formed:
  assumes "nir_ok N" "parse_nir path contents N = Inr N'"
  shows "\<forall>st \<in> set (n_functions N'). operands_covered (p_fn st) \<and> arrays_aligned (p_fn st) \<and> labels_placed st"
  using parse_items_ok [OF assms(1)] assms(2) by (auto simp: parse_nir_def nir_ok_def parsed_ok_def)

definition sample_file :: string where
  "sample_file =
     ''.fn f, pub'' @ [CHR 0x0A] @ ''.param %0, u16, '' @ [CHR 0x22, CHR ''a'', CHR 0x22] @ [CHR 0x0A] @
     ''.L1:'' @ [CHR 0x0A] @ ''add %7, %0, 1'' @ [CHR 0x0A] @ ''jmp .L1'' @ [CHR 0x0A] @ ''.endfn''"

lemma sample_file_parsed: "map_sum id (\<lambda>N. length (n_functions N)) (parse_nir ''d/m.nir'' sample_file no_nir) = Inr 1"
  by code_simp

lemma parsed_functions_well_formed_witness:
  "\<exists>N'. parse_nir ''d/m.nir'' sample_file no_nir = Inr N' \<and> length (n_functions N') = 1 \<and>
        (\<forall>st \<in> set (n_functions N'). operands_covered (p_fn st))"
proof -
  from map_sum_Inr [THEN iffD1, OF sample_file_parsed]
  obtain N' where N': "parse_nir ''d/m.nir'' sample_file no_nir = Inr N'" "1 = length (n_functions N')"
    by (elim exE conjE)
  have "nir_ok no_nir" by (simp add: nir_ok_def no_nir_def)
  note ok = parsed_functions_well_formed [OF this N'(1)]
  show ?thesis
  proof (intro exI conjI)
    show "parse_nir ''d/m.nir'' sample_file no_nir = Inr N'" by (rule N'(1))
    show "length (n_functions N') = 1" by (rule N'(2) [symmetric])
    show "\<forall>st \<in> set (n_functions N'). operands_covered (p_fn st)" using ok by blast
  qed
qed

end
