(* ===== verification/Bind_Read_Gaps.thy ===== *)
theory Bind_Read_Gaps
  imports Bind_Read_Back
begin

text \<open>
  Where the reader of the intermediate code does not take what the compiler wrote: the counter of a
  counted loop is not read, a toggled field is read as a move, a label that begins with an underscore
  is read as an instruction, and the label of a constant is cut shorter where it is defined than where
  it is used.
\<close>

section \<open>The counter of a loop\<close>

lemma reads_loop:
  assumes "is_word (opnd_text (Lb l))"
  shows "op_reads ''loop'' [Lb l, Vr v] (ir_insn0\<lparr>op := IR_LOOP, iname := opnd_text (Lb l)\<rparr>)"
proof -
  have "no_word (CHR '','' # CHR '' '' # CHR ''%'' # dec_int v)" by simp
  with assms have "read_name (opnd_text (Lb l) @ CHR '','' # CHR '' '' # CHR ''%'' # dec_int v) 64 = opnd_text (Lb l)"
    by (intro word64(3))
  then show ?thesis
    by (simp add: form_defs parse_loop_def skip_comma_ir_def skip_char_def ir_skip_ws_def)
qed

text \<open>A function as the compiler writes it for a counted loop whose body shifts by a variable amount.\<close>

definition counted_shift :: "nir list" where
  "counted_shift =
     [Ins ''mov'' [Vr 0, Im 1], NPrefer 1 ''CX'', Ins ''mov'' [Vr 1, Im 3], NLabel 0, Ins ''mov'' [Vr 2, Im 5],
      Ins ''shl'' [Vr 0, Vr 0, Vr 2], Ins ''loop'' [Lb 0, Vr 1], NLabel 1, Ins ''retval'' [Vr 0], Ins ''ret'' []]"

definition counted_source :: string where
  "counted_source = printed counted_shift @ ''.endfn''"

text \<open>The function that is read, and the registers that it is given.\<close>

definition counted_fn :: func where
  "counted_fn = new_func\<lparr>fn_name := ''f'', is_pub := True,
     insns := [ir_insn0\<lparr>op := IR_MOV, dst := 0, imm := 1, has_imm := True\<rparr>, ir_insn0\<lparr>op := IR_PREFER, dst := 1, imm := PREG_CX\<rparr>,
       ir_insn0\<lparr>op := IR_MOV, dst := 1, imm := 3, has_imm := True\<rparr>, ir_insn0\<lparr>op := IR_LABEL, iname := ''.L0''\<rparr>,
       ir_insn0\<lparr>op := IR_MOV, dst := 2, imm := 5, has_imm := True\<rparr>,
       ir_insn0\<lparr>op := IR_ALU, dst := 0, src1 := 0, src2 := 2, iname := ''shl''\<rparr>, ir_insn0\<lparr>op := IR_LOOP, iname := ''.L0''\<rparr>,
       ir_insn0\<lparr>op := IR_LABEL, iname := ''.L1''\<rparr>, ir_insn0\<lparr>op := IR_RETVAL, src1 := 0, nrets := 1\<rparr>, ir_insn0\<lparr>op := IR_RET\<rparr>],
     vregs := [init_vreg_info, init_vreg_info\<lparr>preferred := PREG_CX\<rparr>, init_vreg_info]\<rparr>"

definition counted_program :: nib_program where
  "counted_program =
     \<lparr>prog_functions = [counted_fn], externs = [],
      fn_assigns = [\<lparr>fa_param_regs = [], fa_param_places = [], fa_param_stack_offsets = [],
                      fa_return_reg = PREG_NONE, fa_return_regs = [], fa_return_places = [], fa_return_stack_offsets = [],
                      fa_resolved = True, fa_clobbers = replicate NUM_PREGS False\<rparr>]\<rparr>"

definition assigned_registers :: "func \<Rightarrow> int list option" where
  "assigned_registers fn =
     (let B = fst (resolve_calls \<lparr>prog_functions = [fn], externs = [], fn_assigns = []\<rparr>)
      in map_option (\<lambda>g. map assigned (vregs g)) (allocate_function B (prog_functions B ! 0)))"

lemma counted_source_read: "map_sum id (\<lambda>z. (p_fn (fst z), snd z)) (parse_function ''.fn f, pub'' counted_source new_func 0) = Inr (counted_fn, [])"
  by code_simp

lemma counted_fn_resolved: "fst (resolve_calls \<lparr>prog_functions = [counted_fn], externs = [], fn_assigns = []\<rparr>) = counted_program"
  by code_simp

lemma counted_program_allocated:
  "map_option (\<lambda>g. map assigned (vregs g)) (allocate_function counted_program (prog_functions counted_program ! 0)) =
   Some [PREG_SI, PREG_CX, PREG_CL]"
  by code_simp

lemma counted_fn_registers: "assigned_registers counted_fn = Some [PREG_SI, PREG_CX, PREG_CL]"
  by (simp only: assigned_registers_def counted_fn_resolved Let_def counted_program_allocated)


section \<open>A toggled field\<close>

lemma num_at_name:
  assumes "nm \<noteq> []" "isalpha (hd nm) \<or> hd nm = CHR ''_''"
  shows "num_at (nm @ r) = 0"
proof -
  obtain c cs where nm: "nm = c # cs" using assms(1) by (cases nm) auto
  have c: "isalpha c \<or> c = CHR ''_''" using assms(2) nm by simp
  have codes: "code (CHR ''-'') = 45 \<and> code (CHR ''+'') = 43 \<and> code (CHR ''0'') = 48 \<and> code (CHR ''_'') = 95" by code_simp
  have "65 \<le> code c" using c codes by (auto simp: isalpha_def isupper_def islower_def)
  then have "c \<noteq> CHR ''-''" "c \<noteq> CHR ''+''" "c \<noteq> CHR ''0''" "\<not> isspace c" "\<not> in_base 10 c"
    using codes by (auto simp: isspace_def in_base_def digit_val_def isdigit_def islower_def isupper_def)
  then have "base_of (nm @ r) = 10" "strtol 10 (nm @ r) = (0, nm @ r)"
    by (simp_all add: base_of_def strtol_def nm char_at_def Let_def)
  moreover have "c_int 0 = 0" by (simp add: c_int_def)
  ultimately show ?thesis by (simp add: num_at_def strtol0_def)
qed

text \<open>
  (C39) A toggled field is read as a move of zero: the line that the compiler writes for the toggling
  assignment of a field is read as the move of 0 into the register of the object, so that the address
  of the object is lost and the field keeps its value.
\<close>

theorem togglefield_clears_object:
  assumes "is_vreg d" "is_vreg v" "is_word f" "isalpha (hd f) \<or> hd f = CHR ''_''"
  shows "op_reads ''togglefield'' [Vr d, Nm f, Vr v]
           (ir_insn0\<lparr>op := IR_MOV, iname := ''togglefield'', dst := d, imm := 0, has_imm := True\<rparr>)"
proof -
  have n: "alu_name ''togglefield''" by code_simp
  have f: "f \<noteq> []" using assms(3) by (simp add: is_word_def)
  define r where "r = CHR '','' # CHR '' '' # CHR ''%'' # dec_int v"
  have t: "ir_skip_ws (f @ r) = f @ r" "\<not> at_pct (f @ r)" "num_at (f @ r) = 0"
    using assms(3) num_at_name [OF f assms(4)] by simp_all
  have rest: "op_rest [Vr d, Nm f, Vr v] = CHR '' '' # CHR ''%'' # dec_int d @ CHR '','' # CHR '' '' # f @ r"
    by (simp add: op_rest_def r_def)
  have "parse_alu ''togglefield'' (op_rest [Vr d, Nm f, Vr v]) =
        ir_insn0\<lparr>op := IR_MOV, iname := ''togglefield'', dst := d, imm := 0, has_imm := True\<rparr>"
    using assms(1) by (simp add: parse_alu_def rest Let_def t snprintf_s_def)
  then show ?thesis using parse_op_alu [OF n] by (simp add: op_reads_def)
qed

lemma togglefield_clears_object_witness:
  "op_reads ''togglefield'' [Vr 4, Nm ''flag'', Vr 5]
     (ir_insn0\<lparr>op := IR_MOV, iname := ''togglefield'', dst := 4, imm := 0, has_imm := True\<rparr>)"
  by (rule togglefield_clears_object; code_simp)

section \<open>The label of a constant\<close>

text \<open>
  (C40) The label under which a constant is defined is the label under which instructions refer to it
  exactly when the name of the function and the name of the constant together have fewer than 31
  characters: the definition keeps 31 characters, the reference 63.
\<close>

theorem const_label_matches_reference:
  assumes "take 2 raw = ''_C''"
  shows "resolve_const_label fn raw = Some (const_label fn raw) \<longleftrightarrow> length (fn_asm_name fn) + length raw < 31"
proof -
  define s where "s = fn_asm_name fn @ ''_'' @ raw"
  have "length (take 63 s) = length (take 31 s) \<longleftrightarrow> length s \<le> 31" by auto
  then have "take 63 s = take 31 s \<longleftrightarrow> length s \<le> 31" using take_all [of s 31] take_all [of s 63] by fastforce
  then show ?thesis
    using assms by (simp add: resolve_const_label_def const_label_def snprintf_s_def s_def) linarith
qed

lemma const_label_matches_reference_witness:
  "resolve_const_label (new_func\<lparr>fn_name := ''initialise_the_display_memory''\<rparr>) ''_C0'' \<noteq>
   Some (const_label (new_func\<lparr>fn_name := ''initialise_the_display_memory''\<rparr>) ''_C0'')"
proof -
  have "take 2 ''_C0'' = ''_C''"
    "\<not> length (fn_asm_name (new_func\<lparr>fn_name := ''initialise_the_display_memory''\<rparr>)) + length ''_C0'' < 31"
    by code_simp+
  then show ?thesis using const_label_matches_reference by blast
qed

section \<open>Labels that begin with an underscore\<close>

lemma underscore_label_is_instruction:
  "map_sum id (\<lambda>(st, r). map (\<lambda>i. (op i, iname i)) (insns (p_fn st)))
     (parse_line ''_again:'' [] (new_parse new_func 0)) = Inr [(IR_MOV, ''_again:'')]"
  by code_simp

end
