(* ===== verification/Bind_Displacement.thy ===== *)
theory Bind_Displacement
  imports Bind_Parse_Nir
begin

text \<open>
  The folding of a constant addition into the memory access that follows it
  (\<^verbatim>\<open>fold_memory_displacements\<close> of \<^verbatim>\<open>src/bind.c\<close>): the pair of instructions and the
  single access that replaces it have the same effect on the memory and on every register but the
  address, and no instruction reads the address any more.
\<close>

section \<open>Effects of the instructions\<close>

text \<open>The machine as the pair sees it: the values of the virtual registers and a memory of any kind,
  read and written at a segment and an offset of 16 bits. How a segment is chosen and how wide an
  access is depend only on the instruction.\<close>

type_synonym vreg_values = "int \<Rightarrow> 16 word"

definition offset_of :: "ir_insn \<Rightarrow> vreg_values \<Rightarrow> 16 word" where
  "offset_of ins R = R (addr_of_mem ins) + (if has_mem_disp ins then of_int (mem_disp ins) else 0)"

definition segment_of :: "ir_insn \<Rightarrow> vreg_values \<Rightarrow> int \<times> 16 word option" where
  "segment_of ins R = (mem_seg ins, if src2 ins \<ge> 0 then Some (R (src2 ins)) else None)"

definition step_ins ::
  "('m \<Rightarrow> int \<times> 16 word option \<Rightarrow> 16 word \<Rightarrow> int \<Rightarrow> 16 word) \<Rightarrow>
   ('m \<Rightarrow> int \<times> 16 word option \<Rightarrow> 16 word \<Rightarrow> int \<Rightarrow> 16 word \<Rightarrow> 'm) \<Rightarrow> ir_insn \<Rightarrow> vreg_values \<times> 'm \<Rightarrow> vreg_values \<times> 'm" where
  "step_ins rd wr ins s =
     (case s of (R, M) \<Rightarrow>
        if op ins = IR_ALU then (R(dst ins := R (src1 ins) + of_int (imm ins)), M)
        else if op ins = IR_LOADMEM then (R(dst ins := rd M (segment_of ins R) (offset_of ins R) (dst ins)), M)
        else if op ins = IR_STOREMEM then (R, wr M (segment_of ins R) (offset_of ins R) (src1 ins) (R (src1 ins)))
        else (R, M))"

section \<open>Counting reads\<close>

definition reads_in :: "int \<Rightarrow> ir_insn list \<Rightarrow> nat" where
  "reads_in v is = count_list (concat (map insn_uses is)) v"

lemma reads_in_simps [simp]:
  "reads_in v [] = 0" "reads_in v (i # is) = count_list (insn_uses i) v + reads_in v is"
  "reads_in v (is @ js) = reads_in v is + reads_in v js"
  by (simp_all add: reads_in_def)

lemma filter_count: "length (filter (\<lambda>x. x = v) xs) = count_list xs v"
  by (induction xs) auto

lemma count_reads: "0 \<le> v \<Longrightarrow> count_vreg_uses fn v = reads_in v (insns fn)"
  by (simp add: count_vreg_uses_def reads_in_def filter_count)

lemma uses_nop: "insn_uses (make_nop ins) = [-1, -1]"
  by (simp add: insn_uses_def make_nop_def insn_reads_dst_def insn_defines_dst_def)

lemma pair_split:
  assumes "0 < i" "i < length is"
  shows "is = take (i - 1) is @ is ! (i - 1) # is ! i # drop (i + 1) is"
proof -
  have "drop (i - 1) is = is ! (i - 1) # drop i is" using assms Cons_nth_drop_Suc [of "i - 1" "is"] by simp
  moreover have "drop i is = is ! i # drop (i + 1) is" using assms Cons_nth_drop_Suc [of i "is"] by simp
  ultimately show ?thesis by (metis append_take_drop_id)
qed

lemma pair_update:
  assumes "0 < i" "i < length is"
  shows "is[i := m, i - 1 := a] = take (i - 1) is @ a # m # drop (i + 1) is"
proof -
  obtain k where k: "i = Suc k" using assms(1) by (cases i) auto
  define ls where "ls = take k is"
  have "is = ls @ is ! k # is ! i # drop (i + 1) is" "length ls = k"
    using pair_split [OF assms] assms k by (simp_all add: ls_def)
  then have "is[i := m, i - 1 := a] = (ls @ is ! k # is ! i # drop (i + 1) is)[Suc k := m, k := a]"
    using k by simp
  also have "\<dots> = ls @ a # m # drop (i + 1) is"
    using \<open>length ls = k\<close> by (simp add: list_update_append)
  finally show ?thesis using k by (simp add: ls_def)
qed

lemma uses_load: "op m = IR_LOADMEM \<Longrightarrow> insn_uses m = [src1 m, src2 m] @ extra_args m"
  by (simp add: insn_uses_def insn_reads_dst_def insn_defines_dst_def)

lemma uses_store: "op m = IR_STOREMEM \<Longrightarrow> dst m \<ge> 0 \<Longrightarrow> insn_uses m = [src1 m, src2 m, dst m] @ extra_args m"
  by (simp add: insn_uses_def insn_reads_dst_def insn_defines_dst_def)

lemma uses_of_addr:
  assumes "op m = IR_LOADMEM \<or> op m = IR_STOREMEM" "addr_of_mem m \<ge> 0"
  shows "1 \<le> count_list (insn_uses m) (addr_of_mem m)"
    "count_list (insn_uses m) (addr_of_mem m) = 1 \<Longrightarrow> src2 m \<noteq> addr_of_mem m"
    "count_list (insn_uses m) (addr_of_mem m) = 1 \<Longrightarrow> op m = IR_STOREMEM \<Longrightarrow> src1 m \<noteq> addr_of_mem m"
  using assms by (auto simp: uses_load uses_store addr_of_mem_def split: if_splits)

lemma with_disp_fields:
  "op (with_disp ad m) = op m" "src2 (with_disp ad m) = src2 m" "extra_args (with_disp ad m) = extra_args m"
  "op m = IR_LOADMEM \<Longrightarrow> src1 (with_disp ad m) = src1 ad" "op m = IR_STOREMEM \<Longrightarrow> src1 (with_disp ad m) = src1 m"
  "op m = IR_STOREMEM \<Longrightarrow> dst (with_disp ad m) = src1 ad"
  by (simp_all add: with_disp_def)

lemma uses_with_disp:
  assumes "op m = IR_LOADMEM \<or> op m = IR_STOREMEM" "addr_of_mem m \<ge> 0" "src1 ad \<noteq> addr_of_mem m" "src1 ad \<ge> 0"
  shows "count_list (insn_uses (with_disp ad m)) (addr_of_mem m) = count_list (insn_uses m) (addr_of_mem m) - 1"
proof (cases "op m = IR_LOADMEM")
  case True
  then show ?thesis using assms by (simp add: uses_load with_disp_fields addr_of_mem_def)
next
  case False
  then show ?thesis using assms by (simp add: uses_store with_disp_fields addr_of_mem_def)
qed

section \<open>The fold\<close>

lemma can_fold_counts:
  assumes "0 < i" "i < length (insns fn)" "can_fold fn (insns fn ! (i - 1)) (insns fn ! i)"
  shows "reads_in (addr_of_mem (insns fn ! i)) (take (i - 1) (insns fn)) = 0"
    "count_list (insn_uses (insns fn ! (i - 1))) (addr_of_mem (insns fn ! i)) = 0"
    "count_list (insn_uses (insns fn ! i)) (addr_of_mem (insns fn ! i)) = 1"
    "reads_in (addr_of_mem (insns fn ! i)) (drop (i + 1) (insns fn)) = 0"
proof -
  let ?m = "insns fn ! i" and ?a = "addr_of_mem (insns fn ! i)"
  have "reads_in ?a (insns fn) = 1" using assms(3) count_reads [of ?a fn] by (simp add: can_fold_def)
  moreover have "reads_in ?a (insns fn) =
      reads_in ?a (take (i - 1) (insns fn)) + count_list (insn_uses (insns fn ! (i - 1))) ?a +
      count_list (insn_uses ?m) ?a + reads_in ?a (drop (i + 1) (insns fn))"
    by (subst pair_split [OF assms(1,2)]) simp
  moreover have "1 \<le> count_list (insn_uses ?m) ?a" using assms(3) by (intro uses_of_addr(1)) (auto simp: can_fold_def)
  ultimately show "reads_in ?a (take (i - 1) (insns fn)) = 0" "count_list (insn_uses (insns fn ! (i - 1))) ?a = 0"
    "count_list (insn_uses ?m) ?a = 1" "reads_in ?a (drop (i + 1) (insns fn)) = 0" by linarith+
qed

lemma fold_at_insns:
  assumes "0 < i" "i < length (insns fn)" "can_fold fn (insns fn ! (i - 1)) (insns fn ! i)"
  shows "insns (fold_at i fn) =
    take (i - 1) (insns fn) @ make_nop (insns fn ! (i - 1)) # with_disp (insns fn ! (i - 1)) (insns fn ! i) # drop (i + 1) (insns fn)"
  using assms pair_update [OF assms(1,2)] by (simp add: fold_at_def Let_def)

lemma with_disp_mem:
  "mem_seg (with_disp ad m) = mem_seg m" "mem_disp (with_disp ad m) = imm ad" "has_mem_disp (with_disp ad m)"
  "op m = IR_LOADMEM \<Longrightarrow> dst (with_disp ad m) = dst m"
  by (simp_all add: with_disp_def)

lemma step_nop: "step_ins rd wr (make_nop ad) s = s"
  by (cases s) (simp add: step_ins_def make_nop_def)

lemma step_add: "op ad = IR_ALU \<Longrightarrow> step_ins rd wr ad (R, M) = (R(dst ad := R (src1 ad) + of_int (imm ad)), M)"
  by (simp add: step_ins_def)

lemma pair_effect_load:
  assumes "op m = IR_LOADMEM" "op ad = IR_ALU" "dst ad = src1 m" "\<not> has_mem_disp m" "src2 m \<noteq> src1 m"
  shows "step_ins rd wr m (step_ins rd wr ad (R, M)) =
    (let (R2, M2) = step_ins rd wr (with_disp ad m) (R, M)
     in ((R(src1 m := R (src1 ad) + of_int (imm ad)))(dst m := R2 (dst m)), M2))"
  using assms
  by (simp add: step_add [OF assms(2)]) (simp add: step_ins_def with_disp_fields with_disp_mem offset_of_def
      segment_of_def addr_of_mem_def)

lemma pair_effect_store:
  assumes "op m = IR_STOREMEM" "op ad = IR_ALU" "dst ad = dst m" "\<not> has_mem_disp m" "src2 m \<noteq> dst m" "src1 m \<noteq> dst m"
  shows "step_ins rd wr m (step_ins rd wr ad (R, M)) =
    (let (R2, M2) = step_ins rd wr (with_disp ad m) (R, M) in (R(dst m := R (src1 ad) + of_int (imm ad)), M2))"
  using assms
  by (simp add: step_add [OF assms(2)]) (simp add: step_ins_def with_disp_fields with_disp_mem offset_of_def
      segment_of_def addr_of_mem_def)

lemma pair_effect:
  fixes rd wr R M
  assumes "op m = IR_LOADMEM \<or> op m = IR_STOREMEM" "op ad = IR_ALU" "dst ad = addr_of_mem m" "\<not> has_mem_disp m"
    "src2 m \<noteq> addr_of_mem m" "op m = IR_STOREMEM \<Longrightarrow> src1 m \<noteq> addr_of_mem m"
  defines "old \<equiv> step_ins rd wr m (step_ins rd wr ad (R, M))" and "new \<equiv> step_ins rd wr (with_disp ad m) (R, M)"
  shows "snd new = snd old \<and> (\<forall>v. v \<noteq> addr_of_mem m \<longrightarrow> fst new v = fst old v)"
proof (cases "op m = IR_LOADMEM")
  case True
  have eq: "old = (let (R2, M2) = new in ((R(src1 m := R (src1 ad) + of_int (imm ad)))(dst m := R2 (dst m)), M2))"
    unfolding old_def new_def using assms True by (intro pair_effect_load) (simp_all add: addr_of_mem_def)
  have "fst new v = R v" if "v \<noteq> dst m" for v
    using that True by (simp add: new_def step_ins_def with_disp_fields with_disp_mem)
  with eq True show ?thesis by (cases new) (auto simp: addr_of_mem_def)
next
  case False
  then have st: "op m = IR_STOREMEM" using assms(1) by simp
  have eq: "old = (let (R2, M2) = new in (R(dst m := R (src1 ad) + of_int (imm ad)), M2))"
    unfolding old_def new_def using assms st by (intro pair_effect_store) (simp_all add: addr_of_mem_def)
  have "fst new = R" using st by (simp add: new_def step_ins_def with_disp_fields with_disp_mem)
  with eq st show ?thesis by (cases new) (auto simp: addr_of_mem_def)
qed

text \<open>
  (C11) Folding the addition of a constant into a memory access is sound: for every memory and every
  register values, the folded pair leaves the same memory and the same value in every register except
  the address register, and after the fold no instruction of the function reads that register.
\<close>

theorem displacement_folding_sound:
  assumes "0 < i" "i < length (insns fn)" "can_fold fn (insns fn ! (i - 1)) (insns fn ! i)"
  defines "a \<equiv> addr_of_mem (insns fn ! i)"
  shows "(let old = step_ins rd wr (insns fn ! i) (step_ins rd wr (insns fn ! (i - 1)) (R, M));
              new = step_ins rd wr (insns (fold_at i fn) ! i) (step_ins rd wr (insns (fold_at i fn) ! (i - 1)) (R, M))
          in snd new = snd old \<and> (\<forall>v. v \<noteq> a \<longrightarrow> fst new v = fst old v)) \<and>
         count_vreg_uses (fold_at i fn) a = 0"
proof -
  let ?m = "insns fn ! i" and ?ad = "insns fn ! (i - 1)"
  have c: "op ?m = IR_LOADMEM \<or> op ?m = IR_STOREMEM" "\<not> has_mem_disp ?m" "a \<ge> 0" "op ?ad = IR_ALU" "dst ?ad = a"
      "has_imm ?ad" "src1 ?ad \<ge> 0"
    using assms(3) by (auto simp: can_fold_def a_def)
  note n = can_fold_counts [OF assms(1-3), folded a_def]
  have s1: "src1 ?ad \<noteq> a" using n(2) by (auto simp: insn_uses_def)
  have s2: "src2 ?m \<noteq> a" "op ?m = IR_STOREMEM \<Longrightarrow> src1 ?m \<noteq> a"
    using uses_of_addr(2,3) [OF c(1)] c(3) n(3) by (auto simp: a_def)
  have at: "insns (fold_at i fn) ! (i - 1) = make_nop ?ad" "insns (fold_at i fn) ! i = with_disp ?ad ?m"
    using assms(1,2) by (auto simp: fold_at_insns [OF assms(1-3)] nth_append nth_Cons')
  have "reads_in a (insns (fold_at i fn)) = 0"
    using n uses_with_disp [OF c(1), of ?ad] c(3,7) s1
    by (simp add: fold_at_insns [OF assms(1-3)] uses_nop a_def)
  then have "count_vreg_uses (fold_at i fn) a = 0" using c(3) by (simp add: count_reads)
  then show ?thesis
    using pair_effect [OF c(1,4) c(5) [unfolded a_def] c(2) s2 [unfolded a_def], of rd wr R M]
    unfolding at step_nop a_def Let_def by simp
qed

definition sample_access :: func where
  "sample_access = new_func\<lparr>insns :=
     [ir_insn0\<lparr>op := IR_ALU, iname := ''add'', dst := 1, src1 := 0, imm := 6, has_imm := True\<rparr>,
      ir_insn0\<lparr>op := IR_LOADMEM, dst := 2, src1 := 1\<rparr>]\<rparr>"

lemma displacement_folding_sound_witness:
  "mem_disp (insns (fold_at 1 sample_access) ! 1) = 6 \<and> count_vreg_uses (fold_at 1 sample_access) 1 = 0"
proof -
  have f: "can_fold sample_access (insns sample_access ! (1 - 1)) (insns sample_access ! 1)" by code_simp
  have "mem_disp (insns (fold_at 1 sample_access) ! 1) = 6" by code_simp
  moreover have "addr_of_mem (insns sample_access ! 1) = 1" by code_simp
  ultimately show ?thesis
    using displacement_folding_sound [of 1 sample_access "\<lambda>_ _ _ _. 0" "\<lambda>M _ _ _ _. M" "\<lambda>_. 0" "0 :: nat", OF _ _ f]
    by (simp add: sample_access_def Let_def)
qed

end
