(* ===== verification/Compile_Types.thy ===== *)
theory Compile_Types
  imports Compile_State
begin

text \<open>
  Types in \<^verbatim>\<open>src/compile.c\<close>: sizes and the layout of structures, the names of types, the
  checks of operands, and the passes that replace constants and collect the locals whose address
  is taken. Sizes are mathematical integers; the C code computes the same as long as they fit an
  \<^verbatim>\<open>int\<close>.
\<close>

section \<open>Sizes\<close>

definition find_struct :: "struct_sig list \<Rightarrow> string \<Rightarrow> struct_sig option" where
  "find_struct S nm = find (\<lambda>s. ss_name s = nm) S"

definition type_needs_word_alignment :: "type_t option \<Rightarrow> bool" where
  "type_needs_word_alignment t \<longleftrightarrow>
     (case t of Some TYPE_U16 \<Rightarrow> True | Some TYPE_U32 \<Rightarrow> True | Some TYPE_SEG \<Rightarrow> True | Some TYPE_FAR \<Rightarrow> True
              | Some (TYPE_STRUCT _) \<Rightarrow> True | _ \<Rightarrow> False)"

text \<open>
  The step of the two loops over the fields of a structure: the position of the field and the
  position behind it, in bits, for a field whose type has \<open>sz\<close> bytes.
\<close>

definition place_field :: "bool \<Rightarrow> field_t \<Rightarrow> int \<Rightarrow> int \<Rightarrow> int \<times> int" where
  "place_field aligned f sz bit_pos =
     (if is_bits f then (bit_pos, bit_pos + bits f)
      else let bit_pos = (if bit_pos AND 7 \<noteq> 0 then (bit_pos + 7) AND NOT 7 else bit_pos);
               byte_pos = bit_pos sdiv 8;
               byte_pos = (if aligned \<and> type_needs_word_alignment (fi_type f) \<and> byte_pos AND 1 \<noteq> 0
                           then byte_pos + 1 else byte_pos)
           in (byte_pos * 8, (byte_pos + sz) * 8))"

text \<open>
  \<^verbatim>\<open>type_size\<close> recurses through the fields of structures. The first argument bounds the
  depth of that recursion; \<open>None\<close> is a recursion that goes on.
\<close>

fun type_size_f :: "nat \<Rightarrow> struct_sig list \<Rightarrow> type_t \<Rightarrow> int option"
  and fields_end_f :: "nat \<Rightarrow> struct_sig list \<Rightarrow> bool \<Rightarrow> field_t list \<Rightarrow> int \<Rightarrow> int option" where
  "type_size_f n S TYPE_U8 = Some 1"
| "type_size_f n S TYPE_U16 = Some 2"
| "type_size_f n S TYPE_U32 = Some 4"
| "type_size_f n S TYPE_SEG = Some 2"
| "type_size_f n S TYPE_BOOL = Some 0"
| "type_size_f n S (TYPE_ARRAY el k _) =
     (case el of None \<Rightarrow> Some 0 | Some t \<Rightarrow> map_option (\<lambda>m. m * k) (type_size_f n S t))"
| "type_size_f n S (TYPE_BCD k) = Some k"
| "type_size_f n S (TYPE_STRUCT nm) =
     (case nm of
        None \<Rightarrow> Some 0
      | Some s \<Rightarrow>
          (case find_struct S s of
             None \<Rightarrow> Some 0
           | Some st \<Rightarrow>
               (case n of
                  0 \<Rightarrow> None
                | Suc m \<Rightarrow> map_option (\<lambda>b. (b + 7) sdiv 8) (fields_end_f m S (ss_aligned st) (ss_fields st) 0))))"
| "type_size_f n S TYPE_FAR = Some 4"
| "type_size_f n S TYPE_VOID = Some 0"
| "fields_end_f n S aligned [] bit_pos = Some bit_pos"
| "fields_end_f n S aligned (f # fs) bit_pos =
     (case (if is_bits f then Some 0 else case fi_type f of None \<Rightarrow> Some 0 | Some t \<Rightarrow> type_size_f n S t) of
        None \<Rightarrow> None
      | Some sz \<Rightarrow> fields_end_f n S aligned fs (snd (place_field aligned f sz bit_pos)))"

definition type_size_of :: "struct_sig list \<Rightarrow> type_t option \<Rightarrow> int option" where
  "type_size_of S t = (case t of None \<Rightarrow> Some 0 | Some t \<Rightarrow> type_size_f (length S) S t)"

definition type_size :: "type_t option \<Rightarrow> int comp" where
  "type_size t = bnd (gets (\<lambda>C. type_size_of (structs C) t)) (\<lambda>r.
     case r of None \<Rightarrow> stop Unbounded_recursion | Some n \<Rightarrow> ret n)"

section \<open>The layout of structures\<close>

record field_layout =
  fl_found :: bool
  fl_is_bits :: bool
  byte_offset :: int
  bit_offset :: int
  fl_bits :: int
  storage_type :: "type_t option"
  access_type :: "type_t option"

definition no_layout :: field_layout where
  "no_layout = \<lparr>fl_found = False, fl_is_bits = False, byte_offset = 0, bit_offset = 0, fl_bits = 0,
     storage_type = None, access_type = None\<rparr>"

definition layout_of :: "field_t \<Rightarrow> bool \<Rightarrow> int \<Rightarrow> field_layout" where
  "layout_of f raw pos =
     (let bit_ty = (if bits f \<le> 8 then Some TYPE_U8 else Some TYPE_U16)
      in \<lparr>fl_found = True, fl_is_bits = is_bits f, byte_offset = pos sdiv 8, bit_offset = pos AND 7, fl_bits = bits f,
          storage_type = (if is_bits f then bit_ty else fi_type f),
          access_type = (if is_bits f then bit_ty
                         else if as_type f \<noteq> None \<and> \<not> raw then as_type f else fi_type f)\<rparr>)"

fun find_field :: "struct_sig list \<Rightarrow> bool \<Rightarrow> string \<Rightarrow> bool \<Rightarrow> field_t list \<Rightarrow> int \<Rightarrow> field_layout option option" where
  "find_field S aligned nm raw [] bit_pos = Some None"
| "find_field S aligned nm raw (f # fs) bit_pos =
     (case (if is_bits f then Some 0 else type_size_of S (fi_type f)) of
        None \<Rightarrow> None
      | Some sz \<Rightarrow>
          (case place_field aligned f sz bit_pos of
             (pos, next) \<Rightarrow>
               if fi_name f = Some nm then Some (Some (layout_of f raw pos))
               else find_field S aligned nm raw fs next))"

definition struct_field_layout :: "type_t option \<Rightarrow> string \<Rightarrow> bool \<Rightarrow> field_layout comp" where
  "struct_field_layout ty nm raw =
     (case ty of
        Some (TYPE_STRUCT (Some s)) \<Rightarrow>
          bnd (gets structs) (\<lambda>S.
            case find_struct S s of
              None \<Rightarrow> andthen cerr (ret no_layout)
            | Some st \<Rightarrow>
                (case find_field S (ss_aligned st) nm raw (ss_fields st) 0 of
                   None \<Rightarrow> stop Unbounded_recursion
                 | Some None \<Rightarrow> andthen cerr (ret no_layout)
                 | Some (Some l) \<Rightarrow> ret l))
      | None \<Rightarrow> ret no_layout
      | Some _ \<Rightarrow> andthen cerr (ret no_layout))"

section \<open>Names and checks\<close>

text \<open>\<^verbatim>\<open>snprintf\<close> into a buffer of 64 characters.\<close>

fun type_str :: "type_t \<Rightarrow> string" where
  "type_str TYPE_U8 = ''u8''"
| "type_str TYPE_U16 = ''u16''"
| "type_str TYPE_U32 = ''u32''"
| "type_str TYPE_SEG = ''seg''"
| "type_str TYPE_BOOL = ''bool''"
| "type_str (TYPE_ARRAY el k _) = take 63 ((case el of Some t \<Rightarrow> type_str t | None \<Rightarrow> ''?'') @ ''['' @ dec_int k @ '']'')"
| "type_str (TYPE_BCD k) = take 63 (''bcd['' @ dec_int k @ '']'')"
| "type_str (TYPE_STRUCT nm) = (case nm of Some s \<Rightarrow> s | None \<Rightarrow> ''struct'')"
| "type_str TYPE_FAR = ''far32''"
| "type_str TYPE_VOID = ''void''"

definition op_str :: "op_kind \<Rightarrow> string" where
  "op_str k =
     (case k of
        NIB_ADD \<Rightarrow> ''add'' | NIB_SUB \<Rightarrow> ''sub'' | NIB_MUL \<Rightarrow> ''mul'' | NIB_DIV \<Rightarrow> ''div'' | NIB_MOD \<Rightarrow> ''mod''
      | NIB_SMUL \<Rightarrow> ''imul'' | NIB_SDIV \<Rightarrow> ''idiv'' | NIB_SMOD \<Rightarrow> ''imod''
      | NIB_AND \<Rightarrow> ''and'' | NIB_OR \<Rightarrow> ''or'' | NIB_XOR \<Rightarrow> ''xor''
      | NIB_SHL \<Rightarrow> ''shl'' | NIB_SHR \<Rightarrow> ''shr'' | NIB_SRSHR \<Rightarrow> ''sar''
      | NIB_ROL \<Rightarrow> ''rol'' | NIB_ROR \<Rightarrow> ''ror'' | NIB_RCL \<Rightarrow> ''rcl'' | NIB_RCR \<Rightarrow> ''rcr''
      | NIB_EQ \<Rightarrow> ''cmp.eq'' | NIB_NEQ \<Rightarrow> ''cmp.ne'' | NIB_LT \<Rightarrow> ''cmp.b'' | NIB_GT \<Rightarrow> ''cmp.a''
      | NIB_LTE \<Rightarrow> ''cmp.be'' | NIB_GTE \<Rightarrow> ''cmp.ae'' | NIB_SLT \<Rightarrow> ''cmp.l'' | NIB_SGT \<Rightarrow> ''cmp.g''
      | NIB_SLTE \<Rightarrow> ''cmp.le'' | NIB_SGTE \<Rightarrow> ''cmp.ge''
      | NIB_XCHG \<Rightarrow> ''xchg'' | NIB_NEG \<Rightarrow> ''neg'' | NIB_NOT \<Rightarrow> ''not''
      | NIB_ADDR \<Rightarrow> ''lea'' | NIB_FAR_ADDR \<Rightarrow> ''far_lea'' | NIB_LNOT \<Rightarrow> ''lnot'')"

fun types_equal1 :: "type_t \<Rightarrow> type_t \<Rightarrow> bool" where
  "types_equal1 (TYPE_ARRAY a k _) t =
     (case t of
        TYPE_ARRAY b m _ \<Rightarrow>
          k = m \<and> (case a of Some x \<Rightarrow> (case b of Some y \<Rightarrow> types_equal1 x y | None \<Rightarrow> False) | None \<Rightarrow> b = None)
      | _ \<Rightarrow> False)"
| "types_equal1 (TYPE_STRUCT a) t = (a \<noteq> None \<and> t = TYPE_STRUCT a)"
| "types_equal1 s t = (s = t)"

definition types_equal :: "type_t option \<Rightarrow> type_t option \<Rightarrow> bool" where
  "types_equal a b =
     (case (a, b) of (Some x, Some y) \<Rightarrow> types_equal1 x y | (None, None) \<Rightarrow> True | _ \<Rightarrow> False)"

definition is_array :: "type_t \<Rightarrow> bool" where
  "is_array t = (case t of TYPE_ARRAY _ _ _ \<Rightarrow> True | _ \<Rightarrow> False)"

definition is_bcd :: "type_t \<Rightarrow> bool" where
  "is_bcd t = (case t of TYPE_BCD _ \<Rightarrow> True | _ \<Rightarrow> False)"

definition is_struct :: "type_t \<Rightarrow> bool" where
  "is_struct t = (case t of TYPE_STRUCT _ \<Rightarrow> True | _ \<Rightarrow> False)"

definition type_is_aggregate :: "type_t option \<Rightarrow> bool" where
  "type_is_aggregate t = (case t of None \<Rightarrow> False | Some t \<Rightarrow> is_array t \<or> is_bcd t \<or> is_struct t \<or> t = TYPE_FAR)"

definition type_is_integer :: "type_t option \<Rightarrow> bool" where
  "type_is_integer t \<longleftrightarrow> t = Some TYPE_U8 \<or> t = Some TYPE_U16 \<or> t = Some TYPE_U32"

definition type_is_bcd :: "type_t option \<Rightarrow> bool" where
  "type_is_bcd t = (case t of None \<Rightarrow> False | Some t \<Rightarrow> is_bcd t)"

definition type_of_element :: "type_t option \<Rightarrow> type_t option" where
  "type_of_element t = (case t of Some (TYPE_ARRAY el _ _) \<Rightarrow> el | _ \<Rightarrow> None)"

definition type_assignable :: "type_t option \<Rightarrow> type_t option \<Rightarrow> bool comp" where
  "type_assignable d s =
     (if s = None \<or> d = None then ret True
      else if types_equal d s then ret True
      else if type_is_integer d \<and> type_is_integer s
      then bnd (type_size s) (\<lambda>a. bnd (type_size d) (\<lambda>b. ret (a \<le> b)))
      else ret False)"

definition check_arith :: "type_t option \<Rightarrow> type_t option \<Rightarrow> op_kind \<Rightarrow> type_t option comp" where
  "check_arith l r k =
     (if l = None \<and> r = None then ret (Some TYPE_U16)
      else if l = None then ret r
      else if r = None then ret l
      else if type_is_bcd l \<and> type_is_bcd r
      then andthen (cerr_if (\<not> types_equal l r))
             (andthen (cerr_if (k \<noteq> NIB_ADD \<and> k \<noteq> NIB_SUB)) (ret l))
      else if type_is_aggregate l \<or> type_is_aggregate r then andthen cerr (ret (Some TYPE_U16))
      else if type_is_integer l \<and> type_is_integer r
      then andthen (cerr_if (l \<noteq> r))
             (ret (if (k = NIB_MUL \<or> k = NIB_SMUL) \<and> l = Some TYPE_U16 then Some TYPE_U32 else l))
      else ret l)"

definition check_compare :: "type_t option \<Rightarrow> type_t option \<Rightarrow> type_t option comp" where
  "check_compare l r =
     (if l = None \<or> r = None then ret (Some TYPE_BOOL)
      else if type_is_bcd l \<and> type_is_bcd r then andthen (cerr_if (\<not> types_equal l r)) (ret (Some TYPE_BOOL))
      else if type_is_integer l \<and> type_is_integer r then andthen (cerr_if (l \<noteq> r)) (ret (Some TYPE_BOOL))
      else andthen (cerr_if (type_is_aggregate l \<or> type_is_aggregate r)) (ret (Some TYPE_BOOL)))"

definition binop_is_shift :: "op_kind \<Rightarrow> bool" where
  "binop_is_shift k \<longleftrightarrow> k \<in> set [NIB_SHL, NIB_SHR, NIB_SRSHR, NIB_ROL, NIB_ROR, NIB_RCL, NIB_RCR]"

definition binop_is_compare :: "op_kind \<Rightarrow> bool" where
  "binop_is_compare k \<longleftrightarrow>
     k \<in> set [NIB_EQ, NIB_NEQ, NIB_LT, NIB_GT, NIB_LTE, NIB_GTE, NIB_SLT, NIB_SGT, NIB_SLTE, NIB_SGTE]"

end
