(* ===== verification/Compile_Resolve.thy ===== *)
theory Compile_Resolve
  imports Compile_Types
begin

text \<open>
  The passes over a function body before code is generated, \<^verbatim>\<open>src/compile.c\<close>: constants are
  replaced by literals (\<^verbatim>\<open>resolve_constants_expr\<close>, \<^verbatim>\<open>resolve_constants_stmt\<close>), and the
  locals whose address is taken are collected (\<^verbatim>\<open>scan_addr_taken_stmt\<close>). Neither pass enters
  the statements of a flag check, and of a list of returned values or of assignment targets the
  first pass resolves only the head.
\<close>

section \<open>Constants\<close>

fun resolve_constants_expr :: "(string \<times> int) list \<Rightarrow> expr_t \<Rightarrow> expr_t" where
  "resolve_constants_expr cs (EXPR_IDENT ln nm) =
     (case find_constant cs nm of Some v \<Rightarrow> EXPR_LIT_INT ln v | None \<Rightarrow> EXPR_IDENT ln nm)"
| "resolve_constants_expr cs (EXPR_BINOP ln k l r) =
     EXPR_BINOP ln k (resolve_constants_expr cs l) (resolve_constants_expr cs r)"
| "resolve_constants_expr cs (EXPR_UNOP ln k e) = EXPR_UNOP ln k (resolve_constants_expr cs e)"
| "resolve_constants_expr cs (EXPR_CALL ln f args) =
     EXPR_CALL ln (resolve_constants_expr cs f) (map (resolve_constants_expr cs) args)"
| "resolve_constants_expr cs (EXPR_INDIRECT_CALL ln a nm m args) =
     EXPR_INDIRECT_CALL ln (resolve_constants_expr cs a) nm m (map (resolve_constants_expr cs) args)"
| "resolve_constants_expr cs (EXPR_NEAR_INDIRECT_CALL ln a nm args) =
     EXPR_NEAR_INDIRECT_CALL ln (resolve_constants_expr cs a) nm (map (resolve_constants_expr cs) args)"
| "resolve_constants_expr cs (EXPR_INDEX ln a i) =
     EXPR_INDEX ln (resolve_constants_expr cs a) (resolve_constants_expr cs i)"
| "resolve_constants_expr cs (EXPR_CHECKED_INDEX ln a i) =
     EXPR_CHECKED_INDEX ln (resolve_constants_expr cs a) (resolve_constants_expr cs i)"
| "resolve_constants_expr cs (EXPR_FIELD ln e nm) = EXPR_FIELD ln (resolve_constants_expr cs e) nm"
| "resolve_constants_expr cs (EXPR_RAW_FIELD ln e nm) = EXPR_RAW_FIELD ln (resolve_constants_expr cs e) nm"
| "resolve_constants_expr cs (EXPR_CAST ln e t) = EXPR_CAST ln (resolve_constants_expr cs e) t"
| "resolve_constants_expr cs (EXPR_ARRAY_INIT ln es) = EXPR_ARRAY_INIT ln (map (resolve_constants_expr cs) es)"
| "resolve_constants_expr cs (EXPR_MEM ln (MEM sg b i d de hdi ab av ae)) =
     EXPR_MEM ln (MEM sg b i d (map_option (resolve_constants_expr cs) de) hdi ab av (map_option (resolve_constants_expr cs) ae))"
| "resolve_constants_expr cs (EXPR_FAR_LIT ln sg off se oe) =
     EXPR_FAR_LIT ln sg off (map_option (resolve_constants_expr cs) se) (map_option (resolve_constants_expr cs) oe)"
| "resolve_constants_expr cs (EXPR_DEREF ln e sg) = EXPR_DEREF ln (resolve_constants_expr cs e) sg"
| "resolve_constants_expr cs e = e"

definition resolve_head :: "(string \<times> int) list \<Rightarrow> expr_t list \<Rightarrow> expr_t list" where
  "resolve_head cs es = (case es of [] \<Rightarrow> [] | e # es \<Rightarrow> resolve_constants_expr cs e # es)"

fun resolve_constants_stmt :: "(string \<times> int) list \<Rightarrow> stmt_t \<Rightarrow> stmt_t" where
  "resolve_constants_stmt cs (STMT_VARDECL ln ty nm pr pc ini kc) =
     STMT_VARDECL ln ty nm pr pc (map_option (resolve_constants_expr cs) ini) kc"
| "resolve_constants_stmt cs (STMT_ASSIGN ln ts v fcs) =
     STMT_ASSIGN ln (resolve_head cs ts) (resolve_constants_expr cs v) fcs"
| "resolve_constants_stmt cs (STMT_TOGGLE_ASSIGN ln t v fcs) =
     STMT_TOGGLE_ASSIGN ln (resolve_constants_expr cs t) (resolve_constants_expr cs v) fcs"
| "resolve_constants_stmt cs (STMT_EXPR ln e) = STMT_EXPR ln (resolve_constants_expr cs e)"
| "resolve_constants_stmt cs (STMT_IF ln c t e) =
     STMT_IF ln (resolve_constants_expr cs c) (map (resolve_constants_stmt cs) t) (map (resolve_constants_stmt cs) e)"
| "resolve_constants_stmt cs (STMT_WHILE ln c b) =
     STMT_WHILE ln (resolve_constants_expr cs c) (map (resolve_constants_stmt cs) b)"
| "resolve_constants_stmt cs (STMT_FOR ln s e b) =
     STMT_FOR ln (resolve_constants_expr cs s) (resolve_constants_expr cs e) (map (resolve_constants_stmt cs) b)"
| "resolve_constants_stmt cs (STMT_RETURN ln es) = STMT_RETURN ln (resolve_head cs es)"
| "resolve_constants_stmt cs (STMT_TAILCALL ln e) = STMT_TAILCALL ln (resolve_constants_expr cs e)"
| "resolve_constants_stmt cs s = s"

section \<open>Locals whose address is taken\<close>

text \<open>The names in the order in which \<^verbatim>\<open>addr_taken_add\<close> is called.\<close>

fun addr_taken_expr :: "expr_t \<Rightarrow> string list" where
  "addr_taken_expr (EXPR_BINOP _ _ l r) = addr_taken_expr l @ addr_taken_expr r"
| "addr_taken_expr (EXPR_UNOP _ k e) =
     (case e of EXPR_IDENT _ nm \<Rightarrow> if k = NIB_ADDR \<or> k = NIB_FAR_ADDR then [nm] else [] | _ \<Rightarrow> []) @ addr_taken_expr e"
| "addr_taken_expr (EXPR_CALL _ f args) = addr_taken_expr f @ concat (map addr_taken_expr args)"
| "addr_taken_expr (EXPR_INDEX _ a i) = addr_taken_expr a @ addr_taken_expr i"
| "addr_taken_expr (EXPR_CHECKED_INDEX _ a i) = addr_taken_expr a @ addr_taken_expr i"
| "addr_taken_expr (EXPR_FIELD _ e _) = addr_taken_expr e"
| "addr_taken_expr (EXPR_RAW_FIELD _ e _) = addr_taken_expr e"
| "addr_taken_expr (EXPR_CAST _ e _) = addr_taken_expr e"
| "addr_taken_expr (EXPR_PAREN _ e) = addr_taken_expr e"
| "addr_taken_expr (EXPR_ARRAY_INIT _ es) = concat (map addr_taken_expr es)"
| "addr_taken_expr (EXPR_INDIRECT_CALL _ a _ _ args) = addr_taken_expr a @ concat (map addr_taken_expr args)"
| "addr_taken_expr (EXPR_NEAR_INDIRECT_CALL _ a _ args) = addr_taken_expr a @ concat (map addr_taken_expr args)"
| "addr_taken_expr (EXPR_DEREF _ e _) = addr_taken_expr e"
| "addr_taken_expr (EXPR_MEM _ (MEM _ _ _ _ de _ _ _ ae)) =
     (case de of None \<Rightarrow> [] | Some e \<Rightarrow> addr_taken_expr e) @ (case ae of None \<Rightarrow> [] | Some e \<Rightarrow> addr_taken_expr e)"
| "addr_taken_expr (EXPR_FAR_LIT _ _ _ se oe) =
     (case se of None \<Rightarrow> [] | Some e \<Rightarrow> addr_taken_expr e) @ (case oe of None \<Rightarrow> [] | Some e \<Rightarrow> addr_taken_expr e)"
| "addr_taken_expr _ = []"

fun addr_taken_stmt :: "stmt_t \<Rightarrow> string list" where
  "addr_taken_stmt (STMT_VARDECL _ _ _ _ _ ini _) = (case ini of None \<Rightarrow> [] | Some e \<Rightarrow> addr_taken_expr e)"
| "addr_taken_stmt (STMT_ASSIGN _ ts v _) = concat (map addr_taken_expr ts) @ addr_taken_expr v"
| "addr_taken_stmt (STMT_TOGGLE_ASSIGN _ t v _) = addr_taken_expr t @ addr_taken_expr v"
| "addr_taken_stmt (STMT_EXPR _ e) = addr_taken_expr e"
| "addr_taken_stmt (STMT_IF _ c t e) = addr_taken_expr c @ concat (map addr_taken_stmt t) @ concat (map addr_taken_stmt e)"
| "addr_taken_stmt (STMT_WHILE _ c b) = addr_taken_expr c @ concat (map addr_taken_stmt b)"
| "addr_taken_stmt (STMT_FOR _ s e b) = addr_taken_expr s @ addr_taken_expr e @ concat (map addr_taken_stmt b)"
| "addr_taken_stmt (STMT_RETURN _ es) = concat (map addr_taken_expr es)"
| "addr_taken_stmt (STMT_TAILCALL _ e) = addr_taken_expr e"
| "addr_taken_stmt (STMT_CONST _ _ _ ini) = (case ini of None \<Rightarrow> [] | Some e \<Rightarrow> addr_taken_expr e)"
| "addr_taken_stmt _ = []"

definition scan_addr_taken_stmt :: "stmt_t list \<Rightarrow> unit comp" where
  "scan_addr_taken_stmt body =
     modify (\<lambda>C. C\<lparr>addr_taken := fold addr_taken_add (concat (map addr_taken_stmt body)) (addr_taken C)\<rparr>)"

definition should_stack_allocate_local :: "string option \<Rightarrow> bool comp" where
  "should_stack_allocate_local nm = gets (\<lambda>C. case nm of None \<Rightarrow> False | Some s \<Rightarrow> s \<in> set (addr_taken C))"

end
