(* ===== verification/Compile_Expr.thy ===== *)
theory Compile_Expr
  imports Compile_Resolve
begin

text \<open>
  Code for expressions, \<^verbatim>\<open>emit_expr_typed\<close> of \<^verbatim>\<open>src/compile.c\<close> and the functions it
  calls. Every expression leaves its value in a virtual register; a literal has no type
  (\<^verbatim>\<open>NULL\<close>) and takes the type its context needs; a far value may be a pair of registers.
\<close>

section \<open>Typed registers\<close>

record typed_vreg =
  tv_vreg :: int
  tv_seg :: int
  tv_type :: "type_t option"

definition ins :: "string \<Rightarrow> nir_opnd list \<Rightarrow> unit comp" where
  "ins n xs = emit_nir (Ins n xs)"

definition TV :: "int \<Rightarrow> type_t option \<Rightarrow> typed_vreg comp" where
  "TV v ty =
     andthen (if ty = Some TYPE_U8 then emit_nir (NVreg v [''u8''])
              else if ty = Some TYPE_SEG then emit_nir (NVreg v [''seg'']) else ret ())
       (ret \<lparr>tv_vreg = v, tv_seg = -1, tv_type = ty\<rparr>)"

definition TV_FAR :: "int \<Rightarrow> int \<Rightarrow> typed_vreg comp" where
  "TV_FAR off_vreg seg_vreg = ret \<lparr>tv_vreg = off_vreg, tv_seg = seg_vreg, tv_type = Some TYPE_FAR\<rparr>"

definition TV_PIN :: "int \<Rightarrow> type_t option \<Rightarrow> string \<Rightarrow> typed_vreg comp" where
  "TV_PIN v ty pin =
     andthen (emit_nir (NVreg v [if ty = Some TYPE_U8 then ''u8'' else if ty = Some TYPE_SEG then ''seg'' else ''u16'',
                                 ''pin='' @ pin]))
       (ret \<lparr>tv_vreg = v, tv_seg = -1, tv_type = ty\<rparr>)"

text \<open>A fresh register as the result of an expression that is in error.\<close>

definition fresh_tv :: "type_t option \<Rightarrow> typed_vreg comp" where
  "fresh_tv ty = bnd alloc_vreg (\<lambda>v. TV v ty)"

section \<open>Direct addresses\<close>

record addr_parts =
  ap_base :: int
  ap_index :: int
  ap_disp :: int
  ap_has_disp :: bool

definition addr_add_reg :: "addr_parts \<Rightarrow> int \<Rightarrow> addr_parts option" where
  "addr_add_reg p reg =
     (if reg = WREG_BX \<or> reg = WREG_BP then if ap_base p \<noteq> REG_NONE then None else Some (p\<lparr>ap_base := reg\<rparr>)
      else if reg = WREG_SI \<or> reg = WREG_DI then if ap_index p \<noteq> REG_NONE then None else Some (p\<lparr>ap_index := reg\<rparr>)
      else None)"

definition add_disp :: "int \<Rightarrow> addr_parts \<Rightarrow> addr_parts option comp" where
  "add_disp n p =
     (case const_int (ap_disp p + n) of
        Const d \<Rightarrow> ret (Some (p\<lparr>ap_disp := d, ap_has_disp := True\<rparr>)) | _ \<Rightarrow> stop Undefined_arithmetic)"

fun addr_collect :: "expr_t \<Rightarrow> addr_parts \<Rightarrow> addr_parts option comp" where
  "addr_collect e p =
     bnd (eval_const e) (\<lambda>c.
       case c of
         Some cv \<Rightarrow> add_disp cv p
       | None \<Rightarrow>
           (case e of
              EXPR_REG _ reg rc \<Rightarrow> if rc = REGCLASS_WORD then ret (addr_add_reg p reg) else ret None
            | EXPR_CAST _ x _ \<Rightarrow> addr_collect x p
            | EXPR_BINOP _ k l r \<Rightarrow>
                if k = NIB_ADD
                then bnd (addr_collect l p) (\<lambda>q. case q of None \<Rightarrow> ret None | Some q \<Rightarrow> addr_collect r q)
                else if k = NIB_SUB
                then bnd (eval_const r) (\<lambda>rv.
                       case rv of
                         None \<Rightarrow> ret None
                       | Some n \<Rightarrow> bnd (addr_collect l p) (\<lambda>q. case q of None \<Rightarrow> ret None | Some q \<Rightarrow> add_disp (- n) q))
                else ret None
            | _ \<Rightarrow> ret None))"

declare addr_collect.simps [simp del]

definition const_or :: "expr_t option \<Rightarrow> int \<Rightarrow> int comp" where
  "const_or e n = (case e of Some x \<Rightarrow> require_const_expr x | None \<Rightarrow> ret n)"

definition hexw :: "int \<Rightarrow> string" where
  "hexw n = ''0x'' @ hex_int 4 (take_bit 16 n)"

definition addr_text :: "addr_parts \<Rightarrow> string" where
  "addr_text p =
     (let base = (if ap_base p \<noteq> REG_NONE then [wreg_name (ap_base p)] else []);
          idx = (if ap_index p \<noteq> REG_NONE then [wreg_name (ap_index p)] else []);
          disp = (if ap_has_disp p \<or> base @ idx = [] then [hexw (ap_disp p)] else [])
      in case base @ idx @ disp of [] \<Rightarrow> [] | x # xs \<Rightarrow> x @ concat (map (\<lambda>y. ''+'' @ y) xs))"

text \<open>The text of the address, empty when there is none.\<close>

definition format_direct_addr :: "expr_t \<Rightarrow> int \<Rightarrow> string comp" where
  "format_direct_addr e seg =
     (case (e, seg = REG_NONE) of
        (EXPR_FAR_LIT _ s off se oe, True) \<Rightarrow>
          bnd (const_or se s) (\<lambda>s. bnd (const_or oe off) (\<lambda>off. ret (''['' @ hexw s @ '':'' @ hexw off @ '']'')))
      | _ \<Rightarrow>
          bnd (addr_collect e \<lparr>ap_base = REG_NONE, ap_index = REG_NONE, ap_disp = 0, ap_has_disp = False\<rparr>) (\<lambda>p.
            case p of
              None \<Rightarrow> ret []
            | Some p \<Rightarrow>
                ret (if seg \<noteq> REG_NONE then ''['' @ sreg_name seg @ '':'' @ addr_text p @ '']''
                     else ''['' @ addr_text p @ '']'')))"

section \<open>Loads and stores\<close>

definition is_contextual_mem_load_type :: "type_t option \<Rightarrow> bool" where
  "is_contextual_mem_load_type t \<longleftrightarrow> t = Some TYPE_U8 \<or> t = Some TYPE_U16 \<or> t = Some TYPE_SEG"

definition load_type :: "type_t option \<Rightarrow> type_t option" where
  "load_type target = (if is_contextual_mem_load_type target then target else Some TYPE_U8)"

definition mem_operand :: "mem_t \<Rightarrow> string comp" where
  "mem_operand m =
     bnd (if mem_abs_seg m then bnd (const_or (mem_abs_seg_expr m) (mem_abs_seg_val m)) (\<lambda>s. ret (hexw s @ '':''))
          else ret (if mem_seg m \<noteq> REG_NONE then sreg_name (mem_seg m) @ '':'' else [])) (\<lambda>seg.
       let base = (if mem_base m \<noteq> REG_NONE then [wreg_name (mem_base m)] else []);
           idx = (if mem_index m \<noteq> REG_NONE then [wreg_name (mem_index m)] else [])
       in bnd (if mem_has_disp m then bnd (const_or (mem_disp_expr m) (mem_disp m)) (\<lambda>d. ret [hexw d]) else ret []) (\<lambda>disp.
            ret (''['' @ seg @ (case base @ idx @ disp of [] \<Rightarrow> [] | x # xs \<Rightarrow> x @ concat (map (\<lambda>y. ''+'' @ y) xs)) @ '']'')))"

definition emit_mem_load :: "mem_t \<Rightarrow> type_t option \<Rightarrow> typed_vreg comp" where
  "emit_mem_load m target =
     bnd alloc_vreg (\<lambda>d. bnd (mem_operand m) (\<lambda>a. andthen (ins ''loadmem'' [Vr d, Nm a]) (TV d (load_type target))))"

text \<open>The load through a pointer that has been computed.\<close>

definition deref_load_code :: "int \<Rightarrow> typed_vreg \<Rightarrow> int \<Rightarrow> unit comp" where
  "deref_load_code d ptr seg =
     (if tv_type ptr = Some TYPE_FAR
      then if seg \<noteq> REG_NONE then ins ''loadmem'' [Vr d, Vr (tv_vreg ptr), Nm (sreg_name seg)]
           else if tv_seg ptr \<ge> 0 then ins ''loadmem'' [Vr d, Vr (tv_vreg ptr), Vr (tv_seg ptr)]
           else bnd alloc_vreg (\<lambda>off. bnd alloc_vreg (\<lambda>sg.
                  block [ins ''far.off'' [Vr off, Vr (tv_vreg ptr)], ins ''far.seg'' [Vr sg, Vr (tv_vreg ptr)],
                         ins ''loadmem'' [Vr d, Vr off, Vr sg]]))
      else if tv_type ptr = None \<or> type_is_integer (tv_type ptr)
      then andthen (cerr_if (tv_type ptr \<noteq> None \<and> tv_type ptr \<noteq> Some TYPE_U16))
             (if seg = REG_NONE \<or> seg = SREG_DS then ins ''loadmem'' [Vr d, Vr (tv_vreg ptr)]
              else if seg = SREG_CS
              then andthen (emit_nir (NVreg (tv_vreg ptr) [''u16'', ''csref''])) (ins ''loadmem'' [Vr d, Vr (tv_vreg ptr)])
              else ins ''loadmem'' [Vr d, Vr (tv_vreg ptr), Nm (sreg_name seg)])
      else cerr)"

definition deref_store_code :: "typed_vreg \<Rightarrow> int \<Rightarrow> int \<Rightarrow> unit comp" where
  "deref_store_code ptr seg v =
     (if tv_type ptr = Some TYPE_FAR
      then if seg \<noteq> REG_NONE then ins ''storemem'' [Vr (tv_vreg ptr), Nm (sreg_name seg), Vr v]
           else if tv_seg ptr \<ge> 0 then ins ''storemem'' [Vr (tv_vreg ptr), Vr (tv_seg ptr), Vr v]
           else bnd alloc_vreg (\<lambda>off. bnd alloc_vreg (\<lambda>sg.
                  block [ins ''far.off'' [Vr off, Vr (tv_vreg ptr)], ins ''far.seg'' [Vr sg, Vr (tv_vreg ptr)],
                         ins ''storemem'' [Vr off, Vr sg, Vr v]]))
      else if tv_type ptr = None \<or> type_is_integer (tv_type ptr)
      then andthen (cerr_if (tv_type ptr \<noteq> None \<and> tv_type ptr \<noteq> Some TYPE_U16))
             (if seg = REG_NONE \<or> seg = SREG_DS then ins ''storemem'' [Vr (tv_vreg ptr), Vr v]
              else if seg = SREG_CS
              then andthen (emit_nir (NVreg (tv_vreg ptr) [''u16'', ''csref''])) (ins ''storemem'' [Vr (tv_vreg ptr), Vr v])
              else ins ''storemem'' [Vr (tv_vreg ptr), Nm (sreg_name seg), Vr v])
      else cerr)"

definition emit_stack_addr :: "symbol_t \<Rightarrow> int comp" where
  "emit_stack_addr smb = bnd alloc_vreg (\<lambda>d. andthen (ins ''lea'' [Vr d, Vr (sy_vreg smb)]) (ret d))"

definition emit_stack_local_value :: "symbol_t \<Rightarrow> typed_vreg comp" where
  "emit_stack_local_value smb =
     bnd (emit_stack_addr smb) (\<lambda>a.
       if type_is_aggregate (sy_type smb) then TV a (sy_type smb)
       else if \<not> type_is_integer (sy_type smb) then andthen cerr (TV a (sy_type smb))
       else bnd alloc_vreg (\<lambda>d.
              andthen (ins (if sy_type smb = Some TYPE_U8 then ''loadb'' else ''load'') [Vr d, Vr a]) (TV d (sy_type smb))))"

definition emit_stack_far_addr :: "symbol_t \<Rightarrow> typed_vreg comp" where
  "emit_stack_far_addr smb =
     bnd (emit_stack_addr smb) (\<lambda>off. bnd alloc_vreg (\<lambda>seg_tmp. bnd alloc_vreg (\<lambda>seg.
       andthen (block [ins ''mov'' [Vr seg_tmp, Nm ''SS''], emit_nir (NVreg seg [''seg'']), ins ''mov'' [Vr seg, Vr seg_tmp]])
         (TV_FAR off seg))))"

definition emit_addr_plus_const :: "int \<Rightarrow> int \<Rightarrow> int comp" where
  "emit_addr_plus_const base offset =
     (if offset = 0 then ret base
      else bnd alloc_vreg (\<lambda>a. andthen (ins ''add'' [Vr a, Vr base, Im offset]) (ret a)))"

text \<open>A far constant: the segment goes through a word register.\<close>

definition emit_far_const :: "nir_opnd \<Rightarrow> nir_opnd \<Rightarrow> typed_vreg comp" where
  "emit_far_const segment offset =
     bnd alloc_vreg (\<lambda>seg_tmp. bnd alloc_vreg (\<lambda>seg. bnd alloc_vreg (\<lambda>off.
       andthen (block [ins ''mov'' [Vr seg_tmp, segment], emit_nir (NVreg seg [''seg'']), ins ''mov'' [Vr seg, Vr seg_tmp],
                       ins ''mov'' [Vr off, offset]])
         (TV_FAR off seg))))"

definition emit_struct_field_value :: "typed_vreg \<Rightarrow> string \<Rightarrow> bool \<Rightarrow> typed_vreg comp" where
  "emit_struct_field_value obj nm raw =
     (if tv_type obj = Some TYPE_FAR then andthen cerr (fresh_tv (Some TYPE_U16))
      else bnd (struct_field_layout (tv_type obj) nm raw) (\<lambda>fl.
        if \<not> fl_found fl then fresh_tv (Some TYPE_U16)
        else if fl_is_bits fl
        then bnd alloc_vreg (\<lambda>d. andthen (ins ''field'' [Vr d, Vr (tv_vreg obj), Nm nm]) (TV d (access_type fl)))
        else bnd (emit_addr_plus_const (tv_vreg obj) (byte_offset fl)) (\<lambda>a.
          if storage_type fl = Some TYPE_FAR
          then bnd alloc_vreg (\<lambda>off_v. bnd alloc_vreg (\<lambda>seg_tmp. bnd alloc_vreg (\<lambda>seg_v.
                 andthen (ins ''load'' [Vr off_v, Vr a])
                   (bnd (emit_addr_plus_const a 2) (\<lambda>seg_addr.
                      andthen (block [ins ''load'' [Vr seg_tmp, Vr seg_addr], emit_nir (NVreg seg_v [''seg'']),
                                      ins ''mov'' [Vr seg_v, Vr seg_tmp]])
                        (TV_FAR off_v seg_v))))))
          else if type_is_aggregate (storage_type fl) then TV a (access_type fl)
          else bnd alloc_vreg (\<lambda>d.
                 andthen (ins (if storage_type fl = Some TYPE_U8 then ''loadb'' else ''load'') [Vr d, Vr a])
                   (TV d (access_type fl))))))"

text \<open>The store to a field of the object \<open>obj\<close>.\<close>

definition emit_struct_field_store :: "typed_vreg \<Rightarrow> string \<Rightarrow> typed_vreg \<Rightarrow> unit comp" where
  "emit_struct_field_store obj nm v =
     bnd (struct_field_layout (tv_type obj) nm False) (\<lambda>fl.
       if \<not> fl_found fl then ret ()
       else if fl_is_bits fl then ins ''storefield'' [Vr (tv_vreg obj), Nm nm, Vr (tv_vreg v)]
       else bnd (emit_addr_plus_const (tv_vreg obj) (byte_offset fl)) (\<lambda>a.
         if storage_type fl = Some TYPE_FAR
         then bnd (if tv_seg v < 0
                   then bnd alloc_vreg (\<lambda>off_v. bnd alloc_vreg (\<lambda>seg_v.
                          andthen (block [ins ''far.off'' [Vr off_v, Vr (tv_vreg v)], ins ''far.seg'' [Vr seg_v, Vr (tv_vreg v)]])
                            (ret (off_v, seg_v))))
                   else ret (tv_vreg v, tv_seg v)) (\<lambda>(off_v, seg_v).
                andthen (ins ''store'' [Vr a, Vr off_v])
                  (bnd (emit_addr_plus_const a 2) (\<lambda>seg_addr. ins ''store'' [Vr seg_addr, Vr seg_v])))
         else if type_is_aggregate (storage_type fl) then cerr
         else ins (if storage_type fl = Some TYPE_U8 then ''storeb'' else ''store'') [Vr a, Vr (tv_vreg v)]))"

section \<open>Names and registers\<close>

definition is_scalar_type :: "type_t option \<Rightarrow> bool" where
  "is_scalar_type t \<longleftrightarrow> t = Some TYPE_U8 \<or> t = Some TYPE_U16 \<or> t = Some TYPE_U32 \<or> t = Some TYPE_SEG"

definition emit_ident :: "string \<Rightarrow> typed_vreg comp" where
  "emit_ident nm =
     bnd (is_isr nm) (\<lambda>isr.
       if isr then emit_far_const (Nm (''SEG '' @ nm)) (Nm nm)
       else bnd (sym_lookup nm) (\<lambda>s.
         case s of
           None \<Rightarrow> andthen cerr (fresh_tv (Some TYPE_U16))
         | Some smb \<Rightarrow>
             if is_global smb
             then bnd alloc_vreg (\<lambda>r.
                    andthen (if is_scalar_type (sy_type smb)
                             then ins ''loadmem'' [Vr r, Nm (if sy_has_at smb \<and> \<not> is_init_data smb
                                                             then ''[0x'' @ hex_int 4 (sy_at_off smb) @ '']''
                                                             else ''['' @ sy_name smb @ '']'')]
                             else ins ''mov'' [Vr r, if sy_has_at smb \<and> \<not> is_init_data smb then Hx (sy_at_off smb)
                                                      else Nm (sy_name smb)])
                      (TV r (sy_type smb)))
             else if sy_vreg_seg smb \<ge> 0 then TV_FAR (sy_vreg smb) (sy_vreg_seg smb)
             else if is_stack_local smb then emit_stack_local_value smb
             else TV (sy_vreg smb) (sy_type smb)))"

text \<open>The symbol of a machine register, declared on its first use.\<close>

definition reg_symbol :: "string \<Rightarrow> type_t \<Rightarrow> int \<Rightarrow> reg_class \<Rightarrow> (symbol_t \<times> bool) comp" where
  "reg_symbol nm ty reg rc =
     bnd (sym_lookup nm) (\<lambda>s.
       case s of
         Some smb \<Rightarrow> ret (smb, False)
       | None \<Rightarrow> bnd (sym_add_pinned ty reg rc) (\<lambda>smb. andthen (emit_nir (NPin (sy_vreg smb) nm)) (ret (smb, True))))"

definition emit_reg :: "string \<Rightarrow> type_t \<Rightarrow> int \<Rightarrow> reg_class \<Rightarrow> typed_vreg comp" where
  "emit_reg nm ty reg rc = bnd (reg_symbol nm ty reg rc) (\<lambda>(smb, _). TV_PIN (sy_vreg smb) (sy_type smb) nm)"

definition reg_type :: "reg_class \<Rightarrow> type_t" where
  "reg_type rc = (if rc = REGCLASS_BYTE then TYPE_U8 else TYPE_U16)"

definition str_byte :: "char \<Rightarrow> string" where
  "str_byte c = (if code c \<ge> 0x20 \<and> code c < 0x7F \<and> c \<noteq> CHR 0x22 \<and> c \<noteq> CHR 0x5C then [c]
                 else [CHR 0x5C, CHR ''x''] @ hex_fmt 2 (code c))"

definition emit_str :: "string \<Rightarrow> typed_vreg comp" where
  "emit_str s =
     bnd alloc_vreg (\<lambda>r.
       if length s = 1 then andthen (ins ''mov'' [Vr r, Im (int (code (hd s)))]) (TV r None)
       else bnd (gets next_const) (\<lambda>cid.
              andthen (modify (\<lambda>C. C\<lparr>next_const := cid + 1\<rparr>))
                (andthen (emit_nir (NConst cid (concat (map str_byte s))))
                   (andthen (ins ''mov'' [Vr r, Nm (''_C'' @ dec_int cid)]) (TV r (Some (mk_type_array TYPE_U8 (int (length s)))))))))"

end
