(* ===== verification/Compile_Emit.thy ===== *)
theory Compile_Emit
  imports Compile_Expr
begin

text \<open>
  Code for expressions, continued: operators, calls and built-in functions, and the recursive
  functions \<^verbatim>\<open>emit_expr_typed\<close> and \<^verbatim>\<open>emit_expr_typed_for\<close> of \<^verbatim>\<open>src/compile.c\<close>.
\<close>

section \<open>Operators\<close>

definition lit_int :: "expr_t \<Rightarrow> int option" where
  "lit_int e = (case e of EXPR_LIT_INT _ n \<Rightarrow> Some n | _ \<Rightarrow> None)"

definition right_opnd :: "int option \<Rightarrow> typed_vreg \<Rightarrow> nir_opnd" where
  "right_opnd imm r = (case imm of Some n \<Rightarrow> Im n | None \<Rightarrow> Vr (tv_vreg r))"

definition no_tv :: typed_vreg where
  "no_tv = \<lparr>tv_vreg = -1, tv_seg = -1, tv_type = None\<rparr>"

definition check_shift :: "typed_vreg \<Rightarrow> unit comp" where
  "check_shift l = cerr_if (tv_type l \<noteq> None \<and> \<not> type_is_integer (tv_type l))"

text \<open>The code behind the operands of a binary operator; \<open>imm\<close> is the value of a right operand
  that is a literal. The multiplication of bytes is done on words.\<close>

definition binop_code :: "op_kind \<Rightarrow> typed_vreg \<Rightarrow> int option \<Rightarrow> typed_vreg \<Rightarrow> typed_vreg comp" where
  "binop_code k l imm r =
     bnd alloc_vreg (\<lambda>d.
     bnd (if binop_is_compare k then check_compare (tv_type l) (tv_type r)
          else if k = NIB_XCHG then andthen (cerr_if (\<not> types_equal (tv_type l) (tv_type r))) (ret (tv_type l))
          else if binop_is_shift k then andthen (check_shift l) (ret (tv_type l))
          else check_arith (tv_type l) (tv_type r) k) (\<lambda>ty.
     if (k = NIB_MUL \<or> k = NIB_SMUL) \<and> tv_type l = Some TYPE_U8
     then bnd alloc_vreg (\<lambda>wd.
            andthen (ins ''zext'' [Vr wd, Vr (tv_vreg l)])
              (andthen
                 (case imm of
                    Some n \<Rightarrow> ins (op_str k) [Vr wd, Vr wd, Im n]
                  | None \<Rightarrow> bnd alloc_vreg (\<lambda>wd2.
                      andthen (ins ''zext'' [Vr wd2, Vr (tv_vreg r)]) (ins (op_str k) [Vr wd, Vr wd, Vr wd2])))
                 (andthen (emit_nir (NVreg d [''u8''])) (andthen (ins ''mov'' [Vr d, Vr wd]) (TV d ty)))))
     else andthen (ins (op_str k) [Vr d, Vr (tv_vreg l), right_opnd imm r]) (TV d ty)))"

text \<open>Addresses of names, which do not evaluate their operand.\<close>

definition unop_special :: "op_kind \<Rightarrow> expr_t \<Rightarrow> typed_vreg option comp" where
  "unop_special k e =
     (case e of
        EXPR_IDENT _ nm \<Rightarrow>
          bnd (find_function nm) (\<lambda>fi. bnd (sym_lookup nm) (\<lambda>s.
            if k = NIB_ADDR \<and> fi \<noteq> None
            then bnd alloc_vreg (\<lambda>d. andthen (ins ''mov'' [Vr d, Nm nm]) (bnd (TV d (Some TYPE_U16)) (\<lambda>t. ret (Some t))))
            else if k = NIB_FAR_ADDR \<and> fi \<noteq> None
            then bnd (emit_far_const (Nm (''SEG '' @ nm)) (Nm nm)) (\<lambda>t. ret (Some t))
            else if k = NIB_FAR_ADDR
            then case s of
                   Some smb \<Rightarrow>
                     if is_stack_local smb then bnd (emit_stack_far_addr smb) (\<lambda>t. ret (Some t))
                     else if is_global smb
                     then bnd (emit_far_const (Nm (''SEG '' @ sy_name smb)) (Nm (sy_name smb))) (\<lambda>t. ret (Some t))
                     else andthen cerr (bnd alloc_vreg (\<lambda>a. bnd alloc_vreg (\<lambda>b. bnd (TV_FAR a b) (\<lambda>t. ret (Some t)))))
                 | None \<Rightarrow> andthen cerr (bnd alloc_vreg (\<lambda>a. bnd alloc_vreg (\<lambda>b. bnd (TV_FAR a b) (\<lambda>t. ret (Some t)))))
            else if k = NIB_ADDR
            then case s of
                   Some smb \<Rightarrow>
                     if is_stack_local smb
                     then bnd (emit_stack_addr smb) (\<lambda>d. bnd (TV d (Some TYPE_U16)) (\<lambda>t. ret (Some t)))
                     else ret None
                 | None \<Rightarrow> ret None
            else ret None))
      | _ \<Rightarrow> ret None)"

definition unop_code :: "op_kind \<Rightarrow> typed_vreg \<Rightarrow> typed_vreg comp" where
  "unop_code k x =
     bnd alloc_vreg (\<lambda>d.
       if k = NIB_ADDR then andthen (ins ''mov'' [Vr d, Vr (tv_vreg x)]) (TV d (Some TYPE_U16))
       else andthen
              (cerr_if (tv_type x \<noteq> None \<and>
                 (if k = NIB_NEG then \<not> type_is_integer (tv_type x)
                  else if k = NIB_NOT then \<not> type_is_integer (tv_type x) \<and> tv_type x \<noteq> Some TYPE_BOOL
                  else if k = NIB_LNOT then tv_type x \<noteq> Some TYPE_BOOL else False)))
              (andthen (ins (op_str k) [Vr d, Vr (tv_vreg x)])
                 (TV d (if k = NIB_LNOT then Some TYPE_BOOL else tv_type x))))"

section \<open>Calls\<close>

text \<open>Far parameters take two registers, the offset and the segment.\<close>

definition split_far_arg :: "expr_t \<Rightarrow> typed_vreg \<Rightarrow> int list comp" where
  "split_far_arg e v =
     (if tv_seg v \<ge> 0 then ret [tv_vreg v, tv_seg v]
      else bnd (case e of EXPR_IDENT _ nm \<Rightarrow> sym_lookup nm | _ \<Rightarrow> ret None) (\<lambda>s.
        case (case s of Some smb \<Rightarrow> if sy_vreg_seg smb \<ge> 0 then Some smb else None | None \<Rightarrow> None) of
          Some smb \<Rightarrow> ret [sy_vreg smb, sy_vreg_seg smb]
        | None \<Rightarrow>
            bnd alloc_vreg (\<lambda>off_v. bnd alloc_vreg (\<lambda>seg_v.
              andthen (block [ins ''far.off'' [Vr off_v, Vr (tv_vreg v)], ins ''far.seg'' [Vr seg_v, Vr (tv_vreg v)]])
                (ret [off_v, seg_v])))))"

fun ir_args :: "bool list \<Rightarrow> (expr_t \<times> typed_vreg) list \<Rightarrow> int list comp" where
  "ir_args fars [] = ret []"
| "ir_args fars ((e, v) # avs) =
     bnd (if fars \<noteq> [] \<and> hd fars then split_far_arg e v else ret [tv_vreg v]) (\<lambda>xs.
       bnd (ir_args (tl fars) avs) (\<lambda>ys. ret (xs @ ys)))"

definition sig_types :: "function_sig option \<Rightarrow> type_t list" where
  "sig_types fi = (case fi of Some f \<Rightarrow> fs_param_types f | None \<Rightarrow> [])"

definition sig_fars :: "function_sig option \<Rightarrow> bool list" where
  "sig_fars fi = (case fi of Some f \<Rightarrow> fs_param_is_far f | None \<Rightarrow> [])"

definition ret_type :: "function_sig option \<Rightarrow> type_t option" where
  "ret_type fi = (case fi of Some f \<Rightarrow> fs_return_type f | None \<Rightarrow> Some TYPE_VOID)"

definition vregs_of :: "int list \<Rightarrow> nir_opnd list" where
  "vregs_of vs = map Vr vs"

section \<open>Built-in functions\<close>

text \<open>String instructions: registers preferred by the machine, the count from the type of the first
  argument, \<^verbatim>\<open>ES\<close> set from \<^verbatim>\<open>DS\<close>.\<close>

definition string_setup :: "unit comp" where
  "string_setup = block [ins ''push'' [Nm ''DS''], ins ''pop'' [Nm ''ES''], ins ''setflag'' [Nm ''DF'', Im 0]]"

definition string_builtin :: "string \<Rightarrow> string \<Rightarrow> typed_vreg list \<Rightarrow> unit comp" where
  "string_builtin second rep avs =
     (case avs of
        a # b # _ \<Rightarrow>
          bnd (type_size (tv_type a)) (\<lambda>sz.
          bnd alloc_vreg (\<lambda>di. bnd alloc_vreg (\<lambda>x. bnd alloc_vreg (\<lambda>cx.
            block [emit_nir (NPrefer di ''DI''), emit_nir (NPrefer x second),
                   (if second = ''AL'' then emit_nir (NVreg x [''u8'']) else ret ()),
                   emit_nir (NPrefer cx ''CX''),
                   ins ''mov'' [Vr di, Vr (tv_vreg a)], ins ''mov'' [Vr x, Vr (tv_vreg b)], ins ''mov'' [Vr cx, Im sz],
                   string_setup, ins rep []]))))
      | _ \<Rightarrow> ret ())"

definition ins_if :: "nat \<Rightarrow> typed_vreg list \<Rightarrow> string \<Rightarrow> nir_opnd list \<Rightarrow> unit comp" where
  "ins_if n avs nm xs = (if length avs \<ge> n then ins nm xs else ret ())"

definition arg :: "typed_vreg list \<Rightarrow> nat \<Rightarrow> nir_opnd" where
  "arg avs i = Vr (tv_vreg (avs ! i))"

text \<open>The built-ins of one instruction: the number of arguments, the name and the operands of the
  instruction, and the type of the result.\<close>

definition simple_builtin :: "string \<Rightarrow> typed_vreg list \<Rightarrow> int \<Rightarrow> (nat \<times> string \<times> nir_opnd list \<times> type_t) option" where
  "simple_builtin nm avs d =
     (if nm = ''halt'' then Some (0, ''hlt'', [], TYPE_VOID)
      else if nm \<in> set [''nop'', ''pushf'', ''popf'', ''cli'', ''sti''] then Some (0, nm, [], TYPE_VOID)
      else if nm = ''salc'' then Some (0, ''salc'', [Vr d], TYPE_U8)
      else if nm = ''sign_extend'' then Some (1, ''cbw'', [Vr d, arg avs 0], TYPE_U16)
      else if nm = ''zero_extend'' then Some (1, ''zext'', [Vr d, arg avs 0], TYPE_U16)
      else if nm = ''bound'' then Some (3, ''bound'', [arg avs 0, arg avs 1, arg avs 2], TYPE_VOID)
      else if nm \<in> set [''daa'', ''das'', ''aaa'', ''aas'', ''aam'', ''aad''] then Some (1, nm, [arg avs 0], TYPE_U8)
      else if nm = ''emulate'' then Some (2, ''brkem'', [arg avs 0, arg avs 1], TYPE_VOID)
      else if nm = ''divmod'' then Some (4, ''div'', [arg avs 0, arg avs 1, arg avs 2, arg avs 3], TYPE_VOID)
      else if nm = ''sdivmod'' then Some (4, ''idiv'', [arg avs 0, arg avs 1, arg avs 2, arg avs 3], TYPE_VOID)
      else if nm = ''extract'' then Some (3, ''bext'', [Vr d, arg avs 0, arg avs 1, arg avs 2], TYPE_U16)
      else if nm = ''insert'' then Some (4, ''bins'', [arg avs 0, arg avs 1, arg avs 2, arg avs 3], TYPE_VOID)
      else if nm = ''nibble_rol'' then Some (1, ''rol4'', [Vr d, arg avs 0], TYPE_U8)
      else if nm = ''nibble_ror'' then Some (1, ''ror4'', [Vr d, arg avs 0], TYPE_U8)
      else if nm = ''swap_flags'' then Some (1, ''swap_flags'', [Vr d, arg avs 0], TYPE_U8)
      else None)"

definition builtin_call :: "string \<Rightarrow> typed_vreg list \<Rightarrow> int \<Rightarrow> typed_vreg comp option" where
  "builtin_call nm avs d =
     (case simple_builtin nm avs d of
        Some (n, i, xs, ty) \<Rightarrow> Some (andthen (ins_if n avs i xs) (TV d (Some ty)))
      | None \<Rightarrow>
        if nm = ''frame_enter'' \<or> nm = ''frame_leave''
        then Some (bnd (gets cur_fn_is_bare) (\<lambda>bare. andthen (cerr_if (\<not> bare)) (andthen (ins nm []) (TV d (Some TYPE_VOID)))))
        else if nm = ''memcopy'' then Some (andthen (string_builtin ''SI'' ''rep movsb'' avs) (TV d (Some TYPE_VOID)))
        else if nm = ''memset'' then Some (andthen (string_builtin ''AL'' ''rep stosb'' avs) (TV d (Some TYPE_VOID)))
        else if nm = ''memcmp'' then Some (andthen (string_builtin ''SI'' ''repe cmpsb'' avs) (TV d (Some TYPE_BOOL)))
        else if nm = ''memscan''
        then Some (andthen (if length avs \<ge> 2
                            then block [emit_nir (NNote ''memscan'' [arg avs 0, arg avs 1]), string_setup, ins ''repne scasb'' []]
                            else ret ()) (TV d (Some TYPE_U16)))
        else if nm = ''xlat''
        then Some (andthen (if length avs \<ge> 2
                            then block [emit_nir (NNote ''xlat'' [Ix (tv_vreg (avs ! 0)) (tv_vreg (avs ! 1))]),
                                        ins ''xlat'' [Vr d, arg avs 0, arg avs 1]]
                            else ret ()) (TV d (Some TYPE_U8)))
        else if nm = ''load''
        then Some (andthen (if length avs \<ge> 1
                            then block [ins ''setflag'' [Nm ''DF'', Im 0], ins ''lods'' [Vr d, arg avs 0]] else ret ())
                     (TV d (case (if length avs \<ge> 1 \<and> tv_type (avs ! 0) \<noteq> None then type_of_element (tv_type (avs ! 0)) else None) of
                              Some t \<Rightarrow> Some t | None \<Rightarrow> Some TYPE_U8)))
        else if nm = ''store''
        then Some (andthen (if length avs \<ge> 2
                            then block [ins ''setflag'' [Nm ''DF'', Im 0], ins ''stos'' [arg avs 0, arg avs 1]] else ret ())
                     (TV d (Some TYPE_VOID)))
        else None)"

definition call_code :: "expr_t \<Rightarrow> string \<Rightarrow> function_sig option \<Rightarrow> expr_t list \<Rightarrow> typed_vreg list \<Rightarrow> typed_vreg comp" where
  "call_code f nm fi args avs =
     bnd alloc_vreg (\<lambda>d.
       case builtin_call nm avs d of
         Some m \<Rightarrow> m
       | None \<Rightarrow>
           let known = (case f of EXPR_IDENT _ _ \<Rightarrow> fi | _ \<Rightarrow> None)
           in andthen
                (case known of
                   Some g \<Rightarrow> andthen (cerr_if (fs_nparams g \<noteq> int (length args))) (cerr_if (length (fs_return_types g) > 1))
                 | None \<Rightarrow> ret ())
                (bnd (ir_args (sig_fars fi) (zip args avs)) (\<lambda>xs.
                   andthen (ins ''call'' ([Vr d, Nm nm] @ vregs_of xs)) (TV d (ret_type known)))))"

definition icall_code :: "typed_vreg \<Rightarrow> function_sig option \<times> string \<Rightarrow> expr_t list \<Rightarrow> typed_vreg list \<Rightarrow> typed_vreg comp" where
  "icall_code a fd args avs =
     bnd alloc_vreg (\<lambda>d. bnd (ir_args (sig_fars (fst fd)) (zip args avs)) (\<lambda>xs.
       andthen (ins ''icall'' ([Vr d, Vr (tv_vreg a)] @ (if tv_seg a \<ge> 0 then [Vr (tv_seg a)] else []) @ [Nm (snd fd)] @ vregs_of xs))
         (TV d (ret_type (fst fd)))))"

definition ncall_code :: "typed_vreg \<Rightarrow> function_sig option \<times> string \<Rightarrow> expr_t list \<Rightarrow> typed_vreg list \<Rightarrow> typed_vreg comp" where
  "ncall_code a fd args avs =
     bnd alloc_vreg (\<lambda>d. bnd (ir_args (sig_fars (fst fd)) (zip args avs)) (\<lambda>xs.
       andthen (ins ''ncall'' ([Vr d, Vr (tv_vreg a), Nm (snd fd)] @ vregs_of xs)) (TV d (ret_type (fst fd)))))"

section \<open>Arrays and far pointers\<close>

text \<open>The element type of an array, a byte when it is not known, and the shift that scales an
  index. Only words, double words, segments and far pointers are scaled.\<close>

definition elem_of :: "type_t option \<Rightarrow> type_t" where
  "elem_of t = (case type_of_element t of Some e \<Rightarrow> e | None \<Rightarrow> TYPE_U8)"

definition elem_shift :: "type_t \<Rightarrow> int" where
  "elem_shift e = (if e = TYPE_U16 \<or> e = TYPE_SEG then 1 else if e = TYPE_FAR \<or> e = TYPE_U32 then 2 else 0)"

definition scale_index :: "int \<Rightarrow> int \<Rightarrow> int comp" where
  "scale_index idx sh = (if sh > 0 then bnd alloc_vreg (\<lambda>s. andthen (ins ''shl'' [Vr s, Vr idx, Im sh]) (ret s)) else ret idx)"

definition check_index :: "typed_vreg \<Rightarrow> typed_vreg \<Rightarrow> unit comp" where
  "check_index arr idx =
     andthen (cerr_if (tv_type arr \<noteq> None \<and> \<not> type_is_aggregate (tv_type arr)))
       (cerr_if (tv_type idx \<noteq> None \<and> \<not> type_is_integer (tv_type idx)))"

definition index_code :: "typed_vreg \<Rightarrow> typed_vreg \<Rightarrow> typed_vreg comp" where
  "index_code arr idx =
     (let el = elem_of (tv_type arr)
      in andthen (check_index arr idx)
           (bnd (scale_index (tv_vreg idx) (elem_shift el)) (\<lambda>si. bnd alloc_vreg (\<lambda>d.
              if el = TYPE_FAR
              then bnd alloc_vreg (\<lambda>a.
                     andthen (ins ''add'' [Vr a, Vr (tv_vreg arr), Vr si])
                       (bnd alloc_vreg (\<lambda>off_v. bnd alloc_vreg (\<lambda>seg_v.
                          andthen (block [ins ''far.off'' [Vr off_v, Vr a], ins ''far.seg'' [Vr seg_v, Vr a]]) (TV_FAR off_v seg_v)))))
              else if type_is_aggregate (Some el)
              then andthen (ins ''add'' [Vr d, Vr (tv_vreg arr), Vr si]) (TV d (Some el))
              else andthen (ins (if el = TYPE_U8 then ''loadb'' else ''load'') [Vr d, Ix (tv_vreg arr) si]) (TV d (Some el))))))"

definition array_len :: "type_t option \<Rightarrow> int" where
  "array_len t = (case t of Some (TYPE_ARRAY _ n _) \<Rightarrow> n | Some (TYPE_BCD n) \<Rightarrow> n | _ \<Rightarrow> 0)"

definition checked_index_code :: "typed_vreg \<Rightarrow> typed_vreg \<Rightarrow> typed_vreg comp" where
  "checked_index_code arr idx =
     (let el = elem_of (tv_type arr)
      in andthen (check_index arr idx)
           (bnd (scale_index (tv_vreg idx) (elem_shift el)) (\<lambda>si. bnd alloc_vreg (\<lambda>d.
              andthen (ins ''bound'' [Vr (tv_vreg idx), Im (if array_len (tv_type arr) > 0 then array_len (tv_type arr) else 0)])
                (andthen (ins (if el = TYPE_U8 then ''loadb'' else ''load'') [Vr d, Ix (tv_vreg arr) si]) (TV d (Some el)))))))"

text \<open>A component of a far value.\<close>

definition far_part :: "string \<Rightarrow> int \<Rightarrow> int \<Rightarrow> typed_vreg comp" where
  "far_part nm off seg =
     (if nm = ''off'' then TV off (Some TYPE_U16)
      else if nm = ''seg'' then TV seg (Some TYPE_SEG)
      else andthen cerr (TV off (Some TYPE_U16)))"

definition raw_field_code :: "expr_t \<Rightarrow> typed_vreg \<Rightarrow> string \<Rightarrow> typed_vreg comp" where
  "raw_field_code e obj nm =
     (case tv_type obj of
        Some (TYPE_ARRAY el n _) \<Rightarrow>
          if nm = ''len'' then bnd alloc_vreg (\<lambda>d. andthen (ins ''mov'' [Vr d, Im n]) (TV d (Some TYPE_U16)))
          else if nm = ''sz''
          then bnd alloc_vreg (\<lambda>d.
                 andthen (ins ''mov'' [Vr d, Im (n * 2 ^ nat (case el of Some t \<Rightarrow> elem_shift t | None \<Rightarrow> 0))]) (TV d (Some TYPE_U16)))
          else andthen cerr (emit_struct_field_value obj nm True)
      | Some TYPE_FAR \<Rightarrow>
          bnd (case e of EXPR_IDENT _ s \<Rightarrow> sym_lookup s | _ \<Rightarrow> ret None) (\<lambda>s.
            case (case s of Some smb \<Rightarrow> if sy_vreg_seg smb \<ge> 0 then Some smb else None | None \<Rightarrow> None) of
              Some smb \<Rightarrow> far_part nm (sy_vreg smb) (sy_vreg_seg smb)
            | None \<Rightarrow>
                if tv_seg obj \<ge> 0 then far_part nm (tv_vreg obj) (tv_seg obj)
                else bnd alloc_vreg (\<lambda>d.
                       if nm = ''off'' then andthen (ins ''far.off'' [Vr d, Vr (tv_vreg obj)]) (TV d (Some TYPE_U16))
                       else if nm = ''seg'' then andthen (ins ''far.seg'' [Vr d, Vr (tv_vreg obj)]) (TV d (Some TYPE_SEG))
                       else andthen cerr (TV d (Some TYPE_U16))))
      | _ \<Rightarrow> emit_struct_field_value obj nm True)"

end
