(* ===== verification/Compile_Gen.thy ===== *)
theory Compile_Gen
  imports Compile_Emit
begin

text \<open>
  The recursion over expressions: \<^verbatim>\<open>emit_expr_typed\<close>, \<^verbatim>\<open>emit_expr_typed_for\<close> and
  \<^verbatim>\<open>emit_deref_load\<close> of \<^verbatim>\<open>src/compile.c\<close>, with the loop over the arguments of a call.
\<close>

definition fn_name_of :: "expr_t \<Rightarrow> string" where
  "fn_name_of f = (case f of EXPR_IDENT _ nm \<Rightarrow> nm | _ \<Rightarrow> ''?'')"

text \<open>A value without a type takes the integer type of its context.\<close>

definition for_default :: "type_t option \<Rightarrow> typed_vreg comp \<Rightarrow> typed_vreg comp" where
  "for_default target m =
     bnd m (\<lambda>v.
       if type_is_integer target \<and> tv_type v = None
       then bnd (TV (tv_vreg v) target) (\<lambda>_. ret (v\<lparr>tv_type := target\<rparr>)) else ret v)"

definition for_unop_code :: "op_kind \<Rightarrow> type_t option \<Rightarrow> typed_vreg \<Rightarrow> typed_vreg comp" where
  "for_unop_code k target x =
     andthen (cerr_if (tv_type x \<noteq> None \<and> \<not> type_is_integer (tv_type x) \<and> (k = NIB_NEG \<or> tv_type x \<noteq> Some TYPE_BOOL)))
       (bnd alloc_vreg (\<lambda>d.
          andthen (ins (op_str k) [Vr d, Vr (tv_vreg x)]) (TV d (if tv_type x \<noteq> None then tv_type x else target))))"

definition for_binop_code :: "op_kind \<Rightarrow> type_t option \<Rightarrow> typed_vreg \<Rightarrow> int option \<Rightarrow> typed_vreg \<Rightarrow> typed_vreg comp" where
  "for_binop_code k target l imm r =
     bnd (if binop_is_shift k then andthen (check_shift l) (ret (if tv_type l \<noteq> None then tv_type l else target))
          else bnd (check_arith (tv_type l) (tv_type r) k) (\<lambda>ty. ret (if ty \<noteq> None then ty else target))) (\<lambda>ty.
       bnd alloc_vreg (\<lambda>d. andthen (ins (op_str k) [Vr d, Vr (tv_vreg l), right_opnd imm r]) (TV d ty)))"

definition port_opnd :: "int option \<Rightarrow> typed_vreg \<Rightarrow> nir_opnd" where
  "port_opnd imm p = (case imm of Some n \<Rightarrow> Im n | None \<Rightarrow> Vr (tv_vreg p))"

definition port_out_code :: "bool \<Rightarrow> int option \<Rightarrow> typed_vreg \<Rightarrow> typed_vreg \<Rightarrow> unit comp" where
  "port_out_code wide imm p v =
     (if wide
      then andthen (if tv_type v \<noteq> None then bnd (type_size (tv_type v)) (\<lambda>n. cerr_if (n \<noteq> 2)) else ret ())
             (ins ''out'' [port_opnd imm p, Vr (tv_vreg v)])
      else bnd (if tv_type v = None then ret True else bnd (type_size (tv_type v)) (\<lambda>n. ret (n = 1))) (\<lambda>byte_io.
             ins (if byte_io then ''outb'' else ''out'') [port_opnd imm p, Vr (tv_vreg v)]))"

function (sequential)
  emit_expr_typed :: "expr_t \<Rightarrow> typed_vreg comp" and
  emit_expr_typed_for :: "expr_t \<Rightarrow> type_t option \<Rightarrow> typed_vreg comp" and
  emit_deref_load :: "expr_t \<Rightarrow> int \<Rightarrow> type_t option \<Rightarrow> typed_vreg comp" and
  emit_args :: "expr_t list \<Rightarrow> type_t list \<Rightarrow> typed_vreg list comp" and
  emit_port :: "expr_t \<Rightarrow> (int option \<times> typed_vreg) comp"
where
  "emit_expr_typed (EXPR_LIT_INT _ n) = bnd alloc_vreg (\<lambda>r. andthen (ins ''mov'' [Vr r, Im n]) (TV r None))"
| "emit_expr_typed (EXPR_LIT_STR _ s) = emit_str s"
| "emit_expr_typed (EXPR_IDENT _ nm) = emit_ident nm"
| "emit_expr_typed (EXPR_REG _ reg rc) = emit_reg (reg_name_str reg rc) (reg_type rc) reg rc"
| "emit_expr_typed (EXPR_SREG _ reg) = emit_reg (sreg_name reg) TYPE_SEG reg REGCLASS_SEG"
| "emit_expr_typed (EXPR_FLAG _ f) =
     bnd alloc_vreg (\<lambda>r. andthen (ins ''getflag'' [Vr r, Nm (flag_name f)]) (TV r (Some TYPE_BOOL)))"
| "emit_expr_typed (EXPR_BINOP _ k l r) =
     bnd (emit_expr_typed l) (\<lambda>x.
       bnd (if lit_int r \<noteq> None then ret no_tv else emit_expr_typed r) (\<lambda>y. binop_code k x (lit_int r) y))"
| "emit_expr_typed (EXPR_UNOP _ k e) =
     bnd (unop_special k e) (\<lambda>t. case t of Some v \<Rightarrow> ret v | None \<Rightarrow> bnd (emit_expr_typed e) (unop_code k))"
| "emit_expr_typed (EXPR_CALL _ f args) =
     (let nm = fn_name_of f
      in if nm = ''assume''
         then case args of
                [a] \<Rightarrow> bnd (emit_expr_typed a) (\<lambda>c.
                         andthen (cerr_if (tv_type c \<noteq> None \<and> tv_type c \<noteq> Some TYPE_BOOL))
                           (andthen (ins ''assume'' [Vr (tv_vreg c)]) (TV (-1) (Some TYPE_VOID))))
              | _ \<Rightarrow> andthen cerr (TV (-1) (Some TYPE_VOID))
         else if nm = ''port_in'' \<or> nm = ''port_in16''
         then bnd alloc_vreg (\<lambda>d.
                andthen
                  (case args of
                     [] \<Rightarrow> ret ()
                   | p # _ \<Rightarrow> bnd (emit_port p) (\<lambda>(imm, v). ins (if nm = ''port_in'' then ''inb'' else ''in'') [Vr d, port_opnd imm v]))
                  (TV d (Some (if nm = ''port_in'' then TYPE_U8 else TYPE_U16))))
         else if nm = ''port_out'' \<or> nm = ''port_out16''
         then bnd alloc_vreg (\<lambda>d.
                andthen
                  (case args of
                     p # v # _ \<Rightarrow>
                       bnd (emit_port p) (\<lambda>(imm, pv). bnd (emit_expr_typed v) (port_out_code (nm = ''port_out16'') imm pv))
                   | _ \<Rightarrow> ret ())
                  (TV d (Some TYPE_VOID)))
         else bnd (find_function nm) (\<lambda>fi. bnd (emit_args args (sig_types fi)) (call_code f nm fi args)))"
| "emit_expr_typed (EXPR_INDIRECT_CALL _ a nm m args) =
     bnd (emit_expr_typed a) (\<lambda>av. bnd (find_indirect_descriptor nm m) (\<lambda>fd.
       bnd (emit_args args (sig_types (fst fd))) (icall_code av fd args)))"
| "emit_expr_typed (EXPR_NEAR_INDIRECT_CALL _ a nm args) =
     bnd (emit_expr_typed a) (\<lambda>av. bnd (find_indirect_descriptor nm None) (\<lambda>fd.
       andthen (cerr_if (tv_type av = Some TYPE_FAR))
         (bnd (emit_args args (sig_types (fst fd))) (ncall_code av fd args))))"
| "emit_expr_typed (EXPR_INDEX _ a i) = bnd (emit_expr_typed a) (\<lambda>x. bnd (emit_expr_typed i) (index_code x))"
| "emit_expr_typed (EXPR_CHECKED_INDEX _ a i) = bnd (emit_expr_typed a) (\<lambda>x. bnd (emit_expr_typed i) (checked_index_code x))"
| "emit_expr_typed (EXPR_FIELD _ e nm) = bnd (emit_expr_typed e) (\<lambda>obj. emit_struct_field_value obj nm False)"
| "emit_expr_typed (EXPR_RAW_FIELD _ e nm) = bnd (emit_expr_typed e) (\<lambda>obj. raw_field_code e obj nm)"
| "emit_expr_typed (EXPR_MEM _ m) = emit_mem_load m None"
| "emit_expr_typed (EXPR_FAR_LIT _ s off se oe) =
     bnd alloc_vreg (\<lambda>seg_tmp. bnd alloc_vreg (\<lambda>seg. bnd alloc_vreg (\<lambda>ov.
       bnd (const_or se s) (\<lambda>s. bnd (const_or oe off) (\<lambda>off.
         andthen (block [ins ''mov'' [Vr seg_tmp, Hx (take_bit 16 s)], emit_nir (NVreg seg [''seg'']),
                         ins ''mov'' [Vr seg, Vr seg_tmp], ins ''mov'' [Vr ov, Hx (take_bit 16 off)]])
           (TV_FAR ov seg))))))"
| "emit_expr_typed (EXPR_CAST _ e t) = bnd (emit_expr_typed_for e (Some t)) (\<lambda>v. TV (tv_vreg v) (Some t))"
| "emit_expr_typed (EXPR_PAREN _ e) = TV (-1) None"
| "emit_expr_typed (EXPR_ARRAY_INIT _ es) = andthen cerr (fresh_tv (Some TYPE_VOID))"
| "emit_expr_typed (EXPR_DEREF _ e sg) = emit_deref_load e sg None"
| "emit_expr_typed_for e target =
     (case e of
        EXPR_MEM _ m \<Rightarrow> emit_mem_load m target
      | EXPR_DEREF _ p sg \<Rightarrow> emit_deref_load p sg target
      | EXPR_CAST _ x t \<Rightarrow>
          if is_contextual_mem_load_type (Some t)
          then bnd (emit_expr_typed_for x (Some t)) (\<lambda>v. ret (v\<lparr>tv_type := Some t\<rparr>))
          else for_default target (emit_expr_typed e)
      | EXPR_LIT_INT _ n \<Rightarrow>
          if type_is_integer target then bnd alloc_vreg (\<lambda>r. andthen (ins ''mov'' [Vr r, Im n]) (TV r target))
          else for_default target (emit_expr_typed e)
      | EXPR_UNOP _ k x \<Rightarrow>
          if type_is_integer target \<and> (k = NIB_NEG \<or> k = NIB_NOT)
          then bnd (emit_expr_typed_for x target) (for_unop_code k target)
          else for_default target (emit_expr_typed e)
      | EXPR_BINOP _ k l r \<Rightarrow>
          if type_is_integer target \<and> \<not> binop_is_compare k \<and> k \<noteq> NIB_XCHG
          then bnd (emit_expr_typed_for l target) (\<lambda>x.
                 bnd (if lit_int r \<noteq> None then ret no_tv
                      else emit_expr_typed_for r (if binop_is_shift k then None else target)) (\<lambda>y.
                   for_binop_code k target x (lit_int r) y))
          else for_default target (emit_expr_typed e)
      | _ \<Rightarrow> for_default target (emit_expr_typed e))"
| "emit_deref_load p sg target =
     bnd alloc_vreg (\<lambda>d. bnd (format_direct_addr p sg) (\<lambda>a.
       if a \<noteq> [] then andthen (ins ''loadmem'' [Vr d, Nm a]) (TV d (load_type target))
       else bnd (emit_expr_typed p) (\<lambda>ptr. andthen (deref_load_code d ptr sg) (TV d (load_type target)))))"
| "emit_args [] pts = ret []"
| "emit_args (e # es) pts =
     bnd (emit_expr_typed_for e (case pts of [] \<Rightarrow> None | t # _ \<Rightarrow> Some t)) (\<lambda>v.
       bnd (emit_args es (tl pts)) (\<lambda>vs. ret (v # vs)))"
| "emit_port p =
     bnd (eval_const p) (\<lambda>c.
       case c of Some n \<Rightarrow> ret (Some n, no_tv) | None \<Rightarrow> bnd (emit_expr_typed p) (\<lambda>v. ret (None, v)))"
  by pat_completeness auto
termination
  by (relation "measure (\<lambda>x. case x of
         Inl y \<Rightarrow> (case y of Inl e \<Rightarrow> 2 * size e | Inr (e, _) \<Rightarrow> 2 * size e + 1)
       | Inr y \<Rightarrow> (case y of Inl (e, _) \<Rightarrow> 2 * size e + 1
                  | Inr z \<Rightarrow> (case z of Inl (es, _) \<Rightarrow> 2 * size_list size es | Inr e \<Rightarrow> 2 * size e + 1)))") auto

declare emit_expr_typed_for.simps [simp del] emit_deref_load.simps [simp del] emit_port.simps [simp del]

end
