(* ===== verification/Compile_Stmt.thy ===== *)
theory Compile_Stmt
  imports Compile_Gen
begin

text \<open>
  Code for statements, \<^verbatim>\<open>emit_stmt\<close> of \<^verbatim>\<open>src/compile.c\<close>: declarations, assignments with
  their flag checks, control flow, returns and calls in tail position.
\<close>

section \<open>Declarations\<close>

text \<open>Changes of a symbol of the innermost scope through the pointer that \<^verbatim>\<open>sym_add\<close> returned;
  the virtual register identifies it.\<close>

definition update_symbol :: "int \<Rightarrow> (symbol_t \<Rightarrow> symbol_t) \<Rightarrow> unit comp" where
  "update_symbol v f =
     modify (\<lambda>C. C\<lparr>scope := map (\<lambda>s. if sy_vreg s = v then f s else s) (hd (scope C)) # tl (scope C)\<rparr>)"

definition emit_initializer :: "expr_t \<Rightarrow> type_t option \<Rightarrow> typed_vreg comp" where
  "emit_initializer e target =
     (if type_is_integer target
      then bnd (eval_const e) (\<lambda>c.
             case c of
               Some n \<Rightarrow> bnd alloc_vreg (\<lambda>r. andthen (ins ''mov'' [Vr r, Im n]) (TV r target))
             | None \<Rightarrow> emit_expr_typed_for e target)
      else emit_expr_typed_for e target)"

text \<open>The type of an array without a size takes the size of its initializer.\<close>

definition infer_size :: "type_t \<Rightarrow> type_t option \<Rightarrow> type_t" where
  "infer_size ty vt =
     (case (ty, vt) of
        (TYPE_ARRAY el n se, Some (TYPE_ARRAY _ m _)) \<Rightarrow> if n = 0 \<and> m > 0 then TYPE_ARRAY el m se else ty
      | _ \<Rightarrow> ty)"

definition is_void :: "type_t option \<Rightarrow> bool" where
  "is_void t \<longleftrightarrow> t = Some TYPE_VOID"

text \<open>A value of type \<open>s\<close> fits a variable of type \<open>d\<close>: equal types, or an integer that is not
  wider.\<close>

definition value_fits :: "type_t option \<Rightarrow> type_t option \<Rightarrow> bool comp" where
  "value_fits d s =
     (if types_equal d s then ret True
      else if type_is_integer d \<and> type_is_integer s then bnd (type_size s) (\<lambda>a. bnd (type_size d) (\<lambda>b. ret (a \<le> b)))
      else ret False)"

definition array_fits :: "type_t \<Rightarrow> type_t option \<Rightarrow> bool" where
  "array_fits d s =
     (case (d, s) of
        (TYPE_ARRAY e1 n _, Some (TYPE_ARRAY e2 m _)) \<Rightarrow> types_equal e1 e2 \<and> m \<le> n
      | _ \<Rightarrow> False)"

definition store_op :: "type_t option \<Rightarrow> string" where
  "store_op t = (if t = Some TYPE_U8 then ''storeb'' else ''store'')"

definition init_code :: "symbol_t \<Rightarrow> type_t \<Rightarrow> expr_t \<Rightarrow> unit comp" where
  "init_code smb ty e =
     bnd (emit_initializer e (Some ty)) (\<lambda>v.
       let ty' = infer_size ty (tv_type v)
       in andthen (update_symbol (sy_vreg smb) (\<lambda>s. s\<lparr>sy_type := Some ty'\<rparr>))
          (andthen
            (if tv_type v = None then ret ()
             else bnd (value_fits (Some ty') (tv_type v)) (\<lambda>ok. cerr_if (\<not> (ok \<or> array_fits ty' (tv_type v) \<or> is_void (tv_type v)))))
            (if is_stack_local smb
             then bnd (emit_stack_addr smb) (\<lambda>a.
                    if type_is_aggregate (Some ty') then cerr else ins (store_op (Some ty')) [Vr a, Vr (tv_vreg v)])
             else andthen (ins ''mov'' [Vr (sy_vreg smb), Vr (tv_vreg v)])
                    (if tv_seg v \<ge> 0 \<and> ty' = TYPE_FAR
                     then bnd alloc_vreg (\<lambda>sg.
                            block [update_symbol (sy_vreg smb) (\<lambda>s. s\<lparr>sy_vreg_seg := sg\<rparr>),
                                   emit_nir (NVreg sg [''seg'']), ins ''mov'' [Vr sg, Vr (tv_seg v)]])
                     else ret ()))))"

definition vardecl_code :: "type_t \<Rightarrow> string option \<Rightarrow> int \<Rightarrow> reg_class \<Rightarrow> expr_t option \<Rightarrow> bool \<Rightarrow> unit comp" where
  "vardecl_code ty nm pr pc ini kc =
     bnd (resolve_type_constants ty) (\<lambda>ty.
     bnd (case nm of Some s \<Rightarrow> sym_add s (Some ty) False | None \<Rightarrow> sym_add_pinned ty pr pc) (\<lambda>smb0.
     bnd (should_stack_allocate_local nm) (\<lambda>taken.
     bnd (if \<not> is_pinned smb0 \<and> taken
          then bnd (type_size (Some ty)) (\<lambda>sz. if sz \<le> 0 then andthen cerr (ret smb0)
                                            else ret (smb0\<lparr>is_stack_local := True, stack_size := sz\<rparr>))
          else ret smb0) (\<lambda>smb1.
     let smb = smb1\<lparr>is_const := kc\<rparr>; v = sy_vreg smb
     in block
          [update_symbol v (\<lambda>_. smb),
           (if is_stack_local smb then emit_nir (NLocal v (stack_size smb) (sy_name smb)) else ret ()),
           cerr_if ((case ty of TYPE_ARRAY _ n _ \<Rightarrow> n = 0 | _ \<Rightarrow> False) \<and> ini = None),
           (if is_const smb \<and> \<not> is_stack_local smb
            then emit_nir (NVreg v [if ty = TYPE_U8 then ''u8'' else ''u16'', ''const'']) else ret ()),
           (if is_pinned smb
            then block [emit_nir (NPin v (reg_name_str (sy_pinned_reg smb) (sy_pin_class smb))),
                        emit_nir (NPrefer v (reg_name_str (sy_pinned_reg smb) (sy_pin_class smb)))]
            else ret ()),
           (case ini of None \<Rightarrow> ret () | Some e \<Rightarrow> init_code smb ty e)]))))"

section \<open>Assignments\<close>

definition store_global :: "symbol_t \<Rightarrow> int \<Rightarrow> unit comp" where
  "store_global smb v =
     ins ''storemem'' [Nm (if sy_has_at smb then ''[0x'' @ hex_int 4 (sy_at_off smb) @ '']'' else ''['' @ sy_name smb @ '']''), Vr v]"

definition store_stack :: "symbol_t \<Rightarrow> int \<Rightarrow> unit comp" where
  "store_stack smb v = bnd (emit_stack_addr smb) (\<lambda>a. ins (store_op (sy_type smb)) [Vr a, Vr v])"

text \<open>The symbol of a register that is assigned to, with its name.\<close>

definition target_reg :: "expr_t \<Rightarrow> (symbol_t \<times> string) comp" where
  "target_reg t =
     (let (nm, ty, reg, rc) =
        (case t of
           EXPR_REG _ reg rc \<Rightarrow> (reg_name_str reg rc, reg_type rc, reg, rc)
         | EXPR_SREG _ reg \<Rightarrow> (sreg_name reg, TYPE_SEG, reg, REGCLASS_SEG)
         | _ \<Rightarrow> ([], TYPE_VOID, 0, REGCLASS_WORD))
      in bnd (reg_symbol nm ty reg rc) (\<lambda>(smb, new).
           andthen (if new then bnd (TV_PIN (sy_vreg smb) (sy_type smb) nm) (\<lambda>_. ret ()) else ret ()) (ret (smb, nm))))"

definition is_reg :: "expr_t \<Rightarrow> bool" where
  "is_reg t = (case t of EXPR_REG _ _ _ \<Rightarrow> True | EXPR_SREG _ _ \<Rightarrow> True | _ \<Rightarrow> False)"

text \<open>The assignment to one target of a call with several results. Here a local on the stack is
  written like a local in a register.\<close>

definition emit_assign_simple :: "expr_t \<Rightarrow> typed_vreg \<Rightarrow> unit comp" where
  "emit_assign_simple t v =
     (case t of
        EXPR_IDENT _ nm \<Rightarrow>
          bnd (sym_lookup nm) (\<lambda>s.
            case s of
              None \<Rightarrow> cerr
            | Some smb \<Rightarrow>
                bnd (type_assignable (sy_type smb) (tv_type v)) (\<lambda>ok.
                  andthen (cerr_if (\<not> ok))
                    (if is_global smb \<and> is_scalar_type (sy_type smb)
                     then andthen (if sy_type smb = Some TYPE_U8 \<and> tv_type v = None
                                   then emit_nir (NVreg (tv_vreg v) [''u8'']) else ret ())
                            (store_global smb (tv_vreg v))
                     else ins ''mov'' [Vr (sy_vreg smb), Vr (tv_vreg v)])))
      | _ \<Rightarrow>
          if is_reg t
          then bnd (target_reg t) (\<lambda>(smb, nm).
                 bnd (type_assignable (sy_type smb) (tv_type v)) (\<lambda>ok.
                   andthen (cerr_if (\<not> ok)) (ins ''mov'' [Vr (sy_vreg smb), Vr (tv_vreg v)])))
          else cerr)"

fun assign_results :: "expr_t list \<Rightarrow> int list \<Rightarrow> type_t list \<Rightarrow> unit comp" where
  "assign_results (t # ts) (v # vs) (ty # tys) =
     bnd (TV v (Some ty)) (\<lambda>tv. andthen (emit_assign_simple t tv) (assign_results ts vs tys))"
| "assign_results _ _ _ = ret ()"

fun alloc_vregs :: "nat \<Rightarrow> int list comp" where
  "alloc_vregs 0 = ret []"
| "alloc_vregs (Suc n) = bnd alloc_vreg (\<lambda>v. bnd (alloc_vregs n) (\<lambda>vs. ret (v # vs)))"

text \<open>The result types are read by the number of targets, also when the call has fewer results.\<close>

definition emit_multi_call_assign :: "expr_t list \<Rightarrow> expr_t \<Rightarrow> unit comp" where
  "emit_multi_call_assign targets value0 =
     (case value0 of
        EXPR_CALL _ (EXPR_IDENT _ nm) args \<Rightarrow>
          bnd (find_function nm) (\<lambda>fi.
            case fi of
              None \<Rightarrow> cerr
            | Some g \<Rightarrow>
                andthen (cerr_if (length (fs_return_types g) \<noteq> length targets))
                  (bnd (emit_args args (fs_param_types g)) (\<lambda>avs.
                     andthen (cerr_if (fs_nparams g \<noteq> int (length args)))
                       (bnd (ir_args (fs_param_is_far g) (zip args avs)) (\<lambda>xs.
                          bnd (alloc_vregs (length targets)) (\<lambda>rvs.
                            andthen (ins ''mcall'' (vregs_of rvs @ [Nm nm] @ vregs_of xs))
                              (if length (fs_return_types g) < length targets then stop Bad_index
                               else andthen (for_each (zip rvs (fs_return_types g)) (\<lambda>(v, ty). emit_nir (NVreg v [type_str ty])))
                                      (assign_results targets rvs (fs_return_types g)))))))))
      | _ \<Rightarrow> cerr)"

text \<open>A literal that is assigned to a flag, a register or a variable is an immediate; \<open>True\<close> when
  the assignment is done.\<close>

definition assign_literal :: "expr_t \<Rightarrow> expr_t \<Rightarrow> bool comp" where
  "assign_literal t e =
     (case lit_int e of
        None \<Rightarrow> ret False
      | Some n \<Rightarrow>
          (case t of
             EXPR_FLAG _ f \<Rightarrow> andthen (ins ''setflag'' [Nm (flag_name f), Im n]) (ret True)
           | _ \<Rightarrow>
               bnd (case t of
                      EXPR_IDENT _ nm \<Rightarrow> sym_lookup nm
                    | _ \<Rightarrow> if is_reg t then bnd (target_reg t) (\<lambda>(smb, _). ret (Some smb)) else ret None) (\<lambda>s.
                 case s of
                   None \<Rightarrow> ret False
                 | Some smb \<Rightarrow>
                     andthen
                       (if is_stack_local smb
                        then bnd alloc_vreg (\<lambda>tmp. andthen (ins ''mov'' [Vr tmp, Im n]) (store_stack smb tmp))
                        else if is_global smb \<and> is_scalar_type (sy_type smb)
                        then bnd alloc_vreg (\<lambda>tmp.
                               block [ins ''mov'' [Vr tmp, Im n],
                                      (if sy_type smb = Some TYPE_U8 then emit_nir (NVreg tmp [''u8'']) else ret ()),
                                      store_global smb tmp])
                        else ins ''mov'' [Vr (sy_vreg smb), Im n])
                       (ret True))))"

definition assign_target_type :: "expr_t \<Rightarrow> type_t option comp" where
  "assign_target_type t =
     (case t of
        EXPR_IDENT _ nm \<Rightarrow> bnd (sym_lookup nm) (\<lambda>s. ret (case s of Some smb \<Rightarrow> sy_type smb | None \<Rightarrow> None))
      | EXPR_REG _ _ rc \<Rightarrow> ret (Some (reg_type rc))
      | EXPR_SREG _ _ \<Rightarrow> ret (Some TYPE_SEG)
      | EXPR_FLAG _ _ \<Rightarrow> ret (Some TYPE_BOOL)
      | _ \<Rightarrow> ret None)"

definition check_assign :: "type_t option \<Rightarrow> type_t option \<Rightarrow> unit comp" where
  "check_assign d s =
     (if s = None \<or> d = None then ret ()
      else bnd (value_fits d s) (\<lambda>ok. cerr_if (\<not> (ok \<or> is_void s))))"

definition store_index_code :: "typed_vreg \<Rightarrow> int \<Rightarrow> typed_vreg \<Rightarrow> unit comp" where
  "store_index_code arr idx v =
     (let el = type_of_element (tv_type arr)
      in bnd (scale_index idx (case el of Some t \<Rightarrow> elem_shift t | None \<Rightarrow> 0)) (\<lambda>si.
           if el = Some TYPE_FAR
           then bnd (if tv_seg v \<ge> 0 then ret (tv_vreg v, tv_seg v)
                     else bnd alloc_vreg (\<lambda>off_v. bnd alloc_vreg (\<lambda>seg_v.
                            andthen (block [ins ''far.off'' [Vr off_v, Vr (tv_vreg v)], ins ''far.seg'' [Vr seg_v, Vr (tv_vreg v)]])
                              (ret (off_v, seg_v))))) (\<lambda>(off_v, seg_v).
                  andthen (ins ''store'' [Ix (tv_vreg arr) si, Vr off_v])
                    (bnd alloc_vreg (\<lambda>si2.
                       block [ins ''add'' [Vr si2, Vr si, Im 2], ins ''store'' [Ix (tv_vreg arr) si2, Vr seg_v]])))
           else ins (store_op el) [Ix (tv_vreg arr) si, Vr (tv_vreg v)]))"

definition store_target :: "expr_t \<Rightarrow> typed_vreg \<Rightarrow> unit comp" where
  "store_target t v =
     (case t of
        EXPR_IDENT _ nm \<Rightarrow>
          bnd (sym_lookup nm) (\<lambda>s.
            case s of
              None \<Rightarrow> cerr
            | Some smb \<Rightarrow>
                andthen (check_assign (sy_type smb) (tv_type v))
                  (if is_stack_local smb then store_stack smb (tv_vreg v)
                   else if is_global smb \<and> is_scalar_type (sy_type smb)
                   then andthen (if sy_type smb = Some TYPE_U8 \<and> tv_type v = None
                                 then emit_nir (NVreg (tv_vreg v) [''u8'']) else ret ())
                          (store_global smb (tv_vreg v))
                   else ins ''mov'' [Vr (sy_vreg smb), Vr (tv_vreg v)]))
      | EXPR_FLAG _ f \<Rightarrow> ins ''setflag'' [Nm (flag_name f), Vr (tv_vreg v)]
      | EXPR_MEM _ m \<Rightarrow> bnd (mem_operand m) (\<lambda>a. ins ''storemem'' [Nm a, Vr (tv_vreg v)])
      | EXPR_DEREF _ p sg \<Rightarrow>
          bnd (format_direct_addr p sg) (\<lambda>a.
            if a \<noteq> [] then ins ''storemem'' [Nm a, Vr (tv_vreg v)]
            else bnd (emit_expr_typed p) (\<lambda>ptr. deref_store_code ptr sg (tv_vreg v)))
      | EXPR_INDEX _ a i \<Rightarrow>
          bnd (emit_expr_typed a) (\<lambda>arr. bnd (emit_expr_typed i) (\<lambda>idx. store_index_code arr (tv_vreg idx) v))
      | EXPR_FIELD _ e nm \<Rightarrow> bnd (emit_expr_typed e) (\<lambda>obj. emit_struct_field_store obj nm v)
      | _ \<Rightarrow>
          if is_reg t
          then bnd (target_reg t) (\<lambda>(smb, nm).
                 andthen (check_assign (sy_type smb) (tv_type v)) (ins ''mov'' [Vr (sy_vreg smb), Vr (tv_vreg v)]))
          else cerr)"

text \<open>The assignment up to its flag checks; \<open>True\<close> when the flag checks follow.\<close>

definition assign_code :: "expr_t list \<Rightarrow> expr_t \<Rightarrow> bool comp" where
  "assign_code ts e =
     (case ts of
        [] \<Rightarrow> ret False
      | t # ts' \<Rightarrow>
          if ts' \<noteq> [] then andthen (emit_multi_call_assign ts e) (ret False)
          else andthen
                 (case t of
                    EXPR_IDENT _ nm \<Rightarrow> bnd (sym_lookup nm) (\<lambda>s. cerr_if (case s of Some smb \<Rightarrow> is_const smb | None \<Rightarrow> False))
                  | _ \<Rightarrow> ret ())
                 (bnd (assign_literal t e) (\<lambda>finished.
                    if finished then ret False
                    else bnd (assign_target_type t) (\<lambda>ty. bnd (emit_expr_typed_for e ty) (\<lambda>v.
                           andthen (store_target t v) (ret True))))))"

definition toggle_code :: "expr_t \<Rightarrow> expr_t \<Rightarrow> unit comp" where
  "toggle_code t e =
     bnd (emit_expr_typed e) (\<lambda>v.
       case t of
         EXPR_FLAG _ f \<Rightarrow> ins ''toggleflag'' [Nm (flag_name f)]
       | EXPR_FIELD _ x nm \<Rightarrow> bnd (emit_expr_typed x) (\<lambda>obj. ins ''togglefield'' [Vr (tv_vreg obj), Nm nm, Vr (tv_vreg v)])
       | _ \<Rightarrow> cerr)"

end
