(* ===== verification/Compile_Flow.thy ===== *)
theory Compile_Flow
  imports Compile_Stmt
begin

text \<open>
  Control flow of \<^verbatim>\<open>emit_stmt\<close> of \<^verbatim>\<open>src/compile.c\<close>: flag checks, conditionals, loops, jumps,
  returns and tail calls, and the recursion over statements.
\<close>

section \<open>Flag checks\<close>

definition flag_id_to_jcc :: "int \<Rightarrow> string" where
  "flag_id_to_jcc i = (if 0 \<le> i \<and> i < 9
     then [''jc'', ''jp'', ''???'', ''jz'', ''js'', ''???'', ''???'', ''jo'', ''???''] ! nat i else ''???'')"

definition flag_id_to_jncc :: "int \<Rightarrow> string" where
  "flag_id_to_jncc i = (if 0 \<le> i \<and> i < 9
     then [''jnc'', ''jnp'', ''???'', ''jnz'', ''jns'', ''???'', ''???'', ''jno'', ''???''] ! nat i else ''???'')"

text \<open>A jump that is emitted for a single flag only.\<close>

definition flag_jump :: "(int \<Rightarrow> string) \<Rightarrow> flag_expr \<Rightarrow> int \<Rightarrow> unit comp" where
  "flag_jump j e l = (case e of FEXPR_FLAG f \<Rightarrow> ins (j f) [Lb l] | _ \<Rightarrow> ret ())"

text \<open>Jumps to \<open>skip\<close> when the condition does not hold. The exclusive or takes the label that
  it counts last for \<open>skip + 1\<close>, which is the label it allocated first.\<close>

definition flag_cond_code :: "flag_expr \<Rightarrow> int \<Rightarrow> unit comp" where
  "flag_cond_code e skip =
     (case e of
        FEXPR_FLAG _ \<Rightarrow> flag_jump flag_id_to_jncc e skip
      | FEXPR_NOT a \<Rightarrow> flag_jump flag_id_to_jcc a skip
      | FEXPR_OR a b \<Rightarrow>
          bnd alloc_label (\<lambda>enter.
            block [flag_jump flag_id_to_jcc a enter, flag_jump flag_id_to_jcc b enter,
                   ins ''jmp'' [Lb skip], emit_nir (NLabel enter)])
      | FEXPR_AND a b \<Rightarrow> block [flag_jump flag_id_to_jncc a skip, flag_jump flag_id_to_jncc b skip]
      | FEXPR_XOR a b \<Rightarrow>
          bnd alloc_label (\<lambda>a_set.
            block [flag_jump flag_id_to_jcc a a_set, flag_jump flag_id_to_jncc b skip,
                   ins ''jmp'' [Lb (skip + 1)], emit_nir (NLabel a_set),
                   flag_jump flag_id_to_jcc b skip, bnd alloc_label (\<lambda>_. ret ())]))"

definition trap_code :: "flag_expr \<Rightarrow> unit comp" where
  "trap_code e = (if e = FEXPR_FLAG FLG_OF then ins ''into'' [] else ins ''int'' [Im 4])"

section \<open>Simple statements\<close>

definition emit_line :: "int \<Rightarrow> unit comp" where
  "emit_line line =
     bnd (gets (\<lambda>C. line > 0 \<and> line \<noteq> last_emitted_line C \<and> src_file C \<noteq> [])) (\<lambda>b.
       if b then bnd (gets src_file) (\<lambda>f.
                   andthen (emit_nir (NLine f line)) (modify (\<lambda>C. C\<lparr>last_emitted_line := line\<rparr>)))
       else ret ())"

definition emit_cond :: "expr_t \<Rightarrow> int comp" where
  "emit_cond e = bnd (emit_expr_typed e) (\<lambda>c.
     andthen (cerr_if (tv_type c \<noteq> None \<and> tv_type c \<noteq> Some TYPE_BOOL)) (ret (tv_vreg c)))"

text \<open>The labels that \<^verbatim>\<open>break\<close> and \<^verbatim>\<open>continue\<close> jump to in a loop, and the body of the loop.\<close>

definition in_loop :: "int \<Rightarrow> int \<Rightarrow> unit comp \<Rightarrow> unit comp" where
  "in_loop top_l end_l m =
     bnd (gets loop_break_label) (\<lambda>sb. bnd (gets loop_continue_label) (\<lambda>sc.
       block [modify (\<lambda>C. C\<lparr>loop_break_label := end_l, loop_continue_label := top_l\<rparr>), m,
              modify (\<lambda>C. C\<lparr>loop_break_label := sb, loop_continue_label := sc\<rparr>)]))"

definition loop_body :: "unit comp \<Rightarrow> unit comp" where
  "loop_body m =
     block [modify (\<lambda>C. C\<lparr>loop_depth := loop_depth C + 1\<rparr>), push_scope, m, pop_scope,
            modify (\<lambda>C. C\<lparr>loop_depth := loop_depth C - 1\<rparr>)]"

definition while_code :: "expr_t \<Rightarrow> unit comp \<Rightarrow> unit comp" where
  "while_code cond body =
     bnd alloc_label (\<lambda>top_l. bnd alloc_label (\<lambda>end_l.
       in_loop top_l end_l
         (andthen (emit_nir (NLabel top_l))
           (bnd (emit_cond cond) (\<lambda>c.
             block [ins ''jz'' [Vr c, Lb end_l], loop_body body, ins ''jmp'' [Lb top_l], emit_nir (NLabel end_l)])))))"

text \<open>The counter of a \<^verbatim>\<open>for\<close> loop is \<^verbatim>\<open>CX\<close>, a pinned symbol of the scope of its body.\<close>

definition for_code :: "expr_t \<Rightarrow> expr_t \<Rightarrow> unit comp \<Rightarrow> unit comp" where
  "for_code start end_e body =
     bnd (require_const_expr end_e) (\<lambda>end_val.
       andthen (cerr_if (end_val \<noteq> 0))
         (bnd alloc_label (\<lambda>top_l. bnd alloc_label (\<lambda>end_l.
           in_loop top_l end_l
             (bnd alloc_vreg (\<lambda>cx.
               block
                 [emit_nir (NPrefer cx ''CX''),
                  (case lit_int start of
                     Some n \<Rightarrow> ins ''mov'' [Vr cx, Im n]
                   | None \<Rightarrow> bnd (emit_expr_typed start) (\<lambda>v. ins ''mov'' [Vr cx, Vr (tv_vreg v)])),
                  emit_nir (NLabel top_l),
                  loop_body
                    (andthen
                      (add_symbol ((new_symbol ''CX'' (Some TYPE_U16) cx)\<lparr>is_pinned := True, sy_pinned_reg := 1\<rparr>))
                      body),
                  ins ''loop'' [Lb top_l, Vr cx],
                  emit_nir (NLabel end_l)]))))))"

definition if_code :: "expr_t \<Rightarrow> unit comp \<Rightarrow> unit comp option \<Rightarrow> unit comp" where
  "if_code cond th el =
     bnd (emit_cond cond) (\<lambda>c. bnd alloc_label (\<lambda>else_l. bnd alloc_label (\<lambda>end_l.
       block
         ([ins ''jz'' [Vr c, Lb else_l], push_scope, th, pop_scope] @
          (case el of
             Some m \<Rightarrow> [ins ''jmp'' [Lb end_l], emit_nir (NLabel else_l), push_scope, m, pop_scope, emit_nir (NLabel end_l)]
           | None \<Rightarrow> [emit_nir (NLabel else_l)])))))"

fun return_values :: "expr_t list \<Rightarrow> return_t list \<Rightarrow> int list comp" where
  "return_values [] rs = ret []"
| "return_values (e # es) rs =
     bnd (emit_expr_typed_for e (case rs of [] \<Rightarrow> None | r # _ \<Rightarrow> Some (re_type r))) (\<lambda>v.
       bnd (case rs of
              [] \<Rightarrow> ret True
            | r # _ \<Rightarrow> if tv_type v = None then ret True else type_assignable (Some (re_type r)) (tv_type v)) (\<lambda>ok.
         andthen (cerr_if (\<not> ok \<and> \<not> is_void (tv_type v)))
           (bnd (return_values es (tl rs)) (\<lambda>vs. ret (tv_vreg v # vs)))))"

definition return_code :: "expr_t list \<Rightarrow> unit comp" where
  "return_code es =
     bnd (gets cur_fn_returns) (\<lambda>rs.
       andthen
         (if es = [] then cerr_if (rs \<noteq> [])
          else andthen (cerr_if (length es \<noteq> length rs))
                 (bnd (return_values es rs) (\<lambda>vs. ins ''retval'' (vregs_of vs))))
         (ins ''ret'' []))"

definition loop_exit :: "(compiler \<Rightarrow> int) \<Rightarrow> unit comp" where
  "loop_exit label_of =
     bnd (gets loop_depth) (\<lambda>d. if d = 0 then cerr else bnd (gets label_of) (\<lambda>l. ins ''jmp'' [Lb l]))"

definition goto_code :: "string \<Rightarrow> unit comp" where
  "goto_code nm = bnd (find_function nm) (\<lambda>fi. ins (if fi \<noteq> None then ''goto.fn'' else ''jmp'') [Nm nm])"

definition tailcall_code :: "expr_t \<Rightarrow> unit comp" where
  "tailcall_code e =
     (case e of
        EXPR_CALL _ f args \<Rightarrow>
          bnd (find_function (fn_name_of f)) (\<lambda>fi. bnd (emit_args args (sig_types fi)) (\<lambda>avs.
            ins ''tailcall'' (Nm (fn_name_of f) # vregs_of (map tv_vreg avs))))
      | EXPR_NEAR_INDIRECT_CALL _ a nm args \<Rightarrow>
          bnd (emit_expr_typed a) (\<lambda>av.
            andthen (cerr_if (tv_type av = Some TYPE_FAR))
              (bnd (find_indirect_descriptor nm None) (\<lambda>(fi, desc).
                bnd (emit_args args (sig_types fi)) (\<lambda>avs. bnd (ir_args (sig_fars fi) (zip args avs)) (\<lambda>xs.
                  ins ''ntailcall'' ([Vr (tv_vreg av), Nm desc] @ vregs_of xs))))))
      | _ \<Rightarrow> cerr)"

definition asm_code :: "string \<Rightarrow> reg_item list \<Rightarrow> bool \<Rightarrow> bool \<Rightarrow> unit comp" where
  "asm_code body rs clob ann =
     emit_nir (NAsm
       (if ann then '' '' @ (if clob then ''clobbers'' else ''preserves'') @ ''('' @
                  join_comma (map (\<lambda>r. if is_flags_all r then ''FLAGS'' else reg_name_str (ri_id r) (ri_class r)) rs) @ '')''
        else []) body)"

definition const_code :: "string \<Rightarrow> int \<Rightarrow> expr_t option \<Rightarrow> unit comp" where
  "const_code nm v ini =
     (case ini of
        None \<Rightarrow> register_constant nm v
      | Some e \<Rightarrow> bnd (eval_const e) (\<lambda>c. case c of Some n \<Rightarrow> register_constant nm n | None \<Rightarrow> cerr))"

section \<open>Statements\<close>

fun emit_stmt :: "stmt_t \<Rightarrow> unit comp"
  and emit_stmt_list :: "stmt_t list \<Rightarrow> unit comp"
  and emit_flag_check :: "flag_case \<Rightarrow> unit comp"
  and emit_flag_checks :: "flag_case list \<Rightarrow> unit comp"
where
  "emit_stmt (STMT_VARDECL ln ty nm pr pc ini kc) = andthen (emit_line ln) (vardecl_code ty nm pr pc ini kc)"
| "emit_stmt (STMT_ASSIGN ln ts e fcs) =
     andthen (emit_line ln) (bnd (assign_code ts e) (\<lambda>checks. if checks then emit_flag_checks fcs else ret ()))"
| "emit_stmt (STMT_TOGGLE_ASSIGN ln t e fcs) =
     andthen (emit_line ln) (andthen (toggle_code t e) (emit_flag_checks fcs))"
| "emit_stmt (STMT_EXPR ln e) = andthen (emit_line ln) (bnd (emit_expr_typed e) (\<lambda>_. ret ()))"
| "emit_stmt (STMT_IF ln c th el) =
     andthen (emit_line ln) (if_code c (emit_stmt_list th) (if el = [] then None else Some (emit_stmt_list el)))"
| "emit_stmt (STMT_WHILE ln c body) = andthen (emit_line ln) (while_code c (emit_stmt_list body))"
| "emit_stmt (STMT_FOR ln s e body) = andthen (emit_line ln) (for_code s e (emit_stmt_list body))"
| "emit_stmt (STMT_RETURN ln es) = andthen (emit_line ln) (return_code es)"
| "emit_stmt (STMT_BREAK ln) = andthen (emit_line ln) (loop_exit loop_break_label)"
| "emit_stmt (STMT_CONTINUE ln) = andthen (emit_line ln) (loop_exit loop_continue_label)"
| "emit_stmt (STMT_GOTO ln nm) = andthen (emit_line ln) (goto_code nm)"
| "emit_stmt (STMT_TAILCALL ln e) = andthen (emit_line ln) (tailcall_code e)"
| "emit_stmt (STMT_LABEL ln nm) = andthen (emit_line ln) (emit_nir (NName nm))"
| "emit_stmt (STMT_ASM ln body rs clob ann) = andthen (emit_line ln) (asm_code body rs clob ann)"
| "emit_stmt (STMT_CONST ln nm v ini) = andthen (emit_line ln) (const_code nm v ini)"
| "emit_stmt_list [] = ret ()"
| "emit_stmt_list (s # ss) = andthen (emit_stmt s) (emit_stmt_list ss)"
| "emit_flag_check (FLAG_CASE c body trap) =
     bnd alloc_label (\<lambda>skip.
       block [flag_cond_code c skip,
              (if trap then trap_code c else block [push_scope, emit_stmt_list body, pop_scope]),
              emit_nir (NLabel skip)])"
| "emit_flag_checks [] = ret ()"
| "emit_flag_checks (fc # fcs) = andthen (emit_flag_check fc) (emit_flag_checks fcs)"

end
