(* ===== verification/Compile_Decl.thy ===== *)
theory Compile_Decl
  imports Compile_Flow Compile_Resolve
begin

text \<open>
  Declarations, \<^verbatim>\<open>src/compile.c\<close>: the directives of functions, externs, structures and
  globals in the \<^verbatim>\<open>.nir\<close> file and in the interface file \<^verbatim>\<open>.nif\<close>. The types of a
  declaration are resolved in place in the C code; here the resolved values are passed on.
\<close>

section \<open>Modifiers of a function\<close>

datatype ds_policy_t = DS_UNSPEC | DS_CALLER | DS_NONE | DS_SYMBOL string | DS_LITERAL int "expr_t option"

record fn_modifiers =
  is_far :: bool
  is_interrupt :: bool
  is_bare :: bool
  is_api :: bool
  has_preserves :: bool
  is_clobbers :: bool
  preserves :: "reg_item list"
  fm_has_at :: bool
  fm_at_seg :: int
  fm_at_off :: int
  at_exprs :: "(expr_t \<times> expr_t) option"
  ds_policy :: ds_policy_t

definition resolve_pair :: "(expr_t \<times> expr_t) option \<Rightarrow> int \<times> int \<Rightarrow> (int \<times> int) comp" where
  "resolve_pair es d =
     (case es of
        None \<Rightarrow> ret d
      | Some (e, f) \<Rightarrow> bnd (require_const_expr e) (\<lambda>x. bnd (require_const_expr f) (\<lambda>y. ret (x, y))))"

definition resolve_fn_modifier_constants :: "fn_modifiers \<Rightarrow> fn_modifiers comp" where
  "resolve_fn_modifier_constants m =
     bnd (if fm_has_at m then resolve_pair (at_exprs m) (fm_at_seg m, fm_at_off m) else ret (fm_at_seg m, fm_at_off m)) (\<lambda>(x, y).
       bnd (case ds_policy m of
              DS_LITERAL n (Some e) \<Rightarrow> bnd (require_const_expr e) (\<lambda>n. ret (DS_LITERAL n None))
            | p \<Rightarrow> ret p) (\<lambda>p.
         ret (m\<lparr>fm_at_seg := x, fm_at_off := y, at_exprs := (if fm_has_at m then None else at_exprs m), ds_policy := p\<rparr>)))"

fun resolve_params :: "param_t list \<Rightarrow> param_t list comp" where
  "resolve_params [] = ret []"
| "resolve_params (p # ps) =
     bnd (resolve_type_constants (pa_type p)) (\<lambda>t. bnd (resolve_params ps) (\<lambda>qs. ret (p\<lparr>pa_type := t\<rparr> # qs)))"

fun resolve_returns :: "return_t list \<Rightarrow> return_t list comp" where
  "resolve_returns [] = ret []"
| "resolve_returns (r # rs) =
     bnd (resolve_type_constants (re_type r)) (\<lambda>t. bnd (resolve_returns rs) (\<lambda>qs. ret (r\<lparr>re_type := t\<rparr> # qs)))"

definition emit_nif :: "string \<Rightarrow> unit comp" where
  "emit_nif s = modify (\<lambda>C. C\<lparr>nif := nif C @ [s]\<rparr>)"

definition emit_text :: "string \<Rightarrow> unit comp" where
  "emit_text s = emit_nir (NText s)"

definition emit_both :: "bool \<Rightarrow> string \<Rightarrow> unit comp" where
  "emit_both pub s = andthen (emit_text s) (if pub then emit_nif s else ret ())"

definition abi_place_text :: "ast_place \<Rightarrow> string" where
  "abi_place_text p = (case p of ABI_STACK \<Rightarrow> '', stack'' | ABI_REGISTER \<Rightarrow> '', register'' | ABI_DEFAULT \<Rightarrow> [])"

definition pin_text :: "bool \<Rightarrow> int \<Rightarrow> reg_class \<Rightarrow> string" where
  "pin_text b r rc = (if b then '', pin='' @ reg_name_str r rc else [])"

definition quoted :: "string \<Rightarrow> string" where
  "quoted s = CHR 0x22 # s @ [CHR 0x22]"

definition at_text :: "bool \<Rightarrow> int \<Rightarrow> int \<Rightarrow> string" where
  "at_text b sg off = (if b then '', at(0x'' @ hex_int 4 sg @ '':0x'' @ hex_int 4 off @ '')'' else [])"

definition emit_ds_policy :: "ds_policy_t \<Rightarrow> string" where
  "emit_ds_policy p =
     (case p of DS_CALLER \<Rightarrow> '', ds=caller'' | DS_NONE \<Rightarrow> '', ds=none'' | DS_SYMBOL s \<Rightarrow> '', ds='' @ s
              | DS_LITERAL n _ \<Rightarrow> '', ds=0x'' @ hex_int 4 (n mod 2 ^ 16) | DS_UNSPEC \<Rightarrow> [])"

section \<open>Preserved registers\<close>

definition all_regs :: "(string \<times> int \<times> reg_class) list" where
  "all_regs =
     [(''AX'', 0, REGCLASS_WORD), (''CX'', 1, REGCLASS_WORD), (''DX'', 2, REGCLASS_WORD), (''BX'', 3, REGCLASS_WORD),
      (''BP'', 5, REGCLASS_WORD), (''SI'', 6, REGCLASS_WORD), (''DI'', 7, REGCLASS_WORD),
      (''ES'', 0, REGCLASS_SEG), (''CS'', 1, REGCLASS_SEG), (''SS'', 2, REGCLASS_SEG), (''DS'', 3, REGCLASS_SEG)]"

text \<open>The word register of a register: itself, or the word a byte register belongs to.\<close>

definition word_parent :: "int \<Rightarrow> reg_class \<Rightarrow> int list" where
  "word_parent r rc = (case rc of REGCLASS_WORD \<Rightarrow> [r] | REGCLASS_BYTE \<Rightarrow> [r mod 4] | _ \<Rightarrow> [])"

definition listed :: "reg_item list \<Rightarrow> reg_item list" where
  "listed rs = filter (\<lambda>r. \<not> is_flags_all r) rs"

definition clobbered :: "fn_modifiers \<Rightarrow> return_t list \<Rightarrow> int list" where
  "clobbered m rets =
     concat (map (\<lambda>r. word_parent (ri_id r) (ri_class r)) (listed (preserves m))) @
     concat (map (\<lambda>r. word_parent (re_pinned_reg r) (re_pin_class r)) (filter re_has_pin rets))"

definition clobbered_seg :: "fn_modifiers \<Rightarrow> int list" where
  "clobbered_seg m = map ri_id (filter (\<lambda>r. ri_class r = REGCLASS_SEG) (listed (preserves m)))"

definition preserved_names :: "fn_modifiers \<Rightarrow> return_t list \<Rightarrow> string list" where
  "preserved_names m rets =
     (if is_clobbers m
      then map fst (filter (\<lambda>(n, i, rc). i \<notin> set (if rc = REGCLASS_SEG then clobbered_seg m else clobbered m rets)) all_regs) @
           (if list_ex is_flags_all (preserves m) then [] else [''FLAGS''])
      else map (\<lambda>r. if is_flags_all r then ''FLAGS'' else reg_name_str (ri_id r) (ri_class r)) (preserves m))"

text \<open>The register numbers index arrays of 8 and 4 elements.\<close>

definition class_index_ok :: "int \<Rightarrow> reg_class \<Rightarrow> bool" where
  "class_index_ok r rc =
     (case rc of REGCLASS_WORD \<Rightarrow> 0 \<le> r \<and> r < 8 | REGCLASS_BYTE \<Rightarrow> 0 \<le> r \<and> r < 8 | REGCLASS_SEG \<Rightarrow> 0 \<le> r \<and> r < 4
               | REGCLASS_FLAG \<Rightarrow> True)"

definition clobber_index_ok :: "fn_modifiers \<Rightarrow> return_t list \<Rightarrow> bool" where
  "clobber_index_ok m rets =
     (list_all (\<lambda>r. class_index_ok (ri_id r) (ri_class r)) (listed (preserves m)) \<and>
      list_all (\<lambda>r. re_pin_class r = REGCLASS_SEG \<or> class_index_ok (re_pinned_reg r) (re_pin_class r)) (filter re_has_pin rets))"

definition emit_preserves :: "(string \<Rightarrow> unit comp) \<Rightarrow> fn_modifiers \<Rightarrow> return_t list \<Rightarrow> unit comp" where
  "emit_preserves out m rets =
     (if \<not> has_preserves m then ret ()
      else if is_clobbers m \<and> \<not> clobber_index_ok m rets then stop Bad_index
      else out (''.preserves '' @ join_comma (preserved_names m rets)))"

definition validate_clobbers :: "fn_modifiers \<Rightarrow> unit comp" where
  "validate_clobbers m =
     (if \<not> has_preserves m \<or> \<not> is_clobbers m then ret ()
      else for_each (preserves m) (\<lambda>r. cerr_if (ri_class r = REGCLASS_SEG \<and> (ri_id r = SREG_CS \<or> ri_id r = 2))))"

definition validate_ds_policy :: "fn_modifiers \<Rightarrow> unit comp" where
  "validate_ds_policy m =
     (case ds_policy m of
        DS_LITERAL n _ \<Rightarrow> cerr_if (n < 0 \<or> n > 0xFFFF)
      | DS_SYMBOL nm \<Rightarrow> bnd (sym_lookup nm) (\<lambda>s. cerr_if (case s of Some smb \<Rightarrow> \<not> is_global smb | None \<Rightarrow> False))
      | _ \<Rightarrow> ret ())"

section \<open>Extern descriptors\<close>

definition eparam_lines :: "param_t \<Rightarrow> string list" where
  "eparam_lines p =
     (let pl = abi_place_text (effective_param_place p); pin = pin_text (pa_has_pin p) (pa_pinned_reg p) (pa_pin_class p)
      in if pa_type p = TYPE_FAR
         then [''.eparam u16, '' @ quoted (pa_name p @ ''_off'') @ pl @ pin,
               ''.eparam seg, '' @ quoted (pa_name p @ ''_seg'') @ pl @ pin_text (has_seg_pin p) (pinned_seg p) REGCLASS_SEG]
         else [''.eparam '' @ type_str (pa_type p) @ '', '' @ quoted (pa_name p) @ pl @ pin])"

fun nif_param_lines :: "int \<Rightarrow> param_t list \<Rightarrow> string list" where
  "nif_param_lines n [] = []"
| "nif_param_lines n (p # ps) =
     (''.param '' @ [CHR 0x25] @ dec_int n @ '', '' @ type_str (pa_type p) @ '', '' @ quoted (pa_name p) @
      abi_place_text (effective_param_place p) @ pin_text (pa_has_pin p) (pa_pinned_reg p) (pa_pin_class p) @
      (if pa_type p = TYPE_FAR \<and> has_seg_pin p then '':'' @ reg_name_str (pinned_seg p) REGCLASS_SEG else []))
     # nif_param_lines (if pa_type p = TYPE_FAR then n + 2 else n + 1) ps"

definition return_line :: "return_t \<Rightarrow> string" where
  "return_line r = ''.returns '' @ type_str (re_type r) @ abi_place_text (effective_return_place r) @
     pin_text (re_has_pin r) (re_pinned_reg r) (re_pin_class r)"

definition address_text :: "(int \<times> int) option \<Rightarrow> bool \<Rightarrow> string" where
  "address_text addr in_nir =
     (case addr of
        Some (sg, off) \<Rightarrow> '', addr_seg=0x'' @ hex_int 4 sg @ '', addr_off=0x'' @ hex_int 4 off
      | None \<Rightarrow> if in_nir then '' ; WARNING: no address '' @ [CHR 0xE2, CHR 0x80, CHR 0x94] @ '' unbindable'' else [])"

definition emit_extern_descriptor ::
  "(string \<Rightarrow> unit comp) \<Rightarrow> string \<Rightarrow> fn_modifiers \<Rightarrow> param_t list \<Rightarrow> return_t list \<Rightarrow> (int \<times> int) option \<Rightarrow> bool \<Rightarrow> unit comp"
where
  "emit_extern_descriptor out nm m params rets addr in_nir =
     block
       [out [],
        out (''.extern '' @ nm @ (if is_far m then '', far'' else []) @ emit_ds_policy (ds_policy m) @ address_text addr in_nir),
        for_each (if in_nir then concat (map eparam_lines params) else nif_param_lines 0 params) out,
        for_each (map return_line rets) out,
        emit_preserves out m rets,
        out ''.endextern'',
        (if in_nir then ret () else out [])]"

section \<open>Functions\<close>

record fn_decl =
  fd_line :: int
  fd_pub :: bool
  fd_name :: string
  fd_mods :: fn_modifiers
  fd_params :: "param_t list"
  fd_returns :: "return_t list"
  fd_body :: "stmt_t list"

text \<open>The symbol that was added last, reached through the pointer that \<^verbatim>\<open>sym_add\<close> returned.\<close>

definition update_last :: "(symbol_t \<Rightarrow> symbol_t) \<Rightarrow> unit comp" where
  "update_last f = modify (\<lambda>C. C\<lparr>scope := (butlast (hd (scope C)) @ [f (last (hd (scope C)))]) # tl (scope C)\<rparr>)"

definition param_line :: "int \<Rightarrow> string \<Rightarrow> string \<Rightarrow> string \<Rightarrow> string" where
  "param_line v ty nm rest = ''.param '' @ [CHR 0x25] @ dec_int v @ '', '' @ ty @ '', '' @ quoted nm @ rest"

text \<open>A far parameter is two parameters of the intermediate code; an aggregate is passed by its
  address unless it is passed by value.\<close>

definition param_code :: "bool \<Rightarrow> param_t \<Rightarrow> unit comp" where
  "param_code pub p =
     bnd (sym_add (pa_name p) (Some (pa_type p)) False) (\<lambda>smb.
       let v = sy_vreg smb; pl = abi_place_text (effective_param_place p);
           pin = pin_text (pa_has_pin p) (pa_pinned_reg p) (pa_pin_class p)
       in if pa_type p = TYPE_FAR
          then andthen (emit_text (param_line v ''u16'' (pa_name p @ ''_off'') (pl @ pin)))
                 (bnd alloc_vreg (\<lambda>w.
                   block
                     [update_last (\<lambda>s. s\<lparr>sy_vreg_seg := w\<rparr>),
                      emit_text (param_line w ''seg'' (pa_name p @ ''_seg'')
                        (pl @ pin_text (has_seg_pin p) (pinned_seg p) REGCLASS_SEG)),
                      (if pub
                       then emit_nif (param_line v ''far'' (pa_name p)
                              (pl @ (if pa_has_pin p \<and> has_seg_pin p
                                     then '', pin='' @ reg_name_str (pinned_seg p) REGCLASS_SEG @ '':'' @
                                          reg_name_str (pa_pinned_reg p) (pa_pin_class p)
                                     else [])))
                       else ret ())]))
          else let by_ref = type_is_aggregate (Some (pa_type p)) \<and> \<not> is_value p;
                   rest = pl @ (if is_value p then '', value'' else []) @ pin
               in block
                    [emit_text (param_line v (if by_ref then ''u16'' else type_str (pa_type p)) (pa_name p)
                       (rest @ (if by_ref then '' ; ref '' @ type_str (pa_type p) else []))),
                     (if pub then emit_nif (param_line v (type_str (pa_type p)) (pa_name p) rest) else ret ())])"

definition validate_fn :: "fn_decl \<Rightarrow> fn_modifiers \<Rightarrow> unit comp" where
  "validate_fn d m =
     block
       [validate_ds_policy m,
        validate_clobbers m,
        cerr_if ((fd_pub d \<or> is_api m) \<and> is_far m \<and> ds_policy m = DS_UNSPEC),
        cerr_if (is_api m \<and> (\<not> has_preserves m \<or> \<not> is_clobbers m)),
        cerr_if (is_bare m \<and> (case ds_policy m of DS_SYMBOL _ \<Rightarrow> True | DS_LITERAL _ _ \<Rightarrow> True | _ \<Rightarrow> False))]"

text \<open>An interrupt handler is recorded under its name only; it cannot be called.\<close>

definition register_fn :: "fn_decl \<Rightarrow> fn_modifiers \<Rightarrow> param_t list \<Rightarrow> return_t list \<Rightarrow> unit comp" where
  "register_fn d m params rets =
     (if is_interrupt m
      then block
             [cerr_if (fd_pub d), cerr_if (is_api m), cerr_if (is_far m), cerr_if (fm_has_at m), cerr_if (params \<noteq> []),
              cerr_if (rets \<noteq> []), modify (\<lambda>C. C\<lparr>isr_names := isr_names C @ [fd_name d]\<rparr>)]
      else register_function_returns (fd_name d) (map re_type rets) (map pa_type params))"

definition fn_header :: "fn_decl \<Rightarrow> fn_modifiers \<Rightarrow> return_t list \<Rightarrow> unit comp" where
  "fn_header d m rets =
     block
       [emit_text [],
        emit_text (''.fn '' @ fd_name d @ (if fd_pub d then '', pub'' else []) @ (if is_far m then '', far'' else []) @
          (if is_interrupt m then '', interrupt'' else []) @ (if is_bare m then '', bare'' else []) @
          at_text (fm_has_at m) (fm_at_seg m) (fm_at_off m) @ emit_ds_policy (ds_policy m)),
        emit_preserves emit_text m rets,
        (if fd_pub d
         then andthen (emit_nif (''.fn '' @ fd_name d @ (if is_far m then '', far'' else []) @ emit_ds_policy (ds_policy m)))
                (emit_preserves emit_nif m rets)
         else ret ())]"

definition compile_fn :: "fn_decl \<Rightarrow> unit comp" where
  "compile_fn d =
     andthen (modify (\<lambda>C. C\<lparr>next_vreg := 0, loop_depth := 0, last_emitted_line := 0, addr_taken := []\<rparr>))
       (andthen (scan_addr_taken_stmt (fd_body d))
         (bnd (resolve_fn_modifier_constants (fd_mods d)) (\<lambda>m.
           bnd (resolve_params (fd_params d)) (\<lambda>params.
             bnd (resolve_returns (fd_returns d)) (\<lambda>rets.
               block
                 [modify (\<lambda>C. C\<lparr>cur_fn_returns := rets, cur_fn_is_bare := is_bare m\<rparr>),
                  validate_fn d m,
                  register_fn d m params rets,
                  (if is_api m
                   then andthen (emit_extern_descriptor emit_text (fd_name d) m params rets None True)
                          (emit_extern_descriptor emit_nif (fd_name d) m params rets None False)
                   else ret ()),
                  fn_header d m rets,
                  push_scope,
                  for_each params (param_code (fd_pub d)),
                  for_each (map return_line rets) (emit_both (fd_pub d)),
                  bnd (gets constants) (\<lambda>cs. emit_stmt_list (map (resolve_constants_stmt cs) (fd_body d))),
                  pop_scope,
                  emit_text ''.endfn'',
                  (if fd_pub d then andthen (emit_nif ''.endfn'') (emit_nif []) else ret ())])))))"

section \<open>Externs\<close>

record extern_decl =
  xd_line :: int
  xd_pub :: bool
  xd_name :: string
  xd_mods :: fn_modifiers
  xd_params :: "param_t list"
  xd_returns :: "return_t list"
  xd_preserves :: "reg_item list"
  xd_address :: "(int \<times> int) option"
  xd_addr_exprs :: "(expr_t \<times> expr_t) option"
  xd_body :: "stmt_t list"

definition compile_extern_fn :: "extern_decl \<Rightarrow> unit comp" where
  "compile_extern_fn d =
     bnd (resolve_fn_modifier_constants (xd_mods d)) (\<lambda>m.
     bnd (resolve_params (xd_params d)) (\<lambda>params.
     bnd (resolve_returns (xd_returns d)) (\<lambda>rets.
     bnd (case xd_address d of
            None \<Rightarrow> ret None
          | Some a \<Rightarrow> bnd (resolve_pair (xd_addr_exprs d) a) (\<lambda>a. ret (Some a))) (\<lambda>addr.
     let desc_mods = (if has_preserves m then m\<lparr>preserves := xd_preserves d\<rparr> else m)
     in block
          [register_function_returns (xd_name d) (map re_type rets) (map pa_type params),
           validate_ds_policy m,
           validate_clobbers m,
           cerr_if (xd_pub d \<and> is_far m \<and> ds_policy m = DS_UNSPEC),
           cerr_if (\<not> has_preserves m \<or> \<not> is_clobbers m),
           emit_extern_descriptor emit_text (xd_name d) desc_mods params rets addr True,
           emit_extern_descriptor emit_nif (xd_name d) desc_mods params rets addr False,
           (if xd_body d \<noteq> []
            then compile_fn \<lparr>fd_line = xd_line d, fd_pub = xd_pub d, fd_name = xd_name d, fd_mods = desc_mods,
                             fd_params = params, fd_returns = rets, fd_body = xd_body d\<rparr>
            else ret ())]))))"

section \<open>Structures\<close>

fun resolve_fields :: "field_t list \<Rightarrow> field_t list comp" where
  "resolve_fields [] = ret []"
| "resolve_fields (f # fs) =
     bnd (case fi_type f of None \<Rightarrow> ret None | Some t \<Rightarrow> bnd (resolve_type_constants t) (\<lambda>t. ret (Some t))) (\<lambda>ty.
     bnd (case as_type f of None \<Rightarrow> ret None | Some t \<Rightarrow> bnd (resolve_type_constants t) (\<lambda>t. ret (Some t))) (\<lambda>asty.
     bnd (case bits_expr f of None \<Rightarrow> ret (bits f) | Some e \<Rightarrow> require_const_expr e) (\<lambda>n.
     bnd (resolve_fields fs) (\<lambda>gs.
       ret (f\<lparr>fi_type := ty, as_type := asty, bits := n, bits_expr := None\<rparr> # gs)))))"

definition opt_type_str :: "type_t option \<Rightarrow> string" where
  "opt_type_str t = (case t of Some t \<Rightarrow> type_str t | None \<Rightarrow> ''void'')"

definition field_line :: "field_t \<Rightarrow> string" where
  "field_line f =
     ''    '' @ (case fi_name f of Some s \<Rightarrow> s | None \<Rightarrow> ''_'') @ '': '' @
     (if is_bits f then ''bits('' @ dec_int (bits f) @ '')''
      else opt_type_str (fi_type f) @ (if as_type f \<noteq> None then '' as '' @ opt_type_str (as_type f) else []))"

definition compile_struct :: "bool \<Rightarrow> string \<Rightarrow> bool \<Rightarrow> field_t list \<Rightarrow> unit comp" where
  "compile_struct pub nm aligned fields0 =
     bnd (resolve_fields fields0) (\<lambda>fs.
       block
         [modify (\<lambda>C. C\<lparr>structs := structs C @ [\<lparr>ss_name = take 63 nm, ss_fields = fs, ss_aligned = aligned\<rparr>]\<rparr>),
          (if pub
           then for_each ([''.struct '' @ nm @ (if aligned then '', aligned'' else [])] @ map field_line fs @ [''.endstruct'', []])
                  emit_nif
           else ret ())])"

end
