(* ===== verification/Compile_Main.thy ===== *)
theory Compile_Main
  imports Compile_Decl
begin

text \<open>
  Global variables, the import of interface files and the compiler itself: \<^verbatim>\<open>compile_global\<close>,
  \<^verbatim>\<open>import_nif\<close> and \<^verbatim>\<open>compile\<close> of \<^verbatim>\<open>src/compile.c\<close>. The file
  system is a parameter: the content of the file at a path, when it can be opened.
\<close>

section \<open>Globals\<close>

record global_decl =
  gd_line :: int
  gd_pub :: bool
  gd_type :: type_t
  gd_name :: "string option"
  gd_init :: "expr_t option"
  gd_has_at :: bool
  gd_at_seg :: int
  gd_at_off :: int
  gd_at_exprs :: "(expr_t \<times> expr_t) option"

definition infer_global_size :: "type_t \<Rightarrow> expr_t option \<Rightarrow> type_t" where
  "infer_global_size ty ini =
     (case ty of
        TYPE_ARRAY el n se \<Rightarrow>
          (if n \<noteq> 0 then ty
           else case ini of
                  Some (EXPR_ARRAY_INIT _ es) \<Rightarrow> TYPE_ARRAY el (int (length es)) se
                | Some (EXPR_LIT_STR _ s) \<Rightarrow> TYPE_ARRAY el (int (length s)) se
                | _ \<Rightarrow> ty)
      | _ \<Rightarrow> ty)"

definition array_size :: "type_t \<Rightarrow> int" where
  "array_size t = (case t of TYPE_ARRAY _ n _ \<Rightarrow> n | _ \<Rightarrow> 0)"

text \<open>The function whose address an element of an initializer is.\<close>

definition fn_ref :: "op_kind \<Rightarrow> expr_t \<Rightarrow> string option comp" where
  "fn_ref k e =
     (case e of
        EXPR_UNOP _ k' (EXPR_IDENT _ nm) \<Rightarrow>
          if k' = k then bnd (find_function nm) (\<lambda>fi. ret (if fi \<noteq> None then Some nm else None)) else ret None
      | _ \<Rightarrow> ret None)"

definition far_line :: "int \<Rightarrow> int \<Rightarrow> string" where
  "far_line sg off = ''  far 0x'' @ hex_int 4 (take_bit 16 sg) @ '':0x'' @ hex_int 4 (take_bit 16 off)"

definition int_line :: "int \<Rightarrow> int \<Rightarrow> string" where
  "int_line elem_sz v =
     (if elem_sz = 1 then ''  db 0x'' @ hex_int 2 (take_bit 8 v)
      else if elem_sz = 2 then ''  dw 0x'' @ hex_int 4 (take_bit 16 v)
      else if elem_sz = 4 then ''  dd 0x'' @ hex_int 8 v
      else ''  dw 0x'' @ hex_int 4 (take_bit 16 v))"

definition data_element :: "type_t \<Rightarrow> int \<Rightarrow> expr_t \<Rightarrow> unit comp" where
  "data_element el elem_sz e =
     bnd (fn_ref NIB_ADDR e) (\<lambda>near.
       case near of
         Some nm \<Rightarrow> if elem_sz \<noteq> 2 then cerr else emit_text (''  near.ref '' @ nm)
       | None \<Rightarrow>
           bnd (fn_ref NIB_FAR_ADDR e) (\<lambda>far.
             case far of
               Some nm \<Rightarrow> andthen (cerr_if (el \<noteq> TYPE_FAR)) (emit_text (''  far.ref '' @ nm))
             | None \<Rightarrow>
                 (case e of
                    EXPR_FAR_LIT _ sg off se oe \<Rightarrow>
                      andthen (cerr_if (el \<noteq> TYPE_FAR))
                        (bnd (const_or se sg) (\<lambda>x. bnd (const_or oe off) (\<lambda>y. emit_text (far_line x y))))
                  | _ \<Rightarrow>
                      bnd (eval_const e) (\<lambda>c. case c of None \<Rightarrow> cerr | Some v \<Rightarrow> emit_text (int_line elem_sz v)))))"

definition zero_line :: "type_t \<Rightarrow> int \<Rightarrow> string" where
  "zero_line el elem_sz =
     (if el = TYPE_FAR then ''  far 0x0000:0x0000'' else if elem_sz = 1 then ''  db 0x00'' else ''  dw 0x0000'')"

definition data_header :: "string \<Rightarrow> type_t \<Rightarrow> bool \<Rightarrow> int \<Rightarrow> int \<Rightarrow> unit comp" where
  "data_header nm ty h sg off =
     andthen (emit_text []) (emit_text (''.data '' @ nm @ '', '' @ type_str ty @ at_text h sg off))"

definition array_data :: "string \<Rightarrow> type_t \<Rightarrow> bool \<Rightarrow> int \<Rightarrow> int \<Rightarrow> expr_t list \<Rightarrow> unit comp" where
  "array_data nm ty h sg off es =
     (case type_of_element (Some ty) of
        None \<Rightarrow> cerr
      | Some el \<Rightarrow>
          if int (length es) > array_size ty then cerr
          else andthen (update_last (\<lambda>s. s\<lparr>is_init_data := True\<rparr>))
                 (andthen (data_header nm ty h sg off)
                   (bnd (type_size (Some el)) (\<lambda>elem_sz.
                     block
                       [for_each es (data_element el elem_sz),
                        for_each (replicate (nat (array_size ty) - length es) (zero_line el elem_sz)) emit_text,
                        emit_text ''.enddata'']))))"

definition string_data :: "string \<Rightarrow> type_t \<Rightarrow> bool \<Rightarrow> int \<Rightarrow> int \<Rightarrow> string \<Rightarrow> unit comp" where
  "string_data nm ty h sg off str =
     (if int (length str) > array_size ty then cerr
      else block
             [update_last (\<lambda>s. s\<lparr>is_init_data := True\<rparr>),
              data_header nm ty h sg off,
              for_each str (\<lambda>c. emit_text (''  db 0x'' @ hex_fmt 2 (code c))),
              for_each (replicate (nat (array_size ty) - length str) ''  db 0x00'') emit_text,
              emit_text ''.enddata''])"

definition compile_global :: "global_decl \<Rightarrow> unit comp" where
  "compile_global d =
     (let nm = (case gd_name d of Some s \<Rightarrow> s | None \<Rightarrow> ''?'')
      in bnd (resolve_type_constants (gd_type d)) (\<lambda>ty0.
         bnd (if gd_has_at d then resolve_pair (gd_at_exprs d) (gd_at_seg d, gd_at_off d) else ret (gd_at_seg d, gd_at_off d))
           (\<lambda>(sg, off).
         let ty = infer_global_size ty0 (gd_init d)
         in andthen (bnd (sym_add nm (Some ty) True) (\<lambda>_.
                       if gd_has_at d
                       then update_last (\<lambda>s. s\<lparr>sy_has_at := True, sy_at_seg := sg, sy_at_off := off\<rparr>) else ret ()))
              (andthen (if gd_pub d then emit_nif (''.global '' @ nm @ '', '' @ type_str ty) else ret ())
                (case gd_init d of
                   Some (EXPR_ARRAY_INIT _ es) \<Rightarrow> array_data nm ty (gd_has_at d) sg off es
                 | Some (EXPR_LIT_STR _ s) \<Rightarrow>
                     if is_array ty then string_data nm ty (gd_has_at d) sg off s
                     else emit_text (''.global '' @ nm @ '', '' @ type_str ty @ at_text (gd_has_at d) sg off @ '' ; has initializer'')
                 | i \<Rightarrow>
                     emit_text (''.global '' @ nm @ '', '' @ type_str ty @ at_text (gd_has_at d) sg off @
                       (if i \<noteq> None then '' ; has initializer'' else [])))))))"

section \<open>Interface files\<close>

definition starts :: "string \<Rightarrow> string \<Rightarrow> bool" where
  "starts s p \<longleftrightarrow> take (length p) s = p"

definition nif_skip_ws :: "string \<Rightarrow> string" where
  "nif_skip_ws s = dropWhile blank s"

definition nif_word_char :: "char \<Rightarrow> bool" where
  "nif_word_char c \<longleftrightarrow> \<not> isspace c \<and> c \<noteq> CHR '','' \<and> c \<noteq> CHR '')'' \<and> c \<noteq> CHR '':''"

text \<open>The word, cut to the size of its buffer, and what follows it.\<close>

definition nif_read_word :: "nat \<Rightarrow> string \<Rightarrow> string \<times> string" where
  "nif_read_word n s =
     (let p = nif_skip_ws s; w = take (n - 1) (takeWhile nif_word_char p) in (w, drop (length w) p))"

definition nif_word :: "nat \<Rightarrow> string \<Rightarrow> string" where
  "nif_word n s = fst (nif_read_word n s)"

definition atoi :: "string \<Rightarrow> int" where
  "atoi s = c_int (fst (strtol 10 s))"

text \<open>\<^verbatim>\<open>strtol\<close> with base 0: the prefix tells the base.\<close>

definition strtol_any :: "string \<Rightarrow> int" where
  "strtol_any s =
     (let s1 = dropWhile isspace s;
          d = (if char_at s1 0 = CHR ''-'' \<or> char_at s1 0 = CHR ''+'' then tl s1 else s1)
      in if char_at d 0 = CHR ''0''
         then if (char_at d 1 = CHR ''x'' \<or> char_at d 1 = CHR ''X'') \<and> isxdigit (char_at d 2) then fst (strtol 16 s)
              else fst (strtol 8 s)
         else fst (strtol 10 s))"

definition nif_parse_type :: "string \<Rightarrow> type_t" where
  "nif_parse_type s =
     (if s = ''u8'' then TYPE_U8
      else if s = ''u16'' then TYPE_U16
      else if s = ''u32'' then TYPE_U32
      else if s = ''seg'' then TYPE_SEG
      else if s = ''bool'' then TYPE_BOOL
      else if s = ''far'' \<or> s = ''far32'' then TYPE_FAR
      else if starts s ''u8['' then mk_type_array TYPE_U8 (atoi (drop 3 s))
      else if starts s ''u16['' then mk_type_array TYPE_U16 (atoi (drop 4 s))
      else if starts s ''bcd['' then mk_type_array (TYPE_BCD 0) (atoi (drop 4 s))
      else if starts s ''far['' then mk_type_array TYPE_FAR (atoi (drop 4 s))
      else if starts s ''far32['' then mk_type_array TYPE_FAR (atoi (drop 6 s))
      else TYPE_STRUCT (Some s))"

text \<open>The line without its end; inside a structure the leading blanks go first.\<close>

definition chomp :: "string \<Rightarrow> string" where
  "chomp s = rev (dropWhile (\<lambda>c. c = CHR 0x0A \<or> c = CHR 0x0D) (rev s))"

definition struct_line :: "string \<Rightarrow> string" where
  "struct_line s = chomp (nif_skip_ws s)"

definition nif_field :: "string \<Rightarrow> field_t" where
  "nif_field sp =
     (let (fname, r) = nif_read_word 64 sp;
          r = nif_skip_ws r;
          r = nif_skip_ws (if r \<noteq> [] \<and> r ! 0 = CHR '':'' then tl r else r);
          (ftype, r) = nif_read_word 64 r
      in if starts ftype ''bits(''
         then mk_field_bits (if fname = ''_'' then None else Some fname) (atoi (drop 5 ftype))
         else let r = nif_skip_ws r
              in if starts r ''as '' then mk_field_typed_ptr fname (nif_parse_type ftype) (nif_parse_type (nif_word 64 (drop 3 r)))
                 else mk_field fname (nif_parse_type ftype))"

definition is_endstruct :: "string \<Rightarrow> bool" where
  "is_endstruct s \<longleftrightarrow> starts (struct_line s) ''.endstruct''"

definition import_struct :: "string \<Rightarrow> string list \<Rightarrow> unit comp" where
  "import_struct p body =
     (let (nm, r) = nif_read_word 64 p; r = nif_skip_ws r;
          aligned = (r \<noteq> [] \<and> r ! 0 = CHR '','' \<and> nif_word 64 (tl r) = ''aligned'')
      in modify (\<lambda>C. C\<lparr>structs := structs C @
           [\<lparr>ss_name = nm, ss_fields = map (\<lambda>s. nif_field (struct_line s)) body, ss_aligned = aligned\<rparr>]\<rparr>))"

text \<open>The part of a line behind its first comma.\<close>

definition after_comma :: "string \<Rightarrow> string" where
  "after_comma s = nif_skip_ws (drop 1 (dropWhile (\<lambda>c. c \<noteq> CHR '','') s))"

definition skip_comma :: "string \<Rightarrow> string" where
  "skip_comma s = (let r = nif_skip_ws s in if r \<noteq> [] \<and> r ! 0 = CHR '','' then tl r else r)"

text \<open>What is known of the function whose lines are read.\<close>

record nif_fn =
  cur_fn :: string
  cur_params :: "type_t list"
  cur_rets :: "type_t list"

definition start_fn :: "string \<Rightarrow> nif_fn" where
  "start_fn p = \<lparr>cur_fn = nif_word 64 p, cur_params = [], cur_rets = []\<rparr>"

function import_lines :: "nif_fn \<Rightarrow> string list \<Rightarrow> unit comp" where
  "import_lines F [] = ret ()"
| "import_lines F (l # ls) =
     (let p = nif_skip_ws (chomp l)
      in if p = [] \<or> p ! 0 = CHR '';'' then import_lines F ls
         else if starts p ''.fn '' then import_lines (start_fn (drop 4 p)) ls
         else if starts p ''.extern '' then import_lines (start_fn (drop 8 p)) ls
         else if starts p ''.param''
         then import_lines (F\<lparr>cur_params := cur_params F @ [nif_parse_type (nif_word 32 (after_comma (drop 6 p)))]\<rparr>) ls
         else if starts p ''.returns''
         then import_lines (F\<lparr>cur_rets := cur_rets F @ [nif_parse_type (nif_word 64 (drop 8 p))]\<rparr>) ls
         else if starts p ''.endfn'' \<or> starts p ''.endextern''
         then andthen (if cur_fn F \<noteq> [] then register_function_returns (cur_fn F) (cur_rets F) (cur_params F) else ret ())
                (import_lines (F\<lparr>cur_fn := []\<rparr>) ls)
         else if starts p ''.struct ''
         then andthen (import_struct (drop 8 p) (takeWhile (\<lambda>s. \<not> is_endstruct s) ls))
                (import_lines F (drop 1 (dropWhile (\<lambda>s. \<not> is_endstruct s) ls)))
         else if starts p ''.global ''
         then let (nm, r) = nif_read_word 64 (drop 8 p)
              in andthen (bnd (sym_add nm (Some (nif_parse_type (nif_word 64 (skip_comma r)))) True) (\<lambda>_. ret ()))
                   (import_lines F ls)
         else if starts p ''.const ''
         then let (nm, r) = nif_read_word 64 (drop 7 p)
              in andthen (register_constant nm (c_int (strtol_any (nif_skip_ws (skip_comma r))))) (import_lines F ls)
         else import_lines F ls)"
  by pat_completeness auto
termination
proof (relation "measure (\<lambda>(F, ls). length ls)", goal_cases)
  case (8 F l ls p)
  have "length (dropWhile (\<lambda>s. \<not> is_endstruct s) ls) \<le> length ls" by (rule length_dropWhile_le)
  then show ?case by simp
qed simp_all

definition import_nif :: "(string \<Rightarrow> string option) \<Rightarrow> string \<Rightarrow> string \<Rightarrow> unit comp" where
  "import_nif files src_dir path =
     (let file = (case files path of
                    Some s \<Rightarrow> Some s
                  | None \<Rightarrow> if src_dir \<noteq> [] then files (snprintf_s 512 (src_dir @ ''/'' @ path)) else None)
      in case file of
           None \<Rightarrow> cerr
         | Some s \<Rightarrow> import_lines \<lparr>cur_fn = [], cur_params = [], cur_rets = []\<rparr> (fgets_all 512 s))"

section \<open>Programs\<close>

datatype decl_t =
    DECL_FN fn_decl
  | DECL_STRUCT bool string bool "field_t list"
  | DECL_GLOBAL global_decl
  | DECL_EXTERN_GLOBAL global_decl
  | DECL_EXTERN_FN extern_decl
  | DECL_USE string
  | DECL_CONST bool string int "expr_t option"
  | DECL_AT int int "(expr_t \<times> expr_t) option"
  | DECL_ENDAT

definition compile_decl :: "(string \<Rightarrow> string option) \<Rightarrow> string \<Rightarrow> decl_t \<Rightarrow> unit comp" where
  "compile_decl files src_dir d =
     (case d of
        DECL_FN f \<Rightarrow> compile_fn f
      | DECL_STRUCT pub nm aligned fs \<Rightarrow> compile_struct pub nm aligned fs
      | DECL_GLOBAL g \<Rightarrow> compile_global g
      | DECL_EXTERN_GLOBAL g \<Rightarrow> compile_global g
      | DECL_EXTERN_FN x \<Rightarrow> compile_extern_fn x
      | DECL_USE path \<Rightarrow> andthen (emit_text (''.use '' @ quoted path)) (import_nif files src_dir path)
      | DECL_CONST pub nm v ini \<Rightarrow>
          bnd (case ini of Some e \<Rightarrow> require_const_expr e | None \<Rightarrow> ret v) (\<lambda>n.
            andthen (register_constant nm n)
              (if pub then emit_nif (''.const '' @ nm @ '', '' @ dec_int n) else ret ()))
      | DECL_AT sg off es \<Rightarrow>
          bnd (resolve_pair es (sg, off)) (\<lambda>(sg, off).
            andthen (emit_text []) (emit_text (''.at 0x'' @ hex_int 4 sg @ '':0x'' @ hex_int 4 off)))
      | DECL_ENDAT \<Rightarrow> emit_text ''.endat'')"

definition init_compiler :: "string \<Rightarrow> compiler" where
  "init_compiler file =
     \<lparr>nir = [NText (''; Nib IR '' @ [CHR 0xE2, CHR 0x80, CHR 0x94] @ '' generated by nib compile'')],
      nif = [''; Nib interface '' @ [CHR 0xE2, CHR 0x80, CHR 0x94] @ '' generated by nib compile'', []],
      scope = [], next_vreg = 0, next_label = 0, cerrors = 0, loop_depth = 0, loop_break_label = 0,
      loop_continue_label = 0, src_file = take 255 (rev (takeWhile (\<lambda>c. c \<noteq> CHR ''/'') (rev file))),
      last_emitted_line = 0, next_const = 0, cur_fn_returns = [], cur_fn_is_bare = False, fn_sigs = [], structs = [],
      constants = [], isr_names = [], addr_taken = []\<rparr>"

text \<open>The exit status, with the final state, which holds the lines of both files.\<close>

definition compile_program :: "(string \<Rightarrow> string option) \<Rightarrow> string \<Rightarrow> string \<Rightarrow> decl_t list \<Rightarrow> comp_stop + (int \<times> compiler)" where
  "compile_program files src_dir file prog =
     (bnd (block [push_scope, for_each prog (compile_decl files (take 255 src_dir)), pop_scope])
        (\<lambda>_. gets (\<lambda>C. if cerrors C > 0 then 1 else 0))) (init_compiler file)"

end
