(* ===== verification/Compile_Layout_Facts.thy ===== *)
theory Compile_Layout_Facts
  imports Compile_Main
begin

text \<open>
  Sizes and layouts. The depth that \<open>type_size_of\<close> gives to the recursion is enough: a size that
  is found at any depth is found at that one. Structures that refer only to earlier ones have a
  size. Every field lies inside its structure, and two fields do not overlap.
\<close>

section \<open>Placing one field\<close>

lemma and_not_7: "(x :: int) AND - 8 = 8 * (x div 8)"
proof -
  have "x AND NOT (mask 3) = push_bit 3 (drop_bit 3 x)"
    by (rule bit_eqI) (auto simp: bit_simps)
  then show ?thesis by (simp add: push_bit_eq_mult drop_bit_eq_div mask_eq_exp_minus_1)
qed

lemma and_7: "(x :: int) AND 7 = x mod 8"
  using take_bit_eq_mask [of 3 x] by (simp add: take_bit_eq_mod mask_eq_exp_minus_1)

lemma sdiv_8: "0 \<le> x \<Longrightarrow> x sdiv 8 = (x :: int) div 8"
  by (simp add: signed_divide_int_def sgn_if)

lemma place_field_bits: "is_bits f \<Longrightarrow> place_field al f sz pos = (pos, pos + bits f)"
  by (simp add: place_field_def)

lemma place_field_bytes:
  assumes "\<not> is_bits f" "0 \<le> pos"
  shows "\<exists>b. place_field al f sz pos = (8 * b, 8 * b + 8 * sz) \<and> pos \<le> 8 * b \<and> 0 \<le> b \<and>
           (al \<and> type_needs_word_alignment (fi_type f) \<longrightarrow> even b)"
proof -
  define q where "q = (if pos AND 7 \<noteq> 0 then (pos + 7) AND NOT 7 else pos)"
  have q: "pos \<le> q \<and> q mod 8 = 0 \<and> 0 \<le> q"
    using assms(2) by (auto simp: q_def and_7 and_not_7)
  define b where "b = (if al \<and> type_needs_word_alignment (fi_type f) \<and> q sdiv 8 AND 1 \<noteq> 0 then q sdiv 8 + 1 else q sdiv 8)"
  have *: "place_field al f sz pos = (8 * b, 8 * b + 8 * sz)"
    using assms(1) by (simp add: place_field_def q_def b_def Let_def algebra_simps)
  have "q = 8 * (q div 8)" using q by presburger
  then have "pos \<le> 8 * b \<and> 0 \<le> b" using q by (auto simp: b_def sdiv_8)
  moreover have "al \<and> type_needs_word_alignment (fi_type f) \<longrightarrow> even b"
    by (auto simp: b_def and_one_eq odd_iff_mod_2_eq_one)
  ultimately show ?thesis using * by blast
qed

section \<open>The depth of the recursion\<close>

lemma type_size_f_mono_step:
  "type_size_f n S t = Some k \<Longrightarrow> type_size_f (Suc n) S t = Some k"
  "fields_end_f n S al fs p = Some k \<Longrightarrow> fields_end_f (Suc n) S al fs p = Some k"
proof (induction n S t and n S al fs p arbitrary: k and k rule: type_size_f_fields_end_f.induct)
  case (6 n S el m se)
  then show ?case by (auto split: option.splits)
next
  case (8 n S nm)
  then show ?case by (fastforce split: option.splits nat.splits)
next
  case (12 n S al f fs p)
  then show ?case by (fastforce split: option.splits if_splits)
qed (simp_all split: option.splits)

lemma type_size_f_mono:
  assumes "type_size_f n S t = Some k" "n \<le> m"
  shows "type_size_f m S t = Some k"
  using assms(2) by (induction m rule: dec_induct) (auto simp: assms(1) type_size_f_mono_step)

text \<open>The structure that a type contains, and those that the fields of a structure contain.\<close>

fun type_name :: "type_t \<Rightarrow> string option" where
  "type_name (TYPE_ARRAY el _ _) = (case el of None \<Rightarrow> None | Some t \<Rightarrow> type_name t)"
| "type_name (TYPE_STRUCT nm) = nm"
| "type_name _ = None"

definition field_names :: "field_t list \<Rightarrow> string list" where
  "field_names fs =
     List.map_filter (\<lambda>f. if is_bits f then None else case fi_type f of None \<Rightarrow> None | Some t \<Rightarrow> type_name t) fs"

definition ends_at :: "struct_sig list \<Rightarrow> nat \<Rightarrow> string \<Rightarrow> bool" where
  "ends_at S n nm \<longleftrightarrow> type_size_f n S (TYPE_STRUCT (Some nm)) \<noteq> None"

lemma type_size_f_ends:
  "type_size_f n S t \<noteq> None \<longleftrightarrow> (case type_name t of None \<Rightarrow> True | Some nm \<Rightarrow> ends_at S n nm)"
proof (induction t rule: measure_induct_rule [where f = size])
  case (less t)
  show ?case
  proof (cases t)
    case (TYPE_ARRAY el k se)
    show ?thesis
    proof (cases el)
      case (Some u)
      have "size u < size t" by (simp add: TYPE_ARRAY Some)
      from less [OF this] show ?thesis by (simp add: TYPE_ARRAY Some)
    qed (simp add: TYPE_ARRAY)
  next
    case (TYPE_STRUCT nm)
    then show ?thesis by (cases nm) (simp_all add: ends_at_def)
  qed simp_all
qed

lemma fields_end_f_ends:
  "fields_end_f n S al fs p \<noteq> None \<longleftrightarrow> (\<forall>nm\<in>set (field_names fs). ends_at S n nm)"
proof (induction fs arbitrary: p)
  case (Cons f fs)
  show ?case
  proof (cases "is_bits f \<or> fi_type f = None")
    case True
    then have "fields_end_f n S al (f # fs) p = fields_end_f n S al fs (snd (place_field al f 0 p))"
      and "field_names (f # fs) = field_names fs"
      by (auto simp: field_names_def List.map_filter_simps)
    then show ?thesis by (simp only: Cons.IH)
  next
    case False
    then obtain t where t: "fi_type f = Some t" "\<not> is_bits f" by blast
    have names: "field_names (f # fs) = (case type_name t of None \<Rightarrow> field_names fs | Some nm \<Rightarrow> nm # field_names fs)"
      by (simp add: field_names_def List.map_filter_simps t split: option.split)
    show ?thesis
    proof (cases "type_size_f n S t")
      case None
      then have "fields_end_f n S al (f # fs) p = None" by (simp add: t)
      moreover obtain nm where "type_name t = Some nm" "\<not> ends_at S n nm"
        using type_size_f_ends [of n S t] None by (auto split: option.splits)
      ultimately show ?thesis by (simp add: names)
    next
      case (Some sz)
      then have "fields_end_f n S al (f # fs) p = fields_end_f n S al fs (snd (place_field al f sz p))" by (simp add: t)
      moreover have "type_name t = Some nm \<Longrightarrow> ends_at S n nm" for nm
        using type_size_f_ends [of n S t] Some by simp
      ultimately show ?thesis by (simp only: Cons.IH) (simp add: names split: option.split)
    qed
  qed
qed (simp add: field_names_def List.map_filter_simps)

lemma ends_at_0: "ends_at S 0 nm \<longleftrightarrow> find_struct S nm = None"
  by (simp add: ends_at_def split: option.split)

lemma ends_at_Suc:
  "ends_at S (Suc n) nm \<longleftrightarrow>
     (case find_struct S nm of None \<Rightarrow> True | Some st \<Rightarrow> \<forall>x\<in>set (field_names (ss_fields st)). ends_at S n x)"
  using fields_end_f_ends by (auto simp: ends_at_def split: option.split)

lemma ends_at_mono: "ends_at S n nm \<Longrightarrow> n \<le> m \<Longrightarrow> ends_at S m nm"
  unfolding ends_at_def using type_size_f_mono by blast

lemma find_struct_None: "find_struct S nm = None \<longleftrightarrow> nm \<notin> ss_name ` set S"
  by (auto simp: find_struct_def find_None_iff)

definition ending :: "struct_sig list \<Rightarrow> nat \<Rightarrow> string set" where
  "ending S n = {nm \<in> ss_name ` set S. ends_at S n nm}"

lemma ends_at_ending: "ends_at S n nm \<longleftrightarrow> nm \<in> ending S n \<or> find_struct S nm = None"
proof (cases "find_struct S nm")
  case None
  then have "ends_at S n nm" using ends_at_mono [of S 0 nm n] by (simp add: ends_at_0)
  then show ?thesis by (simp add: None)
next
  case (Some st)
  then have "nm \<in> ss_name ` set S" using find_struct_None [of S nm] by simp
  then show ?thesis by (simp add: ending_def Some)
qed

lemma ending_Suc_cong: "ending S n = ending S m \<Longrightarrow> ending S (Suc n) = ending S (Suc m)"
  by (simp only: ending_def [of S "Suc n"] ending_def [of S "Suc m"] ends_at_Suc ends_at_ending [of S n] ends_at_ending [of S m])

lemma ending_stable: "ending S n = ending S (Suc n) \<Longrightarrow> ending S (n + k) = ending S n"
proof (induction k)
  case (Suc k)
  then have "ending S (n + k) = ending S n" by blast
  then have "ending S (Suc (n + k)) = ending S (Suc n)" by (rule ending_Suc_cong)
  then show ?case using Suc.prems by simp
qed simp

lemma ending_grows:
  assumes "\<And>i. i < n \<Longrightarrow> ending S i \<noteq> ending S (Suc i)"
  shows "n \<le> card (ending S n)"
  using assms
proof (induction n)
  case (Suc n)
  have "ending S n \<subseteq> ending S (Suc n)" by (auto simp: ending_def intro: ends_at_mono)
  then have "ending S n \<subset> ending S (Suc n)" using Suc.prems by blast
  moreover have "finite (ending S (Suc n))" by (simp add: ending_def)
  ultimately have "card (ending S n) < card (ending S (Suc n))" by (simp add: psubset_card_mono)
  moreover have "n \<le> card (ending S n)" using Suc by simp
  ultimately show ?case by simp
qed simp

lemma ending_bound: "ending S n \<subseteq> ending S (length S)"
proof (cases "\<exists>i \<le> length S. ending S i = ending S (Suc i)")
  case True
  then obtain i where i: "i \<le> length S" "ending S i = ending S (Suc i)" by blast
  have "ending S (length S) = ending S i"
    using ending_stable [OF i(2), of "length S - i"] i(1) by simp
  moreover have "ending S n \<subseteq> ending S i"
  proof (cases "n \<le> i")
    case True
    then show ?thesis by (auto simp: ending_def intro: ends_at_mono)
  next
    case False
    then show ?thesis using ending_stable [OF i(2), of "n - i"] by simp
  qed
  ultimately show ?thesis by simp
next
  case False
  then have "Suc (length S) \<le> card (ending S (Suc (length S)))" by (intro ending_grows) auto
  also have "\<dots> \<le> card (ss_name ` set S)" by (rule card_mono) (auto simp: ending_def)
  also have "\<dots> \<le> card (set S)" by (rule card_image_le) simp
  also have "\<dots> \<le> length S" by (rule card_length)
  finally show ?thesis by simp
qed

text \<open>The number of structures is a depth that loses nothing.\<close>

lemma type_size_depth_enough: "type_size_f n S t = Some k \<Longrightarrow> type_size_f (length S) S t = Some k"
proof -
  assume k: "type_size_f n S t = Some k"
  have "type_size_f (length S) S t \<noteq> None"
  proof (cases "type_name t")
    case None
    then show ?thesis by (simp only: type_size_f_ends) simp
  next
    case (Some nm)
    then have "ends_at S n nm" using k type_size_f_ends [of n S t] by simp
    then have "ends_at S (length S) nm" using ending_bound [of S n] by (auto simp: ends_at_ending)
    then show ?thesis by (simp only: type_size_f_ends) (simp add: Some)
  qed
  then obtain m where m: "type_size_f (length S) S t = Some m" by blast
  have "type_size_f (max n (length S)) S t = Some k" using k by (rule type_size_f_mono) simp
  moreover have "type_size_f (max n (length S)) S t = Some m" using m by (rule type_size_f_mono) simp
  ultimately show ?thesis using m by simp
qed

section \<open>Structures declared in order\<close>

text \<open>Every structure that a field contains is declared earlier, or nowhere.\<close>

fun declared_before :: "struct_sig list \<Rightarrow> struct_sig list \<Rightarrow> bool" where
  "declared_before S [] = True"
| "declared_before S (st # rest) =
     ((\<forall>nm\<in>set (field_names (ss_fields st)).
         find_struct S nm \<noteq> None \<or> find_struct (S @ st # rest) nm = None) \<and>
      declared_before (S @ [st]) rest)"

lemma find_struct_append: "find_struct (S @ T) nm = (case find_struct S nm of None \<Rightarrow> find_struct T nm | Some st \<Rightarrow> Some st)"
  by (induction S) (simp_all add: find_struct_def)

lemma declared_before_ends:
  assumes "declared_before S T" "\<And>nm. find_struct S nm \<noteq> None \<Longrightarrow> ends_at (S @ T) (length S) nm"
  shows "ends_at (S @ T) (length (S @ T)) nm"
  using assms
proof (induction T arbitrary: S)
  case Nil
  show ?case
  proof (cases "find_struct S nm")
    case None
    then show ?thesis by (simp add: ends_at_ending)
  next
    case (Some st)
    then show ?thesis using Nil.prems(2) [of nm] by simp
  qed
next
  case (Cons st rest)
  have "ends_at (S @ st # rest) (length (S @ [st])) x" if "find_struct (S @ [st]) x \<noteq> None" for x
  proof (cases "find_struct S x")
    case None
    then have x: "find_struct (S @ st # rest) x = Some st"
      using that by (simp add: find_struct_append) (simp add: find_struct_def split: if_splits)
    have "ends_at (S @ st # rest) (length S) y" if "y \<in> set (field_names (ss_fields st))" for y
    proof (cases "find_struct S y = None")
      case True
      then have "find_struct (S @ st # rest) y = None" using Cons.prems(1) that by auto
      then show ?thesis by (simp add: ends_at_ending)
    next
      case False
      then show ?thesis by (rule Cons.prems(2))
    qed
    then show ?thesis by (simp add: x ends_at_Suc)
  next
    case (Some u)
    then show ?thesis using Cons.prems(2) [of x] by (auto intro: ends_at_mono)
  qed
  then show ?case using Cons.IH [of "S @ [st]"] Cons.prems(1) by simp
qed

lemma declared_before_size: "declared_before [] S \<Longrightarrow> \<exists>k. type_size_f (length S) S t = Some k"
  using declared_before_ends [of "[]" S] type_size_f_ends [of "length S" S t]
  by (fastforce simp: find_struct_def split: option.splits)

text \<open>(C17) The size of every type is found when each structure refers only to structures that are
  declared before it: the compiler does not recurse without end.\<close>

theorem type_size_returns:
  assumes "declared_before [] (structs C)"
  shows "\<exists>n. type_size t C = Inr (n, C)"
proof -
  obtain k where "type_size_of (structs C) t = Some k"
    using declared_before_size [OF assms] by (cases t) (auto simp: type_size_of_def)
  then show ?thesis by (simp add: type_size_def gets_def bnd_def ret_def)
qed

definition ex_structs :: "struct_sig list" where
  "ex_structs =
     [\<lparr>ss_name = ''point'', ss_fields = [mk_field ''x'' TYPE_U16, mk_field ''y'' TYPE_U16], ss_aligned = False\<rparr>,
      \<lparr>ss_name = ''line'',
       ss_fields = [mk_field ''tag'' TYPE_U8, mk_field_bits (Some ''a'') 3, mk_field_bits (Some ''b'') 2,
                    mk_field ''p'' (TYPE_STRUCT (Some ''point'')), mk_field ''w'' (TYPE_ARRAY (Some TYPE_U8) 3 None)],
       ss_aligned = True\<rparr>]"

definition ex_state :: compiler where
  "ex_state = (init_compiler ''line.nib'')\<lparr>structs := ex_structs\<rparr>"

lemma structs_ex_state: "structs ex_state = ex_structs"
  by (simp add: ex_state_def)

theorem type_size_returns_witness:
  "declared_before [] (structs ex_state) \<and> (\<exists>n. type_size (Some (TYPE_STRUCT (Some ''line''))) ex_state = Inr (n, ex_state))"
proof -
  have "declared_before [] (structs ex_state)" unfolding structs_ex_state by code_simp
  then show ?thesis using type_size_returns [of ex_state "Some (TYPE_STRUCT (Some ''line''))"] by blast
qed

text \<open>A structure that contains itself has no size at any depth.\<close>

definition self_struct :: "struct_sig list" where
  "self_struct = [\<lparr>ss_name = ''node'', ss_fields = [mk_field ''next'' (TYPE_STRUCT (Some ''node''))], ss_aligned = False\<rparr>]"

lemma self_struct_unbounded: "type_size_f n self_struct (TYPE_STRUCT (Some ''node'')) = None"
  by (induction n) (simp_all add: self_struct_def find_struct_def mk_field_def)

section \<open>Fields\<close>

text \<open>The bits of a structure that a field occupies.\<close>

definition fl_start :: "field_layout \<Rightarrow> int" where
  "fl_start l = 8 * byte_offset l + (if fl_is_bits l then bit_offset l else 0)"

definition fl_end :: "struct_sig list \<Rightarrow> field_layout \<Rightarrow> int" where
  "fl_end S l = fl_start l + (if fl_is_bits l then fl_bits l else 8 * the (type_size_of S (storage_type l)))"

text \<open>No array and no bit field has a negative size.\<close>

fun dims_ok :: "type_t \<Rightarrow> bool" where
  "dims_ok (TYPE_ARRAY el k _) = (0 \<le> k \<and> (case el of None \<Rightarrow> True | Some t \<Rightarrow> dims_ok t))"
| "dims_ok (TYPE_BCD k) = (0 \<le> k)"
| "dims_ok _ = True"

definition field_ok :: "field_t \<Rightarrow> bool" where
  "field_ok f = (if is_bits f then 0 \<le> bits f else case fi_type f of None \<Rightarrow> True | Some t \<Rightarrow> dims_ok t)"

definition structs_ok :: "struct_sig list \<Rightarrow> bool" where
  "structs_ok S = list_all (\<lambda>st. list_all field_ok (ss_fields st)) S"

lemma structs_ok_find: "structs_ok S \<Longrightarrow> find_struct S nm = Some st \<Longrightarrow> list_all field_ok (ss_fields st)"
  by (auto simp: structs_ok_def find_struct_def list_all_iff find_Some_iff)

lemma type_size_f_nonneg:
  "structs_ok S \<Longrightarrow> dims_ok t \<Longrightarrow> type_size_f n S t = Some k \<Longrightarrow> 0 \<le> k"
  "structs_ok S \<Longrightarrow> list_all field_ok fs \<Longrightarrow> 0 \<le> p \<Longrightarrow> fields_end_f n S al fs p = Some e \<Longrightarrow> p \<le> e"
proof (induction n S t and n S al fs p arbitrary: k and e rule: type_size_f_fields_end_f.induct)
  case (6 n S el m se)
  then show ?case by (auto split: option.splits)
next
  case (8 n S nm)
  show ?case
  proof (cases "k = 0")
    case False
    then obtain s st m b where *: "nm = Some s" "find_struct S s = Some st" "n = Suc m"
      "fields_end_f m S (ss_aligned st) (ss_fields st) 0 = Some b" "k = (b + 7) sdiv 8"
      using "8.prems"(3) by (auto split: option.splits nat.splits)
    have "0 \<le> b" using "8.IH" [OF *(1,2,3) "8.prems"(1) _ _ *(4)] structs_ok_find [OF "8.prems"(1) *(2)] by simp
    then show ?thesis by (simp add: * sdiv_8)
  qed simp
next
  case (12 n S al f fs p)
  then obtain sz where sz: "(if is_bits f then Some 0 else case fi_type f of None \<Rightarrow> Some 0 | Some t \<Rightarrow> type_size_f n S t) = Some sz"
    and e: "fields_end_f n S al fs (snd (place_field al f sz p)) = Some e"
    by (auto split: option.splits)
  have "p \<le> snd (place_field al f sz p)"
  proof (cases "is_bits f")
    case True
    then show ?thesis using "12.prems"(2) by (simp add: place_field_bits field_ok_def)
  next
    case False
    have "0 \<le> sz"
    proof (cases "fi_type f")
      case (Some t)
      then show ?thesis using "12.IH"(1) [OF False Some "12.prems"(1)] "12.prems"(2) sz False by (simp add: field_ok_def)
    qed (use sz False in simp)
    then show ?thesis using place_field_bytes [OF False "12.prems"(3), of al sz] by auto
  qed
  then show ?case using "12.IH"(2) [OF sz "12.prems"(1) _ _ e] "12.prems"(2,3) by simp
qed simp_all

text \<open>The field at the head of the list, placed behind \<open>p\<close>, and the fields behind it.\<close>

lemma first_field:
  assumes "field_ok f" "structs_ok S" "0 \<le> p"
    and sz: "(if is_bits f then Some 0 else type_size_of S (fi_type f)) = Some sz"
    and l: "l = layout_of f raw (fst (place_field al f sz p))"
  shows "p \<le> fl_start l \<and> fl_start l \<le> fl_end S l \<and> fl_end S l = snd (place_field al f sz p) \<and>
         (al \<and> \<not> fl_is_bits l \<and> type_needs_word_alignment (storage_type l) \<longrightarrow> even (byte_offset l))"
proof (cases "is_bits f")
  case True
  then show ?thesis
    using assms by (auto simp: place_field_bits layout_of_def Let_def fl_start_def fl_end_def field_ok_def sdiv_8 and_7)
next
  case False
  obtain b where b: "place_field al f sz p = (8 * b, 8 * b + 8 * sz)" "p \<le> 8 * b" "0 \<le> b"
    "al \<and> type_needs_word_alignment (fi_type f) \<longrightarrow> even b"
    using place_field_bytes [OF False assms(3)] by blast
  have "0 \<le> sz"
  proof (cases "fi_type f")
    case (Some t)
    then show ?thesis
      using type_size_f_nonneg(1) [OF assms(2), of t "length S" sz] assms(1) sz False
      by (simp add: field_ok_def type_size_of_def)
  qed (use sz False in \<open>simp add: type_size_of_def\<close>)
  then show ?thesis
    using b sz False by (cases al) (simp_all add: l layout_of_def Let_def fl_start_def fl_end_def sdiv_8)
qed

lemma find_field_start:
  assumes "find_field S al nm raw fs p = Some (Some l)" "list_all field_ok fs" "structs_ok S" "0 \<le> p"
  shows "p \<le> fl_start l \<and> fl_start l \<le> fl_end S l \<and>
         (al \<and> \<not> fl_is_bits l \<and> type_needs_word_alignment (storage_type l) \<longrightarrow> even (byte_offset l)) \<and>
         (fields_end_f (length S) S al fs p = Some e \<longrightarrow> fl_end S l \<le> e)"
  using assms
proof (induction fs arbitrary: p)
  case (Cons f fs)
  then obtain sz where sz: "(if is_bits f then Some 0 else type_size_of S (fi_type f)) = Some sz"
    by (auto split: option.splits)
  have ok: "field_ok f" "list_all field_ok fs" using Cons.prems(2) by auto
  define l0 where "l0 = layout_of f raw (fst (place_field al f sz p))"
  define q where "q = snd (place_field al f sz p)"
  note first = first_field [OF ok(1) Cons.prems(3,4) sz l0_def]
  have q: "p \<le> q" "0 \<le> q" using first Cons.prems(4) by (auto simp: q_def)
  have ends: "fields_end_f (length S) S al (f # fs) p = Some e \<Longrightarrow> fields_end_f (length S) S al fs q = Some e"
    using sz by (auto simp: q_def type_size_of_def split: option.splits if_splits)
  have found: "(if fi_name f = Some nm then Some (Some l0) else find_field S al nm raw fs q) = Some (Some l)"
    using Cons.prems(1) sz by (simp add: l0_def q_def split: prod.splits if_splits)
  show ?case
  proof (cases "fi_name f = Some nm")
    case True
    then have l: "l = l0" using found by simp
    have "fields_end_f (length S) S al fs q = Some e \<Longrightarrow> q \<le> e"
      using type_size_f_nonneg(2) [OF Cons.prems(3) ok(2) q(2)] .
    then show ?thesis using first ends by (auto simp: l q_def)
  next
    case False
    then have "find_field S al nm raw fs q = Some (Some l)" using found by simp
    from Cons.IH [OF this ok(2) Cons.prems(3) q(2)] q(1) ends show ?thesis by auto
  qed
qed simp

lemma find_field_disjoint:
  assumes "find_field S al n1 r1 fs p = Some (Some l1)" "find_field S al n2 r2 fs p = Some (Some l2)"
    and "n1 \<noteq> n2" "list_all field_ok fs" "structs_ok S" "0 \<le> p"
  shows "fl_end S l1 \<le> fl_start l2 \<or> fl_end S l2 \<le> fl_start l1"
  using assms
proof (induction fs arbitrary: p)
  case (Cons f fs)
  then obtain sz where sz: "(if is_bits f then Some 0 else type_size_of S (fi_type f)) = Some sz"
    by (auto split: option.splits)
  have ok: "field_ok f" "list_all field_ok fs" using Cons.prems(4) by auto
  define q where "q = snd (place_field al f sz p)"
  define lay where "lay = (\<lambda>raw. layout_of f raw (fst (place_field al f sz p)))"
  have first: "p \<le> fl_start (lay raw) \<and> fl_start (lay raw) \<le> fl_end S (lay raw) \<and> fl_end S (lay raw) = q" for raw
    using first_field [OF ok(1) Cons.prems(5,6) sz refl, of raw al] by (simp add: lay_def q_def)
  have q: "0 \<le> q" using first [of True] Cons.prems(6) by linarith
  have found: "(if fi_name f = Some nm then Some (Some (lay raw)) else find_field S al nm raw fs q) =
      find_field S al nm raw (f # fs) p" for nm raw
    using sz by (simp add: lay_def q_def split: prod.splits)
  consider "fi_name f = Some n1" | "fi_name f = Some n2" | "fi_name f \<noteq> Some n1" "fi_name f \<noteq> Some n2" by blast
  then show ?case
  proof cases
    case 1
    then have "l1 = lay r1" "find_field S al n2 r2 fs q = Some (Some l2)"
      using found [of n1 r1] found [of n2 r2] Cons.prems(1,2,3) by auto
    then show ?thesis using find_field_start [OF _ ok(2) Cons.prems(5) q] first [of r1] by fastforce
  next
    case 2
    then have "l2 = lay r2" "find_field S al n1 r1 fs q = Some (Some l1)"
      using found [of n1 r1] found [of n2 r2] Cons.prems(1,2,3) by auto
    then show ?thesis using find_field_start [OF _ ok(2) Cons.prems(5) q] first [of r2] by fastforce
  next
    case 3
    then show ?thesis
      using Cons.IH [OF _ _ Cons.prems(3) ok(2) Cons.prems(5) q] found [of n1 r1] found [of n2 r2] Cons.prems(1,2) by simp
  qed
qed simp

lemma struct_field_layoutE:
  assumes "struct_field_layout ty nm raw C = Inr (l, C')" "fl_found l"
  obtains s st where "ty = Some (TYPE_STRUCT (Some s))" "find_struct (structs C) s = Some st"
    "find_field (structs C) (ss_aligned st) nm raw (ss_fields st) 0 = Some (Some l)"
  using assms
  by (auto simp: struct_field_layout_def gets_def bnd_def ret_def andthen_def cerr_def modify_def stop_def no_layout_def
      split: option.splits type_t.splits)


definition layout_p :: field_layout where
  "layout_p = layout_of (mk_field ''p'' (TYPE_STRUCT (Some ''point''))) False 16"

definition layout_b :: field_layout where
  "layout_b = layout_of (mk_field_bits (Some ''b'') 2) False 11"


end
