(* ===== verification/Compile_Effect.thy ===== *)
theory Compile_Effect
  imports Compile_Main
begin

text \<open>
  What a part of the compiler does to its state, as a relation between the state before and after.
  A relation that is reflexive and transitive is kept by every way of composing programs
  (\<open>locale effect\<close>). The first instance is that code for expressions, assignments and
  declarations writes no label and no jump and leaves the labels of the loops alone.
\<close>

definition does :: "('s \<Rightarrow> 's \<Rightarrow> bool) \<Rightarrow> ('s, 'e, 'a) prog \<Rightarrow> bool" where
  "does R m \<longleftrightarrow> (\<forall>s a t. m s = Inr (a, t) \<longrightarrow> R s t)"

lemma doesI: "(\<And>s a t. m s = Inr (a, t) \<Longrightarrow> R s t) \<Longrightarrow> does R m"
  by (simp add: does_def)

lemma doesD: "does R m \<Longrightarrow> m s = Inr (a, t) \<Longrightarrow> R s t"
  by (simp add: does_def)

lemma bnd_Inr: "bnd m k s = Inr (b, u) \<longleftrightarrow> (\<exists>a t. m s = Inr (a, t) \<and> k a t = Inr (b, u))"
  by (auto simp: bnd_def split: sum.splits)

lemma andthen_Inr: "andthen m n s = Inr (b, u) \<longleftrightarrow> (\<exists>t. m s = Inr ((), t) \<and> n t = Inr (b, u))"
  by (auto simp: andthen_def bnd_Inr)

lemma does_modify: "(\<And>s. R s (f s)) \<Longrightarrow> does R (modify f)"
  by (simp add: does_def modify_def)

named_theorems does_rules

locale effect =
  fixes R :: "'s \<Rightarrow> 's \<Rightarrow> bool"
  assumes refl: "R s s" and trans: "R s t \<Longrightarrow> R t u \<Longrightarrow> R s u"
begin

lemma does_ret [does_rules]: "does R (ret a)"
  by (simp add: does_def ret_def refl)

lemma does_gets [does_rules]: "does R (gets f)"
  by (simp add: does_def gets_def refl)

lemma does_stop [does_rules]: "does R (stop e)"
  by (simp add: does_def stop_def)

lemma does_bnd [does_rules]: "does R m \<Longrightarrow> (\<And>a. does R (k a)) \<Longrightarrow> does R (bnd m k)"
  unfolding does_def bnd_Inr by (blast intro: trans)

lemma does_andthen [does_rules]: "does R m \<Longrightarrow> does R n \<Longrightarrow> does R (andthen m n)"
  unfolding andthen_def by (rule does_bnd)

lemma does_block: "(\<And>m. m \<in> set ms \<Longrightarrow> does R m) \<Longrightarrow> does R (block ms)"
  by (induction ms) (auto intro: does_ret does_andthen)

lemma does_block_nil [does_rules]: "does R (block [])"
  by (simp add: does_ret)

lemma does_block_cons [does_rules]: "does R m \<Longrightarrow> does R (block ms) \<Longrightarrow> does R (block (m # ms))"
  by (simp add: does_andthen)

lemma does_for_each [does_rules]: "(\<And>x. x \<in> set xs \<Longrightarrow> does R (f x)) \<Longrightarrow> does R (for_each xs f)"
  by (induction xs) (auto intro: does_ret does_andthen)

end

section \<open>Labels in the code\<close>

definition label_defs :: "nir list \<Rightarrow> int list" where
  "label_defs ls = List.map_filter (\<lambda>l. case l of NLabel n \<Rightarrow> Some n | _ \<Rightarrow> None) ls"

definition opnd_labels :: "nir_opnd list \<Rightarrow> int list" where
  "opnd_labels xs = List.map_filter (\<lambda>x. case x of Lb n \<Rightarrow> Some n | _ \<Rightarrow> None) xs"

definition label_uses :: "nir list \<Rightarrow> int list" where
  "label_uses ls = concat (map (\<lambda>l. case l of Ins _ xs \<Rightarrow> opnd_labels xs | _ \<Rightarrow> []) ls)"

lemma map_filter_append: "List.map_filter f (xs @ ys) = List.map_filter f xs @ List.map_filter f ys"
  by (simp add: List.map_filter_def)

lemma label_defs_append [simp]: "label_defs (xs @ ys) = label_defs xs @ label_defs ys"
  by (simp add: label_defs_def map_filter_append)

lemma label_uses_append [simp]: "label_uses (xs @ ys) = label_uses xs @ label_uses ys"
  by (simp add: label_uses_def)

lemma opnd_labels_simps [simp]:
  "opnd_labels [] = []" "opnd_labels (xs @ ys) = opnd_labels xs @ opnd_labels ys"
  "opnd_labels (Vr v # xs) = opnd_labels xs" "opnd_labels (Im n # xs) = opnd_labels xs"
  "opnd_labels (Hx n # xs) = opnd_labels xs" "opnd_labels (Nm s # xs) = opnd_labels xs"
  "opnd_labels (Ix a b # xs) = opnd_labels xs" "opnd_labels (Lb l # xs) = l # opnd_labels xs"
  "opnd_labels (vregs_of vs) = []"
  by (simp_all add: opnd_labels_def List.map_filter_simps map_filter_append vregs_of_def List.map_filter_def comp_def)

lemma opnd_labels_if [simp]:
  "opnd_labels ((if c then x else y) # xs) = (if c then opnd_labels (x # xs) else opnd_labels (y # xs))"
  by simp

lemma label_simps [simp]:
  "label_defs [] = []" "label_uses [] = []"
  "label_defs (Ins n xs # ls) = label_defs ls" "label_uses (Ins n xs # ls) = opnd_labels xs @ label_uses ls"
  "label_defs (NLabel l # ls) = l # label_defs ls" "label_uses (NLabel l # ls) = label_uses ls"
  "label_defs (NPrefer v r # ls) = label_defs ls" "label_uses (NPrefer v r # ls) = label_uses ls"
  "label_defs (NText x # ls) = label_defs ls" "label_uses (NText x # ls) = label_uses ls"
  by (simp_all add: label_defs_def label_uses_def List.map_filter_simps)

definition unlabelled :: "nir \<Rightarrow> bool" where
  "unlabelled l \<longleftrightarrow> label_defs [l] = [] \<and> label_uses [l] = []"

lemma unlabelled_simps [simp]:
  "unlabelled (NName s)" "unlabelled (NVreg v ts)" "unlabelled (NPrefer v r)" "unlabelled (NLocal v n s)"
  "unlabelled (NConst n s)" "unlabelled (NPin v r)" "unlabelled (NNote s xs)" "unlabelled (NLine f n)"
  "unlabelled (NAsm a b)" "unlabelled (NText s)" "unlabelled (Ins nm xs) = (opnd_labels xs = [])"
  by (simp_all add: unlabelled_def label_defs_def label_uses_def List.map_filter_simps)

section \<open>Code without labels\<close>

definition loop_state :: "compiler \<Rightarrow> int \<times> int \<times> int" where
  "loop_state C = (loop_depth C, loop_break_label C, loop_continue_label C)"

definition plain_rel :: "compiler \<Rightarrow> compiler \<Rightarrow> bool" where
  "plain_rel s t \<longleftrightarrow>
     (\<exists>new. nir t = nir s @ new \<and> label_defs new = [] \<and> label_uses new = []) \<and>
     next_label t = next_label s \<and> loop_state t = loop_state s"

abbreviation plain :: "'a comp \<Rightarrow> bool" where
  "plain m \<equiv> does plain_rel m"

interpretation plain: effect plain_rel
  by unfold_locales (auto simp: plain_rel_def)

lemma plain_modify [does_rules]:
  "(\<And>s. nir (f s) = nir s \<and> next_label (f s) = next_label s \<and> loop_state (f s) = loop_state s) \<Longrightarrow> plain (modify f)"
  by (rule does_modify) (simp add: plain_rel_def)

lemma plain_emit_nir [does_rules]: "unlabelled l \<Longrightarrow> plain (emit_nir l)"
  unfolding emit_nir_def
  by (rule does_modify) (auto simp: plain_rel_def unlabelled_def loop_state_def)

lemma plain_ins [does_rules]: "opnd_labels xs = [] \<Longrightarrow> plain (ins n xs)"
  by (simp add: ins_def plain_emit_nir)

lemma plain_if [does_rules]: "(b \<Longrightarrow> plain m) \<Longrightarrow> (\<not> b \<Longrightarrow> plain n) \<Longrightarrow> plain (if b then m else n)"
  by simp

lemma plain_option [does_rules]: "plain m \<Longrightarrow> (\<And>x. plain (k x)) \<Longrightarrow> plain (case v of None \<Rightarrow> m | Some x \<Rightarrow> k x)"
  by (cases v) auto

lemma plain_prod [does_rules]: "(\<And>x y. plain (k x y)) \<Longrightarrow> plain (case p of (x, y) \<Rightarrow> k x y)"
  by (cases p) auto

lemmas plain_splits = option.split list.split expr_t.split type_t.split const_val.split prod.split bool.split

end
