(* ===== verification/Compile_Plain.thy ===== *)
theory Compile_Plain
  imports Compile_Effect
begin

text \<open>
  The code of expressions, assignments and declarations of variables writes no label and no jump to
  a label: a lemma for each function of the compiler, behind those of the functions it calls.
\<close>

section \<open>Scopes, tables and constants\<close>

lemma plain_cerr [does_rules]: "plain cerr"
  by (auto simp: cerr_def Let_def loop_state_def intro!: does_rules split: plain_splits)

lemma plain_cerr_if [does_rules]: "plain (cerr_if b)"
  by (auto simp: cerr_if_def Let_def loop_state_def intro!: does_rules split: plain_splits)

lemma plain_alloc_vreg [does_rules]: "plain alloc_vreg"
  by (auto simp: alloc_vreg_def Let_def loop_state_def intro!: does_rules split: plain_splits)

lemma plain_push_scope [does_rules]: "plain push_scope"
  by (auto simp: push_scope_def Let_def loop_state_def intro!: does_rules split: plain_splits)

lemma plain_pop_scope [does_rules]: "plain pop_scope"
  by (auto simp: pop_scope_def Let_def loop_state_def intro!: does_rules split: plain_splits)

lemma plain_sym_lookup [does_rules]: "plain (sym_lookup nm)"
  by (auto simp: sym_lookup_def Let_def loop_state_def intro!: does_rules split: plain_splits)

lemma plain_add_symbol [does_rules]: "plain (add_symbol s)"
  by (auto simp: add_symbol_def Let_def loop_state_def intro!: does_rules split: plain_splits)

lemma plain_sym_add [does_rules]: "plain (sym_add nm ty glob)"
  by (auto simp: sym_add_def Let_def loop_state_def intro!: does_rules split: plain_splits)

lemma plain_sym_add_pinned [does_rules]: "plain (sym_add_pinned ty reg rc)"
  by (auto simp: sym_add_pinned_def Let_def loop_state_def intro!: does_rules split: plain_splits)

lemma plain_find_function [does_rules]: "plain (find_function nm)"
  by (auto simp: find_function_def Let_def loop_state_def intro!: does_rules split: plain_splits)

lemma plain_find_indirect_descriptor [does_rules]: "plain (find_indirect_descriptor nm modl)"
  by (auto simp: find_indirect_descriptor_def Let_def loop_state_def intro!: does_rules split: plain_splits)

lemma plain_register_function_returns [does_rules]: "plain (register_function_returns nm rets params)"
  by (auto simp: register_function_returns_def Let_def loop_state_def intro!: does_rules split: plain_splits)

lemma plain_is_isr [does_rules]: "plain (is_isr nm)"
  by (auto simp: is_isr_def Let_def loop_state_def intro!: does_rules split: plain_splits)

lemma plain_register_constant [does_rules]: "plain (register_constant nm v)"
  by (auto simp: register_constant_def Let_def loop_state_def intro!: does_rules split: plain_splits)

lemma plain_eval_const [does_rules]: "plain (eval_const e)"
  by (auto simp: eval_const_def Let_def loop_state_def intro!: does_rules split: plain_splits)

lemma plain_require_const_expr [does_rules]: "plain (require_const_expr e)"
  by (auto simp: require_const_expr_def Let_def loop_state_def intro!: does_rules split: plain_splits)

lemma plain_resolve_type_constants [does_rules]: "plain (resolve_type_constants t)"
  by (induction t rule: resolve_type_constants.induct) (auto intro!: does_rules split: option.split)

section \<open>Types\<close>

lemma plain_type_size [does_rules]: "plain (type_size t)"
  by (auto simp: type_size_def Let_def loop_state_def intro!: does_rules split: plain_splits)

lemma plain_struct_field_layout [does_rules]: "plain (struct_field_layout ty nm raw)"
  by (auto simp: struct_field_layout_def Let_def loop_state_def intro!: does_rules split: plain_splits)

lemma plain_type_assignable [does_rules]: "plain (type_assignable d s)"
  by (auto simp: type_assignable_def Let_def loop_state_def intro!: does_rules split: plain_splits)

lemma plain_check_arith [does_rules]: "plain (check_arith l r k)"
  by (auto simp: check_arith_def Let_def loop_state_def intro!: does_rules split: plain_splits)

lemma plain_check_compare [does_rules]: "plain (check_compare l r)"
  by (auto simp: check_compare_def Let_def loop_state_def intro!: does_rules split: plain_splits)

section \<open>Locals whose address is taken\<close>

lemma plain_scan_addr_taken_stmt [does_rules]: "plain (scan_addr_taken_stmt body)"
  by (auto simp: scan_addr_taken_stmt_def Let_def loop_state_def intro!: does_rules split: plain_splits)

lemma plain_should_stack_allocate_local [does_rules]: "plain (should_stack_allocate_local nm)"
  by (auto simp: should_stack_allocate_local_def Let_def loop_state_def intro!: does_rules split: plain_splits)

section \<open>Loads, stores and names\<close>

lemma plain_TV [does_rules]: "plain (TV v ty)"
  by (auto simp: TV_def Let_def loop_state_def intro!: does_rules split: plain_splits)

lemma plain_TV_FAR [does_rules]: "plain (TV_FAR off_vreg seg_vreg)"
  by (auto simp: TV_FAR_def Let_def loop_state_def intro!: does_rules split: plain_splits)

lemma plain_TV_PIN [does_rules]: "plain (TV_PIN v ty pin)"
  by (auto simp: TV_PIN_def Let_def loop_state_def intro!: does_rules split: plain_splits)

lemma plain_fresh_tv [does_rules]: "plain (fresh_tv ty)"
  by (auto simp: fresh_tv_def Let_def loop_state_def intro!: does_rules split: plain_splits)

lemma plain_add_disp [does_rules]: "plain (add_disp n p)"
  by (auto simp: add_disp_def Let_def loop_state_def intro!: does_rules split: plain_splits)

lemma plain_addr_collect [does_rules]: "plain (addr_collect e p)"
  by (induction e p rule: addr_collect.induct, subst addr_collect.simps)
     (auto intro!: does_rules split: option.split expr_t.split)

lemma plain_const_or [does_rules]: "plain (const_or e n)"
  by (auto simp: const_or_def Let_def loop_state_def intro!: does_rules split: plain_splits)

lemma plain_format_direct_addr [does_rules]: "plain (format_direct_addr e seg)"
  by (auto simp: format_direct_addr_def Let_def loop_state_def intro!: does_rules split: plain_splits)

lemma plain_mem_operand [does_rules]: "plain (mem_operand m)"
  by (auto simp: mem_operand_def Let_def loop_state_def intro!: does_rules split: plain_splits)

lemma plain_emit_mem_load [does_rules]: "plain (emit_mem_load m target)"
  by (auto simp: emit_mem_load_def Let_def loop_state_def intro!: does_rules split: plain_splits)

lemma plain_deref_load_code [does_rules]: "plain (deref_load_code d ptr seg)"
  by (auto simp: deref_load_code_def Let_def loop_state_def intro!: does_rules split: plain_splits)

lemma plain_deref_store_code [does_rules]: "plain (deref_store_code ptr seg v)"
  by (auto simp: deref_store_code_def Let_def loop_state_def intro!: does_rules split: plain_splits)

lemma plain_emit_stack_addr [does_rules]: "plain (emit_stack_addr smb)"
  by (auto simp: emit_stack_addr_def Let_def loop_state_def intro!: does_rules split: plain_splits)

lemma plain_emit_stack_local_value [does_rules]: "plain (emit_stack_local_value smb)"
  by (auto simp: emit_stack_local_value_def Let_def loop_state_def intro!: does_rules split: plain_splits)

lemma plain_emit_stack_far_addr [does_rules]: "plain (emit_stack_far_addr smb)"
  by (auto simp: emit_stack_far_addr_def Let_def loop_state_def intro!: does_rules split: plain_splits)

lemma plain_emit_addr_plus_const [does_rules]: "plain (emit_addr_plus_const base offset)"
  by (auto simp: emit_addr_plus_const_def Let_def loop_state_def intro!: does_rules split: plain_splits)

lemma plain_emit_far_const [does_rules]: "opnd_labels [segment] = [] \<Longrightarrow> opnd_labels [offset] = [] \<Longrightarrow> plain (emit_far_const segment offset)"
  by (auto simp: emit_far_const_def Let_def loop_state_def intro!: does_rules split: plain_splits)

lemma plain_emit_struct_field_value [does_rules]: "plain (emit_struct_field_value obj nm raw)"
  by (auto simp: emit_struct_field_value_def Let_def loop_state_def intro!: does_rules split: plain_splits)

lemma plain_emit_struct_field_store [does_rules]: "plain (emit_struct_field_store obj nm v)"
  by (auto simp: emit_struct_field_store_def Let_def loop_state_def intro!: does_rules split: plain_splits)

lemma plain_emit_ident [does_rules]: "plain (emit_ident nm)"
  by (auto simp: emit_ident_def Let_def loop_state_def intro!: does_rules split: plain_splits)

lemma plain_reg_symbol [does_rules]: "plain (reg_symbol nm ty reg rc)"
  by (auto simp: reg_symbol_def Let_def loop_state_def intro!: does_rules split: plain_splits)

lemma plain_emit_reg [does_rules]: "plain (emit_reg nm ty reg rc)"
  by (auto simp: emit_reg_def Let_def loop_state_def intro!: does_rules split: plain_splits)

lemma plain_emit_str [does_rules]: "plain (emit_str s)"
  by (auto simp: emit_str_def Let_def loop_state_def intro!: does_rules split: plain_splits)

section \<open>Operators, calls and arrays\<close>

lemma opnd_labels_of [simp]:
  "opnd_labels (right_opnd imm r # xs) = opnd_labels xs" "opnd_labels (port_opnd imm r # xs) = opnd_labels xs"
  "opnd_labels (arg avs i # xs) = opnd_labels xs"
  by (simp_all add: right_opnd_def port_opnd_def arg_def split: option.split)

lemma plain_check_shift [does_rules]: "plain (check_shift l)"
  by (auto simp: check_shift_def Let_def loop_state_def intro!: does_rules split: plain_splits)

lemma plain_binop_code [does_rules]: "plain (binop_code k l imm r)"
  by (auto simp: binop_code_def Let_def loop_state_def intro!: does_rules split: plain_splits)

lemma plain_unop_special [does_rules]: "plain (unop_special k e)"
  by (auto simp: unop_special_def Let_def loop_state_def intro!: does_rules split: plain_splits)

lemma plain_unop_code [does_rules]: "plain (unop_code k x)"
  by (auto simp: unop_code_def Let_def loop_state_def intro!: does_rules split: plain_splits)

lemma plain_split_far_arg [does_rules]: "plain (split_far_arg e v)"
  by (auto simp: split_far_arg_def Let_def loop_state_def intro!: does_rules split: plain_splits)

lemma plain_ir_args [does_rules]: "plain (ir_args fars avs)"
  by (induction fars avs rule: ir_args.induct) (auto intro!: does_rules)

lemma plain_string_setup [does_rules]: "plain string_setup"
  by (auto simp: string_setup_def Let_def loop_state_def intro!: does_rules split: plain_splits)

lemma plain_string_builtin [does_rules]: "plain (string_builtin second rep avs)"
  by (auto simp: string_builtin_def Let_def loop_state_def intro!: does_rules split: plain_splits)

definition builtin_plain :: "(nat \<times> string \<times> nir_opnd list \<times> type_t) option \<Rightarrow> bool" where
  "builtin_plain r = (case r of None \<Rightarrow> True | Some (n, i, xs, ty) \<Rightarrow> opnd_labels xs = [])"

lemma builtin_plain_rules:
  "builtin_plain x \<Longrightarrow> builtin_plain y \<Longrightarrow> builtin_plain (if c then x else y)" "builtin_plain None"
  "opnd_labels xs = [] \<Longrightarrow> builtin_plain (Some (n, i, xs, ty))"
  by (simp_all add: builtin_plain_def)

lemma plain_ins_if [does_rules]: "opnd_labels xs = [] \<Longrightarrow> plain (ins_if n avs nm xs)"
  by (auto simp: ins_if_def Let_def loop_state_def intro!: does_rules split: plain_splits)

lemma simple_builtin_labels: "simple_builtin nm avs d = Some (n, i, xs, ty) \<Longrightarrow> opnd_labels xs = []"
proof -
  have "builtin_plain (simple_builtin nm avs d)"
    unfolding simple_builtin_def by (intro builtin_plain_rules) simp_all
  then show "simple_builtin nm avs d = Some (n, i, xs, ty) \<Longrightarrow> opnd_labels xs = []" by (simp add: builtin_plain_def)
qed

lemma plain_builtin_call_of: "builtin_call nm avs d = Some m \<Longrightarrow> plain m"
  by (auto simp: builtin_call_def intro!: does_rules dest: simple_builtin_labels split: option.splits if_splits)

lemma plain_builtin_call: "plain n \<Longrightarrow> plain (case builtin_call nm avs d of None \<Rightarrow> n | Some m \<Rightarrow> m)"
  by (auto dest: plain_builtin_call_of split: option.split)

lemma plain_call_code [does_rules]: "plain (call_code f nm fi args avs)"
  unfolding call_code_def Let_def
  by (intro plain.does_bnd plain_alloc_vreg plain_builtin_call) (auto intro!: does_rules split: option.split expr_t.split)

lemma plain_icall_code [does_rules]: "plain (icall_code a fd args avs)"
  by (auto simp: icall_code_def Let_def loop_state_def intro!: does_rules split: plain_splits)

lemma plain_ncall_code [does_rules]: "plain (ncall_code a fd args avs)"
  by (auto simp: ncall_code_def Let_def loop_state_def intro!: does_rules split: plain_splits)

lemma plain_scale_index [does_rules]: "plain (scale_index idx sh)"
  by (auto simp: scale_index_def Let_def loop_state_def intro!: does_rules split: plain_splits)

lemma plain_check_index [does_rules]: "plain (check_index arr idx)"
  by (auto simp: check_index_def Let_def loop_state_def intro!: does_rules split: plain_splits)

lemma plain_index_code [does_rules]: "plain (index_code arr idx)"
  by (auto simp: index_code_def Let_def loop_state_def intro!: does_rules split: plain_splits)

lemma plain_checked_index_code [does_rules]: "plain (checked_index_code arr idx)"
  by (auto simp: checked_index_code_def Let_def loop_state_def intro!: does_rules split: plain_splits)

lemma plain_type_case:
  "plain (case u of TYPE_U8 \<Rightarrow> a1 | TYPE_U16 \<Rightarrow> a2 | TYPE_U32 \<Rightarrow> a3 | TYPE_SEG \<Rightarrow> a4 | TYPE_BOOL \<Rightarrow> a5
     | TYPE_ARRAY el n se \<Rightarrow> a6 el n se | TYPE_BCD n \<Rightarrow> a7 n | TYPE_STRUCT nm \<Rightarrow> a8 nm | TYPE_FAR \<Rightarrow> a9 | TYPE_VOID \<Rightarrow> a10)"
  if "plain a1" "plain a2" "plain a3" "plain a4" "plain a5" "\<And>el n se. plain (a6 el n se)" "\<And>n. plain (a7 n)"
    "\<And>nm. plain (a8 nm)" "plain a9" "plain a10"
  by (cases u) (use that in simp_all)

lemma plain_far_part [does_rules]: "plain (far_part nm off seg)"
  by (auto simp: far_part_def Let_def loop_state_def intro!: does_rules split: plain_splits)

lemma plain_raw_field_code [does_rules]: "plain (raw_field_code e obj nm)"
  unfolding raw_field_code_def 
  by (rule plain_option [OF plain_emit_struct_field_value], rule plain_type_case)
     (auto intro!: does_rules split: expr_t.split option.split)

section \<open>Expressions\<close>

lemma plain_for_default [does_rules]: "plain m \<Longrightarrow> plain (for_default target m)"
  by (auto simp: for_default_def intro!: does_rules)

lemma plain_for_unop_code [does_rules]: "plain (for_unop_code k target x)"
  by (auto simp: for_unop_code_def Let_def loop_state_def intro!: does_rules split: plain_splits)

lemma plain_for_binop_code [does_rules]: "plain (for_binop_code k target l imm r)"
  by (auto simp: for_binop_code_def Let_def loop_state_def intro!: does_rules split: plain_splits)

lemma plain_port_out_code [does_rules]: "plain (port_out_code wide imm p v)"
  by (auto simp: port_out_code_def Let_def loop_state_def intro!: does_rules split: plain_splits)

section \<open>Declarations and assignments\<close>

lemma plain_emit_expr [does_rules]:
  "plain (emit_expr_typed e)" "plain (emit_expr_typed_for e target)" "plain (emit_deref_load p sg target)"
  "plain (emit_args es pts)" "plain (emit_port p)"
proof (induction e and e target and p sg target and es pts and p
    rule: emit_expr_typed_emit_expr_typed_for_emit_deref_load_emit_args_emit_port.induct, goal_cases)
  case (9 ln f args)
  then show ?case
    unfolding emit_expr_typed.simps Let_def
    by (intro plain_if) (auto intro!: does_rules split: list.split)
next
  case (22 e target)
  then show ?case
    by (subst emit_expr_typed_for.simps) (cases e; auto simp del: emit_expr_typed.simps intro!: does_rules)
next
  case (23 p sg target)
  then show ?case by (subst emit_deref_load.simps) (auto intro!: does_rules)
next
  case (26 p)
  then show ?case by (subst emit_port.simps) (auto intro!: does_rules split: option.split)
qed (auto simp: Let_def intro!: does_rules split: option.split list.split)

lemma plain_update_symbol [does_rules]: "plain (update_symbol v f)"
  by (auto simp: update_symbol_def Let_def loop_state_def intro!: does_rules split: plain_splits)

lemma plain_emit_initializer [does_rules]: "plain (emit_initializer e target)"
  by (auto simp: emit_initializer_def Let_def loop_state_def intro!: does_rules split: plain_splits)

lemma plain_value_fits [does_rules]: "plain (value_fits d s)"
  by (auto simp: value_fits_def Let_def loop_state_def intro!: does_rules split: plain_splits)

lemma plain_init_code [does_rules]: "plain (init_code smb ty e)"
  by (auto simp: init_code_def Let_def loop_state_def intro!: does_rules split: plain_splits)

lemma plain_vardecl_code [does_rules]: "plain (vardecl_code ty nm pr pc ini kc)"
  by (auto simp: vardecl_code_def Let_def loop_state_def intro!: does_rules split: plain_splits)

lemma plain_store_global [does_rules]: "plain (store_global smb v)"
  by (auto simp: store_global_def Let_def loop_state_def intro!: does_rules split: plain_splits)

lemma plain_store_stack [does_rules]: "plain (store_stack smb v)"
  by (auto simp: store_stack_def Let_def loop_state_def intro!: does_rules split: plain_splits)

lemma plain_target_reg [does_rules]: "plain (target_reg t)"
  by (auto simp: target_reg_def Let_def loop_state_def intro!: does_rules split: plain_splits)

lemma plain_emit_assign_simple [does_rules]: "plain (emit_assign_simple t v)"
  by (auto simp: emit_assign_simple_def Let_def loop_state_def intro!: does_rules split: plain_splits)

lemma plain_assign_results [does_rules]: "plain (assign_results ts vs tys)"
  by (induction ts vs tys rule: assign_results.induct) (auto intro!: does_rules)

lemma plain_alloc_vregs [does_rules]: "plain (alloc_vregs n)"
  by (induction n) (auto intro!: does_rules)

lemma plain_emit_multi_call_assign [does_rules]: "plain (emit_multi_call_assign targets value0)"
  by (auto simp: emit_multi_call_assign_def Let_def loop_state_def intro!: does_rules split: plain_splits)

lemma plain_assign_literal [does_rules]: "plain (assign_literal t e)"
  by (auto simp: assign_literal_def Let_def loop_state_def intro!: does_rules split: plain_splits)

lemma plain_assign_target_type [does_rules]: "plain (assign_target_type t)"
  by (auto simp: assign_target_type_def Let_def loop_state_def intro!: does_rules split: plain_splits)

lemma plain_check_assign [does_rules]: "plain (check_assign d s)"
  by (auto simp: check_assign_def Let_def loop_state_def intro!: does_rules split: plain_splits)

lemma plain_store_index_code [does_rules]: "plain (store_index_code arr idx v)"
  by (auto simp: store_index_code_def Let_def loop_state_def intro!: does_rules split: plain_splits)

lemma plain_store_target [does_rules]: "plain (store_target t v)"
  by (auto simp: store_target_def Let_def loop_state_def intro!: does_rules split: plain_splits)

lemma plain_assign_code [does_rules]: "plain (assign_code ts e)"
  by (auto simp: assign_code_def Let_def loop_state_def intro!: does_rules split: plain_splits)

lemma plain_toggle_code [does_rules]: "plain (toggle_code t e)"
  by (auto simp: toggle_code_def Let_def loop_state_def intro!: does_rules split: plain_splits)

end
