(* ===== verification/Compile_Flow_Facts.thy ===== *)
theory Compile_Flow_Facts
  imports Compile_Plain
begin

text \<open>
  The labels of the emitted code. Every numbered label is defined once in the whole file, and every
  jump to a numbered label goes to a label of the same function: the labels that a statement
  allocates are defined by it, and a jump out of it goes to a label of an enclosing loop.
\<close>

section \<open>Statements without labels\<close>

lemma plain_emit_line [does_rules]: "plain (emit_line n)"
  by (auto simp: emit_line_def loop_state_def intro!: does_rules)

lemma plain_emit_cond [does_rules]: "plain (emit_cond e)"
  by (auto simp: emit_cond_def intro!: does_rules)

lemma plain_trap_code [does_rules]: "plain (trap_code e)"
  by (auto simp: trap_code_def intro!: does_rules)

lemma plain_return_values [does_rules]: "plain (return_values es rs)"
  by (induction es rs rule: return_values.induct) (auto intro!: does_rules split: plain_splits)

lemma plain_return_code [does_rules]: "plain (return_code es)"
  by (auto simp: return_code_def intro!: does_rules)

lemma plain_goto_code [does_rules]: "plain (goto_code nm)"
  by (auto simp: goto_code_def intro!: does_rules)

lemma plain_tailcall_code [does_rules]: "plain (tailcall_code e)"
  by (auto simp: tailcall_code_def intro!: does_rules split: plain_splits)

lemma plain_asm_code [does_rules]: "plain (asm_code body rs clob ann)"
  by (auto simp: asm_code_def intro!: does_rules)

lemma plain_const_code [does_rules]: "plain (const_code nm v ini)"
  by (auto simp: const_code_def intro!: does_rules split: plain_splits)

section \<open>Labels of a statement\<close>

definition loop_targets :: "compiler \<Rightarrow> int set" where
  "loop_targets s = (if loop_depth s = 0 then {} else {loop_break_label s, loop_continue_label s})"

definition flow_rel :: "compiler \<Rightarrow> compiler \<Rightarrow> bool" where
  "flow_rel s t \<longleftrightarrow>
     (\<exists>new. nir t = nir s @ new \<and> distinct (label_defs new) \<and>
        set (label_defs new) \<subseteq> {next_label s..<next_label t} \<and>
        set (label_uses new) \<subseteq> set (label_defs new) \<union> loop_targets s) \<and>
     next_label s \<le> next_label t \<and> loop_state t = loop_state s"

abbreviation flow :: "'a comp \<Rightarrow> bool" where
  "flow m \<equiv> does flow_rel m"

lemma loop_targets_cong: "loop_state t = loop_state s \<Longrightarrow> loop_targets t = loop_targets s"
  by (simp add: loop_targets_def loop_state_def)

lemma flow_relE:
  assumes "flow_rel s t"
  obtains new where "nir t = nir s @ new" "distinct (label_defs new)"
    "set (label_defs new) \<subseteq> {next_label s..<next_label t}"
    "set (label_uses new) \<subseteq> set (label_defs new) \<union> loop_targets s"
    "next_label s \<le> next_label t" "loop_state t = loop_state s"
  using assms unfolding flow_rel_def by blast

lemma flow_rel_trans:
  assumes "flow_rel s t" "flow_rel t u"
  shows "flow_rel s u"
proof -
  obtain a where a: "nir t = nir s @ a" "distinct (label_defs a)" "set (label_defs a) \<subseteq> {next_label s..<next_label t}"
    "set (label_uses a) \<subseteq> set (label_defs a) \<union> loop_targets s" "next_label s \<le> next_label t" "loop_state t = loop_state s"
    using assms(1) by (rule flow_relE)
  obtain b where b: "nir u = nir t @ b" "distinct (label_defs b)" "set (label_defs b) \<subseteq> {next_label t..<next_label u}"
    "set (label_uses b) \<subseteq> set (label_defs b) \<union> loop_targets t" "next_label t \<le> next_label u" "loop_state u = loop_state t"
    using assms(2) by (rule flow_relE)
  have "set (label_defs a) \<inter> set (label_defs b) = {}" using a(3) b(3) by fastforce
  moreover have "set (label_defs (a @ b)) \<subseteq> {next_label s..<next_label u}" using a b by fastforce
  ultimately show ?thesis
    unfolding flow_rel_def using a b loop_targets_cong [OF a(6)]
    by (intro conjI exI [of _ "a @ b"]) auto
qed

interpretation flow: effect flow_rel
  by unfold_locales (simp add: flow_rel_def, rule flow_rel_trans)

lemma plain_is_flow: "plain m \<Longrightarrow> flow m"
  unfolding does_def by (force simp: plain_rel_def flow_rel_def)

lemma flow_loop_exit: "flow (loop_exit loop_break_label)" "flow (loop_exit loop_continue_label)"
  by (rule doesI, force simp: loop_exit_def bnd_Inr ins_def emit_nir_def modify_def gets_def cerr_def flow_rel_def
      loop_targets_def loop_state_def split: if_splits)+

section \<open>Labels that are still to be defined\<close>

text \<open>
  \<open>labels b T D m\<close>: the program defines the labels \<open>D\<close>, which are allocated before it, and those
  it allocates, each once; its other jumps go to \<open>T\<close>. The labels of the enclosing loop are in \<open>T\<close>;
  with \<open>b\<close> they are so even while no loop is counted as entered.
\<close>

definition known_targets :: "bool \<Rightarrow> compiler \<Rightarrow> int set" where
  "known_targets b s = (if b then {loop_break_label s, loop_continue_label s} else loop_targets s)"

lemma known_targets_cong: "loop_state t = loop_state s \<Longrightarrow> known_targets b t = known_targets b s"
  by (simp add: known_targets_def loop_targets_def loop_state_def)

lemma loop_targets_known: "loop_targets s \<subseteq> known_targets b s"
  by (simp add: known_targets_def loop_targets_def)

definition labels :: "bool \<Rightarrow> int set \<Rightarrow> int set \<Rightarrow> 'a comp \<Rightarrow> bool" where
  "labels b T D m \<longleftrightarrow>
     (\<forall>s a t. m s = Inr (a, t) \<longrightarrow>
        known_targets b s \<subseteq> T \<longrightarrow>
        D \<subseteq> {..<next_label s} \<longrightarrow>
        (\<exists>new F. nir t = nir s @ new \<and> distinct (label_defs new) \<and> set (label_defs new) = D \<union> F \<and>
           F \<subseteq> {next_label s..<next_label t} \<and> set (label_uses new) \<subseteq> set (label_defs new) \<union> T) \<and>
        next_label s \<le> next_label t \<and> loop_state t = loop_state s)"

named_theorems labels_rules

lemma labelsE:
  assumes "labels b T D m" "m s = Inr (a, t)" "known_targets b s \<subseteq> T"
    "D \<subseteq> {..<next_label s}"
  obtains new F where "nir t = nir s @ new" "distinct (label_defs new)" "set (label_defs new) = D \<union> F"
    "F \<subseteq> {next_label s..<next_label t}" "set (label_uses new) \<subseteq> set (label_defs new) \<union> T"
    "next_label s \<le> next_label t" "loop_state t = loop_state s"
  using assms(1) [unfolded labels_def, rule_format, OF assms(2-4)] that by blast

lemma labels_flow: "flow m \<Longrightarrow> labels b T {} m"
  unfolding labels_def
proof (intro allI impI)
  fix s :: compiler and a t
  assume m: "flow m" "m s = Inr (a, t)" and T: "known_targets b s \<subseteq> T"
  obtain new where "nir t = nir s @ new" "distinct (label_defs new)" "set (label_defs new) \<subseteq> {next_label s..<next_label t}"
    "set (label_uses new) \<subseteq> set (label_defs new) \<union> loop_targets s" "next_label s \<le> next_label t" "loop_state t = loop_state s"
    using doesD [OF m] by (rule flow_relE)
  moreover have "loop_targets s \<subseteq> T" using loop_targets_known T by blast
  ultimately show "(\<exists>new F. nir t = nir s @ new \<and> distinct (label_defs new) \<and> set (label_defs new) = {} \<union> F \<and>
      F \<subseteq> {next_label s..<next_label t} \<and> set (label_uses new) \<subseteq> set (label_defs new) \<union> T) \<and>
      next_label s \<le> next_label t \<and> loop_state t = loop_state s"
    by (intro conjI exI [of _ new] exI [of _ "set (label_defs new)"]) auto
qed

lemma labels_plain [labels_rules]: "plain m \<Longrightarrow> labels b T {} m"
  by (rule labels_flow [OF plain_is_flow])

lemma labels_ins [labels_rules]: "set (opnd_labels xs) \<subseteq> T \<Longrightarrow> labels b T {} (ins n xs)"
  by (auto simp: labels_def ins_def emit_nir_def modify_def loop_state_def)

lemma labels_define [labels_rules]: "labels b T {l} (emit_nir (NLabel l))"
  by (auto simp: labels_def emit_nir_def modify_def loop_state_def)

lemma labels_bnd [labels_rules]:
  assumes "labels b T D1 m" "\<And>a. labels b T D2 (k a)" "D1 \<inter> D2 = {}" "D = D1 \<union> D2"
  shows "labels b T D (bnd m k)"
  unfolding labels_def
proof (intro allI impI)
  fix s :: compiler and c u
  assume run: "bnd m k s = Inr (c, u)" and T: "known_targets b s \<subseteq> T"
    and D: "D \<subseteq> {..<next_label s}"
  obtain a t where m: "m s = Inr (a, t)" and k: "k a t = Inr (c, u)" using run by (auto simp: bnd_Inr)
  obtain n1 F1 where n1: "nir t = nir s @ n1" "distinct (label_defs n1)" "set (label_defs n1) = D1 \<union> F1"
    "F1 \<subseteq> {next_label s..<next_label t}" "set (label_uses n1) \<subseteq> set (label_defs n1) \<union> T"
    "next_label s \<le> next_label t" "loop_state t = loop_state s"
    by (rule labelsE [OF assms(1) m T]) (use D assms(4) in auto)
  have T': "known_targets b t \<subseteq> T"
    using T known_targets_cong [OF n1(7), of b] by simp
  obtain n2 F2 where n2: "nir u = nir t @ n2" "distinct (label_defs n2)" "set (label_defs n2) = D2 \<union> F2"
    "F2 \<subseteq> {next_label t..<next_label u}" "set (label_uses n2) \<subseteq> set (label_defs n2) \<union> T"
    "next_label t \<le> next_label u" "loop_state u = loop_state t"
    by (rule labelsE [OF assms(2) k T']) (use D assms(4) n1(6) in \<open>auto simp: subset_iff intro: order_less_le_trans\<close>)
  have apart: "set (label_defs n1) \<inter> set (label_defs n2) = {}"
    using n1(3,4) n2(3,4) n1(6) assms(3,4) D by fastforce
  have "F1 \<union> F2 \<subseteq> {next_label s..<next_label u}" using n1(4,6) n2(4,6) by fastforce
  moreover have "set (label_defs (n1 @ n2)) = D \<union> (F1 \<union> F2)" using n1(3) n2(3) assms(4) by auto
  moreover have "distinct (label_defs (n1 @ n2))" using n1(2) n2(2) apart by simp
  moreover have "set (label_uses (n1 @ n2)) \<subseteq> set (label_defs (n1 @ n2)) \<union> T" using n1(5) n2(5) by auto
  moreover have "nir u = nir s @ (n1 @ n2)" using n1(1) n2(1) by simp
  moreover have "next_label s \<le> next_label u" "loop_state u = loop_state s" using n1(6,7) n2(6,7) by auto
  ultimately show "(\<exists>new F. nir u = nir s @ new \<and> distinct (label_defs new) \<and> set (label_defs new) = D \<union> F \<and>
      F \<subseteq> {next_label s..<next_label u} \<and> set (label_uses new) \<subseteq> set (label_defs new) \<union> T) \<and>
      next_label s \<le> next_label u \<and> loop_state u = loop_state s" by blast
qed

lemma labels_andthen [labels_rules]:
  "labels b T D1 m \<Longrightarrow> labels b T D2 n \<Longrightarrow> D1 \<inter> D2 = {} \<Longrightarrow> D = D1 \<union> D2 \<Longrightarrow> labels b T D (andthen m n)"
  unfolding andthen_def by (rule labels_bnd)

lemma labels_block_cons [labels_rules]:
  "labels b T D1 m \<Longrightarrow> labels b T D2 (block ms) \<Longrightarrow> D1 \<inter> D2 = {} \<Longrightarrow> D = D1 \<union> D2 \<Longrightarrow> labels b T D (block (m # ms))"
  by (simp add: labels_andthen)

lemma labels_block_nil [labels_rules]: "labels b T {} (block [])"
  by (simp add: labels_plain plain.does_ret)

text \<open>A label that is allocated is used and defined by the program that follows, or neither.\<close>

lemma labels_alloc_both:
  assumes "\<And>l. l \<notin> D \<Longrightarrow> labels b (T' l) (D' l) (k l)" "\<And>l. D \<subseteq> D' l \<and> D' l \<subseteq> insert l D"
    "\<And>l. T \<subseteq> T' l \<and> T' l \<subseteq> D' l \<union> T"
  shows "labels b T D (bnd alloc_label k)"
  unfolding labels_def
proof (intro allI impI)
  fix s :: compiler and c u
  assume run: "bnd alloc_label k s = Inr (c, u)" and T: "known_targets b s \<subseteq> T" and D: "D \<subseteq> {..<next_label s}"
  define l where "l = next_label s"
  define t where "t = s\<lparr>next_label := l + 1\<rparr>"
  have k: "k l t = Inr (c, u)"
    using run by (simp add: t_def l_def alloc_label_def bnd_Inr andthen_Inr gets_def modify_def ret_def)
  have fresh: "l \<notin> D" using D by (auto simp: l_def)
  obtain new F where new: "nir u = nir t @ new" "distinct (label_defs new)" "set (label_defs new) = D' l \<union> F"
    "F \<subseteq> {next_label t..<next_label u}" "set (label_uses new) \<subseteq> set (label_defs new) \<union> T' l"
    "next_label t \<le> next_label u" "loop_state u = loop_state t"
  proof (rule labelsE [OF assms(1) [OF fresh] k])
    have "loop_state t = loop_state s" by (simp add: t_def loop_state_def)
    then show "known_targets b t \<subseteq> T' l" using T known_targets_cong [of t s b] assms(3) [of l] by blast
    show "D' l \<subseteq> {..<next_label t}" using D assms(2) [of l] by (fastforce simp: t_def l_def)
  qed
  have "set (label_defs new) = D \<union> ((D' l - D) \<union> F)" using new(3) assms(2) [of l] by auto
  moreover have "(D' l - D) \<union> F \<subseteq> {next_label s..<next_label u}"
    using new(4,6) assms(2) [of l] by (auto simp: t_def l_def)
  moreover have "set (label_uses new) \<subseteq> set (label_defs new) \<union> T" using new(3,5) assms(3) [of l] by auto
  moreover have "nir u = nir s @ new" "next_label s \<le> next_label u" "loop_state u = loop_state s"
    using new(1,6,7) by (auto simp: t_def l_def loop_state_def)
  ultimately show "(\<exists>new F. nir u = nir s @ new \<and> distinct (label_defs new) \<and> set (label_defs new) = D \<union> F \<and>
      F \<subseteq> {next_label s..<next_label u} \<and> set (label_uses new) \<subseteq> set (label_defs new) \<union> T) \<and>
      next_label s \<le> next_label u \<and> loop_state u = loop_state s" using new(2) by blast
qed

lemma labels_alloc: "(\<And>l. l \<notin> D \<Longrightarrow> labels b (insert l T) (insert l D) (k l)) \<Longrightarrow> labels b T D (bnd alloc_label k)"
  by (rule labels_alloc_both [of D b "\<lambda>l. insert l T" "\<lambda>l. insert l D"]) auto

lemma labels_alloc_unused: "(\<And>l. l \<notin> D \<Longrightarrow> labels b T D (k l)) \<Longrightarrow> labels b T D (bnd alloc_label k)"
  by (rule labels_alloc_both [of D b "\<lambda>_. T" "\<lambda>_. D"]) auto

lemma labels_is_flow: "(\<And>T. labels False T {} m) \<Longrightarrow> flow m"
proof (rule doesI)
  fix s :: compiler and a t
  assume all: "\<And>T. labels False T {} m" and run: "m s = Inr (a, t)"
  have m: "labels False (loop_targets s) {} m" by (rule all)
  obtain new F where "nir t = nir s @ new" "distinct (label_defs new)" "set (label_defs new) = {} \<union> F"
    "F \<subseteq> {next_label s..<next_label t}" "set (label_uses new) \<subseteq> set (label_defs new) \<union> loop_targets s"
    "next_label s \<le> next_label t" "loop_state t = loop_state s"
    by (rule labelsE [OF m run]) (simp_all add: known_targets_def)
  then show "flow_rel s t" unfolding flow_rel_def by blast
qed

lemma labels_ret [simp]: "labels b T {} (ret a)"
  by (simp add: labels_plain plain.does_ret)

section \<open>Control flow\<close>

lemma labels_loop_body:
  assumes "labels False T D m"
  shows "labels True T D (loop_body m)"
  unfolding labels_def
proof (intro allI impI)
  fix s :: compiler and a u
  assume run: "loop_body m s = Inr (a, u)" and T: "known_targets True s \<subseteq> T" and D: "D \<subseteq> {..<next_label s}"
  define s1 where "s1 = s\<lparr>loop_depth := loop_depth s + 1, scope := [] # scope s\<rparr>"
  obtain t where m: "m s1 = Inr ((), t)" and u: "u = t\<lparr>scope := tl (scope t), loop_depth := loop_depth t - 1\<rparr>"
    using run by (auto simp: loop_body_def s1_def bnd_Inr andthen_Inr push_scope_def pop_scope_def modify_def ret_def)
  have "known_targets False s1 \<subseteq> T" using T by (auto simp: s1_def known_targets_def loop_targets_def)
  then obtain new F where "nir t = nir s1 @ new" "distinct (label_defs new)" "set (label_defs new) = D \<union> F"
    "F \<subseteq> {next_label s1..<next_label t}" "set (label_uses new) \<subseteq> set (label_defs new) \<union> T"
    "next_label s1 \<le> next_label t" "loop_state t = loop_state s1"
    by (rule labelsE [OF assms m]) (use D in \<open>auto simp: s1_def\<close>)
  then show "(\<exists>new F. nir u = nir s @ new \<and> distinct (label_defs new) \<and> set (label_defs new) = D \<union> F \<and>
      F \<subseteq> {next_label s..<next_label u} \<and> set (label_uses new) \<subseteq> set (label_defs new) \<union> T) \<and>
      next_label s \<le> next_label u \<and> loop_state u = loop_state s"
    by (intro conjI exI [of _ new] exI [of _ F]) (auto simp: u s1_def loop_state_def)
qed

lemma labels_in_loop:
  assumes "labels True T D m" "top_l \<in> T" "end_l \<in> T"
  shows "labels b T D (in_loop top_l end_l m)"
  unfolding labels_def
proof (intro allI impI)
  fix s :: compiler and a u
  assume run: "in_loop top_l end_l m s = Inr (a, u)" and D: "D \<subseteq> {..<next_label s}"
  define s1 where "s1 = s\<lparr>loop_break_label := end_l, loop_continue_label := top_l\<rparr>"
  obtain t where m: "m s1 = Inr ((), t)"
    and u: "u = t\<lparr>loop_break_label := loop_break_label s, loop_continue_label := loop_continue_label s\<rparr>"
    using run by (auto simp: in_loop_def s1_def bnd_Inr andthen_Inr gets_def modify_def ret_def)
  have "known_targets True s1 \<subseteq> T" using assms(2,3) by (auto simp: s1_def known_targets_def)
  then obtain new F where "nir t = nir s1 @ new" "distinct (label_defs new)" "set (label_defs new) = D \<union> F"
    "F \<subseteq> {next_label s1..<next_label t}" "set (label_uses new) \<subseteq> set (label_defs new) \<union> T"
    "next_label s1 \<le> next_label t" "loop_state t = loop_state s1"
    by (rule labelsE [OF assms(1) m]) (use D in \<open>auto simp: s1_def\<close>)
  then show "(\<exists>new F. nir u = nir s @ new \<and> distinct (label_defs new) \<and> set (label_defs new) = D \<union> F \<and>
      F \<subseteq> {next_label s..<next_label u} \<and> set (label_uses new) \<subseteq> set (label_defs new) \<union> T) \<and>
      next_label s \<le> next_label u \<and> loop_state u = loop_state s"
    by (intro conjI exI [of _ new] exI [of _ F]) (auto simp: u s1_def loop_state_def)
qed

lemmas labels_split = labels_bnd labels_andthen labels_block_cons labels_block_nil

lemma labels_add_symbol: "flow body \<Longrightarrow> labels b T {} (andthen (add_symbol smb) body)"
  by (rule labels_flow, rule flow.does_andthen, rule plain_is_flow, rule plain_add_symbol)

lemma flow_while_code:
  assumes "flow body"
  shows "flow (while_code cond body)"
  unfolding while_code_def
  by (rule labels_is_flow, (rule labels_alloc)+, rule labels_in_loop, (intro labels_split)[1],
      rule labels_define, rule labels_plain [OF plain_emit_cond], rule labels_ins, simp,
      rule labels_loop_body [OF labels_flow [OF assms]], rule labels_ins, simp, rule labels_define) auto

lemma flow_for_code:
  assumes "flow body"
  shows "flow (for_code start end_e body)"
  unfolding for_code_def
proof (rule flow.does_bnd [OF plain_is_flow [OF plain_require_const_expr]],
    rule flow.does_andthen [OF plain_is_flow [OF plain_cerr_if]])
  have count: "plain (case lit_int start of None \<Rightarrow> bnd (emit_expr_typed start) (\<lambda>v. ins ''mov'' [Vr cx, Vr (tv_vreg v)])
      | Some n \<Rightarrow> ins ''mov'' [Vr cx, Im n])" for cx
    by (auto intro!: does_rules split: option.split)
  have pref: "plain (emit_nir (NPrefer cx ''CX''))" for cx by (intro does_rules) simp
  show "flow (bnd alloc_label (\<lambda>top_l. bnd alloc_label (\<lambda>end_l. in_loop top_l end_l (bnd alloc_vreg (\<lambda>cx.
      block [emit_nir (NPrefer cx ''CX''),
        case lit_int start of None \<Rightarrow> bnd (emit_expr_typed start) (\<lambda>v. ins ''mov'' [Vr cx, Vr (tv_vreg v)])
          | Some n \<Rightarrow> ins ''mov'' [Vr cx, Im n],
        emit_nir (NLabel top_l),
        loop_body (andthen (add_symbol (new_symbol ''CX'' (Some TYPE_U16) cx\<lparr>is_pinned := True, sy_pinned_reg := 1\<rparr>)) body),
        ins ''loop'' [Lb top_l, Vr cx], emit_nir (NLabel end_l)])))))"
    by (rule labels_is_flow, (rule labels_alloc)+, rule labels_in_loop, rule labels_bnd [OF labels_plain [OF plain_alloc_vreg]],
        (intro labels_block_cons labels_block_nil)[1],
        rule labels_plain [OF pref], rule labels_plain [OF count], rule labels_define,
        rule labels_loop_body [OF labels_add_symbol [OF assms]], rule labels_ins, simp, rule labels_define) auto
qed

text \<open>Without an \<^verbatim>\<open>else\<close> part the second label is allocated and not used.\<close>

lemma flow_if_code:
  assumes "flow th" "\<And>m. el = Some m \<Longrightarrow> flow m"
  shows "flow (if_code cond th el)"
proof -
  note leaf = labels_plain [OF plain_push_scope] labels_plain [OF plain_pop_scope] labels_flow [OF assms(1)]
  show ?thesis
  proof (cases el)
    case None
    show ?thesis
      unfolding if_code_def None option.case append.simps
      by (rule flow.does_bnd [OF plain_is_flow [OF plain_emit_cond]], rule labels_is_flow, rule labels_alloc,
          rule labels_alloc_unused, (intro labels_block_cons labels_block_nil)[1], rule labels_ins, simp, rule leaf,
          rule leaf, rule leaf, rule labels_define) auto
  next
    case (Some m)
    show ?thesis
      unfolding if_code_def Some option.case append.simps
      by (rule flow.does_bnd [OF plain_is_flow [OF plain_emit_cond]], rule labels_is_flow, (rule labels_alloc)+,
          (intro labels_block_cons labels_block_nil)[1], rule labels_ins, simp, rule leaf, rule leaf, rule leaf,
          rule labels_ins, simp, rule labels_define, rule leaf, rule labels_flow [OF assms(2) [OF Some]], rule leaf,
          rule labels_define) auto
  qed
qed

text \<open>A flag check jumps over its body to the label behind it. The second number that the exclusive
  or counts is not a label; \<open>skip + 1\<close> is the first.\<close>

lemma labels_flag_jump: "l \<in> T \<Longrightarrow> labels b T {} (flag_jump j e l)"
  by (cases e) (auto simp: flag_jump_def intro: labels_ins)

lemma labels_flag_cond:
  assumes "skip \<in> T" "\<And>x y. c \<noteq> FEXPR_XOR x y"
  shows "labels b T {} (flag_cond_code c skip)"
proof (cases c)
  case (FEXPR_OR x y)
  show ?thesis
    unfolding flag_cond_code_def FEXPR_OR flag_expr.case
    by (rule labels_alloc, (intro labels_block_cons labels_block_nil)[1], rule labels_flag_jump, simp,
        rule labels_flag_jump, simp, rule labels_ins, use assms(1) in simp, rule labels_define) auto
next
  case (FEXPR_AND x y)
  show ?thesis
    unfolding flag_cond_code_def FEXPR_AND flag_expr.case
    by ((intro labels_block_cons labels_block_nil)[1], rule labels_flag_jump, rule assms, rule labels_flag_jump, rule assms) auto
qed (use assms in \<open>auto simp: flag_cond_code_def intro: labels_flag_jump\<close>)

lemma alloc_twice_cong:
  assumes "\<And>l. k l (l + 1) = k' l (l + 1)"
  shows "bnd alloc_label (\<lambda>l. bnd alloc_label (k l)) = bnd alloc_label (\<lambda>l. bnd alloc_label (k' l))"
  using assms by (simp add: alloc_label_def bnd_def andthen_def gets_def modify_def ret_def fun_eq_iff)

definition check_body :: "flag_expr \<Rightarrow> unit comp \<Rightarrow> bool \<Rightarrow> unit comp" where
  "check_body c body trap = (if trap then trap_code c else block [push_scope, body, pop_scope])"

lemma labels_check_body: "(\<not> trap \<Longrightarrow> flow body) \<Longrightarrow> labels b T {} (check_body c body trap)"
  unfolding check_body_def
  by (rule labels_flow)
     (auto intro!: flow.does_andthen plain_is_flow [OF plain_trap_code] plain_is_flow [OF plain_push_scope]
        plain_is_flow [OF plain_pop_scope])

lemma flow_flag_check:
  assumes "\<not> trap \<Longrightarrow> flow (emit_stmt_list body)"
  shows "flow (emit_flag_check (FLAG_CASE c body trap))"
proof -
  have code: "emit_flag_check (FLAG_CASE c body trap) =
      bnd alloc_label (\<lambda>skip. block [flag_cond_code c skip, check_body c (emit_stmt_list body) trap, emit_nir (NLabel skip)])"
    by (simp add: check_body_def)
  show ?thesis
  proof (cases "\<exists>x y. c = FEXPR_XOR x y")
    case False
    then have ne: "c \<noteq> FEXPR_XOR x y" for x y by blast
    show ?thesis
      unfolding code
      by (rule labels_is_flow, rule labels_alloc, (intro labels_block_cons labels_block_nil)[1],
          rule labels_flag_cond [OF _ ne], simp, rule labels_check_body [OF assms], assumption, rule labels_define) auto
  next
    case True
    then obtain x y where c: "c = FEXPR_XOR x y" by blast
    define rest where "rest = (\<lambda>skip. andthen (check_body c (emit_stmt_list body) trap) (emit_nir (NLabel skip)))"
    define part where "part = (\<lambda>skip a_set l. andthen (block [flag_jump flag_id_to_jcc x a_set, flag_jump flag_id_to_jncc y skip,
      ins ''jmp'' [Lb l], emit_nir (NLabel a_set), flag_jump flag_id_to_jcc y skip, bnd alloc_label (\<lambda>_. ret ())]) (rest skip))"
    have "emit_flag_check (FLAG_CASE c body trap) = bnd alloc_label (\<lambda>skip. bnd alloc_label (\<lambda>a_set. part skip a_set (skip + 1)))"
      by (simp add: c flag_cond_code_def check_body_def part_def rest_def andthen_def bnd_assoc)
    also have "\<dots> = bnd alloc_label (\<lambda>skip. bnd alloc_label (\<lambda>a_set. part skip a_set a_set))"
      by (rule alloc_twice_cong) simp
    finally have eq: "emit_flag_check (FLAG_CASE c body trap) = \<dots>" .
    have last: "labels b T {} (bnd alloc_label (\<lambda>_. ret ()))" for b T
      by (rule labels_alloc_unused) simp
    have head: "labels b T {a_set} (block [flag_jump flag_id_to_jcc x a_set, flag_jump flag_id_to_jncc y skip,
        ins ''jmp'' [Lb a_set], emit_nir (NLabel a_set), flag_jump flag_id_to_jcc y skip, bnd alloc_label (\<lambda>_. ret ())])"
      if "a_set \<in> T" "skip \<in> T" for b T a_set skip
      by ((intro labels_block_cons labels_block_nil)[1], rule labels_flag_jump, rule that, rule labels_flag_jump, rule that,
          rule labels_ins, use that in simp, rule labels_define, rule labels_flag_jump, rule that, rule last) auto
    have tail: "labels b T {skip} (rest skip)" for b T skip
      unfolding rest_def by (rule labels_andthen, rule labels_check_body [OF assms], assumption, rule labels_define) auto
    show ?thesis
      unfolding eq part_def
      by (rule labels_is_flow, (rule labels_alloc)+, rule labels_andthen [OF head tail]) auto
  qed
qed

lemma flow_line: "flow m \<Longrightarrow> flow (andthen (emit_line ln) m)"
  by (rule flow.does_andthen [OF plain_is_flow [OF plain_emit_line]])

lemma flow_checks: "flow m \<Longrightarrow> flow (bnd (assign_code ts e) (\<lambda>checks. if checks then m else ret ()))"
  by (rule flow.does_bnd [OF plain_is_flow [OF plain_assign_code]]) (simp add: flow.does_ret)

lemma flow_simple_stmts:
  "flow (vardecl_code ty nm pr pc ini kc)" "flow (bnd (emit_expr_typed e) (\<lambda>_. ret ()))" "flow (return_code es)"
  "flow (goto_code nm')" "flow (tailcall_code e)" "flow (emit_nir (NName nm'))" "flow (asm_code bd rs clob ann)"
  "flow (const_code nm' v ini)"
  by (rule plain_is_flow, auto intro!: does_rules)+

lemma flow_toggle: "flow m \<Longrightarrow> flow (andthen (toggle_code t e) m)"
  by (rule flow.does_andthen [OF plain_is_flow [OF plain_toggle_code]])

lemma flow_if_stmt:
  "flow th \<Longrightarrow> (el \<noteq> [] \<Longrightarrow> flow m) \<Longrightarrow> flow (if_code c th (if el = [] then None else Some m))"
  by (rule flow_if_code) (auto split: if_splits)

lemma flow_stmts:
  "flow (emit_stmt st)" "flow (emit_stmt_list ss)" "flow (emit_flag_check fc)" "flow (emit_flag_checks fcs)"
  by (induction st and ss and fc and fcs rule: emit_stmt_emit_stmt_list_emit_flag_check_emit_flag_checks.induct)
     (simp_all del: emit_flag_check.simps add: flow_line flow_checks flow_toggle flow_simple_stmts flow_flag_check flow_while_code
        flow_for_code flow_if_stmt flow_loop_exit flow.does_ret flow.does_andthen)

end
