(* ===== verification/Compile_Label_Facts.thy ===== *)
theory Compile_Label_Facts
  imports Compile_Flow_Facts
begin

text \<open>
  The labels of a whole file. Declarations write no numbered label outside of function bodies; the
  counter of labels is not reset between functions, so that the labels of the file are distinct.
\<close>

section \<open>Declarations\<close>

lemma plain_resolve_pair [does_rules]: "plain (resolve_pair es d)"
  by (auto simp: resolve_pair_def intro!: does_rules split: plain_splits)

lemma plain_resolve_fn_modifier_constants [does_rules]: "plain (resolve_fn_modifier_constants m)"
  by (auto simp: resolve_fn_modifier_constants_def intro!: does_rules split: plain_splits ds_policy_t.split)

lemma plain_resolve_params [does_rules]: "plain (resolve_params ps)"
  by (induction ps) (auto intro!: does_rules)

lemma plain_resolve_returns [does_rules]: "plain (resolve_returns rs)"
  by (induction rs) (auto intro!: does_rules)

lemma plain_resolve_fields [does_rules]: "plain (resolve_fields fs)"
  by (induction fs) (auto intro!: does_rules split: option.split)

lemma plain_emit_nif [does_rules]: "plain (emit_nif s)"
  by (auto simp: emit_nif_def loop_state_def intro!: does_rules)

lemma plain_emit_text [does_rules]: "plain (emit_text s)"
  by (auto simp: emit_text_def intro!: does_rules)

lemma plain_emit_both [does_rules]: "plain (emit_both pub s)"
  by (auto simp: emit_both_def intro!: does_rules)

lemma plain_emit_preserves [does_rules]: "(\<And>s. plain (out s)) \<Longrightarrow> plain (emit_preserves out m rets)"
  by (auto simp: emit_preserves_def intro!: does_rules)

lemma plain_validate_clobbers [does_rules]: "plain (validate_clobbers m)"
  by (auto simp: validate_clobbers_def intro!: does_rules)

lemma plain_validate_ds_policy [does_rules]: "plain (validate_ds_policy m)"
  by (auto simp: validate_ds_policy_def intro!: does_rules split: ds_policy_t.split)

lemma plain_emit_extern_descriptor [does_rules]:
  "(\<And>s. plain (out s)) \<Longrightarrow> plain (emit_extern_descriptor out nm m params rets addr in_nir)"
  by (auto simp: emit_extern_descriptor_def intro!: does_rules)

lemma plain_update_last [does_rules]: "plain (update_last f)"
  by (auto simp: update_last_def loop_state_def intro!: does_rules)

lemma plain_param_code [does_rules]: "plain (param_code pub p)"
  by (auto simp: param_code_def Let_def intro!: does_rules)

lemma plain_validate_fn [does_rules]: "plain (validate_fn d m)"
  by (auto simp: validate_fn_def intro!: does_rules)

lemma plain_register_fn [does_rules]: "plain (register_fn d m params rets)"
  by (auto simp: register_fn_def loop_state_def intro!: does_rules)

lemma plain_fn_header [does_rules]: "plain (fn_header d m rets)"
  by (auto simp: fn_header_def intro!: does_rules)

lemma plain_compile_struct [does_rules]: "plain (compile_struct pub nm aligned fs)"
  by (auto simp: compile_struct_def loop_state_def intro!: does_rules)

section \<open>Globals and interface files\<close>

lemma plain_fn_ref [does_rules]: "plain (fn_ref k e)"
  by (auto simp: fn_ref_def intro!: does_rules split: expr_t.split)

lemma plain_data_element [does_rules]: "plain (data_element el sz e)"
  by (auto simp: data_element_def intro!: does_rules split: expr_t.split option.split)

lemma plain_data_header [does_rules]: "plain (data_header nm ty h sg off)"
  by (auto simp: data_header_def intro!: does_rules)

lemma plain_array_data [does_rules]: "plain (array_data nm ty h sg off es)"
  by (auto simp: array_data_def intro!: does_rules split: option.split)

lemma plain_string_data [does_rules]: "plain (string_data nm ty h sg off str)"
  by (auto simp: string_data_def intro!: does_rules)

lemma plain_compile_global [does_rules]: "plain (compile_global d)"
  by (auto simp: compile_global_def Let_def intro!: does_rules split: option.split expr_t.split)

lemma plain_import_struct [does_rules]: "plain (import_struct p body)"
  by (auto simp: import_struct_def Let_def loop_state_def intro!: does_rules split: prod.split)

lemma length_rest: "length (drop (Suc 0) (dropWhile P ls)) \<le> length ls"
  using length_dropWhile_le [of P ls] by simp

lemma plain_import_lines [does_rules]: "plain (import_lines F ls)"
proof (induction ls arbitrary: F rule: length_induct)
  case (1 ls)
  show ?case
  proof (cases ls)
    case (Cons l ls')
    have IH: "length ks \<le> length ls' \<Longrightarrow> plain (import_lines G ks)" for G ks
      using "1.IH" by (simp add: Cons le_imp_less_Suc)
    show ?thesis
      unfolding Cons import_lines.simps Let_def One_nat_def
      by (intro plain_if plain_prod plain.does_andthen plain.does_bnd IH length_rest order_refl)
         (auto intro!: does_rules)
  qed (simp add: plain.does_ret)
qed

lemma plain_import_nif [does_rules]: "plain (import_nif files dir path)"
  by (auto simp: import_nif_def Let_def intro!: does_rules split: option.split)

section \<open>Functions and programs\<close>

definition file_rel :: "compiler \<Rightarrow> compiler \<Rightarrow> bool" where
  "file_rel s t \<longleftrightarrow>
     (loop_depth s = 0 \<longrightarrow>
        (\<exists>new. nir t = nir s @ new \<and> distinct (label_defs new) \<and> set (label_defs new) \<subseteq> {next_label s..<next_label t} \<and>
           set (label_uses new) \<subseteq> set (label_defs new)) \<and>
        next_label s \<le> next_label t \<and> loop_depth t = 0)"

lemma file_rel_trans:
  assumes "file_rel s t" "file_rel t u"
  shows "file_rel s u"
  unfolding file_rel_def
proof
  assume "loop_depth s = 0"
  then obtain a where a: "nir t = nir s @ a" "distinct (label_defs a)" "set (label_defs a) \<subseteq> {next_label s..<next_label t}"
    "set (label_uses a) \<subseteq> set (label_defs a)" "next_label s \<le> next_label t" "loop_depth t = 0"
    using assms(1) unfolding file_rel_def by blast
  then obtain b where b: "nir u = nir t @ b" "distinct (label_defs b)" "set (label_defs b) \<subseteq> {next_label t..<next_label u}"
    "set (label_uses b) \<subseteq> set (label_defs b)" "next_label t \<le> next_label u" "loop_depth u = 0"
    using assms(2) unfolding file_rel_def by blast
  have "set (label_defs a) \<inter> set (label_defs b) = {}" using a(3) b(3) by fastforce
  moreover have "set (label_defs (a @ b)) \<subseteq> {next_label s..<next_label u}" using a b by fastforce
  ultimately show "(\<exists>new. nir u = nir s @ new \<and> distinct (label_defs new) \<and>
      set (label_defs new) \<subseteq> {next_label s..<next_label u} \<and> set (label_uses new) \<subseteq> set (label_defs new)) \<and>
      next_label s \<le> next_label u \<and> loop_depth u = 0"
    using a b by (intro conjI exI [of _ "a @ b"]) auto
qed

interpretation whole: effect file_rel
  by unfold_locales (simp add: file_rel_def, rule file_rel_trans)

lemma flow_in_file: "flow m \<Longrightarrow> does file_rel m"
proof (rule doesI)
  fix s a t
  assume "flow m" "m s = Inr (a, t)"
  then have "flow_rel s t" by (rule doesD)
  then show "file_rel s t" unfolding flow_rel_def file_rel_def by (auto simp: loop_targets_def loop_state_def)
qed

lemma plain_in_file: "plain m \<Longrightarrow> does file_rel m"
  by (rule flow_in_file [OF plain_is_flow])

lemma file_compile_fn: "does file_rel (compile_fn d)"
proof -
  have start: "does file_rel (modify (\<lambda>C. C\<lparr>next_vreg := 0, loop_depth := 0, last_emitted_line := 0, addr_taken := []\<rparr>))"
    by (rule does_modify) (simp add: file_rel_def)
  have body: "flow (bnd (gets constants) (\<lambda>cs. emit_stmt_list (map (resolve_constants_stmt cs) (fd_body d))))"
    by (intro flow.does_bnd flow.does_gets flow_stmts)
  show ?thesis
    unfolding compile_fn_def
    by (intro whole.does_andthen whole.does_bnd whole.does_block_cons whole.does_block_nil start flow_in_file [OF body])
       (auto intro!: plain_in_file does_rules simp: loop_state_def)
qed

lemma file_compile_decl: "does file_rel (compile_decl files dir d)"
proof (cases d)
  case (DECL_EXTERN_FN x)
  show ?thesis
    unfolding compile_decl_def compile_extern_fn_def DECL_EXTERN_FN decl_t.case Let_def
    by (intro whole.does_bnd whole.does_block_cons whole.does_block_nil)
       (auto intro!: plain_in_file does_rules file_compile_fn split: option.split)
qed (auto simp: compile_decl_def file_compile_fn intro!: plain_in_file does_rules split: option.split)

text \<open>(C14) In the file of a program that is compiled, no numbered label is defined twice, and every
  jump to a numbered label has its target.\<close>

theorem labels_well_formed:
  assumes "compile_program files dir file prog = Inr (rc, C)"
  shows "distinct (label_defs (nir C)) \<and> set (label_uses (nir C)) \<subseteq> set (label_defs (nir C))"
proof -
  have "does file_rel (bnd (block [push_scope, for_each prog (compile_decl files (take 255 dir)), pop_scope])
      (\<lambda>_. gets (\<lambda>C. if cerrors C > 0 then 1 else 0)))"
    by (intro whole.does_bnd whole.does_block_cons whole.does_block_nil whole.does_for_each whole.does_gets file_compile_decl)
       (auto intro!: plain_in_file does_rules)
  then have "file_rel (init_compiler file) C"
    using assms unfolding compile_program_def by (rule doesD)
  then show ?thesis
    by (auto simp: file_rel_def init_compiler_def)
qed

definition no_mods :: fn_modifiers where
  "no_mods = \<lparr>is_far = False, is_interrupt = False, is_bare = False, is_api = False, has_preserves = False,
     is_clobbers = False, preserves = [], fm_has_at = False, fm_at_seg = 0, fm_at_off = 0, at_exprs = None, ds_policy = DS_UNSPEC\<rparr>"

text \<open>A function with a loop that is left when the carry flag is set.\<close>

definition loop_prog :: "decl_t list" where
  "loop_prog =
     [DECL_FN \<lparr>fd_line = 1, fd_pub = False, fd_name = ''f'', fd_mods = no_mods, fd_params = [], fd_returns = [],
        fd_body = [STMT_WHILE 2 (EXPR_FLAG 2 3) [STMT_IF 3 (EXPR_FLAG 3 0) [STMT_BREAK 4] []]]\<rparr>]"

definition labels_of :: "comp_stop + (int \<times> compiler) \<Rightarrow> (int list \<times> int list) option" where
  "labels_of r = (case r of Inl _ \<Rightarrow> None | Inr (_, C) \<Rightarrow> Some (label_defs (nir C), label_uses (nir C)))"

theorem labels_well_formed_witness:
  "\<exists>rc C. compile_program (\<lambda>_. None) [] ''a.nib'' loop_prog = Inr (rc, C) \<and> label_defs (nir C) = [0, 2, 1] \<and>
     label_uses (nir C) = [1, 2, 1, 0] \<and> distinct (label_defs (nir C)) \<and> set (label_uses (nir C)) \<subseteq> set (label_defs (nir C))"
proof -
  have r: "labels_of (compile_program (\<lambda>_. None) [] ''a.nib'' loop_prog) = Some ([0, 2, 1], [1, 2, 1, 0])"
    by code_simp
  then obtain rc C where C: "compile_program (\<lambda>_. None) [] ''a.nib'' loop_prog = Inr (rc, C)"
    and l: "label_defs (nir C) = [0, 2, 1]" "label_uses (nir C) = [1, 2, 1, 0]"
    by (auto simp: labels_of_def split: sum.splits)
  show ?thesis using labels_well_formed [OF C] C l by blast
qed

end
