(* ===== verification/Compile_Value.thy ===== *)
theory Compile_Value
  imports Compile_Effect
begin

text \<open>
  What the code for expressions computes. The virtual registers hold 16-bit words; the
  instructions that the compiler emits for arithmetic, shifts and comparisons act on them
  (\<open>nir_step\<close>). The code of an expression over literals and word variables leaves the value of
  the expression in its result register and changes no register that was in use before.
\<close>

section \<open>Words\<close>

definition flag_word :: "bool \<Rightarrow> 16 word" where
  "flag_word b = (if b then 1 else 0)"

text \<open>The value of an operator. Rotations through the carry and the exchange have none here; the
  division by zero traps.\<close>

definition op_word :: "op_kind \<Rightarrow> 16 word \<Rightarrow> 16 word \<Rightarrow> 16 word option" where
  "op_word k a b =
     (case k of
        NIB_ADD \<Rightarrow> Some (a + b) | NIB_SUB \<Rightarrow> Some (a - b) | NIB_MUL \<Rightarrow> Some (a * b) | NIB_SMUL \<Rightarrow> Some (a * b)
      | NIB_DIV \<Rightarrow> if b = 0 then None else Some (a div b) | NIB_MOD \<Rightarrow> if b = 0 then None else Some (a mod b)
      | NIB_AND \<Rightarrow> Some (a AND b) | NIB_OR \<Rightarrow> Some (a OR b) | NIB_XOR \<Rightarrow> Some (a XOR b)
      | NIB_SHL \<Rightarrow> Some (push_bit (unat b) a) | NIB_SHR \<Rightarrow> Some (drop_bit (unat b) a)
      | NIB_SRSHR \<Rightarrow> Some (signed_drop_bit (unat b) a)
      | NIB_ROL \<Rightarrow> Some (word_rotl (unat b) a) | NIB_ROR \<Rightarrow> Some (word_rotr (unat b) a)
      | NIB_EQ \<Rightarrow> Some (flag_word (a = b)) | NIB_NEQ \<Rightarrow> Some (flag_word (a \<noteq> b))
      | NIB_LT \<Rightarrow> Some (flag_word (a < b)) | NIB_GT \<Rightarrow> Some (flag_word (b < a))
      | NIB_LTE \<Rightarrow> Some (flag_word (a \<le> b)) | NIB_GTE \<Rightarrow> Some (flag_word (b \<le> a))
      | NIB_SLT \<Rightarrow> Some (flag_word (a <s b)) | NIB_SGT \<Rightarrow> Some (flag_word (b <s a))
      | NIB_SLTE \<Rightarrow> Some (flag_word (a \<le>s b)) | NIB_SGTE \<Rightarrow> Some (flag_word (b \<le>s a))
      | _ \<Rightarrow> None)"

definition op1_word :: "op_kind \<Rightarrow> 16 word \<Rightarrow> 16 word option" where
  "op1_word k a =
     (case k of
        NIB_NEG \<Rightarrow> Some (- a) | NIB_NOT \<Rightarrow> Some (NOT a) | NIB_LNOT \<Rightarrow> Some (flag_word (a = 0)) | _ \<Rightarrow> None)"

text \<open>The value of an expression in a state of the variables.\<close>

fun word_expr :: "(string \<Rightarrow> 16 word option) \<Rightarrow> expr_t \<Rightarrow> 16 word option" where
  "word_expr s (EXPR_LIT_INT _ n) = Some (word_of_int n)"
| "word_expr s (EXPR_IDENT _ nm) = s nm"
| "word_expr s (EXPR_BINOP _ k l r) =
     (case word_expr s l of
        None \<Rightarrow> None
      | Some a \<Rightarrow> (case word_expr s r of None \<Rightarrow> None | Some b \<Rightarrow> op_word k a b))"
| "word_expr s (EXPR_UNOP _ k e) = (case word_expr s e of None \<Rightarrow> None | Some a \<Rightarrow> op1_word k a)"
| "word_expr s (EXPR_CAST _ e t) = (if t = TYPE_U16 then word_expr s e else None)"
| "word_expr s _ = None"

section \<open>Instructions\<close>

type_synonym regs = "int \<Rightarrow> 16 word"

definition insn_word :: "string \<Rightarrow> 16 word \<Rightarrow> 16 word \<Rightarrow> 16 word option" where
  "insn_word n a b =
     (if n = ''add'' then Some (a + b) else if n = ''sub'' then Some (a - b)
      else if n = ''mul'' \<or> n = ''imul'' then Some (a * b)
      else if n = ''div'' then if b = 0 then None else Some (a div b)
      else if n = ''mod'' then if b = 0 then None else Some (a mod b)
      else if n = ''and'' then Some (a AND b) else if n = ''or'' then Some (a OR b) else if n = ''xor'' then Some (a XOR b)
      else if n = ''shl'' then Some (push_bit (unat b) a) else if n = ''shr'' then Some (drop_bit (unat b) a)
      else if n = ''sar'' then Some (signed_drop_bit (unat b) a)
      else if n = ''rol'' then Some (word_rotl (unat b) a) else if n = ''ror'' then Some (word_rotr (unat b) a)
      else if n = ''cmp.eq'' then Some (flag_word (a = b)) else if n = ''cmp.ne'' then Some (flag_word (a \<noteq> b))
      else if n = ''cmp.b'' then Some (flag_word (a < b)) else if n = ''cmp.a'' then Some (flag_word (b < a))
      else if n = ''cmp.be'' then Some (flag_word (a \<le> b)) else if n = ''cmp.ae'' then Some (flag_word (b \<le> a))
      else if n = ''cmp.l'' then Some (flag_word (a <s b)) else if n = ''cmp.g'' then Some (flag_word (b <s a))
      else if n = ''cmp.le'' then Some (flag_word (a \<le>s b)) else if n = ''cmp.ge'' then Some (flag_word (b \<le>s a))
      else None)"

definition insn1_word :: "string \<Rightarrow> 16 word \<Rightarrow> 16 word option" where
  "insn1_word n a =
     (if n = ''mov'' then Some a else if n = ''neg'' then Some (- a) else if n = ''not'' then Some (NOT a)
      else if n = ''lnot'' then Some (flag_word (a = 0)) else None)"

definition opnd_word :: "regs \<Rightarrow> nir_opnd \<Rightarrow> 16 word option" where
  "opnd_word g x = (case x of Vr v \<Rightarrow> Some (g v) | Im n \<Rightarrow> Some (word_of_int n) | _ \<Rightarrow> None)"

text \<open>One instruction; directives and notes do nothing at run time.\<close>

definition nir_step :: "nir \<Rightarrow> regs \<Rightarrow> regs option" where
  "nir_step l g =
     (case l of
        Ins n xs \<Rightarrow>
          (case xs of
             [Vr d, x] \<Rightarrow>
               (case opnd_word g x of
                  None \<Rightarrow> None
                | Some a \<Rightarrow> map_option (\<lambda>w. g(d := w)) (insn1_word n a))
           | [Vr d, x, y] \<Rightarrow>
               (case opnd_word g x of
                  None \<Rightarrow> None
                | Some a \<Rightarrow>
                    (case opnd_word g y of
                       None \<Rightarrow> None
                     | Some b \<Rightarrow> map_option (\<lambda>w. g(d := w)) (insn_word n a b)))
           | _ \<Rightarrow> None)
      | NVreg _ _ \<Rightarrow> Some g | NPrefer _ _ \<Rightarrow> Some g | NPin _ _ \<Rightarrow> Some g | NNote _ _ \<Rightarrow> Some g | NLine _ _ \<Rightarrow> Some g
      | _ \<Rightarrow> None)"

fun nir_run :: "nir list \<Rightarrow> regs \<Rightarrow> regs option" where
  "nir_run [] g = Some g"
| "nir_run (l # ls) g = (case nir_step l g of None \<Rightarrow> None | Some h \<Rightarrow> nir_run ls h)"

lemma nir_run_append: "nir_run (xs @ ys) g = (case nir_run xs g of None \<Rightarrow> None | Some h \<Rightarrow> nir_run ys h)"
  by (induction xs arbitrary: g) (auto split: option.split)

lemma insn_word_op: "op_word k a b = Some w \<Longrightarrow> insn_word (op_str k) a b = Some w"
  by (cases k) (simp_all add: op_word_def insn_word_def op_str_def)

lemma insn1_word_op: "op1_word k a = Some w \<Longrightarrow> insn1_word (op_str k) a = Some w"
  by (cases k) (simp_all add: op1_word_def insn1_word_def op_str_def)

section \<open>Progress of the generated code\<close>

text \<open>Between two states of the compiler code was written that takes the registers \<open>g\<close> to \<open>h\<close>
  without a change below \<open>b\<close>.\<close>

definition advances :: "int \<Rightarrow> compiler \<Rightarrow> regs \<Rightarrow> compiler \<Rightarrow> regs \<Rightarrow> bool" where
  "advances b C g D h \<longleftrightarrow>
     (\<exists>ls. nir D = nir C @ ls \<and> nir_run ls g = Some h) \<and> (\<forall>x<b. h x = g x) \<and> next_vreg C \<le> next_vreg D \<and>
     scope D = scope C \<and> isr_names D = isr_names C"

lemma advances_refl: "advances b C g C g"
  by (simp add: advances_def)

lemma advances_trans: "advances b C g D h \<Longrightarrow> advances b D h E k \<Longrightarrow> advances b C g E k"
  unfolding advances_def by (auto simp: nir_run_append)

lemma advances_weaken: "advances b C g D h \<Longrightarrow> b' \<le> b \<Longrightarrow> advances b' C g D h"
  unfolding advances_def by auto

lemma advances_quiet: "nir D = nir C \<Longrightarrow> next_vreg C \<le> next_vreg D \<Longrightarrow> scope D = scope C \<Longrightarrow> isr_names D = isr_names C \<Longrightarrow>
    advances b C g D g"
  by (simp add: advances_def)

lemma advances_line: "nir_step l g = Some h \<Longrightarrow> (\<forall>x<b. h x = g x) \<Longrightarrow> advances b C g (C\<lparr>nir := nir C @ [l]\<rparr>) h"
  by (simp add: advances_def)

text \<open>A word variable lives in a register that is in use.\<close>

definition word_local :: "compiler \<Rightarrow> symbol_t \<Rightarrow> bool" where
  "word_local C smb \<longleftrightarrow>
     \<not> is_global smb \<and> \<not> is_stack_local smb \<and> sy_vreg_seg smb < 0 \<and> sy_type smb = Some TYPE_U16 \<and> sy_vreg smb < next_vreg C"

definition holds_vars :: "compiler \<Rightarrow> (string \<Rightarrow> 16 word option) \<Rightarrow> regs \<Rightarrow> bool" where
  "holds_vars C s g \<longleftrightarrow>
     (\<forall>x w. s x = Some w \<longrightarrow>
        x \<notin> set (isr_names C) \<and> (\<exists>smb. lookup_in (scope C) x = Some smb \<and> word_local C smb \<and> g (sy_vreg smb) = w))"

lemma holds_vars_advances: "holds_vars C s g \<Longrightarrow> advances (next_vreg C) C g D h \<Longrightarrow> holds_vars D s h"
  unfolding holds_vars_def advances_def word_local_def by fastforce

lemma holds_varsD: "holds_vars C s g \<Longrightarrow> s x = Some w \<Longrightarrow>
    x \<notin> set (isr_names C) \<and> (\<exists>smb. lookup_in (scope C) x = Some smb \<and> word_local C smb \<and> g (sy_vreg smb) = w)"
  by (simp add: holds_vars_def)


section \<open>Operators\<close>

definition word_type :: "type_t option \<Rightarrow> bool" where
  "word_type t \<longleftrightarrow> t = None \<or> t = Some TYPE_U16 \<or> t = Some TYPE_U32 \<or> t = Some TYPE_BOOL"

definition yields :: "compiler \<Rightarrow> regs \<Rightarrow> typed_vreg comp \<Rightarrow> 16 word \<Rightarrow> bool" where
  "yields C g m w \<longleftrightarrow>
     (\<exists>v D h. m C = Inr (v, D) \<and> advances (next_vreg C) C g D h \<and> h (tv_vreg v) = w \<and> tv_vreg v < next_vreg D \<and>
              word_type (tv_type v))"

lemmas run_simps = bnd_def andthen_def ret_def gets_def modify_def alloc_vreg_def ins_def emit_nir_def

lemma TV_word [simp]: "word_type t \<Longrightarrow> TV v t C = Inr (\<lparr>tv_vreg = v, tv_seg = -1, tv_type = t\<rparr>, C)"
  by (auto simp: TV_def word_type_def run_simps)

lemma cerr_if_run: "cerr_if b C = Inr ((), C\<lparr>cerrors := cerrors C + (if b then 1 else 0)\<rparr>)"
  by (simp add: cerr_if_def cerr_def run_simps)

text \<open>A check may count an error and does nothing else.\<close>

definition same_code :: "compiler \<Rightarrow> compiler \<Rightarrow> bool" where
  "same_code C D \<longleftrightarrow> nir D = nir C \<and> next_vreg D = next_vreg C \<and> scope D = scope C \<and> isr_names D = isr_names C"

definition checks :: "type_t option comp \<Rightarrow> bool" where
  "checks m \<longleftrightarrow> (\<forall>C. case m C of Inl _ \<Rightarrow> False | Inr (ty, D) \<Rightarrow> word_type ty \<and> same_code C D)"

lemma checksD: "checks m \<Longrightarrow> \<exists>ty D. m C = Inr (ty, D) \<and> word_type ty \<and> same_code C D"
  unfolding checks_def by (drule spec [of _ C]) (auto split: sum.splits)

lemma checks_ret: "word_type t \<Longrightarrow> checks (ret t)"
  by (simp add: checks_def ret_def same_code_def)

lemma checks_bnd_ret: "checks m \<Longrightarrow> (\<And>ty. word_type ty \<Longrightarrow> word_type (f ty)) \<Longrightarrow> checks (bnd m (\<lambda>ty. ret (f ty)))"
  unfolding checks_def bnd_def ret_def by (force split: sum.splits)

lemma checks_cerr_if: "word_type t \<Longrightarrow> checks (andthen (cerr_if b) (ret t))"
  by (simp add: checks_def cerr_if_run run_simps same_code_def)

lemma word_type_simps [simp]:
  "word_type None" "word_type (Some TYPE_U16)" "word_type (Some TYPE_U32)" "word_type (Some TYPE_BOOL)"
  by (simp_all add: word_type_def)

lemma word_type_facts:
  "word_type t \<Longrightarrow> \<not> type_is_bcd t" "word_type t \<Longrightarrow> \<not> type_is_aggregate t" "word_type t \<Longrightarrow> t \<noteq> Some TYPE_U8"
  by (auto simp: word_type_def type_is_bcd_def is_bcd_def type_is_aggregate_def is_array_def is_struct_def)

lemma check_arith_word: "word_type l \<Longrightarrow> word_type r \<Longrightarrow> checks (check_arith l r k)"
  unfolding check_arith_def by (simp add: word_type_facts checks_ret checks_cerr_if)

lemma check_compare_word: "word_type l \<Longrightarrow> word_type r \<Longrightarrow> checks (check_compare l r)"
  unfolding check_compare_def by (simp add: word_type_facts checks_ret checks_cerr_if)

lemma check_shift_word: "word_type t \<Longrightarrow> checks (andthen (check_shift l) (ret t))"
  unfolding check_shift_def by (rule checks_cerr_if)


lemma yields_bnd:
  assumes "yields C g m a"
    and "\<And>v D h. advances (next_vreg C) C g D h \<Longrightarrow> h (tv_vreg v) = a \<Longrightarrow> tv_vreg v < next_vreg D \<Longrightarrow> word_type (tv_type v) \<Longrightarrow>
           yields D h (k v) w"
  shows "yields C g (bnd m k) w"
proof -
  obtain v D h where 1: "m C = Inr (v, D)" "advances (next_vreg C) C g D h" "h (tv_vreg v) = a" "tv_vreg v < next_vreg D"
      "word_type (tv_type v)"
    using assms(1) by (auto simp: yields_def)
  from assms(2) [OF this(2-5)] obtain u E i where 2: "k v D = Inr (u, E)" "advances (next_vreg D) D h E i"
      "i (tv_vreg u) = w" "tv_vreg u < next_vreg E" "word_type (tv_type u)"
    by (auto simp: yields_def)
  have "next_vreg C \<le> next_vreg D" using 1(2) by (simp add: advances_def)
  with 1 2 have "advances (next_vreg C) C g E i" by (blast intro: advances_trans advances_weaken)
  with 1 2 show ?thesis by (auto simp: yields_def bnd_def)
qed

lemma yields_quiet:
  assumes "m C = Inr (a, D)" "same_code C D" "yields D g (k a) w"
  shows "yields C g (bnd m k) w"
proof -
  obtain v E h where 1: "k a D = Inr (v, E)" "advances (next_vreg D) D g E h" "h (tv_vreg v) = w" "tv_vreg v < next_vreg E"
      "word_type (tv_type v)"
    using assms(3) by (auto simp: yields_def)
  have "advances (next_vreg C) C g E h" using 1(2) assms(2) by (simp add: advances_def same_code_def)
  with 1 assms(1) show ?thesis by (auto simp: yields_def bnd_def)
qed

lemma yields_check: "checks m \<Longrightarrow> (\<And>ty D. word_type ty \<Longrightarrow> same_code C D \<Longrightarrow> yields D g (k ty) w) \<Longrightarrow> yields C g (bnd m k) w"
  using checksD [of m C] by (blast intro: yields_quiet)

lemma yields_cerr_if: "(\<And>D. same_code C D \<Longrightarrow> yields D g k w) \<Longrightarrow> yields C g (andthen (cerr_if b) k) w"
  unfolding andthen_def by (rule yields_quiet [OF cerr_if_run]) (simp_all add: same_code_def)

text \<open>One instruction whose result is a fresh register.\<close>

lemma yields_new:
  assumes "K (next_vreg C) (C\<lparr>next_vreg := next_vreg C + 1\<rparr>) = Inr (\<lparr>tv_vreg = next_vreg C, tv_seg = -1, tv_type = ty\<rparr>, E)"
    and "nir E = nir C @ [l]" "next_vreg E = next_vreg C + 1" "scope E = scope C" "isr_names E = isr_names C"
    and "nir_step l g = Some (g(next_vreg C := w))" "word_type ty"
  shows "yields C g (bnd alloc_vreg K) w"
proof -
  have "advances (next_vreg C) C g E (g(next_vreg C := w))" using assms by (simp add: advances_def)
  with assms show ?thesis unfolding yields_def by (auto simp: run_simps)
qed

lemma yields_ins:
  assumes "nir_step (Ins n (Vr (next_vreg C) # xs)) g = Some (g(next_vreg C := w))" "word_type ty"
  shows "yields C g (bnd alloc_vreg (\<lambda>d. andthen (ins n (Vr d # xs)) (TV d ty))) w"
  by (rule yields_new [where E = "C\<lparr>next_vreg := next_vreg C + 1, nir := nir C @ [Ins n (Vr (next_vreg C) # xs)]\<rparr>",
        OF _ _ _ _ _ assms]) (simp_all add: run_simps assms(2))

lemma yields_check_ins:
  assumes "nir_step (Ins n (Vr (next_vreg C) # xs)) g = Some (g(next_vreg C := w))" "checks m"
  shows "yields C g (bnd alloc_vreg (\<lambda>d. bnd m (\<lambda>ty. andthen (ins n (Vr d # xs)) (TV d ty)))) w"
proof -
  obtain ty D where 1: "m (C\<lparr>next_vreg := next_vreg C + 1\<rparr>) = Inr (ty, D)" "word_type ty" "same_code (C\<lparr>next_vreg := next_vreg C + 1\<rparr>) D"
    using checksD [OF assms(2)] by blast
  show ?thesis
    by (rule yields_new [where E = "D\<lparr>nir := nir D @ [Ins n (Vr (next_vreg C) # xs)]\<rparr>", OF _ _ _ _ _ assms(1) 1(2)])
       (use 1 in \<open>simp_all add: run_simps same_code_def\<close>)
qed

lemma step_binop:
  assumes "op_word k a b = Some w" "g l = a" "opnd_word g x = Some b"
  shows "nir_step (Ins (op_str k) [Vr d, Vr l, x]) g = Some (g(d := w))"
  using insn_word_op [OF assms(1)] assms(2,3) by (simp add: nir_step_def opnd_word_def)

lemma step_unop:
  assumes "op1_word k a = Some w" "g l = a"
  shows "nir_step (Ins (op_str k) [Vr d, Vr l]) g = Some (g(d := w))"
  using insn1_word_op [OF assms(1)] assms(2) by (simp add: nir_step_def opnd_word_def)

lemma step_mov: "opnd_word g x = Some a \<Longrightarrow> nir_step (Ins ''mov'' [Vr d, x]) g = Some (g(d := a))"
  by (simp add: nir_step_def insn1_word_def)


lemma yields_ret: "g (tv_vreg v) = w \<Longrightarrow> tv_vreg v < next_vreg C \<Longrightarrow> word_type (tv_type v) \<Longrightarrow> yields C g (ret v) w"
  by (auto simp: yields_def ret_def intro: advances_refl)

lemma yields_TV: "g v = w \<Longrightarrow> v < next_vreg C \<Longrightarrow> word_type t \<Longrightarrow> yields C g (TV v t) w"
  by (auto simp: yields_def intro: advances_refl)

lemma binop_code_yields:
  assumes "op_word k a b = Some w" "g (tv_vreg l) = a" "opnd_word g (right_opnd imm r) = Some b"
    and "word_type (tv_type l)" "word_type (tv_type r)"
  shows "yields C g (binop_code k l imm r) w"
proof -
  have k: "k \<noteq> NIB_XCHG" using assms(1) by (auto simp: op_word_def)
  show ?thesis
    unfolding binop_code_def
    by (simp add: k word_type_facts assms(4,5))
       (intro impI conjI yields_check_ins step_binop [where g = g, OF assms(1,2,3)] check_compare_word check_arith_word check_shift_word assms(4,5))
qed

lemma unop_code_yields:
  assumes "op1_word k a = Some w" "g (tv_vreg x) = a" "word_type (tv_type x)"
  shows "yields C g (unop_code k x) w"
proof -
  have k: "k \<noteq> NIB_ADDR" using assms(1) by (auto simp: op1_word_def)
  have t: "word_type (if k = NIB_LNOT then Some TYPE_BOOL else tv_type x)" using assms(3) by simp
  show ?thesis
    unfolding unop_code_def using k
    by (simp only: if_False)
       (rule yields_new [where E = "C\<lparr>next_vreg := next_vreg C + 1, nir := nir C @ [Ins (op_str k) [Vr (next_vreg C), Vr (tv_vreg x)]],
            cerrors := cerrors C + (if tv_type x \<noteq> None \<and>
                 (if k = NIB_NEG then \<not> type_is_integer (tv_type x)
                  else if k = NIB_NOT then \<not> type_is_integer (tv_type x) \<and> tv_type x \<noteq> Some TYPE_BOOL
                  else if k = NIB_LNOT then tv_type x \<noteq> Some TYPE_BOOL else False) then 1 else 0)\<rparr>",
            OF _ _ _ _ _ step_unop [where g = g, OF assms(1,2)] t], simp_all add: run_simps cerr_if_run TV_word [OF t] del: TV_word)
qed

lemma for_unop_code_yields:
  assumes "op1_word k a = Some w" "g (tv_vreg x) = a" "word_type (tv_type x)" "word_type target"
  shows "yields C g (for_unop_code k target x) w"
  unfolding for_unop_code_def
  by (intro yields_cerr_if yields_ins step_unop [where g = g, OF assms(1,2)]) (simp add: assms(3,4))

lemma for_binop_code_yields:
  assumes "op_word k a b = Some w" "g (tv_vreg l) = a" "opnd_word g (right_opnd imm r) = Some b"
    and "word_type (tv_type l)" "word_type (tv_type r)" "word_type target"
  shows "yields C g (for_binop_code k target l imm r) w"
proof -
  have 1: "checks (bnd (check_arith (tv_type l) (tv_type r) k) (\<lambda>ty. ret (if ty \<noteq> None then ty else target)))"
    by (rule checks_bnd_ret [OF check_arith_word [OF assms(4,5)]]) (simp add: assms(6))
  have 2: "checks (andthen (check_shift l) (ret (if tv_type l \<noteq> None then tv_type l else target)))"
    by (rule check_shift_word) (simp add: assms(4,6))
  show ?thesis
    unfolding for_binop_code_def
    by (rule yields_check, simp only: 1 2 split: if_split, simp, rule yields_ins, rule step_binop [where g = g, OF assms(1,2,3)])
qed

lemma yields_gets: "yields C g (k (f C)) w \<Longrightarrow> yields C g (bnd (gets f) k) w"
  by (simp add: yields_def bnd_def gets_def)

lemma emit_ident_yields:
  assumes "holds_vars C s g" "s nm = Some w"
  shows "yields C g (emit_ident nm) w"
proof -
  obtain smb where smb: "nm \<notin> set (isr_names C)" "lookup_in (scope C) nm = Some smb" "word_local C smb" "g (sy_vreg smb) = w"
    using holds_varsD [OF assms] by blast
  have "yields C g (TV (sy_vreg smb) (Some TYPE_U16)) w"
    by (rule yields_TV) (use smb in \<open>simp_all add: word_local_def\<close>)
  with smb show ?thesis
    unfolding emit_ident_def is_isr_def sym_lookup_def
    by (intro yields_gets) (simp add: yields_gets word_local_def)
qed

lemma unop_special_none: "k \<noteq> NIB_ADDR \<Longrightarrow> k \<noteq> NIB_FAR_ADDR \<Longrightarrow> unop_special k e C = Inr (None, C)"
  by (cases e) (simp_all add: unop_special_def find_function_def sym_lookup_def run_simps)

lemma yields_unop:
  assumes "op1_word k a = Some w" "yields C g (bnd (emit_expr_typed e) (unop_code k)) w"
  shows "yields C g (bnd (unop_special k e)
           (\<lambda>t. case t of Some v \<Rightarrow> ret v | None \<Rightarrow> bnd (emit_expr_typed e) (unop_code k))) w"
proof -
  have "k \<noteq> NIB_ADDR" "k \<noteq> NIB_FAR_ADDR" using assms(1) by (auto simp: op1_word_def)
  then show ?thesis
    by (intro yields_quiet [OF unop_special_none]) (simp_all add: same_code_def assms(2))
qed

lemma for_default_yields:
  assumes "yields C g m w" "word_type target"
  shows "yields C g (for_default target m) w"
  unfolding for_default_def
  by (rule yields_bnd [OF assms(1)]) (auto simp: assms(2) bnd_def ret_def yields_def intro!: exI advances_refl)


section \<open>Expressions\<close>

text \<open>The right operand of a binary operator is a register or, for a literal, an immediate.\<close>

lemma right_operand:
  assumes "holds_vars D s h" "word_expr s r = Some b"
    and "\<And>D h. holds_vars D s h \<Longrightarrow> yields D h m b"
    and "\<And>y E i. advances (next_vreg D) D h E i \<Longrightarrow> opnd_word i (right_opnd (lit_int r) y) = Some b \<Longrightarrow>
           word_type (tv_type y) \<Longrightarrow> yields E i (k y) w"
  shows "yields D h (bnd (if lit_int r \<noteq> None then ret no_tv else m) k) w"
proof (cases "lit_int r")
  case None
  have "yields D h (bnd m k) w"
    by (rule yields_bnd [OF assms(3) [OF assms(1)]]) (rule assms(4), simp_all add: None right_opnd_def opnd_word_def)
  with None show ?thesis by simp
next
  case (Some n)
  then have "b = word_of_int n" using assms(2) by (auto simp: lit_int_def split: expr_t.splits)
  then have "yields D h (k no_tv) w"
    by (intro assms(4)) (simp_all add: Some right_opnd_def opnd_word_def advances_refl no_tv_def)
  with Some show ?thesis by simp
qed

lemma binop_yields:
  assumes "holds_vars C s g" "yields C g ml a" "word_expr s r = Some b"
    and "\<And>D h. holds_vars D s h \<Longrightarrow> yields D h mr b"
    and "\<And>E i x y. i (tv_vreg x) = a \<Longrightarrow> opnd_word i (right_opnd (lit_int r) y) = Some b \<Longrightarrow>
           word_type (tv_type x) \<Longrightarrow> word_type (tv_type y) \<Longrightarrow> yields E i (k x y) w"
  shows "yields C g (bnd ml (\<lambda>x. bnd (if lit_int r \<noteq> None then ret no_tv else mr) (k x))) w"
proof (rule yields_bnd [OF assms(2)])
  fix x :: typed_vreg and D h
  assume x: "advances (next_vreg C) C g D h" "h (tv_vreg x) = a" "tv_vreg x < next_vreg D" "word_type (tv_type x)"
  show "yields D h (bnd (if lit_int r \<noteq> None then ret no_tv else mr) (k x)) w"
  proof (rule right_operand [OF holds_vars_advances [OF assms(1) x(1)] assms(3,4)])
    fix y :: typed_vreg and E i
    assume y: "advances (next_vreg D) D h E i" "opnd_word i (right_opnd (lit_int r) y) = Some b" "word_type (tv_type y)"
    then have "i (tv_vreg x) = a" using x(2,3) by (simp add: advances_def)
    then show "yields E i (k x y) w" by (rule assms(5)) (use x y in simp_all)
  qed
qed


text \<open>Both functions, with and without the type of the context.\<close>

lemma emit_expr_yields:
  assumes "word_expr s e = Some w" "holds_vars C s g"
  shows "yields C g (emit_expr_typed e) w \<and> (\<forall>t. word_type t \<longrightarrow> yields C g (emit_expr_typed_for e t) w)"
  using assms
proof (induction s e arbitrary: w C g rule: word_expr.induct)
  case (1 s ln n)
  have "yields C g (bnd alloc_vreg (\<lambda>r. andthen (ins ''mov'' [Vr r, Im n]) (TV r t))) w" if "word_type t" for t
    by (rule yields_ins) (use 1 that in \<open>simp_all add: step_mov opnd_word_def\<close>)
  then show ?case by (auto simp: emit_expr_typed_for.simps for_default_yields)
next
  case (2 s ln nm)
  then have "yields C g (emit_ident nm) w" by (simp add: emit_ident_yields)
  then show ?case by (simp add: emit_expr_typed_for.simps for_default_yields)
next
  case (3 s ln k l r)
  obtain a b where ab: "word_expr s l = Some a" "word_expr s r = Some b" "op_word k a b = Some w"
    using 3(3) by (auto split: option.splits)
  note l = 3(1) [OF ab(1)] and r = 3(2) [OF ab(1) ab(2)]
  have 1: "yields C g (emit_expr_typed (EXPR_BINOP ln k l r)) w"
    unfolding emit_expr_typed.simps
    by (rule binop_yields [OF 3(4) _ ab(2)]) (use l r 3(4) ab(3) in \<open>auto intro: binop_code_yields\<close>)
  have 2: "yields C g (bnd (emit_expr_typed_for l t) (\<lambda>x.
             bnd (if lit_int r \<noteq> None then ret no_tv else emit_expr_typed_for r u) (for_binop_code k t x (lit_int r)))) w"
    if "word_type t" "word_type u" for t u
    by (rule binop_yields [OF 3(4) _ ab(2)]) (use l r 3(4) ab(3) that in \<open>auto intro: for_binop_code_yields\<close>)
  show ?case using 1 2 by (simp add: emit_expr_typed_for.simps for_default_yields)
next
  case (4 s ln k e)
  obtain a where a: "word_expr s e = Some a" "op1_word k a = Some w"
    using 4(2) by (auto split: option.splits)
  note e = 4(1) [OF a(1) 4(3)]
  have 1: "yields C g (emit_expr_typed (EXPR_UNOP ln k e)) w"
    unfolding emit_expr_typed.simps
    by (rule yields_unop [OF a(2)], rule yields_bnd) (use e a in \<open>auto intro: unop_code_yields\<close>)
  have 2: "yields C g (bnd (emit_expr_typed_for e t) (for_unop_code k t)) w" if "word_type t" for t
    by (rule yields_bnd) (use e a that in \<open>auto intro: for_unop_code_yields\<close>)
  show ?case using 1 2 by (simp add: emit_expr_typed_for.simps for_default_yields)
next
  case (5 s ln e t)
  then have t: "t = TYPE_U16" "word_expr s e = Some w" by (auto split: if_splits)
  have e: "yields C g (emit_expr_typed_for e (Some TYPE_U16)) w" using 5(1) [OF t 5(3)] by simp
  have 1: "yields C g (bnd (emit_expr_typed_for e (Some TYPE_U16)) (\<lambda>v. TV (tv_vreg v) (Some TYPE_U16))) w"
    by (rule yields_bnd [OF e]) (simp add: yields_TV)
  have 2: "yields C g (bnd (emit_expr_typed_for e (Some TYPE_U16)) (\<lambda>v. ret (v\<lparr>tv_type := Some TYPE_U16\<rparr>))) w"
    by (rule yields_bnd [OF e]) (simp add: yields_ret)
  show ?case using 1 2 t by (simp add: emit_expr_typed_for.simps [of "EXPR_CAST _ _ _"] is_contextual_mem_load_type_def)
qed simp_all


section \<open>The property\<close>

text \<open>A function body with one word variable, in register 0.\<close>

definition one_var :: compiler where
  "one_var = (init_compiler ''a.nib'')\<lparr>scope := [[new_symbol ''x'' (Some TYPE_U16) 0]], next_vreg := 1\<rparr>"

definition poly_expr :: expr_t where
  "poly_expr = EXPR_BINOP 1 NIB_SUB (EXPR_BINOP 1 NIB_MUL (EXPR_IDENT 1 ''x'') (EXPR_UNOP 1 NIB_NOT (EXPR_IDENT 1 ''x'')))
     (EXPR_LIT_INT 1 7)"

lemma one_var_holds: "g 0 = w \<Longrightarrow> holds_vars one_var [''x'' \<mapsto> w] g"
  by (auto simp: holds_vars_def one_var_def init_compiler_def lookup_in_def word_local_def new_symbol_def)

lemma one_var_value: "holds_vars one_var [''x'' \<mapsto> w] g \<Longrightarrow> g 0 = w"
  by (drule holds_varsD [of _ _ _ "''x''"]) (auto simp: one_var_def lookup_in_def new_symbol_def)

text \<open>(C13) The code for an expression over literals and word variables computes its value: it is
  generated, runs to its end, leaves the value in the register of the result and keeps every
  register that was in use.\<close>

theorem expression_code_correct:
  assumes "holds_vars C s g" "word_expr s e = Some w"
  shows "\<exists>v D ls h. emit_expr_typed_for e (Some TYPE_U16) C = Inr (v, D) \<and> nir D = nir C @ ls \<and> nir_run ls g = Some h \<and>
           h (tv_vreg v) = w \<and> (\<forall>x<next_vreg C. h x = g x)"
  using conjunct2 [OF emit_expr_yields [OF assms(2,1)], rule_format, of "Some TYPE_U16"]
  by (auto simp: yields_def advances_def)

theorem expression_code_correct_witness:
  "\<exists>v D ls h. emit_expr_typed_for poly_expr (Some TYPE_U16) one_var = Inr (v, D) \<and> nir D = nir one_var @ ls \<and>
     nir_run ls (\<lambda>_. 5) = Some h \<and> h (tv_vreg v) = - 37 \<and> h 0 = 5"
proof -
  have e: "word_expr [''x'' \<mapsto> 5] poly_expr = Some (- 37)"
    by (simp add: poly_expr_def op_word_def op1_word_def)
  show ?thesis
    using expression_code_correct [OF one_var_holds [of "\<lambda>_. 5", OF refl] e] by (fastforce simp: one_var_def)
qed

end
