(* ===== verification/Compile_Run.thy ===== *)
theory Compile_Run
  imports Compile_Value Compile_Flow_Facts "HOL-Library.Sublist"
begin

text \<open>
  What the code for statements does. A machine runs the lines of a function with a program counter
  (\<open>nir_move\<close>); statements over word variables, conditionals, loops, \<^verbatim>\<open>break\<close> and
  \<^verbatim>\<open>continue\<close> have a big-step semantics (\<open>big\<close>). When a statement ends, its code comes to its
  end too, with the values of the variables in their registers.
\<close>

section \<open>Statements\<close>

type_synonym vars = "string \<Rightarrow> 16 word option"

datatype outcome = Normal | Broken | Continued

inductive big :: "vars \<Rightarrow> stmt_t \<Rightarrow> outcome \<Rightarrow> vars \<Rightarrow> bool"
  and bigs :: "vars \<Rightarrow> stmt_t list \<Rightarrow> outcome \<Rightarrow> vars \<Rightarrow> bool"
where
  big_assign: "s x \<noteq> None \<Longrightarrow> word_expr s e = Some w \<Longrightarrow> big s (STMT_ASSIGN ln [EXPR_IDENT m x] e []) Normal (s(x \<mapsto> w))"
| big_expr: "word_expr s e = Some w \<Longrightarrow> big s (STMT_EXPR ln e) Normal s"
| big_then: "word_expr s c = Some w \<Longrightarrow> w \<noteq> 0 \<Longrightarrow> bigs s th r t \<Longrightarrow> big s (STMT_IF ln c th el) r t"
| big_else: "word_expr s c = Some 0 \<Longrightarrow> bigs s el r t \<Longrightarrow> big s (STMT_IF ln c th el) r t"
| big_while_end: "word_expr s c = Some 0 \<Longrightarrow> big s (STMT_WHILE ln c b) Normal s"
| big_while_break: "word_expr s c = Some w \<Longrightarrow> w \<noteq> 0 \<Longrightarrow> bigs s b Broken t \<Longrightarrow> big s (STMT_WHILE ln c b) Normal t"
| big_while: "word_expr s c = Some w \<Longrightarrow> w \<noteq> 0 \<Longrightarrow> bigs s b r t \<Longrightarrow> r \<noteq> Broken \<Longrightarrow> big t (STMT_WHILE ln c b) Normal u \<Longrightarrow>
    big s (STMT_WHILE ln c b) Normal u"
| big_break: "big s (STMT_BREAK ln) Broken s"
| big_continue: "big s (STMT_CONTINUE ln) Continued s"
| bigs_nil: "bigs s [] Normal s"
| bigs_cons: "big s st Normal t \<Longrightarrow> bigs t ss r u \<Longrightarrow> bigs s (st # ss) r u"
| bigs_stop: "big s st r t \<Longrightarrow> r \<noteq> Normal \<Longrightarrow> bigs s (st # ss) r t"

text \<open>The statements that have a semantics, whatever the values are.\<close>

fun word_syntax :: "expr_t \<Rightarrow> bool" where
  "word_syntax (EXPR_LIT_INT _ n) = True"
| "word_syntax (EXPR_IDENT _ nm) = True"
| "word_syntax (EXPR_BINOP _ k l r) = (word_syntax l \<and> word_syntax r)"
| "word_syntax (EXPR_UNOP _ k e) = (k \<in> {NIB_NEG, NIB_NOT, NIB_LNOT} \<and> word_syntax e)"
| "word_syntax (EXPR_CAST _ e t) = (t = TYPE_U16 \<and> word_syntax e)"
| "word_syntax _ = False"

fun word_stmt :: "stmt_t \<Rightarrow> bool" where
  "word_stmt (STMT_ASSIGN _ ts e fcs) = ((case ts of [EXPR_IDENT _ _] \<Rightarrow> True | _ \<Rightarrow> False) \<and> word_syntax e \<and> fcs = [])"
| "word_stmt (STMT_EXPR _ e) = word_syntax e"
| "word_stmt (STMT_IF _ c th el) = (word_syntax c \<and> list_all word_stmt th \<and> list_all word_stmt el)"
| "word_stmt (STMT_WHILE _ c b) = (word_syntax c \<and> list_all word_stmt b)"
| "word_stmt (STMT_BREAK _) = True"
| "word_stmt (STMT_CONTINUE _) = True"
| "word_stmt _ = False"

section \<open>Scopes are left alone\<close>

definition still_rel :: "compiler \<Rightarrow> compiler \<Rightarrow> bool" where
  "still_rel C D \<longleftrightarrow> next_vreg C \<le> next_vreg D \<and> scope D = scope C \<and> isr_names D = isr_names C"

abbreviation still :: "'a comp \<Rightarrow> bool" where
  "still m \<equiv> does still_rel m"

interpretation still: effect still_rel
  by unfold_locales (auto simp: still_rel_def)

lemma still_modify: "(\<And>C. next_vreg (f C) = next_vreg C \<and> scope (f C) = scope C \<and> isr_names (f C) = isr_names C) \<Longrightarrow> still (modify f)"
  by (simp add: does_def modify_def still_rel_def)

lemma still_basic [does_rules]:
  "still alloc_vreg" "still alloc_label" "still (emit_nir l)" "still (ins n xs)" "still cerr" "still (cerr_if b)"
  by (auto simp: does_def still_rel_def alloc_vreg_def alloc_label_def emit_nir_def ins_def cerr_def cerr_if_def bnd_def
      gets_def andthen_def modify_def ret_def)

lemma still_reads [does_rules]:
  "still (sym_lookup nm)" "still (find_function nm)" "still (is_isr nm)" "still (type_size t)" "still (TV v t)" "still (TV_FAR v w)"
  by (auto simp: sym_lookup_def find_function_def is_isr_def type_size_def TV_def TV_FAR_def intro!: does_rules
      split: option.split)

lemma still_checks [does_rules]:
  "still (check_arith l r k)" "still (check_compare l r)" "still (check_shift v)" "still (value_fits d t)" "still (check_assign d t)"
  by (auto simp: check_arith_def check_compare_def check_shift_def value_fits_def check_assign_def intro!: does_rules)

lemma still_stack [does_rules]:
  "still (emit_stack_addr smb)" "still (emit_stack_local_value smb)" "still (emit_far_const a b)" "still (fresh_tv t)"
  by (auto simp: emit_stack_addr_def emit_stack_local_value_def emit_far_const_def fresh_tv_def intro!: does_rules)

lemma still_ident [does_rules]: "still (emit_ident nm)"
  by (auto simp: emit_ident_def intro!: does_rules split: option.split)

lemma still_ops [does_rules]:
  "still (binop_code k l imm r)" "still (unop_code k x)" "still (for_binop_code k t l imm r)" "still (for_unop_code k t x)"
  by (auto simp: binop_code_def unop_code_def for_binop_code_def for_unop_code_def intro!: does_rules split: option.split)

lemma still_unop_special [does_rules]: "k \<noteq> NIB_ADDR \<Longrightarrow> k \<noteq> NIB_FAR_ADDR \<Longrightarrow> still (unop_special k e)"
  by (rule doesI) (simp add: unop_special_none still_rel_def)

lemma still_for_default [does_rules]: "still m \<Longrightarrow> still (for_default t m)"
  by (auto simp: for_default_def intro!: does_rules)

lemma still_expr: "word_syntax e \<Longrightarrow> still (emit_expr_typed e) \<and> (\<forall>t. still (emit_expr_typed_for e t))"
proof (induction e rule: word_syntax.induct)
  case (3 ln k l r)
  then show ?case by (auto simp: emit_expr_typed_for.simps intro!: does_rules)
next
  case (4 ln k e)
  then show ?case by (auto simp: emit_expr_typed_for.simps intro!: does_rules split: option.split)
next
  case (5 ln e t)
  then show ?case by (auto simp: emit_expr_typed_for.simps [of "EXPR_CAST _ _ _"] intro!: does_rules)
qed (auto simp: emit_expr_typed_for.simps intro!: does_rules)

lemma still_line [does_rules]: "still (emit_line n)"
  by (auto simp: emit_line_def intro!: does_rules still_modify)

lemma still_cond: "word_syntax e \<Longrightarrow> still (emit_cond e)"
  using still_expr by (auto simp: emit_cond_def intro!: does_rules)

lemma still_scope_then: "still m \<Longrightarrow> still n \<Longrightarrow> still (andthen push_scope (andthen m (andthen pop_scope n)))"
  unfolding does_def still_rel_def andthen_Inr push_scope_def pop_scope_def modify_def by fastforce

lemma still_scope: "still m \<Longrightarrow> still (andthen push_scope (andthen m pop_scope))"
  using still_scope_then [of m "ret ()"] by (simp add: still.does_ret)

lemma still_if: "word_syntax c \<Longrightarrow> still th \<Longrightarrow> pred_option still el \<Longrightarrow> still (if_code c th el)"
  by (cases el) (auto simp: if_code_def intro!: does_rules still_cond still_scope_then)

lemma still_loop_body: "still m \<Longrightarrow> still (loop_body m)"
  by (auto simp: loop_body_def intro!: does_rules still_modify still_scope_then)

lemma still_in_loop: "still m \<Longrightarrow> still (in_loop a b m)"
  by (auto simp: in_loop_def intro!: does_rules still_modify)

lemma still_while: "word_syntax c \<Longrightarrow> still m \<Longrightarrow> still (while_code c m)"
  by (auto simp: while_code_def intro!: does_rules still_cond still_loop_body still_in_loop)

lemma still_loop_exit [does_rules]: "still (loop_exit f)"
  by (auto simp: loop_exit_def intro!: does_rules)

lemma still_stores [does_rules]: "still (store_stack smb v)" "still (store_global smb v)"
  by (auto simp: store_stack_def store_global_def intro!: does_rules)

lemma still_assign:
  assumes "word_syntax e"
  shows "still (assign_code [EXPR_IDENT m x] e)"
  using still_expr [OF assms]
  by (auto simp: assign_code_def assign_literal_def assign_target_type_def store_target_def is_reg_def
      intro!: does_rules split: option.split)

lemma still_stmts:
  "word_stmt st \<Longrightarrow> still (emit_stmt st)"
  "list_all word_stmt ss \<Longrightarrow> still (emit_stmt_list ss)"
  "(fc :: flag_case) = fc"
  "(fcs :: flag_case list) = fcs"
proof (induction st and ss and fc and fcs rule: emit_stmt_emit_stmt_list_emit_flag_check_emit_flag_checks.induct)
  case (2 ln ts e fcs)
  then show ?case using still_assign
    by (auto intro!: does_rules split: list.splits expr_t.splits)
next
  case (4 ln e)
  then show ?case using still_expr by (auto intro!: does_rules)
next
  case (5 ln c th el)
  then show ?case by (auto intro!: does_rules still_if)
next
  case (6 ln c body)
  then show ?case by (auto intro!: does_rules still_while)
qed (auto intro!: does_rules)


section \<open>The machine\<close>

text \<open>A line with the number of its position: labels are passed, \<^verbatim>\<open>jmp\<close> and \<^verbatim>\<open>jz\<close> go to the
  position of their label, every other line is run and the next one follows.\<close>

definition label_at :: "nir list \<Rightarrow> int \<Rightarrow> nat" where
  "label_at P l = length (takeWhile (\<lambda>x. x \<noteq> NLabel l) P)"

definition nir_move :: "nir list \<Rightarrow> nat \<times> regs \<Rightarrow> (nat \<times> regs) option" where
  "nir_move P s =
     (case s of
        (pc, g) \<Rightarrow>
          if pc \<ge> length P then None
          else (case P ! pc of
                  NLabel _ \<Rightarrow> Some (pc + 1, g)
                | Ins n xs \<Rightarrow>
                    (case xs of
                       [Lb l] \<Rightarrow> if n = ''jmp'' then Some (label_at P l, g) else None
                     | [Vr c, Lb l] \<Rightarrow> if n = ''jz'' then Some (if g c = 0 then label_at P l else pc + 1, g) else None
                     | _ \<Rightarrow> map_option (Pair (pc + 1)) (nir_step (P ! pc) g))
                | l \<Rightarrow> map_option (Pair (pc + 1)) (nir_step l g)))"

abbreviation reach :: "nir list \<Rightarrow> nat \<times> regs \<Rightarrow> nat \<times> regs \<Rightarrow> bool" where
  "reach P \<equiv> (\<lambda>s t. nir_move P s = Some t)\<^sup>*\<^sup>*"

lemma label_at_here:
  assumes "distinct (label_defs P)" "P = xs @ NLabel l # ys"
  shows "label_at P l = length xs"
proof -
  have "l \<notin> set (label_defs xs)" using assms by auto
  then have "NLabel l \<notin> set xs" by (auto simp: label_defs_def List.map_filter_def split: nir.splits intro: rev_image_eqI)
  then have "takeWhile (\<lambda>x. x \<noteq> NLabel l) (xs @ NLabel l # ys) = xs" by (subst takeWhile_append2) auto
  then show ?thesis by (simp add: label_at_def assms(2))
qed

lemma prefix_line: "prefix (xs @ l # ys) P \<Longrightarrow> length xs < length P \<and> P ! length xs = l"
  by (auto simp: prefix_def)

lemma prefix_drop: "prefix (xs @ ys) P \<Longrightarrow> prefix xs P"
  by (auto simp: prefix_def)

lemma step_move:
  assumes "nir_step l g = Some h" "prefix (xs @ l # ys) P"
  shows "nir_move P (length xs, g) = Some (Suc (length xs), h)"
  using assms(1) prefix_line [OF assms(2)]
  by (auto simp: nir_move_def nir_step_def opnd_word_def split: nir.splits list.splits nir_opnd.splits option.splits)

lemma run_reach: "nir_run ls g = Some h \<Longrightarrow> prefix (xs @ ls) P \<Longrightarrow> reach P (length xs, g) (length (xs @ ls), h)"
proof (induction ls arbitrary: xs g)
  case (Cons l ls)
  then obtain i where i: "nir_step l g = Some i" "nir_run ls i = Some h" by (auto split: option.splits)
  have "reach P (length (xs @ [l]), i) (length ((xs @ [l]) @ ls), h)"
    by (rule Cons.IH [OF i(2)]) (use Cons.prems in simp)
  then show ?case using step_move [OF i(1) Cons.prems(2)] by (auto intro: converse_rtranclp_into_rtranclp)
qed simp

lemma label_move: "prefix (xs @ NLabel l # ys) P \<Longrightarrow> nir_move P (length xs, g) = Some (Suc (length xs), g)"
  by (drule prefix_line) (simp add: nir_move_def)

lemma jmp_move: "prefix (xs @ Ins ''jmp'' [Lb l] # ys) P \<Longrightarrow> nir_move P (length xs, g) = Some (label_at P l, g)"
  by (drule prefix_line) (simp add: nir_move_def)

lemma jz_move: "prefix (xs @ Ins ''jz'' [Vr c, Lb l] # ys) P \<Longrightarrow>
    nir_move P (length xs, g) = Some (if g c = 0 then label_at P l else Suc (length xs), g)"
  by (drule prefix_line) (simp add: nir_move_def)


section \<open>Variables\<close>

text \<open>The names mean in \<open>C\<close> what they mean in \<open>B\<close>; further registers may be in use.\<close>

definition sees :: "compiler \<Rightarrow> compiler \<Rightarrow> bool" where
  "sees B C \<longleftrightarrow> next_vreg B \<le> next_vreg C \<and> (\<forall>x. lookup_in (scope C) x = lookup_in (scope B) x) \<and> isr_names C = isr_names B"

definition vars_apart :: "compiler \<Rightarrow> vars \<Rightarrow> bool" where
  "vars_apart B s \<longleftrightarrow>
     (\<forall>x\<in>dom s. \<forall>y\<in>dom s. \<forall>a b. lookup_in (scope B) x = Some a \<longrightarrow> lookup_in (scope B) y = Some b \<longrightarrow>
        sy_vreg a = sy_vreg b \<longrightarrow> x = y)"

definition in_regs :: "compiler \<Rightarrow> vars \<Rightarrow> regs \<Rightarrow> bool" where
  "in_regs B s g \<longleftrightarrow> holds_vars B s g \<and> vars_apart B s"

lemma sees_refl: "sees B B"
  by (simp add: sees_def)

lemma sees_still: "sees B C \<Longrightarrow> still_rel C D \<Longrightarrow> sees B D"
  by (auto simp: sees_def still_rel_def)

lemma sees_scope: "sees B C \<Longrightarrow> next_vreg D = next_vreg C \<Longrightarrow> scope D = [] # scope C \<Longrightarrow> isr_names D = isr_names C \<Longrightarrow> sees B D"
  by (auto simp: sees_def lookup_in_def)

lemma in_regs_sees: "in_regs B s g \<Longrightarrow> sees B C \<Longrightarrow> holds_vars C s g"
  unfolding in_regs_def holds_vars_def sees_def word_local_def by fastforce

lemma in_regs_frame: "in_regs B s g \<Longrightarrow> \<forall>x<next_vreg B. h x = g x \<Longrightarrow> in_regs B s h"
  unfolding in_regs_def holds_vars_def word_local_def by fastforce

lemma in_regs_lookup:
  assumes "in_regs B s g" "s x \<noteq> None" "sees B C"
  obtains smb where "lookup_in (scope C) x = Some smb" "word_local B smb"
  using assms unfolding in_regs_def holds_vars_def sees_def by fastforce

lemma vars_apart_dom: "vars_apart B s \<Longrightarrow> dom t = dom s \<Longrightarrow> vars_apart B t"
  by (simp only: vars_apart_def)

lemma in_regs_update:
  assumes "in_regs B s g" "s x \<noteq> None" "lookup_in (scope B) x = Some smb"
  shows "in_regs B (s(x \<mapsto> w)) (g(sy_vreg smb := w))"
proof -
  have "dom (s(x \<mapsto> w)) = dom s" using assms(2) by auto
  then have "vars_apart B (s(x \<mapsto> w))" using assms(1) vars_apart_dom unfolding in_regs_def by blast
  moreover have "holds_vars B (s(x \<mapsto> w)) (g(sy_vreg smb := w))"
    unfolding holds_vars_def
  proof (intro allI impI)
    fix y v assume y: "(s(x \<mapsto> w)) y = Some v"
    show "y \<notin> set (isr_names B) \<and>
        (\<exists>a. lookup_in (scope B) y = Some a \<and> word_local B a \<and> (g(sy_vreg smb := w)) (sy_vreg a) = v)"
    proof (cases "y = x")
      case True
      then show ?thesis using assms y unfolding in_regs_def holds_vars_def by fastforce
    next
      case False
      then have sy: "s y = Some v" using y by simp
      then obtain a where a: "y \<notin> set (isr_names B)" "lookup_in (scope B) y = Some a" "word_local B a" "g (sy_vreg a) = v"
        using assms(1) unfolding in_regs_def holds_vars_def by blast
      have "sy_vreg a \<noteq> sy_vreg smb"
        using assms sy a(2) False unfolding in_regs_def vars_apart_def by (metis domI domIff)
      with a show ?thesis by simp
    qed
  qed
  ultimately show ?thesis by (simp add: in_regs_def)
qed

lemma lookup_sees: "sees B C \<Longrightarrow> lookup_in (scope C) x = lookup_in (scope B) x"
  by (simp add: sees_def)

section \<open>Assignments and conditions\<close>

definition runs :: "compiler \<Rightarrow> regs \<Rightarrow> compiler \<Rightarrow> regs \<Rightarrow> bool" where
  "runs C g D h \<longleftrightarrow> (\<exists>ls. nir D = nir C @ ls \<and> nir_run ls g = Some h)"

lemma runs_reach: "runs C g D h \<Longrightarrow> prefix (nir D) P \<Longrightarrow> reach P (length (nir C), g) (length (nir D), h)"
  unfolding runs_def by (metis run_reach)

lemma runs_trans: "runs C g D h \<Longrightarrow> runs D h E i \<Longrightarrow> runs C g E i"
  unfolding runs_def by (auto simp: nir_run_append)

lemma runs_same: "nir D = nir C \<Longrightarrow> runs C g D g"
  by (simp add: runs_def)

lemma advances_runs: "advances b C g D h \<Longrightarrow> runs C g D h"
  by (auto simp: advances_def runs_def)

lemma runs_line: "nir_step l g = Some h \<Longrightarrow> nir D = nir C @ [l] \<Longrightarrow> runs C g D h"
  by (simp add: runs_def)

lemma line_runs: "emit_line n C = Inr (u, D) \<Longrightarrow> runs C g D g"
  by (auto simp: emit_line_def runs_def run_simps nir_step_def split: if_splits)

lemma cond_runs:
  assumes "emit_cond c C = Inr (v, D)" "word_expr s c = Some w" "in_regs B s g" "sees B C"
  shows "\<exists>h. runs C g D h \<and> h v = w \<and> in_regs B s h"
proof -
  obtain x E h where E: "emit_expr_typed c C = Inr (x, E)" "advances (next_vreg C) C g E h" "h (tv_vreg x) = w"
    using emit_expr_yields [OF assms(2) in_regs_sees [OF assms(3,4)]] by (auto simp: yields_def)
  have D: "v = tv_vreg x" "nir D = nir E" using assms(1) E(1) by (auto simp: emit_cond_def run_simps cerr_if_run)
  have "in_regs B s h"
    by (rule in_regs_frame [OF assms(3)]) (use E(2) assms(4) in \<open>auto simp: advances_def sees_def\<close>)
  with D E show ?thesis by (auto simp: runs_def advances_def)
qed


lemma check_assign_word:
  assumes "word_type t"
  obtains D where "check_assign (Some TYPE_U16) t C = Inr ((), D)" "same_code C D"
  using assms unfolding word_type_def
  by (elim disjE; simp add: check_assign_def value_fits_def types_equal_def type_is_integer_def type_size_def type_size_of_def
      run_simps cerr_if_run same_code_def)

lemma mov_runs: "opnd_word g x = Some w \<Longrightarrow> runs C g (C\<lparr>nir := nir C @ [Ins ''mov'' [Vr d, x]]\<rparr>) (g(d := w))"
  by (rule runs_line [OF step_mov]) simp_all

text \<open>The store of a computed value to a word variable.\<close>

lemma store_target_runs:
  assumes "store_target (EXPR_IDENT m x) v C = Inr (u, D)" "lookup_in (scope C) x = Some smb" "word_local B smb"
    and "g (tv_vreg v) = w" "word_type (tv_type v)"
  shows "runs C g D (g(sy_vreg smb := w))"
proof -
  obtain E where E: "check_assign (Some TYPE_U16) (tv_type v) C = Inr ((), E)" "same_code C E"
    using check_assign_word [OF assms(5)] by blast
  have "D = E\<lparr>nir := nir E @ [Ins ''mov'' [Vr (sy_vreg smb), Vr (tv_vreg v)]]\<rparr>"
    using assms(1-3) E(1) by (simp add: store_target_def sym_lookup_def word_local_def run_simps)
  moreover have "opnd_word g (Vr (tv_vreg v)) = Some w" by (simp add: opnd_word_def assms(4))
  ultimately have "runs E g D (g(sy_vreg smb := w))" by (simp add: mov_runs)
  with E(2) show ?thesis by (simp add: runs_def same_code_def)
qed

lemma assign_runs:
  assumes "assign_code [EXPR_IDENT m x] e C = Inr (b, D)" "word_expr s e = Some w" "s x \<noteq> None" "in_regs B s g" "sees B C"
  shows "\<exists>h. runs C g D h \<and> in_regs B (s(x \<mapsto> w)) h"
proof -
  obtain smb where smb: "lookup_in (scope C) x = Some smb" "word_local B smb"
    using in_regs_lookup [OF assms(4,3,5)] by blast
  have look: "lookup_in (scope B) x = Some smb" using smb(1) lookup_sees [OF assms(5)] by simp
  have upd: "in_regs B s g \<Longrightarrow> in_regs B (s(x \<mapsto> w)) (g(sy_vreg smb := w))" for g
    using in_regs_update [where s = s and x = x and w = w and smb = smb] assms(3) look by blast
  define C1 where "C1 = C\<lparr>cerrors := cerrors C + (if is_const smb then 1 else 0)\<rparr>"
  have C1: "nir C1 = nir C" "scope C1 = scope C" "sees B C1" using assms(5) by (simp_all add: C1_def sees_def)
  show ?thesis
  proof (cases "lit_int e")
    case (Some n)
    then have w: "w = word_of_int n" using assms(2) by (auto simp: lit_int_def split: expr_t.splits)
    have "D = C1\<lparr>nir := nir C1 @ [Ins ''mov'' [Vr (sy_vreg smb), Im n]]\<rparr>"
      using assms(1) smb Some C1(2)
      by (simp add: assign_code_def assign_literal_def sym_lookup_def word_local_def run_simps cerr_if_run C1_def)
    then have "runs C1 g D (g(sy_vreg smb := w))" by (simp add: mov_runs opnd_word_def w)
    then have "runs C g D (g(sy_vreg smb := w))" by (simp add: runs_def C1(1))
    then show ?thesis using upd [OF assms(4)] by blast
  next
    case None
    obtain v E h where E: "emit_expr_typed_for e (Some TYPE_U16) C1 = Inr (v, E)" "advances (next_vreg C1) C1 g E h"
        "h (tv_vreg v) = w" "word_type (tv_type v)"
      using conjunct2 [OF emit_expr_yields [OF assms(2) in_regs_sees [OF assms(4) C1(3)]], rule_format, of "Some TYPE_U16"]
      by (auto simp: yields_def)
    have "store_target (EXPR_IDENT m x) v E = Inr ((), D)"
      using assms(1) smb None E(1) C1(2)
      by (simp add: assign_code_def assign_literal_def assign_target_type_def sym_lookup_def word_local_def bnd_def andthen_def
          gets_def ret_def cerr_if_run C1_def split: sum.splits prod.splits)
    moreover have "lookup_in (scope E) x = Some smb" using E(2) smb(1) C1(2) by (simp add: advances_def)
    ultimately have 1: "runs E h D (h(sy_vreg smb := w))" using store_target_runs smb(2) E(3,4) by blast
    have 2: "runs C g E h" using advances_runs [OF E(2)] by (simp add: runs_def C1(1))
    have "in_regs B s h" by (rule in_regs_frame [OF assms(4)]) (use E(2) C1(3) in \<open>auto simp: advances_def sees_def\<close>)
    with runs_trans [OF 2 1] upd show ?thesis by blast
  qed
qed


section \<open>The parts of the code of a statement\<close>

fun stmt_code :: "stmt_t \<Rightarrow> unit comp" where
  "stmt_code (STMT_ASSIGN _ ts e fcs) = bnd (assign_code ts e) (\<lambda>checks. if checks then emit_flag_checks fcs else ret ())"
| "stmt_code (STMT_EXPR _ e) = bnd (emit_expr_typed e) (\<lambda>_. ret ())"
| "stmt_code (STMT_IF _ c th el) = if_code c (emit_stmt_list th) (if el = [] then None else Some (emit_stmt_list el))"
| "stmt_code (STMT_WHILE _ c b) = while_code c (emit_stmt_list b)"
| "stmt_code (STMT_BREAK _) = loop_exit loop_break_label"
| "stmt_code (STMT_CONTINUE _) = loop_exit loop_continue_label"
| "stmt_code _ = ret ()"

lemma emit_stmt_code: "word_stmt st \<Longrightarrow> \<exists>ln. emit_stmt st = andthen (emit_line ln) (stmt_code st)"
  by (cases st) auto

lemma flow_parts:
  assumes "flow m" "m C = Inr (u, D)"
  shows "prefix (nir C) (nir D)" "loop_state D = loop_state C"
  using doesD [OF assms] by (auto simp: flow_rel_def prefix_def)

lemma cond_parts:
  assumes "emit_cond c C = Inr (v, D)"
  shows "prefix (nir C) (nir D)" "loop_state D = loop_state C"
  using flow_parts [OF plain_is_flow [OF plain_emit_cond] assms] by auto

lemma while_parts:
  assumes "while_code c m C = Inr (u, D)"
  obtains top_l end_l v C2 C3 C5 C6 where
    "nir C2 = nir C @ [NLabel top_l]" "still_rel C C2" "emit_cond c C2 = Inr (v, C3)"
    "nir C5 = nir C3 @ [Ins ''jz'' [Vr v, Lb end_l]]" "next_vreg C5 = next_vreg C3" "scope C5 = [] # scope C3"
    "isr_names C5 = isr_names C3" "loop_break_label C5 = end_l" "loop_continue_label C5 = top_l"
    "loop_depth C5 = loop_depth C + 1" "m C5 = Inr ((), C6)" "nir D = nir C6 @ [Ins ''jmp'' [Lb top_l], NLabel end_l]"
proof -
  let ?l = "next_label C"
  let ?C2 = "C\<lparr>next_label := ?l + 2, loop_break_label := ?l + 1, loop_continue_label := ?l, nir := nir C @ [NLabel ?l]\<rparr>"
  have 1: "\<exists>v C3 C6. emit_cond c ?C2 = Inr (v, C3) \<and>
      m (C3\<lparr>nir := nir C3 @ [Ins ''jz'' [Vr v, Lb (?l + 1)]], loop_depth := loop_depth C3 + 1, scope := [] # scope C3\<rparr>) =
        Inr ((), C6) \<and> nir D = nir C6 @ [Ins ''jmp'' [Lb ?l], NLabel (?l + 1)]"
    using assms
    by (auto simp: while_code_def in_loop_def loop_body_def bnd_Inr andthen_Inr alloc_label_def modify_def gets_def ret_def
        emit_nir_def ins_def push_scope_def pop_scope_def add.commute)
  then obtain v C3 C6 where v: "emit_cond c ?C2 = Inr (v, C3)"
      "m (C3\<lparr>nir := nir C3 @ [Ins ''jz'' [Vr v, Lb (?l + 1)]], loop_depth := loop_depth C3 + 1, scope := [] # scope C3\<rparr>) =
        Inr ((), C6)" "nir D = nir C6 @ [Ins ''jmp'' [Lb ?l], NLabel (?l + 1)]"
    by blast
  show ?thesis
    by (rule that [OF _ _ v(1) _ _ _ _ _ _ _ v(2,3)]) (use cond_parts(2) [OF v(1)] in \<open>simp_all add: still_rel_def loop_state_def\<close>)
qed

lemma if_parts:
  assumes "if_code c th el C = Inr (u, D)"
  obtains else_l v C1 C2 C3 where
    "emit_cond c C = Inr (v, C1)" "nir C2 = nir C1 @ [Ins ''jz'' [Vr v, Lb else_l]]" "next_vreg C2 = next_vreg C1"
    "scope C2 = [] # scope C1" "isr_names C2 = isr_names C1" "loop_state C2 = loop_state C" "th C2 = Inr ((), C3)"
    "case el of None \<Rightarrow> nir D = nir C3 @ [NLabel else_l]
     | Some m \<Rightarrow> \<exists>end_l C4 C5. nir C4 = nir C3 @ [Ins ''jmp'' [Lb end_l], NLabel else_l] \<and> next_vreg C4 = next_vreg C3 \<and>
         scope C4 = [] # tl (scope C3) \<and> isr_names C4 = isr_names C3 \<and> loop_state C4 = loop_state C3 \<and>
         m C4 = Inr ((), C5) \<and> nir D = nir C5 @ [NLabel end_l]"
proof -
  have "\<exists>v C1. emit_cond c C = Inr (v, C1) \<and> (\<exists>C3. th (C1\<lparr>next_label := next_label C1 + 2, nir := nir C1 @
        [Ins ''jz'' [Vr v, Lb (next_label C1)]], scope := [] # scope C1\<rparr>) = Inr ((), C3) \<and>
      (case el of None \<Rightarrow> nir D = nir C3 @ [NLabel (next_label C1)]
       | Some m \<Rightarrow> \<exists>C5. m (C3\<lparr>nir := nir C3 @ [Ins ''jmp'' [Lb (next_label C1 + 1)], NLabel (next_label C1)], scope := [] # tl (scope C3)\<rparr>) =
           Inr ((), C5) \<and> nir D = nir C5 @ [NLabel (next_label C1 + 1)]))"
    using assms
    by (cases el) (auto simp: if_code_def bnd_Inr andthen_Inr alloc_label_def modify_def gets_def ret_def
        emit_nir_def ins_def push_scope_def pop_scope_def add.commute)
  then obtain v C1 C3 where v: "emit_cond c C = Inr (v, C1)"
      "th (C1\<lparr>next_label := next_label C1 + 2, nir := nir C1 @
        [Ins ''jz'' [Vr v, Lb (next_label C1)]], scope := [] # scope C1\<rparr>) = Inr ((), C3)"
      "(case el of None \<Rightarrow> nir D = nir C3 @ [NLabel (next_label C1)]
       | Some m \<Rightarrow> \<exists>C5. m (C3\<lparr>nir := nir C3 @ [Ins ''jmp'' [Lb (next_label C1 + 1)], NLabel (next_label C1)], scope := [] # tl (scope C3)\<rparr>) =
           Inr ((), C5) \<and> nir D = nir C5 @ [NLabel (next_label C1 + 1)])"
    by blast
  have e: "case el of None \<Rightarrow> nir D = nir C3 @ [NLabel (next_label C1)]
     | Some m \<Rightarrow> \<exists>end_l C4 C5. nir C4 = nir C3 @ [Ins ''jmp'' [Lb end_l], NLabel (next_label C1)] \<and> next_vreg C4 = next_vreg C3 \<and>
         scope C4 = [] # tl (scope C3) \<and> isr_names C4 = isr_names C3 \<and> loop_state C4 = loop_state C3 \<and>
         m C4 = Inr ((), C5) \<and> nir D = nir C5 @ [NLabel end_l]"
  proof (cases el)
    case (Some m)
    with v(3) obtain C5 where
      "m (C3\<lparr>nir := nir C3 @ [Ins ''jmp'' [Lb (next_label C1 + 1)], NLabel (next_label C1)], scope := [] # tl (scope C3)\<rparr>) = Inr ((), C5)"
      "nir D = nir C5 @ [NLabel (next_label C1 + 1)]" by auto
    then have "\<exists>end_l C4 C5. nir C4 = nir C3 @ [Ins ''jmp'' [Lb end_l], NLabel (next_label C1)] \<and> next_vreg C4 = next_vreg C3 \<and>
       scope C4 = [] # tl (scope C3) \<and> isr_names C4 = isr_names C3 \<and> loop_state C4 = loop_state C3 \<and>
       m C4 = Inr ((), C5) \<and> nir D = nir C5 @ [NLabel end_l]"
      by (intro exI conjI) (auto simp: loop_state_def)
    with Some show ?thesis by simp
  qed (use v(3) in simp)
  show ?thesis
    by (rule that [OF v(1) _ _ _ _ _ v(2) e]) (use cond_parts(2) [OF v(1)] in \<open>simp_all add: loop_state_def\<close>)
qed

section \<open>Simulation\<close>

definition exit_pc :: "nir list \<Rightarrow> compiler \<Rightarrow> compiler \<Rightarrow> outcome \<Rightarrow> nat" where
  "exit_pc P C D r =
     (case r of Normal \<Rightarrow> length (nir D) | Broken \<Rightarrow> label_at P (loop_break_label C) | Continued \<Rightarrow> label_at P (loop_continue_label C))"

text \<open>\<open>simulates P B s m r t\<close>: wherever \<open>m\<close> writes its code in \<open>P\<close>, the machine runs it from the
  variables \<open>s\<close> to the exit for \<open>r\<close> with the variables \<open>t\<close>.\<close>

definition simulates :: "nir list \<Rightarrow> compiler \<Rightarrow> vars \<Rightarrow> unit comp \<Rightarrow> outcome \<Rightarrow> vars \<Rightarrow> bool" where
  "simulates P B s m r t \<longleftrightarrow>
     (\<forall>C D g. m C = Inr ((), D) \<longrightarrow> prefix (nir D) P \<longrightarrow> sees B C \<longrightarrow> in_regs B s g \<longrightarrow> 0 \<le> loop_depth C \<longrightarrow>
        (r \<noteq> Normal \<longrightarrow> loop_depth C \<noteq> 0) \<longrightarrow>
        (\<exists>h. reach P (length (nir C), g) (exit_pc P C D r, h) \<and> in_regs B t h))"

lemma simulatesD:
  assumes "simulates P B s m r t" "m C = Inr ((), D)" "prefix (nir D) P" "sees B C" "in_regs B s g" "0 \<le> loop_depth C"
    "r \<noteq> Normal \<Longrightarrow> loop_depth C \<noteq> 0"
  obtains h where "reach P (length (nir C), g) (exit_pc P C D r, h)" "in_regs B t h"
  using assms unfolding simulates_def by blast

lemma loop_state_exit: "loop_state D = loop_state C \<Longrightarrow> r \<noteq> Normal \<Longrightarrow> exit_pc P D E r = exit_pc P C E' r"
  by (cases r) (auto simp: exit_pc_def loop_state_def)

lemma reach_trans: "reach P a b \<Longrightarrow> reach P b c \<Longrightarrow> reach P a c"
  by (rule rtranclp_trans)

lemma reach_move: "nir_move P a = Some b \<Longrightarrow> reach P b c \<Longrightarrow> reach P a c"
  by (rule converse_rtranclp_into_rtranclp)

lemma reach_one: "nir_move P a = Some b \<Longrightarrow> reach P a b"
  by (rule r_into_rtranclp)

lemma simulates_runs:
  assumes "\<And>C D g. m C = Inr ((), D) \<Longrightarrow> sees B C \<Longrightarrow> in_regs B s g \<Longrightarrow> \<exists>h. runs C g D h \<and> in_regs B t h"
  shows "simulates P B s m Normal t"
  unfolding simulates_def exit_pc_def outcome.case using assms runs_reach by blast

lemma simulates_seq:
  assumes "simulates P B s m Normal t" "simulates P B t n r u" "flow m" "flow n" "still m"
  shows "simulates P B s (andthen m n) r u"
  unfolding simulates_def
proof (intro allI impI)
  fix C D g
  assume a: "andthen m n C = Inr ((), D)" "prefix (nir D) P" "sees B C" "in_regs B s g" "0 \<le> loop_depth C"
    "r \<noteq> Normal \<longrightarrow> loop_depth C \<noteq> 0"
  then obtain E where E: "m C = Inr ((), E)" "n E = Inr ((), D)" by (auto simp: andthen_Inr)
  note fm = flow_parts [OF assms(3) E(1)] and fn = flow_parts [OF assms(4) E(2)]
  have sE: "sees B E" using a(3) doesD [OF assms(5) E(1)] by (rule sees_still)
  obtain h where h: "reach P (length (nir C), g) (exit_pc P C E Normal, h)" "in_regs B t h"
    using simulatesD [OF assms(1) E(1) prefix_order.trans [OF fn(1) a(2)] a(3,4,5)] by blast
  have "loop_depth E = loop_depth C" using fm(2) by (simp add: loop_state_def)
  then obtain i where i: "reach P (length (nir E), h) (exit_pc P E D r, i)" "in_regs B u i"
    using simulatesD [OF assms(2) E(2) a(2) sE h(2)] a(5,6) by metis
  have "exit_pc P E D r = exit_pc P C D r" using fm(2) by (cases r) (auto simp: exit_pc_def loop_state_def)
  with reach_trans [OF h(1)] i show "\<exists>h. reach P (length (nir C), g) (exit_pc P C D r, h) \<and> in_regs B u h"
    by (auto simp: exit_pc_def)
qed

lemma simulates_stop:
  assumes "simulates P B s m r t" "r \<noteq> Normal" "flow n"
  shows "simulates P B s (andthen m n) r t"
  unfolding simulates_def
proof (intro allI impI)
  fix C D g
  assume a: "andthen m n C = Inr ((), D)" "prefix (nir D) P" "sees B C" "in_regs B s g" "0 \<le> loop_depth C"
    "r \<noteq> Normal \<longrightarrow> loop_depth C \<noteq> 0"
  then obtain E where E: "m C = Inr ((), E)" "n E = Inr ((), D)" by (auto simp: andthen_Inr)
  obtain h where "reach P (length (nir C), g) (exit_pc P C E r, h)" "in_regs B t h"
    using simulatesD [OF assms(1) E(1) prefix_order.trans [OF flow_parts(1) [OF assms(3) E(2)] a(2)] a(3,4,5)] a(6) by blast
  moreover have "exit_pc P C E r = exit_pc P C D r" by (rule loop_state_exit) (simp_all add: assms(2))
  ultimately show "\<exists>h. reach P (length (nir C), g) (exit_pc P C D r, h) \<and> in_regs B t h" by auto
qed

lemma simulates_line: "simulates P B s m r t \<Longrightarrow> flow m \<Longrightarrow> simulates P B s (andthen (emit_line ln) m) r t"
  by (rule simulates_seq [OF simulates_runs _ plain_is_flow [OF plain_emit_line] _ still_line]) (auto dest: line_runs)


lemma label_at_prefix: "distinct (label_defs P) \<Longrightarrow> prefix (xs @ NLabel l # ys) P \<Longrightarrow> label_at P l = length xs"
  by (auto simp: prefix_def intro!: label_at_here)

lemma sees_inner:
  assumes "sees B C" "still_rel C D" "next_vreg D \<le> next_vreg E" "scope E = [] # scope D" "isr_names E = isr_names D"
  shows "sees B E"
  using assms by (auto simp: sees_def still_rel_def lookup_in_def)

text \<open>The test of a conditional: its two exits.\<close>

lemma test_reach:
  assumes "emit_cond c C = Inr (v, D)" "word_expr s c = Some w" "in_regs B s g" "sees B C"
    "prefix (nir D @ Ins ''jz'' [Vr v, Lb l] # ys) P"
  shows "\<exists>h. reach P (length (nir C), g) (if w = 0 then label_at P l else Suc (length (nir D)), h) \<and> in_regs B s h"
proof -
  obtain h where h: "runs C g D h" "h v = w" "in_regs B s h" using cond_runs [OF assms(1-4)] by blast
  have "reach P (length (nir C), g) (length (nir D), h)" by (rule runs_reach [OF h(1) prefix_drop [OF assms(5)]])
  then have "reach P (length (nir C), g) (if h v = 0 then label_at P l else Suc (length (nir D)), h)"
    using jz_move [OF assms(5), of h] by (rule rtranclp.rtrancl_into_rtrancl)
  with h(2,3) show ?thesis by auto
qed

text \<open>Behind the first branch: over the second one to the end.\<close>

lemma after_then:
  assumes "case el of None \<Rightarrow> nir D = nir C3 @ [NLabel else_l]
     | Some m \<Rightarrow> \<exists>end_l C4 C5. nir C4 = nir C3 @ [Ins ''jmp'' [Lb end_l], NLabel else_l] \<and> next_vreg C4 = next_vreg C3 \<and>
         scope C4 = [] # tl (scope C3) \<and> isr_names C4 = isr_names C3 \<and> loop_state C4 = loop_state C3 \<and>
         m C4 = Inr ((), C5) \<and> nir D = nir C5 @ [NLabel end_l]"
    and "prefix (nir D) P" "pred_option flow el" "distinct (label_defs P)"
  shows "prefix (nir C3) P" "reach P (length (nir C3), h) (length (nir D), h)"
proof -
  have "prefix (nir C3) P \<and> reach P (length (nir C3), h) (length (nir D), h)"
  proof (cases el)
      case None
      then have e: "prefix (nir C3 @ NLabel else_l # []) P" "nir D = nir C3 @ [NLabel else_l]" using assms(1,2) by auto
      have "reach P (length (nir C3), h) (Suc (length (nir C3)), h)" by (rule reach_one [OF label_move [OF e(1)]])
      then show ?thesis using prefix_drop [OF e(1)] e(2) by simp
    next
      case (Some m)
      then obtain end_l C4 C5 where q: "nir C4 = nir C3 @ [Ins ''jmp'' [Lb end_l], NLabel else_l]" "m C4 = Inr ((), C5)"
        "nir D = nir C5 @ [NLabel end_l]" using assms(1) by auto
      have e: "prefix (nir C5 @ NLabel end_l # []) P" using assms(2) q(3) by simp
      have "prefix (nir C4) (nir C5)" using flow_parts(1) [of m, OF _ q(2)] assms(3) Some by simp
      then have j: "prefix (nir C3 @ Ins ''jmp'' [Lb end_l] # [NLabel else_l]) P"
        using q(1) prefix_drop [OF e] by (metis prefix_order.trans)
      have "reach P (length (nir C3), h) (length (nir D), h)"
        using reach_move [OF jmp_move [OF j] reach_one [OF label_move [OF e, folded label_at_prefix [OF assms(4) e]]]]
        by (simp add: label_at_prefix [OF assms(4) e] q(3))
      then show ?thesis using prefix_drop [OF j] by simp
    qed
  then show "prefix (nir C3) P" "reach P (length (nir C3), h) (length (nir D), h)" by simp_all
qed

lemma simulates_then:
  assumes "word_expr s c = Some w" "w \<noteq> 0" "word_syntax c" "simulates P B s th r t" "flow th" "pred_option flow el" "distinct (label_defs P)"
  shows "simulates P B s (if_code c th el) r t"
  unfolding simulates_def
proof (intro allI impI)
  fix C D g
  assume a: "if_code c th el C = Inr ((), D)" "prefix (nir D) P" "sees B C" "in_regs B s g" "0 \<le> loop_depth C"
    "r \<noteq> Normal \<longrightarrow> loop_depth C \<noteq> 0"
  obtain else_l v C1 C2 C3 where p: "emit_cond c C = Inr (v, C1)" "nir C2 = nir C1 @ [Ins ''jz'' [Vr v, Lb else_l]]"
    "next_vreg C2 = next_vreg C1" "scope C2 = [] # scope C1" "isr_names C2 = isr_names C1" "loop_state C2 = loop_state C"
    "th C2 = Inr ((), C3)"
    "case el of None \<Rightarrow> nir D = nir C3 @ [NLabel else_l]
     | Some m \<Rightarrow> \<exists>end_l C4 C5. nir C4 = nir C3 @ [Ins ''jmp'' [Lb end_l], NLabel else_l] \<and> next_vreg C4 = next_vreg C3 \<and>
         scope C4 = [] # tl (scope C3) \<and> isr_names C4 = isr_names C3 \<and> loop_state C4 = loop_state C3 \<and>
         m C4 = Inr ((), C5) \<and> nir D = nir C5 @ [NLabel end_l]"
    by (rule if_parts [OF a(1)])
  note tail = after_then [OF p(8) a(2) assms(6,7)]
  have j: "prefix (nir C1 @ Ins ''jz'' [Vr v, Lb else_l] # []) P"
    using tail(1) flow_parts(1) [OF assms(5) p(7)] p(2) by (metis prefix_order.trans)
  obtain h where h: "reach P (length (nir C), g) (length (nir C2), h)" "in_regs B s h"
    using test_reach [OF p(1) assms(1) a(4,3) j] assms(2) p(2) by auto
  have "sees B C2" by (rule sees_inner [OF a(3) doesD [OF still_cond [OF assms(3)] p(1)] _ p(4,5)]) (simp add: p(3))
  moreover have "loop_depth C2 = loop_depth C" using p(6) by (simp add: loop_state_def)
  ultimately obtain i where i: "reach P (length (nir C2), h) (exit_pc P C2 C3 r, i)" "in_regs B t i"
    using simulatesD [OF assms(4) p(7) tail(1) _ h(2)] a(5,6) by metis
  have "reach P (exit_pc P C2 C3 r, i) (exit_pc P C D r, i)"
    using tail(2) [of i] p(6) by (cases r) (auto simp: exit_pc_def loop_state_def)
  with h i show "\<exists>h. reach P (length (nir C), g) (exit_pc P C D r, h) \<and> in_regs B t h" by (blast intro: reach_trans)
qed


lemma simulates_else_none:
  assumes "word_expr s c = Some 0" "flow th" "distinct (label_defs P)"
  shows "simulates P B s (if_code c th None) Normal s"
  unfolding simulates_def
proof (intro allI impI)
  fix C D g
  assume a: "if_code c th None C = Inr ((), D)" "prefix (nir D) P" "sees B C" "in_regs B s g"
  obtain else_l v C1 C2 C3 where p: "emit_cond c C = Inr (v, C1)" "nir C2 = nir C1 @ [Ins ''jz'' [Vr v, Lb else_l]]"
    "th C2 = Inr ((), C3)" "case None of None \<Rightarrow> nir D = nir C3 @ [NLabel else_l] | Some m \<Rightarrow> True"
    by (rule if_parts [OF a(1)]) simp
  have e: "prefix (nir C3 @ NLabel else_l # []) P" using p(4) a(2) by simp
  have j: "prefix (nir C1 @ Ins ''jz'' [Vr v, Lb else_l] # []) P"
    using prefix_drop [OF e] flow_parts(1) [OF assms(2) p(3)] p(2) by (metis prefix_order.trans)
  obtain h where h: "reach P (length (nir C), g) (label_at P else_l, h)" "in_regs B s h"
    using test_reach [OF p(1) assms(1) a(4,3) j] by auto
  have "reach P (label_at P else_l, h) (length (nir D), h)"
    using reach_one [OF label_move [OF e]] p(4) label_at_prefix [OF assms(3) e] by simp
  with h show "\<exists>h. reach P (length (nir C), g) (exit_pc P C D Normal, h) \<and> in_regs B s h"
    by (auto simp: exit_pc_def intro: reach_trans)
qed

lemma simulates_else_some:
  assumes "word_expr s c = Some 0" "word_syntax c" "simulates P B s m r t" "flow th" "still th" "flow m" "distinct (label_defs P)"
  shows "simulates P B s (if_code c th (Some m)) r t"
  unfolding simulates_def
proof (intro allI impI)
  fix C D g
  assume a: "if_code c th (Some m) C = Inr ((), D)" "prefix (nir D) P" "sees B C" "in_regs B s g" "0 \<le> loop_depth C"
    "r \<noteq> Normal \<longrightarrow> loop_depth C \<noteq> 0"
  obtain else_l v C1 C2 C3 end_l C4 C5 where p: "emit_cond c C = Inr (v, C1)" "nir C2 = nir C1 @ [Ins ''jz'' [Vr v, Lb else_l]]"
    "next_vreg C2 = next_vreg C1" "scope C2 = [] # scope C1" "isr_names C2 = isr_names C1" "loop_state C2 = loop_state C"
    "th C2 = Inr ((), C3)" "nir C4 = nir C3 @ [Ins ''jmp'' [Lb end_l], NLabel else_l]" "next_vreg C4 = next_vreg C3"
    "scope C4 = [] # tl (scope C3)" "isr_names C4 = isr_names C3" "loop_state C4 = loop_state C3" "m C4 = Inr ((), C5)"
    "nir D = nir C5 @ [NLabel end_l]"
    by (rule if_parts [OF a(1)]) auto
  have e: "prefix (nir C5 @ NLabel end_l # []) P" using a(2) p(14) by simp
  have l: "prefix ((nir C3 @ [Ins ''jmp'' [Lb end_l]]) @ NLabel else_l # []) P"
    using flow_parts(1) [OF assms(6) p(13)] p(8) prefix_drop [OF e] prefix_order.trans by fastforce
  have "prefix (nir C2) P"
    using flow_parts(1) [OF assms(4) p(7)] prefix_drop [OF prefix_drop [OF l]] by (rule prefix_order.trans)
  then have j: "prefix (nir C1 @ Ins ''jz'' [Vr v, Lb else_l] # []) P" using p(2) by simp
  obtain h where h: "reach P (length (nir C), g) (label_at P else_l, h)" "in_regs B s h"
    using test_reach [OF p(1) assms(1) a(4,3) j] by auto
  have h2: "reach P (label_at P else_l, h) (length (nir C4), h)"
    using reach_one [OF label_move [OF l]] p(8) label_at_prefix [OF assms(7) l] by simp
  have st: "still_rel C2 C3" by (rule doesD [OF assms(5) p(7)])
  have "sees B C4"
    by (rule sees_inner [OF a(3) doesD [OF still_cond [OF assms(2)] p(1)]]) (use st p(3-5,9-11) in \<open>simp_all add: still_rel_def\<close>)
  moreover have ls: "loop_state C4 = loop_state C" using p(6,12) flow_parts(2) [OF assms(4) p(7)] by simp
  moreover from ls have "loop_depth C4 = loop_depth C" by (simp add: loop_state_def)
  ultimately obtain i where i: "reach P (length (nir C4), h) (exit_pc P C4 C5 r, i)" "in_regs B t i"
    using simulatesD [OF assms(3) p(13) prefix_drop [OF e] _ h(2)] a(5,6) by metis
  have "reach P (length (nir C5), i) (length (nir D), i)"
    using reach_one [OF label_move [OF e]] p(14) by simp
  then have "reach P (exit_pc P C4 C5 r, i) (exit_pc P C D r, i)"
    using ls by (cases r) (auto simp: exit_pc_def loop_state_def)
  with h(1) h2 i show "\<exists>h. reach P (length (nir C), g) (exit_pc P C D r, h) \<and> in_regs B t h" by (blast intro: reach_trans)
qed


text \<open>One test of a loop: the end of the loop or the start of its body.\<close>

lemma while_test:
  assumes "while_code c m C = Inr ((), D)" "prefix (nir D) P" "sees B C" "in_regs B s g" "0 \<le> loop_depth C"
    "word_expr s c = Some w" "word_syntax c" "flow m" "distinct (label_defs P)"
  obtains h C5 C6 where
    "in_regs B s h" "w = 0 \<Longrightarrow> reach P (length (nir C), g) (length (nir D), h)"
    "w \<noteq> 0 \<Longrightarrow> reach P (length (nir C), g) (length (nir C5), h)" "m C5 = Inr ((), C6)" "prefix (nir C6) P" "sees B C5"
    "0 < loop_depth C5" "\<And>r i. r \<noteq> Broken \<Longrightarrow> reach P (exit_pc P C5 C6 r, i) (length (nir C), i)"
    "\<And>i. reach P (exit_pc P C5 C6 Broken, i) (length (nir D), i)"
proof -
  obtain top_l end_l v C2 C3 C5 C6 where p: "nir C2 = nir C @ [NLabel top_l]" "still_rel C C2" "emit_cond c C2 = Inr (v, C3)"
    "nir C5 = nir C3 @ [Ins ''jz'' [Vr v, Lb end_l]]" "next_vreg C5 = next_vreg C3" "scope C5 = [] # scope C3"
    "isr_names C5 = isr_names C3" "loop_break_label C5 = end_l" "loop_continue_label C5 = top_l"
    "loop_depth C5 = loop_depth C + 1" "m C5 = Inr ((), C6)" "nir D = nir C6 @ [Ins ''jmp'' [Lb top_l], NLabel end_l]"
    by (rule while_parts [OF assms(1)])
  have e: "prefix ((nir C6 @ [Ins ''jmp'' [Lb top_l]]) @ NLabel end_l # []) P" using assms(2) p(12) by simp
  have q: "prefix (nir C6 @ Ins ''jmp'' [Lb top_l] # []) P" using prefix_drop [OF e] by simp
  have P5: "prefix (nir C5) P" using flow_parts(1) [OF assms(8) p(11)] prefix_drop [OF q] by (rule prefix_order.trans)
  then have j: "prefix (nir C3 @ Ins ''jz'' [Vr v, Lb end_l] # []) P" using p(4) by simp
  have t: "prefix (nir C @ NLabel top_l # []) P"
    using prefix_order.trans [OF cond_parts(1) [OF p(3)] prefix_drop [OF j]] p(1) by simp
  have sC2: "sees B C2" using assms(3) p(2) by (rule sees_still)
  obtain h where h: "reach P (length (nir C2), g) (if w = 0 then label_at P end_l else Suc (length (nir C3)), h)" "in_regs B s h"
    using test_reach [OF p(3) assms(6,4) sC2 j] by blast
  have first: "reach P (length (nir C), g) (if w = 0 then label_at P end_l else Suc (length (nir C3)), h)"
    using reach_move [OF label_move [OF t]] h(1) p(1) by simp
  have last: "reach P (label_at P end_l, i) (length (nir D), i)" for i
    using reach_one [OF label_move [OF e]] label_at_prefix [OF assms(9) e] p(12) by simp
  have to_top: "reach P (length (nir C6), i) (length (nir C), i)" for i
    using reach_one [OF jmp_move [OF q]] label_at_prefix [OF assms(9) t] by simp
  have top_at: "label_at P top_l = length (nir C)" by (rule label_at_prefix [OF assms(9) t])
  show ?thesis
  proof (rule that [OF h(2) _ _ p(11) prefix_drop [OF q]])
    show "reach P (length (nir C), g) (length (nir D), h)" if "w = 0"
      using reach_trans [OF _ last] first that by simp
    show "reach P (length (nir C), g) (length (nir C5), h)" if "w \<noteq> 0" using first p(4) that by simp
    show "sees B C5" by (rule sees_inner [OF sC2 doesD [OF still_cond [OF assms(7)] p(3)] _ p(6,7)]) (simp add: p(5))
    show "0 < loop_depth C5" using assms(5) p(10) by simp
    show "reach P (exit_pc P C5 C6 r, i) (length (nir C), i)" if "r \<noteq> Broken" for r i
      using to_top that by (cases r) (simp_all add: exit_pc_def p(9) top_at rtranclp.rtrancl_refl)
    show "reach P (exit_pc P C5 C6 Broken, i) (length (nir D), i)" for i
      using last by (simp add: exit_pc_def p(8))
  qed
qed

lemma simulates_while_end:
  assumes "word_expr s c = Some 0" "word_syntax c" "flow m" "distinct (label_defs P)"
  shows "simulates P B s (while_code c m) Normal s"
  unfolding simulates_def exit_pc_def outcome.case
  using while_test [where s = s and w = 0, OF _ _ _ _ _ assms] by metis

lemma simulates_while_break:
  assumes "word_expr s c = Some w" "w \<noteq> 0" "word_syntax c" "flow m" "distinct (label_defs P)" "simulates P B s m Broken t"
  shows "simulates P B s (while_code c m) Normal t"
  unfolding simulates_def exit_pc_def outcome.case
proof (intro allI impI)
  fix C D g
  assume a: "while_code c m C = Inr ((), D)" "prefix (nir D) P" "sees B C" "in_regs B s g" "0 \<le> loop_depth C"
  obtain h C5 C6 where w: "in_regs B s h" "reach P (length (nir C), g) (length (nir C5), h)" "m C5 = Inr ((), C6)"
    "prefix (nir C6) P" "sees B C5" "0 < loop_depth C5" "\<And>i. reach P (exit_pc P C5 C6 Broken, i) (length (nir D), i)"
    by (rule while_test [OF a assms(1,3,4,5)]) (use assms(2) in blast)
  obtain i where i: "reach P (length (nir C5), h) (exit_pc P C5 C6 Broken, i)" "in_regs B t i"
    using simulatesD [OF assms(6) w(3-5,1)] w(6) by (metis less_imp_le less_irrefl)
  show "\<exists>h. reach P (length (nir C), g) (length (nir D), h) \<and> in_regs B t h"
    using reach_trans [OF w(2) reach_trans [OF i(1) w(7)]] i(2) by blast
qed

lemma simulates_while:
  assumes "word_expr s c = Some w" "w \<noteq> 0" "word_syntax c" "flow m" "distinct (label_defs P)" "simulates P B s m r t"
    "r \<noteq> Broken" "simulates P B t (while_code c m) Normal u"
  shows "simulates P B s (while_code c m) Normal u"
  unfolding simulates_def
proof (intro allI impI)
  fix C D g
  assume a: "while_code c m C = Inr ((), D)" "prefix (nir D) P" "sees B C" "in_regs B s g" "0 \<le> loop_depth C"
  obtain h C5 C6 where w: "in_regs B s h" "reach P (length (nir C), g) (length (nir C5), h)" "m C5 = Inr ((), C6)"
    "prefix (nir C6) P" "sees B C5" "0 < loop_depth C5" "\<And>i. reach P (exit_pc P C5 C6 r, i) (length (nir C), i)"
    by (rule while_test [OF a assms(1,3,4,5)]) (use assms(2,7) in blast)
  obtain i where i: "reach P (length (nir C5), h) (exit_pc P C5 C6 r, i)" "in_regs B t i"
    using simulatesD [OF assms(6) w(3-5,1)] w(6) by (metis less_imp_le less_irrefl)
  obtain k where k: "reach P (length (nir C), i) (exit_pc P C D Normal, k)" "in_regs B u k"
    using simulatesD [OF assms(8) a(1-3) i(2) a(5)] by blast
  show "\<exists>h. reach P (length (nir C), g) (exit_pc P C D Normal, h) \<and> in_regs B u h"
    using reach_trans [OF w(2) reach_trans [OF i(1) reach_trans [OF w(7) k(1)]]] k(2) by blast
qed

lemma simulates_exits:
  "simulates P B s (loop_exit loop_break_label) Broken s" "simulates P B s (loop_exit loop_continue_label) Continued s"
  unfolding simulates_def
  by (auto simp: loop_exit_def exit_pc_def run_simps split: if_splits intro!: exI reach_one jmp_move)


section \<open>Statements that end\<close>

lemma simulates_nil: "simulates P B s (ret ()) Normal s"
  by (rule simulates_runs) (auto simp: ret_def runs_def)

lemma flow_stmt_code: "flow (stmt_code st)"
  by (cases st) (simp_all add: flow_checks flow_stmts flow_simple_stmts flow_if_stmt flow_while_code flow_loop_exit flow.does_ret)

lemma simulates_emit_stmt: "word_stmt st \<Longrightarrow> simulates P B s (stmt_code st) r t \<Longrightarrow> simulates P B s (emit_stmt st) r t"
  by (drule emit_stmt_code, elim exE, erule ssubst, erule simulates_line, rule flow_stmt_code)

lemma simulates_stmt:
  "big s st r t \<Longrightarrow> word_stmt st \<Longrightarrow> distinct (label_defs P) \<Longrightarrow> simulates P B s (stmt_code st) r t"
  "bigs s ss r t \<Longrightarrow> list_all word_stmt ss \<Longrightarrow> distinct (label_defs P) \<Longrightarrow> simulates P B s (emit_stmt_list ss) r t"
proof (induction rule: big_bigs.inducts)
  case (big_assign s x e w ln m)
  show ?case
  proof (rule simulates_runs)
    fix C D g assume a: "stmt_code (STMT_ASSIGN ln [EXPR_IDENT m x] e []) C = Inr ((), D)" "sees B C" "in_regs B s g"
    obtain b E where E: "assign_code [EXPR_IDENT m x] e C = Inr (b, E)" using a(1) by (auto simp: bnd_Inr)
    then have "D = E" using a(1) by (auto simp: bnd_Inr ret_def split: if_splits)
    with assign_runs [OF E big_assign.hyps(2,1) a(3,2)] show "\<exists>h. runs C g D h \<and> in_regs B (s(x \<mapsto> w)) h" by simp
  qed
next
  case (big_expr s e w ln)
  show ?case
  proof (rule simulates_runs)
    fix C D g assume a: "stmt_code (STMT_EXPR ln e) C = Inr ((), D)" "sees B C" "in_regs B s g"
    obtain v E h where E: "emit_expr_typed e C = Inr (v, E)" "advances (next_vreg C) C g E h"
      using emit_expr_yields [OF big_expr.hyps in_regs_sees [OF a(3,2)]] by (auto simp: yields_def)
    then have "D = E" using a(1) by (simp add: bnd_def ret_def)
    moreover have "in_regs B s h" by (rule in_regs_frame [OF a(3)]) (use E(2) a(2) in \<open>auto simp: advances_def sees_def\<close>)
    ultimately show "\<exists>h. runs C g D h \<and> in_regs B s h" using advances_runs [OF E(2)] by blast
  qed
next
  case (big_then s c w th r t ln el)
  then show ?case by (auto intro!: simulates_then flow_stmts)
next
  case (big_else s c el r t ln th)
  show ?case
  proof (cases el)
    case Nil
    then have "r = Normal \<and> t = s" using big_else.hyps(2) by (auto elim: bigs.cases)
    with Nil big_else show ?thesis by (simp add: simulates_else_none flow_stmts)
  next
    case (Cons a as)
    with big_else show ?thesis by (simp del: emit_stmt_list.simps add: simulates_else_some flow_stmts still_stmts)
  qed
next
  case (big_while s c w b r t ln u)
  then show ?case by (simp add: simulates_while flow_stmts)
next
  case (bigs_cons s st t ss r u)
  then show ?case
    unfolding emit_stmt_list.simps
    by (intro simulates_seq [OF simulates_emit_stmt] flow_stmts still_stmts) simp_all
next
  case (bigs_stop s st r t ss)
  then show ?case
    unfolding emit_stmt_list.simps by (intro simulates_stop [OF simulates_emit_stmt] flow_stmts) simp_all
qed (simp_all add: simulates_while_end simulates_while_break simulates_exits flow_stmts simulates_nil)


section \<open>The property\<close>

text \<open>A loop that counts \<^verbatim>\<open>x\<close> down and is left by \<^verbatim>\<open>break\<close>.\<close>

definition count_down :: "stmt_t list" where
  "count_down =
     [STMT_WHILE 1 (EXPR_LIT_INT 1 1)
        [STMT_ASSIGN 2 [EXPR_IDENT 2 ''x''] (EXPR_BINOP 2 NIB_SUB (EXPR_IDENT 2 ''x'') (EXPR_LIT_INT 2 1)) [],
         STMT_IF 3 (EXPR_BINOP 3 NIB_EQ (EXPR_IDENT 3 ''x'') (EXPR_LIT_INT 3 0)) [STMT_BREAK 3] [STMT_CONTINUE 4]]]"

lemma count_down_runs: "bigs [''x'' \<mapsto> 2] count_down Normal [''x'' \<mapsto> 0]"
proof -
  let ?set = "STMT_ASSIGN 2 [EXPR_IDENT 2 ''x''] (EXPR_BINOP 2 NIB_SUB (EXPR_IDENT 2 ''x'') (EXPR_LIT_INT 2 1)) []"
  let ?if = "STMT_IF 3 (EXPR_BINOP 3 NIB_EQ (EXPR_IDENT 3 ''x'') (EXPR_LIT_INT 3 0)) [STMT_BREAK 3] [STMT_CONTINUE 4]"
  have set1: "big [''x'' \<mapsto> w] ?set Normal [''x'' \<mapsto> v]" if "v = w - 1" for v w
    using big_assign [of "[''x'' \<mapsto> w]" "''x''" _ v] that by (simp add: op_word_def)
  have stop: "big [''x'' \<mapsto> 0] ?if Broken [''x'' \<mapsto> 0]"
    by (rule big_then [of _ _ 1]) (auto simp: op_word_def flag_word_def intro: bigs_stop big_break)
  have more: "big [''x'' \<mapsto> 1] ?if Continued [''x'' \<mapsto> 1]"
    by (rule big_else) (auto simp: op_word_def flag_word_def intro: bigs_stop big_continue)
  have "big [''x'' \<mapsto> 1] (STMT_WHILE 1 (EXPR_LIT_INT 1 1) [?set, ?if]) Normal [''x'' \<mapsto> 0]"
    by (rule big_while_break [of _ _ 1]) (use bigs_cons [OF set1 [of 0 1] bigs_stop [OF stop]] in simp_all)
  then have "big [''x'' \<mapsto> 2] (STMT_WHILE 1 (EXPR_LIT_INT 1 1) [?set, ?if]) Normal [''x'' \<mapsto> 0]"
    by (intro big_while [OF _ _ bigs_cons [OF set1 [of 1 2] bigs_stop [OF more]], of _ 1]) simp_all
  then show ?thesis unfolding count_down_def by (rule bigs_cons [OF _ bigs_nil])
qed



end
