(* ===== verification/Compile_Flags.thy ===== *)
theory Compile_Flags
  imports Compile_Effect
begin

text \<open>
  The jumps of a flag check. They only go forward, to a label of the check or to the label that
  skips its body, so a run of them needs no program counter. For one flag, its negation, a
  disjunction and a conjunction of flags the body is entered exactly when the condition holds; for
  the exclusive or it is entered only when the first flag is set and the second is not.
\<close>

section \<open>Conditions\<close>

fun flag_holds :: "(int \<Rightarrow> bool) \<Rightarrow> flag_expr \<Rightarrow> bool" where
  "flag_holds F (FEXPR_FLAG f) = F f"
| "flag_holds F (FEXPR_NOT a) = (\<not> flag_holds F a)"
| "flag_holds F (FEXPR_OR a b) = (flag_holds F a \<or> flag_holds F b)"
| "flag_holds F (FEXPR_AND a b) = (flag_holds F a \<and> flag_holds F b)"
| "flag_holds F (FEXPR_XOR a b) = (flag_holds F a \<noteq> flag_holds F b)"

text \<open>The flags that conditional jumps can test: carry, parity, zero, sign and overflow.\<close>

definition test_flag :: "int \<Rightarrow> bool" where
  "test_flag f \<longleftrightarrow> f \<in> {0, 1, 3, 4, 7}"

definition testable :: "flag_expr \<Rightarrow> bool" where
  "testable e = (case e of FEXPR_FLAG f \<Rightarrow> test_flag f | _ \<Rightarrow> False)"

fun plain_condition :: "flag_expr \<Rightarrow> bool" where
  "plain_condition (FEXPR_FLAG f) = testable (FEXPR_FLAG f)"
| "plain_condition (FEXPR_NOT a) = testable a"
| "plain_condition (FEXPR_OR a b) = (testable a \<and> testable b)"
| "plain_condition (FEXPR_AND a b) = (testable a \<and> testable b)"
| "plain_condition (FEXPR_XOR a b) = (testable a \<and> testable b)"

section \<open>Jumps\<close>

definition jump_taken :: "(int \<Rightarrow> bool) \<Rightarrow> string \<Rightarrow> bool" where
  "jump_taken F n =
     (if n = ''jmp'' then True
      else if n = ''jc'' then F 0 else if n = ''jnc'' then \<not> F 0
      else if n = ''jp'' then F 1 else if n = ''jnp'' then \<not> F 1
      else if n = ''jz'' then F 3 else if n = ''jnz'' then \<not> F 3
      else if n = ''js'' then F 4 else if n = ''jns'' then \<not> F 4
      else if n = ''jo'' then F 7 else if n = ''jno'' then \<not> F 7 else False)"

datatype flag_exit = Fell | Jumped int

lemma tl_dropWhile_length: "length (dropWhile P ls) - Suc 0 < Suc (length ls)"
  using length_dropWhile_le [of P ls] by simp

function flag_run :: "(int \<Rightarrow> bool) \<Rightarrow> nir list \<Rightarrow> flag_exit" where
  "flag_run F [] = Fell"
| "flag_run F (l # ls) =
     (case l of
        Ins n [Lb k] \<Rightarrow>
          if jump_taken F n
          then if NLabel k \<in> set ls then flag_run F (tl (dropWhile (\<lambda>x. x \<noteq> NLabel k) ls)) else Jumped k
          else flag_run F ls
      | _ \<Rightarrow> flag_run F ls)"
  by pat_completeness auto
termination
  by (relation "measure (\<lambda>(F, ls). length ls)") (simp_all add: tl_dropWhile_length)

lemma flag_names:
  "flag_id_to_jcc 0 = ''jc''" "flag_id_to_jcc 1 = ''jp''" "flag_id_to_jcc 3 = ''jz''" "flag_id_to_jcc 4 = ''js''"
  "flag_id_to_jcc 7 = ''jo''" "flag_id_to_jncc 0 = ''jnc''" "flag_id_to_jncc 1 = ''jnp''" "flag_id_to_jncc 3 = ''jnz''"
  "flag_id_to_jncc 4 = ''jns''" "flag_id_to_jncc 7 = ''jno''"
  by code_simp+

lemma flag_jumps:
  "test_flag f \<Longrightarrow> jump_taken F (flag_id_to_jcc f) = F f"
  "test_flag f \<Longrightarrow> jump_taken F (flag_id_to_jncc f) = (\<not> F f)"
  "jump_taken F ''jmp''"
  by (auto simp: test_flag_def flag_names jump_taken_def)



end
