(* ===== verification/Nib_Ast_Build.thy ===== *)
theory Nib_Ast_Build
  imports Compile_Main
begin

text \<open>
  The constructor functions of \<^verbatim>\<open>src/ast.c\<close> that the grammar calls for expressions,
  statements, register lists and declarations, with the defaults that zeroed memory gives: no
  checks, no initializer, not public. A list argument is the chain of \<^verbatim>\<open>next\<close> pointers.
\<close>

section \<open>Types and expressions\<close>

definition mk_type_struct :: "string \<Rightarrow> type_t" where
  "mk_type_struct nm = TYPE_STRUCT (Some nm)"

definition mk_expr_int :: "int \<Rightarrow> int \<Rightarrow> expr_t" where
  "mk_expr_int v line = EXPR_LIT_INT line v"

definition mk_expr_str :: "string \<Rightarrow> int \<Rightarrow> expr_t" where
  "mk_expr_str s line = EXPR_LIT_STR line s"

definition mk_expr_ident :: "string \<Rightarrow> int \<Rightarrow> expr_t" where
  "mk_expr_ident nm line = EXPR_IDENT line nm"

definition mk_expr_flag :: "int \<Rightarrow> int \<Rightarrow> expr_t" where
  "mk_expr_flag i line = EXPR_FLAG line i"

definition mk_expr_binop :: "op_kind \<Rightarrow> expr_t \<Rightarrow> expr_t \<Rightarrow> int \<Rightarrow> expr_t" where
  "mk_expr_binop k l r line = EXPR_BINOP line k l r"

definition mk_expr_unop :: "op_kind \<Rightarrow> expr_t \<Rightarrow> int \<Rightarrow> expr_t" where
  "mk_expr_unop k e line = EXPR_UNOP line k e"

definition mk_expr_call :: "expr_t \<Rightarrow> expr_t list \<Rightarrow> int \<Rightarrow> expr_t" where
  "mk_expr_call f args line = EXPR_CALL line f args"

definition mk_expr_field :: "expr_t \<Rightarrow> string \<Rightarrow> int \<Rightarrow> expr_t" where
  "mk_expr_field obj nm line = EXPR_FIELD line obj nm"

definition mk_expr_raw_field :: "expr_t \<Rightarrow> string \<Rightarrow> int \<Rightarrow> expr_t" where
  "mk_expr_raw_field obj nm line = EXPR_RAW_FIELD line obj nm"

definition mk_expr_cast :: "expr_t \<Rightarrow> type_t \<Rightarrow> int \<Rightarrow> expr_t" where
  "mk_expr_cast e target line = EXPR_CAST line e target"

definition mk_expr_array_init :: "expr_t list \<Rightarrow> int \<Rightarrow> expr_t" where
  "mk_expr_array_init es line = EXPR_ARRAY_INIT line es"

definition mk_expr_indirect_call :: "expr_t \<Rightarrow> string \<Rightarrow> string option \<Rightarrow> expr_t list \<Rightarrow> int \<Rightarrow> expr_t" where
  "mk_expr_indirect_call addr nm modl args line = EXPR_INDIRECT_CALL line addr nm modl args"

definition mk_expr_near_indirect_call :: "expr_t \<Rightarrow> string \<Rightarrow> expr_t list \<Rightarrow> int \<Rightarrow> expr_t" where
  "mk_expr_near_indirect_call addr nm args line = EXPR_NEAR_INDIRECT_CALL line addr nm args"

section \<open>Statements\<close>

definition mk_stmt_vardecl :: "type_t \<Rightarrow> string option \<Rightarrow> int \<Rightarrow> reg_class \<Rightarrow> expr_t option \<Rightarrow> int \<Rightarrow> stmt_t" where
  "mk_stmt_vardecl ty nm reg rc ini line = STMT_VARDECL line ty nm reg rc ini False"

definition mk_stmt_assign :: "expr_t list \<Rightarrow> expr_t \<Rightarrow> int \<Rightarrow> stmt_t" where
  "mk_stmt_assign targets v line = STMT_ASSIGN line targets v []"

definition mk_stmt_toggle :: "expr_t \<Rightarrow> expr_t \<Rightarrow> int \<Rightarrow> stmt_t" where
  "mk_stmt_toggle target v line = STMT_TOGGLE_ASSIGN line target v []"

definition mk_stmt_expr :: "expr_t \<Rightarrow> int \<Rightarrow> stmt_t" where
  "mk_stmt_expr e line = STMT_EXPR line e"

definition mk_stmt_if :: "expr_t \<Rightarrow> stmt_t list \<Rightarrow> stmt_t list \<Rightarrow> int \<Rightarrow> stmt_t" where
  "mk_stmt_if c th el line = STMT_IF line c th el"

definition mk_stmt_while :: "expr_t \<Rightarrow> stmt_t list \<Rightarrow> int \<Rightarrow> stmt_t" where
  "mk_stmt_while c body line = STMT_WHILE line c body"

definition mk_stmt_for :: "expr_t \<Rightarrow> expr_t \<Rightarrow> stmt_t list \<Rightarrow> int \<Rightarrow> stmt_t" where
  "mk_stmt_for start fin body line = STMT_FOR line start fin body"

definition mk_stmt_return :: "expr_t list \<Rightarrow> int \<Rightarrow> stmt_t" where
  "mk_stmt_return es line = STMT_RETURN line es"

definition mk_fexpr_flag :: "int \<Rightarrow> flag_expr" where
  "mk_fexpr_flag i = FEXPR_FLAG i"

definition mk_fexpr_not :: "flag_expr \<Rightarrow> flag_expr" where
  "mk_fexpr_not e = FEXPR_NOT e"

text \<open>The kind is one of the three binary ones, given here as the operator.\<close>

definition mk_fexpr_binop :: "op_kind \<Rightarrow> flag_expr \<Rightarrow> flag_expr \<Rightarrow> flag_expr" where
  "mk_fexpr_binop k l r =
     (if k = NIB_OR then FEXPR_OR l r else if k = NIB_AND then FEXPR_AND l r else FEXPR_XOR l r)"

definition mk_flag_case :: "flag_expr \<Rightarrow> stmt_t list \<Rightarrow> flag_case" where
  "mk_flag_case c body = FLAG_CASE c body False"

definition mk_flag_case_trap :: "flag_expr \<Rightarrow> flag_case" where
  "mk_flag_case_trap c = FLAG_CASE c [] True"

definition mk_stmt_assign_checked :: "expr_t list \<Rightarrow> expr_t \<Rightarrow> flag_case list \<Rightarrow> int \<Rightarrow> stmt_t" where
  "mk_stmt_assign_checked targets v checks line = STMT_ASSIGN line targets v checks"

definition mk_stmt_toggle_checked :: "expr_t \<Rightarrow> expr_t \<Rightarrow> flag_case list \<Rightarrow> int \<Rightarrow> stmt_t" where
  "mk_stmt_toggle_checked target v checks line = STMT_TOGGLE_ASSIGN line target v checks"

definition mk_stmt_break :: "int \<Rightarrow> stmt_t" where
  "mk_stmt_break line = STMT_BREAK line"

definition mk_stmt_continue :: "int \<Rightarrow> stmt_t" where
  "mk_stmt_continue line = STMT_CONTINUE line"

definition mk_stmt_goto :: "string \<Rightarrow> int \<Rightarrow> stmt_t" where
  "mk_stmt_goto label line = STMT_GOTO line label"

definition mk_stmt_tailcall :: "expr_t \<Rightarrow> int \<Rightarrow> stmt_t" where
  "mk_stmt_tailcall e line = STMT_TAILCALL line e"

definition mk_stmt_label :: "string \<Rightarrow> int \<Rightarrow> stmt_t" where
  "mk_stmt_label nm line = STMT_LABEL line nm"

text \<open>The list is kept only with an annotation; the flag tells which of the two it is.\<close>

definition mk_stmt_asm :: "string \<Rightarrow> reg_item list \<Rightarrow> bool \<Rightarrow> bool \<Rightarrow> int \<Rightarrow> stmt_t" where
  "mk_stmt_asm body annotation clob ann line = STMT_ASM line body (if ann then annotation else []) clob ann"

definition mk_stmt_const :: "string \<Rightarrow> int \<Rightarrow> int \<Rightarrow> stmt_t" where
  "mk_stmt_const nm v line = STMT_CONST line nm v None"

definition mk_stmt_const_expr :: "string \<Rightarrow> expr_t option \<Rightarrow> int \<Rightarrow> stmt_t" where
  "mk_stmt_const_expr nm ini line = STMT_CONST line nm 0 ini"

section \<open>Lists\<close>

definition return_list_append :: "return_t list \<Rightarrow> return_t \<Rightarrow> return_t list" where
  "return_list_append rs r = rs @ [r]"

definition return_list_count :: "return_t list \<Rightarrow> int" where
  "return_list_count rs = int (length rs)"

definition mk_reg_list :: "int \<Rightarrow> reg_class \<Rightarrow> reg_item" where
  "mk_reg_list i rc = \<lparr>ri_id = i, ri_class = rc, is_flags_all = False\<rparr>"

definition mk_reg_list_flags_all :: reg_item where
  "mk_reg_list_flags_all = \<lparr>ri_id = 0, ri_class = REGCLASS_WORD, is_flags_all = True\<rparr>"

section \<open>Declarations\<close>

definition mk_decl_fn :: "string \<Rightarrow> fn_modifiers \<Rightarrow> param_t list \<Rightarrow> return_t list \<Rightarrow> stmt_t list \<Rightarrow> int \<Rightarrow> decl_t" where
  "mk_decl_fn nm m params rets body line =
     DECL_FN \<lparr>fd_line = line, fd_pub = False, fd_name = nm, fd_mods = m, fd_params = params, fd_returns = rets,
              fd_body = body\<rparr>"

definition mk_decl_struct :: "string \<Rightarrow> bool \<Rightarrow> field_t list \<Rightarrow> int \<Rightarrow> decl_t" where
  "mk_decl_struct nm aligned fs line = DECL_STRUCT False nm aligned fs"

text \<open>The pinned register of a global is stored by the C code and read by nothing.\<close>

definition mk_decl_global :: "type_t \<Rightarrow> string option \<Rightarrow> expr_t option \<Rightarrow> bool \<Rightarrow> int \<Rightarrow> int \<Rightarrow> int \<Rightarrow> decl_t" where
  "mk_decl_global ty nm ini h sg off line =
     DECL_GLOBAL \<lparr>gd_line = line, gd_pub = False, gd_type = ty, gd_name = nm, gd_init = ini, gd_has_at = h,
                  gd_at_seg = sg, gd_at_off = off, gd_at_exprs = None\<rparr>"

definition mk_decl_global_expr :: "type_t \<Rightarrow> string option \<Rightarrow> expr_t option \<Rightarrow> bool \<Rightarrow> (expr_t \<times> expr_t) option \<Rightarrow> int \<Rightarrow> decl_t" where
  "mk_decl_global_expr ty nm ini h es line =
     DECL_GLOBAL \<lparr>gd_line = line, gd_pub = False, gd_type = ty, gd_name = nm, gd_init = ini, gd_has_at = h,
                  gd_at_seg = 0, gd_at_off = 0, gd_at_exprs = es\<rparr>"

definition mk_decl_extern_global :: "type_t \<Rightarrow> string \<Rightarrow> int \<Rightarrow> decl_t" where
  "mk_decl_extern_global ty nm line =
     DECL_EXTERN_GLOBAL \<lparr>gd_line = line, gd_pub = False, gd_type = ty, gd_name = Some nm, gd_init = None,
                         gd_has_at = False, gd_at_seg = 0, gd_at_off = 0, gd_at_exprs = None\<rparr>"

definition mk_decl_extern_fn ::
  "string \<Rightarrow> fn_modifiers \<Rightarrow> param_t list \<Rightarrow> return_t list \<Rightarrow> reg_item list \<Rightarrow> (int \<times> int) option \<Rightarrow> int \<Rightarrow> decl_t" where
  "mk_decl_extern_fn nm m params rets pres addr line =
     DECL_EXTERN_FN \<lparr>xd_line = line, xd_pub = False, xd_name = nm, xd_mods = m, xd_params = params, xd_returns = rets,
                     xd_preserves = pres, xd_address = addr, xd_addr_exprs = None, xd_body = []\<rparr>"

definition mk_decl_extern_fn_expr ::
  "string \<Rightarrow> fn_modifiers \<Rightarrow> param_t list \<Rightarrow> return_t list \<Rightarrow> reg_item list \<Rightarrow> bool \<Rightarrow> (expr_t \<times> expr_t) option \<Rightarrow> int \<Rightarrow> decl_t" where
  "mk_decl_extern_fn_expr nm m params rets pres has_addr es line =
     DECL_EXTERN_FN \<lparr>xd_line = line, xd_pub = False, xd_name = nm, xd_mods = m, xd_params = params, xd_returns = rets,
                     xd_preserves = pres, xd_address = (if has_addr then Some (0, 0) else None), xd_addr_exprs = es,
                     xd_body = []\<rparr>"

definition mk_decl_use :: "string \<Rightarrow> int \<Rightarrow> decl_t" where
  "mk_decl_use path line = DECL_USE path"

definition mk_decl_const :: "string \<Rightarrow> int \<Rightarrow> int \<Rightarrow> decl_t" where
  "mk_decl_const nm v line = DECL_CONST False nm v None"

definition mk_decl_const_expr :: "string \<Rightarrow> expr_t option \<Rightarrow> int \<Rightarrow> decl_t" where
  "mk_decl_const_expr nm ini line = DECL_CONST False nm 0 ini"

definition mk_decl_at :: "int \<Rightarrow> int \<Rightarrow> int \<Rightarrow> decl_t" where
  "mk_decl_at sg off line = DECL_AT sg off None"

definition mk_decl_at_expr :: "expr_t \<Rightarrow> expr_t \<Rightarrow> int \<Rightarrow> decl_t" where
  "mk_decl_at_expr sg off line = DECL_AT 0 0 (Some (sg, off))"

definition mk_decl_endat :: "int \<Rightarrow> decl_t" where
  "mk_decl_endat line = DECL_ENDAT"

definition mk_program :: "decl_t list" where
  "mk_program = []"

definition program_add :: "decl_t list \<Rightarrow> decl_t option \<Rightarrow> decl_t list" where
  "program_add p d = (case d of None \<Rightarrow> p | Some d \<Rightarrow> p @ [d])"

end
